(* ===== verification/Prelude.thy ===== *)
theory Prelude
  imports Complex_Main "HOL-Library.Product_Lexorder"
begin

text \<open>
  Shared vocabulary of the development: outcomes (a thrown HTTP exception or a value),
  decimal money with the code's half-up rounding, rows of a table, and the generic lemmas
  and fact collections the component theories use.

  The collections: \<open>outcome_simps\<close> (how an outcome is chained), \<open>cents_intros\<close> (what keeps
  an amount on two decimal places) and \<open>money_simps\<close> (rounding such an amount changes
  nothing).
\<close>

named_theorems outcome_simps \<open>equations of chained outcomes\<close>
named_theorems cents_intros \<open>amounts with two decimal places\<close>
named_theorems money_simps \<open>rounding to two decimal places\<close>

section \<open>Outcomes\<close>

text \<open>
  The NestJS exceptions the services throw, each with its message (or its code where the
  code distinguishes errors by it). A thrown exception is the left injection.
\<close>

datatype err =
    BadRequest string
  | NotFound string
  | Forbidden string
  | Conflict string
  | Internal string
  | TooManyRequests string

type_synonym 'a outcome = "err + 'a"

definition chain :: "'a outcome \<Rightarrow> ('a \<Rightarrow> 'b outcome) \<Rightarrow> 'b outcome" where
  "chain m f = (case m of Inl e \<Rightarrow> Inl e | Inr x \<Rightarrow> f x)"

definition ensure :: "bool \<Rightarrow> err \<Rightarrow> unit outcome" where
  "ensure b e = (if b then Inr () else Inl e)"

lemma chain_Inl [simp, outcome_simps]: "chain (Inl e) f = Inl e"
  by (simp add: chain_def)

lemma chain_Inr [simp, outcome_simps]: "chain (Inr x) f = f x"
  by (simp add: chain_def)

lemma chain_eq_Inr [outcome_simps]:
  "chain m f = Inr y \<longleftrightarrow> (\<exists>x. m = Inr x \<and> f x = Inr y)"
  by (cases m) auto

lemma chain_eq_Inl [outcome_simps]:
  "chain m f = Inl e \<longleftrightarrow> m = Inl e \<or> (\<exists>x. m = Inr x \<and> f x = Inl e)"
  by (cases m) auto

lemma ensure_eq_Inr [simp, outcome_simps]: "ensure b e = Inr u \<longleftrightarrow> b"
  by (simp add: ensure_def)

lemma ensure_eq_Inl [simp, outcome_simps]: "ensure b e = Inl e' \<longleftrightarrow> \<not> b \<and> e' = e"
  by (auto simp: ensure_def)

lemma ensure_True [simp]: "ensure True e = Inr ()"
  by (simp add: ensure_def)

lemma ensure_False [simp]: "ensure False e = Inl e"
  by (simp add: ensure_def)

text \<open>A loop over rows that may throw: the first exception stops it.\<close>

fun fold_outcome :: "('a \<Rightarrow> 's \<Rightarrow> 's outcome) \<Rightarrow> 'a list \<Rightarrow> 's \<Rightarrow> 's outcome" where
  "fold_outcome f [] s = Inr s"
| "fold_outcome f (x # xs) s = chain (f x s) (fold_outcome f xs)"

lemma fold_outcome_invariant:
  assumes "fold_outcome f xs s = Inr t" and "P s"
    and "\<And>x s t. x \<in> set xs \<Longrightarrow> P s \<Longrightarrow> f x s = Inr t \<Longrightarrow> P t"
  shows "P t"
  using assms
proof (induction xs arbitrary: s)
  case Nil
  then show ?case by simp
next
  case (Cons x xs)
  from Cons.prems(1) obtain u where u: "f x s = Inr u" "fold_outcome f xs u = Inr t"
    by (auto simp: outcome_simps)
  from Cons.prems(2,3) u(1) have "P u" by auto
  with u(2) show ?case by (rule Cons.IH) (use Cons.prems(3) in auto)
qed

section \<open>Decimal money\<close>

text \<open>
  A \<open>Prisma.Decimal\<close> is a rational. The amounts the services keep are columns
  \<open>Decimal(18, 2)\<close>, on which decimal.js (20 significant digits) adds, subtracts and compares
  exactly; \<open>money x\<close> is \<open>x.toDecimalPlaces(2, ROUND_HALF_UP)\<close>, which rounds a tie away from
  zero. Quotients and products, where decimal.js itself rounds, are parameters of the
  definitions that use them.
\<close>

type_synonym decimal = rat

definition half_up :: "rat \<Rightarrow> int" where
  "half_up y = (if 0 \<le> y then \<lfloor>y + 1 / 2\<rfloor> else - \<lfloor>- y + 1 / 2\<rfloor>)"

definition money :: "decimal \<Rightarrow> decimal" where
  "money x = of_int (half_up (x * 100)) / 100"

definition is_cents :: "decimal \<Rightarrow> bool" where
  "is_cents x \<longleftrightarrow> of_int \<lfloor>x * 100\<rfloor> = x * 100"

text \<open>\<open>EPSILON\<close>, the tolerance the repayment code uses.\<close>

definition EPSILON :: decimal where
  "EPSILON = 1 / 100"

text \<open>Evaluating the rounding of a literal.\<close>

lemma floor_rat_numeral [simp]:
  "\<lfloor>(numeral a / numeral b :: rat)\<rfloor> = numeral a div numeral b"
  "\<lfloor>(1 / numeral b :: rat)\<rfloor> = 1 div numeral b"
  "\<lfloor>(- (numeral a / numeral b) :: rat)\<rfloor> = - numeral a div numeral b"
  "\<lfloor>(- (1 / numeral b) :: rat)\<rfloor> = - 1 div numeral b"
  using floor_divide_of_int_eq [of "numeral a" "numeral b", where 'a = rat]
    floor_divide_of_int_eq [of 1 "numeral b", where 'a = rat]
    floor_divide_of_int_eq [of "- numeral a" "numeral b", where 'a = rat]
    floor_divide_of_int_eq [of "- 1" "numeral b", where 'a = rat]
  by simp_all

lemma half_up_of_int [simp]: "half_up (of_int k) = k"
proof -
  have *: "\<lfloor>of_int j + 1 / 2 :: rat\<rfloor> = j" for j :: int
    by (rule floor_unique) auto
  from * [of k] * [of "- k"] show ?thesis by (simp add: half_up_def)
qed

lemma half_up_nonneg: "0 \<le> y \<Longrightarrow> 0 \<le> half_up y"
  by (simp add: half_up_def)

lemma half_up_bounds: "of_int (half_up y) - y \<le> 1 / 2 \<and> y - of_int (half_up y) \<le> 1 / 2"
proof (cases "0 \<le> y")
  case True
  have "of_int \<lfloor>y + 1 / 2\<rfloor> \<le> y + 1 / 2" "y + 1 / 2 < of_int \<lfloor>y + 1 / 2\<rfloor> + 1"
    by linarith+
  with True show ?thesis unfolding half_up_def by simp linarith
next
  case False
  have "of_int \<lfloor>- y + 1 / 2\<rfloor> \<le> - y + 1 / 2" "- y + 1 / 2 < of_int \<lfloor>- y + 1 / 2\<rfloor> + 1"
    by linarith+
  with False show ?thesis unfolding half_up_def by simp linarith
qed

lemma is_cents_iff: "is_cents x \<longleftrightarrow> (\<exists>k::int. x = of_int k / 100)"
proof
  assume "is_cents x"
  then have "x = of_int \<lfloor>x * 100\<rfloor> / 100"
    unfolding is_cents_def by (subst nonzero_eq_divide_eq) (auto simp only:)
  then show "\<exists>k::int. x = of_int k / 100" by blast
next
  assume "\<exists>k::int. x = of_int k / 100"
  then show "is_cents x" by (auto simp: is_cents_def)
qed

lemma money_cents [simp, money_simps]: "is_cents x \<Longrightarrow> money x = x"
  by (auto simp: is_cents_iff money_def)

lemma is_cents_money [simp, cents_intros]: "is_cents (money x)"
  by (auto simp: is_cents_iff money_def)

lemma is_cents_0 [simp, cents_intros]: "is_cents 0"
  by (simp add: is_cents_def)

lemma cents_numeral [simp, cents_intros]: "is_cents (numeral n)"
  by (simp add: is_cents_def)

lemma cents_one [simp, cents_intros]: "is_cents 1"
  by (simp add: is_cents_def)

lemma is_cents_EPSILON [simp, cents_intros]: "is_cents EPSILON"
  by (simp add: is_cents_def EPSILON_def)

lemma is_cents_add [simp, cents_intros]: "is_cents x \<Longrightarrow> is_cents y \<Longrightarrow> is_cents (x + y)"
  unfolding is_cents_iff by (metis add_divide_distrib of_int_add)

lemma is_cents_diff [simp, cents_intros]: "is_cents x \<Longrightarrow> is_cents y \<Longrightarrow> is_cents (x - y)"
  unfolding is_cents_iff by (metis diff_divide_distrib of_int_diff)

lemma is_cents_min [simp, cents_intros]: "is_cents x \<Longrightarrow> is_cents y \<Longrightarrow> is_cents (min x y)"
  by (simp add: min_def)

lemma is_cents_max [simp, cents_intros]: "is_cents x \<Longrightarrow> is_cents y \<Longrightarrow> is_cents (max x y)"
  by (simp add: max_def)

lemma is_cents_sum_list [cents_intros]:
  "\<forall>x \<in> set xs. is_cents x \<Longrightarrow> is_cents (sum_list xs)"
  by (induction xs) auto

lemma money_0 [simp, money_simps]: "money 0 = 0"
  by simp

lemma money_nonneg: "0 \<le> x \<Longrightarrow> 0 \<le> money x"
  by (simp add: money_def half_up_nonneg)

lemma money_close: "\<bar>money x - x\<bar> \<le> 1 / 200"
proof -
  have "money x - x = (of_int (half_up (x * 100)) - x * 100) / 100"
    by (simp add: money_def field_simps)
  then show ?thesis
    unfolding abs_le_iff using half_up_bounds [of "x * 100"] by (elim ssubst) auto
qed

text \<open>Two amounts on cents that are less than a cent apart are equal.\<close>

lemma cents_eqI:
  assumes "is_cents x" "is_cents y" "\<bar>x - y\<bar> < EPSILON"
  shows "x = y"
proof -
  from assms(1,2) obtain k l :: int where "x = of_int k / 100" "y = of_int l / 100"
    by (auto simp: is_cents_iff)
  with assms(3) have "\<bar>of_int (k - l) :: rat\<bar> < 1"
    by (simp add: EPSILON_def abs_less_iff field_simps)
  then have "k = l" by linarith
  with \<open>x = of_int k / 100\<close> \<open>y = of_int l / 100\<close> show ?thesis by simp
qed

lemma cents_less_imp: "is_cents x \<Longrightarrow> is_cents y \<Longrightarrow> x < y \<Longrightarrow> x + EPSILON \<le> y"
proof (rule ccontr)
  assume "is_cents x" "is_cents y" "x < y" "\<not> x + EPSILON \<le> y"
  then have "\<bar>x - y\<bar> < EPSILON" by (simp add: abs_less_iff)
  with cents_eqI [OF \<open>is_cents x\<close> \<open>is_cents y\<close>] \<open>x < y\<close> show False by simp
qed

text \<open>
  Quotients and products of decimals: decimal.js rounds them to its precision, so they are
  parameters. \<open>exact_ops\<close> is the instance that does not round.
\<close>

record decimal_ops =
  dc_div :: "decimal \<Rightarrow> decimal \<Rightarrow> decimal"
  dc_mul :: "decimal \<Rightarrow> decimal \<Rightarrow> decimal"

definition exact_ops :: decimal_ops where
  "exact_ops = \<lparr>dc_div = (/), dc_mul = (*)\<rparr>"

text \<open>
  What the code relies on: the quotient and the product of non-negative decimals are
  non-negative.
\<close>

definition ops_nonneg :: "decimal_ops \<Rightarrow> bool" where
  "ops_nonneg R \<longleftrightarrow> (\<forall>x y. 0 \<le> x \<longrightarrow> 0 \<le> y \<longrightarrow> 0 \<le> dc_div R x y \<and> 0 \<le> dc_mul R x y)"

lemma exact_ops_simps [simp]: "dc_div exact_ops = (/)" "dc_mul exact_ops = (*)"
  by (simp_all add: exact_ops_def)

lemma ops_nonneg_exact [simp]: "ops_nonneg exact_ops"
  by (simp add: ops_nonneg_def)

section \<open>Rows\<close>

text \<open>
  A table is the list of its rows. \<open>find\<close> is \<open>findFirst\<close>/\<open>findUnique\<close>; \<open>update_where\<close> is
  \<open>update\<close>/\<open>updateMany\<close>.
\<close>

definition update_where :: "('a \<Rightarrow> bool) \<Rightarrow> ('a \<Rightarrow> 'a) \<Rightarrow> 'a list \<Rightarrow> 'a list" where
  "update_where P f rows = map (\<lambda>r. if P r then f r else r) rows"

lemma update_where_Nil [simp]: "update_where P f [] = []"
  by (simp add: update_where_def)

lemma update_where_Cons [simp]:
  "update_where P f (r # rows) = (if P r then f r else r) # update_where P f rows"
  by (simp add: update_where_def)

lemma length_update_where [simp]: "length (update_where P f rows) = length rows"
  by (simp add: update_where_def)

lemma set_update_where:
  "r \<in> set (update_where P f rows) \<longleftrightarrow> (\<exists>q \<in> set rows. r = (if P q then f q else q))"
  by (auto simp: update_where_def)

lemma update_where_all:
  assumes "\<forall>r \<in> set rows. Q r" and "\<And>r. r \<in> set rows \<Longrightarrow> P r \<Longrightarrow> Q r \<Longrightarrow> Q (f r)"
  shows "\<forall>r \<in> set (update_where P f rows). Q r"
  using assms by (auto simp: set_update_where)

lemma map_update_where:
  assumes "\<And>r. P r \<Longrightarrow> g (f r) = g r"
  shows "map g (update_where P f rows) = map g rows"
  using assms by (auto simp: update_where_def)

lemma filter_update_where:
  assumes "\<And>r. P r \<Longrightarrow> g (f r) = g r" and "\<And>r. P r \<Longrightarrow> Q (f r) = Q r"
  shows "map g (filter Q (update_where P f rows)) = map g (filter Q rows)"
  using assms by (induction rows) auto

lemma find_SomeD: "find P xs = Some x \<Longrightarrow> x \<in> set xs \<and> P x"
  by (induction xs) (auto split: if_splits)

lemma find_NoneD: "find P xs = None \<Longrightarrow> x \<in> set xs \<Longrightarrow> \<not> P x"
  by (auto simp: find_None_iff)

lemma find_append:
  "find P (xs @ ys) = (case find P xs of None \<Rightarrow> find P ys | Some x \<Rightarrow> Some x)"
  by (induction xs) auto

text \<open>A loop that updates rows by their key, each row of the list once.\<close>

lemma fold_update_where:
  assumes "distinct (map k xs)" "\<And>i j. k (g i j) = k j"
  shows "fold (\<lambda>i. update_where (\<lambda>j. k j = k i) (g i)) xs rows =
    map (\<lambda>j. case find (\<lambda>i. k i = k j) xs of None \<Rightarrow> j | Some i \<Rightarrow> g i j) rows"
  using assms(1)
proof (induction xs arbitrary: rows)
  case (Cons i xs)
  have "find (\<lambda>i'. k i' = k j) xs = None" if "k j = k i" for j
    using Cons.prems that unfolding find_None_iff by (metis distinct.simps(2) image_eqI list.simps(9) set_map)
  with Cons show ?case by (auto simp: update_where_def assms(2))
qed simp

lemma find_own_key:
  assumes "distinct (map k xs)" "x \<in> set xs"
  shows "find (\<lambda>y. k y = k x) xs = Some x"
  using assms by (induction xs) (auto simp: rev_image_eqI)

lemma fold_update_where_own:
  assumes "distinct (map k rows)" "distinct (map k xs)" "set xs \<subseteq> set rows" "\<And>i j. k (g i j) = k j"
  shows "fold (\<lambda>i. update_where (\<lambda>j. k j = k i) (g i)) xs rows =
    map (\<lambda>j. if j \<in> set xs then g j j else j) rows"
proof (rule trans [OF fold_update_where], rule assms(2), rule assms(4), rule map_cong [OF refl])
  fix j assume j: "j \<in> set rows"
  show "(case find (\<lambda>i. k i = k j) xs of None \<Rightarrow> j | Some i \<Rightarrow> g i j) = (if j \<in> set xs then g j j else j)"
  proof (cases "j \<in> set xs")
    case True
    then show ?thesis using find_own_key [OF assms(2)] by simp
  next
    case False
    have "k i \<noteq> k j" if "i \<in> set xs" for i
      using that False j assms(1,3) by (metis distinct_map inj_onD subsetD)
    then have "find (\<lambda>i. k i = k j) xs = None" by (auto simp: find_None_iff)
    with False show ?thesis by simp
  qed
qed

lemma find_update_one:
  assumes "\<And>q. k (f q) = k q"
  shows "find (\<lambda>q. k q = i) (update_where (\<lambda>q. k q = i') f rows) =
    map_option (if i' = i then f else (\<lambda>q. q)) (find (\<lambda>q. k q = i) rows)"
  by (induction rows) (auto simp: assms)

lemma find_update_keyed:
  assumes "\<And>q. k (f q) = k q" "\<And>q. P (f q) = P q"
  shows "find (\<lambda>q. k q = i \<and> P q) (update_where (\<lambda>q. k q = i) f rows) =
    map_option f (find (\<lambda>q. k q = i \<and> P q) rows)"
  using assms by (induction rows) auto

lemma sort_key_map_same:
  assumes "\<And>x. f (g x) = f x"
  shows "sort_key f (map g xs) = map g (sort_key f xs)"
proof -
  have "insort_key f (g x) (map g ys) = map g (insort_key f x ys)" for x ys
    by (induction ys) (simp_all add: assms)
  then show ?thesis by (induction xs) simp_all
qed

text \<open>Updating the one row with a key changes a sum by that row's change.\<close>

lemma sum_update_where:
  fixes f :: "'a \<Rightarrow> 'b::ab_group_add"
  assumes "distinct (map k rows)" "r \<in> set rows"
  shows "(\<Sum>x\<leftarrow>update_where (\<lambda>x. k x = k r) g rows. f x) = (\<Sum>x\<leftarrow>rows. f x) + (f (g r) - f r)"
  using assms
proof (induction rows)
  case (Cons x xs)
  show ?case
  proof (cases "k x = k r")
    case True
    then have "\<forall>y \<in> set xs. k y \<noteq> k r" using Cons.prems(1) by (metis distinct.simps(2) image_eqI list.simps(9) set_map)
    then have "update_where (\<lambda>x. k x = k r) g xs = xs"
      by (auto simp: update_where_def intro!: map_idI)
    moreover have "x = r" using True Cons.prems by auto
    ultimately show ?thesis by simp
  next
    case False
    with Cons show ?thesis by auto
  qed
qed simp

text \<open>A table whose rows have distinct keys, split at a row: an update by the key changes that row only.\<close>

lemma unique_row:
  assumes "distinct (map k rows)" "r \<in> set rows"
  obtains xs ys where "rows = xs @ r # ys" "k r \<notin> k ` (set xs \<union> set ys)"
    "\<And>f. update_where (\<lambda>q. k q = k r) f rows = xs @ f r # ys"
proof -
  obtain xs ys where s: "rows = xs @ r # ys" using assms(2) by (meson split_list)
  with assms(1) have n: "k r \<notin> k ` (set xs \<union> set ys)" by auto
  have "update_where (\<lambda>q. k q = k r) f zs = zs" if "set zs \<subseteq> set xs \<union> set ys" for f zs
    unfolding update_where_def using n that by (intro map_idI) (metis image_eqI subsetD)
  then have "update_where (\<lambda>q. k q = k r) f rows = xs @ f r # ys" for f
    using s by (simp add: update_where_def)
  with s n show thesis by (rule that)
qed

lemma update_where_own:
  assumes "distinct (map k rows)" and "r \<in> set rows" and "f r = r"
  shows "update_where (\<lambda>q. k q = k r) f rows = rows"
  using assms by (metis unique_row)

lemma update_where_twice:
  assumes "\<And>q. k (f q) = k q"
  shows "update_where (\<lambda>q. k q = i) g (update_where (\<lambda>q. k q = i) f rows) =
    update_where (\<lambda>q. k q = i) (\<lambda>q. g (f q)) rows"
  using assms by (induction rows) auto

text \<open>
  When the rows of a kind have distinct keys, they still have after a change of one row that keeps its
  key and does not make it one of the kind.
\<close>

lemma update_keeps_unique:
  assumes "distinct (map k rows)" "r \<in> set rows" "A (f r) \<Longrightarrow> A r" "distinct (map g (filter A rows))" "g (f r) = g r"
  shows "distinct (map g (filter A (update_where (\<lambda>q. k q = k r) f rows)))"
proof -
  obtain xs ys where s: "rows = xs @ r # ys" "update_where (\<lambda>q. k q = k r) f rows = xs @ f r # ys"
    using unique_row [OF assms(1,2)] by metis
  show ?thesis unfolding s(2) using assms(3-5) by (auto simp: s(1) split: if_splits)
qed

text \<open>Rows that correspond one by one.\<close>

lemma list_all2_right: "list_all2 P xs ys \<Longrightarrow> y \<in> set ys \<Longrightarrow> \<exists>x \<in> set xs. P x y"
  by (induction rule: list_all2_induct) auto

section \<open>Strings\<close>

text \<open>JavaScript's \<open>trim\<close>, on the white space that can occur in a header or a form field.\<close>

definition is_space :: "char \<Rightarrow> bool" where
  "is_space c \<longleftrightarrow> c \<in> set [CHR '' '', CHR 0x09, CHR 0x0A, CHR 0x0B, CHR 0x0C, CHR 0x0D]"

definition trim :: "string \<Rightarrow> string" where
  "trim s = rev (dropWhile is_space (rev (dropWhile is_space s)))"

lemma trim_Nil [simp]: "trim '''' = ''''"
  by (simp add: trim_def)

text \<open>\<open>x?.trim() || null\<close>: an empty string becomes \<open>null\<close>.\<close>

definition trim_or_null :: "string option \<Rightarrow> string option" where
  "trim_or_null s =
     (case s of None \<Rightarrow> None | Some x \<Rightarrow> (if trim x = '''' then None else Some (trim x)))"

text \<open>\<open>toUpperCase\<close> on ASCII letters.\<close>

definition upper_char :: "char \<Rightarrow> char" where
  "upper_char c =
     (if 97 \<le> (of_char c :: nat) \<and> (of_char c :: nat) \<le> 122
      then char_of ((of_char c :: nat) - 32) else c)"

definition to_upper :: "string \<Rightarrow> string" where
  "to_upper s = map upper_char s"

section \<open>Sums\<close>

lemma sum_list_map_add:
  "sum_list (map (\<lambda>x. f x + g x) xs) = sum_list (map f xs) + (sum_list (map g xs) :: 'a::comm_monoid_add)"
  by (induction xs) (auto simp: ac_simps)

lemma sum_list_nonneg_decimal: "\<forall>x \<in> set xs. (0::decimal) \<le> x \<Longrightarrow> 0 \<le> sum_list xs"
  by (induction xs) auto

lemma sum_list_map_nonneg:
  "\<forall>x \<in> set xs. (0::decimal) \<le> f x \<Longrightarrow> 0 \<le> (\<Sum>x\<leftarrow>xs. f x)"
  by (induction xs) auto

lemma sum_list_replicate_decimal: "sum_list (replicate n (x::decimal)) = of_nat n * x"
  by (induction n) (auto simp: algebra_simps)

end
