(* ===== verification/DataModel.thy ===== *)
theory DataModel
  imports Prelude
begin

text \<open>
  The rows the services read and write (\<open>apps/api/prisma/schema.prisma\<close>) and the database
  they share. A date is its number of milliseconds since the epoch, as JavaScript's
  \<open>getTime\<close> returns it; a \<open>Decimal(18, 2)\<close> column is a decimal; an identifier is a string.
  Columns no modelled operation reads are left out.
\<close>

section \<open>Enumerations\<close>

datatype loan_status =
    LS_DRAFT | LS_SUBMITTED | LS_UNDER_REVIEW | LS_REQUESTED_DOCUMENTS | LS_APPROVED
  | LS_READY_FOR_DISBURSEMENT | LS_DISBURSED | LS_OVERDUE | LS_WRITTEN_OFF | LS_SETTLED
  | LS_REPAID | LS_DEFAULTED | LS_REJECTED

datatype admin_role =
    CREDIT_OFFICER | RISK_MANAGER | OPS | COLLECTIONS | SYSTEM | SUPER_ADMIN | TENANT_ADMIN

datatype item_status = SI_PENDING | SI_PARTIAL | SI_PAID | SI_OVERDUE

datatype delinquency_status = DS_CURRENT | DS_OVERDUE | DS_CHARGED_OFF

datatype delinquency_bucket = B_CURRENT | DPD_1_30 | DPD_31_60 | DPD_61_90 | DPD_90_PLUS

datatype frequency = DAILY | WEEKLY | BIWEEKLY | MONTHLY

datatype channel = CH_MANUAL | CH_BANK_TRANSFER | CH_CARD | CH_USSD | CH_CASH

datatype direction = DEBIT | CREDIT

datatype entry_type = E_DISBURSEMENT | E_REPAYMENT | E_ACCRUAL | E_WRITE_OFF | E_ADJUSTMENT

datatype account_code =
    CASH_MAIN | CASH | LOANS_RECEIVABLE | LOAN_PRINCIPAL_RECEIVABLE | LOAN_CLEARING
  | INTEREST_RECEIVABLE | FEES_RECEIVABLE | CASH_ON_HAND | BANK_CLEARING | WALLET_CLEARING
  | INTEREST_INCOME | FEE_INCOME | PENALTY_INCOME | WRITE_OFF_EXPENSE | SUSPENSE
  | CAPITAL_POOL_AVAILABLE | CAPITAL_POOL_DEPLOYED | CAPITAL_POOL_REPAID | CAPITAL_POOL_LOSSES

datatype account_type = ASSET | LIABILITY | INCOME | EXPENSE | EQUITY

datatype pool_status = POOL_ACTIVE | POOL_PAUSED | POOL_CLOSED

datatype pool_type = TREASURY | INVESTOR | CREDIT_LINE

datatype allocation_status = A_RESERVED | A_DEPLOYED | A_RELEASED | A_WRITTEN_OFF

datatype idem_status = I_PENDING | I_COMPLETED | I_FAILED

datatype disbursement_status = D_PENDING | D_PROCESSING | D_SUCCESS | D_FAILED | D_REVERSED

datatype disbursement_method = DM_BANK_TRANSFER | DM_WALLET | DM_CASH | DM_MANUAL

datatype penalty_kind = PK_DAILY_PERCENT | PK_FLAT

datatype product_status = PS_DRAFT | PS_ACTIVE | PS_ARCHIVED

datatype case_status =
    CS_OPEN | CS_IN_PROGRESS | CS_PROMISE_TO_PAY | CS_BROKEN_PTP | CS_RESOLVED | CS_CLOSED | CS_WRITTEN_OFF

datatype case_stage = ST_SOFT | ST_FIELD | ST_LEGAL

datatype action_type =
    AT_CALL | AT_SMS | AT_WHATSAPP | AT_EMAIL | AT_VISIT | AT_NOTE | AT_PTP_SET | AT_PTP_BROKEN
  | AT_DISPUTE | AT_WAIVER | AT_WRITE_OFF | AT_OTHER

datatype flag_key = AUTO_APPROVAL | AUTO_DISBURSE | INTEREST_ACCRUAL | COLLECTIONS_AUTOMATION

datatype risk_decision = RD_APPROVE | RD_REVIEW | RD_DECLINE

datatype risk_trigger = AUTO_ON_SUBMISSION | MANUAL_ADMIN | SYSTEM_REEVAL

datatype hold_type =
    FRAUD_SUSPECTED | KYC_MISSING | DOCUMENTS_MISSING | POLICY_VIOLATION | MANUAL_REVIEW
  | COLLECTIONS_REVIEW | SYSTEM_VELOCITY

datatype severity = SEV_LOW | SEV_MEDIUM | SEV_HIGH | SEV_CRITICAL

datatype alert_status = AL_OPEN | AL_INVESTIGATING | AL_RESOLVED | AL_FALSE_POSITIVE | AL_ESCALATED

datatype hardship_type = PAYMENT_PAUSE | TENOR_EXTENSION | RATE_REDUCTION

datatype hardship_status = HS_REQUESTED | HS_UNDER_REVIEW | HS_APPROVED | HS_REJECTED | HS_CANCELLED

datatype interest_action = IA_PAUSED | IA_RESUMED | IA_OVERRIDE_SET | IA_OVERRIDE_REMOVED

section \<open>Rows\<close>

record loan =
  l_id :: string
  l_tenant :: string
  l_status :: loan_status
  l_currency :: string
  l_name :: string
  l_phone :: string
  l_purpose :: "string option"
  l_email :: "string option"
  l_address :: "string option"
  l_dob :: "int option"
  l_employment :: "string option"
  l_income :: "string option"
  l_device :: "string option"
  l_amount :: int
  l_term_days :: int
  l_tenor_months :: int
  l_frequency :: frequency
  l_annual_bps :: int
  l_requested :: decimal
  l_approved :: "decimal option"
  l_disbursed_amount :: "decimal option"
  l_disbursed_at :: "int option"
  l_out_principal :: decimal
  l_out_interest :: decimal
  l_out_fees :: decimal
  l_out_total :: decimal
  l_days_past_due :: int
  l_bucket :: "delinquency_bucket option"
  l_overdue_cents :: int
  l_delinquency :: delinquency_status
  l_last_delinquency :: "int option"
  l_penalty_accrued :: decimal
  l_penalty_paid :: decimal
  l_last_penalty :: "int option"
  l_written_off_at :: "int option"
  l_settled_at :: "int option"
  l_next_due :: "int option"
  l_repaid_at :: "int option"
  l_risk_score :: "int option"
  l_risk_decision :: "risk_decision option"
  l_risk_evaluated_at :: "int option"
  l_risk_evaluation :: "string option"
  l_annual_rate :: "decimal option"
  l_last_accrued :: "int option"
  l_int_paused :: bool
  l_int_paused_at :: "int option"
  l_int_paused_until :: "int option"
  l_int_pause_reason :: "string option"
  l_int_paused_by :: "string option"
  l_override_rate :: "decimal option"
  l_override_at :: "int option"
  l_override_by :: "string option"

record sched_item =
  si_id :: string
  si_tenant :: string
  si_loan :: string
  si_no :: nat
  si_due :: int
  si_principal_due :: decimal
  si_interest_due :: decimal
  si_fees_due :: decimal
  si_total_due :: decimal
  si_principal_paid :: decimal
  si_interest_paid :: decimal
  si_fees_paid :: decimal
  si_total_paid :: decimal
  si_status :: item_status
  si_paid_at :: "int option"
  si_is_overdue :: bool
  si_overdue_since :: "int option"

record repayment =
  rp_id :: string
  rp_tenant :: string
  rp_loan :: string
  rp_key :: string
  rp_amount :: decimal
  rp_currency :: string
  rp_posted_at :: int
  rp_channel :: channel
  rp_reference :: "string option"
  rp_created_by :: "string option"

record ledger_account =
  ac_id :: string
  ac_tenant :: string
  ac_code :: account_code
  ac_name :: string
  ac_type :: account_type
  ac_normal :: direction
  ac_currency :: string
  ac_system :: bool

record ledger_line =
  ln_tenant :: string
  ln_account :: string
  ln_direction :: direction
  ln_amount :: decimal
  ln_minor :: int
  ln_currency :: string

record ledger_entry =
  en_id :: string
  en_tenant :: string
  en_occurred :: int
  en_type :: entry_type
  en_key :: string
  en_ref_type :: string
  en_ref_id :: string
  en_created_by :: "string option"
  en_memo :: "string option"
  en_lines :: "ledger_line list"

text \<open>The numeric limits of a pool's \<open>rulesJson\<close>; a limit the JSON does not hold is \<open>None\<close>.\<close>

record pool_rules =
  ru_initial_capital :: "decimal option"
  ru_max_deployed :: "decimal option"
  ru_max_utilization :: "decimal option"
  ru_max_risk_band :: "(string \<times> decimal) list"

record pool =
  po_id :: string
  po_tenant :: string
  po_name :: string
  po_type :: pool_type
  po_status :: pool_status
  po_currency :: string
  po_external :: "string option"
  po_rules :: pool_rules
  po_created :: int

record allocation =
  al_id :: string
  al_tenant :: string
  al_pool :: string
  al_loan :: string
  al_status :: allocation_status
  al_reserved :: decimal
  al_deployed :: decimal
  al_released :: decimal
  al_written_off :: decimal
  al_created :: int

record pool_snapshot =
  ps_tenant :: string
  ps_pool :: string
  ps_date :: int
  ps_available :: decimal
  ps_deployed :: decimal
  ps_repaid :: decimal
  ps_losses :: decimal

record history =
  hi_tenant :: string
  hi_loan :: string
  hi_from :: "loan_status option"
  hi_to :: loan_status
  hi_note :: "string option"
  hi_by :: "string option"

record disbursement =
  di_id :: string
  di_tenant :: string
  di_loan :: string
  di_key :: string
  di_amount :: decimal
  di_currency :: string
  di_method :: disbursement_method
  di_status :: disbursement_status
  di_provider :: "string option"
  di_reference :: "string option"
  di_initiated_by :: "string option"
  di_processed_at :: "int option"
  di_failure :: "string option"
  di_disbursed_at :: "int option"

record disbursement_step =
  dh_tenant :: string
  dh_loan :: string
  dh_disbursement :: string
  dh_from :: "disbursement_status option"
  dh_to :: disbursement_status
  dh_note :: "string option"
  dh_by :: "string option"

record suspicious =
  su_tenant :: string
  su_entity_type :: string
  su_entity_id :: string
  su_reason :: string
  su_severity :: string
  su_created :: int

record penalty_rule =
  pr_id :: string
  pr_tenant :: string
  pr_product :: string
  pr_kind :: penalty_kind
  pr_rate_bps :: "int option"
  pr_flat :: "decimal option"
  pr_grace_days :: int
  pr_cap :: "decimal option"
  pr_paused :: bool
  pr_created :: int

record product =
  pd_id :: string
  pd_tenant :: string
  pd_status :: product_status
  pd_created :: int

record coll_case =
  ca_id :: string
  ca_tenant :: string
  ca_loan :: string
  ca_borrower :: string
  ca_opened :: int
  ca_status :: case_status
  ca_stage :: case_stage
  ca_dpd_open :: int
  ca_dpd :: int
  ca_outstanding_open :: decimal
  ca_outstanding :: decimal
  ca_promise :: "int option"
  ca_next_action :: "int option"
  ca_resolved_at :: "int option"
  ca_note :: "string option"
  ca_assigned :: "string option"
  ca_contact :: "int option"

record coll_action =
  cn_tenant :: string
  cn_case :: string
  cn_by :: "string option"
  cn_type :: action_type
  cn_note :: string

record activity =
  av_id :: string
  av_tenant :: string
  av_loan :: string
  av_type :: string
  av_note :: "string option"
  av_by :: string

record hardship =
  hs_id :: string
  hs_tenant :: string
  hs_borrower :: string
  hs_loan :: string
  hs_type :: hardship_type
  hs_reason :: string
  hs_tenor :: "int option"
  hs_rate :: "decimal option"
  hs_pause_days :: "int option"
  hs_status :: hardship_status
  hs_notes :: "string option"
  hs_approved_by :: "string option"
  hs_decided_at :: "int option"

record hardship_step =
  ht_request :: string
  ht_from :: hardship_status
  ht_to :: hardship_status
  ht_by :: "string option"

record interest_audit =
  ia_tenant :: string
  ia_loan :: string
  ia_action :: interest_action
  ia_previous :: "decimal option"
  ia_new :: "decimal option"
  ia_reason :: "string option"
  ia_by :: string

record feature_flag =
  ff_tenant :: string
  ff_key :: flag_key
  ff_enabled :: bool

record borrower_hold =
  bh_id :: string
  bh_tenant :: string
  bh_borrower :: string
  bh_reason :: string
  bh_admin :: "string option"
  bh_system :: bool
  bh_active :: bool
  bh_released :: "int option"
  bh_release_reason :: "string option"
  bh_created :: int

record loan_hold =
  lh_id :: string
  lh_tenant :: string
  lh_loan :: string
  lh_type :: hold_type
  lh_note :: "string option"
  lh_active :: bool
  lh_created_by :: string
  lh_resolved_at :: "int option"
  lh_resolved_by :: "string option"
  lh_resolution :: "string option"

text \<open>
  The configuration of a risk policy. The value of a rule is JSON; \<open>VUndef\<close> stands for an absent
  value.
\<close>

datatype rule_value =
    VUndef | VNull | VBool bool | VNum rat | VStr string | VArr "rule_value list"
  | VObj "(string \<times> rule_value) list"

datatype rule_operator = OP_EQ | OP_NE | OP_IN | OP_NIN | OP_GT | OP_GTE | OP_LT | OP_LTE | OP_EXISTS

record risk_rule =
  rl_code :: string
  rl_field :: string
  rl_operator :: rule_operator
  rl_value :: rule_value
  rl_message :: string
  rl_delta :: "int option"

record risk_config =
  rc_employment :: int
  rc_income :: int
  rc_repayment :: int
  rc_device :: int
  rc_kyc :: int
  rc_approve_min :: int
  rc_review_min :: int
  rc_hard :: "risk_rule list"
  rc_soft :: "risk_rule list"

text \<open>\<open>pl_config\<close> is \<open>None\<close> when the stored JSON does not satisfy the schema.\<close>

record risk_policy =
  pl_id :: string
  pl_tenant :: string
  pl_name :: string
  pl_version :: int
  pl_active :: bool
  pl_created :: int
  pl_created_by :: "string option"
  pl_config :: "risk_config option"

record contribution =
  cb_key :: string
  cb_delta :: int
  cb_description :: string

record risk_data =
  rd_contributions :: "contribution list"
  rd_hard :: "(string \<times> string) list"
  rd_soft :: "(string \<times> string) list"
  rd_final :: "int \<times> risk_decision"

record risk_reason =
  rs_code :: string
  rs_message :: string
  rs_data :: "risk_data option"

record risk_assessment =
  rk_score :: int
  rk_decision :: risk_decision
  rk_reasons :: "risk_reason list"

text \<open>What an evaluation looks at. \<open>sn_on_time\<close> is the quotient of two counts.\<close>

record risk_snapshot =
  sn_employment :: "string option"
  sn_income :: "string option"
  sn_kyc :: string
  sn_active_default :: bool
  sn_amount :: int
  sn_tenor :: int
  sn_on_time :: rat
  sn_defaults :: nat
  sn_derived_default :: bool
  sn_emulator :: "bool option"

record risk_eval =
  rv_id :: string
  rv_tenant :: string
  rv_loan :: string
  rv_borrower :: string
  rv_policy :: string
  rv_trigger :: risk_trigger
  rv_assessment :: risk_assessment
  rv_snapshot :: risk_snapshot
  rv_created_by :: "string option"
  rv_created :: int

record loan_assessment =
  la_tenant :: string
  la_loan :: string
  la_score :: int
  la_decision :: risk_decision
  la_reasons :: "risk_reason list"
  la_by :: "string option"

record fraud_alert =
  fa_id :: string
  fa_tenant :: string
  fa_borrower :: "string option"
  fa_loan :: "string option"
  fa_status :: alert_status
  fa_severity :: severity
  fa_auto :: bool
  fa_resolved_by :: "string option"
  fa_resolved :: "int option"
  fa_notes :: "string option"
  fa_created :: int

text \<open>\<open>pa_date\<close> is the day, as the number of days since the epoch, whose ISO string the code stores.\<close>

record penalty_accrual =
  pa_tenant :: string
  pa_loan :: string
  pa_date :: int
  pa_amount :: decimal

record delinquency_event =
  de_tenant :: string
  de_loan :: string
  de_dpd :: int
  de_bucket :: delinquency_bucket
  de_at :: int

record admin_user =
  au_id :: string
  au_tenant :: string
  au_role :: admin_role

text \<open>
  What the services ask of the audit, notification, fraud and outbox services: recorded in
  the order of the calls. Log lines and metrics are left out.
\<close>

datatype effect =
    Audit string string string           \<comment> \<open>action, entity, entity id\<close>
  | AuditEvent string string string      \<comment> \<open>the same, outside the transaction\<close>
  | RepaymentPosted string string decimal "string list"
      \<comment> \<open>repayment, loan, amount, admins notified\<close>
  | BehaviorSnapshot string decimal int  \<comment> \<open>borrower, amount repaid, when\<close>
  | OutboxEvent string string decimal    \<comment> \<open>event type, loan, amount\<close>
  | StatusEvent string loan_status loan_status          \<comment> \<open>outbox: loan, from, to\<close>
  | EscalationEvent string case_stage case_stage        \<comment> \<open>outbox: case, from, to\<close>
  | AuditTransition string loan_status loan_status
  | StatusChanged string loan_status loan_status "string list"
      \<comment> \<open>loan, from, to, admins notified\<close>
  | LoanDisbursed string string decimal "string list"
      \<comment> \<open>disbursement, loan, amount, admins notified\<close>
  | BehaviorCount string string                         \<comment> \<open>borrower, counter raised by one\<close>
  | BehaviorDisbursed string decimal
  | Notified string string "string list"  \<comment> \<open>template, entity id, recipients\<close>

record db =
  db_loans :: "loan list"
  db_items :: "sched_item list"
  db_repayments :: "repayment list"
  db_accounts :: "ledger_account list"
  db_entries :: "ledger_entry list"
  db_pools :: "pool list"
  db_allocs :: "allocation list"
  db_snapshots :: "pool_snapshot list"
  db_history :: "history list"
  db_disbursements :: "disbursement list"
  db_suspicious :: "suspicious list"
  db_rules :: "penalty_rule list"
  db_products :: "product list"
  db_accruals :: "penalty_accrual list"
  db_delinquency :: "delinquency_event list"
  db_admins :: "admin_user list"
  db_disb_history :: "disbursement_step list"
  db_cases :: "coll_case list"
  db_actions :: "coll_action list"
  db_activities :: "activity list"
  db_hardships :: "hardship list"
  db_hardship_history :: "hardship_step list"
  db_interest_audits :: "interest_audit list"
  db_flags :: "feature_flag list"
  db_borrower_holds :: "borrower_hold list"
  db_holds :: "loan_hold list"
  db_alerts :: "fraud_alert list"
  db_policies :: "risk_policy list"
  db_risk_evals :: "risk_eval list"
  db_assessments :: "loan_assessment list"
  db_assessment_log :: "loan_assessment list"
  db_effects :: "effect list"
  db_seq :: nat

definition empty_db :: db where
  "empty_db = \<lparr>db_loans = [], db_items = [], db_repayments = [], db_accounts = [],
     db_entries = [], db_pools = [], db_allocs = [], db_snapshots = [], db_history = [],
     db_disbursements = [], db_suspicious = [], db_rules = [], db_products = [],
     db_accruals = [], db_delinquency = [], db_admins = [],
     db_disb_history = [], db_cases = [], db_actions = [], db_activities = [], db_hardships = [],
     db_hardship_history = [], db_interest_audits = [], db_flags = [], db_borrower_holds = [],
     db_holds = [], db_alerts = [], db_policies = [], db_risk_evals = [], db_assessments = [],
     db_assessment_log = [], db_effects = [], db_seq = 0\<rparr>"

text \<open>
  The environment of a request: the clock and the identifiers the database hands out
  (\<open>cuid()\<close>), a parameter.
\<close>

record env =
  ev_now :: int
  ev_cuid :: "nat \<Rightarrow> string"

definition fresh :: "env \<Rightarrow> db \<Rightarrow> string \<times> db" where
  "fresh E D = (ev_cuid E (db_seq D), D\<lparr>db_seq := Suc (db_seq D)\<rparr>)"

text \<open>An environment with distinct identifiers and a loan, for the concrete instances.\<close>

definition sample_env :: env where
  "sample_env = \<lparr>ev_now = 1700000000000, ev_cuid = (\<lambda>n. replicate n (CHR ''x''))\<rparr>"

lemma sample_env_inj [simp]: "inj (ev_cuid sample_env)"
  by (rule injI) (auto simp: sample_env_def dest: arg_cong [of _ _ length])

definition sample_loan :: loan where
  "sample_loan =
     \<lparr>l_id = ''loan'', l_tenant = ''ten'', l_status = LS_DISBURSED, l_currency = ''NGN'', l_name = ''A'',
      l_phone = ''080'', l_purpose = None, l_email = None, l_address = None, l_dob = None, l_employment = None, l_income = None,
      l_device = None, l_amount = 100, l_term_days = 60, l_tenor_months = 2,
      l_frequency = MONTHLY, l_annual_bps = 1200, l_requested = 100, l_approved = Some 100,
      l_disbursed_amount = None, l_disbursed_at = None,
      l_out_principal = 100, l_out_interest = 16, l_out_fees = 4, l_out_total = 120,
      l_days_past_due = 0, l_bucket = None, l_overdue_cents = 0, l_delinquency = DS_CURRENT,
      l_last_delinquency = None, l_penalty_accrued = 0, l_penalty_paid = 0, l_last_penalty = None,
      l_written_off_at = None, l_settled_at = None, l_next_due = None, l_repaid_at = None,
      l_risk_score = None, l_risk_decision = None, l_risk_evaluated_at = None,
      l_risk_evaluation = None,
      l_annual_rate = None, l_last_accrued = None, l_int_paused = False, l_int_paused_at = None,
      l_int_paused_until = None, l_int_pause_reason = None, l_int_paused_by = None,
      l_override_rate = None, l_override_at = None, l_override_by = None\<rparr>"

definition sample_item :: "string \<Rightarrow> nat \<Rightarrow> int \<Rightarrow> sched_item" where
  "sample_item i n due =
     \<lparr>si_id = i, si_tenant = ''ten'', si_loan = ''loan'', si_no = n, si_due = due,
      si_principal_due = 50, si_interest_due = 8, si_fees_due = 2, si_total_due = 60,
      si_principal_paid = 0, si_interest_paid = 0, si_fees_paid = 0, si_total_paid = 0,
      si_status = SI_PENDING, si_paid_at = None, si_is_overdue = False, si_overdue_since = None\<rparr>"

definition sample_items :: "sched_item list" where
  "sample_items = [sample_item ''i1'' 1 1600000000000, sample_item ''i2'' 2 1800000000000]"

definition loan_db :: db where
  "loan_db = empty_db\<lparr>db_loans := [sample_loan], db_items := sample_items\<rparr>"

definition emit :: "effect \<Rightarrow> db \<Rightarrow> db" where
  "emit e D = D\<lparr>db_effects := db_effects D @ [e]\<rparr>"

text \<open>A loan found by id and tenant is found again after an update of its row.\<close>

lemma find_updated_loan:
  assumes "find (\<lambda>l. l_id l = loan \<and> l_tenant l = t) ls = Some l"
    and "\<And>m. l_id (f m) = l_id m \<and> l_tenant (f m) = l_tenant m" "distinct (map l_id ls)"
  shows "find (\<lambda>l. l_id l = loan \<and> l_tenant l = t) (update_where (\<lambda>m. l_id m = l_id l) f ls) = Some (f l)"
  using assms(1,3)
proof (induction ls)
  case (Cons m ls)
  show ?case
  proof (cases "l_id m = loan \<and> l_tenant m = t")
    case True
    then show ?thesis using Cons.prems assms(2) by auto
  next
    case False
    then have f: "find (\<lambda>l. l_id l = loan \<and> l_tenant l = t) ls = Some l" using Cons.prems by auto
    then have "l \<in> set ls" by (auto dest: find_SomeD)
    then have "l_id m \<noteq> l_id l" using Cons.prems by force
    with False f Cons show ?thesis by auto
  qed
qed simp

section \<open>Well-formed amounts\<close>

text \<open>Every amount of an instalment is a \<open>Decimal(18, 2)\<close>, and nothing is over-paid.\<close>

definition item_cents :: "sched_item \<Rightarrow> bool" where
  "item_cents i \<longleftrightarrow>
     is_cents (si_principal_due i) \<and> is_cents (si_interest_due i) \<and> is_cents (si_fees_due i) \<and>
     is_cents (si_total_due i) \<and>
     is_cents (si_principal_paid i) \<and> is_cents (si_interest_paid i) \<and> is_cents (si_fees_paid i) \<and>
     is_cents (si_total_paid i)"

definition item_ok :: "sched_item \<Rightarrow> bool" where
  "item_ok i \<longleftrightarrow> item_cents i \<and>
     0 \<le> si_principal_paid i \<and> si_principal_paid i \<le> si_principal_due i \<and>
     0 \<le> si_interest_paid i \<and> si_interest_paid i \<le> si_interest_due i \<and>
     0 \<le> si_fees_paid i \<and> si_fees_paid i \<le> si_fees_due i \<and>
     si_total_due i = si_principal_due i + si_interest_due i + si_fees_due i \<and>
     si_total_paid i = si_principal_paid i + si_interest_paid i + si_fees_paid i"

lemma item_ok_cents: "item_ok i \<Longrightarrow> item_cents i"
  by (simp add: item_ok_def)

lemma item_centsD [simp]:
  assumes "item_cents i"
  shows "is_cents (si_principal_due i)" "is_cents (si_interest_due i)" "is_cents (si_fees_due i)"
    "is_cents (si_total_due i)" "is_cents (si_principal_paid i)" "is_cents (si_interest_paid i)"
    "is_cents (si_fees_paid i)" "is_cents (si_total_paid i)"
  using assms by (auto simp: item_cents_def)

lemma emit_simps [simp]:
  "db_loans (emit e D) = db_loans D"
  "db_items (emit e D) = db_items D"
  "db_repayments (emit e D) = db_repayments D"
  "db_accounts (emit e D) = db_accounts D"
  "db_entries (emit e D) = db_entries D"
  "db_pools (emit e D) = db_pools D"
  "db_allocs (emit e D) = db_allocs D"
  "db_snapshots (emit e D) = db_snapshots D"
  "db_history (emit e D) = db_history D"
  "db_disbursements (emit e D) = db_disbursements D"
  "db_suspicious (emit e D) = db_suspicious D"
  "db_rules (emit e D) = db_rules D"
  "db_products (emit e D) = db_products D"
  "db_accruals (emit e D) = db_accruals D"
  "db_delinquency (emit e D) = db_delinquency D"
  "db_admins (emit e D) = db_admins D"
  "db_disb_history (emit e D) = db_disb_history D"
  "db_cases (emit e D) = db_cases D"
  "db_actions (emit e D) = db_actions D"
  "db_flags (emit e D) = db_flags D"
  "db_borrower_holds (emit e D) = db_borrower_holds D"
  "db_holds (emit e D) = db_holds D"
  "db_alerts (emit e D) = db_alerts D"
  "db_policies (emit e D) = db_policies D"
  "db_risk_evals (emit e D) = db_risk_evals D"
  "db_assessments (emit e D) = db_assessments D"
  "db_assessment_log (emit e D) = db_assessment_log D"
  "db_seq (emit e D) = db_seq D"
  by (simp_all add: emit_def)

end
