(* ===== verification/LoanLifecycle.thy ===== *)
theory LoanLifecycle
  imports DataModel
begin

text \<open>
  The life cycle of a tenant loan application: the transition map of
  \<open>loan-application-status-transition.ts\<close> and the role matrix of
  \<open>loan-application-transition-rbac.ts\<close>, with the step relation of a transition by a role.
\<close>

section \<open>The transition map\<close>

fun getAllowedTransitions :: "loan_status \<Rightarrow> loan_status list" where
  "getAllowedTransitions LS_DRAFT = [LS_SUBMITTED]"
| "getAllowedTransitions LS_SUBMITTED = [LS_UNDER_REVIEW, LS_REJECTED]"
| "getAllowedTransitions LS_UNDER_REVIEW = [LS_REQUESTED_DOCUMENTS, LS_APPROVED, LS_REJECTED]"
| "getAllowedTransitions LS_REQUESTED_DOCUMENTS = [LS_UNDER_REVIEW]"
| "getAllowedTransitions LS_APPROVED = [LS_READY_FOR_DISBURSEMENT]"
| "getAllowedTransitions LS_READY_FOR_DISBURSEMENT = [LS_APPROVED, LS_DISBURSED]"
| "getAllowedTransitions LS_DISBURSED = [LS_OVERDUE, LS_SETTLED, LS_REPAID, LS_DEFAULTED]"
| "getAllowedTransitions LS_OVERDUE =
     [LS_DISBURSED, LS_WRITTEN_OFF, LS_SETTLED, LS_REPAID, LS_DEFAULTED]"
| "getAllowedTransitions LS_WRITTEN_OFF = [LS_SETTLED]"
| "getAllowedTransitions LS_SETTLED = []"
| "getAllowedTransitions LS_REPAID = []"
| "getAllowedTransitions LS_DEFAULTED = []"
| "getAllowedTransitions LS_REJECTED = []"

definition assertValidTransition :: "loan_status \<Rightarrow> loan_status \<Rightarrow> unit outcome" where
  "assertValidTransition s t =
     (if t \<in> set (getAllowedTransitions s) then Inr ()
      else Inl (BadRequest ''Invalid status transition''))"

section \<open>The role matrix\<close>

fun role_matrix :: "admin_role \<Rightarrow> (loan_status \<times> loan_status) list" where
  "role_matrix CREDIT_OFFICER =
     [(LS_SUBMITTED, LS_UNDER_REVIEW), (LS_SUBMITTED, LS_REJECTED),
      (LS_UNDER_REVIEW, LS_REQUESTED_DOCUMENTS), (LS_REQUESTED_DOCUMENTS, LS_UNDER_REVIEW),
      (LS_APPROVED, LS_READY_FOR_DISBURSEMENT)]"
| "role_matrix RISK_MANAGER =
     [(LS_UNDER_REVIEW, LS_APPROVED), (LS_UNDER_REVIEW, LS_REJECTED)]"
| "role_matrix OPS =
     [(LS_READY_FOR_DISBURSEMENT, LS_DISBURSED), (LS_DISBURSED, LS_REPAID)]"
| "role_matrix COLLECTIONS =
     [(LS_DISBURSED, LS_DEFAULTED), (LS_DISBURSED, LS_REPAID), (LS_OVERDUE, LS_WRITTEN_OFF),
      (LS_OVERDUE, LS_SETTLED), (LS_OVERDUE, LS_DEFAULTED), (LS_OVERDUE, LS_REPAID),
      (LS_WRITTEN_OFF, LS_SETTLED)]"
| "role_matrix SYSTEM =
     [(LS_SUBMITTED, LS_REJECTED), (LS_DISBURSED, LS_OVERDUE), (LS_OVERDUE, LS_DISBURSED),
      (LS_DISBURSED, LS_REPAID), (LS_OVERDUE, LS_REPAID)]"
| "role_matrix SUPER_ADMIN = []"
| "role_matrix TENANT_ADMIN = []"

fun normalizeRole :: "admin_role \<Rightarrow> admin_role" where
  "normalizeRole TENANT_ADMIN = CREDIT_OFFICER"
| "normalizeRole r = r"

definition roleCanTransition :: "admin_role \<Rightarrow> loan_status \<Rightarrow> loan_status \<Rightarrow> bool" where
  "roleCanTransition r s t =
     (let role = normalizeRole r
      in if role = SUPER_ADMIN then True else (s, t) \<in> set (role_matrix role))"

definition assertRoleCanTransition ::
  "admin_role \<Rightarrow> loan_status \<Rightarrow> loan_status \<Rightarrow> unit outcome" where
  "assertRoleCanTransition r s t =
     (if roleCanTransition r s t then Inr ()
      else Inl (Forbidden ''Role cannot transition''))"

lemma assertValidTransition_Inr [simp, outcome_simps]:
  "assertValidTransition s t = Inr u \<longleftrightarrow> t \<in> set (getAllowedTransitions s)"
  by (simp add: assertValidTransition_def)

lemma assertRoleCanTransition_Inr [simp, outcome_simps]:
  "assertRoleCanTransition r s t = Inr u \<longleftrightarrow> roleCanTransition r s t"
  by (simp add: assertRoleCanTransition_def)

section \<open>Steps and runs\<close>

text \<open>
  A guarded transition is one that passes both checks, in the order the services make them.
  \<open>transition\<close> is that pair of calls.
\<close>

definition transition :: "admin_role \<Rightarrow> loan_status \<Rightarrow> loan_status \<Rightarrow> loan_status outcome" where
  "transition r s t =
     chain (assertValidTransition s t) (\<lambda>_. chain (assertRoleCanTransition r s t) (\<lambda>_. Inr t))"

inductive step :: "loan_status \<Rightarrow> admin_role \<Rightarrow> loan_status \<Rightarrow> bool" where
  step: "transition r s t = Inr t \<Longrightarrow> step s r t"

inductive run :: "loan_status \<Rightarrow> admin_role list \<Rightarrow> loan_status \<Rightarrow> bool" where
  stop: "run s [] s"
| more: "step s r t \<Longrightarrow> run t rs u \<Longrightarrow> run s (r # rs) u"

inductive_simps step_iff: "step s r t"
inductive_cases run_NilE [elim!]: "run s [] u"
inductive_cases run_ConsE [elim!]: "run s (r # rs) u"

lemma step_code:
  "step s r t \<longleftrightarrow> t \<in> set (getAllowedTransitions s) \<and> roleCanTransition r s t"
  by (simp add: step_iff transition_def outcome_simps)

text \<open>The statuses after disbursement, and the phases before it.\<close>

definition funded :: "loan_status \<Rightarrow> bool" where
  "funded s \<longleftrightarrow> s \<in> {LS_DISBURSED, LS_OVERDUE, LS_WRITTEN_OFF, LS_SETTLED, LS_REPAID, LS_DEFAULTED}"

definition terminal :: "loan_status \<Rightarrow> bool" where
  "terminal s \<longleftrightarrow> getAllowedTransitions s = []"

lemma step_funded: "step s r t \<Longrightarrow> funded s \<Longrightarrow> funded t"
  unfolding step_code by (cases s) (auto simp: funded_def)

lemma run_funded: "run s rs t \<Longrightarrow> funded s \<Longrightarrow> funded t"
  by (induction rule: run.induct) (auto dest: step_funded)

lemma run_append: "run s rs t \<Longrightarrow> run t qs u \<Longrightarrow> run s (rs @ qs) u"
  by (induction rule: run.induct) (auto intro: run.more)

text \<open>
  What each stage of the approval asks for: from a status, the roles that must still act
  before the loan is disbursed.
\<close>

fun still_needed :: "loan_status \<Rightarrow> admin_role set" where
  "still_needed LS_SUBMITTED = {CREDIT_OFFICER, RISK_MANAGER, OPS}"
| "still_needed LS_UNDER_REVIEW = {CREDIT_OFFICER, RISK_MANAGER, OPS}"
| "still_needed LS_REQUESTED_DOCUMENTS = {CREDIT_OFFICER, RISK_MANAGER, OPS}"
| "still_needed LS_APPROVED = {CREDIT_OFFICER, OPS}"
| "still_needed LS_READY_FOR_DISBURSEMENT = {OPS}"
| "still_needed s = {}"

lemma step_still_needed:
  assumes "step s r t" "r \<noteq> SUPER_ADMIN" "\<not> funded s" "s \<noteq> LS_DRAFT"
  shows "still_needed s \<subseteq> insert (normalizeRole r) (still_needed t) \<or> t = LS_REJECTED"
  using assms unfolding step_code roleCanTransition_def funded_def
  by (cases r; cases s) auto

lemma run_still_needed:
  assumes "run s rs t" "t = LS_DISBURSED" "SUPER_ADMIN \<notin> set rs" "s \<noteq> LS_DRAFT"
  shows "still_needed s \<subseteq> normalizeRole ` set rs"
  using assms
proof (induction rule: run.induct)
  case (stop s)
  then show ?case by simp
next
  case (more s r t rs u)
  show ?case
  proof (cases "funded s")
    case True
    then have "still_needed s = {}" by (auto simp: funded_def)
    then show ?thesis by simp
  next
    case False
    have "t \<noteq> LS_REJECTED"
    proof
      assume "t = LS_REJECTED"
      with more.hyps(2) more.prems(1) show False
        by (cases rs) (auto simp: step_code)
    qed
    moreover have "t \<noteq> LS_DRAFT"
      using more.hyps(1) unfolding step_code by (cases s) auto
    ultimately show ?thesis
      using step_still_needed [OF more.hyps(1)] more.IH more.prems False by auto
  qed
qed

section \<open>Properties\<close>

text \<open>
  Separation of duties, as far as the map and the matrix alone decide: a run of transitions that pass both,
  without a super admin, from \<open>SUBMITTED\<close> to \<open>DISBURSED\<close> has an action of a credit officer (or of the legacy
  tenant admin that counts as one), one of a risk manager and one of operations. Services that set a status
  without asking them are not bound by it: the verification of a payout, and the orchestrator for the system.
\<close>

lemma disbursement_needs_three_roles:
  assumes "run LS_SUBMITTED rs LS_DISBURSED" "SUPER_ADMIN \<notin> set rs"
  shows "CREDIT_OFFICER \<in> normalizeRole ` set rs \<and> RISK_MANAGER \<in> set rs \<and> OPS \<in> set rs"
proof -
  have needed: "{CREDIT_OFFICER, RISK_MANAGER, OPS} \<subseteq> normalizeRole ` set rs"
    using run_still_needed [OF assms(1) refl assms(2)] by simp
  have "r = RISK_MANAGER" if "normalizeRole r = RISK_MANAGER" for r
    using that by (cases r) auto
  moreover have "r = OPS" if "normalizeRole r = OPS" for r
    using that by (cases r) auto
  ultimately have "RISK_MANAGER \<in> set rs" "OPS \<in> set rs"
    using needed by (metis imageE insert_subset)+
  with needed show ?thesis by simp
qed

lemma approval_run:
  "run LS_SUBMITTED [TENANT_ADMIN, RISK_MANAGER, CREDIT_OFFICER, OPS] LS_DISBURSED"
proof -
  have "step LS_SUBMITTED TENANT_ADMIN LS_UNDER_REVIEW" "step LS_UNDER_REVIEW RISK_MANAGER LS_APPROVED"
    "step LS_APPROVED CREDIT_OFFICER LS_READY_FOR_DISBURSEMENT"
    "step LS_READY_FOR_DISBURSEMENT OPS LS_DISBURSED"
    by (simp_all add: step_code roleCanTransition_def Let_def)
  then show ?thesis by (blast intro: run.intros)
qed

lemma disbursement_needs_three_roles_witness:
  "CREDIT_OFFICER \<in> normalizeRole ` set [TENANT_ADMIN, RISK_MANAGER, CREDIT_OFFICER, OPS]"
  using disbursement_needs_three_roles [OF approval_run] by simp

text \<open>
  C17. The role matrix refines the transition map: what a role other than the super admin may
  do is a transition the life cycle has, so for these roles the role check alone decides.
\<close>

theorem role_matrix_refines_map:
  assumes "r \<noteq> SUPER_ADMIN"
  shows "transition r s t = (if roleCanTransition r s t then Inr t
     else if t \<in> set (getAllowedTransitions s) then Inl (Forbidden ''Role cannot transition'')
     else Inl (BadRequest ''Invalid status transition''))"
proof -
  have "t \<in> set (getAllowedTransitions s)" if "roleCanTransition r s t"
    using that assms by (cases r) (auto simp: roleCanTransition_def Let_def)
  then show ?thesis
    by (auto simp: transition_def assertValidTransition_def assertRoleCanTransition_def)
qed

theorem role_matrix_refines_map_witness:
  "transition OPS LS_OVERDUE LS_REPAID = Inl (Forbidden ''Role cannot transition'')"
  using role_matrix_refines_map [of OPS LS_OVERDUE LS_REPAID]
  by (simp add: roleCanTransition_def Let_def)

text \<open>
  Money that is out stays accounted for: no run of guarded transitions, by any roles,
  leads from a disbursed loan back to an application, and a terminal status is final.
\<close>

lemma funded_is_absorbing:
  assumes "run s rs t" "funded s"
  shows "funded t \<and> (terminal s \<longrightarrow> rs = [] \<and> t = s)"
proof
  show "funded t" using assms by (rule run_funded)
next
  show "terminal s \<longrightarrow> rs = [] \<and> t = s"
    using assms(1) by (cases rs) (auto simp: step_code terminal_def)
qed

lemma funded_is_absorbing_witness:
  "run LS_OVERDUE [COLLECTIONS, COLLECTIONS] LS_SETTLED \<and> funded LS_SETTLED"
proof -
  have "step LS_OVERDUE COLLECTIONS LS_WRITTEN_OFF" "step LS_WRITTEN_OFF COLLECTIONS LS_SETTLED"
    by (simp_all add: step_code roleCanTransition_def Let_def)
  then have r: "run LS_OVERDUE [COLLECTIONS, COLLECTIONS] LS_SETTLED"
    by (blast intro: run.intros)
  moreover have "funded LS_SETTLED"
    using funded_is_absorbing [OF r] by (simp add: funded_def)
  ultimately show ?thesis ..
qed

text \<open>
  Three transitions of the map have no role: only a super admin can submit a draft, send a
  loan that is ready for disbursement back to \<open>APPROVED\<close>, or settle a \<open>DISBURSED\<close> loan.
\<close>

lemma transitions_without_a_role:
  "{(s, t). t \<in> set (getAllowedTransitions s) \<and>
      (\<forall>r. roleCanTransition r s t = (r = SUPER_ADMIN))} =
   {(LS_DRAFT, LS_SUBMITTED), (LS_READY_FOR_DISBURSEMENT, LS_APPROVED), (LS_DISBURSED, LS_SETTLED)}"
proof -
  have all: "(\<forall>r. P r) \<longleftrightarrow> P CREDIT_OFFICER \<and> P RISK_MANAGER \<and> P OPS \<and> P COLLECTIONS \<and>
      P SYSTEM \<and> P SUPER_ADMIN \<and> P TENANT_ADMIN" for P
    by (metis admin_role.exhaust)
  have "(t \<in> set (getAllowedTransitions s) \<and>
      (\<forall>r. roleCanTransition r s t = (r = SUPER_ADMIN))) \<longleftrightarrow>
    (s, t) \<in> {(LS_DRAFT, LS_SUBMITTED), (LS_READY_FOR_DISBURSEMENT, LS_APPROVED),
      (LS_DISBURSED, LS_SETTLED)}" for s t
    unfolding all by (cases s) (auto simp: roleCanTransition_def Let_def)
  then show ?thesis by blast
qed

end
