(* ===== verification/Calendar.thy ===== *)
theory Calendar
  imports DataModel
begin

text \<open>
  The part of JavaScript's UTC calendar the schedules use. A date is in milliseconds;
  \<open>month_start n\<close> is the day number of the first day of month \<open>n\<close> (twelve times the year plus
  the month, counted from 0), and \<open>month_of_day\<close> is the month a day lies in. Setting a month
  keeps the day of the month and runs over into the next month when it is too long, as
  \<open>setUTCMonth\<close> does.
\<close>

definition ms_per_day :: int where
  "ms_per_day = 86400000"

definition month_start :: "int \<Rightarrow> int" where
  "month_start n =
     (let y = (n - 2) div 12; m = (n - 2) mod 12
      in 365 * y + y div 4 - y div 100 + y div 400 + (153 * m + 2) div 5 - 719468)"

definition month_of_day :: "int \<Rightarrow> int" where
  "month_of_day d =
     (let z = d + 719468; era = z div 146097; doe = z mod 146097;
          yoe = (doe - doe div 1460 + doe div 36524 - doe div 146096) div 365;
          doy = doe - (365 * yoe + yoe div 4 - yoe div 100)
      in 12 * (yoe + era * 400) + (5 * doy + 2) div 153 + 2)"

text \<open>\<open>MakeDate(MakeDay(y, m, dt), time)\<close>, with the month as one number.\<close>

definition make_date :: "int \<Rightarrow> int \<Rightarrow> int \<Rightarrow> int" where
  "make_date n dt time = (month_start n + dt - 1) * ms_per_day + time"

definition utc_month :: "int \<Rightarrow> int" where
  "utc_month t = month_of_day (t div ms_per_day)"

definition utc_date :: "int \<Rightarrow> int" where
  "utc_date t = t div ms_per_day - month_start (utc_month t) + 1"

definition set_utc_date :: "int \<Rightarrow> int \<Rightarrow> int" where
  "set_utc_date t dt = make_date (utc_month t) dt (t mod ms_per_day)"

definition set_utc_month :: "int \<Rightarrow> int \<Rightarrow> int" where
  "set_utc_month t n = make_date n (utc_date t) (t mod ms_per_day)"

text \<open>\<open>Date.UTC(y, m, d)\<close> of a date: midnight of its day.\<close>

definition utc_midnight :: "int \<Rightarrow> int" where
  "utc_midnight t = (t div ms_per_day) * ms_per_day"

lemma ms_per_day_pos [simp]: "0 < ms_per_day"
  by (simp add: ms_per_day_def)

lemma set_utc_date_shift: "set_utc_date t (utc_date t + k) = t + k * ms_per_day"
proof -
  have "set_utc_date t (utc_date t + k) = (t div ms_per_day) * ms_per_day + t mod ms_per_day + k * ms_per_day"
    by (simp add: set_utc_date_def make_date_def utc_date_def algebra_simps)
  then show ?thesis by simp
qed

lemma div_Suc_step:
  fixes k y :: int
  assumes "0 < k"
  shows "(y + 1) div k - y div k = (if k dvd y + 1 then 1 else 0)"
proof (cases "k dvd y + 1")
  case True
  then obtain q where q: "y + 1 = k * q" ..
  then have "y = k * (q - 1) + (k - 1)" by (simp add: algebra_simps)
  then have "y div k = q - 1" using assms int_div_pos_eq [of y k "q - 1" "k - 1"] by simp
  moreover have "(y + 1) div k = q" using q assms by simp
  ultimately show ?thesis using True by simp
next
  case False
  have "y = k * (y div k) + y mod k" "0 \<le> y mod k" "y mod k < k" using assms by auto
  moreover have "y mod k \<noteq> k - 1"
  proof
    assume "y mod k = k - 1"
    with \<open>y = k * (y div k) + y mod k\<close> have "y = k * (y div k) + (k - 1)" by metis
    then have "y + 1 = k * (y div k + 1)" by (simp only: algebra_simps)
    with False show False by simp
  qed
  ultimately have "(y + 1) div k = y div k"
    by (intro int_div_pos_eq [of _ _ _ "y mod k + 1"]) auto
  with False show ?thesis by simp
qed
lemma month_start_step: "month_start n + 28 \<le> month_start (n + 1)"
proof -
  define k where "k = n - 2"
  define y where "y = k div 12"
  define m where "m = k mod 12"
  have m: "0 \<le> m" "m < 12" by (auto simp: m_def)
  have k: "k = 12 * y + m" by (simp add: y_def m_def)
  have s: "month_start n = 365 * y + y div 4 - y div 100 + y div 400 + (153 * m + 2) div 5 - 719468"
    by (simp add: month_start_def Let_def k_def y_def m_def)
  have "n + 1 - 2 = k + 1" by (simp add: k_def)
  then have s1: "month_start (n + 1) =
      365 * ((k + 1) div 12) + (k + 1) div 12 div 4 - (k + 1) div 12 div 100 +
      (k + 1) div 12 div 400 + (153 * ((k + 1) mod 12) + 2) div 5 - 719468"
    by (simp only: month_start_def Let_def)
  show ?thesis
  proof (cases "m = 11")
    case False
    with m k have d: "(k + 1) div 12 = y" "(k + 1) mod 12 = m + 1"
      using int_div_pos_eq [of "k + 1" 12 y "m + 1"] int_mod_pos_eq [of "k + 1" 12 y "m + 1"]
      by simp_all
    have "m = 0 \<or> m = 1 \<or> m = 2 \<or> m = 3 \<or> m = 4 \<or> m = 5 \<or> m = 6 \<or> m = 7 \<or> m = 8 \<or> m = 9 \<or> m = 10"
      using m False by arith
    then have "(153 * m + 2) div 5 + 30 \<le> (153 * (m + 1) + 2) div 5" by auto
    then show ?thesis unfolding s s1 d by linarith
  next
    case True
    have d: "(k + 1) div 12 = y + 1" "(k + 1) mod 12 = 0" unfolding k True by auto
    have "4 dvd (y + 1)" if "100 dvd (y + 1)" using that by (rule dvd_trans [rotated]) simp
    moreover have "100 dvd (y + 1)" if "400 dvd (y + 1)" using that by (rule dvd_trans [rotated]) simp
    ultimately have "0 \<le> ((y + 1) div 4 - y div 4) - ((y + 1) div 100 - y div 100) + ((y + 1) div 400 - y div 400)"
      unfolding div_Suc_step [of 4, simplified] div_Suc_step [of 100, simplified] div_Suc_step [of 400, simplified]
      by auto
    then show ?thesis unfolding s s1 d True by simp
  qed
qed

lemma month_start_less: "i < j \<Longrightarrow> month_start i < month_start j"
proof (induction j rule: int_gr_induct)
  case base
  then show ?case using month_start_step [of i] by simp
next
  case (step j)
  then show ?case using month_start_step [of j] by simp
qed

lemma make_date_month_less: "i < j \<Longrightarrow> make_date i dt time < make_date j dt time"
  using month_start_less by (simp add: make_date_def)

text \<open>The calendar on some known days: the epoch, a leap day, the day after it, a year's end.\<close>

lemma calendar_examples:
  "map month_start [12 * 1970, 12 * 2024 + 2] = [0, 19783] \<and>
   map month_of_day [0, 19782, 19783, 20087, - 1] =
     [12 * 1970, 12 * 2024 + 1, 12 * 2024 + 2, 12 * 2024 + 11, 12 * 1969 + 11]"
  by code_simp

end
