(* ===== verification/Splitting.thy ===== *)
theory Splitting
  imports Prelude
begin

text \<open>
  Splitting a total into instalments, the contract the schedule generators share: a splitter
  returns as many parts as it is asked for, and they add up to the total. The clients read
  the parts by index, as the code reads its arrays.
\<close>

text \<open>\<open>xs[i] ?? 0\<close>.\<close>

definition line_at :: "'a::zero list \<Rightarrow> nat \<Rightarrow> 'a" where
  "line_at xs i = (if i < length xs then xs ! i else 0)"

lemma map_line_at [simp]: "length xs = n \<Longrightarrow> map (line_at xs) [0..<n] = xs"
  by (rule nth_equalityI) (auto simp: line_at_def)

lemma line_at_mem: "i < length xs \<Longrightarrow> line_at xs i \<in> set xs"
  by (simp add: line_at_def)

lemma line_at_all:
  assumes "\<forall>x \<in> set xs. P x" "P 0"
  shows "P (line_at xs i)"
  using assms by (simp add: line_at_def)

locale splitter =
  fixes split :: "'a::comm_monoid_add \<Rightarrow> nat \<Rightarrow> 'a list"
    and carrier :: "'a \<Rightarrow> bool"
  assumes split_length: "0 < n \<Longrightarrow> length (split x n) = n"
    and split_sum: "0 < n \<Longrightarrow> carrier x \<Longrightarrow> sum_list (split x n) = x"
begin

text \<open>The parts, read by index, add up to the total.\<close>

lemma indexed_sum:
  assumes "0 < n" "carrier x"
  shows "(\<Sum>i\<leftarrow>[0..<n]. line_at (split x n) i) = x"
  using split_length [OF assms(1), of x] split_sum [OF assms] by simp

text \<open>Rows built one per index carry the total in the field the parts are stored in.\<close>

lemma rows_sum:
  assumes "0 < n" "carrier x" and "map f rows = map (line_at (split x n)) [0..<n]"
  shows "(\<Sum>r\<leftarrow>rows. f r) = x"
  unfolding assms(3) using assms(1,2) by (rule indexed_sum)

lemma split_mem: "0 < n \<Longrightarrow> i < n \<Longrightarrow> line_at (split x n) i \<in> set (split x n)"
  by (rule line_at_mem) (simp add: split_length)

end

end
