(* ===== verification/Amortization.thy ===== *)
theory Amortization
  imports Calendar Splitting
begin

text \<open>
  \<open>apps/api/src/loan/repayment/amortization.ts\<close>: the repayment schedule of a loan. The
  principal and the fees are split into equal lines whose last one takes what is left; the
  interest is either computed on the reducing principal or a flat amount split the same way.
  Quotients and products of decimals are the parameters \<open>dc_div\<close> and \<open>dc_mul\<close>.
\<close>

section \<open>Periods\<close>

datatype interest_method = REDUCING_BALANCE | FLAT

fun periodsPerYear :: "frequency \<Rightarrow> int" where
  "periodsPerYear DAILY = 365"
| "periodsPerYear WEEKLY = 52"
| "periodsPerYear BIWEEKLY = 26"
| "periodsPerYear MONTHLY = 12"

text \<open>\<open>Math.ceil(a / b)\<close> for a positive \<open>b\<close>.\<close>

definition ceil_div :: "int \<Rightarrow> int \<Rightarrow> int" where
  "ceil_div a b = - ((- a) div b)"

definition installmentCount :: "int \<Rightarrow> frequency \<Rightarrow> nat" where
  "installmentCount termInDays f =
     (if termInDays \<le> 0 then 0
      else nat (case f of
          DAILY \<Rightarrow> termInDays
        | WEEKLY \<Rightarrow> ceil_div termInDays 7
        | BIWEEKLY \<Rightarrow> ceil_div termInDays 14
        | MONTHLY \<Rightarrow> ceil_div termInDays 30))"

definition addPeriod :: "int \<Rightarrow> frequency \<Rightarrow> nat \<Rightarrow> int" where
  "addPeriod start f k =
     (case f of
        DAILY \<Rightarrow> set_utc_date start (utc_date start + int k)
      | WEEKLY \<Rightarrow> set_utc_date start (utc_date start + int k * 7)
      | BIWEEKLY \<Rightarrow> set_utc_date start (utc_date start + int k * 14)
      | MONTHLY \<Rightarrow> set_utc_month start (utc_month start + int k))"

section \<open>The schedule\<close>

record schedule_input =
  in_principal :: decimal
  in_annual_bps :: int
  in_start :: int
  in_frequency :: frequency
  in_term_days :: int
  in_method :: "interest_method option"
  in_fees :: "decimal option"

record schedule_line =
  sl_no :: nat
  sl_due :: int
  sl_principal :: decimal
  sl_interest :: decimal
  sl_fees :: decimal
  sl_total :: decimal

text \<open>
  The loop that fills \<open>principalLines\<close> and \<open>feesLines\<close>: with \<open>n\<close> lines to go and \<open>left\<close> to
  distribute, the last line takes all of it.
\<close>

fun split_lines :: "nat \<Rightarrow> decimal \<Rightarrow> decimal \<Rightarrow> decimal list" where
  "split_lines 0 base left = []"
| "split_lines (Suc 0) base left = [money left]"
| "split_lines (Suc (Suc n)) base left =
     (let piece = min base left
      in money piece # split_lines (Suc n) base (left - piece))"

definition split_even :: "decimal_ops \<Rightarrow> decimal \<Rightarrow> nat \<Rightarrow> decimal list" where
  "split_even R x n = split_lines n (money (dc_div R x (of_nat n))) x"

record loop_consts =
  lc_count :: nat
  lc_start :: int
  lc_frequency :: frequency
  lc_method :: interest_method
  lc_rate :: decimal
  lc_principal_lines :: "decimal list"
  lc_fees_lines :: "decimal list"
  lc_flat_base :: decimal

text \<open>
  The main loop, over the indices that are left, with the two variables it carries: the
  reducing principal and the flat interest that remains.
\<close>

fun schedule_loop ::
  "decimal_ops \<Rightarrow> loop_consts \<Rightarrow> nat list \<Rightarrow> decimal \<Rightarrow> decimal \<Rightarrow> schedule_line list" where
  "schedule_loop R c [] reducing flat = []"
| "schedule_loop R c (i # is) reducing flat =
     (let principalDue = line_at (lc_principal_lines c) i;
          feesDue = line_at (lc_fees_lines c) i;
          interestDue =
            (if lc_method c = FLAT
             then if i = lc_count c - 1 then money flat else money (lc_flat_base c)
             else money (dc_mul R reducing (lc_rate c)));
          flat' = (if lc_method c = FLAT then flat - interestDue else flat);
          totalDue = money (principalDue + interestDue + feesDue);
          line = \<lparr>sl_no = i + 1, sl_due = addPeriod (lc_start c) (lc_frequency c) (i + 1),
                  sl_principal = principalDue, sl_interest = interestDue,
                  sl_fees = feesDue, sl_total = totalDue\<rparr>;
          reducing' = reducing - principalDue;
          reducing'' = (if \<bar>reducing'\<bar> < EPSILON then 0 else reducing')
      in line # schedule_loop R c is reducing'' flat')"

text \<open>The two corrections of the last line after the loop.\<close>

definition correct_last ::
  "(schedule_line \<Rightarrow> decimal) \<Rightarrow> (decimal \<Rightarrow> schedule_line \<Rightarrow> schedule_line) \<Rightarrow> decimal \<Rightarrow>
     schedule_line list \<Rightarrow> schedule_line list" where
  "correct_last get put whole rows =
     (let diff = money (whole - sum_list (map get rows))
      in if diff \<noteq> 0 \<and> rows \<noteq> []
         then let l = put (money (get (last rows) + diff)) (last rows)
              in butlast rows @
                 [l\<lparr>sl_total := money (sl_principal l + sl_interest l + sl_fees l)\<rparr>]
         else rows)"

definition flat_interest :: "decimal_ops \<Rightarrow> schedule_input \<Rightarrow> decimal" where
  "flat_interest R x =
     money (dc_mul R
       (dc_mul R (money (in_principal x)) (dc_div R (of_int (in_annual_bps x)) 10000))
       (dc_div R (of_int (in_term_days x)) 365))"

definition period_rate :: "decimal_ops \<Rightarrow> schedule_input \<Rightarrow> decimal" where
  "period_rate R x =
     dc_div R (dc_div R (of_int (in_annual_bps x)) 10000)
       (of_int (periodsPerYear (in_frequency x)))"

definition input_method :: "schedule_input \<Rightarrow> interest_method" where
  "input_method x = (case in_method x of None \<Rightarrow> REDUCING_BALANCE | Some m \<Rightarrow> m)"

definition input_fees :: "schedule_input \<Rightarrow> decimal" where
  "input_fees x = money (case in_fees x of None \<Rightarrow> 0 | Some f \<Rightarrow> f)"

definition schedule_consts :: "decimal_ops \<Rightarrow> schedule_input \<Rightarrow> loop_consts" where
  "schedule_consts R x =
     (let count = installmentCount (in_term_days x) (in_frequency x)
      in \<lparr>lc_count = count, lc_start = in_start x, lc_frequency = in_frequency x,
          lc_method = input_method x, lc_rate = period_rate R x,
          lc_principal_lines = split_even R (money (in_principal x)) count,
          lc_fees_lines = split_even R (input_fees x) count,
          lc_flat_base =
            (if input_method x = FLAT then money (dc_div R (flat_interest R x) (of_nat count))
             else 0)\<rparr>)"

definition schedule_rows :: "decimal_ops \<Rightarrow> schedule_input \<Rightarrow> schedule_line list" where
  "schedule_rows R x =
     schedule_loop R (schedule_consts R x)
       [0..<installmentCount (in_term_days x) (in_frequency x)] (money (in_principal x))
       (if input_method x = FLAT then flat_interest R x else 0)"

definition generateSchedule :: "decimal_ops \<Rightarrow> schedule_input \<Rightarrow> schedule_line list" where
  "generateSchedule R x =
     (let principal = money (in_principal x);
          count = installmentCount (in_term_days x) (in_frequency x);
          feesTotal = input_fees x
      in if count = 0 \<or> principal \<le> 0 then []
         else correct_last sl_fees (\<lambda>v l. l\<lparr>sl_fees := v\<rparr>) feesTotal
                (correct_last sl_principal (\<lambda>v l. l\<lparr>sl_principal := v\<rparr>) principal
                  (schedule_rows R x)))"

section \<open>Splitting into even lines\<close>

lemma length_split_lines [simp]: "length (split_lines n base left) = n"
  by (induction n base left rule: split_lines.induct) (auto simp: Let_def)

lemma split_lines_cents: "\<forall>x \<in> set (split_lines n base left). is_cents x"
  by (induction n base left rule: split_lines.induct) (auto simp: Let_def)

lemma sum_split_lines:
  "0 < n \<Longrightarrow> is_cents base \<Longrightarrow> is_cents left \<Longrightarrow> sum_list (split_lines n base left) = left"
  by (induction n base left rule: split_lines.induct) (auto simp: Let_def)

lemma split_lines_nonneg:
  "0 \<le> base \<Longrightarrow> 0 \<le> left \<Longrightarrow> \<forall>x \<in> set (split_lines n base left). 0 \<le> x"
  by (induction n base left rule: split_lines.induct) (auto simp: Let_def money_nonneg)

lemma length_split_even [simp]: "length (split_even R x n) = n"
  by (simp add: split_even_def)

lemma split_even_cents: "\<forall>y \<in> set (split_even R x n). is_cents y"
  by (simp add: split_even_def split_lines_cents)

lemma split_even_nonneg:
  assumes "ops_nonneg R" "0 \<le> x"
  shows "\<forall>y \<in> set (split_even R x n). 0 \<le> y"
  unfolding split_even_def
proof (rule split_lines_nonneg)
  from assms have "0 \<le> dc_div R x (of_nat n)" by (auto simp: ops_nonneg_def)
  then show "0 \<le> money (dc_div R x (of_nat n))" by (rule money_nonneg)
qed (rule assms(2))

interpretation even: splitter "split_even R" is_cents for R
  by unfold_locales (simp_all add: split_even_def sum_split_lines)

section \<open>The main loop\<close>

lemma loop_fields:
  "map sl_no (schedule_loop R c is r f) = map Suc is"
  "map sl_due (schedule_loop R c is r f) =
     map (\<lambda>i. addPeriod (lc_start c) (lc_frequency c) (i + 1)) is"
  "map sl_principal (schedule_loop R c is r f) = map (line_at (lc_principal_lines c)) is"
  "map sl_fees (schedule_loop R c is r f) = map (line_at (lc_fees_lines c)) is"
  by (induction R c "is" r f rule: schedule_loop.induct) (auto simp: Let_def)

lemma loop_length [simp]: "length (schedule_loop R c is r f) = length is"
  by (induction R c "is" r f rule: schedule_loop.induct) (auto simp: Let_def)

lemma loop_interest_cents: "l \<in> set (schedule_loop R c is r f) \<Longrightarrow> is_cents (sl_interest l)"
  by (induction R c "is" r f rule: schedule_loop.induct) (auto simp: Let_def)

lemma loop_total:
  "l \<in> set (schedule_loop R c is r f) \<Longrightarrow>
     sl_total l = money (sl_principal l + sl_interest l + sl_fees l)"
  by (induction R c "is" r f rule: schedule_loop.induct) (auto simp: Let_def)

text \<open>
  The flat interest: the lines before the last are the rounded quotient, and the last one is
  what they leave, whatever its sign.
\<close>

lemma loop_flat:
  assumes "lc_method c = FLAT" "lc_count c = n" "i < n" "is_cents f" "is_cents (lc_flat_base c)"
  shows "map sl_interest (schedule_loop R c [i..<n] r f) =
     replicate (n - 1 - i) (lc_flat_base c) @ [f - of_nat (n - 1 - i) * lc_flat_base c]"
  using assms(3,4)
proof (induction "n - 1 - i" arbitrary: i r f)
  case 0
  then have "[i..<n] = [i]" "i = n - 1" by (auto simp: upt_rec)
  with 0 assms(1,2) show ?case by (simp add: Let_def)
next
  case (Suc k)
  then have i: "Suc i < n" "n - 1 - Suc i = k" "n - 1 - i = Suc k" by auto
  then have upt: "[i..<n] = i # [Suc i..<n]" and "i \<noteq> n - 1" by (auto simp: upt_conv_Cons)
  have "is_cents (f - lc_flat_base c)" using Suc.prems assms(5) by simp
  note IH = Suc.hyps(1) [OF i(2) [symmetric] i(1) this, unfolded i(2)]
  show ?case
    unfolding upt i(3) using assms(1,2,5) \<open>i \<noteq> n - 1\<close>
    by (simp add: Let_def IH algebra_simps)
qed

text \<open>
  The reducing balance: with two decimals the threshold at a cent only maps zero to zero, so
  the principal that bears interest is what the earlier lines have not repaid.
\<close>

lemma loop_reducing:
  assumes "lc_method c = REDUCING_BALANCE" "is_cents r"
    and "\<forall>x \<in> set (lc_principal_lines c). is_cents x" and "k < length is"
  shows "sl_interest (schedule_loop R c is r f ! k) =
     money (dc_mul R (r - sum_list (map (line_at (lc_principal_lines c)) (take k is))) (lc_rate c))"
  using assms(2,4)
proof (induction "is" arbitrary: r f k)
  case Nil
  then show ?case by simp
next
  case (Cons i "is")
  let ?p = "line_at (lc_principal_lines c) i"
  have p: "is_cents ?p" using assms(3) by (rule line_at_all) simp
  have snap: "(if \<bar>r - ?p\<bar> < EPSILON then 0 else r - ?p) = r - ?p"
    using cents_eqI [of "r - ?p" 0] Cons.prems(1) p by auto
  show ?case
  proof (cases k)
    case 0
    then show ?thesis using assms(1) by (simp add: Let_def)
  next
    case (Suc j)
    have "is_cents (r - ?p)" using Cons.prems(1) p by simp
    with Suc Cons.prems(2) assms(1) Cons.IH [of "r - ?p" j] show ?thesis
      by (simp add: Let_def snap diff_diff_eq)
  qed
qed

section \<open>The rows\<close>

lemma consts_simps [simp]:
  "lc_count (schedule_consts R x) = installmentCount (in_term_days x) (in_frequency x)"
  "lc_start (schedule_consts R x) = in_start x"
  "lc_frequency (schedule_consts R x) = in_frequency x"
  "lc_method (schedule_consts R x) = input_method x"
  "lc_rate (schedule_consts R x) = period_rate R x"
  "lc_principal_lines (schedule_consts R x) =
     split_even R (money (in_principal x)) (installmentCount (in_term_days x) (in_frequency x))"
  "lc_fees_lines (schedule_consts R x) =
     split_even R (input_fees x) (installmentCount (in_term_days x) (in_frequency x))"
  by (simp_all add: schedule_consts_def Let_def)

lemma rows_fields:
  "map sl_principal (schedule_rows R x) =
     split_even R (money (in_principal x)) (installmentCount (in_term_days x) (in_frequency x))"
  "map sl_fees (schedule_rows R x) =
     split_even R (input_fees x) (installmentCount (in_term_days x) (in_frequency x))"
  "map sl_no (schedule_rows R x) = [1..<Suc (installmentCount (in_term_days x) (in_frequency x))]"
  by (simp_all add: schedule_rows_def loop_fields map_Suc_upt)

lemma length_rows [simp]:
  "length (schedule_rows R x) = installmentCount (in_term_days x) (in_frequency x)"
  by (simp add: schedule_rows_def)

lemma rows_sums:
  assumes "0 < installmentCount (in_term_days x) (in_frequency x)"
  shows "(\<Sum>l\<leftarrow>schedule_rows R x. sl_principal l) = money (in_principal x)"
    and "(\<Sum>l\<leftarrow>schedule_rows R x. sl_fees l) = input_fees x"
  using assms by (simp_all add: rows_fields even.split_sum input_fees_def)

lemma rows_cents:
  assumes "l \<in> set (schedule_rows R x)"
  shows "is_cents (sl_principal l)" "is_cents (sl_fees l)" "is_cents (sl_interest l)"
proof -
  from assms have "sl_principal l \<in> set (map sl_principal (schedule_rows R x))"
    "sl_fees l \<in> set (map sl_fees (schedule_rows R x))" by auto
  then show "is_cents (sl_principal l)" "is_cents (sl_fees l)"
    using split_even_cents unfolding rows_fields by blast+
  show "is_cents (sl_interest l)"
    using assms unfolding schedule_rows_def by (rule loop_interest_cents)
qed

lemma rows_total:
  assumes "l \<in> set (schedule_rows R x)"
  shows "sl_total l = sl_principal l + sl_interest l + sl_fees l"
  using assms rows_cents [OF assms] loop_total [of l] by (simp add: schedule_rows_def)

text \<open>The corrections after the loop never change a line.\<close>

lemma correct_last_id: "sum_list (map get rows) = whole \<Longrightarrow> correct_last get put whole rows = rows"
  by (simp add: correct_last_def Let_def)

lemma generate_eq_rows:
  "generateSchedule R x =
     (if installmentCount (in_term_days x) (in_frequency x) = 0 \<or> money (in_principal x) \<le> 0
      then [] else schedule_rows R x)"
  by (simp add: generateSchedule_def Let_def correct_last_id rows_sums)

lemma generate_mem: "l \<in> set (generateSchedule R x) \<Longrightarrow> l \<in> set (schedule_rows R x)"
  by (simp add: generate_eq_rows split: if_splits)

section \<open>Due dates\<close>

lemma addPeriod_less: "k < l \<Longrightarrow> addPeriod start f k < addPeriod start f l"
proof (cases f)
  case MONTHLY
  assume "k < l"
  with MONTHLY show ?thesis
    by (simp add: addPeriod_def set_utc_month_def make_date_month_less)
qed (simp_all add: addPeriod_def set_utc_date_shift)

lemma rows_due:
  "map sl_due (schedule_rows R x) =
     map (\<lambda>i. addPeriod (in_start x) (in_frequency x) (i + 1))
       [0..<installmentCount (in_term_days x) (in_frequency x)]"
  by (simp add: schedule_rows_def loop_fields)

lemma ceil_div_bounds: "0 < b \<Longrightarrow> (ceil_div a b - 1) * b < a \<and> a \<le> ceil_div a b * b"
proof -
  assume b: "0 < b"
  have "b * (- a div b) = - a - (- a mod b)" by (simp add: minus_mod_eq_mult_div)
  moreover have "0 \<le> - a mod b" "- a mod b < b" using b by auto
  ultimately show ?thesis unfolding ceil_div_def left_diff_distrib mult_minus_left
    by (simp only: mult.commute [of _ b]) linarith
qed

lemma installmentCount_pos: "0 < d \<Longrightarrow> 0 < installmentCount d f"
  using ceil_div_bounds [of 7 d] ceil_div_bounds [of 14 d] ceil_div_bounds [of 30 d]
  by (auto simp: installmentCount_def split: frequency.split)

lemma generate_flat:
  assumes "input_method x = FLAT" "0 < in_term_days x" "0 < money (in_principal x)"
    and "n = installmentCount (in_term_days x) (in_frequency x)"
    and "base = money (dc_div R (flat_interest R x) (of_nat n))"
  shows "map sl_interest (generateSchedule R x) =
      replicate (n - 1) base @ [flat_interest R x - of_nat (n - 1) * base]"
proof -
  have n: "0 < n" using installmentCount_pos [OF assms(2)] assms(4) by simp
  have g: "generateSchedule R x = schedule_rows R x"
    using n assms(3,4) by (simp add: generate_eq_rows)
  have b: "lc_flat_base (schedule_consts R x) = base"
    using assms(1,4,5) by (simp add: schedule_consts_def Let_def)
  show ?thesis
    unfolding g schedule_rows_def assms(4) [symmetric] if_P [OF assms(1)]
    using loop_flat [of "schedule_consts R x" n 0 "flat_interest R x" R] n assms(1,4,5) b
    by (simp add: flat_interest_def)
qed

section \<open>Properties\<close>

text \<open>
  C6. Conservation: where a schedule is generated its lines repay the rounded principal and
  charge the rounded fees exactly, whatever the quotients were rounded to; the lines are
  numbered from 1 and the total of each is the sum of its parts.
\<close>

theorem schedule_conserves_principal_and_fees:
  assumes "0 < in_term_days x" "0 < money (in_principal x)"
  shows "(\<Sum>l\<leftarrow>generateSchedule R x. sl_principal l) = money (in_principal x) \<and>
    (\<Sum>l\<leftarrow>generateSchedule R x. sl_fees l) = input_fees x \<and>
    map sl_no (generateSchedule R x) =
      [1..<Suc (installmentCount (in_term_days x) (in_frequency x))] \<and>
    (\<forall>l \<in> set (generateSchedule R x). sl_total l = sl_principal l + sl_interest l + sl_fees l)"
proof -
  note n = installmentCount_pos [OF assms(1), of "in_frequency x"]
  with assms(2) have g: "generateSchedule R x = schedule_rows R x"
    by (simp add: generate_eq_rows)
  show ?thesis unfolding g using rows_sums [OF n] rows_fields(3) rows_total by blast
qed

text \<open>A loan of 100.00 over three weeks at 52% a year, with a fee of 10.00.\<close>

definition sample_input :: schedule_input where
  "sample_input = \<lparr>in_principal = 100, in_annual_bps = 5200, in_start = 0,
     in_frequency = WEEKLY, in_term_days = 21, in_method = None, in_fees = Some 10\<rparr>"

theorem schedule_conserves_principal_and_fees_witness:
  "(\<Sum>l\<leftarrow>generateSchedule exact_ops sample_input. sl_principal l) = 100"
proof -
  have m: "money 100 = 100" by (rule money_cents) (simp add: is_cents_def)
  show ?thesis
    using schedule_conserves_principal_and_fees [of sample_input exact_ops]
    by (simp add: sample_input_def m)
qed

text \<open>
  The interest of a reducing-balance schedule: a line bears the period's rate on the
  principal the earlier lines have not repaid, rounded half up.
\<close>

lemma reducing_balance_interest:
  assumes "input_method x = REDUCING_BALANCE" "k < length (generateSchedule R x)"
  shows "sl_interest (generateSchedule R x ! k) =
    money (dc_mul R
      (money (in_principal x) - sum_list (take k (map sl_principal (generateSchedule R x))))
      (period_rate R x))"
proof -
  let ?n = "installmentCount (in_term_days x) (in_frequency x)"
  from assms(2) have g: "generateSchedule R x = schedule_rows R x" and k: "k < ?n"
    by (auto simp: generate_eq_rows split: if_splits)
  have "map (line_at ls) (take k [0..<?n]) = take k ls" if "length ls = ?n" for ls :: "decimal list"
    using that by (metis take_map map_line_at)
  then show ?thesis unfolding g rows_fields(1) unfolding schedule_rows_def
    using assms(1) k split_even_cents
    by (subst loop_reducing) (simp_all add: take_map)
qed

lemma reducing_balance_interest_witness:
  "input_method sample_input = REDUCING_BALANCE \<and>
   0 < length (generateSchedule exact_ops sample_input) \<and>
   sl_interest (generateSchedule exact_ops sample_input ! 0) = 1"
proof -
  have m: "money 100 = 100" "money 1 = 1" by (rule money_cents; simp add: is_cents_def)+
  have a: "input_method sample_input = REDUCING_BALANCE"
    by (simp add: input_method_def sample_input_def)
  have b: "0 < length (generateSchedule exact_ops sample_input)"
    by (simp add: generate_eq_rows sample_input_def m installmentCount_def ceil_div_def)
  have "sl_interest (generateSchedule exact_ops sample_input ! 0) = 1"
    using reducing_balance_interest [OF a b]
    by (simp add: sample_input_def period_rate_def m)
  with a b show ?thesis by blast
qed

text \<open>
  The flat interest: every line but the last bears the rounded share of the flat interest
  and the last one bears the rest, so the lines charge the flat interest exactly.
\<close>

lemma flat_interest_split:
  assumes "input_method x = FLAT" "0 < in_term_days x" "0 < money (in_principal x)"
    and "n = installmentCount (in_term_days x) (in_frequency x)"
    and "base = money (dc_div R (flat_interest R x) (of_nat n))"
  shows "map sl_interest (generateSchedule R x) =
      replicate (n - 1) base @ [flat_interest R x - of_nat (n - 1) * base] \<and>
    (\<Sum>l\<leftarrow>generateSchedule R x. sl_interest l) = flat_interest R x"
  unfolding generate_flat [OF assms] by (simp add: sum_list_replicate_decimal)

text \<open>5.00 at 36.5% over ten days in ten daily lines, flat: an interest of 0.05.\<close>

definition tiny_flat :: schedule_input where
  "tiny_flat = \<lparr>in_principal = 5, in_annual_bps = 3650, in_start = 0,
     in_frequency = DAILY, in_term_days = 10, in_method = Some FLAT, in_fees = None\<rparr>"

lemma tiny_flat_interest: "flat_interest exact_ops tiny_flat = 5 / 100"
  by (simp add: flat_interest_def tiny_flat_def money_def half_up_def)

lemma flat_interest_split_witness:
  "(\<Sum>l\<leftarrow>generateSchedule exact_ops tiny_flat. sl_interest l) = 5 / 100"
proof -
  have "input_method tiny_flat = FLAT" "0 < in_term_days tiny_flat" "0 < money (in_principal tiny_flat)"
    by (simp_all add: input_method_def tiny_flat_def money_def half_up_def)
  from flat_interest_split [OF this refl refl, of exact_ops] show ?thesis
    unfolding tiny_flat_interest by blast
qed

text \<open>
  The flat split has no floor at zero: rounding the shares up can charge more than the
  interest before the last line, whose interest is then negative, here minus four cents.
\<close>

lemma flat_last_line_can_be_negative:
  "map sl_interest (generateSchedule exact_ops tiny_flat) =
     replicate 9 (1 / 100) @ [- 4 / 100]"
proof -
  have h: "input_method tiny_flat = FLAT" "0 < in_term_days tiny_flat"
    "0 < money (in_principal tiny_flat)"
    by (simp_all add: input_method_def tiny_flat_def money_def half_up_def)
  have n: "installmentCount (in_term_days tiny_flat) (in_frequency tiny_flat) = 10"
    by (simp add: tiny_flat_def installmentCount_def)
  show ?thesis
    using generate_flat [OF h refl refl, of exact_ops]
    by (simp add: tiny_flat_interest n money_def half_up_def)
qed

text \<open>
  The due dates of a schedule are strictly increasing, at every frequency: also in months,
  where a day that the month does not have runs over into the next one.
\<close>

lemma due_dates_increase:
  "sorted_wrt (<) (map sl_due (generateSchedule R x))"
proof -
  have "sorted_wrt (<) (map (\<lambda>i. addPeriod s f (i + 1)) [0..<n])" for s f n
    by (auto simp: sorted_wrt_map intro: sorted_wrt_mono_rel [OF _ sorted_wrt_upt] addPeriod_less)
  then show ?thesis by (simp add: generate_eq_rows rows_due)
qed

text \<open>
  The number of instalments covers the term and no more: the last period is the one the
  term ends in.
\<close>

lemma installment_count_covers_term:
  assumes "0 < d" and "p = (case f of DAILY \<Rightarrow> 1 | WEEKLY \<Rightarrow> 7 | BIWEEKLY \<Rightarrow> 14 | MONTHLY \<Rightarrow> 30)"
  shows "(int (installmentCount d f) - 1) * p < d \<and> d \<le> int (installmentCount d f) * p"
proof -
  have "0 \<le> ceil_div d 7" "0 \<le> ceil_div d 14" "0 \<le> ceil_div d 30"
    using ceil_div_bounds [of 7 d] ceil_div_bounds [of 14 d] ceil_div_bounds [of 30 d] assms(1)
    by linarith+
  then show ?thesis
    using assms ceil_div_bounds [of 7 d] ceil_div_bounds [of 14 d] ceil_div_bounds [of 30 d]
    by (cases f) (auto simp: installmentCount_def)
qed

lemma installment_count_covers_term_witness:
  "(int (installmentCount 31 MONTHLY) - 1) * 30 < (31::int) \<and>
   (31::int) \<le> int (installmentCount 31 MONTHLY) * 30"
  using installment_count_covers_term [of 31 30 MONTHLY] by simp

end
