(* ===== verification/OfferEngine.thy ===== *)
theory OfferEngine
  imports DataModel Splitting
begin

text \<open>
  \<open>apps/api/src/modules/loan-products/offer-engine.ts\<close>: the offer a product makes, in kobo.
  The amounts are JavaScript numbers that hold integers, exact up to 2^53; \<open>Math.floor\<close> of a
  quotient of such integers is the integer quotient. A date is shifted in the server's time
  zone, whose offset \<open>tz\<close> (in milliseconds, constant over the offer) is a parameter.
\<close>

datatype interest_type = IT_FLAT | IT_REDUCING
datatype fee_type = FIXED | PERCENT_OF_PRINCIPAL
datatype fee_apply = UPFRONT | PER_INSTALLMENT | AT_END

record offer_product =
  op_interest_type :: interest_type
  op_rate_bps :: int
  op_frequency :: frequency
  op_grace_days :: int

record offer_fee =
  of_type :: fee_type
  of_amount :: int
  of_apply_at :: fee_apply

record offer_input =
  oi_principal :: int
  oi_tenor_days :: int
  oi_start :: int

record offer_line =
  ol_no :: nat
  ol_due :: int
  ol_principal :: int
  ol_interest :: int
  ol_fees :: int
  ol_total :: int

record offer =
  or_schedule :: "offer_line list"
  or_principal :: int
  or_interest :: int
  or_fees :: int
  or_total :: int
  or_apr_bps :: int

definition offerInstallmentCount :: "frequency \<Rightarrow> int \<Rightarrow> nat" where
  "offerInstallmentCount f tenorDays =
     nat (case f of
        DAILY \<Rightarrow> max 1 tenorDays
      | WEEKLY \<Rightarrow> max 1 (- (- tenorDays div 7))
      | BIWEEKLY \<Rightarrow> max 1 (- (- tenorDays div 14))
      | MONTHLY \<Rightarrow> max 1 (- (- tenorDays div 30)))"

fun intervalDays :: "frequency \<Rightarrow> int" where
  "intervalDays DAILY = 1"
| "intervalDays WEEKLY = 7"
| "intervalDays BIWEEKLY = 14"
| "intervalDays MONTHLY = 30"

text \<open>\<open>distribute\<close>: equal parts rounded down, the remainder on the last one.\<close>

definition distribute :: "int \<Rightarrow> nat \<Rightarrow> int list" where
  "distribute t n =
     (let base = t div int n; remainder = t - base * int n; values = replicate n base
      in values[n - 1 := values ! (n - 1) + remainder])"

definition feeTotal :: "int \<Rightarrow> offer_fee \<Rightarrow> int" where
  "feeTotal principalMinor fee =
     (case of_type fee of
        FIXED \<Rightarrow> of_amount fee
      | PERCENT_OF_PRINCIPAL \<Rightarrow> (principalMinor * of_amount fee) div 10000)"

text \<open>The loop over the periods of a reducing product, with the principal that remains.\<close>

fun reducing_interest :: "int \<Rightarrow> int list \<Rightarrow> int list \<Rightarrow> int \<Rightarrow> int list" where
  "reducing_interest rate (days # ds) (p # ps) remaining =
     (remaining * rate * days) div (365 * 10000) # reducing_interest rate ds ps (remaining - p)"
| "reducing_interest rate ds ps remaining = []"

definition add_at :: "nat \<Rightarrow> int \<Rightarrow> int list \<Rightarrow> int list" where
  "add_at i v xs = xs[i := xs ! i + v]"

definition apply_fee :: "int \<Rightarrow> nat \<Rightarrow> offer_fee \<Rightarrow> int list \<Rightarrow> int list" where
  "apply_fee principalMinor n fee parts =
     (let t = feeTotal principalMinor fee
      in case of_apply_at fee of
           UPFRONT \<Rightarrow> add_at 0 t parts
         | AT_END \<Rightarrow> add_at (n - 1) t parts
         | PER_INSTALLMENT \<Rightarrow> map2 (+) parts (distribute t n))"

definition interest_parts :: "offer_product \<Rightarrow> offer_input \<Rightarrow> nat \<Rightarrow> int list" where
  "interest_parts p x n =
     (case op_interest_type p of
        IT_FLAT \<Rightarrow> distribute ((oi_principal x * op_rate_bps p * oi_tenor_days x) div (365 * 10000)) n
      | IT_REDUCING \<Rightarrow> reducing_interest (op_rate_bps p) (distribute (oi_tenor_days x) n)
          (distribute (oi_principal x) n) (oi_principal x))"

definition fee_parts :: "offer_fee list \<Rightarrow> offer_input \<Rightarrow> nat \<Rightarrow> int list" where
  "fee_parts fees x n = fold (apply_fee (oi_principal x) n) fees (replicate n 0)"

definition day_ms :: int where
  "day_ms = 24 * 60 * 60 * 1000"

text \<open>\<open>setHours(0, 0, 0, 0)\<close> and \<open>setDate(getDate() + k)\<close> in a zone of constant offset.\<close>

definition local_midnight :: "int \<Rightarrow> int \<Rightarrow> int" where
  "local_midnight tz t = ((t + tz) div day_ms) * day_ms - tz"

definition base_date :: "int \<Rightarrow> offer_product \<Rightarrow> offer_input \<Rightarrow> int" where
  "base_date tz p x = local_midnight tz (oi_start x) + max 0 (op_grace_days p) * day_ms"

definition offer_line_at ::
  "int \<Rightarrow> offer_product \<Rightarrow> offer_fee list \<Rightarrow> offer_input \<Rightarrow> nat \<Rightarrow> nat \<Rightarrow> offer_line" where
  "offer_line_at tz p fees x n i =
     (let principal = line_at (distribute (oi_principal x) n) i;
          interest = line_at (interest_parts p x n) i;
          feesMinor = line_at (fee_parts fees x n) i
      in \<lparr>ol_no = i + 1,
          ol_due = base_date tz p x + intervalDays (op_frequency p) * (int i + 1) * day_ms,
          ol_principal = principal, ol_interest = interest, ol_fees = feesMinor,
          ol_total = principal + interest + feesMinor\<rparr>)"

definition computeOffer ::
  "int \<Rightarrow> offer_product \<Rightarrow> offer_fee list \<Rightarrow> offer_input \<Rightarrow> offer" where
  "computeOffer tz p fees x =
     (let n = offerInstallmentCount (op_frequency p) (oi_tenor_days x);
          schedule = map (offer_line_at tz p fees x n) [0..<n];
          totalPrincipal = (\<Sum>l\<leftarrow>schedule. ol_principal l);
          totalInterest = (\<Sum>l\<leftarrow>schedule. ol_interest l);
          totalFees = (\<Sum>l\<leftarrow>schedule. ol_fees l)
      in \<lparr>or_schedule = schedule, or_principal = totalPrincipal,
          or_interest = totalInterest, or_fees = totalFees,
          or_total = totalPrincipal + totalInterest + totalFees,
          or_apr_bps =
            (if 0 < oi_principal x \<and> 0 < oi_tenor_days x
             then ((totalInterest + totalFees) * 365 * 10000) div (oi_principal x * oi_tenor_days x)
             else 0)\<rparr>)"

section \<open>Splitting\<close>

lemma offerInstallmentCount_pos [simp]: "0 < offerInstallmentCount f d"
  by (auto simp: offerInstallmentCount_def split: frequency.split)

lemma distribute_eq:
  "0 < n \<Longrightarrow> distribute t n = replicate (n - 1) (t div int n) @ [t div int n + t mod int n]"
proof -
  assume "0 < n"
  then obtain k where n: "n = Suc k" by (cases n) auto
  have "replicate (Suc k) b = replicate k b @ [b]" for b :: int
    by (simp add: replicate_append_same)
  then show ?thesis
    unfolding n distribute_def Let_def
    by (simp add: nth_append list_update_append minus_div_mult_eq_mod)
qed

lemma length_distribute [simp]: "length (distribute t n) = n"
  by (simp add: distribute_def Let_def)

lemma sum_distribute: "0 < n \<Longrightarrow> sum_list (distribute t n) = t"
proof -
  assume n: "0 < n"
  have "sum_list (replicate k b) = int k * b" for k and b :: int
    by (induction k) (auto simp: algebra_simps)
  then have "sum_list (distribute t n) = int (n - 1) * (t div int n) + (t div int n + t mod int n)"
    by (simp add: distribute_eq [OF n])
  also have "\<dots> = int n * (t div int n) + t mod int n"
    using n by (simp add: of_nat_diff algebra_simps)
  finally show ?thesis by simp
qed

interpretation kobo: splitter distribute "\<lambda>_. True"
  by unfold_locales (simp_all add: sum_distribute)

lemma distribute_nonneg: "0 < n \<Longrightarrow> 0 \<le> t \<Longrightarrow> \<forall>v \<in> set (distribute t n). 0 \<le> v"
  by (auto simp: distribute_eq pos_imp_zdiv_nonneg_iff intro!: add_nonneg_nonneg)

section \<open>Fees\<close>

lemma length_apply_fee [simp]: "length parts = n \<Longrightarrow> length (apply_fee m n fee parts) = n"
  by (simp add: apply_fee_def Let_def add_at_def split: fee_apply.split)

lemma sum_add_at: "i < length xs \<Longrightarrow> sum_list (add_at i v xs) = sum_list xs + v"
  unfolding add_at_def by (induction xs arbitrary: i) (auto split: nat.split)

lemma sum_map2_add:
  "length xs = length ys \<Longrightarrow> sum_list (map2 (+) xs ys) = sum_list xs + (sum_list ys :: int)"
  by (induction xs ys rule: list_induct2) auto

lemma sum_apply_fee:
  "0 < n \<Longrightarrow> length parts = n \<Longrightarrow> sum_list (apply_fee m n fee parts) = sum_list parts + feeTotal m fee"
  by (simp add: apply_fee_def Let_def sum_add_at sum_map2_add sum_distribute split: fee_apply.split)

lemma fold_apply_fee:
  assumes "0 < n" "length parts = n"
  shows "length (fold (apply_fee m n) fees parts) = n \<and>
    sum_list (fold (apply_fee m n) fees parts) = sum_list parts + (\<Sum>f\<leftarrow>fees. feeTotal m f)"
  using assms(2) by (induction fees arbitrary: parts) (auto simp: sum_apply_fee assms(1))

lemma fee_parts_length [simp]: "0 < n \<Longrightarrow> length (fee_parts fees x n) = n"
  using fold_apply_fee [of n "replicate n 0"] by (simp add: fee_parts_def)

lemma fee_parts_sum:
  "0 < n \<Longrightarrow> sum_list (fee_parts fees x n) = (\<Sum>f\<leftarrow>fees. feeTotal (oi_principal x) f)"
  using fold_apply_fee [of n "replicate n 0"] by (simp add: fee_parts_def sum_list_replicate)

section \<open>Interest\<close>

lemma length_reducing [simp]:
  "length ds = length ps \<Longrightarrow> length (reducing_interest rate ds ps r) = length ds"
  by (induction rate ds ps r rule: reducing_interest.induct) auto

lemma length_interest_parts [simp]: "length (interest_parts p x n) = n"
  by (simp add: interest_parts_def split: interest_type.split)

lemma sum_div_le:
  assumes "0 < (k::int)"
  shows "a div k + b div k \<le> (a + b) div k"
proof -
  have "0 \<le> (a mod k + b mod k) div k"
    using assms by (simp add: pos_imp_zdiv_nonneg_iff)
  then show ?thesis by (subst div_add1_eq) simp
qed

text \<open>
  Rounding down per period and letting the principal fall can only lower the interest of the
  whole term.
\<close>

lemma reducing_le_flat:
  assumes "length ds = length ps" "\<forall>d \<in> set ds. 0 \<le> d" "\<forall>q \<in> set ps. 0 \<le> q"
    and "0 \<le> rate" "r \<le> P"
  shows "sum_list (reducing_interest rate ds ps r) \<le> (P * rate * sum_list ds) div (365 * 10000)"
  using assms
proof (induction ds ps arbitrary: r rule: list_induct2)
  case Nil
  then show ?case by simp
next
  case (Cons d ds q ps)
  have "(r * rate * d) div (365 * 10000) \<le> (P * rate * d) div (365 * 10000)"
    using Cons.prems by (intro zdiv_mono1 mult_right_mono) auto
  moreover have "sum_list (reducing_interest rate ds ps (r - q)) \<le>
      (P * rate * sum_list ds) div (365 * 10000)"
    using Cons.prems by (intro Cons.IH) auto
  moreover have "(P * rate * d) div (365 * 10000) + (P * rate * sum_list ds) div (365 * 10000) \<le>
      (P * rate * d + P * rate * sum_list ds) div (365 * 10000)"
    by (rule sum_div_le) simp
  ultimately show ?case by (simp add: distrib_left)
qed

section \<open>The offer\<close>

lemma offer_columns:
  fixes p :: offer_product and x :: offer_input
  defines "n \<equiv> offerInstallmentCount (op_frequency p) (oi_tenor_days x)"
  shows "map ol_principal (or_schedule (computeOffer tz p fees x)) = distribute (oi_principal x) n"
    and "map ol_interest (or_schedule (computeOffer tz p fees x)) = interest_parts p x n"
    and "map ol_fees (or_schedule (computeOffer tz p fees x)) = fee_parts fees x n"
  unfolding n_def by (simp_all add: computeOffer_def Let_def offer_line_at_def comp_def
      map_line_at [unfolded comp_def])

lemma offer_totals:
  "or_principal (computeOffer tz p fees x) = (\<Sum>l\<leftarrow>or_schedule (computeOffer tz p fees x). ol_principal l)"
  "or_interest (computeOffer tz p fees x) = (\<Sum>l\<leftarrow>or_schedule (computeOffer tz p fees x). ol_interest l)"
  "or_fees (computeOffer tz p fees x) = (\<Sum>l\<leftarrow>or_schedule (computeOffer tz p fees x). ol_fees l)"
  "or_total (computeOffer tz p fees x) = or_principal (computeOffer tz p fees x) +
     or_interest (computeOffer tz p fees x) + or_fees (computeOffer tz p fees x)"
  by (simp_all add: computeOffer_def Let_def)

lemma offer_line_total: "l \<in> set (or_schedule (computeOffer tz p fees x)) \<Longrightarrow>
  ol_total l = ol_principal l + ol_interest l + ol_fees l"
  by (auto simp: computeOffer_def Let_def offer_line_at_def)

section \<open>Properties\<close>

text \<open>
  C9. An offer accounts for every kobo. It has as many lines as the product prescribes; the principal of
  its lines sums to the principal asked for, their fees to the fees of the product, their interest to the
  interest of the product (flat: the simple interest of the whole term, rounded down); every line's total
  is the sum of its parts; and each total of the offer is the sum of that column of the lines.
\<close>

theorem offer_accounts_for_every_kobo:
  "let r = computeOffer tz p fees x; ls = or_schedule r; n = offerInstallmentCount (op_frequency p) (oi_tenor_days x)
   in length ls = n \<and>
      or_principal r = (\<Sum>l\<leftarrow>ls. ol_principal l) \<and> (\<Sum>l\<leftarrow>ls. ol_principal l) = oi_principal x \<and>
      or_fees r = (\<Sum>l\<leftarrow>ls. ol_fees l) \<and> (\<Sum>l\<leftarrow>ls. ol_fees l) = (\<Sum>f\<leftarrow>fees. feeTotal (oi_principal x) f) \<and>
      or_interest r = (\<Sum>l\<leftarrow>ls. ol_interest l) \<and>
      (\<Sum>l\<leftarrow>ls. ol_interest l) =
        (case op_interest_type p of
           IT_FLAT \<Rightarrow> (oi_principal x * op_rate_bps p * oi_tenor_days x) div (365 * 10000)
         | IT_REDUCING \<Rightarrow> sum_list (reducing_interest (op_rate_bps p) (distribute (oi_tenor_days x) n)
             (map ol_principal ls) (oi_principal x))) \<and>
      list_all (\<lambda>l. ol_total l = ol_principal l + ol_interest l + ol_fees l) ls \<and>
      or_total r = (\<Sum>l\<leftarrow>ls. ol_total l) \<and> or_total r = or_principal r + or_interest r + or_fees r"
proof -
  let ?s = "or_schedule (computeOffer tz p fees x)"
  let ?n = "offerInstallmentCount (op_frequency p) (oi_tenor_days x)"
  have total: "(\<Sum>l\<leftarrow>?s. ol_total l) = (\<Sum>l\<leftarrow>?s. ol_principal l + ol_interest l + ol_fees l)"
    by (rule arg_cong [of _ _ sum_list], rule map_cong [OF refl]) (rule offer_line_total)
  have count: "length ?s = ?n" by (simp add: computeOffer_def Let_def)
  have lines: "list_all (\<lambda>l. ol_total l = ol_principal l + ol_interest l + ol_fees l) ?s"
    by (simp add: list_all_iff offer_line_total)
  have interest: "(\<Sum>l\<leftarrow>?s. ol_interest l) =
      (case op_interest_type p of
         IT_FLAT \<Rightarrow> (oi_principal x * op_rate_bps p * oi_tenor_days x) div (365 * 10000)
       | IT_REDUCING \<Rightarrow> sum_list (reducing_interest (op_rate_bps p) (distribute (oi_tenor_days x) ?n)
           (map ol_principal ?s) (oi_principal x)))"
    by (simp add: offer_columns interest_parts_def kobo.split_sum split: interest_type.split)
  show ?thesis
    unfolding Let_def
    by (intro conjI count lines interest)
      (simp_all add: offer_totals total sum_list_map_add offer_columns kobo.split_sum fee_parts_sum)
qed

text \<open>
  Reducing interest never costs the borrower more than flat interest at the same rate and
  tenor, whatever the frequency and the fees.
\<close>

lemma reducing_offer_not_dearer:
  assumes "0 \<le> oi_principal x" "0 \<le> op_rate_bps p" "0 \<le> oi_tenor_days x"
  shows "or_interest (computeOffer tz (p\<lparr>op_interest_type := IT_REDUCING\<rparr>) fees x) \<le>
    or_interest (computeOffer tz (p\<lparr>op_interest_type := IT_FLAT\<rparr>) fees x)"
proof -
  let ?n = "offerInstallmentCount (op_frequency p) (oi_tenor_days x)"
  have "sum_list (reducing_interest (op_rate_bps p) (distribute (oi_tenor_days x) ?n)
      (distribute (oi_principal x) ?n) (oi_principal x)) \<le>
    (oi_principal x * op_rate_bps p * sum_list (distribute (oi_tenor_days x) ?n)) div (365 * 10000)"
    using assms distribute_nonneg [of ?n] by (intro reducing_le_flat) simp_all
  then show ?thesis
    by (simp add: offer_totals offer_columns interest_parts_def sum_distribute)
qed

definition sample_product :: offer_product where
  "sample_product = \<lparr>op_interest_type = IT_FLAT, op_rate_bps = 3650, op_frequency = MONTHLY,
     op_grace_days = 0\<rparr>"

definition sample_offer_input :: offer_input where
  "sample_offer_input = \<lparr>oi_principal = 100000, oi_tenor_days = 60, oi_start = 0\<rparr>"

lemma reducing_offer_not_dearer_witness:
  "or_interest (computeOffer 0 (sample_product\<lparr>op_interest_type := IT_REDUCING\<rparr>) [] sample_offer_input) \<le>
   or_interest (computeOffer 0 (sample_product\<lparr>op_interest_type := IT_FLAT\<rparr>) [] sample_offer_input)"
  by (rule reducing_offer_not_dearer) (simp_all add: sample_product_def sample_offer_input_def)

text \<open>
  The split of an amount is as even as whole kobo allow: every part but the last is the
  quotient rounded down, and the last is larger by less than one kobo per part.
\<close>

lemma distribute_even:
  assumes "0 < n"
  shows "length (distribute t n) = n \<and> sum_list (distribute t n) = t \<and>
    (\<forall>v \<in> set (butlast (distribute t n)). v = t div int n) \<and>
    t div int n \<le> last (distribute t n) \<and> last (distribute t n) < t div int n + int n"
  using assms by (auto simp: sum_distribute) (auto simp: distribute_eq)

end
