(* ===== verification/LedgerPort.thy ===== *)
theory LedgerPort
  imports Prelude
begin

text \<open>
  What the money-moving services rely on in a ledger: posting appends at most one entry to the
  journal, an entry it appends for an acceptable input is good (balanced), and a posting that
  reports reuse leaves the journal alone. The clients' facts are proved once here.
\<close>

locale ledger_port =
  fixes post :: "'x \<Rightarrow> 'd \<Rightarrow> (('i \<times> bool) \<times> 'd) outcome"
    and journal :: "'d \<Rightarrow> 'e list"
    and good :: "'e \<Rightarrow> bool"
    and acceptable :: "'x \<Rightarrow> bool"
  assumes post_reused: "post x D = Inr ((i, True), D') \<Longrightarrow> journal D' = journal D"
    and post_appends:
      "post x D = Inr ((i, False), D') \<Longrightarrow>
         \<exists>e. (acceptable x \<longrightarrow> good e) \<and> journal D' = journal D @ [e]"
begin

lemma post_extends:
  assumes "post x D = Inr (r, D')"
  obtains es where "journal D' = journal D @ es" "acceptable x \<Longrightarrow> \<forall>e \<in> set es. good e"
    "length es \<le> 1"
proof (cases "snd r")
  case True
  then have "journal D' = journal D" using post_reused assms by (cases r) auto
  then show thesis using that [of "[]"] by simp
next
  case False
  then have "post x D = Inr ((fst r, False), D')" using assms by (cases r) auto
  then obtain e where "acceptable x \<longrightarrow> good e" "journal D' = journal D @ [e]"
    using post_appends by blast
  then show thesis using that [of "[e]"] by simp
qed

lemma post_good:
  assumes "post x D = Inr (r, D')" "acceptable x" "\<forall>e \<in> set (journal D). good e"
  shows "\<forall>e \<in> set (journal D'). good e"
  using assms by (auto elim!: post_extends)

text \<open>A run of postings keeps the journal good, and only ever adds to it.\<close>

definition post_step :: "'x \<Rightarrow> 'd \<Rightarrow> 'd outcome" where
  "post_step x D = chain (post x D) (\<lambda>r. Inr (snd r))"

lemma posts_extend:
  assumes "fold_outcome post_step xs D = Inr D'" "\<forall>x \<in> set xs. acceptable x"
  shows "\<exists>es. journal D' = journal D @ es \<and> (\<forall>e \<in> set es. good e) \<and> length es \<le> length xs"
  using assms
proof (induction xs arbitrary: D)
  case Nil
  then show ?case by simp
next
  case (Cons x xs)
  then obtain D1 where s: "post_step x D = Inr D1" and q: "fold_outcome post_step xs D1 = Inr D'"
    by (auto simp: chain_eq_Inr)
  from s obtain r where p: "post x D = Inr (r, D1)"
    by (auto simp: post_step_def chain_eq_Inr)
  from p Cons.prems(2) obtain es where
    es: "journal D1 = journal D @ es" "\<forall>e \<in> set es. good e" "length es \<le> 1"
    by (auto elim!: post_extends)
  from Cons.IH [OF q] Cons.prems(2) obtain fs where
    fs: "journal D' = journal D1 @ fs" "\<forall>e \<in> set fs. good e" "length fs \<le> length xs"
    by auto
  from es fs have "journal D' = journal D @ (es @ fs)" "\<forall>e \<in> set (es @ fs). good e"
    "length (es @ fs) \<le> length (x # xs)" by auto
  then show ?case by blast
qed

end

end
