(* ===== verification/TenantLedger.thy ===== *)
theory TenantLedger
  imports LoanLifecycle LedgerPort "HOL-Library.Multiset"
begin

text \<open>
  \<open>apps/api/src/common/ledger/tenant-ledger.service.ts\<close> and the services beside it: the chart
  of accounts, posting and reversing a journal entry, the journal wrapper, the account balances
  and the balances of a loan derived from the ledger.
\<close>

section \<open>Inputs\<close>

record line_input =
  li_code :: account_code
  li_direction :: direction
  li_amount :: decimal

record entry_input =
  ei_tenant :: string
  ei_occurred :: int
  ei_type :: entry_type
  ei_key :: string
  ei_ref_type :: string
  ei_ref_id :: string
  ei_currency :: "string option"
  ei_created_by :: "string option"
  ei_role :: "admin_role option"
  ei_memo :: "string option"
  ei_lines :: "line_input list"

record journal_line_input =
  jl_code :: account_code
  jl_direction :: direction
  jl_amount :: decimal
  jl_currency :: "string option"

record journal_input =
  ji_tenant :: string
  ji_ref_type :: string
  ji_ref_id :: string
  ji_key :: string
  ji_created_by :: "string option"
  ji_role :: "admin_role option"
  ji_memo :: "string option"
  ji_occurred :: "int option"
  ji_entries :: "journal_line_input list"

section \<open>The chart of accounts\<close>

type_synonym account_seed = "account_code \<times> string \<times> account_type \<times> direction"

text \<open>\<open>TENANT_LEDGER_DEFAULT_ACCOUNTS\<close>; every seed has the currency NGN and is a system account.\<close>

definition default_accounts :: "account_seed list" where
  "default_accounts =
     [(CASH_MAIN, ''Cash Main'', ASSET, DEBIT),
      (CASH, ''Cash (Legacy)'', ASSET, DEBIT),
      (LOAN_PRINCIPAL_RECEIVABLE, ''Loan Principal Receivable'', ASSET, DEBIT),
      (LOANS_RECEIVABLE, ''Loans Receivable'', ASSET, DEBIT),
      (LOAN_CLEARING, ''Loan Clearing'', ASSET, DEBIT),
      (INTEREST_RECEIVABLE, ''Interest Receivable'', ASSET, DEBIT),
      (INTEREST_INCOME, ''Interest Income'', INCOME, CREDIT),
      (FEES_RECEIVABLE, ''Fees Receivable'', ASSET, DEBIT),
      (FEE_INCOME, ''Fee Income'', INCOME, CREDIT),
      (PENALTY_INCOME, ''Penalty Income'', INCOME, CREDIT),
      (CASH_ON_HAND, ''Cash On Hand'', ASSET, DEBIT),
      (BANK_CLEARING, ''Bank Clearing'', ASSET, DEBIT),
      (WALLET_CLEARING, ''Wallet Clearing'', ASSET, DEBIT),
      (SUSPENSE, ''Suspense'', LIABILITY, CREDIT),
      (WRITE_OFF_EXPENSE, ''Write Off Expense'', EXPENSE, DEBIT),
      (CAPITAL_POOL_AVAILABLE, ''Capital Pool Available'', ASSET, DEBIT),
      (CAPITAL_POOL_DEPLOYED, ''Capital Pool Deployed'', ASSET, DEBIT),
      (CAPITAL_POOL_REPAID, ''Capital Pool Repaid'', ASSET, DEBIT),
      (CAPITAL_POOL_LOSSES, ''Capital Pool Losses'', EXPENSE, DEBIT)]"

definition upsert_account :: "env \<Rightarrow> string \<Rightarrow> account_seed \<Rightarrow> db \<Rightarrow> db" where
  "upsert_account E t s D =
     (case s of (code, name, type, normal) \<Rightarrow>
        let mine = (\<lambda>a. ac_tenant a = t \<and> ac_code a = code)
        in if find mine (db_accounts D) \<noteq> None
           then D\<lparr>db_accounts := update_where mine
                  (\<lambda>a. a\<lparr>ac_name := name, ac_type := type, ac_normal := normal,
                         ac_currency := ''NGN'', ac_system := True\<rparr>) (db_accounts D)\<rparr>
           else (case fresh E D of (i, D1) \<Rightarrow>
                  D1\<lparr>db_accounts := db_accounts D1 @
                    [\<lparr>ac_id = i, ac_tenant = t, ac_code = code, ac_name = name, ac_type = type,
                      ac_normal = normal, ac_currency = ''NGN'', ac_system = True\<rparr>]\<rparr>))"

definition ensureDefaultAccounts :: "env \<Rightarrow> string \<Rightarrow> db \<Rightarrow> db" where
  "ensureDefaultAccounts E t D = fold (upsert_account E t) default_accounts D"

section \<open>Guards\<close>

fun assertRoleCanPost :: "admin_role option \<Rightarrow> entry_type \<Rightarrow> unit outcome" where
  "assertRoleCanPost None ty = Inr ()"
| "assertRoleCanPost (Some r) ty =
     (if r = SYSTEM \<or> r = SUPER_ADMIN then Inr ()
      else if ty \<in> set (case r of
            OPS \<Rightarrow> [E_DISBURSEMENT, E_REPAYMENT, E_ACCRUAL]
          | RISK_MANAGER \<Rightarrow> [E_WRITE_OFF]
          | _ \<Rightarrow> [])
      then Inr ()
      else Inl (BadRequest ''Role cannot post ledger entries.''))"

fun assertRoleCanReverse :: "admin_role option \<Rightarrow> unit outcome" where
  "assertRoleCanReverse None = Inr ()"
| "assertRoleCanReverse (Some r) =
     (if r = SYSTEM \<or> r = SUPER_ADMIN then Inr ()
      else Inl (BadRequest ''Role cannot reverse ledger entries.''))"

definition toMinor :: "decimal \<Rightarrow> int" where
  "toMinor amount = half_up (amount * 100)"

text \<open>The loop that sums the debits and the credits and refuses an amount that is not positive.\<close>

definition tally_line :: "string \<Rightarrow> direction \<times> decimal \<Rightarrow> decimal \<times> decimal \<Rightarrow> (decimal \<times> decimal) outcome" where
  "tally_line msg l s =
     (case (l, s) of ((dir, amount), (debit, credit)) \<Rightarrow>
        if amount \<le> 0 then Inl (BadRequest msg)
        else if dir = DEBIT then Inr (debit + amount, credit)
        else Inr (debit, credit + amount))"

definition tally :: "string \<Rightarrow> (direction \<times> decimal) list \<Rightarrow> (decimal \<times> decimal) outcome" where
  "tally msg ls = fold_outcome (tally_line msg) ls (0, 0)"

definition assertBalanced :: "(direction \<times> decimal) list \<Rightarrow> unit outcome" where
  "assertBalanced entries =
     (if length entries < 2
      then Inl (BadRequest ''Ledger journal requires at least two entries.'')
      else chain (tally ''Ledger amount must be positive.'' entries) (\<lambda>(debit, credit).
        if debit \<noteq> credit then Inl (Internal ''LEDGER_UNBALANCED'') else Inr ()))"

section \<open>Posting\<close>

text \<open>
  The lines to store. The column of \<open>amount\<close> is \<open>Decimal(18, 2)\<close>, so the database keeps the
  amount rounded to two places.
\<close>

definition build_line ::
  "string \<Rightarrow> string \<Rightarrow> ledger_account list \<Rightarrow> line_input \<Rightarrow> ledger_line list \<Rightarrow> ledger_line list outcome" where
  "build_line t currency accounts l ls =
     (case find (\<lambda>a. ac_tenant a = t \<and> ac_code a = li_code l) accounts of
        None \<Rightarrow> Inl (Internal ''Ledger account missing'')
      | Some a \<Rightarrow> Inr (ls @
          [\<lparr>ln_tenant = t, ln_account = ac_id a, ln_direction = li_direction l,
            ln_amount = money (li_amount l), ln_minor = toMinor (li_amount l), ln_currency = currency\<rparr>]))"

definition line_pair :: "line_input \<Rightarrow> direction \<times> decimal" where
  "line_pair l = (li_direction l, li_amount l)"

definition normalize_currency :: "string option \<Rightarrow> string" where
  "normalize_currency c = to_upper (trim (case c of None \<Rightarrow> ''NGN'' | Some s \<Rightarrow> s))"

definition post_entry :: "env \<Rightarrow> entry_input \<Rightarrow> db \<Rightarrow> ((string \<times> bool) \<times> db) outcome" where
  "post_entry E x D =
     (if trim (ei_key x) = ''''
      then Inl (BadRequest ''idempotencyKey is required for ledger posting.'')
      else if ei_lines x = []
      then Inl (BadRequest ''Ledger entry requires at least one line.'')
      else
        chain (assertRoleCanPost (ei_role x) (ei_type x)) (\<lambda>_.
        chain (tally ''Ledger line amount must be > 0.'' (map line_pair (ei_lines x)))
          (\<lambda>(debit, credit).
        if debit \<noteq> credit then Inl (Internal ''LEDGER_UNBALANCED'')
        else
          let D1 = ensureDefaultAccounts E (ei_tenant x) D
          in case find (\<lambda>e. en_tenant e = ei_tenant x \<and> en_key e = ei_key x) (db_entries D1) of
               Some e \<Rightarrow> Inr ((en_id e, True), D1)
             | None \<Rightarrow>
                 chain (fold_outcome
                    (build_line (ei_tenant x) (normalize_currency (ei_currency x)) (db_accounts D1))
                    (ei_lines x) []) (\<lambda>lines.
                 case fresh E D1 of (i, D2) \<Rightarrow>
                   Inr ((i, False),
                     D2\<lparr>db_entries := db_entries D2 @
                       [\<lparr>en_id = i, en_tenant = ei_tenant x, en_occurred = ei_occurred x,
                         en_type = ei_type x, en_key = ei_key x, en_ref_type = ei_ref_type x,
                         en_ref_id = ei_ref_id x, en_created_by = trim_or_null (ei_created_by x),
                         en_memo = trim_or_null (ei_memo x), en_lines = lines\<rparr>]\<rparr>)))))"

section \<open>Wrappers\<close>

definition journal_currency :: "journal_line_input \<Rightarrow> string" where
  "journal_currency l = normalize_currency (jl_currency l)"

definition createJournal :: "env \<Rightarrow> journal_input \<Rightarrow> db \<Rightarrow> ((string \<times> bool) \<times> db) outcome" where
  "createJournal E x D =
     (if length (remdups (map journal_currency (ji_entries x))) \<noteq> 1
      then Inl (BadRequest ''All ledger entries in a journal must have same currency.'')
      else
        chain (assertBalanced (map (\<lambda>l. (jl_direction l, jl_amount l)) (ji_entries x))) (\<lambda>_.
        post_entry E
          \<lparr>ei_tenant = ji_tenant x,
           ei_occurred = (case ji_occurred x of None \<Rightarrow> ev_now E | Some t \<Rightarrow> t),
           ei_type = E_ADJUSTMENT, ei_key = ji_key x, ei_ref_type = ji_ref_type x,
           ei_ref_id = ji_ref_id x, ei_currency = None, ei_created_by = ji_created_by x,
           ei_role = ji_role x, ei_memo = ji_memo x,
           ei_lines = map (\<lambda>l. \<lparr>li_code = jl_code l, li_direction = jl_direction l,
                                li_amount = jl_amount l\<rparr>) (ji_entries x)\<rparr> D))"

definition entry_type_name :: "entry_type \<Rightarrow> string" where
  "entry_type_name ty =
     (case ty of
        E_DISBURSEMENT \<Rightarrow> ''DISBURSEMENT'' | E_REPAYMENT \<Rightarrow> ''REPAYMENT''
      | E_ACCRUAL \<Rightarrow> ''ACCRUAL'' | E_WRITE_OFF \<Rightarrow> ''WRITE_OFF'' | E_ADJUSTMENT \<Rightarrow> ''ADJUSTMENT'')"

definition createEntryWithBalancedLines ::
  "env \<Rightarrow> string \<Rightarrow> int \<Rightarrow> entry_type \<Rightarrow> string \<Rightarrow> string option \<Rightarrow> line_input list \<Rightarrow> db \<Rightarrow>
     (string \<times> db) outcome" where
  "createEntryWithBalancedLines E t occurredAt ty refId memo lines D =
     chain (post_entry E
       \<lparr>ei_tenant = t, ei_occurred = occurredAt, ei_type = ty,
        ei_key = entry_type_name ty @ '':'' @ refId, ei_ref_type = ''LoanApplication'',
        ei_ref_id = refId, ei_currency = None, ei_created_by = None, ei_role = None,
        ei_memo = memo, ei_lines = lines\<rparr> D)
       (\<lambda>((i, reused), D'). Inr (i, D'))"

section \<open>Reversal\<close>

fun opposite :: "direction \<Rightarrow> direction" where
  "opposite DEBIT = CREDIT"
| "opposite CREDIT = DEBIT"

definition reverse_line ::
  "string \<Rightarrow> ledger_account list \<Rightarrow> ledger_line \<Rightarrow> line_input list \<Rightarrow> line_input list outcome" where
  "reverse_line t accounts l ls =
     (case find (\<lambda>a. ac_tenant a = t \<and> ac_id a = ln_account l) accounts of
        None \<Rightarrow> Inl (Internal ''Ledger account missing'')
      | Some a \<Rightarrow> Inr (ls @ [\<lparr>li_code = ac_code a, li_direction = opposite (ln_direction l),
                            li_amount = ln_amount l\<rparr>]))"

definition reverseEntry ::
  "env \<Rightarrow> string \<Rightarrow> string \<Rightarrow> string \<Rightarrow> string option \<Rightarrow> admin_role option \<Rightarrow> db \<Rightarrow>
     ((string \<times> bool) \<times> db) outcome" where
  "reverseEntry E t entryId reason createdBy role D =
     chain (assertRoleCanReverse role) (\<lambda>_.
     case find (\<lambda>e. en_id e = entryId \<and> en_tenant e = t) (db_entries D) of
       None \<Rightarrow> Inl (BadRequest ''Ledger entry not found.'')
     | Some entry \<Rightarrow>
         let key = ''reversal:'' @ en_id entry
         in case find (\<lambda>e. en_tenant e = t \<and> en_key e = key) (db_entries D) of
              Some e \<Rightarrow> Inr ((en_id e, True), D)
            | None \<Rightarrow>
                chain (fold_outcome (reverse_line t (db_accounts D)) (en_lines entry) []) (\<lambda>lines.
                post_entry E
                  \<lparr>ei_tenant = t, ei_occurred = ev_now E, ei_type = E_ADJUSTMENT, ei_key = key,
                   ei_ref_type = ''LEDGER_REVERSAL'', ei_ref_id = en_id entry,
                   ei_currency = Some (case en_lines entry of [] \<Rightarrow> ''NGN'' | l # _ \<Rightarrow> ln_currency l),
                   ei_created_by = createdBy, ei_role = role, ei_memo = Some reason,
                   ei_lines = lines\<rparr> D))"

section \<open>Balances\<close>

definition tenant_lines :: "string \<Rightarrow> int option \<Rightarrow> db \<Rightarrow> ledger_line list" where
  "tenant_lines t asOf D =
     filter (\<lambda>l. ln_tenant l = t)
       (concat (map en_lines
         (filter (\<lambda>e. case asOf of None \<Rightarrow> True | Some d \<Rightarrow> en_occurred e \<le> d) (db_entries D))))"

definition side_total :: "direction \<Rightarrow> string \<Rightarrow> ledger_line list \<Rightarrow> int" where
  "side_total dir acc ls =
     (\<Sum>l\<leftarrow>filter (\<lambda>l. ln_account l = acc \<and> ln_direction l = dir) ls. ln_minor l)"

record account_balance =
  ab_code :: account_code
  ab_name :: string
  ab_type :: account_type
  ab_normal :: direction
  ab_currency :: string
  ab_debit :: int
  ab_credit :: int
  ab_balance :: int

text \<open>\<open>orderBy: { code: 'asc' }\<close>: the database orders an enum by its declaration.\<close>

definition code_order :: "account_code list" where
  "code_order = [CASH_MAIN, CASH, LOANS_RECEIVABLE, LOAN_PRINCIPAL_RECEIVABLE, LOAN_CLEARING,
     INTEREST_RECEIVABLE, FEES_RECEIVABLE, CASH_ON_HAND, BANK_CLEARING, WALLET_CLEARING,
     INTEREST_INCOME, FEE_INCOME, PENALTY_INCOME, WRITE_OFF_EXPENSE, SUSPENSE,
     CAPITAL_POOL_AVAILABLE, CAPITAL_POOL_DEPLOYED, CAPITAL_POOL_REPAID, CAPITAL_POOL_LOSSES]"

definition code_rank :: "account_code \<Rightarrow> nat" where
  "code_rank c = length (takeWhile (\<lambda>d. d \<noteq> c) code_order)"

definition listAccountsWithBalances ::
  "env \<Rightarrow> string \<Rightarrow> int option \<Rightarrow> db \<Rightarrow> account_balance list \<times> db" where
  "listAccountsWithBalances E t asOf D =
     (let D1 = ensureDefaultAccounts E t D;
          accounts = sort_key (\<lambda>a. code_rank (ac_code a))
            (filter (\<lambda>a. ac_tenant a = t) (db_accounts D1));
          lines = tenant_lines t asOf D1
      in (map (\<lambda>a. let d = side_total DEBIT (ac_id a) lines;
                       c = side_total CREDIT (ac_id a) lines;
                       raw = d - c
                   in \<lparr>ab_code = ac_code a, ab_name = ac_name a, ab_type = ac_type a,
                       ab_normal = ac_normal a, ab_currency = ac_currency a, ab_debit = d, ab_credit = c,
                       ab_balance = (if ac_normal a = DEBIT then raw else - raw)\<rparr>) accounts, D1))"

text \<open>\<open>loan-balance.service.ts\<close>: what is outstanding on a loan according to the ledger.\<close>

definition loan_lines :: "string \<Rightarrow> string \<Rightarrow> account_code \<Rightarrow> db \<Rightarrow> ledger_line list" where
  "loan_lines t loan code D =
     filter (\<lambda>l. ln_tenant l = t \<and>
         (\<exists>a \<in> set (db_accounts D). ac_id a = ln_account l \<and> ac_code a = code))
       (concat (map en_lines
         (filter (\<lambda>e. en_ref_type e = ''LoanApplication'' \<and> en_ref_id e = loan) (db_entries D))))"

definition signed_amount :: "ledger_line \<Rightarrow> decimal" where
  "signed_amount l = (if ln_direction l = DEBIT then ln_amount l else - ln_amount l)"

definition getBalances :: "string \<Rightarrow> string \<Rightarrow> db \<Rightarrow> decimal \<times> decimal \<times> decimal \<times> decimal" where
  "getBalances t loan D =
     (let bal = (\<lambda>code. max 0 (\<Sum>l\<leftarrow>loan_lines t loan code D. signed_amount l));
          principal = bal LOAN_PRINCIPAL_RECEIVABLE;
          interest = bal INTEREST_RECEIVABLE;
          fees = bal FEES_RECEIVABLE
      in (principal, interest, fees, principal + interest + fees))"

section \<open>Tallies\<close>

definition dir_sum :: "direction \<Rightarrow> (direction \<times> decimal) list \<Rightarrow> decimal" where
  "dir_sum dir ls = (\<Sum>p\<leftarrow>ls. if fst p = dir then snd p else 0)"

lemma dir_sum_simps [simp]:
  "dir_sum dir [] = 0"
  "dir_sum dir (p # ls) = (if fst p = dir then snd p else 0) + dir_sum dir ls"
  by (simp_all add: dir_sum_def)

lemma tally_line_simps:
  "tally_line msg (dir, a) (d, c) =
     (if a \<le> 0 then Inl (BadRequest msg)
      else if dir = DEBIT then Inr (d + a, c) else Inr (d, c + a))"
  by (simp add: tally_line_def)

lemma fold_tally:
  "fold_outcome (tally_line msg) ls (d, c) = Inr (d', c') \<longleftrightarrow>
     (\<forall>p \<in> set ls. 0 < snd p) \<and> d' = d + dir_sum DEBIT ls \<and> c' = c + dir_sum CREDIT ls"
proof (induction ls arbitrary: d c)
  case Nil
  then show ?case by auto
next
  case (Cons p ls)
  obtain dir a where p: "p = (dir, a)" by (cases p)
  show ?case
    by (cases dir; cases "a \<le> 0") (auto simp: p tally_line_simps Cons.IH not_less)
qed

lemma tally_Inr [outcome_simps]:
  "tally msg ls = Inr (d, c) \<longleftrightarrow>
     (\<forall>p \<in> set ls. 0 < snd p) \<and> d = dir_sum DEBIT ls \<and> c = dir_sum CREDIT ls"
  by (simp add: tally_def fold_tally)

lemma assertBalanced_Inr [outcome_simps]:
  "assertBalanced ls = Inr u \<longleftrightarrow>
     2 \<le> length ls \<and> (\<forall>p \<in> set ls. 0 < snd p) \<and> dir_sum DEBIT ls = dir_sum CREDIT ls"
  by (auto simp: assertBalanced_def outcome_simps not_less split: prod.splits if_splits)

section \<open>Accounts\<close>

text \<open>
  A well-formed chart: account ids are distinct identifiers the database has handed out, and a
  tenant has one account per code.
\<close>

definition accounts_ok :: "env \<Rightarrow> db \<Rightarrow> bool" where
  "accounts_ok E D \<longleftrightarrow> inj (ev_cuid E) \<and> distinct (map ac_id (db_accounts D)) \<and>
     distinct (map (\<lambda>a. (ac_tenant a, ac_code a)) (db_accounts D)) \<and>
     (\<forall>a \<in> set (db_accounts D). \<exists>n < db_seq D. ac_id a = ev_cuid E n)"

definition codes_of :: "string \<Rightarrow> db \<Rightarrow> account_code set" where
  "codes_of t D = set (map ac_code (filter (\<lambda>a. ac_tenant a = t) (db_accounts D)))"

lemma upsert_frame:
  "upsert_account E t s D =
     D\<lparr>db_accounts := db_accounts (upsert_account E t s D), db_seq := db_seq (upsert_account E t s D)\<rparr>"
  by (auto simp: upsert_account_def Let_def fresh_def split: prod.splits)

lemma ensure_frame:
  "ensureDefaultAccounts E t D =
     D\<lparr>db_accounts := db_accounts (ensureDefaultAccounts E t D),
       db_seq := db_seq (ensureDefaultAccounts E t D)\<rparr>"
proof -
  have "fold (upsert_account E t) ss D =
      D\<lparr>db_accounts := db_accounts (fold (upsert_account E t) ss D),
        db_seq := db_seq (fold (upsert_account E t) ss D)\<rparr>" for ss
  proof (induction ss arbitrary: D)
    case (Cons s ss)
    show ?case
      by (simp, subst Cons.IH, subst (1) upsert_frame) simp
  qed simp
  then show ?thesis by (simp add: ensureDefaultAccounts_def)
qed

lemma ensure_simps [simp]:
  "db_entries (ensureDefaultAccounts E t D) = db_entries D"
  by (subst ensure_frame) simp

lemma upsert_codes: "codes_of t (upsert_account E t s D) = insert (fst s) (codes_of t D)"
proof -
  obtain code name ty nb where s: "s = (code, name, ty, nb)" by (cases s) auto
  let ?mine = "\<lambda>a. ac_tenant a = t \<and> ac_code a = code"
  show ?thesis
  proof (cases "find ?mine (db_accounts D) = None")
    case True
    then have "\<exists>a. ac_tenant a = t \<and> ac_code a = code \<and>
        db_accounts (upsert_account E t s D) = db_accounts D @ [a]"
      unfolding s upsert_account_def Let_def fresh_def by simp
    then obtain a where "ac_tenant a = t" "ac_code a = code"
      and "db_accounts (upsert_account E t s D) = db_accounts D @ [a]"
      by blast
    then show ?thesis by (simp add: s codes_of_def)
  next
    case False
    then obtain a where a: "find ?mine (db_accounts D) = Some a" by auto
    then have "code \<in> codes_of t D" by (auto simp: codes_of_def dest: find_SomeD)
    moreover have "codes_of t (upsert_account E t s D) = codes_of t D"
      using a by (simp add: s upsert_account_def codes_of_def filter_update_where del: set_map set_filter)
    ultimately show ?thesis by (simp add: s insert_absorb)
  qed
qed

lemma ensure_codes: "codes_of t (ensureDefaultAccounts E t D) = UNIV"
proof -
  have "codes_of t (fold (upsert_account E t) ss D) = fst ` set ss \<union> codes_of t D" for ss
    by (induction ss arbitrary: D) (auto simp: upsert_codes)
  moreover have "fst ` set default_accounts = UNIV"
  proof -
    have "c \<in> fst ` set default_accounts" for c
      by (cases c) (simp_all add: default_accounts_def)
    then show ?thesis by blast
  qed
  ultimately show ?thesis by (simp add: ensureDefaultAccounts_def)
qed

text \<open>What every account row keeps through an upsert: its id, its tenant and its code.\<close>

definition account_key :: "ledger_account \<Rightarrow> string \<times> string \<times> account_code" where
  "account_key a = (ac_id a, ac_tenant a, ac_code a)"

lemma upsert_accounts:
  assumes "accounts_ok E D"
  shows "accounts_ok E (upsert_account E t s D) \<and>
    account_key ` set (db_accounts D) \<subseteq> account_key ` set (db_accounts (upsert_account E t s D))"
proof -
  obtain code name ty nb where s: "s = (code, name, ty, nb)" by (cases s) auto
  let ?mine = "\<lambda>a. ac_tenant a = t \<and> ac_code a = code"
  show ?thesis
  proof (cases "find ?mine (db_accounts D) = None")
    case True
    have "(t, code) \<notin> (\<lambda>a. (ac_tenant a, ac_code a)) ` set (db_accounts D)"
      using True by (auto simp: find_None_iff)
    moreover have "ev_cuid E (db_seq D) \<notin> ac_id ` set (db_accounts D)"
      using assms by (auto simp: accounts_ok_def inj_eq)
    ultimately show ?thesis
      using True assms
      by (auto simp: s upsert_account_def Let_def fresh_def accounts_ok_def less_Suc_eq)
  next
    case False
    let ?f = "\<lambda>a. a\<lparr>ac_name := name, ac_type := ty, ac_normal := nb, ac_currency := ''NGN'',
                    ac_system := True\<rparr>"
    have m: "map g (update_where ?mine ?f (db_accounts D)) = map g (db_accounts D)"
      if "\<And>a. g (?f a) = g a" for g :: "ledger_account \<Rightarrow> 'x"
      using that by (rule map_update_where)
    have k: "map account_key (update_where ?mine ?f (db_accounts D)) = map account_key (db_accounts D)"
      and i: "map ac_id (update_where ?mine ?f (db_accounts D)) = map ac_id (db_accounts D)"
      and c: "map (\<lambda>a. (ac_tenant a, ac_code a)) (update_where ?mine ?f (db_accounts D)) =
        map (\<lambda>a. (ac_tenant a, ac_code a)) (db_accounts D)"
      by (rule m, simp add: account_key_def)+
    have u: "upsert_account E t s D = D\<lparr>db_accounts := update_where ?mine ?f (db_accounts D)\<rparr>"
      using False by (simp add: s upsert_account_def)
    have "\<forall>a \<in> set (update_where ?mine ?f (db_accounts D)). \<exists>n < db_seq D. ac_id a = ev_cuid E n"
      using assms by (auto simp: accounts_ok_def set_update_where)
    then show ?thesis
      using assms unfolding u accounts_ok_def by (simp add: i c flip: set_map) (simp add: k)
  qed
qed

lemma ensure_accounts:
  assumes "accounts_ok E D"
  shows "accounts_ok E (ensureDefaultAccounts E t D) \<and>
    account_key ` set (db_accounts D) \<subseteq> account_key ` set (db_accounts (ensureDefaultAccounts E t D))"
proof -
  have "accounts_ok E (fold (upsert_account E t) ss D) \<and>
      account_key ` set (db_accounts D) \<subseteq> account_key ` set (db_accounts (fold (upsert_account E t) ss D))"
    for ss
    using assms
  proof (induction ss arbitrary: D)
    case (Cons s ss)
    from upsert_accounts [OF Cons.prems] have
      u: "accounts_ok E (upsert_account E t s D)"
        "account_key ` set (db_accounts D) \<subseteq> account_key ` set (db_accounts (upsert_account E t s D))"
      by blast+
    from Cons.IH [OF u(1)] u(2) show ?case by (simp add: subset_trans [OF u(2)])
  qed simp
  then show ?thesis by (simp add: ensureDefaultAccounts_def)
qed

section \<open>Balanced entries\<close>

definition signed_sum :: "ledger_line list \<Rightarrow> decimal" where
  "signed_sum ls = (\<Sum>l\<leftarrow>ls. signed_amount l)"

definition entry_balanced :: "ledger_entry \<Rightarrow> bool" where
  "entry_balanced e \<longleftrightarrow> signed_sum (en_lines e) = 0"

text \<open>An input whose amounts are whole kobo.\<close>

definition cents_input :: "entry_input \<Rightarrow> bool" where
  "cents_input x \<longleftrightarrow> (\<forall>l \<in> set (ei_lines x). is_cents (li_amount l))"

text \<open>What \<open>postEntry\<close> requires of its input.\<close>

definition post_guards :: "entry_input \<Rightarrow> bool" where
  "post_guards x \<longleftrightarrow> trim (ei_key x) \<noteq> '''' \<and> ei_lines x \<noteq> [] \<and>
     assertRoleCanPost (ei_role x) (ei_type x) = Inr () \<and>
     list_all (\<lambda>l. 0 < li_amount l) (ei_lines x) \<and>
     dir_sum DEBIT (map line_pair (ei_lines x)) = dir_sum CREDIT (map line_pair (ei_lines x))"

text \<open>A stored line of an input line.\<close>

definition stores :: "string \<Rightarrow> ledger_account list \<Rightarrow> string \<Rightarrow> line_input \<Rightarrow> ledger_line \<Rightarrow> bool" where
  "stores t accounts currency l n \<longleftrightarrow>
     (\<exists>a \<in> set accounts. ac_tenant a = t \<and> ac_code a = li_code l \<and>
        n = \<lparr>ln_tenant = t, ln_account = ac_id a, ln_direction = li_direction l,
             ln_amount = money (li_amount l), ln_minor = toMinor (li_amount l),
             ln_currency = currency\<rparr>)"

lemma build_lines:
  assumes "fold_outcome (build_line t currency accounts) ls acc = Inr out"
  shows "\<exists>new. out = acc @ new \<and> list_all2 (stores t accounts currency) ls new"
  using assms
proof (induction ls arbitrary: acc)
  case Nil
  then show ?case by simp
next
  case (Cons l ls)
  then obtain mid where b: "build_line t currency accounts l acc = Inr mid"
    and f: "fold_outcome (build_line t currency accounts) ls mid = Inr out"
    by (auto simp: chain_eq_Inr)
  from b obtain n where n: "mid = acc @ [n]" "stores t accounts currency l n"
    by (auto simp: build_line_def stores_def split: option.splits dest!: find_SomeD)
  from Cons.IH [OF f] obtain new where
    "out = mid @ new" "list_all2 (stores t accounts currency) ls new" by blast
  with n have "out = acc @ (n # new)" "list_all2 (stores t accounts currency) (l # ls) (n # new)"
    by simp_all
  then show ?case by blast
qed

lemma build_lines_total:
  assumes "\<forall>l \<in> set ls. \<exists>a \<in> set accounts. ac_tenant a = t \<and> ac_code a = li_code l"
  shows "\<exists>out. fold_outcome (build_line t currency accounts) ls acc = Inr out"
  using assms
proof (induction ls arbitrary: acc)
  case (Cons l ls)
  then have "find (\<lambda>a. ac_tenant a = t \<and> ac_code a = li_code l) accounts \<noteq> None"
    by (auto simp: find_None_iff)
  then obtain mid where "build_line t currency accounts l acc = Inr mid"
    by (auto simp: build_line_def)
  with Cons show ?case by simp
qed simp

text \<open>The entry a posting stores.\<close>

definition posted_entry :: "string \<Rightarrow> entry_input \<Rightarrow> ledger_line list \<Rightarrow> ledger_entry" where
  "posted_entry i x lines =
     \<lparr>en_id = i, en_tenant = ei_tenant x, en_occurred = ei_occurred x, en_type = ei_type x,
      en_key = ei_key x, en_ref_type = ei_ref_type x, en_ref_id = ei_ref_id x,
      en_created_by = trim_or_null (ei_created_by x), en_memo = trim_or_null (ei_memo x),
      en_lines = lines\<rparr>"

abbreviation keyed :: "string \<Rightarrow> string \<Rightarrow> ledger_entry \<Rightarrow> bool" where
  "keyed t k \<equiv> (\<lambda>e. en_tenant e = t \<and> en_key e = k)"

lemma post_entry_guards:
  "post_entry E x D = Inr r \<Longrightarrow> post_guards x"
  by (auto simp: post_entry_def post_guards_def outcome_simps Let_def line_pair_def list_all_iff
      split: if_splits prod.splits)

lemma post_entry_unfold:
  assumes "post_guards x"
  shows "post_entry E x D =
    (let D1 = ensureDefaultAccounts E (ei_tenant x) D
     in case find (keyed (ei_tenant x) (ei_key x)) (db_entries D) of
          Some e \<Rightarrow> Inr ((en_id e, True), D1)
        | None \<Rightarrow>
            chain (fold_outcome
               (build_line (ei_tenant x) (normalize_currency (ei_currency x)) (db_accounts D1))
               (ei_lines x) []) (\<lambda>lines.
              Inr ((ev_cuid E (db_seq D1), False),
                D1\<lparr>db_seq := Suc (db_seq D1),
                   db_entries := db_entries D @ [posted_entry (ev_cuid E (db_seq D1)) x lines]\<rparr>)))"
proof -
  have "tally ''Ledger line amount must be > 0.'' (map line_pair (ei_lines x)) =
      Inr (dir_sum DEBIT (map line_pair (ei_lines x)), dir_sum CREDIT (map line_pair (ei_lines x)))"
    using assms by (auto simp: tally_Inr post_guards_def list_all_iff line_pair_def)
  with assms show ?thesis
    by (simp add: post_entry_def post_guards_def Let_def fresh_def posted_entry_def
        cong: option.case_cong)
qed

lemma line_accounts: "\<exists>a \<in> set (db_accounts (ensureDefaultAccounts E t D)). ac_tenant a = t \<and> ac_code a = c"
proof -
  have "c \<in> codes_of t (ensureDefaultAccounts E t D)" by (simp add: ensure_codes)
  then show ?thesis unfolding codes_of_def by auto
qed

text \<open>The two ways a posting that passes its guards can go.\<close>

lemma post_entry_reused:
  assumes "post_guards x" "find (keyed (ei_tenant x) (ei_key x)) (db_entries D) = Some e"
  shows "post_entry E x D = Inr ((en_id e, True), ensureDefaultAccounts E (ei_tenant x) D)"
  using assms by (simp add: post_entry_unfold Let_def)

lemma post_entry_new:
  fixes E :: env
  assumes "post_guards x" "find (keyed (ei_tenant x) (ei_key x)) (db_entries D) = None"
  defines "D1 \<equiv> ensureDefaultAccounts E (ei_tenant x) D"
  shows "\<exists>lines. list_all2 (stores (ei_tenant x) (db_accounts D1) (normalize_currency (ei_currency x)))
      (ei_lines x) lines \<and>
    post_entry E x D = Inr ((ev_cuid E (db_seq D1), False),
      D1\<lparr>db_seq := Suc (db_seq D1),
         db_entries := db_entries D @ [posted_entry (ev_cuid E (db_seq D1)) x lines]\<rparr>)"
proof -
  have "\<forall>l \<in> set (ei_lines x). \<exists>a \<in> set (db_accounts D1). ac_tenant a = ei_tenant x \<and> ac_code a = li_code l"
    unfolding D1_def using line_accounts by blast
  from build_lines_total [OF this] obtain lines where
    l: "fold_outcome (build_line (ei_tenant x) (normalize_currency (ei_currency x)) (db_accounts D1))
      (ei_lines x) [] = Inr lines" by blast
  with build_lines [OF l] assms(1,2) show ?thesis
    by (auto simp: post_entry_unfold Let_def D1_def)
qed

lemma post_entry_total:
  assumes "post_guards x"
  shows "\<exists>r D'. post_entry E x D = Inr (r, D')"
proof (cases "find (keyed (ei_tenant x) (ei_key x)) (db_entries D)")
  case None
  then show ?thesis using post_entry_new [OF assms None, of E] by blast
next
  case (Some e)
  then show ?thesis using post_entry_reused [OF assms Some, of E] by blast
qed

lemma post_entry_cases:
  assumes "post_entry E x D = Inr ((i, b), D')"
  obtains (reused) e where "b" "i = en_id e" "D' = ensureDefaultAccounts E (ei_tenant x) D"
      "find (keyed (ei_tenant x) (ei_key x)) (db_entries D) = Some e"
  | (new) lines where "\<not> b" "find (keyed (ei_tenant x) (ei_key x)) (db_entries D) = None"
      "i = ev_cuid E (db_seq (ensureDefaultAccounts E (ei_tenant x) D))"
      "D' = (ensureDefaultAccounts E (ei_tenant x) D)
        \<lparr>db_seq := Suc (db_seq (ensureDefaultAccounts E (ei_tenant x) D)),
         db_entries := db_entries D @ [posted_entry i x lines]\<rparr>"
      "list_all2 (stores (ei_tenant x) (db_accounts (ensureDefaultAccounts E (ei_tenant x) D))
         (normalize_currency (ei_currency x))) (ei_lines x) lines"
proof (cases "find (keyed (ei_tenant x) (ei_key x)) (db_entries D)")
  case None
  from post_entry_new [OF post_entry_guards [OF assms] None, of E] assms that(2) None
  show thesis by auto
next
  case (Some e)
  from post_entry_reused [OF post_entry_guards [OF assms] Some, of E] assms that(1) Some
  show thesis by auto
qed

text \<open>A posting touches the accounts, the entries and the sequence of ids only.\<close>

lemma post_entry_frame:
  assumes "post_entry E x D = Inr (r, D')"
  shows "D' = D\<lparr>db_accounts := db_accounts D', db_seq := db_seq D', db_entries := db_entries D'\<rparr>"
proof -
  obtain i b where r: "r = (i, b)" by (cases r)
  show "D' = D\<lparr>db_accounts := db_accounts D', db_seq := db_seq D', db_entries := db_entries D'\<rparr>"
    using assms unfolding r
  proof (cases rule: post_entry_cases)
    case (reused e)
    then show ?thesis using ensure_frame [of E "ei_tenant x" D] by simp
  next
    case (new lines)
    then show ?thesis by simp (subst ensure_frame, simp)
  qed
qed

lemma post_entry_other_tables:
  assumes "post_entry E x D = Inr (r, D')"
  shows "db_loans D' = db_loans D" "db_items D' = db_items D" "db_repayments D' = db_repayments D"
    "db_pools D' = db_pools D" "db_allocs D' = db_allocs D" "db_history D' = db_history D"
    "db_effects D' = db_effects D" "db_admins D' = db_admins D" "db_snapshots D' = db_snapshots D"
    "db_suspicious D' = db_suspicious D" "db_disbursements D' = db_disbursements D"
  by (subst post_entry_frame [OF assms], simp)+

lemma ensure_other_tables [simp]:
  "db_loans (ensureDefaultAccounts E t D) = db_loans D" "db_items (ensureDefaultAccounts E t D) = db_items D"
  "db_repayments (ensureDefaultAccounts E t D) = db_repayments D"
  "db_pools (ensureDefaultAccounts E t D) = db_pools D" "db_allocs (ensureDefaultAccounts E t D) = db_allocs D"
  "db_history (ensureDefaultAccounts E t D) = db_history D" "db_effects (ensureDefaultAccounts E t D) = db_effects D"
  by (subst ensure_frame, simp)+

section \<open>What posting keeps\<close>

lemma signed_stored:
  assumes "list_all2 (stores t accounts cur) ls lines" "\<forall>l \<in> set ls. is_cents (li_amount l)"
  shows "signed_sum lines = dir_sum DEBIT (map line_pair ls) - dir_sum CREDIT (map line_pair ls)"
  using assms
proof (induction rule: list_all2_induct)
  case (Cons l ls n ns)
  then show ?case
    by (cases "li_direction l")
      (auto simp: signed_sum_def signed_amount_def stores_def line_pair_def)
qed (simp add: signed_sum_def)

lemma posted_balanced:
  assumes "post_entry E x D = Inr ((i, b), D')" "cents_input x"
    and "list_all2 (stores t accounts cur) (ei_lines x) lines"
  shows "entry_balanced (posted_entry j x lines)"
  using signed_stored [OF assms(3)] post_entry_guards [OF assms(1)] assms(2)
  by (simp add: entry_balanced_def posted_entry_def cents_input_def post_guards_def)

interpretation tl: ledger_port "post_entry E" db_entries entry_balanced cents_input for E
proof
  fix x D i D'
  assume "post_entry E x D = Inr ((i, True), D')"
  then show "db_entries D' = db_entries D"
    by (rule post_entry_cases) auto
next
  fix x D i D'
  assume p: "post_entry E x D = Inr ((i, False), D')"
  then show "\<exists>e. (cents_input x \<longrightarrow> entry_balanced e) \<and> db_entries D' = db_entries D @ [e]"
  proof (cases rule: post_entry_cases)
    case (new lines)
    then show ?thesis using posted_balanced [OF p _ new(5)] by auto
  qed simp
qed

text \<open>
  The invariant of the ledger: the chart is well-formed, a tenant has one entry per idempotency
  key, and every entry has lines, all of its tenant, on accounts of its tenant, positive, whole
  kobo, with the minor units of the amount, and its debits equal its credits.
\<close>

definition line_ok :: "ledger_account list \<Rightarrow> string \<Rightarrow> ledger_line \<Rightarrow> bool" where
  "line_ok accounts t l \<longleftrightarrow> ln_tenant l = t \<and> is_cents (ln_amount l) \<and> 0 < ln_amount l \<and>
     of_int (ln_minor l) = ln_amount l * 100 \<and>
     (\<exists>a \<in> set accounts. ac_id a = ln_account l \<and> ac_tenant a = t)"

definition entry_ok :: "ledger_account list \<Rightarrow> ledger_entry \<Rightarrow> bool" where
  "entry_ok accounts e \<longleftrightarrow> en_lines e \<noteq> [] \<and> entry_balanced e \<and>
     (\<forall>l \<in> set (en_lines e). line_ok accounts (en_tenant e) l)"

definition ledger_ok :: "env \<Rightarrow> db \<Rightarrow> bool" where
  "ledger_ok E D \<longleftrightarrow> accounts_ok E D \<and>
     distinct (map (\<lambda>e. (en_tenant e, en_key e)) (db_entries D)) \<and>
     (\<forall>e \<in> set (db_entries D). entry_ok (db_accounts D) e)"

lemma toMinor_cents: "is_cents x \<Longrightarrow> of_int (toMinor x) = x * 100"
  by (auto simp: is_cents_iff toMinor_def)

lemma entry_ok_mono:
  assumes "entry_ok as e" "account_key ` set as \<subseteq> account_key ` set bs"
  shows "entry_ok bs e"
proof -
  have "\<exists>b \<in> set bs. ac_id b = i \<and> ac_tenant b = t"
    if a: "a \<in> set as" "ac_id a = i" "ac_tenant a = t" for a i t
  proof -
    from a(1) assms(2) have "account_key a \<in> account_key ` set bs" by blast
    then obtain b where "b \<in> set bs" "account_key b = account_key a" by force
    with a(2,3) show ?thesis by (auto simp: account_key_def)
  qed
  with assms(1) show ?thesis unfolding entry_ok_def line_ok_def by blast
qed

lemma stored_line_ok:
  assumes "stores t accounts cur l n" "is_cents (li_amount l)" "0 < li_amount l"
  shows "line_ok accounts t n"
  using assms by (auto simp: stores_def line_ok_def toMinor_cents)

lemma posted_entry_ok:
  assumes p: "post_entry E x D = Inr ((i, b), D')" and c: "cents_input x"
    and l: "list_all2 (stores (ei_tenant x) accounts cur) (ei_lines x) lines"
  shows "entry_ok accounts (posted_entry j x lines)"
proof -
  have g: "list_all (\<lambda>l. 0 < li_amount l) (ei_lines x)" "ei_lines x \<noteq> []"
    using post_entry_guards [OF p] by (auto simp: post_guards_def)
  have "line_ok accounts (ei_tenant x) n" if "n \<in> set lines" for n
  proof -
    from list_all2_right [OF l that] obtain m where
      "m \<in> set (ei_lines x)" "stores (ei_tenant x) accounts cur m n" by blast
    with stored_line_ok c g show ?thesis by (auto simp: cents_input_def list_all_iff)
  qed
  moreover have "lines \<noteq> []" using l g(2) by auto
  ultimately show ?thesis
    using posted_balanced [OF p c l] by (simp add: entry_ok_def posted_entry_def)
qed

lemma accounts_ok_seq: "accounts_ok E D \<Longrightarrow> accounts_ok E (D\<lparr>db_seq := Suc (db_seq D), db_entries := es\<rparr>)"
  unfolding accounts_ok_def by (auto intro: less_SucI)

lemma post_entry_keeps:
  assumes ok: "ledger_ok E D" and c: "cents_input x" and p: "post_entry E x D = Inr ((i, b), D')"
  shows "ledger_ok E D'"
proof -
  let ?D1 = "ensureDefaultAccounts E (ei_tenant x) D"
  from ok have acc: "accounts_ok E ?D1"
    and sub: "account_key ` set (db_accounts D) \<subseteq> account_key ` set (db_accounts ?D1)"
    using ensure_accounts [of E D "ei_tenant x"] by (auto simp: ledger_ok_def)
  have old: "\<forall>e \<in> set (db_entries D). entry_ok (db_accounts ?D1) e"
    using ok entry_ok_mono [OF _ sub] by (auto simp: ledger_ok_def)
  from p show ?thesis
  proof (cases rule: post_entry_cases)
    case (reused e)
    then show ?thesis using ok acc old by (simp add: ledger_ok_def)
  next
    case (new lines)
    have "(ei_tenant x, ei_key x) \<notin> (\<lambda>e. (en_tenant e, en_key e)) ` set (db_entries D)"
      using new(2) by (auto simp: find_None_iff)
    then show ?thesis
      using ok acc old accounts_ok_seq [OF acc] posted_entry_ok [OF p c new(5)]
      by (simp add: ledger_ok_def new(4)) (simp add: posted_entry_def)
  qed
qed

section \<open>Nets of accounts\<close>

definition signed_minor :: "ledger_line \<Rightarrow> int" where
  "signed_minor l = (if ln_direction l = DEBIT then ln_minor l else - ln_minor l)"

definition account_net :: "string \<Rightarrow> ledger_line list \<Rightarrow> int" where
  "account_net acc ls = (\<Sum>l\<leftarrow>filter (\<lambda>l. ln_account l = acc) ls. signed_minor l)"

definition side_sum :: "direction \<Rightarrow> ledger_line list \<Rightarrow> int" where
  "side_sum dir ls = (\<Sum>l\<leftarrow>filter (\<lambda>l. ln_direction l = dir) ls. ln_minor l)"

lemma signed_minor_sum:
  assumes "\<forall>l \<in> set ls. of_int (ln_minor l) = ln_amount l * 100"
  shows "of_int (\<Sum>l\<leftarrow>ls. signed_minor l) = signed_sum ls * 100"
  using assms by (induction ls) (auto simp: signed_sum_def signed_minor_def signed_amount_def algebra_simps)

lemma side_difference: "side_sum DEBIT ls - side_sum CREDIT ls = (\<Sum>l\<leftarrow>ls. signed_minor l)"
proof (induction ls)
  case (Cons l ls)
  then show ?case by (cases "ln_direction l") (auto simp: side_sum_def signed_minor_def)
qed (simp add: side_sum_def)

lemma entry_sides:
  assumes "entry_ok as e"
  shows "side_sum DEBIT (en_lines e) = side_sum CREDIT (en_lines e)"
proof -
  have "of_int (\<Sum>l\<leftarrow>en_lines e. signed_minor l) = (0::rat)"
    using assms signed_minor_sum [of "en_lines e"]
    by (simp add: entry_ok_def line_ok_def entry_balanced_def)
  then show ?thesis using side_difference [of "en_lines e"] by simp
qed

lemma sum_delta_list:
  assumes "distinct ids" "k \<in> set ids"
  shows "(\<Sum>i\<leftarrow>ids. if k = i then x else 0) = (x::int)"
proof -
  have none: "(\<Sum>i\<leftarrow>js. if k = i then x else 0) = 0" if "k \<notin> set js" for js
    using that by (induction js) auto
  show ?thesis using assms by (induction ids) (auto simp: none)
qed

lemma side_total_Cons:
  "side_total dir acc (l # ls) =
     (if acc = ln_account l then if ln_direction l = dir then ln_minor l else 0 else 0) + side_total dir acc ls"
  by (auto simp: side_total_def)

lemma side_totals:
  assumes "distinct ids" "\<forall>l \<in> set ls. ln_account l \<in> set ids"
  shows "(\<Sum>i\<leftarrow>ids. side_total dir i ls) = side_sum dir ls"
  using assms(2)
proof (induction ls)
  case Nil
  then show ?case by (simp add: side_total_def side_sum_def)
next
  case (Cons l ls)
  have "(\<Sum>i\<leftarrow>ids. if i = ln_account l then (if ln_direction l = dir then ln_minor l else 0) else 0) =
      (if ln_direction l = dir then ln_minor l else 0)"
    using sum_delta_list [OF assms(1), of "ln_account l"] Cons.prems by (simp add: eq_commute)
  with Cons show ?case
    by (simp add: side_total_Cons sum_list_map_add side_sum_def)
qed

lemma sum_sort_key: "(\<Sum>x\<leftarrow>sort_key k xs. f x) = ((\<Sum>x\<leftarrow>xs. f x) :: 'b::comm_monoid_add)"
  by (metis mset_map mset_sort sum_mset_sum_list)

lemma side_sum_concat: "side_sum dir (concat lss) = (\<Sum>ls\<leftarrow>lss. side_sum dir ls)"
  by (induction lss) (auto simp: side_sum_def)

lemma tenant_lines_sides:
  assumes "ledger_ok E D"
  shows "side_sum DEBIT (tenant_lines t asOf D) = side_sum CREDIT (tenant_lines t asOf D)"
proof -
  let ?es = "filter (\<lambda>e. case asOf of None \<Rightarrow> True | Some d \<Rightarrow> en_occurred e \<le> d) (db_entries D)"
  let ?mine = "\<lambda>e. filter (\<lambda>l. ln_tenant l = t) (en_lines e)"
  have "side_sum DEBIT (?mine e) = side_sum CREDIT (?mine e)" if "e \<in> set ?es" for e
  proof -
    from that assms have ok: "entry_ok (db_accounts D) e" by (auto simp: ledger_ok_def)
    then have "\<forall>l \<in> set (en_lines e). ln_tenant l = en_tenant e"
      by (simp add: entry_ok_def line_ok_def)
    then have "?mine e = (if en_tenant e = t then en_lines e else [])"
      by (auto simp: filter_id_conv filter_empty_conv)
    then show ?thesis using entry_sides [OF ok] by (simp add: side_sum_def)
  qed
  then have "map (\<lambda>e. side_sum DEBIT (?mine e)) ?es = map (\<lambda>e. side_sum CREDIT (?mine e)) ?es"
    by simp
  then show ?thesis
    by (simp only: tenant_lines_def filter_concat map_map comp_def side_sum_concat)
qed

section \<open>Reversals\<close>

lemma reverse_lines:
  assumes "fold_outcome (reverse_line t accounts) ls acc = Inr out"
  shows "\<exists>new. out = acc @ new \<and> list_all2 (\<lambda>l m. li_direction m = opposite (ln_direction l) \<and>
      li_amount m = ln_amount l \<and>
      (\<exists>a \<in> set accounts. ac_tenant a = t \<and> ac_id a = ln_account l \<and> ac_code a = li_code m)) ls new"
  using assms
proof (induction ls arbitrary: acc)
  case Nil
  then show ?case by simp
next
  case (Cons l ls)
  let ?R = "\<lambda>l m. li_direction m = opposite (ln_direction l) \<and> li_amount m = ln_amount l \<and>
      (\<exists>a \<in> set accounts. ac_tenant a = t \<and> ac_id a = ln_account l \<and> ac_code a = li_code m)"
  from Cons.prems obtain mid where b: "reverse_line t accounts l acc = Inr mid"
    and f: "fold_outcome (reverse_line t accounts) ls mid = Inr out"
    by (auto simp: chain_eq_Inr)
  from b obtain a where a: "find (\<lambda>a. ac_tenant a = t \<and> ac_id a = ln_account l) accounts = Some a"
    and m: "mid = acc @ [\<lparr>li_code = ac_code a, li_direction = opposite (ln_direction l),
      li_amount = ln_amount l\<rparr>]" (is "mid = acc @ [?m]")
    by (auto simp: reverse_line_def split: option.splits)
  from find_SomeD [OF a] have "?R l ?m" by auto
  then obtain m where m: "mid = acc @ [m]" "?R l m" using m by blast
  from Cons.IH [OF f] obtain new where "out = mid @ new" "list_all2 ?R ls new" by blast
  with m have "out = acc @ (m # new)" "list_all2 ?R (l # ls) (m # new)" by simp_all
  then show ?case by blast
qed

lemma reverse_lines_total:
  assumes "\<forall>l \<in> set ls. line_ok accounts t l"
  shows "\<exists>out. fold_outcome (reverse_line t accounts) ls acc = Inr out"
  using assms
proof (induction ls arbitrary: acc)
  case (Cons l ls)
  then have "find (\<lambda>a. ac_tenant a = t \<and> ac_id a = ln_account l) accounts \<noteq> None"
    by (auto simp: find_None_iff line_ok_def)
  then obtain mid where "reverse_line t accounts l acc = Inr mid"
    by (auto simp: reverse_line_def)
  with Cons show ?case by simp
qed simp

text \<open>An account keeps its id when the chart is extended.\<close>

lemma same_account:
  assumes ok: "accounts_ok E D" and sub: "account_key ` set as \<subseteq> account_key ` set (db_accounts D)"
    and a: "a \<in> set as" and b: "b \<in> set (db_accounts D)"
    and "ac_tenant a = ac_tenant b" "ac_code a = ac_code b"
  shows "ac_id a = ac_id b"
proof -
  from a sub have "account_key a \<in> account_key ` set (db_accounts D)" by blast
  then obtain c where c: "c \<in> set (db_accounts D)" "account_key c = account_key a" by force
  have "inj_on (\<lambda>a. (ac_tenant a, ac_code a)) (set (db_accounts D))"
    using ok by (simp add: accounts_ok_def distinct_map)
  then have "c = b" using c b assms(5,6) by (auto simp: account_key_def inj_on_def)
  with c show ?thesis by (simp add: account_key_def)
qed

lemma mirrored_net:
  assumes "list_all2 (\<lambda>l n. ln_account n = ln_account l \<and> ln_minor n = ln_minor l \<and>
      ln_direction n = opposite (ln_direction l)) ls ns"
  shows "account_net acc ls + account_net acc ns = 0"
  using assms
proof (induction rule: list_all2_induct)
  case (Cons l ls n ns)
  then show ?case
    by (cases "ln_direction l") (auto simp: account_net_def signed_minor_def)
qed (simp add: account_net_def)

lemma mirrored_sums:
  assumes "list_all2 (\<lambda>l m. li_direction m = opposite (ln_direction l) \<and>
      li_amount m = ln_amount l \<and> P l m) ls ms"
  shows "dir_sum DEBIT (map line_pair ms) - dir_sum CREDIT (map line_pair ms) = - signed_sum ls"
  using assms
proof (induction rule: list_all2_induct)
  case (Cons l ls m ms)
  then show ?case
    by (cases "ln_direction l")
      (auto simp: signed_sum_def signed_amount_def line_pair_def algebra_simps)
qed (simp add: signed_sum_def)

definition reversal_input ::
  "env \<Rightarrow> string \<Rightarrow> ledger_entry \<Rightarrow> string \<Rightarrow> string option \<Rightarrow> admin_role option \<Rightarrow> line_input list \<Rightarrow> entry_input"
where
  "reversal_input E t e reason by role ms =
     \<lparr>ei_tenant = t, ei_occurred = ev_now E, ei_type = E_ADJUSTMENT,
      ei_key = ''reversal:'' @ en_id e, ei_ref_type = ''LEDGER_REVERSAL'', ei_ref_id = en_id e,
      ei_currency = Some (case en_lines e of [] \<Rightarrow> ''NGN'' | l # _ \<Rightarrow> ln_currency l),
      ei_created_by = by, ei_role = role, ei_memo = Some reason, ei_lines = ms\<rparr>"

lemma reversal_key: "trim (''reversal:'' @ s) \<noteq> ''''"
proof -
  have "CHR ''r'' \<in> set (rev (''reversal:'' @ s))" "\<not> is_space (CHR ''r'')"
    by (auto simp: is_space_def)
  then have "dropWhile is_space (rev (''reversal:'' @ s)) \<noteq> []"
    by (metis dropWhile_eq_Nil_conv)
  moreover have "dropWhile is_space (''reversal:'' @ s) = ''reversal:'' @ s"
    by (simp add: is_space_def)
  ultimately show ?thesis by (simp only: trim_def rev_is_Nil_conv not_False_eq_True)
qed

lemma reversal_guards:
  assumes e: "entry_ok as e" and role: "assertRoleCanReverse role = Inr ()"
    and ms: "list_all2 (\<lambda>l m. li_direction m = opposite (ln_direction l) \<and>
      li_amount m = ln_amount l \<and> P l m) (en_lines e) ms"
  shows "post_guards (reversal_input E t e reason by role ms)"
    and "cents_input (reversal_input E t e reason by role ms)"
proof -
  have post: "assertRoleCanPost role E_ADJUSTMENT = Inr ()"
    using role by (cases role) (auto split: if_splits)
  have ne: "ms \<noteq> []" using ms e by (auto simp: entry_ok_def)
  have "0 < li_amount m \<and> is_cents (li_amount m)" if "m \<in> set ms" for m
  proof -
    from list_all2_right [OF ms that] obtain l where
      "l \<in> set (en_lines e)" "li_amount m = ln_amount l" by blast
    with e show ?thesis by (auto simp: entry_ok_def line_ok_def)
  qed
  moreover have "dir_sum DEBIT (map line_pair ms) = dir_sum CREDIT (map line_pair ms)"
    using mirrored_sums [OF ms] e by (simp add: entry_ok_def entry_balanced_def)
  ultimately show "post_guards (reversal_input E t e reason by role ms)"
    and "cents_input (reversal_input E t e reason by role ms)"
    using post ne reversal_key
    by (auto simp: post_guards_def cents_input_def reversal_input_def list_all_iff)
qed

section \<open>Properties\<close>

definition sample_entry :: entry_input where
  "sample_entry =
     \<lparr>ei_tenant = ''t'', ei_occurred = 0, ei_type = E_ADJUSTMENT, ei_key = ''k'',
      ei_ref_type = ''LoanApplication'', ei_ref_id = ''loan'', ei_currency = None,
      ei_created_by = None, ei_role = Some SYSTEM, ei_memo = None,
      ei_lines = [\<lparr>li_code = CASH_MAIN, li_direction = DEBIT, li_amount = 10\<rparr>,
                  \<lparr>li_code = LOAN_CLEARING, li_direction = CREDIT, li_amount = 10\<rparr>]\<rparr>"

lemma sample_entry_guards: "post_guards sample_entry" "cents_input sample_entry"
  by (simp_all add: post_guards_def sample_entry_def line_pair_def cents_input_def trim_def
      is_space_def is_cents_def)

lemma empty_ledger_ok: "ledger_ok sample_env empty_db"
  by (simp add: ledger_ok_def accounts_ok_def empty_db_def)

lemma sample_posted:
  "\<exists>i D' ls. post_entry sample_env sample_entry empty_db = Inr ((i, False), D') \<and>
     ledger_ok sample_env D' \<and> db_entries D' = [posted_entry i sample_entry ls]"
proof -
  have "find (keyed (ei_tenant sample_entry) (ei_key sample_entry)) (db_entries empty_db) = None"
    by (simp add: empty_db_def)
  from post_entry_new [OF sample_entry_guards(1) this, of sample_env] obtain i D' ls where
    p: "post_entry sample_env sample_entry empty_db = Inr ((i, False), D')"
    and "db_entries D' = [posted_entry i sample_entry ls]" by (auto simp: empty_db_def)
  with post_entry_keeps [OF empty_ledger_ok sample_entry_guards(2) p] show ?thesis by blast
qed

text \<open>
  C4. \<open>postEntry\<close> accepts an entry exactly when its key is not blank, it has lines, the role may
  post its type, every amount is positive and the debits equal the credits; the chart of
  accounts never makes it fail.
\<close>

theorem post_entry_accepts:
  "(\<exists>r. post_entry E x D = Inr r) =
     (trim (ei_key x) \<noteq> '''' \<and> ei_lines x \<noteq> [] \<and>
      assertRoleCanPost (ei_role x) (ei_type x) = Inr () \<and>
      list_all (\<lambda>l. 0 < li_amount l) (ei_lines x) \<and>
      dir_sum DEBIT (map line_pair (ei_lines x)) = dir_sum CREDIT (map line_pair (ei_lines x)))"
proof -
  have "\<exists>r. post_entry E x D = Inr r" if "post_guards x"
    using post_entry_total [OF that, of E D] by blast
  then have "(\<exists>r. post_entry E x D = Inr r) = post_guards x"
    using post_entry_guards by blast
  then show ?thesis by (simp add: post_guards_def)
qed

text \<open>A stored line is well-formed when its rounded amount is positive, a new entry when its rounded sides agree.\<close>

lemma stored_entry_ok_iff:
  assumes "list_all2 (stores (ei_tenant x) accounts cur) (ei_lines x) lines" "ei_lines x \<noteq> []"
  shows "entry_ok accounts (posted_entry j x lines) \<longleftrightarrow>
    list_all (\<lambda>l. 0 < money (li_amount l)) (ei_lines x) \<and>
    (\<Sum>l\<leftarrow>ei_lines x. if li_direction l = DEBIT then money (li_amount l) else - money (li_amount l)) = 0"
proof -
  have "line_ok accounts (ei_tenant x) n \<longleftrightarrow> 0 < money (li_amount l)" if "stores (ei_tenant x) accounts cur l n" for l n
    using that by (auto simp: stores_def line_ok_def money_def toMinor_def is_cents_money [unfolded money_def])
  with assms(1) have "list_all (line_ok accounts (ei_tenant x)) lines \<longleftrightarrow> list_all (\<lambda>l. 0 < money (li_amount l)) (ei_lines x)"
    by (induction rule: list_all2_induct) simp_all
  moreover from assms(1) have "signed_sum lines =
      (\<Sum>l\<leftarrow>ei_lines x. if li_direction l = DEBIT then money (li_amount l) else - money (li_amount l))"
    by (induction rule: list_all2_induct) (auto simp: signed_sum_def signed_amount_def stores_def)
  moreover have "lines \<noteq> []" using assms by auto
  ultimately show ?thesis
    by (auto simp: entry_ok_def entry_balanced_def posted_entry_def list_all_iff)
qed

text \<open>
  C3. When a posting keeps the ledger well-formed (one entry per tenant and key, every entry balanced, its
  lines positive, on accounts of its tenant, with the minor units of the amount). A reused key changes no
  entry. A new entry keeps it exactly when the amounts, rounded to kobo as the table stores them, are positive
  and balance; \<open>postEntry\<close> checks the amounts as given, so that always holds for amounts in whole kobo and
  is up to the caller for others. The keys stay unique and the chart of accounts well-formed in any case.
\<close>

theorem post_entry_keeps_ledger:
  assumes "ledger_ok E D" "post_entry E x D = Inr ((i, reused), D')"
  shows "(ledger_ok E D' \<longleftrightarrow> reused \<or> list_all (\<lambda>l. 0 < money (li_amount l)) (ei_lines x) \<and>
      (\<Sum>l\<leftarrow>ei_lines x. if li_direction l = DEBIT then money (li_amount l) else - money (li_amount l)) = 0) \<and>
    (cents_input x \<longrightarrow> ledger_ok E D') \<and>
    distinct (map (\<lambda>e. (en_tenant e, en_key e)) (db_entries D')) \<and> accounts_ok E D'"
proof -
  let ?D1 = "ensureDefaultAccounts E (ei_tenant x) D"
  from assms(1) have acc: "accounts_ok E ?D1"
    and sub: "account_key ` set (db_accounts D) \<subseteq> account_key ` set (db_accounts ?D1)"
    using ensure_accounts [of E D "ei_tenant x"] by (auto simp: ledger_ok_def)
  have old: "\<forall>e \<in> set (db_entries D). entry_ok (db_accounts ?D1) e"
    using assms(1) entry_ok_mono [OF _ sub] by (auto simp: ledger_ok_def)
  have cents: "cents_input x \<longrightarrow> ledger_ok E D'" using post_entry_keeps [OF assms(1) _ assms(2)] by blast
  from assms(2) show ?thesis
  proof (cases rule: post_entry_cases)
    case (reused e)
    then show ?thesis using assms(1) acc old by (simp add: ledger_ok_def)
  next
    case (new lines)
    have key: "(ei_tenant x, ei_key x) \<notin> (\<lambda>e. (en_tenant e, en_key e)) ` set (db_entries D)"
      using new(2) by (auto simp: find_None_iff)
    have g: "ei_lines x \<noteq> []" using post_entry_guards [OF assms(2)] by (simp add: post_guards_def)
    have keys: "distinct (map (\<lambda>e. (en_tenant e, en_key e)) (db_entries D'))"
      using assms(1) key by (simp add: ledger_ok_def new(4)) (simp add: posted_entry_def)
    have acc': "accounts_ok E D'" unfolding new(4) by (rule accounts_ok_seq [OF acc])
    have "ledger_ok E D' \<longleftrightarrow> entry_ok (db_accounts ?D1) (posted_entry i x lines)"
      using acc' keys old unfolding ledger_ok_def by (simp add: new(4))
    then show ?thesis
      using cents keys acc' new(1) by (simp add: stored_entry_ok_iff [OF new(5) g])
  qed
qed

theorem post_entry_keeps_ledger_witness:
  "\<exists>i D'. post_entry sample_env sample_entry empty_db = Inr ((i, False), D') \<and> ledger_ok sample_env D'"
proof -
  obtain i D' where p: "post_entry sample_env sample_entry empty_db = Inr ((i, False), D')"
    using sample_posted by blast
  with post_entry_keeps_ledger [OF empty_ledger_ok p] sample_entry_guards(2) show ?thesis by blast
qed

text \<open>
  Posting is idempotent: after a posting with a key, any acceptable posting of the same
  tenant with that key returns the first entry's id, reports the reuse and adds no entry.
\<close>

lemma post_entry_idempotent:
  assumes "post_entry E x D = Inr ((i, b), D')"
    and "post_guards y" "ei_tenant y = ei_tenant x" "ei_key y = ei_key x"
  shows "\<exists>D''. post_entry E y D' = Inr ((i, True), D'') \<and> db_entries D'' = db_entries D'"
  using assms(1)
proof (cases rule: post_entry_cases)
  case (reused e)
  then have "find (keyed (ei_tenant y) (ei_key y)) (db_entries D') = Some e"
    using assms(3,4) by simp
  from post_entry_reused [OF assms(2) this, of E] reused show ?thesis by simp
next
  case (new lines)
  then have "find (keyed (ei_tenant y) (ei_key y)) (db_entries D') = Some (posted_entry i x lines)"
    using assms(3,4) by (simp add: find_append posted_entry_def)
  from post_entry_reused [OF assms(2) this, of E] show ?thesis by (simp add: posted_entry_def)
qed

lemma post_entry_idempotent_witness:
  "\<exists>i D' D''. post_entry sample_env sample_entry empty_db = Inr ((i, False), D') \<and>
     post_entry sample_env sample_entry D' = Inr ((i, True), D'') \<and> db_entries D'' = db_entries D'"
proof -
  obtain i D' where p: "post_entry sample_env sample_entry empty_db = Inr ((i, False), D')"
    using sample_posted by blast
  with post_entry_idempotent [OF p sample_entry_guards(1)] show ?thesis by blast
qed

lemma reverse_unfold:
  assumes "find (\<lambda>e. en_id e = entryId \<and> en_tenant e = t) (db_entries D) = Some e"
    and "find (keyed t (''reversal:'' @ en_id e)) (db_entries D) = None"
    and "assertRoleCanReverse role = Inr ()"
    and "fold_outcome (reverse_line t (db_accounts D)) (en_lines e) [] = Inr ms"
  shows "reverseEntry E t entryId reason by role D = post_entry E (reversal_input E t e reason by role ms) D"
  using assms by (simp add: reverseEntry_def Let_def reversal_input_def)

lemma reversal_mirrors:
  assumes ok: "ledger_ok E D" and e: "entry_ok (db_accounts D) e"
    and ms: "list_all2 (\<lambda>l m. li_direction m = opposite (ln_direction l) \<and> li_amount m = ln_amount l \<and>
      (\<exists>a \<in> set (db_accounts D). ac_tenant a = t \<and> ac_id a = ln_account l \<and> ac_code a = li_code m))
      (en_lines e) ms"
    and ns: "list_all2 (stores t (db_accounts (ensureDefaultAccounts E t D)) cur) ms ns"
  shows "account_net acc (en_lines e) + account_net acc ns = 0"
proof (rule mirrored_net)
  let ?D1 = "ensureDefaultAccounts E t D"
  have acc: "accounts_ok E ?D1" and sub: "account_key ` set (db_accounts D) \<subseteq> account_key ` set (db_accounts ?D1)"
    using ok ensure_accounts [of E D t] by (auto simp: ledger_ok_def)
  let ?R = "\<lambda>l n. ln_account n = ln_account l \<and> ln_minor n = ln_minor l \<and>
      ln_direction n = opposite (ln_direction l)"
  show "list_all2 ?R (en_lines e) ns"
  proof (rule list_all2_all_nthI)
    show len: "length (en_lines e) = length ns"
      using ms ns by (auto dest!: list_all2_lengthD)
    fix k assume k: "k < length (en_lines e)"
    let ?l = "en_lines e ! k"
    from ms k obtain a where a: "a \<in> set (db_accounts D)" "ac_tenant a = t" "ac_id a = ln_account ?l"
        "ac_code a = li_code (ms ! k)"
      and m: "li_direction (ms ! k) = opposite (ln_direction ?l)" "li_amount (ms ! k) = ln_amount ?l"
      by (auto dest!: list_all2_nthD)
    have "stores t (db_accounts ?D1) cur (ms ! k) (ns ! k)"
      using list_all2_nthD [OF ns, of k] list_all2_lengthD [OF ms] k by simp
    then obtain b where b: "b \<in> set (db_accounts ?D1)" "ac_tenant b = t" "ac_code b = li_code (ms ! k)"
      and n: "ns ! k = \<lparr>ln_tenant = t, ln_account = ac_id b, ln_direction = li_direction (ms ! k),
        ln_amount = money (li_amount (ms ! k)), ln_minor = toMinor (li_amount (ms ! k)),
        ln_currency = cur\<rparr>"
      by (auto simp: stores_def)
    have "ac_id a = ac_id b"
      by (rule same_account [OF acc sub a(1) b(1)]) (simp_all add: a b)
    moreover have "toMinor (ln_amount ?l) = ln_minor ?l"
    proof -
      have "?l \<in> set (en_lines e)" using k by simp
      with e have "is_cents (ln_amount ?l)" "of_int (ln_minor ?l) = ln_amount ?l * 100"
        by (auto simp: entry_ok_def line_ok_def)
      then have "of_int (toMinor (ln_amount ?l)) = (of_int (ln_minor ?l) :: rat)"
        by (simp add: toMinor_cents)
      then show ?thesis by (simp only: of_int_eq_iff)
    qed
    ultimately show "?R ?l (ns ! k)" using a m n by simp
  qed
qed

text \<open>
  C10. An entry is reversed once. When the role may reverse, the entry exists and was not reversed
  before, \<open>reverseEntry\<close> succeeds and appends one balanced entry that undoes the effect of the
  original on every account; every later reversal of the entry, by whoever may reverse and for whatever
  reason, answers with that same entry and changes nothing.
\<close>

theorem reversal_cancels:
  assumes "ledger_ok E D"
    and "find (\<lambda>e. en_id e = entryId \<and> en_tenant e = t) (db_entries D) = Some e"
    and "find (\<lambda>f. en_tenant f = t \<and> en_key f = ''reversal:'' @ en_id e) (db_entries D) = None"
    and "assertRoleCanReverse role = Inr ()"
  shows "\<exists>i r D'. reverseEntry E t entryId reason by role D = Inr ((i, False), D') \<and>
    db_entries D' = db_entries D @ [r] \<and> entry_balanced r \<and> ledger_ok E D' \<and>
    (\<forall>acc. account_net acc (en_lines e) + account_net acc (en_lines r) = 0) \<and>
    (\<forall>E2 reason2 by2 role2. assertRoleCanReverse role2 = Inr () \<longrightarrow>
       reverseEntry E2 t entryId reason2 by2 role2 D' = Inr ((i, True), D'))"
proof -
  from find_SomeD [OF assms(2)] have mem: "e \<in> set (db_entries D)" and t: "en_tenant e = t" by auto
  then have e: "entry_ok (db_accounts D) e" using assms(1) by (simp add: ledger_ok_def)
  then obtain ms where f: "fold_outcome (reverse_line t (db_accounts D)) (en_lines e) [] = Inr ms"
    using reverse_lines_total [of "en_lines e" "db_accounts D" t "[]"] t by (auto simp: entry_ok_def)
  from reverse_lines [OF f] have ms: "list_all2 (\<lambda>l m. li_direction m = opposite (ln_direction l) \<and>
      li_amount m = ln_amount l \<and>
      (\<exists>a \<in> set (db_accounts D). ac_tenant a = t \<and> ac_id a = ln_account l \<and> ac_code a = li_code m))
      (en_lines e) ms" by simp
  let ?x = "reversal_input E t e reason by role ms"
  note g = reversal_guards [OF e assms(4) ms, of E t reason "by"]
  have xt: "ei_tenant ?x = t" "ei_key ?x = ''reversal:'' @ en_id e" by (simp_all add: reversal_input_def)
  have "find (keyed (ei_tenant ?x) (ei_key ?x)) (db_entries D) = None" using assms(3) xt by simp
  from post_entry_new [OF g(1) this, of E] obtain i ns where
    ns: "list_all2 (stores t (db_accounts (ensureDefaultAccounts E t D)) (normalize_currency (ei_currency ?x)))
        (ei_lines ?x) ns"
    and p: "post_entry E ?x D = Inr ((i, False),
      (ensureDefaultAccounts E t D)\<lparr>db_seq := Suc (db_seq (ensureDefaultAccounts E t D)),
        db_entries := db_entries D @ [posted_entry i ?x ns]\<rparr>)" (is "_ = Inr (_, ?D')")
    unfolding xt by blast
  have l: "ei_lines ?x = ms" by (simp add: reversal_input_def)
  from reversal_mirrors [OF assms(1) e ms ns [unfolded l]]
  have "\<forall>acc. account_net acc (en_lines e) + account_net acc (en_lines (posted_entry i ?x ns)) = 0"
    by (simp add: posted_entry_def)
  moreover have "entry_balanced (posted_entry i ?x ns)" using posted_balanced [OF p g(2) ns] by simp
  moreover have "ledger_ok E ?D'" using post_entry_keeps [OF assms(1) g(2) p] .
  moreover have "reverseEntry E t entryId reason by role D = Inr ((i, False), ?D')"
    unfolding p [symmetric] by (rule reverse_unfold [OF assms(2,3,4) f])
  moreover have ent: "db_entries ?D' = db_entries D @ [posted_entry i ?x ns]" by simp
  moreover have "reverseEntry E2 t entryId reason2 by2 role2 ?D' = Inr ((i, True), ?D')"
    if "assertRoleCanReverse role2 = Inr ()" for E2 reason2 by2 role2
  proof -
    have "find (\<lambda>e. en_id e = entryId \<and> en_tenant e = t) (db_entries ?D') = Some e"
      unfolding ent by (simp add: find_append assms(2))
    moreover have "find (\<lambda>f. en_tenant f = t \<and> en_key f = ''reversal:'' @ en_id e) (db_entries ?D') = Some (posted_entry i ?x ns)"
      unfolding ent using assms(3) by (simp add: find_append posted_entry_def xt)
    ultimately show ?thesis
      unfolding reverseEntry_def that by (simp only: chain_Inr option.case Let_def) (simp add: posted_entry_def)
  qed
  ultimately show ?thesis by blast
qed

theorem reversal_cancels_witness:
  "\<exists>D e i r D'. db_entries D = [e] \<and> reverseEntry sample_env ''t'' (en_id e) ''error'' None None D = Inr ((i, False), D') \<and>
     db_entries D' = [e, r] \<and> (\<forall>acc. account_net acc (en_lines e) + account_net acc (en_lines r) = 0)"
proof -
  obtain j D ls where D: "ledger_ok sample_env D" "db_entries D = [posted_entry j sample_entry ls]"
    using sample_posted by blast
  let ?e = "posted_entry j sample_entry ls"
  have e: "en_id ?e = j" "en_tenant ?e = ''t''" "en_key ?e = ''k''"
    by (simp_all add: posted_entry_def sample_entry_def)
  have "find (\<lambda>e. en_id e = j \<and> en_tenant e = ''t'') (db_entries D) = Some ?e"
    and "find (\<lambda>f. en_tenant f = ''t'' \<and> en_key f = ''reversal:'' @ en_id ?e) (db_entries D) = None"
    and "assertRoleCanReverse None = Inr ()"
    using D(2) e by simp_all
  from reversal_cancels [OF D(1) this, of "''error''" None] D(2) e show ?thesis
    by (metis append_Cons append_Nil)
qed

text \<open>
  C16. The trial balance: in a well-formed ledger the debits of all accounts sum to the credits
  of all accounts, at any date.
\<close>

theorem trial_balance:
  assumes "ledger_ok E D"
  shows "(\<Sum>b\<leftarrow>fst (listAccountsWithBalances E t asOf D). ab_debit b) =
    (\<Sum>b\<leftarrow>fst (listAccountsWithBalances E t asOf D). ab_credit b)"
proof -
  let ?D1 = "ensureDefaultAccounts E t D"
  let ?mine = "filter (\<lambda>a. ac_tenant a = t) (db_accounts ?D1)"
  let ?lines = "tenant_lines t asOf ?D1"
  have acc: "accounts_ok E ?D1" and sub: "account_key ` set (db_accounts D) \<subseteq> account_key ` set (db_accounts ?D1)"
    using assms ensure_accounts [of E D t] by (auto simp: ledger_ok_def)
  have ok: "ledger_ok E ?D1"
    using assms acc entry_ok_mono [OF _ sub] by (auto simp: ledger_ok_def)
  have dist: "distinct (map ac_id ?mine)"
    using acc by (auto simp: accounts_ok_def intro: distinct_map_filter)
  have mem: "ln_account l \<in> set (map ac_id ?mine)" if l: "l \<in> set ?lines" for l
  proof -
    from l obtain e where e: "e \<in> set (db_entries ?D1)" "l \<in> set (en_lines e)" and "ln_tenant l = t"
      by (auto simp: tenant_lines_def)
    from e ok have "line_ok (db_accounts ?D1) (en_tenant e) l"
      by (auto simp: ledger_ok_def entry_ok_def)
    with \<open>ln_tenant l = t\<close> show ?thesis
      unfolding line_ok_def set_map set_filter by (metis (mono_tags, lifting) imageI mem_Collect_eq)
  qed
  have side: "(\<Sum>a\<leftarrow>?mine. side_total dir (ac_id a) ?lines) = side_sum dir ?lines" for dir
    using side_totals [OF dist, of ?lines dir] mem by (simp add: comp_def)
  show ?thesis
    using side tenant_lines_sides [OF ok]
    by (simp add: listAccountsWithBalances_def Let_def comp_def sum_sort_key)
qed

theorem trial_balance_witness:
  "\<exists>i D'. post_entry sample_env sample_entry empty_db = Inr ((i, False), D') \<and>
     (\<Sum>b\<leftarrow>fst (listAccountsWithBalances sample_env ''t'' None D'). ab_debit b) =
     (\<Sum>b\<leftarrow>fst (listAccountsWithBalances sample_env ''t'' None D'). ab_credit b)"
proof -
  obtain i D' where p: "post_entry sample_env sample_entry empty_db = Inr ((i, False), D')"
    "ledger_ok sample_env D'" using sample_posted by blast
  with trial_balance [OF p(2), of "''t''" None] show ?thesis by blast
qed

text \<open>
  A journal is always recorded in naira: \<open>createJournal\<close> checks that its lines share a
  currency and then posts them without it, so every line of the new entry is in NGN, whatever
  the currency of the journal was.
\<close>

lemma journal_is_recorded_in_naira:
  assumes "createJournal E x D = Inr ((i, False), D')"
  shows "\<exists>e. db_entries D' = db_entries D @ [e] \<and> list_all (\<lambda>l. ln_currency l = ''NGN'') (en_lines e)"
proof -
  let ?y = "\<lparr>ei_tenant = ji_tenant x, ei_occurred = (case ji_occurred x of None \<Rightarrow> ev_now E | Some t \<Rightarrow> t),
     ei_type = E_ADJUSTMENT, ei_key = ji_key x, ei_ref_type = ji_ref_type x, ei_ref_id = ji_ref_id x,
     ei_currency = None, ei_created_by = ji_created_by x, ei_role = ji_role x, ei_memo = ji_memo x,
     ei_lines = map (\<lambda>l. \<lparr>li_code = jl_code l, li_direction = jl_direction l,
                          li_amount = jl_amount l\<rparr>) (ji_entries x)\<rparr>"
  have p: "post_entry E ?y D = Inr ((i, False), D')"
    using assms by (auto simp: createJournal_def outcome_simps split: if_splits)
  have cur: "normalize_currency (ei_currency ?y) = ''NGN''"
    by (simp add: normalize_currency_def trim_def is_space_def to_upper_def upper_char_def)
  from p show ?thesis
  proof (cases rule: post_entry_cases)
    case (new lines)
    then have "list_all (\<lambda>l. ln_currency l = ''NGN'') lines"
      unfolding list_all_iff cur by (auto dest!: list_all2_right simp: stores_def)
    then show ?thesis using new by (simp add: posted_entry_def)
  qed simp
qed

definition usd_journal :: journal_input where
  "usd_journal =
     \<lparr>ji_tenant = ''t'', ji_ref_type = ''POOL'', ji_ref_id = ''p'', ji_key = ''k'',
      ji_created_by = None, ji_role = None, ji_memo = None, ji_occurred = None,
      ji_entries = [\<lparr>jl_code = CASH_MAIN, jl_direction = DEBIT, jl_amount = 10, jl_currency = Some ''usd''\<rparr>,
                    \<lparr>jl_code = LOAN_CLEARING, jl_direction = CREDIT, jl_amount = 10, jl_currency = Some ''USD''\<rparr>]\<rparr>"

lemma usd_journal_posts: "\<exists>i D'. createJournal sample_env usd_journal empty_db = Inr ((i, False), D')"
proof -
  let ?y = "\<lparr>ei_tenant = ''t'', ei_occurred = ev_now sample_env,
     ei_type = E_ADJUSTMENT, ei_key = ''k'', ei_ref_type = ''POOL'', ei_ref_id = ''p'',
     ei_currency = None, ei_created_by = None, ei_role = None, ei_memo = None,
     ei_lines = ei_lines sample_entry\<rparr>"
  have "post_guards ?y"
    using sample_entry_guards(1) by (simp add: post_guards_def sample_entry_def)
  moreover have "find (keyed (ei_tenant ?y) (ei_key ?y)) (db_entries empty_db) = None"
    by (simp add: empty_db_def)
  ultimately obtain i D' where p: "post_entry sample_env ?y empty_db = Inr ((i, False), D')"
    using post_entry_new [of ?y empty_db sample_env] by blast
  have cur: "map journal_currency (ji_entries usd_journal) = [''USD'', ''USD'']"
    by code_simp
  have "assertBalanced (map (\<lambda>l. (jl_direction l, jl_amount l)) (ji_entries usd_journal)) = Inr ()"
    by (simp add: usd_journal_def assertBalanced_Inr)
  then have "createJournal sample_env usd_journal empty_db = post_entry sample_env ?y empty_db"
    by (simp add: createJournal_def cur) (simp add: usd_journal_def sample_entry_def)
  with p show ?thesis by auto
qed

lemma journal_is_recorded_in_naira_witness:
  "\<exists>i D' e. createJournal sample_env usd_journal empty_db = Inr ((i, False), D') \<and>
     db_entries D' = [e] \<and> list_all (\<lambda>l. ln_currency l = ''NGN'') (en_lines e)"
proof -
  obtain i D' where p: "createJournal sample_env usd_journal empty_db = Inr ((i, False), D')"
    using usd_journal_posts by blast
  from journal_is_recorded_in_naira [OF p] p show ?thesis by (auto simp: empty_db_def)
qed

text \<open>
  The balance is checked on the amounts as given, while the minor units are rounded line by
  line: an entry of one kobo against two halves of a kobo is accepted, and its recorded debits
  and credits differ by a kobo.
\<close>

lemma unrounded_amounts_unbalance_the_ledger:
  "\<exists>x i D' e. post_entry sample_env x empty_db = Inr ((i, False), D') \<and> db_entries D' = [e] \<and>
     side_sum DEBIT (en_lines e) = 1 \<and> side_sum CREDIT (en_lines e) = 2"
proof -
  let ?x = "sample_entry\<lparr>ei_lines :=
      [\<lparr>li_code = CASH_MAIN, li_direction = DEBIT, li_amount = 1 / 100\<rparr>,
       \<lparr>li_code = LOAN_CLEARING, li_direction = CREDIT, li_amount = 1 / 200\<rparr>,
       \<lparr>li_code = LOAN_CLEARING, li_direction = CREDIT, li_amount = 1 / 200\<rparr>]\<rparr>"
  have g: "post_guards ?x"
    by (simp add: post_guards_def sample_entry_def line_pair_def trim_def is_space_def)
  have "find (keyed (ei_tenant ?x) (ei_key ?x)) (db_entries empty_db) = None"
    by (simp add: empty_db_def)
  from post_entry_new [OF g this, of sample_env] obtain i D' ls as cur where
    p: "post_entry sample_env ?x empty_db = Inr ((i, False), D')"
    and d: "db_entries D' = [posted_entry i ?x ls]"
    and l: "list_all2 (stores ''t'' as cur) (ei_lines ?x) ls"
    by (auto simp: empty_db_def sample_entry_def)
  have m: "toMinor (1 / 100) = 1" "toMinor (1 / 200) = 1"
    by (simp_all add: toMinor_def half_up_def)
  from l have "side_sum DEBIT ls = 1 \<and> side_sum CREDIT ls = 2"
    by (auto simp: list_all2_Cons1 stores_def side_sum_def m)
  with p d show ?thesis
    by (intro exI [of _ ?x] exI [of _ i] exI [of _ D'] exI [of _ "posted_entry i ?x ls"])
      (simp add: posted_entry_def)
qed

end
