(* ===== verification/Idempotency.thy ===== *)
theory Idempotency
  imports DataModel "HOL-Library.Multiset" "HOL-Library.List_Lexorder" "HOL-Library.Char_ord"
begin

text \<open>
  The two idempotency layers: \<open>common/idempotency/tenant-idempotency.service.ts\<close> around the
  money-moving services, and \<open>idempotency.service.ts\<close> with \<open>idempotency.interceptor.ts\<close> around
  HTTP endpoints. Both keep their records in the table \<open>IdempotencyKey\<close>, with its two unique
  constraints. A stored JSON response is an option: \<open>None\<close> is \<open>null\<close>. The SHA-256 digest and the
  text of a number are parameters.
\<close>

section \<open>The table\<close>

record 'r idem_row =
  ik_id :: string
  ik_key :: string
  ik_tenant :: "string option"
  ik_scope :: "string option"
  ik_method :: string
  ik_path :: string
  ik_hash :: string
  ik_status :: idem_status
  ik_code :: "int option"
  ik_body :: "'r option"
  ik_response :: "'r option"

record ('r, 'd) idem_state =
  im_rows :: "'r idem_row list"
  im_seq :: nat
  im_data :: 'd

text \<open>
  The unique constraints \<open>(key, requestMethod, requestPath)\<close> and \<open>(tenantId, scope, key)\<close>; a
  null never equals a null in a unique constraint.
\<close>

definition clashes :: "'r idem_row \<Rightarrow> 'r idem_row \<Rightarrow> bool" where
  "clashes r q \<longleftrightarrow>
     (ik_key q = ik_key r \<and> ik_method q = ik_method r \<and> ik_path q = ik_path r) \<or>
     (ik_tenant r \<noteq> None \<and> ik_scope r \<noteq> None \<and>
      ik_tenant q = ik_tenant r \<and> ik_scope q = ik_scope r \<and> ik_key q = ik_key r)"

definition create_row ::
  "env \<Rightarrow> (string \<Rightarrow> 'r idem_row) \<Rightarrow> ('r, 'd) idem_state \<Rightarrow> (string \<times> ('r, 'd) idem_state) outcome" where
  "create_row E mk S =
     (let i = ev_cuid E (im_seq S); r = mk i
      in if find (clashes r) (im_rows S) \<noteq> None then Inl (Internal ''Unique constraint failed'')
         else Inr (i, S\<lparr>im_rows := im_rows S @ [r], im_seq := Suc (im_seq S)\<rparr>))"

definition update_row ::
  "string \<Rightarrow> ('r idem_row \<Rightarrow> 'r idem_row) \<Rightarrow> ('r, 'd) idem_state \<Rightarrow> ('r, 'd) idem_state" where
  "update_row i f S = S\<lparr>im_rows := update_where (\<lambda>r. ik_id r = i) f (im_rows S)\<rparr>"

section \<open>Around a service operation\<close>

record request =
  rq_tenant :: string
  rq_scope :: string
  rq_key :: string
  rq_hash :: "string option"

definition tenant_find :: "request \<Rightarrow> ('r, 'd) idem_state \<Rightarrow> 'r idem_row option" where
  "tenant_find q S =
     find (\<lambda>r. ik_tenant r = Some (rq_tenant q) \<and> ik_scope r = Some (rq_scope q) \<and>
               ik_key r = trim (rq_key q)) (im_rows S)"

text \<open>What the lookup decides: replay a response, or go on.\<close>

definition decide :: "request \<Rightarrow> ('r, 'd) idem_state \<Rightarrow> 'r option outcome" where
  "decide q S =
     (if trim (rq_key q) = '''' then Inl (Conflict ''Idempotency key is required.'')
      else case tenant_find q S of
             None \<Rightarrow> Inr None
           | Some r \<Rightarrow>
               if ik_status r = I_COMPLETED \<and> ik_response r \<noteq> None then Inr (ik_response r)
               else if ik_status r = I_PENDING
               then Inl (Conflict ''A request with this idempotency key is already in progress.'')
               else Inr None)"

definition new_tenant_row :: "request \<Rightarrow> string \<Rightarrow> 'r idem_row" where
  "new_tenant_row q i =
     \<lparr>ik_id = i, ik_key = trim (rq_key q), ik_tenant = Some (rq_tenant q),
      ik_scope = Some (rq_scope q), ik_method = ''INTERNAL'', ik_path = rq_scope q,
      ik_hash = (case rq_hash q of Some h \<Rightarrow> h | None \<Rightarrow> rq_scope q @ '':'' @ trim (rq_key q)),
      ik_status = I_PENDING, ik_code = None, ik_body = None, ik_response = None\<rparr>"

definition acquire ::
  "env \<Rightarrow> request \<Rightarrow> ('r, 'd) idem_state \<Rightarrow> (string \<times> ('r, 'd) idem_state) outcome" where
  "acquire E q S =
     (case tenant_find q S of
        Some r \<Rightarrow> Inr (ik_id r, update_row (ik_id r)
          (\<lambda>r. r\<lparr>ik_status := I_PENDING,
                 ik_hash := (case rq_hash q of Some h \<Rightarrow> h | None \<Rightarrow> ik_hash r)\<rparr>) S)
      | None \<Rightarrow> create_row E (new_tenant_row q) S)"

text \<open>
  The transaction and the record of its result. The operation works on the data; when it
  throws, the transaction leaves the data as it was.
\<close>

type_synonym ('r, 'd) operation = "'d \<Rightarrow> ('r option \<times> 'd) outcome"

definition finish ::
  "string \<Rightarrow> ('r, 'd) operation \<Rightarrow> ('r, 'd) idem_state \<Rightarrow> 'r option outcome \<times> ('r, 'd) idem_state" where
  "finish i fn S =
     (case fn (im_data S) of
        Inl e \<Rightarrow> (Inl e, update_row i (\<lambda>r. r\<lparr>ik_status := I_FAILED\<rparr>) S)
      | Inr (res, d) \<Rightarrow> (Inr res, update_row i (\<lambda>r. r\<lparr>ik_status := I_COMPLETED, ik_response := res\<rparr>)
          (S\<lparr>im_data := d\<rparr>)))"

definition withIdempotency ::
  "env \<Rightarrow> request \<Rightarrow> ('r, 'd) operation \<Rightarrow> ('r, 'd) idem_state \<Rightarrow>
     'r option outcome \<times> ('r, 'd) idem_state" where
  "withIdempotency E q fn S =
     (case decide q S of
        Inl e \<Rightarrow> (Inl e, S)
      | Inr (Some r) \<Rightarrow> (Inr (Some r), S)
      | Inr None \<Rightarrow>
          (case acquire E q S of
             Inl e \<Rightarrow> (Inl e, S)
           | Inr (i, S1) \<Rightarrow> finish i fn S1))"

section \<open>Interleaved requests\<close>

text \<open>
  The lookup, the lock and the transaction are separate calls to the database, so two requests
  with one key can interleave between them.
\<close>

datatype 'r phase = Idle | Checked | Locked string | Done "'r option outcome"

inductive istep ::
  "env \<Rightarrow> request \<Rightarrow> ('r, 'd) operation \<Rightarrow> 'r phase list \<times> ('r, 'd) idem_state \<Rightarrow>
     'r phase list \<times> ('r, 'd) idem_state \<Rightarrow> bool"
  for E q fn where
  refuse: "i < length ps \<Longrightarrow> ps ! i = Idle \<Longrightarrow> decide q S = Inl e \<Longrightarrow>
    istep E q fn (ps, S) (ps[i := Done (Inl e)], S)"
| replay: "i < length ps \<Longrightarrow> ps ! i = Idle \<Longrightarrow> decide q S = Inr (Some r) \<Longrightarrow>
    istep E q fn (ps, S) (ps[i := Done (Inr (Some r))], S)"
| check: "i < length ps \<Longrightarrow> ps ! i = Idle \<Longrightarrow> decide q S = Inr None \<Longrightarrow>
    istep E q fn (ps, S) (ps[i := Checked], S)"
| lock: "i < length ps \<Longrightarrow> ps ! i = Checked \<Longrightarrow> acquire E q S = Inr (l, S') \<Longrightarrow>
    istep E q fn (ps, S) (ps[i := Locked l], S')"
| lock_fails: "i < length ps \<Longrightarrow> ps ! i = Checked \<Longrightarrow> acquire E q S = Inl e \<Longrightarrow>
    istep E q fn (ps, S) (ps[i := Done (Inl e)], S)"
| execute: "i < length ps \<Longrightarrow> ps ! i = Locked l \<Longrightarrow> finish l fn S = (res, S') \<Longrightarrow>
    istep E q fn (ps, S) (ps[i := Done res], S')"

section \<open>Around an HTTP endpoint\<close>

text \<open>A request body, as the JSON parser gives it.\<close>

datatype json =
    JNull
  | JBool bool
  | JNum int
  | JStr string
  | JArr "json list"
  | JObj "(string \<times> json) list"

text \<open>\<open>JSON.stringify\<close> of a string, on printable characters.\<close>

definition quote_char :: "char \<Rightarrow> string" where
  "quote_char c =
     (if c = CHR 0x22 then [CHR 0x5C, CHR 0x22]
      else if c = CHR 0x5C then [CHR 0x5C, CHR 0x5C] else [c])"

definition quote :: "string \<Rightarrow> string" where
  "quote s = [CHR 0x22] @ concat (map quote_char s) @ [CHR 0x22]"

fun join :: "string \<Rightarrow> string list \<Rightarrow> string" where
  "join sep [] = ''''"
| "join sep [x] = x"
| "join sep (x # y # xs) = x @ sep @ join sep (y # xs)"

text \<open>The entries of an object are written in the order of its sorted keys.\<close>

primrec stableStringify :: "(int \<Rightarrow> string) \<Rightarrow> json \<Rightarrow> string"
  and stable_items :: "(int \<Rightarrow> string) \<Rightarrow> json list \<Rightarrow> string list"
  and stable_entries :: "(int \<Rightarrow> string) \<Rightarrow> (string \<times> json) list \<Rightarrow> (string \<times> string) list"
  and stable_entry :: "(int \<Rightarrow> string) \<Rightarrow> string \<times> json \<Rightarrow> string \<times> string" where
  "stableStringify num JNull = ''null''"
| "stableStringify num (JBool b) = (if b then ''true'' else ''false'')"
| "stableStringify num (JNum n) = num n"
| "stableStringify num (JStr s) = quote s"
| "stableStringify num (JArr xs) = ''['' @ join '','' (stable_items num xs) @ '']''"
| "stableStringify num (JObj es) =
     ''{'' @ join '','' (map snd (sort_key fst (stable_entries num es))) @ ''}''"
| "stable_items num [] = []"
| "stable_items num (x # xs) = stableStringify num x # stable_items num xs"
| "stable_entries num [] = []"
| "stable_entries num (e # es) = stable_entry num e # stable_entries num es"
| "stable_entry num (k, v) = (k, quote k @ '':'' @ stableStringify num v)"

record call =
  ca_key :: "string option"
  ca_scope :: "string option"
  ca_method :: string
  ca_path :: string
  ca_body :: json

definition hashRequest :: "(string \<Rightarrow> string) \<Rightarrow> (int \<Rightarrow> string) \<Rightarrow> string \<Rightarrow> string \<Rightarrow> json \<Rightarrow> string" where
  "hashRequest sha num method path body =
     sha (to_upper method @ '':'' @ path @ '':'' @ stableStringify num body)"

datatype 'r decision = Execute string | Replay int "'r option"

definition findByKey :: "string \<Rightarrow> string \<Rightarrow> string \<Rightarrow> ('r, 'd) idem_state \<Rightarrow> 'r idem_row option" where
  "findByKey key method path S =
     find (\<lambda>r. ik_key r = key \<and> ik_method r = method \<and> ik_path r = path) (im_rows S)"

definition new_http_row :: "string \<Rightarrow> string \<Rightarrow> string \<Rightarrow> string \<Rightarrow> string \<Rightarrow> 'r idem_row" where
  "new_http_row key method path hash i =
     \<lparr>ik_id = i, ik_key = key, ik_tenant = None, ik_scope = None, ik_method = method,
      ik_path = path, ik_hash = hash, ik_status = I_PENDING, ik_code = None, ik_body = None,
      ik_response = None\<rparr>"

text \<open>What a record that is already there decides; a record without a status code replays as 200.\<close>

definition decide_existing :: "string \<Rightarrow> 'r idem_row \<Rightarrow> 'r decision outcome" where
  "decide_existing hash r =
     (if ik_hash r \<noteq> hash
      then Inl (Conflict ''Idempotency-Key was already used with a different request payload.'')
      else if ik_status r = I_COMPLETED
      then Inr (Replay (case ik_code r of None \<Rightarrow> 200 | Some c \<Rightarrow> c) (ik_body r))
      else Inl (Conflict ''A request with this Idempotency-Key is still in progress.''))"

text \<open>\<open>createPending\<close>: a create that fails falls back on the record that made it fail.\<close>

definition createPending ::
  "env \<Rightarrow> string \<Rightarrow> string \<Rightarrow> string \<Rightarrow> string \<Rightarrow> ('r, 'd) idem_state \<Rightarrow>
     ((string + 'r idem_row) \<times> ('r, 'd) idem_state) outcome" where
  "createPending E key method path hash S =
     (case create_row E (new_http_row key method path hash) S of
        Inr (i, S') \<Rightarrow> Inr (Inl i, S')
      | Inl e \<Rightarrow>
          (case findByKey key method path S of
             None \<Rightarrow> Inl (Conflict ''Unable to establish idempotency lock.'')
           | Some r \<Rightarrow> Inr (Inr r, S)))"

definition evaluateRequest ::
  "(string \<Rightarrow> string) \<Rightarrow> (int \<Rightarrow> string) \<Rightarrow> env \<Rightarrow> string \<Rightarrow> string \<Rightarrow> string \<Rightarrow> json \<Rightarrow>
     ('r, 'd) idem_state \<Rightarrow> ('r decision \<times> ('r, 'd) idem_state) outcome" where
  "evaluateRequest sha num E key rawMethod path body S =
     (let method = to_upper rawMethod; hash = hashRequest sha num method path body
      in case findByKey key method path S of
           Some r \<Rightarrow> chain (decide_existing hash r) (\<lambda>d. Inr (d, S))
         | None \<Rightarrow>
             chain (createPending E key method path hash S) (\<lambda>(p, S').
               case p of
                 Inr r \<Rightarrow> chain (decide_existing hash r) (\<lambda>d. Inr (d, S'))
               | Inl i \<Rightarrow> Inr (Execute i, S')))"

definition markCompleted ::
  "string \<Rightarrow> int \<Rightarrow> 'r option \<Rightarrow> ('r, 'd) idem_state \<Rightarrow> ('r, 'd) idem_state" where
  "markCompleted i code body =
     update_row i (\<lambda>r. r\<lparr>ik_status := I_COMPLETED, ik_code := Some code, ik_body := body\<rparr>)"

definition clearPending :: "string \<Rightarrow> ('r, 'd) idem_state \<Rightarrow> ('r, 'd) idem_state" where
  "clearPending i S =
     S\<lparr>im_rows := filter (\<lambda>r. \<not> (ik_id r = i \<and> ik_status r = I_PENDING)) (im_rows S)\<rparr>"

fun starts_with :: "string \<Rightarrow> string \<Rightarrow> bool" where
  "starts_with s [] = True"
| "starts_with [] (c # cs) = False"
| "starts_with (d # s) (c # cs) = (d = c \<and> starts_with s cs)"

text \<open>
  The interceptor. The endpoint works on the data and gives a status code and a body, or throws;
  unlike a service operation it keeps what it had changed when it throws.
\<close>

type_synonym ('r, 'd) endpoint = "'d \<Rightarrow> (int \<times> 'r option) outcome \<times> 'd"

definition bad_scope :: "string option \<Rightarrow> string \<Rightarrow> bool" where
  "bad_scope scope key =
     (case scope of None \<Rightarrow> False | Some s \<Rightarrow> s \<noteq> '''' \<and> \<not> starts_with key (s @ '':''))"

definition scoped_path :: "string option \<Rightarrow> string \<Rightarrow> string" where
  "scoped_path scope path =
     (case scope of None \<Rightarrow> path | Some s \<Rightarrow> if s = '''' then path else s @ '':'' @ path)"

definition intercept ::
  "(string \<Rightarrow> string) \<Rightarrow> (int \<Rightarrow> string) \<Rightarrow> env \<Rightarrow> call \<Rightarrow> ('r, 'd) endpoint \<Rightarrow>
     ('r, 'd) idem_state \<Rightarrow> (int \<times> 'r option) outcome \<times> ('r, 'd) idem_state" where
  "intercept sha num E c handler S =
     (case ca_key c of
        None \<Rightarrow> (Inl (BadRequest ''Idempotency-Key header is required for this endpoint.''), S)
      | Some header \<Rightarrow>
          let key = trim header
          in if key = ''''
             then (Inl (BadRequest ''Idempotency-Key header is required for this endpoint.''), S)
             else if bad_scope (ca_scope c) key
             then (Inl (BadRequest ''Idempotency-Key must start with the scope for this endpoint.''), S)
             else
               let path = scoped_path (ca_scope c) (ca_path c)
               in case evaluateRequest sha num E key (ca_method c) path (ca_body c) S of
                    Inl e \<Rightarrow> (Inl e, S)
                  | Inr (Replay code body, S1) \<Rightarrow> (Inr (code, body), S1)
                  | Inr (Execute i, S1) \<Rightarrow>
                      (case handler (im_data S1) of
                         (Inr (code, body), d) \<Rightarrow>
                           (Inr (code, body), markCompleted i code body (S1\<lparr>im_data := d\<rparr>))
                       | (Inl e, d) \<Rightarrow> (Inl e, clearPending i (S1\<lparr>im_data := d\<rparr>))))"

section \<open>Finding rows again\<close>

text \<open>The row a tenant's request finds is found again by its id.\<close>

lemma find_update_where:
  assumes "\<And>r. P (f r) = P r"
  shows "find P (update_where Q f rows) =
    (case find P rows of None \<Rightarrow> None | Some r \<Rightarrow> Some (if Q r then f r else r))"
  using assms by (induction rows) auto

lemma tenant_find_update:
  assumes "\<And>r. ik_tenant (f r) = ik_tenant r" "\<And>r. ik_scope (f r) = ik_scope r" "\<And>r. ik_key (f r) = ik_key r"
  shows "tenant_find q (update_row i f S) =
    (case tenant_find q S of None \<Rightarrow> None | Some r \<Rightarrow> Some (if ik_id r = i then f r else r))"
  using assms by (simp add: tenant_find_def update_row_def find_update_where)

lemma tenant_find_data [simp]: "tenant_find q (S\<lparr>im_data := d\<rparr>) = tenant_find q S"
  by (simp add: tenant_find_def)

lemma update_row_data [simp]:
  "im_data (update_row i f S) = im_data S" "im_seq (update_row i f S) = im_seq S"
  by (simp_all add: update_row_def)

lemma tenant_find_created:
  assumes "create_row E (new_tenant_row q) S = Inr (i, S')" "tenant_find q S = None"
  shows "tenant_find q S' = Some (new_tenant_row q i)" "im_data S' = im_data S"
  using assms
  by (auto simp: create_row_def tenant_find_def find_append new_tenant_row_def Let_def
      split: if_splits)

text \<open>After the lock, the request's row is the locked one, pending.\<close>

lemma acquire_row:
  assumes "acquire E q S = Inr (i, S')"
  obtains r where "tenant_find q S' = Some r" "ik_id r = i" "ik_status r = I_PENDING"
    "im_data S' = im_data S"
proof (cases "tenant_find q S")
  case None
  with assms have c: "create_row E (new_tenant_row q) S = Inr (i, S')" by (simp add: acquire_def)
  from tenant_find_created [OF c None] show thesis
    by (intro that [of "new_tenant_row q i"]) (simp_all add: new_tenant_row_def)
next
  case (Some r)
  with assms show thesis
    by (intro that [of "r\<lparr>ik_status := I_PENDING,
        ik_hash := (case rq_hash q of Some h \<Rightarrow> h | None \<Rightarrow> ik_hash r)\<rparr>"])
      (auto simp: acquire_def tenant_find_update)
qed

text \<open>After the transaction, the request's row tells its result.\<close>

lemma finish_row:
  assumes "tenant_find q S = Some r" "ik_id r = i" "fn (im_data S) = Inr (res, d)"
  shows "fst (finish i fn S) = Inr res" "im_data (snd (finish i fn S)) = d"
    "tenant_find q (snd (finish i fn S)) = Some (r\<lparr>ik_status := I_COMPLETED, ik_response := res\<rparr>)"
  using assms by (simp_all add: finish_def tenant_find_update)

lemma finish_failed:
  assumes "tenant_find q S = Some r" "ik_id r = i" "fn (im_data S) = Inl e"
  shows "fst (finish i fn S) = Inl e" "im_data (snd (finish i fn S)) = im_data S"
    "tenant_find q (snd (finish i fn S)) = Some (r\<lparr>ik_status := I_FAILED\<rparr>)"
  using assms by (simp_all add: finish_def tenant_find_update)

text \<open>A request that is not refused and not replayed runs its operation once.\<close>

lemma withIdempotency_runs:
  assumes "decide q S = Inr None" "acquire E q S = Inr (i, S1)"
  shows "withIdempotency E q fn S = finish i fn S1"
  using assms by (simp add: withIdempotency_def)

text \<open>The acquisition fails only on a row of another tenant.\<close>

lemma acquire_total:
  assumes "\<And>r. r \<in> set (im_rows S) \<Longrightarrow> ik_key r = trim (rq_key q) \<Longrightarrow> ik_method r = ''INTERNAL'' \<Longrightarrow>
      ik_path r = rq_scope q \<Longrightarrow> False"
  shows "\<exists>i S'. acquire E q S = Inr (i, S')"
proof (cases "tenant_find q S")
  case None
  have "find (clashes (new_tenant_row q i)) (im_rows S) = None" for i
    using None assms unfolding tenant_find_def find_None_iff clashes_def new_tenant_row_def by auto
  then show ?thesis using None by (simp add: acquire_def create_row_def Let_def)
qed (simp add: acquire_def)

section \<open>Objects with reordered keys\<close>

lemma stable_items_map: "stable_items num xs = map (stableStringify num) xs"
  by (induction xs) simp_all

lemma stable_entries_map: "stable_entries num es = map (stable_entry num) es"
  by (induction es) simp_all

lemma fst_stable_entry [simp]: "fst (stable_entry num e) = fst e"
  by (cases e) simp

lemma filter_key:
  assumes "distinct (map fst zs)" "k \<in> set zs"
  shows "filter (\<lambda>x. fst k = fst x) zs = [k]"
  using assms by (induction zs) (force simp: filter_empty_conv)+

lemma sorted_entries_unique:
  assumes "mset xs = mset ys" "distinct (map fst xs)"
  shows "sort_key fst xs = sort_key fst (ys :: (string \<times> 'v) list)"
proof (rule properties_for_sort_key)
  show "mset (sort_key fst ys) = mset xs" using assms(1) by simp
  have ys: "distinct (map fst ys)"
    using assms by (metis mset_eq_imp_distinct_iff mset_map)
  have "mset (map fst (sort_key fst ys)) = mset (map fst ys)" by simp
  then have s: "distinct (map fst (sort_key fst ys))" using ys by (metis mset_eq_imp_distinct_iff)
  have eq: "set ys = set xs" using assms(1) by (metis set_mset_mset)
  fix k assume "k \<in> set (sort_key fst ys)"
  then show "filter (\<lambda>x. fst k = fst x) (sort_key fst ys) = filter (\<lambda>x. fst k = fst x) xs"
    using filter_key [OF s] filter_key [OF assms(2)] eq by simp
next
  show "sorted (map fst (sort_key fst ys))" by simp
qed

section \<open>Replays over HTTP\<close>

lemma create_row_Inr:
  assumes "create_row E mk S = Inr (i, S')"
  shows "im_rows S' = im_rows S @ [mk i]" "im_data S' = im_data S"
    "find (clashes (mk i)) (im_rows S) = None"
  using assms by (auto simp: create_row_def Let_def split: if_splits)

lemma findByKey_completed:
  assumes "findByKey key method path S = None" "im_rows S' = im_rows S @ [new_http_row key method path hash i]"
  shows "findByKey key method path (markCompleted i code body (S'\<lparr>im_data := d\<rparr>)) =
    Some ((new_http_row key method path hash i)\<lparr>ik_status := I_COMPLETED, ik_code := Some code,
      ik_body := body\<rparr>)"
  using assms by (simp add: findByKey_def markCompleted_def update_row_def find_update_where find_append
      new_http_row_def)

lemma evaluateRequest_executes:
  fixes S S' :: "('a, 'b) idem_state"
  assumes "evaluateRequest sha num E key method path body S = Inr (Execute i, S')"
  shows "findByKey key (to_upper method) path S = None"
    "im_rows S' = im_rows S @ [new_http_row key (to_upper method) path
        (hashRequest sha num (to_upper method) path body) i]"
    "im_data S' = im_data S"
proof -
  let ?hash = "hashRequest sha num (to_upper method) path body"
  have no: "chain (decide_existing ?hash r) (\<lambda>d. Inr (d, T)) \<noteq> Inr (Execute i, S')" for r :: "'a idem_row" and T
    by (auto simp: decide_existing_def)
  show f: "findByKey key (to_upper method) path S = None"
    using assms no by (simp add: evaluateRequest_def Let_def split: option.splits)
  have p: "createPending E key (to_upper method) path ?hash S = Inr (Inl i, S')"
  proof (cases "createPending E key (to_upper method) path ?hash S")
    case (Inl e)
    then show ?thesis using assms f by (simp add: evaluateRequest_def Let_def)
  next
    case (Inr p)
    obtain a T where a: "p = (a, T)" by (cases p)
    show ?thesis
    proof (cases a)
      case (Inl j)
      then show ?thesis using assms f Inr a by (simp add: evaluateRequest_def Let_def)
    next
      case (Inr r)
      then show ?thesis using assms f \<open>createPending E key (to_upper method) path ?hash S = Inr p\<close> a no
        by (simp add: evaluateRequest_def Let_def)
    qed
  qed
  then have c: "create_row E (new_http_row key (to_upper method) path ?hash) S = Inr (i, S')"
    using f by (auto simp: createPending_def split: sum.splits)
  from create_row_Inr [OF c]
  show "im_rows S' = im_rows S @ [new_http_row key (to_upper method) path ?hash i]"
    "im_data S' = im_data S" by simp_all
qed

lemma evaluateRequest_replays:
  assumes "evaluateRequest sha num E key method path body S = Inr (Execute i, S1)"
  shows "evaluateRequest sha num E key method path body (markCompleted i code res (S1\<lparr>im_data := d\<rparr>)) =
    Inr (Replay code res, markCompleted i code res (S1\<lparr>im_data := d\<rparr>))"
  using findByKey_completed [OF evaluateRequest_executes(1,2) [OF assms]]
  by (simp add: evaluateRequest_def Let_def decide_existing_def) (simp add: new_http_row_def)

section \<open>Properties\<close>

lemma tenant_find_cong:
  assumes "rq_tenant p = rq_tenant q" "rq_scope p = rq_scope q" "trim (rq_key p) = trim (rq_key q)"
  shows "tenant_find p S = tenant_find q S" "decide p S = decide q S"
  using assms by (simp_all add: tenant_find_def decide_def)

lemma decide_key: "decide q S = Inr r \<Longrightarrow> trim (rq_key q) \<noteq> ''''"
  by (auto simp: decide_def split: if_splits)

lemma decide_completed:
  assumes "tenant_find q S = Some r" "ik_status r = I_COMPLETED" "ik_response r = Some x"
    and "trim (rq_key q) \<noteq> ''''"
  shows "decide q S = Inr (Some x)"
  using assms by (simp add: decide_def)

lemma withIdempotency_ran:
  assumes "withIdempotency E q fn S = (Inr res, S')" "decide q S = Inr None"
  obtains i S1 r d where "acquire E q S = Inr (i, S1)" "fn (im_data S) = Inr (res, d)"
    "tenant_find q S1 = Some r" "ik_id r = i"
    "S' = update_row i (\<lambda>r. r\<lparr>ik_status := I_COMPLETED, ik_response := res\<rparr>) (S1\<lparr>im_data := d\<rparr>)"
    "tenant_find q S' = Some (r\<lparr>ik_status := I_COMPLETED, ik_response := res\<rparr>)" "im_data S' = d"
proof (cases "acquire E q S")
  case (Inl e)
  with assms show thesis by (simp add: withIdempotency_def)
next
  case (Inr p)
  obtain i S1 where a: "acquire E q S = Inr (i, S1)" using Inr by (cases p) simp
  from acquire_row [OF a] obtain r where r: "tenant_find q S1 = Some r" "ik_id r = i"
    "im_data S1 = im_data S" by blast
  have f: "finish i fn S1 = (Inr res, S')" using assms withIdempotency_runs [OF assms(2) a] by simp
  then obtain d where d: "fn (im_data S) = Inr (res, d)"
    using r(3) by (auto simp: finish_def split: sum.splits)
  have "S' = update_row i (\<lambda>r. r\<lparr>ik_status := I_COMPLETED, ik_response := res\<rparr>) (S1\<lparr>im_data := d\<rparr>)"
    using f d r(3) by (simp add: finish_def)
  from that [OF a d r(1,2) this] finish_row [OF r(1,2), of fn res d] d r(3) f show thesis
    by simp
qed

lemma decide_data [simp]: "decide q (S\<lparr>im_data := d\<rparr>) = decide q S"
  by (simp add: decide_def)

lemma completed_decides:
  assumes "withIdempotency E q fn S = (Inr (Some x), S')"
    and "rq_tenant p = rq_tenant q" "rq_scope p = rq_scope q" "trim (rq_key p) = trim (rq_key q)"
  shows "decide p S' = Inr (Some x)"
proof (cases "decide q S")
  case (Inl e)
  with assms(1) show ?thesis by (simp add: withIdempotency_def)
next
  case (Inr r)
  show ?thesis
  proof (cases r)
    case None
    with Inr have d: "decide q S = Inr None" by simp
    obtain i S1 row d' where "tenant_find q S' = Some (row\<lparr>ik_status := I_COMPLETED, ik_response := Some x\<rparr>)"
      by (rule withIdempotency_ran [OF assms(1) d])
    from decide_completed [OF this, of x] decide_key [OF d]
    show ?thesis by (simp add: tenant_find_cong(2) [OF assms(2-4)])
  next
    case (Some y)
    with Inr assms(1) show ?thesis
      by (auto simp: withIdempotency_def tenant_find_cong(2) [OF assms(2-4)])
  qed
qed

text \<open>
  A request that succeeded with a response is replayed: any later request of the tenant with
  the scope and the key gets the same response, and its operation is not run.
\<close>

lemma completed_request_is_replayed:
  assumes "withIdempotency E q fn S = (Inr (Some x), S')"
    and "rq_tenant p = rq_tenant q" "rq_scope p = rq_scope q" "trim (rq_key p) = trim (rq_key q)"
  shows "withIdempotency E p fn' S' = (Inr (Some x), S')"
  by (simp add: withIdempotency_def completed_decides [OF assms])

definition sample_state :: "(nat, nat) idem_state" where
  "sample_state = \<lparr>im_rows = [], im_seq = 0, im_data = 0\<rparr>"

definition sample_request :: "string \<Rightarrow> request" where
  "sample_request t = \<lparr>rq_tenant = t, rq_scope = ''REPAYMENT'', rq_key = ''k'', rq_hash = None\<rparr>"

text \<open>An operation that adds one and answers with the sum.\<close>

definition count_up :: "(nat, nat) operation" where
  "count_up n = Inr (Some (Suc n), Suc n)"

lemmas sample_request_defs = sample_request_def sample_state_def count_up_def withIdempotency_def
  decide_def tenant_find_def acquire_def create_row_def new_tenant_row_def finish_def update_row_def
  clashes_def trim_def is_space_def Let_def

lemma sample_run:
  "\<exists>S'. withIdempotency E (sample_request ''a'') count_up sample_state = (Inr (Some 1), S') \<and> im_data S' = 1"
  by (simp add: sample_request_defs)

lemma completed_request_is_replayed_witness:
  "\<exists>S'. withIdempotency sample_env (sample_request ''a'') count_up sample_state = (Inr (Some 1), S') \<and>
     withIdempotency sample_env (sample_request ''a'') count_up S' = (Inr (Some 1), S') \<and> im_data S' = 1"
proof -
  obtain S' where s: "withIdempotency sample_env (sample_request ''a'') count_up sample_state = (Inr (Some 1), S')"
    "im_data S' = 1"
    using sample_run by blast
  have "withIdempotency sample_env (sample_request ''a'') count_up S' = (Inr (Some 1), S')"
    by (rule completed_request_is_replayed [OF s(1)]) simp_all
  with s show ?thesis by blast
qed

text \<open>
  A request whose operation throws leaves the data as it was and can be retried with the
  same key: the retry runs its operation.
\<close>

lemma failed_request_can_be_retried:
  assumes "decide q S = Inr None" "acquire E q S = Inr (i, S1)"
    and "fn (im_data S) = Inl e" "fn' (im_data S) = Inr (res, d)"
  shows "\<exists>S' S''. withIdempotency E q fn S = (Inl e, S') \<and> im_data S' = im_data S \<and>
    withIdempotency E q fn' S' = (Inr res, S'') \<and> im_data S'' = d"
proof -
  from acquire_row [OF assms(2)] obtain r where r: "tenant_find q S1 = Some r" "ik_id r = i"
    "im_data S1 = im_data S" by blast
  let ?S' = "snd (finish i fn S1)"
  have w: "withIdempotency E q fn S = (Inl e, ?S')" and data: "im_data ?S' = im_data S"
    and row: "tenant_find q ?S' = Some (r\<lparr>ik_status := I_FAILED\<rparr>)"
    using withIdempotency_runs [OF assms(1,2), of fn] finish_failed [OF r(1,2), of fn e] r(3) assms(3)
    by (metis prod.collapse)+
  have d: "decide q ?S' = Inr None" using row decide_key [OF assms(1)] by (simp add: decide_def)
  obtain j S2 where a: "acquire E q ?S' = Inr (j, S2)" using row by (auto simp: acquire_def)
  from acquire_row [OF a] obtain r2 where r2: "tenant_find q S2 = Some r2" "ik_id r2 = j"
    "im_data S2 = im_data S" using data by metis
  from finish_row [OF r2(1,2), of fn' res d] r2(3) assms(4)
  have "finish j fn' S2 = (Inr res, snd (finish j fn' S2)) \<and> im_data (snd (finish j fn' S2)) = d"
    by (metis prod.collapse)
  with withIdempotency_runs [OF d a, of fn'] w data show ?thesis by metis
qed

lemma failed_request_can_be_retried_witness:
  "\<exists>S' S''. withIdempotency sample_env (sample_request ''a'') (\<lambda>_. Inl (BadRequest ''no'')) sample_state =
       (Inl (BadRequest ''no''), S') \<and> im_data S' = 0 \<and>
     withIdempotency sample_env (sample_request ''a'') count_up S' = (Inr (Some 1), S'') \<and> im_data S'' = 1"
proof -
  have "decide (sample_request ''a'') sample_state = Inr None"
    by (simp add: sample_request_defs)
  moreover obtain i S1 where "acquire sample_env (sample_request ''a'') sample_state = Inr (i, S1)"
    by (simp add: sample_request_defs)
  ultimately show ?thesis
    using failed_request_can_be_retried [of "sample_request ''a''" sample_state sample_env i S1
        "\<lambda>_. Inl (BadRequest ''no'')" "BadRequest ''no''" count_up "Some 1" 1]
    by (simp add: count_up_def) (simp add: sample_state_def)
qed

text \<open>
  Keys are not separate between tenants: once one tenant's request with a key has run,
  another tenant's first request with the same scope and key fails on the unique constraint over
  key, method and path, whatever its operation, and its operation is not run.
\<close>

lemma key_of_another_tenant_blocks:
  assumes "withIdempotency E q fn S = (Inr res, S')" "decide q S = Inr None" "tenant_find q S = None"
    and "tenant_find p S = None" "rq_tenant p \<noteq> rq_tenant q" "rq_scope p = rq_scope q"
    and "trim (rq_key p) = trim (rq_key q)"
  shows "withIdempotency E p fn' S' = (Inl (Internal ''Unique constraint failed''), S')"
proof -
  obtain i S1 r d where a: "acquire E q S = Inr (i, S1)"
    and S': "S' = update_row i (\<lambda>r. r\<lparr>ik_status := I_COMPLETED, ik_response := res\<rparr>) (S1\<lparr>im_data := d\<rparr>)"
    by (rule withIdempotency_ran [OF assms(1,2)])
  have c: "create_row E (new_tenant_row q) S = Inr (i, S1)" using a assms(3) by (simp add: acquire_def)
  note rows = create_row_Inr [OF c]
  let ?P = "\<lambda>r. ik_tenant r = Some (rq_tenant p) \<and> ik_scope r = Some (rq_scope p) \<and>
               ik_key r = trim (rq_key p)"
  have "find ?P (im_rows S1) = None"
    using assms(4,5) by (simp add: rows(1) find_append tenant_find_def new_tenant_row_def)
  then have none: "tenant_find p S' = None"
    unfolding S' by (simp add: tenant_find_update) (simp add: tenant_find_def)
  let ?new = "(new_tenant_row q i)\<lparr>ik_status := I_COMPLETED, ik_response := res\<rparr>"
  have "?new \<in> set (im_rows S')"
    unfolding S' by (simp add: update_row_def update_where_def rows(1)) (simp add: new_tenant_row_def)
  moreover have "clashes (new_tenant_row p j) ?new" for j
    using assms(6,7) by (simp add: clashes_def new_tenant_row_def)
  ultimately have "find (clashes (new_tenant_row p j)) (im_rows S') \<noteq> None" for j
    by (auto simp: find_None_iff)
  then have "acquire E p S' = Inl (Internal ''Unique constraint failed'')"
    using none by (simp add: acquire_def create_row_def Let_def)
  moreover have "decide p S' = Inr None"
    using none decide_key [OF assms(2)] assms(7) by (simp add: decide_def)
  ultimately show ?thesis by (simp add: withIdempotency_def)
qed

lemma key_of_another_tenant_blocks_witness:
  "\<exists>S'. withIdempotency sample_env (sample_request ''a'') count_up sample_state = (Inr (Some 1), S') \<and>
     withIdempotency sample_env (sample_request ''b'') count_up S' =
       (Inl (Internal ''Unique constraint failed''), S')"
proof -
  obtain S' where s: "withIdempotency sample_env (sample_request ''a'') count_up sample_state = (Inr (Some 1), S')"
    using sample_run by blast
  have "withIdempotency sample_env (sample_request ''b'') count_up S' =
       (Inl (Internal ''Unique constraint failed''), S')"
    by (rule key_of_another_tenant_blocks [OF s])
      (simp_all add: decide_def tenant_find_def sample_state_def sample_request_def trim_def is_space_def)
  with s show ?thesis by blast
qed

text \<open>
  C18. The lookup does not lock: two concurrent requests with one new key can both pass it before
  either takes the lock, and then both run the operation.
\<close>

theorem racing_requests_both_execute:
  assumes "decide q S = Inr None" "acquire E q S = Inr (i, S1)"
    and "fn (im_data S) = Inr (r1, d1)" "fn d1 = Inr (r2, d2)"
  shows "\<exists>S'. (istep E q fn)\<^sup>*\<^sup>* ([Idle, Idle], S) ([Done (Inr r1), Done (Inr r2)], S') \<and>
    im_data S' = d2"
proof -
  from acquire_row [OF assms(2)] obtain r where r: "tenant_find q S1 = Some r" "ik_id r = i"
    "im_data S1 = im_data S" by blast
  obtain S2 where f1: "finish i fn S1 = (Inr r1, S2)" "im_data S2 = d1"
    and row: "tenant_find q S2 = Some (r\<lparr>ik_status := I_COMPLETED, ik_response := r1\<rparr>)"
    using finish_row [OF r(1,2), of fn r1 d1] r(3) assms(3) by (metis prod.collapse)
  obtain j S3 where a: "acquire E q S2 = Inr (j, S3)" using row by (auto simp: acquire_def)
  from acquire_row [OF a] obtain r' where r': "tenant_find q S3 = Some r'" "ik_id r' = j"
    "im_data S3 = im_data S2" by blast
  obtain S4 where f2: "finish j fn S3 = (Inr r2, S4)" "im_data S4 = d2"
    using finish_row [OF r'(1,2), of fn r2 d2] r'(3) f1(2) assms(4) by (metis prod.collapse)
  let ?R = "istep E q fn"
  have "?R ([Idle, Idle], S) ([Checked, Idle], S)"
    using istep.check [of 0 "[Idle, Idle]" q S E fn] assms(1) by simp
  moreover have "?R ([Checked, Idle], S) ([Checked, Checked], S)"
    using istep.check [of 1 "[Checked, Idle]" q S E fn] assms(1) by simp
  moreover have "?R ([Checked, Checked], S) ([Locked i, Checked], S1)"
    using istep.lock [of 0 "[Checked, Checked]" E q S i S1 fn] assms(2) by simp
  moreover have "?R ([Locked i, Checked], S1) ([Done (Inr r1), Checked], S2)"
    using istep.execute [of 0 "[Locked i, Checked]" i fn S1 "Inr r1" S2 E q] f1(1) by simp
  moreover have "?R ([Done (Inr r1), Checked], S2) ([Done (Inr r1), Locked j], S3)"
    using istep.lock [of 1 "[Done (Inr r1), Checked]" E q S2 j S3 fn] a by simp
  moreover have "?R ([Done (Inr r1), Locked j], S3) ([Done (Inr r1), Done (Inr r2)], S4)"
    using istep.execute [of 1 "[Done (Inr r1), Locked j]" j fn S3 "Inr r2" S4 E q] f2(1) by simp
  ultimately have "?R\<^sup>*\<^sup>* ([Idle, Idle], S) ([Done (Inr r1), Done (Inr r2)], S4)"
    by (meson converse_rtranclp_into_rtranclp rtranclp.rtrancl_refl)
  with f2(2) show ?thesis by blast
qed

theorem racing_requests_both_execute_witness:
  "\<exists>S'. (istep sample_env (sample_request ''a'') count_up)\<^sup>*\<^sup>*
       ([Idle, Idle], sample_state) ([Done (Inr (Some 1)), Done (Inr (Some 2))], S') \<and> im_data S' = 2"
proof -
  have "decide (sample_request ''a'') sample_state = Inr None"
    by (simp add: sample_request_defs)
  moreover obtain i S1 where "acquire sample_env (sample_request ''a'') sample_state = Inr (i, S1)"
    by (simp add: sample_request_defs)
  ultimately show ?thesis
    using racing_requests_both_execute [of "sample_request ''a''" sample_state sample_env i S1 count_up
        "Some 1" 1 "Some 2" 2]
    by (simp add: count_up_def sample_state_def)
qed

text \<open>
  A successful response of an endpoint is replayed: repeating the call, with the same key,
  scope, method, path and body, gives the same status and body and changes nothing.
\<close>

lemma http_response_is_replayed:
  assumes "intercept sha num E c handler S = (Inr (code, body), S')"
  shows "intercept sha num E c handler' S' = (Inr (code, body), S')"
proof -
  from assms obtain header where k: "ca_key c = Some header" by (auto simp: intercept_def split: option.splits)
  define key where "key = trim header"
  define path where "path = scoped_path (ca_scope c) (ca_path c)"
  have ok: "key \<noteq> ''''" "\<not> bad_scope (ca_scope c) key"
    using assms k by (auto simp: intercept_def key_def Let_def split: if_splits)
  have unfold: "intercept sha num E c h T =
      (case evaluateRequest sha num E key (ca_method c) path (ca_body c) T of
         Inl e \<Rightarrow> (Inl e, T)
       | Inr (Replay code body, S1) \<Rightarrow> (Inr (code, body), S1)
       | Inr (Execute i, S1) \<Rightarrow>
           (case h (im_data S1) of
              (Inr (code, body), d) \<Rightarrow> (Inr (code, body), markCompleted i code body (S1\<lparr>im_data := d\<rparr>))
            | (Inl e, d) \<Rightarrow> (Inl e, clearPending i (S1\<lparr>im_data := d\<rparr>))))" for h T
    using k ok unfolding key_def path_def by (simp add: intercept_def Let_def)
  obtain p where e: "evaluateRequest sha num E key (ca_method c) path (ca_body c) S = Inr p"
    using assms by (auto simp: unfold split: sum.splits)
  obtain d S1 where p: "p = (d, S1)" by (cases p)
  show ?thesis
  proof (cases d)
    case (Execute i)
    obtain res d' where h: "handler (im_data S1) = (res, d')" by (cases "handler (im_data S1)")
    with assms e p Execute have "res = Inr (code, body)"
      and S': "S' = markCompleted i code body (S1\<lparr>im_data := d'\<rparr>)"
      by (auto simp: unfold split: sum.splits)
    from evaluateRequest_replays [OF e [unfolded p Execute], of code body d'] show ?thesis
      by (simp add: unfold S')
  next
    case (Replay code' body')
    with assms e p have eq: "code' = code" "body' = body" "S1 = S'" by (simp_all add: unfold)
    have "S1 = S"
      using e p Replay
      by (auto simp: evaluateRequest_def Let_def chain_eq_Inr createPending_def create_row_def
          split: option.splits sum.splits if_splits prod.splits) (metis sum.exhaust)
    with e p Replay eq show ?thesis by (simp add: unfold)
  qed
qed

definition sample_call :: call where
  "sample_call =
     \<lparr>ca_key = Some ''k'', ca_scope = None, ca_method = ''POST'', ca_path = ''/p'', ca_body = JNull\<rparr>"

definition tick :: "(nat, nat) endpoint" where
  "tick n = (Inr (201, Some (Suc n)), Suc n)"

lemma http_response_is_replayed_witness:
  "\<exists>S'. intercept id (\<lambda>_. '''') sample_env sample_call tick sample_state = (Inr (201, Some 1), S') \<and>
     intercept id (\<lambda>_. '''') sample_env sample_call tick S' = (Inr (201, Some 1), S') \<and> im_data S' = 1"
proof -
  have "\<exists>S'. intercept id (\<lambda>_. '''') sample_env sample_call tick sample_state = (Inr (201, Some 1), S') \<and>
      im_data S' = 1"
    by (simp add: intercept_def sample_call_def tick_def sample_state_def trim_def is_space_def Let_def
        bad_scope_def scoped_path_def evaluateRequest_def findByKey_def createPending_def create_row_def
        markCompleted_def)
  then obtain S' where s: "intercept id (\<lambda>_. '''') sample_env sample_call tick sample_state =
      (Inr (201, Some 1), S')" "im_data S' = 1" by blast
  with http_response_is_replayed [OF s(1)] show ?thesis by blast
qed

text \<open>
  The request hash does not depend on the order of the keys of a JSON object.
\<close>

lemma hash_ignores_key_order:
  assumes "mset es = mset fs" "distinct (map fst es)"
  shows "hashRequest sha num method path (JObj es) = hashRequest sha num method path (JObj fs)"
proof -
  have "mset (map (stable_entry num) es) = mset (map (stable_entry num) fs)"
    using assms(1) by simp
  moreover have "distinct (map fst (map (stable_entry num) es))"
    using assms(2) by (simp add: comp_def)
  ultimately have "sort_key fst (map (stable_entry num) es) = sort_key fst (map (stable_entry num) fs)"
    by (rule sorted_entries_unique)
  then show ?thesis by (simp add: hashRequest_def stable_entries_map)
qed

lemma hash_ignores_key_order_witness:
  "hashRequest id (\<lambda>_. ''0'') ''POST'' ''/p'' (JObj [(''b'', JNum 0), (''a'', JBool True)]) =
     hashRequest id (\<lambda>_. ''0'') ''POST'' ''/p'' (JObj [(''a'', JBool True), (''b'', JNum 0)])"
  by (rule hash_ignores_key_order) simp_all

end
