(* ===== verification/FinanceInvariants.thy ===== *)
theory FinanceInvariants
  imports DataModel
begin

text \<open>
  \<open>common/finance/invariants.ts\<close>, the assertions on a loan, and
  \<open>common/finance/financial-invariants.service.ts\<close>, the scan of a loan and of the system for
  broken financial invariants, with the flags it raises.
\<close>

section \<open>Assertions\<close>

definition assertLoanNonNegative :: "decimal \<Rightarrow> decimal \<Rightarrow> decimal \<Rightarrow> decimal \<Rightarrow> unit outcome" where
  "assertLoanNonNegative outPrincipal outInterest outFees outTotal =
     (if outPrincipal < 0 \<or> outInterest < 0 \<or> outFees < 0 \<or> outTotal < 0
      then Inl (BadRequest ''Loan outstanding fields cannot be negative.'') else Inr ())"

definition assertLoanCanClose :: "loan_status \<Rightarrow> decimal \<Rightarrow> unit outcome" where
  "assertLoanCanClose status outTotal =
     (if status = LS_REPAID \<and> outTotal \<noteq> 0
      then Inl (BadRequest ''Loan cannot be closed with outstanding balance.'') else Inr ())"

definition assertNoDuplicateDisbursement :: "nat \<Rightarrow> unit outcome" where
  "assertNoDuplicateDisbursement n =
     (if 1 < n then Inl (Conflict ''Loan has multiple successful disbursements.'') else Inr ())"

lemma assertLoanNonNegative_Inr [outcome_simps]:
  "assertLoanNonNegative p i f s = Inr u \<longleftrightarrow> 0 \<le> p \<and> 0 \<le> i \<and> 0 \<le> f \<and> 0 \<le> s"
  by (auto simp: assertLoanNonNegative_def)

lemma assertLoanCanClose_Inr [outcome_simps]:
  "assertLoanCanClose s a = Inr u \<longleftrightarrow> s \<noteq> LS_REPAID \<or> a = 0"
  by (auto simp: assertLoanCanClose_def)

section \<open>The scan\<close>

datatype details =
    FieldValue string decimal
  | Overpaid decimal decimal
  | OverDisbursed string decimal decimal
  | Orphans nat

record failure =
  fl_code :: string
  fl_tenant :: "string option"
  fl_loan :: "string option"
  fl_details :: "details option"

definition hour_ms :: int where
  "hour_ms = 60 * 60 * 1000"

text \<open>An open flag of the last hour is not repeated.\<close>

definition flagSuspicious ::
  "env \<Rightarrow> string \<Rightarrow> string \<Rightarrow> string \<Rightarrow> string \<Rightarrow> string \<Rightarrow> db \<Rightarrow> db" where
  "flagSuspicious E t entityType entityId reason severity D =
     (if find (\<lambda>s. su_tenant s = t \<and> su_entity_type s = entityType \<and> su_entity_id s = entityId \<and>
                   su_reason s = reason \<and> su_severity s = severity \<and>
                   ev_now E - hour_ms \<le> su_created s) (db_suspicious D) \<noteq> None
      then D
      else D\<lparr>db_suspicious := db_suspicious D @
             [\<lparr>su_tenant = t, su_entity_type = entityType, su_entity_id = entityId,
               su_reason = reason, su_severity = severity, su_created = ev_now E\<rparr>]\<rparr>)"

definition money_fields :: "loan \<Rightarrow> (string \<times> decimal) list" where
  "money_fields l =
     [(''outstandingPrincipal'', l_out_principal l), (''outstandingInterest'', l_out_interest l),
      (''outstandingFees'', l_out_fees l), (''outstandingTotal'', l_out_total l)]"

definition loan_failure :: "string \<Rightarrow> loan \<Rightarrow> details \<Rightarrow> failure" where
  "loan_failure code l d =
     \<lparr>fl_code = code, fl_tenant = Some (l_tenant l), fl_loan = Some (l_id l), fl_details = Some d\<rparr>"

text \<open>The loops of the scan carry the failures found so far and the database.\<close>

definition check_field :: "env \<Rightarrow> loan \<Rightarrow> string \<times> decimal \<Rightarrow> failure list \<times> db \<Rightarrow> failure list \<times> db" where
  "check_field E l fv st =
     (case (fv, st) of ((field, value), (fs, D)) \<Rightarrow>
        if value < 0
        then (fs @ [loan_failure ''LOAN_NEGATIVE_BALANCE'' l (FieldValue field value)],
              flagSuspicious E (l_tenant l) ''TENANT_LOAN_APPLICATION'' (l_id l)
                ''Ledger imbalance detected'' ''HIGH'' D)
        else (fs, D))"

text \<open>An aggregate over no rows is null.\<close>

definition sum_or_null :: "decimal list \<Rightarrow> decimal option" where
  "sum_or_null xs = (if xs = [] then None else Some (sum_list xs))"

definition scheduled_due :: "loan \<Rightarrow> db \<Rightarrow> decimal option" where
  "scheduled_due l D =
     sum_or_null (map si_total_due
       (filter (\<lambda>i. si_tenant i = l_tenant l \<and> si_loan i = l_id l) (db_items D)))"

definition total_repaid :: "loan \<Rightarrow> db \<Rightarrow> decimal option" where
  "total_repaid l D =
     sum_or_null (map rp_amount
       (filter (\<lambda>r. rp_tenant r = l_tenant l \<and> rp_loan r = l_id l) (db_repayments D)))"

definition check_repaid :: "env \<Rightarrow> loan \<Rightarrow> failure list \<times> db \<Rightarrow> failure list \<times> db" where
  "check_repaid E l st =
     (case st of (fs, D) \<Rightarrow>
        case (scheduled_due l D, total_repaid l D) of
          (Some due, Some repaid) \<Rightarrow>
            if due < repaid
            then (fs @ [loan_failure ''LOAN_OVERPAYMENT'' l (Overpaid repaid due)],
                  flagSuspicious E (l_tenant l) ''TENANT_LOAN_APPLICATION'' (l_id l)
                    ''Repayment mismatch > threshold'' ''HIGH'' D)
            else (fs, D)
        | _ \<Rightarrow> (fs, D))"

definition ceiling_of :: "loan \<Rightarrow> decimal" where
  "ceiling_of l = (case l_approved l of None \<Rightarrow> l_requested l | Some a \<Rightarrow> a)"

definition successful_disbursements :: "loan \<Rightarrow> db \<Rightarrow> disbursement list" where
  "successful_disbursements l D =
     filter (\<lambda>d. di_tenant d = l_tenant l \<and> di_loan d = l_id l \<and> di_status d = D_SUCCESS)
       (db_disbursements D)"

definition check_disbursement ::
  "env \<Rightarrow> loan \<Rightarrow> disbursement \<Rightarrow> failure list \<times> db \<Rightarrow> failure list \<times> db" where
  "check_disbursement E l d st =
     (case st of (fs, D) \<Rightarrow>
        if ceiling_of l < di_amount d
        then (fs @ [loan_failure ''OVER_DISBURSEMENT'' l
                (OverDisbursed (di_id d) (di_amount d) (ceiling_of l))],
              flagSuspicious E (l_tenant l) ''TENANT_DISBURSEMENT'' (di_id d)
                ''Disbursement exceeds approved amount'' ''HIGH'' D)
        else (fs, D))"

definition scanLoanInvariants :: "env \<Rightarrow> string \<Rightarrow> db \<Rightarrow> failure list \<times> db" where
  "scanLoanInvariants E loanId D =
     (case find (\<lambda>l. l_id l = loanId) (db_loans D) of
        None \<Rightarrow> ([\<lparr>fl_code = ''LOAN_NOT_FOUND'', fl_tenant = None, fl_loan = Some loanId,
                   fl_details = None\<rparr>], D)
      | Some l \<Rightarrow>
          fold (check_disbursement E l) (successful_disbursements l D)
            (check_repaid E l (fold (check_field E l) (money_fields l) ([], D))))"

text \<open>The error code of the first failure is thrown; the flags stay.\<close>

definition assertLoanInvariants :: "env \<Rightarrow> string \<Rightarrow> db \<Rightarrow> unit outcome \<times> db" where
  "assertLoanInvariants E loanId D =
     (case scanLoanInvariants E loanId D of
        ([], D') \<Rightarrow> (Inr (), D')
      | (f # fs, D') \<Rightarrow> (Inl (Internal (fl_code f)), D'))"

definition scan_loan_into :: "env \<Rightarrow> loan \<Rightarrow> failure list \<times> db \<Rightarrow> failure list \<times> db" where
  "scan_loan_into E l st =
     (case st of (fs, D) \<Rightarrow>
        case scanLoanInvariants E (l_id l) D of (gs, D') \<Rightarrow> (fs @ gs, D'))"

definition scanSystemInvariants :: "env \<Rightarrow> string option \<Rightarrow> db \<Rightarrow> (nat \<times> failure list) \<times> db" where
  "scanSystemInvariants E tenant D =
     (let loans = filter (\<lambda>l. (case tenant of None \<Rightarrow> True | Some t \<Rightarrow> l_tenant l = t) \<and>
              (l_status l = LS_DISBURSED \<or> l_status l = LS_OVERDUE)) (db_loans D)
      in case fold (scan_loan_into E) loans ([], D) of (fs, D1) \<Rightarrow>
         let orphans = length (filter (\<lambda>e. (case tenant of None \<Rightarrow> True | Some t \<Rightarrow> en_tenant e = t) \<and>
                 en_lines e = []) (db_entries D1))
         in if 0 < orphans
            then ((length loans, fs @ [\<lparr>fl_code = ''LEDGER_ORPHAN_ENTRY'', fl_tenant = tenant,
                     fl_loan = None, fl_details = Some (Orphans orphans)\<rparr>]),
                  (case tenant of
                     None \<Rightarrow> D1
                   | Some t \<Rightarrow> flagSuspicious E t ''SYSTEM_INTEGRITY'' ''ledger''
                       ''Ledger imbalance detected'' ''HIGH'' D1))
            else ((length loans, fs), D1))"

definition assertSystemInvariants :: "env \<Rightarrow> db \<Rightarrow> unit outcome \<times> db" where
  "assertSystemInvariants E D =
     (case scanSystemInvariants E None D of
        ((n, fs), D') \<Rightarrow>
          (if fs \<noteq> [] then (Inl (Internal ''FINANCIAL_INVARIANT_FAILED''), D') else (Inr (), D')))"

section \<open>What the scan changes and finds\<close>

lemma flag_frame:
  "flagSuspicious E t a b c d D = D\<lparr>db_suspicious := db_suspicious (flagSuspicious E t a b c d D)\<rparr>"
  by (simp add: flagSuspicious_def)

lemma flag_simps [simp]:
  "db_loans (flagSuspicious E t a b c d D) = db_loans D"
  "db_items (flagSuspicious E t a b c d D) = db_items D"
  "db_repayments (flagSuspicious E t a b c d D) = db_repayments D"
  "db_disbursements (flagSuspicious E t a b c d D) = db_disbursements D"
  "db_entries (flagSuspicious E t a b c d D) = db_entries D"
  by (simp_all add: flagSuspicious_def)

text \<open>Two databases that differ only in their flags.\<close>

definition same_but_flags :: "db \<Rightarrow> db \<Rightarrow> bool" where
  "same_but_flags D D' \<longleftrightarrow> (\<exists>xs. D' = D\<lparr>db_suspicious := xs\<rparr>)"

lemma same_but_flags_refl [simp]: "same_but_flags D D"
  unfolding same_but_flags_def by (rule exI [of _ "db_suspicious D"]) simp

lemma same_but_flags_trans: "same_but_flags A B \<Longrightarrow> same_but_flags B C \<Longrightarrow> same_but_flags A C"
  by (auto simp: same_but_flags_def)

lemma same_but_flags_flag [simp]: "same_but_flags D (flagSuspicious E t a b c d D)"
  unfolding same_but_flags_def using flag_frame by blast

lemma same_but_flags_fold:
  assumes "\<And>x st. same_but_flags (snd st) (snd (f x st))"
  shows "same_but_flags (snd st) (snd (fold f xs st))"
proof (induction xs arbitrary: st)
  case (Cons x xs)
  then show ?case using same_but_flags_trans [OF assms Cons.IH] by simp
qed simp

lemma checks_flags [simp]:
  "same_but_flags (snd st) (snd (check_field E l fv st))"
  "same_but_flags (snd st) (snd (check_repaid E l st))"
  "same_but_flags (snd st) (snd (check_disbursement E l d st))"
  by (auto simp: check_field_def check_repaid_def check_disbursement_def
      split: prod.splits option.splits)

lemma fold_check_fields:
  "fst (fold (check_field E l) fvs st) = [] \<longleftrightarrow> fst st = [] \<and> (\<forall>fv \<in> set fvs. 0 \<le> snd fv)"
  by (induction fvs arbitrary: st) (auto simp: check_field_def split: prod.splits)

lemma fold_check_disbursements:
  "fst (fold (check_disbursement E l) ds st) = [] \<longleftrightarrow>
     fst st = [] \<and> (\<forall>d \<in> set ds. di_amount d \<le> ceiling_of l)"
  by (induction ds arbitrary: st) (auto simp: check_disbursement_def split: prod.splits)

lemma scan_flags: "same_but_flags D (snd (scanLoanInvariants E loanId D))"
proof (cases "find (\<lambda>l. l_id l = loanId) (db_loans D)")
  case (Some l)
  have "same_but_flags D (snd (fold (check_field E l) (money_fields l) ([], D)))"
    using same_but_flags_fold [of "check_field E l" "([], D)"] by simp
  from same_but_flags_trans [OF this checks_flags(2)]
  have "same_but_flags D (snd (check_repaid E l (fold (check_field E l) (money_fields l) ([], D))))" .
  from same_but_flags_trans [OF this same_but_flags_fold [OF checks_flags(3)]] Some show ?thesis
    by (simp add: scanLoanInvariants_def)
qed (simp add: scanLoanInvariants_def)

lemma loan_invariants_iff:
  "(fst (assertLoanInvariants E loanId D) = Inr ()) =
     (case find (\<lambda>l. l_id l = loanId) (db_loans D) of
        None \<Rightarrow> False
      | Some l \<Rightarrow>
          0 \<le> l_out_principal l \<and> 0 \<le> l_out_interest l \<and> 0 \<le> l_out_fees l \<and> 0 \<le> l_out_total l \<and>
          (case (scheduled_due l D, total_repaid l D) of
             (Some due, Some repaid) \<Rightarrow> repaid \<le> due | _ \<Rightarrow> True) \<and>
          list_all (\<lambda>d. di_amount d \<le> ceiling_of l) (successful_disbursements l D)) \<and>
   same_but_flags D (snd (assertLoanInvariants E loanId D))"
proof
  have flags: "snd (assertLoanInvariants E loanId D) = snd (scanLoanInvariants E loanId D)"
    by (simp add: assertLoanInvariants_def split: prod.splits list.splits)
  show "same_but_flags D (snd (assertLoanInvariants E loanId D))"
    unfolding flags by (rule scan_flags)
  have pass: "(fst (assertLoanInvariants E loanId D) = Inr ()) \<longleftrightarrow> fst (scanLoanInvariants E loanId D) = []"
    by (simp add: assertLoanInvariants_def split: prod.splits list.splits)
  show "(fst (assertLoanInvariants E loanId D) = Inr ()) =
     (case find (\<lambda>l. l_id l = loanId) (db_loans D) of
        None \<Rightarrow> False
      | Some l \<Rightarrow>
          0 \<le> l_out_principal l \<and> 0 \<le> l_out_interest l \<and> 0 \<le> l_out_fees l \<and> 0 \<le> l_out_total l \<and>
          (case (scheduled_due l D, total_repaid l D) of
             (Some due, Some repaid) \<Rightarrow> repaid \<le> due | _ \<Rightarrow> True) \<and>
          list_all (\<lambda>d. di_amount d \<le> ceiling_of l) (successful_disbursements l D))"
  proof (cases "find (\<lambda>l. l_id l = loanId) (db_loans D)")
    case None
    then show ?thesis by (simp add: pass scanLoanInvariants_def)
  next
    case (Some l)
    let ?st = "fold (check_field E l) (money_fields l) ([], D)"
    have f: "(fst ?st = []) \<longleftrightarrow>
        0 \<le> l_out_principal l \<and> 0 \<le> l_out_interest l \<and> 0 \<le> l_out_fees l \<and> 0 \<le> l_out_total l"
      by (simp only: fold_check_fields) (simp add: money_fields_def)
    have "same_but_flags D (snd ?st)" using same_but_flags_fold [of "check_field E l" "([], D)"] by simp
    then have "scheduled_due l (snd ?st) = scheduled_due l D" "total_repaid l (snd ?st) = total_repaid l D"
      by (auto simp: same_but_flags_def scheduled_due_def total_repaid_def)
    then have "(fst (check_repaid E l ?st) = []) \<longleftrightarrow> fst ?st = [] \<and>
        (case (scheduled_due l D, total_repaid l D) of (Some due, Some repaid) \<Rightarrow> repaid \<le> due | _ \<Rightarrow> True)"
      by (cases ?st) (auto simp: check_repaid_def split: option.splits)
    with f Some show ?thesis
      by (simp add: pass scanLoanInvariants_def fold_check_disbursements list_all_iff)
  qed
qed

section \<open>Properties\<close>

text \<open>
  \<open>assertLoanInvariants\<close> passes exactly on a loan that exists, has no negative balance, was
  not repaid more than its schedule and was not disbursed more than its approved amount; in every
  case the only thing it changes is the table of flags.
\<close>

lemma loan_invariants_pass_iff:
  "(fst (assertLoanInvariants E loanId D) = Inr ()) =
     (case find (\<lambda>l. l_id l = loanId) (db_loans D) of
        None \<Rightarrow> False
      | Some l \<Rightarrow>
          0 \<le> l_out_principal l \<and> 0 \<le> l_out_interest l \<and> 0 \<le> l_out_fees l \<and> 0 \<le> l_out_total l \<and>
          (case (scheduled_due l D, total_repaid l D) of
             (Some due, Some repaid) \<Rightarrow> repaid \<le> due | _ \<Rightarrow> True) \<and>
          list_all (\<lambda>d. di_amount d \<le> ceiling_of l) (successful_disbursements l D)) \<and>
   same_but_flags D (snd (assertLoanInvariants E loanId D))"
  by (rule loan_invariants_iff)

end
