(* ===== verification/Treasury.thy ===== *)
theory Treasury
  imports TenantLedger Calendar
begin

text \<open>
  \<open>treasury/treasury.service.ts\<close> and \<open>treasury/exposure/treasury-exposure.guard.ts\<close>: the capital
  pools that fund loans. A pool's capital is allocated to a loan when it is deployed; principal
  repayments and write-offs are booked on the allocation and in the ledger. The utilization of a
  pool is a quotient of decimals (turned into a number), the parameter \<open>dc_div\<close>.
\<close>

section \<open>Access\<close>

definition assertCanRead :: "admin_role \<Rightarrow> unit outcome" where
  "assertCanRead role =
     (if role = SUPER_ADMIN \<or> role = OPS \<or> role = SYSTEM \<or> role = RISK_MANAGER then Inr ()
      else Inl (Forbidden ''Treasury access is restricted.''))"

definition assertCanManage :: "admin_role \<Rightarrow> unit outcome" where
  "assertCanManage role =
     (if role = SUPER_ADMIN \<or> role = OPS \<or> role = SYSTEM then Inr ()
      else Inl (Forbidden ''Only OPS or SUPER_ADMIN can manage treasury pools.''))"

section \<open>Sums of allocations\<close>

definition pool_allocs :: "string \<Rightarrow> string \<Rightarrow> db \<Rightarrow> allocation list" where
  "pool_allocs t p D = filter (\<lambda>a. al_tenant a = t \<and> al_pool a = p) (db_allocs D)"

definition pool_deployed :: "string \<Rightarrow> string \<Rightarrow> db \<Rightarrow> decimal" where
  "pool_deployed t p D = (\<Sum>a\<leftarrow>pool_allocs t p D. al_deployed a)"

definition pool_released :: "string \<Rightarrow> string \<Rightarrow> db \<Rightarrow> decimal" where
  "pool_released t p D = (\<Sum>a\<leftarrow>pool_allocs t p D. al_released a)"

definition pool_losses :: "string \<Rightarrow> string \<Rightarrow> db \<Rightarrow> decimal" where
  "pool_losses t p D = (\<Sum>a\<leftarrow>pool_allocs t p D. al_written_off a)"

definition pool_outstanding :: "string \<Rightarrow> string \<Rightarrow> db \<Rightarrow> decimal" where
  "pool_outstanding t p D = max 0 (pool_deployed t p D - pool_released t p D - pool_losses t p D)"

section \<open>The exposure guard\<close>

definition resolveAvailable :: "pool_rules \<Rightarrow> decimal \<Rightarrow> decimal \<Rightarrow> decimal" where
  "resolveAvailable rules deployedOutstanding writtenOff =
     (case ru_initial_capital rules of
        Some c \<Rightarrow> max 0 (c - deployedOutstanding - writtenOff)
      | None \<Rightarrow>
          (case ru_max_deployed rules of
             Some m \<Rightarrow> max 0 (m - deployedOutstanding)
           | None \<Rightarrow> 999999999999))"

definition assertCanDeploy ::
  "decimal_ops \<Rightarrow> string \<Rightarrow> string \<Rightarrow> decimal \<Rightarrow> string option \<Rightarrow> pool_rules \<Rightarrow> db \<Rightarrow> unit outcome" where
  "assertCanDeploy R t p amount riskBand rules D =
     (let out = pool_outstanding t p D; writtenOff = pool_losses t p D
      in if resolveAvailable rules out writtenOff < amount
         then Inl (BadRequest ''Capital pool has insufficient available balance for deployment.'')
         else if (case ru_max_deployed rules of None \<Rightarrow> False | Some m \<Rightarrow> m < out + amount)
         then Inl (BadRequest ''Capital pool max deployed amount would be exceeded.'')
         else if (case (ru_max_utilization rules, ru_initial_capital rules) of
                    (Some u, Some c) \<Rightarrow> 0 < c \<and> u < dc_div R (out + amount) c | _ \<Rightarrow> False)
         then Inl (BadRequest ''Capital pool utilization cap would be exceeded.'')
         else if (case riskBand of
                    None \<Rightarrow> False
                  | Some b \<Rightarrow> b \<noteq> '''' \<and> ru_initial_capital rules \<noteq> None \<and>
                      (case map_of (ru_max_risk_band rules) b of
                         None \<Rightarrow> False | Some allowed \<Rightarrow> allowed < 0 \<or> 1 < allowed))
         then Inl (BadRequest ''Invalid risk-band concentration cap configuration.'')
         else Inr ())"

section \<open>Pools\<close>

definition no_rules :: pool_rules where
  "no_rules = \<lparr>ru_initial_capital = None, ru_max_deployed = None, ru_max_utilization = None,
     ru_max_risk_band = []\<rparr>"

definition createPool ::
  "env \<Rightarrow> string \<Rightarrow> string \<Rightarrow> pool_type \<Rightarrow> string option \<Rightarrow> string option \<Rightarrow> pool_rules option \<Rightarrow> db \<Rightarrow>
     pool \<times> db" where
  "createPool E t name ty currency externalRef rules D =
     (case fresh E D of (i, D1) \<Rightarrow>
        let pool = \<lparr>po_id = i, po_tenant = t, po_name = trim name, po_type = ty,
                    po_status = POOL_ACTIVE, po_currency = normalize_currency currency,
                    po_external = trim_or_null externalRef,
                    po_rules = (case rules of None \<Rightarrow> no_rules | Some r \<Rightarrow> r),
                    po_created = ev_now E\<rparr>
        in (pool, ensureDefaultAccounts E t (D1\<lparr>db_pools := db_pools D1 @ [pool]\<rparr>)))"

text \<open>The database orders a pool status by its declaration.\<close>

definition status_rank :: "pool_status \<Rightarrow> nat" where
  "status_rank s = (case s of POOL_ACTIVE \<Rightarrow> 0 | POOL_PAUSED \<Rightarrow> 1 | POOL_CLOSED \<Rightarrow> 2)"

definition listPools :: "string \<Rightarrow> db \<Rightarrow> pool list" where
  "listPools t D =
     sort_key (\<lambda>p. (status_rank (po_status p), po_created p)) (filter (\<lambda>p. po_tenant p = t) (db_pools D))"

definition getPool :: "string \<Rightarrow> string \<Rightarrow> db \<Rightarrow> pool outcome" where
  "getPool t i D =
     (case find (\<lambda>p. po_tenant p = t \<and> po_id p = i) (db_pools D) of
        None \<Rightarrow> Inl (NotFound ''Capital pool not found.'')
      | Some p \<Rightarrow> Inr p)"

text \<open>
  A patch: a field that is not given stays. An external reference and the rules may be given as
  null.
\<close>

record pool_patch =
  pp_name :: "string option"
  pp_status :: "pool_status option"
  pp_rules :: "pool_rules option option"
  pp_external :: "string option option"

definition apply_patch :: "pool_patch \<Rightarrow> pool \<Rightarrow> pool" where
  "apply_patch x p =
     p\<lparr>po_name := (case pp_name x of None \<Rightarrow> po_name p | Some n \<Rightarrow> trim n),
       po_status := (case pp_status x of None \<Rightarrow> po_status p | Some s \<Rightarrow> s),
       po_external := (case pp_external x of None \<Rightarrow> po_external p | Some e \<Rightarrow> trim_or_null e),
       po_rules := (case pp_rules x of None \<Rightarrow> po_rules p
                    | Some r \<Rightarrow> (case r of None \<Rightarrow> no_rules | Some q \<Rightarrow> q))\<rparr>"

definition updatePool :: "string \<Rightarrow> string \<Rightarrow> pool_patch \<Rightarrow> db \<Rightarrow> db outcome" where
  "updatePool t i x D =
     chain (getPool t i D) (\<lambda>_.
     Inr (D\<lparr>db_pools := update_where (\<lambda>p. po_id p = i) (apply_patch x) (db_pools D)\<rparr>))"

record pool_summary =
  sm_available :: decimal
  sm_deployed :: decimal
  sm_repaid :: decimal
  sm_losses :: decimal
  sm_utilization :: decimal

definition computeAvailableFromRules :: "decimal \<Rightarrow> decimal \<Rightarrow> decimal \<Rightarrow> decimal" where
  "computeAvailableFromRules initialCapital deployedOutstanding losses =
     (if initialCapital \<le> 0 then 0 else max 0 (initialCapital - deployedOutstanding - losses))"

definition rules_capital :: "pool_rules \<Rightarrow> decimal" where
  "rules_capital rules =
     (case ru_initial_capital rules of
        Some c \<Rightarrow> c
      | None \<Rightarrow> (case ru_max_deployed rules of Some m \<Rightarrow> m | None \<Rightarrow> 0))"

definition getPoolSummary :: "decimal_ops \<Rightarrow> string \<Rightarrow> string \<Rightarrow> db \<Rightarrow> pool_summary outcome" where
  "getPoolSummary R t i D =
     chain (getPool t i D) (\<lambda>pool.
       let out = pool_outstanding t i D;
           losses = pool_losses t i D;
           initialCapital = rules_capital (po_rules pool)
       in Inr \<lparr>sm_available = computeAvailableFromRules initialCapital out losses,
               sm_deployed = out, sm_repaid = pool_released t i D, sm_losses = losses,
               sm_utilization =
                 (if 0 < initialCapital
                  then of_int (half_up (dc_mul R (dc_div R out initialCapital) 100 * 10000)) / 10000
                  else 0)\<rparr>)"

definition in_range :: "int option \<Rightarrow> int option \<Rightarrow> int \<Rightarrow> bool" where
  "in_range lo hi d \<longleftrightarrow> (case lo of None \<Rightarrow> True | Some a \<Rightarrow> a \<le> d) \<and> (case hi of None \<Rightarrow> True | Some b \<Rightarrow> d \<le> b)"

definition getPoolPerformance ::
  "string \<Rightarrow> string \<Rightarrow> int option \<Rightarrow> int option \<Rightarrow> db \<Rightarrow> (decimal \<times> decimal \<times> decimal) outcome" where
  "getPoolPerformance t i lo hi D =
     chain (getPool t i D) (\<lambda>_.
       let rows = filter (\<lambda>a. in_range lo hi (al_created a)) (pool_allocs t i D)
       in Inr (\<Sum>a\<leftarrow>rows. al_deployed a, \<Sum>a\<leftarrow>rows. al_released a, \<Sum>a\<leftarrow>rows. al_written_off a))"

definition listPoolAllocations :: "string \<Rightarrow> string \<Rightarrow> int \<Rightarrow> db \<Rightarrow> allocation list outcome" where
  "listPoolAllocations t i n D =
     chain (getPool t i D) (\<lambda>_.
       Inr (take (nat (min (max n 1) 100)) (sort_key (\<lambda>a. - al_created a) (pool_allocs t i D))))"

section \<open>Choosing a pool\<close>

text \<open>
  The candidates: the active pools by what they have available, the oldest first among equals.
\<close>

definition candidate_pools :: "decimal_ops \<Rightarrow> string \<Rightarrow> db \<Rightarrow> pool list outcome" where
  "candidate_pools R t D =
     (let pools = sort_key po_created
            (filter (\<lambda>p. po_tenant p = t \<and> po_status p = POOL_ACTIVE) (db_pools D))
      in if pools = [] then Inl (BadRequest ''No ACTIVE capital pool available for this tenant.'')
         else chain (fold_outcome (\<lambda>p acc. chain (getPoolSummary R t (po_id p) D) (\<lambda>s.
                Inr (acc @ [(p, sm_available s)]))) pools []) (\<lambda>availableByPool.
           Inr (map fst (sort_key (\<lambda>(p, available). (- available, po_created p)) availableByPool))))"

text \<open>The loop over the candidates returns, or lets the guard throw, on the first one.\<close>

fun first_deployable ::
  "decimal_ops \<Rightarrow> string \<Rightarrow> decimal \<Rightarrow> db \<Rightarrow> pool list \<Rightarrow> pool outcome" where
  "first_deployable R t amount D [] =
     Inl (BadRequest ''No capital pool passed exposure checks for deployment.'')"
| "first_deployable R t amount D (p # ps) =
     chain (assertCanDeploy R t (po_id p) amount None (po_rules p) D) (\<lambda>_. Inr p)"

definition resolveFundingPoolForLoan :: "decimal_ops \<Rightarrow> string \<Rightarrow> decimal \<Rightarrow> db \<Rightarrow> pool outcome" where
  "resolveFundingPoolForLoan R t amount D =
     chain (candidate_pools R t D) (first_deployable R t amount D)"

section \<open>Moving capital\<close>

record treasury_actor =
  ta_id :: "string option"
  ta_role :: "admin_role option"

definition capital_entry ::
  "env \<Rightarrow> string \<Rightarrow> string \<Rightarrow> string \<Rightarrow> treasury_actor \<Rightarrow> entry_type \<Rightarrow> string \<Rightarrow> string \<Rightarrow>
     account_code \<Rightarrow> account_code \<Rightarrow> decimal \<Rightarrow> entry_input" where
  "capital_entry E t loan currency actor ty key memo debit credit amount =
     \<lparr>ei_tenant = t, ei_occurred = ev_now E, ei_type = ty, ei_key = key,
      ei_ref_type = ''LoanApplication'', ei_ref_id = loan, ei_currency = Some currency,
      ei_created_by = ta_id actor, ei_role = ta_role actor, ei_memo = Some memo,
      ei_lines = [\<lparr>li_code = debit, li_direction = DEBIT, li_amount = amount\<rparr>,
                  \<lparr>li_code = credit, li_direction = CREDIT, li_amount = amount\<rparr>]\<rparr>"

definition loan_alloc :: "string \<Rightarrow> string \<Rightarrow> db \<Rightarrow> allocation option" where
  "loan_alloc t loan D = find (\<lambda>a. al_tenant a = t \<and> al_loan a = loan) (db_allocs D)"

definition deployToLoan ::
  "env \<Rightarrow> decimal_ops \<Rightarrow> string \<Rightarrow> string \<Rightarrow> decimal \<Rightarrow> string \<Rightarrow> string \<Rightarrow> treasury_actor \<Rightarrow> db \<Rightarrow>
     ((string \<times> string) \<times> db) outcome" where
  "deployToLoan E R t loan amount currency key actor D =
     (case loan_alloc t loan D of
        Some a \<Rightarrow> Inr ((al_id a, al_pool a), D)
      | None \<Rightarrow>
          chain (resolveFundingPoolForLoan R t amount D) (\<lambda>pool.
          let D1 = ensureDefaultAccounts E t D
          in if find (\<lambda>a. al_loan a = loan) (db_allocs D1) \<noteq> None
             then Inl (Internal ''Unique constraint failed'')
             else case fresh E D1 of (i, D2) \<Rightarrow>
               let D3 = D2\<lparr>db_allocs := db_allocs D2 @
                    [\<lparr>al_id = i, al_tenant = t, al_pool = po_id pool, al_loan = loan,
                      al_status = A_DEPLOYED, al_reserved = money amount, al_deployed = money amount,
                      al_released = 0, al_written_off = 0, al_created = ev_now E\<rparr>]\<rparr>
               in chain (post_entry E (capital_entry E t loan currency actor E_ADJUSTMENT
                      (''capital:deploy:'' @ key) (''Capital deployed from pool '' @ po_id pool)
                      CAPITAL_POOL_DEPLOYED CAPITAL_POOL_AVAILABLE amount) D3) (\<lambda>(_, D4).
                  Inr ((i, po_id pool), emit (AuditEvent ''TREASURY.MOVE'' ''CapitalAllocation'' i) D4))))"

definition applyPrincipalRepayment ::
  "env \<Rightarrow> string \<Rightarrow> string \<Rightarrow> decimal \<Rightarrow> string \<Rightarrow> string \<Rightarrow> treasury_actor \<Rightarrow> db \<Rightarrow> db outcome" where
  "applyPrincipalRepayment E t loan principalAmount currency key actor D =
     (if principalAmount \<le> 0 then Inr D
      else case loan_alloc t loan D of
        None \<Rightarrow> Inr D
      | Some a \<Rightarrow>
          let nextReleased = al_released a + principalAmount;
              out = al_deployed a - nextReleased - al_written_off a;
              D1 = D\<lparr>db_allocs := update_where (\<lambda>b. al_id b = al_id a)
                (\<lambda>b. b\<lparr>al_released := money nextReleased,
                       al_status := (if out \<le> 0 then A_RELEASED else A_DEPLOYED)\<rparr>) (db_allocs D)\<rparr>
          in chain (post_entry E (capital_entry E t loan currency actor E_ADJUSTMENT
                 (''capital:repayment:'' @ key) (''Capital principal repaid to pool '' @ al_pool a)
                 CAPITAL_POOL_REPAID CAPITAL_POOL_DEPLOYED principalAmount) D1) (\<lambda>(_, D2). Inr D2))"

definition applyWriteOff ::
  "env \<Rightarrow> string \<Rightarrow> string \<Rightarrow> decimal \<Rightarrow> string \<Rightarrow> string \<Rightarrow> treasury_actor \<Rightarrow> db \<Rightarrow> db outcome" where
  "applyWriteOff E t loan amount currency key actor D =
     (if amount \<le> 0 then Inr D
      else case loan_alloc t loan D of
        None \<Rightarrow> Inr D
      | Some a \<Rightarrow>
          let out = max 0 (al_deployed a - al_released a - al_written_off a)
          in if out \<le> 0 then Inr D
             else
               let writeOffAmount = min out amount;
                   D1 = D\<lparr>db_allocs := update_where (\<lambda>b. al_id b = al_id a)
                     (\<lambda>b. b\<lparr>al_written_off := money (al_written_off a + writeOffAmount),
                            al_status := A_WRITTEN_OFF\<rparr>) (db_allocs D)\<rparr>
               in chain (post_entry E (capital_entry E t loan currency actor E_WRITE_OFF
                      (''capital:writeoff:'' @ key) (''Capital write-off from pool '' @ al_pool a)
                      CAPITAL_POOL_LOSSES CAPITAL_POOL_DEPLOYED writeOffAmount) D1) (\<lambda>(_, D2). Inr D2))"

section \<open>Daily snapshots\<close>

definition capture_pool ::
  "decimal_ops \<Rightarrow> int \<Rightarrow> pool \<Rightarrow> db \<Rightarrow> db outcome" where
  "capture_pool R day pool D =
     chain (getPoolSummary R (po_tenant pool) (po_id pool) D) (\<lambda>s.
       let mine = (\<lambda>x. ps_pool x = po_id pool \<and> ps_date x = day);
           row = \<lparr>ps_tenant = po_tenant pool, ps_pool = po_id pool, ps_date = day,
                  ps_available = money (sm_available s), ps_deployed = money (sm_deployed s),
                  ps_repaid = money (sm_repaid s), ps_losses = money (sm_losses s)\<rparr>
       in Inr (if find mine (db_snapshots D) \<noteq> None
               then D\<lparr>db_snapshots := update_where mine
                      (\<lambda>x. x\<lparr>ps_available := ps_available row, ps_deployed := ps_deployed row,
                             ps_repaid := ps_repaid row, ps_losses := ps_losses row\<rparr>) (db_snapshots D)\<rparr>
               else D\<lparr>db_snapshots := db_snapshots D @ [row]\<rparr>))"

definition captureDailySnapshots :: "env \<Rightarrow> decimal_ops \<Rightarrow> int option \<Rightarrow> db \<Rightarrow> (nat \<times> db) outcome" where
  "captureDailySnapshots E R asOf D =
     (let day = utc_midnight (case asOf of None \<Rightarrow> ev_now E | Some d \<Rightarrow> d);
          pools = filter (\<lambda>p. po_status p = POOL_ACTIVE) (db_pools D)
      in chain (fold_outcome (capture_pool R day) pools D) (\<lambda>D'. Inr (length pools, D')))"

section \<open>Facts about deployments\<close>

lemma capital_posts:
  assumes "post_entry E (capital_entry E t loan cur actor ty key memo d c amount) D = Inr (r, D')"
  shows "0 < amount" "assertRoleCanPost (ta_role actor) ty = Inr ()"
  using post_entry_guards [OF assms] by (simp_all add: post_guards_def capital_entry_def)

lemma capital_cents: "is_cents amount \<Longrightarrow> cents_input (capital_entry E t loan cur actor ty key memo d c amount)"
  by (simp add: cents_input_def capital_entry_def)

lemma collected_rows:
  assumes "fold_outcome (\<lambda>p acc. chain (f p) (\<lambda>s. Inr (acc @ [(p, g s)]))) ps acc = Inr out"
  shows "map fst out = map fst acc @ ps"
  using assms by (induction ps arbitrary: acc) (auto simp: chain_eq_Inr)

lemma candidate_pools_mem:
  assumes "candidate_pools R t D = Inr ps" "p \<in> set ps"
  shows "p \<in> set (db_pools D)" "po_tenant p = t" "po_status p = POOL_ACTIVE"
proof -
  let ?pools = "sort_key po_created (filter (\<lambda>p. po_tenant p = t \<and> po_status p = POOL_ACTIVE) (db_pools D))"
  obtain out where f: "fold_outcome (\<lambda>p acc. chain (getPoolSummary R t (po_id p) D) (\<lambda>s.
        Inr (acc @ [(p, sm_available s)]))) ?pools [] = Inr out"
    and ps: "ps = map fst (sort_key (\<lambda>(p, available). (- available, po_created p)) out)"
    using assms(1) by (auto simp: candidate_pools_def Let_def chain_eq_Inr split: if_splits)
  have "set ps = set (map fst out)" unfolding ps by simp
  also have "\<dots> = set ?pools" using collected_rows [OF f] by simp
  finally show "p \<in> set (db_pools D)" "po_tenant p = t" "po_status p = POOL_ACTIVE"
    using assms(2) by auto
qed

lemma resolve_deployable:
  assumes "resolveFundingPoolForLoan R t amount D = Inr p"
  shows "p \<in> set (db_pools D)" "po_tenant p = t" "po_status p = POOL_ACTIVE"
    "assertCanDeploy R t (po_id p) amount None (po_rules p) D = Inr ()"
proof -
  from assms obtain ps where c: "candidate_pools R t D = Inr ps" and f: "first_deployable R t amount D ps = Inr p"
    by (auto simp: resolveFundingPoolForLoan_def chain_eq_Inr)
  from f obtain qs where "ps = p # qs" "assertCanDeploy R t (po_id p) amount None (po_rules p) D = Inr ()"
    by (cases ps) (auto simp: chain_eq_Inr)
  with candidate_pools_mem [OF c] show "p \<in> set (db_pools D)" "po_tenant p = t" "po_status p = POOL_ACTIVE"
    "assertCanDeploy R t (po_id p) amount None (po_rules p) D = Inr ()" by auto
qed

text \<open>What a new deployment did.\<close>

lemma deploy_cases:
  assumes "deployToLoan E R t loan amount cur key actor D = Inr ((i, p), D')" "loan_alloc t loan D = None"
  obtains pool x D3 r D4 where "resolveFundingPoolForLoan R t amount D = Inr pool" "po_id pool = p"
    "al_tenant x = t" "al_pool x = p" "al_loan x = loan" "al_id x = i" "al_deployed x = money amount"
    "al_released x = 0" "al_written_off x = 0"
    "db_allocs D3 = db_allocs D @ [x]" "db_entries D3 = db_entries D"
    "post_entry E (capital_entry E t loan cur actor E_ADJUSTMENT (''capital:deploy:'' @ key)
       (''Capital deployed from pool '' @ p) CAPITAL_POOL_DEPLOYED CAPITAL_POOL_AVAILABLE amount) D3 = Inr (r, D4)"
    "D' = emit (AuditEvent ''TREASURY.MOVE'' ''CapitalAllocation'' i) D4" "db_allocs D' = db_allocs D @ [x]"
proof -
  from assms obtain pool where pool: "resolveFundingPoolForLoan R t amount D = Inr pool"
    by (auto simp: deployToLoan_def chain_eq_Inr)
  let ?D1 = "ensureDefaultAccounts E t D"
  let ?i = "ev_cuid E (db_seq ?D1)"
  let ?x = "\<lparr>al_id = ?i, al_tenant = t, al_pool = po_id pool, al_loan = loan,
      al_status = A_DEPLOYED, al_reserved = money amount, al_deployed = money amount,
      al_released = 0, al_written_off = 0, al_created = ev_now E\<rparr>"
  let ?D3 = "?D1\<lparr>db_seq := Suc (db_seq ?D1), db_allocs := db_allocs D @ [?x]\<rparr>"
  from assms pool obtain r D4 where
    e: "post_entry E (capital_entry E t loan cur actor E_ADJUSTMENT (''capital:deploy:'' @ key)
       (''Capital deployed from pool '' @ po_id pool) CAPITAL_POOL_DEPLOYED CAPITAL_POOL_AVAILABLE amount) ?D3 =
       Inr (r, D4)"
    and i: "i = ?i" "p = po_id pool" "D' = emit (AuditEvent ''TREASURY.MOVE'' ''CapitalAllocation'' i) D4"
    by (auto simp: deployToLoan_def chain_eq_Inr fresh_def Let_def split: if_splits)
  show thesis
    by (rule that [OF pool _ _ _ _ _ _ _ _ _ _ e [folded i(2)] i(3), of ?x])
      (use post_entry_other_tables [OF e] i in simp_all)
qed

lemma deploy_sums:
  assumes "db_allocs D' = db_allocs D @ [x]" "al_tenant x = t" "al_pool x = p"
    "al_released x = 0" "al_written_off x = 0"
  shows "pool_deployed t p D' = pool_deployed t p D + al_deployed x"
    "pool_released t p D' = pool_released t p D" "pool_losses t p D' = pool_losses t p D"
  using assms by (simp_all add: pool_deployed_def pool_released_def pool_losses_def pool_allocs_def)

section \<open>Properties\<close>

text \<open>
  C11. A deployment that succeeds keeps the funding pool within its limits: the pool is active,
  and what it has out afterwards is at most its initial capital less its losses, and at most its
  maximum deployed amount, where these are set.
\<close>

theorem deployment_respects_limits:
  assumes "deployToLoan E R t loan amount cur key actor D = Inr ((i, p), D')"
    and "loan_alloc t loan D = None" "is_cents amount"
  shows "\<exists>pool \<in> set (db_pools D). po_id pool = p \<and> po_tenant pool = t \<and> po_status pool = POOL_ACTIVE \<and>
    (case ru_initial_capital (po_rules pool) of
       None \<Rightarrow> True | Some c \<Rightarrow> pool_outstanding t p D' \<le> c - pool_losses t p D') \<and>
    (case ru_max_deployed (po_rules pool) of None \<Rightarrow> True | Some m \<Rightarrow> pool_outstanding t p D' \<le> m)"
  using assms(1,2)
proof (cases rule: deploy_cases)
  case (1 pool x D3 r D4)
  have pos: "0 < amount" using capital_posts [OF 1(12)] by simp
  note ok = resolve_deployable [OF 1(1)]
  have out: "pool_outstanding t p D' \<le> pool_outstanding t p D + amount"
    using deploy_sums [OF 1(14) 1(3,4) 1(8,9)] 1(7) assms(3) pos by (simp add: pool_outstanding_def)
  have loss: "pool_losses t p D' = pool_losses t p D"
    using deploy_sums [OF 1(14) 1(3,4) 1(8,9)] by simp
  have g: "amount \<le> resolveAvailable (po_rules pool) (pool_outstanding t p D) (pool_losses t p D)"
    "case ru_max_deployed (po_rules pool) of None \<Rightarrow> True | Some m \<Rightarrow> pool_outstanding t p D + amount \<le> m"
    using ok(4) unfolding assertCanDeploy_def Let_def 1(2)
    by (auto split: if_splits option.splits)
  have "case ru_initial_capital (po_rules pool) of
       None \<Rightarrow> True | Some c \<Rightarrow> pool_outstanding t p D' \<le> c - pool_losses t p D'"
    using g(1) pos out loss by (auto simp: resolveAvailable_def split: option.splits)
  moreover have "case ru_max_deployed (po_rules pool) of None \<Rightarrow> True | Some m \<Rightarrow> pool_outstanding t p D' \<le> m"
    using g(2) out by (auto split: option.splits)
  ultimately show ?thesis using ok 1(2) by blast
qed

text \<open>A deployment succeeds once a pool is found, the amount is positive and the role may post.\<close>

lemma capital_guards:
  assumes "0 < amount" "assertRoleCanPost (ta_role actor) ty = Inr ()" "trim key \<noteq> ''''"
  shows "post_guards (capital_entry E t loan cur actor ty key memo d c amount)"
  using assms by (simp add: post_guards_def capital_entry_def line_pair_def)

lemma trim_nonempty:
  assumes "\<not> is_space c"
  shows "trim (c # s) \<noteq> ''''"
proof -
  have "c \<in> set (rev (c # s))" by simp
  with assms have "dropWhile is_space (rev (c # s)) \<noteq> []" by (metis dropWhile_eq_Nil_conv)
  with assms show ?thesis unfolding trim_def dropWhile.simps if_False rev_is_Nil_conv by simp
qed

lemma deploy_exists:
  assumes "find (\<lambda>a. al_loan a = loan) (db_allocs D) = None"
    and "resolveFundingPoolForLoan R t amount D = Inr pool" "0 < amount"
    and "assertRoleCanPost (ta_role actor) E_ADJUSTMENT = Inr ()"
  shows "\<exists>i D'. deployToLoan E R t loan amount cur key actor D = Inr ((i, po_id pool), D')"
proof -
  have none: "loan_alloc t loan D = None"
    using assms(1) by (auto simp: loan_alloc_def find_None_iff)
  have "trim (''capital:deploy:'' @ key) \<noteq> ''''"
    using trim_nonempty [of "CHR ''c''"] by (simp add: is_space_def)
  from capital_guards [OF assms(3,4) this]
  have "post_guards (capital_entry E t loan cur actor E_ADJUSTMENT (''capital:deploy:'' @ key)
       (''Capital deployed from pool '' @ po_id pool) CAPITAL_POOL_DEPLOYED CAPITAL_POOL_AVAILABLE amount)"
    (is "post_guards ?x") .
  then have p: "\<exists>r D'. post_entry E ?x D3 = Inr (r, D')" for D3
    by (rule post_entry_total)
  show ?thesis
    unfolding deployToLoan_def none option.case assms(2) chain_Inr Let_def fresh_def
    using p assms(1) by (auto simp: chain_def split: sum.splits)
      (metis Inl_Inr_False)+
qed

definition sample_pool :: "string \<Rightarrow> decimal \<Rightarrow> decimal option \<Rightarrow> pool" where
  "sample_pool i capital limit =
     \<lparr>po_id = i, po_tenant = ''t'', po_name = i, po_type = INVESTOR, po_status = POOL_ACTIVE,
      po_currency = ''NGN'', po_external = None,
      po_rules = no_rules\<lparr>ru_initial_capital := Some capital, ru_max_deployed := limit\<rparr>, po_created = 0\<rparr>"

definition pool_db :: db where
  "pool_db = empty_db\<lparr>db_pools := [sample_pool ''p'' 100 (Some 60)]\<rparr>"

definition system_actor :: treasury_actor where
  "system_actor = \<lparr>ta_id = None, ta_role = Some SYSTEM\<rparr>"

lemmas pool_eval = pool_outstanding_def pool_deployed_def pool_released_def pool_losses_def
  pool_allocs_def getPoolSummary_def getPool_def rules_capital_def computeAvailableFromRules_def
  candidate_pools_def resolveFundingPoolForLoan_def assertCanDeploy_def resolveAvailable_def
  sample_pool_def no_rules_def Let_def

lemma pool_db_resolves:
  "resolveFundingPoolForLoan exact_ops ''t'' 40 pool_db = Inr (sample_pool ''p'' 100 (Some 60))"
  by (simp add: pool_eval pool_db_def empty_db_def)

lemma pool_db_deploys:
  "\<exists>i D'. deployToLoan sample_env exact_ops ''t'' ''loan'' 40 ''NGN'' ''k'' system_actor pool_db = Inr ((i, ''p''), D')"
proof -
  have "find (\<lambda>a. al_loan a = ''loan'') (db_allocs pool_db) = None" by (simp add: pool_db_def empty_db_def)
  from deploy_exists [OF this pool_db_resolves, of system_actor sample_env "''NGN''" "''k''"] show ?thesis
    by (simp add: system_actor_def) (simp add: sample_pool_def)
qed

theorem deployment_respects_limits_witness:
  "\<exists>i D'. deployToLoan sample_env exact_ops ''t'' ''loan'' 40 ''NGN'' ''k'' system_actor pool_db = Inr ((i, ''p''), D') \<and>
     pool_outstanding ''t'' ''p'' D' \<le> 60"
proof -
  obtain i D' where d: "deployToLoan sample_env exact_ops ''t'' ''loan'' 40 ''NGN'' ''k'' system_actor pool_db =
      Inr ((i, ''p''), D')" using pool_db_deploys by blast
  have "loan_alloc ''t'' ''loan'' pool_db = None" "is_cents 40"
    by (simp_all add: pool_db_def empty_db_def loan_alloc_def is_cents_def)
  from deployment_respects_limits [OF d this] have "pool_outstanding ''t'' ''p'' D' \<le> 60"
    by (simp add: pool_db_def sample_pool_def)
  with d show ?thesis by blast
qed

text \<open>
  Deploying is idempotent per loan: once a loan is funded, any further deployment to it
  returns the same allocation and pool and changes nothing.
\<close>

lemma deployment_is_idempotent:
  assumes "deployToLoan E R t loan amount cur key actor D = Inr ((i, p), D')"
  shows "deployToLoan E' R' t loan amount' cur' key' actor' D' = Inr ((i, p), D')"
proof (cases "loan_alloc t loan D")
  case (Some a)
  with assms show ?thesis by (auto simp: deployToLoan_def)
next
  case None
  from assms this show ?thesis
  proof (cases rule: deploy_cases)
    case (1 pool x D3 r D4)
    then have "loan_alloc t loan D' = Some x"
      using None by (simp add: loan_alloc_def find_append)
    then show ?thesis using 1(4,6) by (simp add: deployToLoan_def)
  qed
qed

lemma deployment_is_idempotent_witness:
  "\<exists>i D'. deployToLoan sample_env exact_ops ''t'' ''loan'' 40 ''NGN'' ''k'' system_actor pool_db = Inr ((i, ''p''), D') \<and>
     deployToLoan sample_env exact_ops ''t'' ''loan'' 90 ''NGN'' ''other'' system_actor D' = Inr ((i, ''p''), D')"
  using pool_db_deploys deployment_is_idempotent by blast

text \<open>The book of an allocation: what came back and what was lost is at most what was deployed.\<close>

definition alloc_ok :: "allocation \<Rightarrow> bool" where
  "alloc_ok a \<longleftrightarrow> is_cents (al_deployed a) \<and> is_cents (al_released a) \<and> is_cents (al_written_off a) \<and>
     0 \<le> al_released a \<and> 0 \<le> al_written_off a \<and> al_released a + al_written_off a \<le> al_deployed a"

definition allocs_ok :: "db \<Rightarrow> bool" where
  "allocs_ok D \<longleftrightarrow> distinct (map al_id (db_allocs D)) \<and> (\<forall>a \<in> set (db_allocs D). alloc_ok a)"

lemma update_alloc:
  assumes ok: "allocs_ok D" and a: "loan_alloc t loan D = Some a"
    and f: "alloc_ok (f a)" "\<And>b. al_id (f b) = al_id b"
  shows "allocs_ok (D\<lparr>db_allocs := update_where (\<lambda>b. al_id b = al_id a) f (db_allocs D)\<rparr>)"
proof -
  from find_SomeD [OF a [unfolded loan_alloc_def]] have mem: "a \<in> set (db_allocs D)" by simp
  have "b = a" if "b \<in> set (db_allocs D)" "al_id b = al_id a" for b
    using that mem ok by (auto simp: allocs_ok_def distinct_map inj_on_def)
  then have "\<forall>b \<in> set (update_where (\<lambda>b. al_id b = al_id a) f (db_allocs D)). alloc_ok b"
    using ok f(1) by (intro update_where_all) (auto simp: allocs_ok_def)
  moreover have "map al_id (update_where (\<lambda>b. al_id b = al_id a) f (db_allocs D)) = map al_id (db_allocs D)"
    by (rule map_update_where) (rule f(2))
  ultimately show ?thesis using ok by (simp add: allocs_ok_def)
qed

text \<open>What a write-off that is booked did.\<close>

lemma write_off_cases:
  assumes "applyWriteOff E t loan amount cur key actor D = Inr D'"
  obtains (nothing) "D' = D"
  | (booked) a w r where "loan_alloc t loan D = Some a" "0 < w" "w \<le> amount"
      "w \<le> al_deployed a - al_released a - al_written_off a"
      "w = min (max 0 (al_deployed a - al_released a - al_written_off a)) amount"
      "post_entry E (capital_entry E t loan cur actor E_WRITE_OFF (''capital:writeoff:'' @ key)
         (''Capital write-off from pool '' @ al_pool a) CAPITAL_POOL_LOSSES CAPITAL_POOL_DEPLOYED w)
         (D\<lparr>db_allocs := update_where (\<lambda>b. al_id b = al_id a)
            (\<lambda>b. b\<lparr>al_written_off := money (al_written_off a + w), al_status := A_WRITTEN_OFF\<rparr>)
            (db_allocs D)\<rparr>) = Inr (r, D')"
proof (cases "amount \<le> 0 \<or> loan_alloc t loan D = None")
  case True
  with assms have "D' = D" by (auto simp: applyWriteOff_def split: if_splits)
  then show thesis by (rule nothing)
next
  case False
  then obtain a where a: "loan_alloc t loan D = Some a" "0 < amount" by auto
  let ?out = "max 0 (al_deployed a - al_released a - al_written_off a)"
  show thesis
  proof (cases "?out \<le> 0")
    case True
    with assms a have "D' = D" by (auto simp: applyWriteOff_def Let_def)
    then show thesis by (rule nothing)
  next
    case False
    let ?w = "min ?out amount"
    from assms a False obtain r where
      "post_entry E (capital_entry E t loan cur actor E_WRITE_OFF (''capital:writeoff:'' @ key)
         (''Capital write-off from pool '' @ al_pool a) CAPITAL_POOL_LOSSES CAPITAL_POOL_DEPLOYED ?w)
         (D\<lparr>db_allocs := update_where (\<lambda>b. al_id b = al_id a)
            (\<lambda>b. b\<lparr>al_written_off := money (al_written_off a + ?w), al_status := A_WRITTEN_OFF\<rparr>)
            (db_allocs D)\<rparr>) = Inr (r, D')"
      unfolding applyWriteOff_def Let_def
      by (auto simp: chain_eq_Inr split: prod.splits)
    from booked [OF a(1) _ _ _ refl this] a(2) False show thesis by (auto simp: max_def split: if_splits)
  qed
qed

text \<open>
  Writing off never takes more than what is out: it keeps the book of every allocation (what
  came back plus what was lost is at most what was deployed) and every ledger entry balanced.
\<close>

lemma write_off_keeps_books:
  assumes "allocs_ok D" "\<forall>e \<in> set (db_entries D). entry_balanced e" "is_cents amount"
    and "applyWriteOff E t loan amount cur key actor D = Inr D'"
  shows "allocs_ok D' \<and> (\<forall>e \<in> set (db_entries D'). entry_balanced e)"
  using assms(4)
proof (cases rule: write_off_cases)
  case nothing
  with assms show ?thesis by simp
next
  case (booked a w r)
  from find_SomeD [OF booked(1) [unfolded loan_alloc_def]] have a: "alloc_ok a"
    using assms(1) by (simp add: allocs_ok_def)
  then have w: "is_cents w" using assms(3) unfolding booked(5) by (auto simp: alloc_ok_def)
  let ?D1 = "D\<lparr>db_allocs := update_where (\<lambda>b. al_id b = al_id a)
            (\<lambda>b. b\<lparr>al_written_off := money (al_written_off a + w), al_status := A_WRITTEN_OFF\<rparr>)
            (db_allocs D)\<rparr>"
  have "allocs_ok ?D1"
    by (rule update_alloc [OF assms(1) booked(1)]) (use a w booked(2,4) in \<open>auto simp: alloc_ok_def\<close>)
  then have "allocs_ok D'" using post_entry_other_tables [OF booked(6)] by (simp add: allocs_ok_def)
  moreover have "\<forall>e \<in> set (db_entries D'). entry_balanced e"
    by (rule tl.post_good [OF booked(6) capital_cents [OF w]]) (use assms(2) in simp)
  ultimately show ?thesis by blast
qed

definition alloc_db :: db where
  "alloc_db = empty_db\<lparr>db_allocs := [\<lparr>al_id = ''a'', al_tenant = ''t'', al_pool = ''p'', al_loan = ''loan'',
      al_status = A_DEPLOYED, al_reserved = 40, al_deployed = 40, al_released = 15, al_written_off = 0,
      al_created = 0\<rparr>]\<rparr>"

lemma write_off_exists:
  assumes "assertRoleCanPost (ta_role actor) E_WRITE_OFF = Inr ()"
  shows "\<exists>D'. applyWriteOff E t loan amount cur key actor D = Inr D'"
proof -
  have "trim (''capital:writeoff:'' @ key) \<noteq> ''''"
    using trim_nonempty [of "CHR ''c''"] by (simp add: is_space_def)
  then have "post_guards (capital_entry E t loan cur actor E_WRITE_OFF (''capital:writeoff:'' @ key) memo d c w)"
    if "0 < w" for w memo d c
    using capital_guards [OF that assms] by blast
  then have p: "\<exists>r D'. post_entry E (capital_entry E t loan cur actor E_WRITE_OFF (''capital:writeoff:'' @ key)
      memo d c w) D1 = Inr (r, D')" if "0 < w" for w memo d c D1
    using post_entry_total that by blast
  show ?thesis
  proof (cases "loan_alloc t loan D")
    case (Some a)
    let ?out = "max 0 (al_deployed a - al_released a - al_written_off a)"
    show ?thesis
    proof (cases "amount \<le> 0 \<or> ?out \<le> 0")
      case False
      then have "0 < min ?out amount" by auto
      from p [OF this] obtain r D' where
        "post_entry E (capital_entry E t loan cur actor E_WRITE_OFF (''capital:writeoff:'' @ key)
           (''Capital write-off from pool '' @ al_pool a) CAPITAL_POOL_LOSSES CAPITAL_POOL_DEPLOYED
           (min ?out amount))
         (D\<lparr>db_allocs := update_where (\<lambda>b. al_id b = al_id a)
            (\<lambda>b. b\<lparr>al_written_off := money (al_written_off a + min ?out amount), al_status := A_WRITTEN_OFF\<rparr>)
            (db_allocs D)\<rparr>) = Inr (r, D')" by blast
      with Some False show ?thesis unfolding applyWriteOff_def Let_def by simp
    qed (use Some in \<open>auto simp: applyWriteOff_def Let_def\<close>)
  qed (simp add: applyWriteOff_def)
qed

lemma write_off_keeps_books_witness:
  "\<exists>D'. applyWriteOff sample_env ''t'' ''loan'' 30 ''NGN'' ''k'' system_actor alloc_db = Inr D' \<and> allocs_ok D'"
proof -
  have "assertRoleCanPost (ta_role system_actor) E_WRITE_OFF = Inr ()" by (simp add: system_actor_def)
  from write_off_exists [OF this] obtain D' where
    d: "applyWriteOff sample_env ''t'' ''loan'' 30 ''NGN'' ''k'' system_actor alloc_db = Inr D'" by blast
  have "allocs_ok alloc_db" "\<forall>e \<in> set (db_entries alloc_db). entry_balanced e" "is_cents 30"
    by (simp_all add: alloc_db_def empty_db_def allocs_ok_def alloc_ok_def is_cents_def)
  from write_off_keeps_books [OF this d] d show ?thesis by blast
qed

text \<open>
  Only the first candidate is tried: there are two active pools, the second of which passes
  the exposure guard, and yet no pool is found, because the guard throws on the first.
\<close>

lemma second_pool_is_never_tried:
  "\<exists>D p. p \<in> set (db_pools D) \<and> po_status p = POOL_ACTIVE \<and> po_tenant p = ''t'' \<and>
     assertCanDeploy exact_ops ''t'' (po_id p) 40 None (po_rules p) D = Inr () \<and>
     resolveFundingPoolForLoan exact_ops ''t'' 40 D =
       Inl (BadRequest ''Capital pool max deployed amount would be exceeded.'')"
proof -
  let ?D = "empty_db\<lparr>db_pools := [sample_pool ''p'' 100 (Some 20), sample_pool ''q'' 60 None]\<rparr>"
  show ?thesis
    by (rule exI [of _ ?D], rule exI [of _ "sample_pool ''q'' 60 None"])
      (simp add: pool_eval empty_db_def)
qed

end
