(* ===== verification/Tenancy.thy ===== *)
theory Tenancy
  imports DataModel
begin

text \<open>
  \<open>common/tenancy/tenant-guard.ts\<close> and the tenant-scoped lookup of \<open>tenant-prisma.ts\<close>: the
  tenant id of a request is trimmed and must match a pattern, and a scoped lookup never returns
  a row of another tenant.
\<close>

definition is_alnum :: "char \<Rightarrow> bool" where
  "is_alnum c =
     (let n = of_char c :: nat
      in (48 \<le> n \<and> n \<le> 57) \<or> (65 \<le> n \<and> n \<le> 90) \<or> (97 \<le> n \<and> n \<le> 122))"

text \<open>\<open>/^[a-zA-Z0-9][a-zA-Z0-9:_-]{2,127}$/\<close>\<close>

fun tenant_pattern :: "string \<Rightarrow> bool" where
  "tenant_pattern [] = False"
| "tenant_pattern (c # cs) =
     (is_alnum c \<and> 2 \<le> length cs \<and> length cs \<le> 127 \<and>
      list_all (\<lambda>d. is_alnum d \<or> d = CHR '':'' \<or> d = CHR ''_'' \<or> d = CHR ''-'') cs)"

definition requireTenantId :: "string option \<Rightarrow> string outcome" where
  "requireTenantId tenantId =
     (let normalized = (case tenantId of None \<Rightarrow> '''' | Some t \<Rightarrow> trim t)
      in if normalized = '''' \<or> \<not> tenant_pattern normalized
         then Inl (Forbidden ''Tenant context is required from JWT.'')
         else Inr normalized)"

definition ensureTenantMatch :: "string \<Rightarrow> string \<Rightarrow> unit outcome" where
  "ensureTenantMatch entityTenantId t =
     (if entityTenantId \<noteq> t then Inl (NotFound ''Resource not found.'') else Inr ())"

definition find_loan :: "string \<Rightarrow> string \<Rightarrow> db \<Rightarrow> loan option" where
  "find_loan t i D = find (\<lambda>l. l_id l = i \<and> l_tenant l = t) (db_loans D)"

lemma find_loanD: "find_loan t i D = Some l \<Longrightarrow> l \<in> set (db_loans D) \<and> l_id l = i \<and> l_tenant l = t"
  unfolding find_loan_def by (drule find_SomeD) auto

lemma ensureTenantMatch_Inr [simp]: "ensureTenantMatch a b = Inr u \<longleftrightarrow> a = b"
  by (simp add: ensureTenantMatch_def)

text \<open>The admin a request comes from, \<open>common/auth/tenant-admin-principal.ts\<close>.\<close>

record principal =
  pc_admin :: string
  pc_tenant :: string
  pc_role :: admin_role

text \<open>The borrower a request comes from, \<open>common/auth/borrower-principal.ts\<close>.\<close>

record borrower =
  bo_id :: string
  bo_tenant :: string
  bo_phone :: string

end
