(* ===== verification/Repayment.thy ===== *)
theory Repayment
  imports Treasury Idempotency FinanceInvariants Tenancy
begin

text \<open>
  \<open>loan/repayment/repayment.service.ts\<close>: allocating a repayment to the instalments of a loan, and
  posting it in one transaction (schedule, repayment row, ledger, treasury, loan), under the
  tenant's idempotency. \<open>modules/loan-applications/repayment-allocation.ts\<close> is the allocation
  against the outstanding totals of a loan.
\<close>

section \<open>Allocation to outstanding totals\<close>

record allocation_result =
  ar_fees :: decimal
  ar_interest :: decimal
  ar_principal :: decimal
  ar_remaining :: decimal

definition allocateRepayment :: "decimal \<Rightarrow> decimal \<Rightarrow> decimal \<Rightarrow> decimal \<Rightarrow> allocation_result" where
  "allocateRepayment amount outFees outInterest outPrincipal =
     (let feesPaid = min outFees amount;
          left1 = amount - feesPaid;
          interestPaid = min outInterest left1;
          left2 = left1 - interestPaid;
          principalPaid = min outPrincipal left2
      in \<lparr>ar_fees = feesPaid, ar_interest = interestPaid, ar_principal = principalPaid,
          ar_remaining = left2 - principalPaid\<rparr>)"

section \<open>Allocation to the schedule\<close>

record item_payment =
  ip_item :: string
  ip_no :: nat
  ip_principal :: decimal
  ip_interest :: decimal
  ip_fees :: decimal
  ip_total :: decimal

record item_update =
  iu_id :: string
  iu_principal :: decimal
  iu_interest :: decimal
  iu_fees :: decimal
  iu_total :: decimal
  iu_status :: item_status
  iu_paid_at :: "int option"

record alloc_state =
  as_left :: decimal
  as_payments :: "item_payment list"
  as_updates :: "item_update list"
  as_principal :: decimal
  as_interest :: decimal
  as_fees :: decimal

definition isPaid :: "decimal \<Rightarrow> decimal \<Rightarrow> bool" where
  "isPaid paid due \<longleftrightarrow> due - EPSILON \<le> paid"

definition normalizeStatus :: "int \<Rightarrow> decimal \<Rightarrow> decimal \<Rightarrow> int \<Rightarrow> item_status" where
  "normalizeStatus dueDate paid due today =
     (if isPaid paid due then SI_PAID
      else if dueDate < today then SI_OVERDUE
      else if 0 < paid then SI_PARTIAL else SI_PENDING)"

definition overdue_unpaid :: "int \<Rightarrow> sched_item \<Rightarrow> bool" where
  "overdue_unpaid today i \<longleftrightarrow> si_due i < today \<and> \<not> isPaid (si_total_paid i) (si_total_due i)"

definition orderedItems :: "int \<Rightarrow> sched_item list \<Rightarrow> sched_item list" where
  "orderedItems today items =
     filter (overdue_unpaid today) items @ filter (\<lambda>i. \<not> overdue_unpaid today i) items"

definition remaining_of :: "decimal \<Rightarrow> decimal \<Rightarrow> decimal" where
  "remaining_of due paid = money (max 0 (due - paid))"

text \<open>One turn of the loop, when there is something left to allocate.\<close>

definition allocate_item :: "int \<Rightarrow> int \<Rightarrow> sched_item \<Rightarrow> alloc_state \<Rightarrow> alloc_state" where
  "allocate_item paidAt today i s =
     (let remainingFees = remaining_of (si_fees_due i) (si_fees_paid i);
          remainingInterest = remaining_of (si_interest_due i) (si_interest_paid i);
          remainingPrincipal = remaining_of (si_principal_due i) (si_principal_paid i);
          feesPaid = money (min remainingFees (as_left s));
          left1 = money (as_left s - feesPaid);
          interestPaid = money (min remainingInterest left1);
          left2 = money (left1 - interestPaid);
          principalPaid = money (min remainingPrincipal left2);
          left3 = money (left2 - principalPaid);
          itemPaid = money (feesPaid + interestPaid + principalPaid)
      in if itemPaid \<le> 0 then s\<lparr>as_left := left3\<rparr>
         else
           let nextTotalPaid = money (si_total_paid i + itemPaid);
               status = normalizeStatus (si_due i) nextTotalPaid (si_total_due i) today
           in \<lparr>as_left = left3,
               as_payments = as_payments s @
                 [\<lparr>ip_item = si_id i, ip_no = si_no i, ip_principal = principalPaid,
                   ip_interest = interestPaid, ip_fees = feesPaid, ip_total = itemPaid\<rparr>],
               as_updates = as_updates s @
                 [\<lparr>iu_id = si_id i, iu_principal = money (si_principal_paid i + principalPaid),
                   iu_interest = money (si_interest_paid i + interestPaid),
                   iu_fees = money (si_fees_paid i + feesPaid), iu_total = nextTotalPaid,
                   iu_status = status,
                   iu_paid_at = (if status = SI_PAID then Some paidAt else None)\<rparr>],
               as_principal = money (as_principal s + principalPaid),
               as_interest = money (as_interest s + interestPaid),
               as_fees = money (as_fees s + feesPaid)\<rparr>)"

fun allocate_loop :: "int \<Rightarrow> int \<Rightarrow> sched_item list \<Rightarrow> alloc_state \<Rightarrow> alloc_state" where
  "allocate_loop paidAt today [] s = s"
| "allocate_loop paidAt today (i # is) s =
     (if as_left s \<le> 0 then s
      else allocate_loop paidAt today is (allocate_item paidAt today i s))"

definition alloc_start :: "decimal \<Rightarrow> alloc_state" where
  "alloc_start amount = \<lparr>as_left = amount, as_payments = [], as_updates = [],
     as_principal = 0, as_interest = 0, as_fees = 0\<rparr>"

definition allocateRepaymentToSchedule :: "decimal \<Rightarrow> sched_item list \<Rightarrow> int \<Rightarrow> int \<Rightarrow> alloc_state" where
  "allocateRepaymentToSchedule amount items paidAt today =
     allocate_loop paidAt today (orderedItems today items) (alloc_start amount)"

section \<open>Posting a repayment\<close>

record repay_actor =
  ra_admin :: "string option"
  ra_role :: admin_role

record repay_input =
  ri_tenant :: string
  ri_loan :: string
  ri_amount :: decimal
  ri_posted_at :: "int option"
  ri_channel :: "channel option"
  ri_reference :: "string option"
  ri_key :: "string option"
  ri_actor :: repay_actor

record repay_result =
  rr_id :: string
  rr_principal :: decimal
  rr_interest :: decimal
  rr_fees :: decimal
  rr_total :: decimal
  rr_next_due :: "int option"
  rr_status :: loan_status

text \<open>The text of a date and of a decimal in a key.\<close>

record texts =
  tx_date :: "int \<Rightarrow> string"
  tx_decimal :: "decimal \<Rightarrow> string"

definition channel_name :: "channel \<Rightarrow> string" where
  "channel_name c = (case c of CH_MANUAL \<Rightarrow> ''MANUAL'' | CH_BANK_TRANSFER \<Rightarrow> ''BANK_TRANSFER''
     | CH_CARD \<Rightarrow> ''CARD'' | CH_USSD \<Rightarrow> ''USSD'' | CH_CASH \<Rightarrow> ''CASH'')"

definition posted_at :: "env \<Rightarrow> repay_input \<Rightarrow> int" where
  "posted_at E x = (case ri_posted_at x of None \<Rightarrow> ev_now E | Some d \<Rightarrow> d)"

definition channel_of :: "repay_input \<Rightarrow> channel" where
  "channel_of x = (case ri_channel x of None \<Rightarrow> CH_MANUAL | Some c \<Rightarrow> c)"

definition repay_key :: "env \<Rightarrow> texts \<Rightarrow> repay_input \<Rightarrow> string" where
  "repay_key E T x =
     (case trim_or_null (ri_key x) of
        Some k \<Rightarrow> k
      | None \<Rightarrow> ''repayment:auto:'' @ ri_loan x @ '':'' @ tx_date T (posted_at E x) @ '':'' @
          tx_decimal T (money (ri_amount x)) @ '':'' @ channel_name (channel_of x))"

definition loan_items :: "string \<Rightarrow> string \<Rightarrow> db \<Rightarrow> sched_item list" where
  "loan_items t loan D =
     sort_key (\<lambda>i. (si_due i, si_no i))
       (filter (\<lambda>i. si_tenant i = t \<and> si_loan i = loan) (db_items D))"

definition mark_overdue :: "string \<Rightarrow> string \<Rightarrow> int \<Rightarrow> db \<Rightarrow> db" where
  "mark_overdue t loan today D =
     D\<lparr>db_items := update_where
          (\<lambda>i. si_tenant i = t \<and> si_loan i = loan \<and> si_status i \<noteq> SI_PAID \<and> si_due i < today)
          (\<lambda>i. i\<lparr>si_status := SI_OVERDUE\<rparr>) (db_items D)\<rparr>"

definition apply_item_update :: "item_update \<Rightarrow> db \<Rightarrow> db" where
  "apply_item_update u D =
     D\<lparr>db_items := update_where (\<lambda>i. si_id i = iu_id u)
          (\<lambda>i. i\<lparr>si_fees_paid := iu_fees u, si_interest_paid := iu_interest u,
                 si_principal_paid := iu_principal u, si_total_paid := iu_total u,
                 si_status := iu_status u, si_paid_at := iu_paid_at u\<rparr>) (db_items D)\<rparr>"

definition repayment_lines :: "channel \<Rightarrow> decimal \<Rightarrow> alloc_state \<Rightarrow> line_input list" where
  "repayment_lines ch actualPosted s =
     [\<lparr>li_code = (if ch = CH_CASH then CASH_ON_HAND else BANK_CLEARING), li_direction = DEBIT,
       li_amount = actualPosted\<rparr>] @
     (if 0 < as_fees s
      then [\<lparr>li_code = FEES_RECEIVABLE, li_direction = CREDIT, li_amount = as_fees s\<rparr>] else []) @
     (if 0 < as_interest s
      then [\<lparr>li_code = INTEREST_RECEIVABLE, li_direction = CREDIT, li_amount = as_interest s\<rparr>] else []) @
     (if 0 < as_principal s
      then [\<lparr>li_code = LOAN_PRINCIPAL_RECEIVABLE, li_direction = CREDIT, li_amount = as_principal s\<rparr>] else []) @
     (if 0 < as_left s
      then [\<lparr>li_code = SUSPENSE, li_direction = CREDIT, li_amount = as_left s\<rparr>] else [])"

definition repayment_row ::
  "string \<Rightarrow> string \<Rightarrow> loan \<Rightarrow> int \<Rightarrow> channel \<Rightarrow> repay_input \<Rightarrow> decimal \<Rightarrow> string \<Rightarrow> repayment" where
  "repayment_row t key l postedAt ch x amount i =
     \<lparr>rp_id = i, rp_tenant = t, rp_loan = l_id l, rp_key = key, rp_amount = amount,
      rp_currency = l_currency l, rp_posted_at = postedAt, rp_channel = ch,
      rp_reference = trim_or_null (ri_reference x),
      rp_created_by = trim_or_null (ra_admin (ri_actor x))\<rparr>"

definition repayment_entry ::
  "string \<Rightarrow> loan \<Rightarrow> int \<Rightarrow> repay_input \<Rightarrow> string \<Rightarrow> line_input list \<Rightarrow> entry_input" where
  "repayment_entry t l postedAt x i lines =
     \<lparr>ei_tenant = t, ei_occurred = postedAt, ei_type = E_REPAYMENT,
      ei_key = ''repayment:'' @ i, ei_ref_type = ''LoanApplication'', ei_ref_id = l_id l,
      ei_currency = Some (l_currency l), ei_created_by = ra_admin (ri_actor x),
      ei_role = Some (ra_role (ri_actor x)), ei_memo = Some (''Repayment posted '' @ i),
      ei_lines = lines\<rparr>"

definition capital_actor :: "repay_input \<Rightarrow> treasury_actor" where
  "capital_actor x = \<lparr>ta_id = ra_admin (ri_actor x), ta_role = Some (ra_role (ri_actor x))\<rparr>"

text \<open>The rows, the ledger entry and the move of capital of a repayment.\<close>

definition book_repayment ::
  "env \<Rightarrow> string \<Rightarrow> string \<Rightarrow> loan \<Rightarrow> decimal \<Rightarrow> int \<Rightarrow> channel \<Rightarrow> repay_input \<Rightarrow> alloc_state \<Rightarrow> db \<Rightarrow>
     ((string \<times> decimal) \<times> db) outcome" where
  "book_repayment E t key l amount postedAt ch x s D =
     (let D1 = fold apply_item_update (as_updates s) D;
          actualPosted = money (amount - as_left s)
      in if actualPosted \<le> 0
         then Inl (BadRequest ''Repayment amount could not be allocated to any installment.'')
         else if find (\<lambda>r. rp_tenant r = t \<and> rp_key r = key) (db_repayments D1) \<noteq> None
         then Inl (Conflict ''Repayment with this idempotencyKey already processed.'')
         else case fresh E D1 of (i, D2) \<Rightarrow>
           let D3 = D2\<lparr>db_repayments := db_repayments D2 @
                 [repayment_row t key l postedAt ch x actualPosted i]\<rparr>
           in chain (post_entry E
                (repayment_entry t l postedAt x i (repayment_lines ch actualPosted s)) D3) (\<lambda>(_, D4).
              chain (applyPrincipalRepayment E t (l_id l) (as_principal s) (l_currency l) i
                   (capital_actor x) D4) (\<lambda>D5.
              Inr ((i, actualPosted), D5))))"

definition outstanding_by :: "(sched_item \<Rightarrow> decimal) \<Rightarrow> (sched_item \<Rightarrow> decimal) \<Rightarrow> sched_item list \<Rightarrow> decimal" where
  "outstanding_by due paid items = money (\<Sum>i\<leftarrow>items. max 0 (due i - paid i))"

definition overdue_note :: string where
  "overdue_note = ''Loan has overdue installments''"

definition note_overdue :: "string \<Rightarrow> loan \<Rightarrow> string option \<Rightarrow> sched_item list \<Rightarrow> db \<Rightarrow> db" where
  "note_overdue t l by items D =
     (if (\<exists>i \<in> set items. si_status i = SI_OVERDUE) \<and>
         find (\<lambda>h. hi_tenant h = t \<and> hi_loan h = l_id l \<and> hi_from h = Some LS_DISBURSED \<and>
                   hi_to h = LS_DISBURSED \<and> starts_with (case hi_note h of None \<Rightarrow> '''' | Some n \<Rightarrow> n) overdue_note) (db_history D) = None
      then D\<lparr>db_history := db_history D @
             [\<lparr>hi_tenant = t, hi_loan = l_id l, hi_from = Some LS_DISBURSED, hi_to = LS_DISBURSED,
               hi_note = Some (overdue_note @ ''.''), hi_by = by\<rparr>]\<rparr>
      else D)"

definition settled_loan ::
  "decimal \<Rightarrow> decimal \<Rightarrow> decimal \<Rightarrow> decimal \<Rightarrow> int option \<Rightarrow> loan_status \<Rightarrow> int \<Rightarrow> loan \<Rightarrow> loan" where
  "settled_loan outPrincipal outInterest outFees outTotal nextDue nextStatus postedAt m =
     m\<lparr>l_out_principal := outPrincipal, l_out_interest := outInterest,
       l_out_fees := outFees, l_out_total := outTotal, l_next_due := nextDue,
       l_repaid_at := (if nextStatus = LS_REPAID then Some postedAt else None),
       l_status := (if nextStatus = LS_REPAID then LS_REPAID else l_status m)\<rparr>"

text \<open>The new balances and status of the loan, and the calls that follow.\<close>

definition settle_loan ::
  "env \<Rightarrow> string \<Rightarrow> loan \<Rightarrow> int \<Rightarrow> repay_input \<Rightarrow> string \<Rightarrow> decimal \<Rightarrow> db \<Rightarrow>
     (repay_result \<times> db) outcome" where
  "settle_loan E t l postedAt x i actualPosted D =
     (let items = loan_items t (l_id l) D;
          outPrincipal = outstanding_by si_principal_due si_principal_paid items;
          outInterest = outstanding_by si_interest_due si_interest_paid items;
          outFees = outstanding_by si_fees_due si_fees_paid items;
          outTotal = money (outPrincipal + outInterest + outFees);
          nextDue = map_option si_due (find (\<lambda>i. si_status i \<noteq> SI_PAID) items);
          by = trim_or_null (ra_admin (ri_actor x));
          role = ra_role (ri_actor x);
          D1 = note_overdue t l by items D;
          nextStatus = (if outTotal \<le> EPSILON then LS_REPAID
                        else if l_status l = LS_OVERDUE then LS_OVERDUE else LS_DISBURSED)
      in chain (if nextStatus = LS_REPAID
                then chain (assertValidTransition (l_status l) LS_REPAID)
                       (\<lambda>_. assertRoleCanTransition role (l_status l) LS_REPAID)
                else Inr ()) (\<lambda>_.
         chain (assertLoanNonNegative outPrincipal outInterest outFees outTotal) (\<lambda>_.
         chain (assertLoanCanClose nextStatus outTotal) (\<lambda>_.
         if trim (l_phone l) = ''''
         then Inl (BadRequest ''borrowerId is required for behavior snapshot update.'')
         else
           let D2 = D1\<lparr>db_loans := update_where (\<lambda>m. l_id m = l_id l)
                 (settled_loan outPrincipal outInterest outFees outTotal nextDue nextStatus postedAt)
                 (db_loans D1)\<rparr>;
               D3 = (if nextStatus = LS_REPAID
                     then D2\<lparr>db_history := db_history D2 @
                        [\<lparr>hi_tenant = t, hi_loan = l_id l, hi_from = Some (l_status l), hi_to = LS_REPAID,
                          hi_note = Some ''Loan fully repaid by repayment posting.'', hi_by = by\<rparr>]\<rparr>
                     else D2);
               admins = map au_id (filter (\<lambda>a. au_tenant a = t \<and>
                  (au_role a = OPS \<or> au_role a = COLLECTIONS \<or> au_role a = SUPER_ADMIN)) (db_admins D3))
           in Inr (\<lparr>rr_id = i, rr_principal = outPrincipal, rr_interest = outInterest,
                    rr_fees = outFees, rr_total = outTotal, rr_next_due = nextDue,
                    rr_status = nextStatus\<rparr>,
                emit (OutboxEvent ''repayment.posted'' (l_id l) actualPosted)
                (emit (BehaviorSnapshot (trim (l_phone l)) actualPosted postedAt)
                (emit (RepaymentPosted i (l_id l) actualPosted admins)
                (emit (Audit ''REPAYMENT_APPLIED'' ''TENANT_LOAN_APPLICATION'' (l_id l)) D3))))))))"

definition repayment_tx ::
  "env \<Rightarrow> string \<Rightarrow> string \<Rightarrow> decimal \<Rightarrow> repay_input \<Rightarrow> db \<Rightarrow> (repay_result \<times> db) outcome" where
  "repayment_tx E t key amount x D =
     (case find_loan t (ri_loan x) D of
        None \<Rightarrow> Inl (NotFound ''Loan application not found.'')
      | Some l \<Rightarrow>
          chain (ensureTenantMatch (l_tenant l) t) (\<lambda>_.
          if l_status l \<noteq> LS_DISBURSED \<and> l_status l \<noteq> LS_OVERDUE
          then Inl (BadRequest ''Repayments are only allowed for DISBURSED/OVERDUE loans.'')
          else
            let today = ev_now E;
                D1 = mark_overdue t (l_id l) today D;
                pendingItems = filter (\<lambda>i. si_status i \<noteq> SI_PAID) (loan_items t (l_id l) D1)
            in if pendingItems = []
               then Inl (BadRequest ''No schedule items available for repayment.'')
               else
                 let s = allocateRepaymentToSchedule amount pendingItems (posted_at E x) today
                 in chain (book_repayment E t key l amount (posted_at E x) (channel_of x) x s D1)
                      (\<lambda>((i, actualPosted), D2). settle_loan E t l (posted_at E x) x i actualPosted D2)))"

definition repayment_hash :: "env \<Rightarrow> texts \<Rightarrow> repay_input \<Rightarrow> string" where
  "repayment_hash E T x =
     ri_loan x @ '':'' @ tx_decimal T (money (ri_amount x)) @ '':'' @ tx_date T (posted_at E x) @ '':'' @
     channel_name (channel_of x) @ '':'' @ (case ri_reference x of None \<Rightarrow> '''' | Some r \<Rightarrow> r)"

definition repayment_operation ::
  "env \<Rightarrow> string \<Rightarrow> string \<Rightarrow> decimal \<Rightarrow> repay_input \<Rightarrow> (repay_result, db) operation" where
  "repayment_operation E t key amount x D =
     chain (repayment_tx E t key amount x D) (\<lambda>(r, D'). Inr (Some r, D'))"

text \<open>
  \<open>postRepayment\<close>: the transaction under the idempotency key, then an audit event and the check of
  the loan's invariants, both outside it. The operation always gives a result.
\<close>

definition postRepayment ::
  "env \<Rightarrow> texts \<Rightarrow> repay_input \<Rightarrow> (repay_result, db) idem_state \<Rightarrow>
     repay_result outcome \<times> (repay_result, db) idem_state" where
  "postRepayment E T x S =
     (case requireTenantId (Some (ri_tenant x)) of
        Inl e \<Rightarrow> (Inl e, S)
      | Inr t \<Rightarrow>
          let amount = money (ri_amount x)
          in if amount \<le> 0 then (Inl (BadRequest ''amount must be greater than zero.''), S)
             else
               let key = repay_key E T x;
                   q = \<lparr>rq_tenant = t, rq_scope = ''REPAYMENT'', rq_key = key,
                        rq_hash = Some (repayment_hash E T x)\<rparr>
               in case withIdempotency E q (repayment_operation E t key amount x) S of
                    (Inl e, S1) \<Rightarrow> (Inl e, S1)
                  | (Inr None, S1) \<Rightarrow> (Inl (Internal ''no result''), S1)
                  | (Inr (Some r), S1) \<Rightarrow>
                      let D1 = emit (AuditEvent ''REPAYMENT.POST'' ''Repayment'' (rr_id r)) (im_data S1)
                      in case assertLoanInvariants E (ri_loan x) D1 of
                           (Inl e, D2) \<Rightarrow> (Inl e, S1\<lparr>im_data := D2\<rparr>)
                         | (Inr _, D2) \<Rightarrow> (Inr r, S1\<lparr>im_data := D2\<rparr>))"

end
