(* ===== verification/RepaymentProofs.thy ===== *)
theory RepaymentProofs
  imports Repayment
begin

text \<open>
  What a repayment does: the allocation is the greedy filling of the instalments in order, and a
  posted repayment lowers the outstanding balance by exactly its amount.
\<close>

section \<open>The reference allocation\<close>

text \<open>
  The shares of an amount: every instalment in turn takes what it still needs, or what is left.
  Within an instalment fees come first, then interest, then principal.
\<close>

definition rem_total :: "sched_item \<Rightarrow> decimal" where
  "rem_total i = si_total_due i - si_total_paid i"

fun shares :: "decimal \<Rightarrow> sched_item list \<Rightarrow> (sched_item \<times> decimal) list" where
  "shares a [] = []"
| "shares a (i # is) = (i, min a (rem_total i)) # shares (a - min a (rem_total i)) is"

definition share_fees :: "sched_item \<times> decimal \<Rightarrow> decimal" where
  "share_fees p = min (si_fees_due (fst p) - si_fees_paid (fst p)) (snd p)"

definition share_interest :: "sched_item \<times> decimal \<Rightarrow> decimal" where
  "share_interest p = min (si_interest_due (fst p) - si_interest_paid (fst p)) (snd p - share_fees p)"

definition share_principal :: "sched_item \<times> decimal \<Rightarrow> decimal" where
  "share_principal p = snd p - share_fees p - share_interest p"

definition share_payment :: "sched_item \<times> decimal \<Rightarrow> item_payment" where
  "share_payment p =
     \<lparr>ip_item = si_id (fst p), ip_no = si_no (fst p), ip_principal = share_principal p,
      ip_interest = share_interest p, ip_fees = share_fees p, ip_total = snd p\<rparr>"

definition share_update :: "int \<Rightarrow> int \<Rightarrow> sched_item \<times> decimal \<Rightarrow> item_update" where
  "share_update paidAt today p =
     (let i = fst p; paid = si_total_paid i + snd p;
          status = normalizeStatus (si_due i) paid (si_total_due i) today
      in \<lparr>iu_id = si_id i, iu_principal = si_principal_paid i + share_principal p,
          iu_interest = si_interest_paid i + share_interest p,
          iu_fees = si_fees_paid i + share_fees p, iu_total = paid, iu_status = status,
          iu_paid_at = (if status = SI_PAID then Some paidAt else None)\<rparr>)"

definition paying :: "decimal \<Rightarrow> sched_item list \<Rightarrow> (sched_item \<times> decimal) list" where
  "paying a items = filter (\<lambda>p. 0 < snd p) (shares a items)"

section \<open>One instalment\<close>

lemma rem_total_parts:
  assumes "item_ok i"
  shows "rem_total i = (si_fees_due i - si_fees_paid i) + (si_interest_due i - si_interest_paid i) +
      (si_principal_due i - si_principal_paid i)"
    "0 \<le> rem_total i" "is_cents (rem_total i)"
  using assms item_ok_cents [OF assms] by (auto simp: rem_total_def item_ok_def)

lemma remaining_of_ok: "is_cents d \<Longrightarrow> is_cents p \<Longrightarrow> p \<le> d \<Longrightarrow> remaining_of d p = d - p"
  by (simp add: remaining_of_def)

text \<open>Taking three amounts in turn from \<open>L\<close>.\<close>

lemma waterfall:
  fixes L f n p :: decimal
  assumes "0 \<le> L" "0 \<le> f" "0 \<le> n" "0 \<le> p"
  shows "min f L + min n (L - min f L) + min p (L - min f L - min n (L - min f L)) = min L (f + n + p)"
    "min f L = min f (min L (f + n + p))"
    "min n (L - min f L) = min n (min L (f + n + p) - min f L)"
  using assms by (auto simp: min_def)

lemma share_bounds:
  assumes "item_ok i" "0 \<le> w" "w \<le> rem_total i" "is_cents w"
  shows "0 \<le> share_fees (i, w)" "share_fees (i, w) \<le> si_fees_due i - si_fees_paid i"
    "0 \<le> share_interest (i, w)" "share_interest (i, w) \<le> si_interest_due i - si_interest_paid i"
    "0 \<le> share_principal (i, w)" "share_principal (i, w) \<le> si_principal_due i - si_principal_paid i"
    "is_cents (share_fees (i, w))" "is_cents (share_interest (i, w))" "is_cents (share_principal (i, w))"
proof -
  note c = item_ok_cents [OF assms(1)] rem_total_parts [OF assms(1)]
  show "is_cents (share_fees (i, w))" "is_cents (share_interest (i, w))" "is_cents (share_principal (i, w))"
    using c assms(4) by (simp_all add: share_fees_def share_interest_def share_principal_def)
  show "0 \<le> share_fees (i, w)" "share_fees (i, w) \<le> si_fees_due i - si_fees_paid i"
    "0 \<le> share_interest (i, w)" "share_interest (i, w) \<le> si_interest_due i - si_interest_paid i"
    "0 \<le> share_principal (i, w)" "share_principal (i, w) \<le> si_principal_due i - si_principal_paid i"
    using assms(1-3) c(2) unfolding share_fees_def share_interest_def share_principal_def item_ok_def
    by (auto simp: min_def)
qed

lemma allocate_item_share:
  assumes i: "item_ok i" and s: "is_cents (as_left s)" "0 < as_left s"
    "is_cents (as_principal s)" "is_cents (as_interest s)" "is_cents (as_fees s)"
  defines "w \<equiv> min (as_left s) (rem_total i)"
  shows "allocate_item paidAt today i s =
    (if w \<le> 0 then s\<lparr>as_left := as_left s - w\<rparr>
     else \<lparr>as_left = as_left s - w, as_payments = as_payments s @ [share_payment (i, w)],
           as_updates = as_updates s @ [share_update paidAt today (i, w)],
           as_principal = as_principal s + share_principal (i, w),
           as_interest = as_interest s + share_interest (i, w),
           as_fees = as_fees s + share_fees (i, w)\<rparr>)"
proof -
  note c = item_ok_cents [OF i]
  let ?f = "si_fees_due i - si_fees_paid i" and ?n = "si_interest_due i - si_interest_paid i"
    and ?p = "si_principal_due i - si_principal_paid i" and ?L = "as_left s"
  have nonneg: "0 \<le> ?f" "0 \<le> ?n" "0 \<le> ?p" using i by (auto simp: item_ok_def)
  have r: "remaining_of (si_fees_due i) (si_fees_paid i) = ?f"
    "remaining_of (si_interest_due i) (si_interest_paid i) = ?n"
    "remaining_of (si_principal_due i) (si_principal_paid i) = ?p"
    using i c by (auto simp: item_ok_def intro!: remaining_of_ok)
  have w: "w = min ?L (?f + ?n + ?p)" by (simp only: w_def rem_total_parts(1) [OF i])
  have wc: "is_cents w" using c s(1) by (simp add: w_def rem_total_def)
  note wf = waterfall [OF less_imp_le [OF s(2)] nonneg, folded w]
  have f: "min ?f ?L = share_fees (i, w)" using wf(2) by (simp add: share_fees_def)
  have n: "min ?n (?L - share_fees (i, w)) = share_interest (i, w)"
    using wf(3) f by (simp add: share_interest_def)
  have p: "min ?p (?L - share_fees (i, w) - share_interest (i, w)) = share_principal (i, w)"
    using wf(1) unfolding f n share_principal_def by simp
  have cs: "is_cents (share_fees (i, w))" "is_cents (share_interest (i, w))" "is_cents (share_principal (i, w))"
    using share_bounds [OF i _ _ wc] rem_total_parts(2) [OF i] s(2) by (auto simp: w_def)
  have sum: "share_fees (i, w) + share_interest (i, w) + share_principal (i, w) = w"
    by (simp add: share_principal_def)
  have left: "?L - share_fees (i, w) - share_interest (i, w) - share_principal (i, w) = ?L - w"
    using sum by simp
  show ?thesis
    unfolding allocate_item_def Let_def r
    by (simp add: f n p cs s c sum left wc item_ok_cents [OF i] share_payment_def share_update_def Let_def
        money_cents)
qed

section \<open>The loop\<close>

definition state_cents :: "alloc_state \<Rightarrow> bool" where
  "state_cents s \<longleftrightarrow> is_cents (as_left s) \<and> is_cents (as_principal s) \<and> is_cents (as_interest s) \<and>
     is_cents (as_fees s)"

lemma shares_done:
  assumes "\<forall>i \<in> set items. item_ok i" "a \<le> 0"
  shows "paying a items = []"
proof -
  have "\<forall>p \<in> set (shares b items). snd p \<le> 0" if "b \<le> 0" "\<forall>i \<in> set items. item_ok i" for b
    using that
  proof (induction items arbitrary: b)
    case (Cons i js)
    then have "min b (rem_total i) = b" using rem_total_parts(2) [of i] by simp
    moreover have "\<forall>p \<in> set (shares 0 js). snd p \<le> 0" using Cons.IH [of 0] Cons.prems(2) by auto
    ultimately show ?case using Cons.prems(1) by simp
  qed simp
  then show ?thesis using assms unfolding paying_def filter_empty_conv by fastforce
qed

lemma paying_Cons:
  "paying a (i # is) = (if 0 < min a (rem_total i) then (i, min a (rem_total i)) # paying (a - min a (rem_total i)) is
     else paying (a - min a (rem_total i)) is)"
  by (simp add: paying_def)

lemma share_cents:
  assumes "item_ok i" "is_cents a" "0 \<le> a"
  shows "is_cents (share_principal (i, min a (rem_total i)))"
    "is_cents (share_interest (i, min a (rem_total i)))" "is_cents (share_fees (i, min a (rem_total i)))"
  using share_bounds(7-9) [OF assms(1), of "min a (rem_total i)"] rem_total_parts [OF assms(1)] assms(2,3)
  by auto

lemma allocate_loop_paying:
  assumes "\<forall>i \<in> set items. item_ok i" "state_cents s" "0 \<le> as_left s"
  defines "ps \<equiv> paying (as_left s) items"
  shows "allocate_loop paidAt today items s =
    \<lparr>as_left = as_left s - (\<Sum>p\<leftarrow>ps. snd p), as_payments = as_payments s @ map share_payment ps,
     as_updates = as_updates s @ map (share_update paidAt today) ps,
     as_principal = as_principal s + (\<Sum>p\<leftarrow>ps. share_principal p),
     as_interest = as_interest s + (\<Sum>p\<leftarrow>ps. share_interest p),
     as_fees = as_fees s + (\<Sum>p\<leftarrow>ps. share_fees p)\<rparr> \<and> 0 \<le> as_left s - (\<Sum>p\<leftarrow>ps. snd p)"
  using assms(1-3) unfolding ps_def
proof (induction items arbitrary: s)
  case Nil
  then show ?case by (simp add: paying_def)
next
  case (Cons i items)
  show ?case
  proof (cases "as_left s \<le> 0")
    case True
    with Cons.prems shares_done [OF Cons.prems(1)] show ?thesis by simp
  next
    case False
    let ?w = "min (as_left s) (rem_total i)"
    have ok: "item_ok i" "\<forall>i \<in> set items. item_ok i" using Cons.prems(1) by auto
    let ?s' = "allocate_item paidAt today i s"
    note c = share_cents [OF ok(1), of "as_left s"] rem_total_parts(2,3) [OF ok(1)]
    have s': "?s' = (if ?w \<le> 0 then s\<lparr>as_left := as_left s - ?w\<rparr>
     else \<lparr>as_left = as_left s - ?w, as_payments = as_payments s @ [share_payment (i, ?w)],
           as_updates = as_updates s @ [share_update paidAt today (i, ?w)],
           as_principal = as_principal s + share_principal (i, ?w),
           as_interest = as_interest s + share_interest (i, ?w),
           as_fees = as_fees s + share_fees (i, ?w)\<rparr>)"
      using allocate_item_share [OF ok(1)] Cons.prems(2) False by (simp add: state_cents_def)
    have inv: "state_cents ?s'" "0 \<le> as_left ?s'"
      using Cons.prems(2,3) c unfolding s' state_cents_def by auto
    have left: "as_left ?s' = as_left s - ?w" unfolding s' by simp
    have step: "allocate_loop paidAt today (i # items) s = allocate_loop paidAt today items ?s'"
      using False by simp
    note IH = Cons.IH [OF ok(2) inv, unfolded left]
    show ?thesis
    proof (cases "?w \<le> 0")
      case True
      then have "paying (as_left s) (i # items) = paying (as_left s - ?w) items" "?w = 0"
        using c(4) False Cons.prems(3) by (auto simp: paying_Cons min_def)
      with IH True show ?thesis unfolding step s' by simp
    next
      case w: False
      then have p: "paying (as_left s) (i # items) = (i, ?w) # paying (as_left s - ?w) items"
        by (simp only: paying_Cons not_le if_True)
      from IH w show ?thesis unfolding step p s' by (simp add: algebra_simps)
    qed
  qed
qed

lemma paying_facts:
  assumes "\<forall>i \<in> set items. item_ok i" "is_cents a" "0 \<le> a"
  shows "\<forall>p \<in> set (paying a items). fst p \<in> set items \<and> 0 < snd p \<and> snd p \<le> rem_total (fst p) \<and> is_cents (snd p)"
    "(\<Sum>p\<leftarrow>paying a items. snd p) = min a (\<Sum>i\<leftarrow>items. rem_total i)"
    "distinct (map si_id items) \<Longrightarrow> distinct (map (\<lambda>p. si_id (fst p)) (paying a items))"
proof -
  show "\<forall>p \<in> set (paying a items). fst p \<in> set items \<and> 0 < snd p \<and> snd p \<le> rem_total (fst p) \<and> is_cents (snd p)"
    using assms
  proof (induction items arbitrary: a)
    case (Cons i items)
    then have "is_cents (rem_total i)" using rem_total_parts(3) by simp
    with Cons.prems Cons.IH [of "a - min a (rem_total i)"] show ?case by (auto simp: paying_Cons)
  qed (simp add: paying_def)
  show "(\<Sum>p\<leftarrow>paying a items. snd p) = min a (\<Sum>i\<leftarrow>items. rem_total i)"
    using assms
  proof (induction items arbitrary: a)
    case (Cons i items)
    let ?w = "min a (rem_total i)"
    have r: "0 \<le> rem_total i" "is_cents (rem_total i)" using Cons.prems(1) rem_total_parts by auto
    have "(\<Sum>p\<leftarrow>paying (a - ?w) items. snd p) = min (a - ?w) (\<Sum>i\<leftarrow>items. rem_total i)"
      using Cons r by (intro Cons.IH) auto
    moreover have "0 \<le> (\<Sum>i\<leftarrow>items. rem_total i)"
      using Cons.prems(1) rem_total_parts(2) by (intro sum_list_map_nonneg) auto
    ultimately show ?case using r Cons.prems(3) by (auto simp: paying_Cons min_def)
  qed (simp add: paying_def)
  show "distinct (map (\<lambda>p. si_id (fst p)) (paying a items))" if "distinct (map si_id items)"
  proof -
    have "map (\<lambda>p. si_id (fst p)) (shares a items) = map si_id items"
      by (induction items arbitrary: a) simp_all
    then have "distinct (map (\<lambda>p. si_id (fst p)) (shares a items))" using that by simp
    then show ?thesis unfolding paying_def by (rule distinct_map_filter)
  qed
qed

lemma alloc_start_ok: "is_cents a \<Longrightarrow> state_cents (alloc_start a)"
  by (simp add: alloc_start_def state_cents_def)

lemma ordered_set [simp]: "set (orderedItems today items) = set items"
  by (auto simp: orderedItems_def)

lemma sum_filter_split:
  "(\<Sum>x\<leftarrow>filter P xs. f x) + (\<Sum>x\<leftarrow>filter (\<lambda>x. \<not> P x) xs. f x) = ((\<Sum>x\<leftarrow>xs. f x) :: decimal)"
  by (induction xs) auto

lemma ordered_sum: "(\<Sum>i\<leftarrow>orderedItems today items. f i) = ((\<Sum>i\<leftarrow>items. f i) :: decimal)"
  by (simp add: orderedItems_def sum_filter_split)

lemma ordered_distinct: "distinct (map si_id items) \<Longrightarrow> distinct (map si_id (orderedItems today items))"
  by (auto simp: orderedItems_def distinct_map_filter dest: distinct_map [THEN iffD1])
    (auto simp: distinct_map inj_on_def)

text \<open>The allocation, in terms of the shares.\<close>

lemma allocation_paying:
  fixes today :: int
  assumes "\<forall>i \<in> set items. item_ok i" "is_cents a" "0 \<le> a"
  defines "ps \<equiv> paying a (orderedItems today items)"
  shows "allocateRepaymentToSchedule a items paidAt today =
    \<lparr>as_left = a - (\<Sum>p\<leftarrow>ps. snd p), as_payments = map share_payment ps,
     as_updates = map (share_update paidAt today) ps,
     as_principal = (\<Sum>p\<leftarrow>ps. share_principal p), as_interest = (\<Sum>p\<leftarrow>ps. share_interest p),
     as_fees = (\<Sum>p\<leftarrow>ps. share_fees p)\<rparr>"
proof -
  have o: "\<forall>i \<in> set (orderedItems today items). item_ok i" using assms(1) by simp
  have s: "as_left (alloc_start a) = a" "0 \<le> as_left (alloc_start a)"
    using assms(3) by (simp_all add: alloc_start_def)
  show ?thesis
    using allocate_loop_paying [OF o alloc_start_ok [OF assms(2)] s(2), of paidAt today]
    unfolding allocateRepaymentToSchedule_def ps_def by (simp add: alloc_start_def)
qed

lemma share_sum:
  "(\<Sum>p\<leftarrow>ps. share_fees p) + (\<Sum>p\<leftarrow>ps. share_interest p) + (\<Sum>p\<leftarrow>ps. share_principal p) = (\<Sum>p\<leftarrow>ps. snd p)"
  by (induction ps) (auto simp: share_principal_def)

section \<open>Updating the schedule\<close>

text \<open>What a loan still owes according to its schedule.\<close>

definition loan_outstanding :: "string \<Rightarrow> string \<Rightarrow> db \<Rightarrow> decimal" where
  "loan_outstanding t loan D =
     (\<Sum>i\<leftarrow>filter (\<lambda>i. si_tenant i = t \<and> si_loan i = loan) (db_items D). rem_total i)"

definition items_ok :: "db \<Rightarrow> bool" where
  "items_ok D \<longleftrightarrow> distinct (map si_id (db_items D)) \<and> (\<forall>i \<in> set (db_items D). item_ok i)"

definition updated :: "int \<Rightarrow> int \<Rightarrow> sched_item \<times> decimal \<Rightarrow> sched_item \<Rightarrow> sched_item" where
  "updated paidAt today p i =
     (let u = share_update paidAt today p
      in i\<lparr>si_fees_paid := iu_fees u, si_interest_paid := iu_interest u,
           si_principal_paid := iu_principal u, si_total_paid := iu_total u,
           si_status := iu_status u, si_paid_at := iu_paid_at u\<rparr>)"

lemma updated_fields:
  "si_principal_due (updated a b p i) = si_principal_due i"
  "si_interest_due (updated a b p i) = si_interest_due i"
  "si_fees_due (updated a b p i) = si_fees_due i"
  "si_total_due (updated a b p i) = si_total_due i"
  "si_principal_paid (updated a b p i) = si_principal_paid (fst p) + share_principal p"
  "si_interest_paid (updated a b p i) = si_interest_paid (fst p) + share_interest p"
  "si_fees_paid (updated a b p i) = si_fees_paid (fst p) + share_fees p"
  "si_total_paid (updated a b p i) = si_total_paid (fst p) + snd p"
  by (simp_all add: updated_def share_update_def Let_def)

lemma add_within: "0 \<le> a \<Longrightarrow> 0 \<le> b \<Longrightarrow> b \<le> d - a \<Longrightarrow> 0 \<le> a + b \<and> a + b \<le> (d :: decimal)"
  by simp

lemma updated_ok:
  assumes "item_ok i" "0 \<le> w" "w \<le> rem_total i" "is_cents w"
  shows "item_ok (updated paidAt today (i, w) i)" "rem_total (updated paidAt today (i, w) i) = rem_total i - w"
proof -
  note b = share_bounds [OF assms] and c = item_ok_cents [OF assms(1)]
  have sum: "share_fees (i, w) + share_interest (i, w) + share_principal (i, w) = w"
    by (simp add: share_principal_def)
  have "item_cents (updated paidAt today (i, w) i)"
    unfolding item_cents_def [of "updated paidAt today (i, w) i"] updated_fields fst_conv snd_conv
    using c b(7-9) assms(4) by simp
  moreover have "0 \<le> si_fees_paid i" "0 \<le> si_interest_paid i" "0 \<le> si_principal_paid i"
    and parts: "si_total_due i = si_principal_due i + si_interest_due i + si_fees_due i"
      "si_total_paid i = si_principal_paid i + si_interest_paid i + si_fees_paid i"
    using assms(1) by (simp_all add: item_ok_def)
  note within = add_within [OF this(1) b(1,2)] add_within [OF this(2) b(3,4)] add_within [OF this(3) b(5,6)]
  moreover have "si_total_paid i + w = (si_principal_paid i + share_principal (i, w)) +
      (si_interest_paid i + share_interest (i, w)) + (si_fees_paid i + share_fees (i, w))"
    unfolding parts(2) using sum by linarith
  ultimately show "item_ok (updated paidAt today (i, w) i)"
    unfolding item_ok_def updated_fields fst_conv snd_conv using parts(1) by blast
  show "rem_total (updated paidAt today (i, w) i) = rem_total i - w"
    by (simp add: rem_total_def updated_fields)
qed

lemma updated_simps [simp]:
  "si_id (updated a b p i) = si_id i" "si_tenant (updated a b p i) = si_tenant i"
  "si_loan (updated a b p i) = si_loan i" "si_total_due (updated a b p i) = si_total_due i"
  by (simp_all add: updated_def Let_def)

lemma apply_share:
  "apply_item_update (share_update paidAt today p) D =
     D\<lparr>db_items := update_where (\<lambda>i. si_id i = si_id (fst p)) (updated paidAt today p) (db_items D)\<rparr>"
proof -
  have "iu_id (share_update paidAt today p) = si_id (fst p)" by (simp add: share_update_def Let_def)
  then show ?thesis by (simp only: apply_item_update_def updated_def [abs_def] Let_def)
qed

lemma loan_outstanding_sum:
  "loan_outstanding t loan D =
     (\<Sum>i\<leftarrow>db_items D. if si_tenant i = t \<and> si_loan i = loan then rem_total i else 0)"
  unfolding loan_outstanding_def by (rule sum_list_map_filter')

lemma apply_one_share:
  fixes paidAt today :: int
  assumes ok: "items_ok D" and p: "i \<in> set (db_items D)" "0 \<le> w" "w \<le> rem_total i" "is_cents w"
    "si_tenant i = t" "si_loan i = loan"
  defines "D1 \<equiv> apply_item_update (share_update paidAt today (i, w)) D"
  shows "items_ok D1" "loan_outstanding t loan D1 = loan_outstanding t loan D - w"
    "db_items D1 = update_where (\<lambda>j. si_id j = si_id i) (updated paidAt today (i, w)) (db_items D)"
proof -
  have dist: "distinct (map si_id (db_items D))" and i: "item_ok i"
    using ok p(1) by (auto simp: items_ok_def)
  show items: "db_items D1 = update_where (\<lambda>j. si_id j = si_id i) (updated paidAt today (i, w)) (db_items D)"
    by (simp add: D1_def apply_share)
  have same: "j = i" if "j \<in> set (db_items D)" "si_id j = si_id i" for j
    using dist that p(1) by (auto simp: distinct_map inj_on_def)
  have "\<forall>j \<in> set (db_items D1). item_ok j"
    unfolding items
    by (rule update_where_all) (use ok same updated_ok [OF i p(2-4)] in \<open>auto simp: items_ok_def\<close>)
  then show "items_ok D1" using dist by (simp add: items_ok_def items map_update_where)
  let ?f = "\<lambda>j. if si_tenant j = t \<and> si_loan j = loan then rem_total j else 0"
  have "(\<Sum>j\<leftarrow>db_items D1. ?f j) = (\<Sum>j\<leftarrow>db_items D. ?f j) + (?f (updated paidAt today (i, w) i) - ?f i)"
    unfolding items by (rule sum_update_where [OF dist p(1)])
  then show "loan_outstanding t loan D1 = loan_outstanding t loan D - w"
    using p(5,6) updated_ok(2) [OF i p(2-4)] by (simp add: loan_outstanding_sum)
qed

lemma apply_shares:
  assumes "items_ok D" "distinct (map (\<lambda>p. si_id (fst p)) ps)"
    and "\<forall>p \<in> set ps. fst p \<in> set (db_items D) \<and> 0 < snd p \<and> snd p \<le> rem_total (fst p) \<and> is_cents (snd p) \<and>
      si_tenant (fst p) = t \<and> si_loan (fst p) = loan"
  shows "items_ok (fold apply_item_update (map (share_update paidAt today) ps) D) \<and>
    loan_outstanding t loan (fold apply_item_update (map (share_update paidAt today) ps) D) =
      loan_outstanding t loan D - (\<Sum>p\<leftarrow>ps. snd p)"
  using assms
proof (induction ps arbitrary: D)
  case (Cons p ps)
  obtain i w where p: "p = (i, w)" by (cases p)
  let ?D1 = "apply_item_update (share_update paidAt today (i, w)) D"
  have one: "items_ok ?D1" "loan_outstanding t loan ?D1 = loan_outstanding t loan D - w"
    "db_items ?D1 = update_where (\<lambda>j. si_id j = si_id i) (updated paidAt today (i, w)) (db_items D)"
    using apply_one_share [OF Cons.prems(1), of i w t loan] Cons.prems(3) p by simp_all
  have "fst q \<in> set (db_items ?D1)" if "q \<in> set ps" for q
  proof -
    have "si_id (fst q) \<in> set (map (\<lambda>p. si_id (fst p)) ps)" using that by simp
    moreover have "si_id i \<notin> set (map (\<lambda>p. si_id (fst p)) ps)" using Cons.prems(2) p by simp
    ultimately have "si_id (fst q) \<noteq> si_id i" by metis
    moreover have "fst q \<in> set (db_items D)" using that Cons.prems(3) by simp
    ultimately show ?thesis unfolding one(3) set_update_where by auto
  qed
  then have "items_ok (fold apply_item_update (map (share_update paidAt today) ps) ?D1) \<and>
    loan_outstanding t loan (fold apply_item_update (map (share_update paidAt today) ps) ?D1) =
      loan_outstanding t loan ?D1 - (\<Sum>p\<leftarrow>ps. snd p)"
    using Cons.prems one(1) by (intro Cons.IH) auto
  then show ?case using one(2) by (simp add: p)
qed simp

lemma fold_updates_frame:
  "fold apply_item_update us D = D\<lparr>db_items := db_items (fold apply_item_update us D)\<rparr>"
proof (induction us arbitrary: D)
  case (Cons u us)
  show ?case by (simp, subst Cons.IH) (simp add: apply_item_update_def)
qed simp

lemma updates_other_tables [simp]:
  "db_loans (fold apply_item_update us D) = db_loans D"
  "db_repayments (fold apply_item_update us D) = db_repayments D"
  "db_entries (fold apply_item_update us D) = db_entries D"
  "db_seq (fold apply_item_update us D) = db_seq D"
  by (subst fold_updates_frame, simp)+

lemma mark_overdue_ok:
  assumes "items_ok D"
  shows "items_ok (mark_overdue t loan today D)"
proof -
  let ?P = "\<lambda>i. si_tenant i = t \<and> si_loan i = loan \<and> si_status i \<noteq> SI_PAID \<and> si_due i < today"
  have ok: "item_ok (i\<lparr>si_status := s\<rparr>) = item_ok i" for i s
    unfolding item_ok_def item_cents_def by simp
  have ids: "map si_id (update_where ?P (\<lambda>i. i\<lparr>si_status := SI_OVERDUE\<rparr>) (db_items D)) = map si_id (db_items D)"
    by (rule map_update_where) simp
  have "\<forall>i \<in> set (update_where ?P (\<lambda>i. i\<lparr>si_status := SI_OVERDUE\<rparr>) (db_items D)). item_ok i"
    by (rule update_where_all) (use assms in \<open>simp_all add: items_ok_def ok\<close>)
  then show ?thesis using assms by (simp add: items_ok_def mark_overdue_def ids)
qed

lemma mark_overdue_outstanding:
  "loan_outstanding t' loan' (mark_overdue t loan today D) = loan_outstanding t' loan' D"
proof -
  let ?P = "\<lambda>i. si_tenant i = t \<and> si_loan i = loan \<and> si_status i \<noteq> SI_PAID \<and> si_due i < today"
  let ?f = "\<lambda>i. if si_tenant i = t' \<and> si_loan i = loan' then rem_total i else 0"
  have "map ?f (update_where ?P (\<lambda>i. i\<lparr>si_status := SI_OVERDUE\<rparr>) (db_items D)) = map ?f (db_items D)"
    by (rule map_update_where) (simp add: rem_total_def)
  then show ?thesis by (simp add: loan_outstanding_sum mark_overdue_def)
qed

section \<open>Booking\<close>

lemma principal_repayment_tables:
  assumes "applyPrincipalRepayment E t loan a cur key actor D = Inr D'"
  shows "db_loans D' = db_loans D" "db_items D' = db_items D" "db_repayments D' = db_repayments D"
    "db_history D' = db_history D" "db_effects D' = db_effects D"
proof -
  have "D' = D \<or> (\<exists>al f r x. post_entry E x (D\<lparr>db_allocs := update_where (\<lambda>b. al_id b = al) f (db_allocs D)\<rparr>) = Inr (r, D'))"
    using assms unfolding applyPrincipalRepayment_def Let_def
    by (auto simp: chain_eq_Inr split: if_splits option.splits prod.splits)
  then show "db_loans D' = db_loans D" "db_items D' = db_items D" "db_repayments D' = db_repayments D"
    "db_history D' = db_history D" "db_effects D' = db_effects D"
    using post_entry_other_tables by fastforce+
qed

lemma principal_repayment_balanced:
  assumes "applyPrincipalRepayment E t loan a cur key actor D = Inr D'" "is_cents a"
    and "\<forall>e \<in> set (db_entries D). entry_balanced e"
  shows "\<forall>e \<in> set (db_entries D'). entry_balanced e"
proof (cases "a \<le> 0 \<or> loan_alloc t loan D = None")
  case True
  with assms have "D' = D" by (auto simp: applyPrincipalRepayment_def split: if_splits)
  with assms show ?thesis by simp
next
  case False
  then obtain al where "loan_alloc t loan D = Some al" "0 < a" by auto
  with assms(1) obtain f memo r where
    "post_entry E (capital_entry E t loan cur actor E_ADJUSTMENT (''capital:repayment:'' @ key) memo
        CAPITAL_POOL_REPAID CAPITAL_POOL_DEPLOYED a)
      (D\<lparr>db_allocs := update_where (\<lambda>b. al_id b = al_id al) f (db_allocs D)\<rparr>) = Inr (r, D')"
    unfolding applyPrincipalRepayment_def Let_def
    by (auto simp: chain_eq_Inr split: prod.splits)
  from tl.post_good [OF this capital_cents [OF assms(2)]] assms(3) show ?thesis by simp
qed

lemma dir_sum_append [simp]: "dir_sum d (xs @ ys) = dir_sum d xs + dir_sum d ys"
  by (simp add: dir_sum_def)

lemma repayment_lines_sums:
  assumes "0 \<le> as_fees s" "0 \<le> as_interest s" "0 \<le> as_principal s" "0 \<le> as_left s"
  shows "dir_sum DEBIT (map line_pair (repayment_lines ch a s)) = a"
    "dir_sum CREDIT (map line_pair (repayment_lines ch a s)) =
       as_fees s + as_interest s + as_principal s + as_left s"
  using assms by (auto simp: repayment_lines_def line_pair_def)

text \<open>The parts of an allocation are non-negative and in whole kobo.\<close>

lemma paying_parts:
  assumes "\<forall>i \<in> set items. item_ok i" "is_cents a" "0 \<le> a"
  defines "ps \<equiv> paying a items"
  shows "0 \<le> (\<Sum>p\<leftarrow>ps. share_fees p)" "0 \<le> (\<Sum>p\<leftarrow>ps. share_interest p)" "0 \<le> (\<Sum>p\<leftarrow>ps. share_principal p)"
    "is_cents (\<Sum>p\<leftarrow>ps. share_fees p)" "is_cents (\<Sum>p\<leftarrow>ps. share_interest p)" "is_cents (\<Sum>p\<leftarrow>ps. share_principal p)"
    "is_cents (\<Sum>p\<leftarrow>ps. snd p)"
proof -
  have b: "0 \<le> share_fees p \<and> 0 \<le> share_interest p \<and> 0 \<le> share_principal p \<and>
      is_cents (share_fees p) \<and> is_cents (share_interest p) \<and> is_cents (share_principal p) \<and> is_cents (snd p)"
    if "p \<in> set ps" for p
  proof -
    obtain i w where p: "p = (i, w)" by (cases p)
    from paying_facts(1) [OF assms(1-3)] that have "item_ok i" "0 \<le> w" "w \<le> rem_total i" "is_cents w"
      using assms(1) by (auto simp: ps_def p)
    from share_bounds [OF this] this(4) show ?thesis by (simp add: p)
  qed
  show "0 \<le> (\<Sum>p\<leftarrow>ps. share_fees p)" "0 \<le> (\<Sum>p\<leftarrow>ps. share_interest p)" "0 \<le> (\<Sum>p\<leftarrow>ps. share_principal p)"
    using b by (auto intro!: sum_list_map_nonneg)
  show "is_cents (\<Sum>p\<leftarrow>ps. share_fees p)" "is_cents (\<Sum>p\<leftarrow>ps. share_interest p)" "is_cents (\<Sum>p\<leftarrow>ps. share_principal p)"
    "is_cents (\<Sum>p\<leftarrow>ps. snd p)"
    using b by (auto intro!: is_cents_sum_list)
qed

text \<open>What booking does when it succeeds.\<close>

lemma book_cases:
  assumes "book_repayment E t key l a postedAt ch x s D = Inr ((i, posted), D')"
  defines "D1 \<equiv> fold apply_item_update (as_updates s) D"
  obtains r D4 where "posted = money (a - as_left s)" "0 < posted" "i = ev_cuid E (db_seq D1)"
    "post_entry E (repayment_entry t l postedAt x i (repayment_lines ch posted s))
       (D1\<lparr>db_seq := Suc (db_seq D1),
           db_repayments := db_repayments D1 @ [repayment_row t key l postedAt ch x posted i]\<rparr>) = Inr (r, D4)"
    "applyPrincipalRepayment E t (l_id l) (as_principal s) (l_currency l) i (capital_actor x) D4 = Inr D'"
  using assms unfolding book_repayment_def Let_def fresh_def D1_def [symmetric]
  by (auto simp: chain_eq_Inr not_le split: if_splits prod.splits)

lemma book_repayment_facts:
  assumes ok: "items_ok D" and sub: "set items \<subseteq> set (db_items D)" "distinct (map si_id items)"
    and mine: "\<forall>i \<in> set items. si_tenant i = t \<and> si_loan i = l_id l"
    and a: "is_cents a" "0 \<le> a"
    and b: "book_repayment E t key l a postedAt ch x (allocateRepaymentToSchedule a items postedAt today) D =
      Inr ((i, posted), D')"
  shows "posted = a" "a \<le> (\<Sum>j\<leftarrow>items. rem_total j)" "items_ok D'"
    "loan_outstanding t (l_id l) D' = loan_outstanding t (l_id l) D - a"
    "db_loans D' = db_loans D"
    "\<exists>rp. db_repayments D' = db_repayments D @ [rp] \<and> rp_id rp = i \<and> rp_key rp = key \<and> rp_amount rp = a \<and>
       rp_tenant rp = t \<and> rp_loan rp = l_id l"
    "(\<forall>e \<in> set (db_entries D). entry_balanced e) \<Longrightarrow> (\<forall>e \<in> set (db_entries D'). entry_balanced e)"
proof -
  have items: "\<forall>i \<in> set items. item_ok i" using ok sub(1) by (auto simp: items_ok_def)
  let ?o = "orderedItems today items"
  let ?ps = "paying a ?o"
  let ?s = "allocateRepaymentToSchedule a items postedAt today"
  note s = allocation_paying [OF items a, of postedAt today]
  have o: "\<forall>i \<in> set ?o. item_ok i" using items by simp
  note parts = paying_parts [OF o a] and facts = paying_facts [OF o a]
  have sum: "(\<Sum>p\<leftarrow>?ps. snd p) = min a (\<Sum>j\<leftarrow>items. rem_total j)"
    using facts(2) by (simp add: ordered_sum)
  have total: "(\<Sum>p\<leftarrow>?ps. share_fees p) + (\<Sum>p\<leftarrow>?ps. share_interest p) + (\<Sum>p\<leftarrow>?ps. share_principal p) =
      (\<Sum>p\<leftarrow>?ps. snd p)" by (rule share_sum)
  have left: "as_left ?s = a - (\<Sum>p\<leftarrow>?ps. snd p)" "0 \<le> as_left ?s" "is_cents (as_left ?s)"
    using s sum parts(7) a by auto
  let ?D1 = "fold apply_item_update (as_updates ?s) D"
  let ?posted = "money (a - as_left ?s)"
  have posted: "?posted = (\<Sum>p\<leftarrow>?ps. snd p)" using left parts(7) by simp
  obtain r D4 where r: "posted = ?posted" "i = ev_cuid E (db_seq ?D1)"
    and p: "post_entry E (repayment_entry t l postedAt x i (repayment_lines ch posted ?s))
       (?D1\<lparr>db_seq := Suc (db_seq ?D1),
            db_repayments := db_repayments ?D1 @ [repayment_row t key l postedAt ch x posted i]\<rparr>) = Inr (r, D4)"
      (is "post_entry E ?x ?D3 = _")
    and tr: "applyPrincipalRepayment E t (l_id l) (as_principal ?s) (l_currency l) i (capital_actor x) D4 = Inr D'"
    by (rule book_cases [OF b])
  have nonneg: "0 \<le> as_fees ?s" "0 \<le> as_interest ?s" "0 \<le> as_principal ?s" using s parts by simp_all
  have "posted = as_fees ?s + as_interest ?s + as_principal ?s + as_left ?s"
    using post_entry_guards [OF p] repayment_lines_sums [OF nonneg left(2), of ch posted]
    by (simp add: post_guards_def repayment_entry_def)
  then have zero: "as_left ?s = 0" using r(1) posted total s by simp
  then show pa: "posted = a" using r(1) posted left(1) by simp
  show "a \<le> (\<Sum>j\<leftarrow>items. rem_total j)" using zero left(1) sum by simp
  have ps_mine: "\<forall>p \<in> set ?ps. fst p \<in> set (db_items D) \<and> 0 < snd p \<and> snd p \<le> rem_total (fst p) \<and> is_cents (snd p) \<and>
      si_tenant (fst p) = t \<and> si_loan (fst p) = l_id l"
    using facts(1) sub(1) mine by auto
  have D1: "items_ok ?D1" "loan_outstanding t (l_id l) ?D1 = loan_outstanding t (l_id l) D - a"
    using apply_shares [OF ok facts(3) [OF ordered_distinct [OF sub(2)]] ps_mine, of postedAt today] s zero left(1)
    by simp_all
  have tables: "db_items D' = db_items ?D1" "db_loans D' = db_loans D" "db_repayments D' = db_repayments ?D3"
    using principal_repayment_tables [OF tr] post_entry_other_tables [OF p] by simp_all
  show "items_ok D'" using D1(1) tables(1) by (simp add: items_ok_def)
  show "loan_outstanding t (l_id l) D' = loan_outstanding t (l_id l) D - a"
    using D1(2) tables(1) by (simp add: loan_outstanding_def)
  show "db_loans D' = db_loans D" by (rule tables(2))
  show "\<exists>rp. db_repayments D' = db_repayments D @ [rp] \<and> rp_id rp = i \<and> rp_key rp = key \<and> rp_amount rp = a \<and>
       rp_tenant rp = t \<and> rp_loan rp = l_id l"
    using tables(3) pa by (simp add: repayment_row_def)
  assume bal: "\<forall>e \<in> set (db_entries D). entry_balanced e"
  have "cents_input ?x"
    using s parts left(3) pa a(1) by (auto simp: cents_input_def repayment_lines_def repayment_entry_def)
  from tl.post_good [OF p this] bal have "\<forall>e \<in> set (db_entries D4). entry_balanced e" by simp
  with principal_repayment_balanced [OF tr] s parts(6) show "\<forall>e \<in> set (db_entries D'). entry_balanced e"
    by simp
qed

section \<open>Settling\<close>

lemma outstanding_by_ok:
  assumes "\<forall>i \<in> set items. item_ok i"
  shows "outstanding_by si_principal_due si_principal_paid items = (\<Sum>i\<leftarrow>items. si_principal_due i - si_principal_paid i)"
    "outstanding_by si_interest_due si_interest_paid items = (\<Sum>i\<leftarrow>items. si_interest_due i - si_interest_paid i)"
    "outstanding_by si_fees_due si_fees_paid items = (\<Sum>i\<leftarrow>items. si_fees_due i - si_fees_paid i)"
proof -
  have "outstanding_by d p items = (\<Sum>i\<leftarrow>items. d i - p i)"
    if "\<forall>i \<in> set items. p i \<le> d i \<and> is_cents (d i) \<and> is_cents (p i)" for d p
  proof -
    have "map (\<lambda>i. max 0 (d i - p i)) items = map (\<lambda>i. d i - p i) items" using that by auto
    moreover have "is_cents (\<Sum>i\<leftarrow>items. d i - p i)"
      using that by (auto intro!: is_cents_sum_list)
    ultimately show ?thesis by (simp only: outstanding_by_def money_cents)
  qed
  note * = this
  have "item_cents i \<and> si_principal_paid i \<le> si_principal_due i \<and> si_interest_paid i \<le> si_interest_due i \<and>
      si_fees_paid i \<le> si_fees_due i" if "i \<in> set items" for i
    using assms that unfolding item_ok_def by blast
  then show "outstanding_by si_principal_due si_principal_paid items = (\<Sum>i\<leftarrow>items. si_principal_due i - si_principal_paid i)"
    "outstanding_by si_interest_due si_interest_paid items = (\<Sum>i\<leftarrow>items. si_interest_due i - si_interest_paid i)"
    "outstanding_by si_fees_due si_fees_paid items = (\<Sum>i\<leftarrow>items. si_fees_due i - si_fees_paid i)"
    by (auto intro!: *)
qed

lemma loan_items_facts:
  assumes "items_ok D"
  shows "\<forall>i \<in> set (loan_items t loan D). item_ok i \<and> i \<in> set (db_items D) \<and> si_tenant i = t \<and> si_loan i = loan"
    "(\<Sum>i\<leftarrow>loan_items t loan D. rem_total i) = loan_outstanding t loan D"
    "distinct (map si_id (loan_items t loan D))"
proof -
  show "\<forall>i \<in> set (loan_items t loan D). item_ok i \<and> i \<in> set (db_items D) \<and> si_tenant i = t \<and> si_loan i = loan"
    using assms by (auto simp: items_ok_def loan_items_def)
  show "(\<Sum>i\<leftarrow>loan_items t loan D. rem_total i) = loan_outstanding t loan D"
    by (simp add: loan_items_def loan_outstanding_def sum_sort_key)
  let ?xs = "filter (\<lambda>i. si_tenant i = t \<and> si_loan i = loan) (db_items D)"
  have "distinct (map si_id ?xs)" using assms by (auto simp: items_ok_def intro: distinct_map_filter)
  moreover have "mset (map si_id (loan_items t loan D)) = mset (map si_id ?xs)"
    by (simp add: loan_items_def)
  ultimately show "distinct (map si_id (loan_items t loan D))" by (metis mset_eq_imp_distinct_iff)
qed

lemma settle_total:
  fixes t loan :: string
  assumes "items_ok D"
  defines "items \<equiv> loan_items t loan D"
  shows "money (outstanding_by si_principal_due si_principal_paid items +
      outstanding_by si_interest_due si_interest_paid items + outstanding_by si_fees_due si_fees_paid items) =
    loan_outstanding t loan D"
    "is_cents (loan_outstanding t loan D)" "0 \<le> loan_outstanding t loan D"
proof -
  note f = loan_items_facts [OF assms(1), of t loan, folded items_def]
  have ok: "\<forall>i \<in> set items. item_ok i" using f(1) by blast
  have r: "(\<Sum>i\<leftarrow>items. si_principal_due i - si_principal_paid i) + (\<Sum>i\<leftarrow>items. si_interest_due i - si_interest_paid i) +
      (\<Sum>i\<leftarrow>items. si_fees_due i - si_fees_paid i) = (\<Sum>i\<leftarrow>items. rem_total i)"
    using ok by (induction items) (auto simp: rem_total_parts(1))
  show c: "is_cents (loan_outstanding t loan D)"
    unfolding f(2) [symmetric] using ok rem_total_parts(3) by (auto intro!: is_cents_sum_list)
  show "0 \<le> loan_outstanding t loan D"
    unfolding f(2) [symmetric] using ok rem_total_parts(2) by (auto intro!: sum_list_map_nonneg)
  show "money (outstanding_by si_principal_due si_principal_paid items +
      outstanding_by si_interest_due si_interest_paid items + outstanding_by si_fees_due si_fees_paid items) =
    loan_outstanding t loan D"
    unfolding outstanding_by_ok [OF ok] r f(2) using c by simp
qed

lemma note_overdue_tables [simp]:
  "db_loans (note_overdue t l by items D) = db_loans D" "db_items (note_overdue t l by items D) = db_items D"
  "db_repayments (note_overdue t l by items D) = db_repayments D"
  "db_entries (note_overdue t l by items D) = db_entries D"
  by (simp_all add: note_overdue_def)

lemma settle_facts:
  assumes ok: "items_ok D" and st: "settle_loan E t l postedAt x i posted D = Inr (r, D')"
  shows "rr_id r = i" "rr_total r = loan_outstanding t (l_id l) D" "db_items D' = db_items D"
    "db_repayments D' = db_repayments D" "db_entries D' = db_entries D"
    "rr_status r = (if rr_total r \<le> EPSILON then LS_REPAID
       else if l_status l = LS_OVERDUE then LS_OVERDUE else LS_DISBURSED)"
    "rr_status r = LS_REPAID \<Longrightarrow> rr_total r = 0"
    "\<forall>m \<in> set (db_loans D'). l_id m = l_id l \<longrightarrow> l_out_total m = rr_total r"
    "rr_status r = LS_REPAID \<Longrightarrow> transition (ra_role (ri_actor x)) (l_status l) LS_REPAID = Inr LS_REPAID"
proof -
  note total = settle_total [OF ok, of t "l_id l"]
  let ?items = "loan_items t (l_id l) D"
  let ?by = "trim_or_null (ra_admin (ri_actor x))"
  let ?D1 = "note_overdue t l ?by ?items D"
  let ?status = "if loan_outstanding t (l_id l) D \<le> EPSILON then LS_REPAID
       else if l_status l = LS_OVERDUE then LS_OVERDUE else LS_DISBURSED"
  from st have guards: "?status = LS_REPAID \<longrightarrow>
      LS_REPAID \<in> set (getAllowedTransitions (l_status l)) \<and>
      roleCanTransition (ra_role (ri_actor x)) (l_status l) LS_REPAID"
    "?status = LS_REPAID \<longrightarrow> loan_outstanding t (l_id l) D = 0"
    unfolding settle_loan_def Let_def total by (auto simp: chain_eq_Inr assertLoanCanClose_Inr split: if_splits)
  from st show r: "rr_id r = i" "rr_total r = loan_outstanding t (l_id l) D" and
    status: "rr_status r = (if rr_total r \<le> EPSILON then LS_REPAID
       else if l_status l = LS_OVERDUE then LS_OVERDUE else LS_DISBURSED)"
    unfolding settle_loan_def Let_def total by (auto simp: chain_eq_Inr split: if_splits)
  from st show "db_items D' = db_items D" "db_repayments D' = db_repayments D" "db_entries D' = db_entries D"
    unfolding settle_loan_def Let_def total by (auto simp: chain_eq_Inr split: if_splits)
  from st obtain p f n d s where loans: "db_loans D' = update_where (\<lambda>m. l_id m = l_id l)
      (settled_loan p n f (loan_outstanding t (l_id l) D) d s postedAt) (db_loans D)"
    unfolding settle_loan_def Let_def total by (auto simp: chain_eq_Inr split: if_splits)
  show "\<forall>m \<in> set (db_loans D'). l_id m = l_id l \<longrightarrow> l_out_total m = rr_total r"
    unfolding loans r by (auto simp: set_update_where settled_loan_def)
  show "rr_status r = LS_REPAID \<Longrightarrow> rr_total r = 0"
    using guards(2) status r(2) by simp
  show "rr_status r = LS_REPAID \<Longrightarrow> transition (ra_role (ri_actor x)) (l_status l) LS_REPAID = Inr LS_REPAID"
    using guards(1) status r(2) by (simp add: transition_def chain_eq_Inr)
qed

section \<open>The transaction\<close>

lemma tx_cases:
  assumes "repayment_tx E t key a x D = Inr (r, D')"
  obtains l i posted D2 where "find_loan t (ri_loan x) D = Some l"
    "l_status l = LS_DISBURSED \<or> l_status l = LS_OVERDUE"
    "book_repayment E t key l a (posted_at E x) (channel_of x) x
       (allocateRepaymentToSchedule a
          (filter (\<lambda>i. si_status i \<noteq> SI_PAID) (loan_items t (l_id l) (mark_overdue t (l_id l) (ev_now E) D)))
          (posted_at E x) (ev_now E))
       (mark_overdue t (l_id l) (ev_now E) D) = Inr ((i, posted), D2)"
    "settle_loan E t l (posted_at E x) x i posted D2 = Inr (r, D')"
  using assms unfolding repayment_tx_def Let_def
  by (auto simp: chain_eq_Inr split: option.splits if_splits prod.splits)

lemma mark_overdue_tables [simp]:
  "db_loans (mark_overdue t loan today D) = db_loans D" "db_entries (mark_overdue t loan today D) = db_entries D"
  "db_repayments (mark_overdue t loan today D) = db_repayments D"
  by (simp_all add: mark_overdue_def)

lemma tx_facts:
  assumes "repayment_tx E t key a x D = Inr (r, D')" "items_ok D" "is_cents a" "0 \<le> a"
  shows "rr_total r = loan_outstanding t (ri_loan x) D - a"
    "loan_outstanding t (ri_loan x) D' = loan_outstanding t (ri_loan x) D - a" "items_ok D'"
    "a \<le> loan_outstanding t (ri_loan x) D"
    "\<exists>rp. db_repayments D' = db_repayments D @ [rp] \<and> rp_id rp = rr_id r \<and> rp_key rp = key \<and> rp_amount rp = a \<and>
       rp_tenant rp = t \<and> rp_loan rp = ri_loan x"
    "(\<forall>e \<in> set (db_entries D). entry_balanced e) \<Longrightarrow> (\<forall>e \<in> set (db_entries D'). entry_balanced e)"
    "\<forall>m \<in> set (db_loans D'). l_id m = ri_loan x \<longrightarrow> l_out_total m = rr_total r"
    "rr_status r = LS_REPAID \<longleftrightarrow> rr_total r = 0" "rr_total r \<noteq> EPSILON"
    "\<exists>s. (s = LS_DISBURSED \<or> s = LS_OVERDUE) \<and>
       (rr_status r = s \<or> transition (ra_role (ri_actor x)) s LS_REPAID = Inr (rr_status r))"
proof -
  obtain l i posted D2 where l: "find_loan t (ri_loan x) D = Some l"
    and status: "l_status l = LS_DISBURSED \<or> l_status l = LS_OVERDUE"
    and b: "book_repayment E t key l a (posted_at E x) (channel_of x) x
       (allocateRepaymentToSchedule a
          (filter (\<lambda>i. si_status i \<noteq> SI_PAID) (loan_items t (l_id l) (mark_overdue t (l_id l) (ev_now E) D)))
          (posted_at E x) (ev_now E))
       (mark_overdue t (l_id l) (ev_now E) D) = Inr ((i, posted), D2)"
    and s: "settle_loan E t l (posted_at E x) x i posted D2 = Inr (r, D')"
    by (rule tx_cases [OF assms(1)])
  have id: "l_id l = ri_loan x" using find_loanD [OF l] by simp
  let ?D1 = "mark_overdue t (l_id l) (ev_now E) D"
  let ?all = "loan_items t (l_id l) ?D1"
  let ?items = "filter (\<lambda>i. si_status i \<noteq> SI_PAID) ?all"
  have ok1: "items_ok ?D1" by (rule mark_overdue_ok [OF assms(2)])
  note all = loan_items_facts [OF ok1, of t "l_id l"]
  have sub: "set ?items \<subseteq> set (db_items ?D1)" "distinct (map si_id ?items)"
    "\<forall>i \<in> set ?items. si_tenant i = t \<and> si_loan i = l_id l"
    using all(1) distinct_map_filter [OF all(3)] by auto
  note bk = book_repayment_facts [OF ok1 sub assms(3,4) b]
  note st = settle_facts [OF bk(3) s]
  note total = settle_total [OF bk(3), of t "l_id l"]
  have out: "loan_outstanding t (l_id l) D2 = loan_outstanding t (l_id l) D - a"
    using bk(4) by (simp add: mark_overdue_outstanding)
  show rr: "rr_total r = loan_outstanding t (ri_loan x) D - a" using st(2) out id by simp
  show "loan_outstanding t (ri_loan x) D' = loan_outstanding t (ri_loan x) D - a"
    using st(3) out id by (simp add: loan_outstanding_def)
  show "items_ok D'" using bk(3) st(3) by (simp add: items_ok_def)
  have "(\<Sum>j\<leftarrow>?items. rem_total j) \<le> (\<Sum>j\<leftarrow>?all. rem_total j)"
  proof -
    have "0 \<le> (\<Sum>j\<leftarrow>filter (\<lambda>i. \<not> (si_status i \<noteq> SI_PAID)) ?all. rem_total j)"
      using all(1) rem_total_parts(2) by (intro sum_list_map_nonneg) auto
    then show ?thesis using sum_filter_split [of rem_total "\<lambda>i. si_status i \<noteq> SI_PAID" ?all] by linarith
  qed
  then show "a \<le> loan_outstanding t (ri_loan x) D"
    using bk(2) all(2) id by (simp add: mark_overdue_outstanding)
  show "\<exists>rp. db_repayments D' = db_repayments D @ [rp] \<and> rp_id rp = rr_id r \<and> rp_key rp = key \<and> rp_amount rp = a \<and>
       rp_tenant rp = t \<and> rp_loan rp = ri_loan x"
    using bk(6) st(1,4) id by simp
  show "(\<forall>e \<in> set (db_entries D). entry_balanced e) \<Longrightarrow> (\<forall>e \<in> set (db_entries D'). entry_balanced e)"
    using bk(7) st(5) by simp
  show "\<forall>m \<in> set (db_loans D'). l_id m = ri_loan x \<longrightarrow> l_out_total m = rr_total r" using st(8) id by simp
  have eps: "(0::decimal) < EPSILON" by (simp add: EPSILON_def)
  show closed: "rr_status r = LS_REPAID \<longleftrightarrow> rr_total r = 0"
    using st(6,7) eps by (auto split: if_splits)
  show "rr_total r \<noteq> EPSILON"
    using st(6) closed eps by (auto split: if_splits)
  show "\<exists>s. (s = LS_DISBURSED \<or> s = LS_OVERDUE) \<and>
       (rr_status r = s \<or> transition (ra_role (ri_actor x)) s LS_REPAID = Inr (rr_status r))"
    using status st(6,9) by (intro exI [of _ "l_status l"]) (auto split: if_splits)
qed

section \<open>Properties\<close>

text \<open>The allocation is the filling of the instalments in the order of the code.\<close>

lemma allocation_is_filling:
  assumes "\<forall>i \<in> set items. item_ok i" "is_cents a" "0 \<le> a"
  shows "as_payments (allocateRepaymentToSchedule a items paidAt today) =
      map share_payment (filter (\<lambda>p. 0 < snd p) (shares a (orderedItems today items))) \<and>
    as_updates (allocateRepaymentToSchedule a items paidAt today) =
      map (share_update paidAt today) (filter (\<lambda>p. 0 < snd p) (shares a (orderedItems today items)))"
  using allocation_paying [OF assms, of paidAt today] by (simp_all add: paying_def)

lemma shares_append: "shares a (us @ vs) = shares a us @ shares (a - (\<Sum>p\<leftarrow>shares a us. snd p)) vs"
  by (induction us arbitrary: a) (simp_all add: algebra_simps)

lemma fst_shares: "map fst (shares a us) = us"
  by (induction us arbitrary: a) simp_all

lemma shares_leave:
  assumes "\<forall>i \<in> set us. item_ok i" "0 \<le> a"
  shows "0 \<le> a - (\<Sum>p\<leftarrow>shares a us. snd p) \<and> a - (\<Sum>p\<leftarrow>shares a us. snd p) \<le> a"
  using assms
proof (induction us arbitrary: a)
  case (Cons i us)
  have r: "0 \<le> rem_total i" using rem_total_parts(2) [of i] Cons.prems(1) by simp
  have "0 \<le> a - min a (rem_total i)" by simp
  from Cons.IH [OF _ this] Cons.prems(1) r Cons.prems(2) show ?case by (auto simp: algebra_simps min_def split: if_splits)
qed simp

text \<open>What an instalment takes, in the list of payments.\<close>

definition taken_by :: "sched_item \<Rightarrow> item_payment list \<Rightarrow> decimal" where
  "taken_by i ps = (\<Sum>p\<leftarrow>filter (\<lambda>p. ip_item p = si_id i) ps. ip_total p)"

lemma taken_by_share:
  assumes "\<forall>i \<in> set (us @ i # vs). item_ok i" "0 \<le> a" "distinct (map si_id (us @ i # vs))"
  shows "taken_by i (map share_payment (filter (\<lambda>p. 0 < snd p) (shares a (us @ i # vs)))) =
    min (a - (\<Sum>p\<leftarrow>shares a us. snd p)) (rem_total i)"
proof -
  have none: "filter (\<lambda>p. ip_item p = si_id i) (map share_payment (filter (\<lambda>p. 0 < snd p) (shares b ws))) = []"
    if "si_id i \<notin> si_id ` set ws" for b ws
  proof -
    have "fst p \<in> set ws" if "p \<in> set (shares b ws)" for p
      using arg_cong [OF fst_shares [of b ws], of set] that by force
    with that have "si_id (fst p) \<noteq> si_id i" if "p \<in> set (shares b ws)" for p using that by (metis imageI)
    then show ?thesis by (auto simp: filter_empty_conv share_payment_def)
  qed
  have "0 \<le> a - (\<Sum>p\<leftarrow>shares a us. snd p)" "0 \<le> rem_total i"
    using shares_leave [of us a] rem_total_parts(2) [of i] assms(1,2) by simp_all
  moreover have "si_id i \<notin> si_id ` set us" "si_id i \<notin> si_id ` set vs" using assms(3) by auto
  ultimately show ?thesis
    unfolding taken_by_def shares_append shares.simps filter_append map_append none
    by (auto simp: none share_payment_def min_def)
qed

lemma ordered_before:
  assumes "i \<in> set items" "j \<in> set items"
    and "overdue_unpaid today i \<and> \<not> overdue_unpaid today j \<or>
      (overdue_unpaid today i \<longleftrightarrow> overdue_unpaid today j) \<and> (\<exists>xs ys zs. items = xs @ i # ys @ j # zs)"
  shows "\<exists>us vs ws. orderedItems today items = us @ i # vs @ j # ws"
  using assms(3)
proof (elim disjE conjE exE)
  assume "overdue_unpaid today i" "\<not> overdue_unpaid today j"
  then have "i \<in> set (filter (overdue_unpaid today) items)" "j \<in> set (filter (\<lambda>i. \<not> overdue_unpaid today i) items)"
    using assms(1,2) by simp_all
  then obtain us vs xs ws where "filter (overdue_unpaid today) items = us @ i # vs"
    "filter (\<lambda>i. \<not> overdue_unpaid today i) items = xs @ j # ws" by (metis split_list)
  then have "orderedItems today items = us @ i # (vs @ xs) @ j # ws" by (simp add: orderedItems_def)
  then show ?thesis by blast
next
  fix xs ys zs
  assume same: "overdue_unpaid today i \<longleftrightarrow> overdue_unpaid today j" and s: "items = xs @ i # ys @ j # zs"
  let ?f = "filter (overdue_unpaid today)" and ?g = "filter (\<lambda>i. \<not> overdue_unpaid today i)"
  show ?thesis
  proof (cases "overdue_unpaid today i")
    case True
    then have "orderedItems today items = ?f xs @ i # ?f ys @ j # (?f zs @ ?g items)"
      using same by (simp add: orderedItems_def s)
    then show ?thesis by blast
  next
    case False
    then have "orderedItems today items = (?f items @ ?g xs) @ i # ?g ys @ j # ?g zs"
      using same by (simp add: orderedItems_def s)
    then show ?thesis by blast
  qed
qed

lemma share_order:
  assumes "item_ok i" "0 \<le> w" "w \<le> rem_total i"
  shows "(0 < share_interest (i, w) \<longrightarrow> share_fees (i, w) = si_fees_due i - si_fees_paid i) \<and>
    (0 < share_principal (i, w) \<longrightarrow> share_fees (i, w) = si_fees_due i - si_fees_paid i \<and>
       share_interest (i, w) = si_interest_due i - si_interest_paid i)"
  using assms rem_total_parts(1) [OF assms(1)] unfolding share_fees_def share_interest_def share_principal_def item_ok_def
  by (auto simp: min_def split: if_splits)


text \<open>
  C2. An allocation neither loses nor invents money: what is left and what went to fees, interest
  and principal sum to the amount, what is left is the part above the total owed, and no instalment
  is paid above what it owes.
\<close>

theorem allocation_conserves_money:
  assumes "\<forall>i \<in> set items. item_ok i" "is_cents a" "0 \<le> a"
  shows "as_left (allocateRepaymentToSchedule a items paidAt today) +
      as_fees (allocateRepaymentToSchedule a items paidAt today) +
      as_interest (allocateRepaymentToSchedule a items paidAt today) +
      as_principal (allocateRepaymentToSchedule a items paidAt today) = a \<and>
    as_left (allocateRepaymentToSchedule a items paidAt today) =
      a - min a (\<Sum>i\<leftarrow>items. si_total_due i - si_total_paid i) \<and>
    (\<forall>p \<in> set (as_payments (allocateRepaymentToSchedule a items paidAt today)).
      \<exists>i \<in> set items. ip_item p = si_id i \<and>
        ip_fees p \<le> si_fees_due i - si_fees_paid i \<and>
        ip_interest p \<le> si_interest_due i - si_interest_paid i \<and>
        ip_principal p \<le> si_principal_due i - si_principal_paid i)"
proof -
  let ?ps = "paying a (orderedItems today items)"
  have o: "\<forall>i \<in> set (orderedItems today items). item_ok i" using assms(1) by simp
  note s = allocation_paying [OF assms, of paidAt today] and facts = paying_facts [OF o assms(2,3)]
  have sum: "(\<Sum>p\<leftarrow>?ps. snd p) = min a (\<Sum>i\<leftarrow>items. si_total_due i - si_total_paid i)"
    using facts(2) by (simp add: ordered_sum rem_total_def [abs_def])
  have bounds: "\<exists>i \<in> set items. ip_item (share_payment q) = si_id i \<and>
        ip_fees (share_payment q) \<le> si_fees_due i - si_fees_paid i \<and>
        ip_interest (share_payment q) \<le> si_interest_due i - si_interest_paid i \<and>
        ip_principal (share_payment q) \<le> si_principal_due i - si_principal_paid i" if q: "q \<in> set ?ps" for q
  proof -
    obtain i w where p: "q = (i, w)" by (cases q)
    from facts(1) q have "i \<in> set items" "0 \<le> w" "w \<le> rem_total i" "is_cents w" by (auto simp: p)
    with share_bounds [of i w] assms(1) show ?thesis
      by (intro bexI [of _ i]) (simp_all add: p share_payment_def)
  qed
  show ?thesis
    using s share_sum [of ?ps] sum bounds by simp
qed

text \<open>A loan with two instalments of 60, the first of them due.\<close>

lemma sample_item_ok: "item_ok (sample_item i n due)"
  by (simp add: item_ok_def item_cents_def sample_item_def is_cents_def)

lemma sample_items_ok: "\<forall>i \<in> set sample_items. item_ok i"
  by (simp add: sample_items_def sample_item_ok)

lemma sample_payments:
  "as_payments (allocateRepaymentToSchedule 61 (rev sample_items) 0 1700000000000) =
     [\<lparr>ip_item = ''i1'', ip_no = 1, ip_principal = 50, ip_interest = 8, ip_fees = 2, ip_total = 60\<rparr>,
      \<lparr>ip_item = ''i2'', ip_no = 2, ip_principal = 0, ip_interest = 0, ip_fees = 1, ip_total = 1\<rparr>]"
  using allocation_is_filling [of "rev sample_items" 61 0 1700000000000] sample_items_ok
  by (simp add: sample_items_def sample_item_def orderedItems_def overdue_unpaid_def isPaid_def EPSILON_def
      rem_total_def share_payment_def share_fees_def share_interest_def share_principal_def)


theorem allocation_conserves_money_witness:
  "as_left (allocateRepaymentToSchedule 150 sample_items 0 1700000000000) = 30"
  using allocation_conserves_money [OF sample_items_ok, of 150 0 1700000000000]
  by (simp add: sample_items_def sample_item_def)

text \<open>
  C1. A posted repayment lowers what the loan owes by exactly its amount: the schedule stays
  well-formed, the loan row carries the new outstanding total, a repayment row of the amount is
  added, and every ledger entry stays balanced.
\<close>

theorem repayment_lowers_balance:
  assumes "repayment_tx E t key a x D = Inr (r, D')" "items_ok D" "is_cents a" "0 \<le> a"
    and "\<forall>e \<in> set (db_entries D). entry_balanced e"
  shows "loan_outstanding t (ri_loan x) D' = loan_outstanding t (ri_loan x) D - a \<and> items_ok D' \<and>
    rr_total r = loan_outstanding t (ri_loan x) D' \<and>
    (\<forall>m \<in> set (db_loans D'). l_id m = ri_loan x \<longrightarrow> l_out_total m = rr_total r) \<and>
    (\<exists>rp. db_repayments D' = db_repayments D @ [rp] \<and> rp_id rp = rr_id r \<and> rp_key rp = key \<and>
       rp_amount rp = a \<and> rp_tenant rp = t \<and> rp_loan rp = ri_loan x) \<and>
    (\<forall>e \<in> set (db_entries D'). entry_balanced e)"
  using tx_facts [OF assms(1-4)] assms(5) by simp

text \<open>
  An overpayment is always refused: an amount above what the loan still owes never posts, since
  the ledger entry would credit the excess to the suspense account while the bank side is debited
  without it.
\<close>

lemma overpayment_is_refused:
  assumes "items_ok D" "is_cents a" "0 \<le> a" "loan_outstanding t (ri_loan x) D < a"
  shows "\<exists>e. repayment_tx E t key a x D = Inl e"
proof (cases "repayment_tx E t key a x D")
  case (Inr p)
  then obtain r D' where "repayment_tx E t key a x D = Inr (r, D')" by (cases p) auto
  from tx_facts(4) [OF this assms(1-3)] assms(4) show ?thesis by simp
qed blast

text \<open>
  A repayment closes the loan exactly when nothing is left to pay, by a transition the role may
  make; and no repayment that posts leaves a balance of one kobo, because the tolerance then picks
  the closed status and the closing check refuses it.
\<close>

lemma repayment_closes_at_zero:
  assumes "repayment_tx E t key a x D = Inr (r, D')" "items_ok D" "is_cents a" "0 \<le> a"
  shows "(rr_status r = LS_REPAID) = (loan_outstanding t (ri_loan x) D' = 0) \<and>
    loan_outstanding t (ri_loan x) D' \<noteq> EPSILON \<and>
    (\<exists>s. (s = LS_DISBURSED \<or> s = LS_OVERDUE) \<and>
       (rr_status r = s \<or> transition (ra_role (ri_actor x)) s LS_REPAID = Inr (rr_status r)))"
  using tx_facts [OF assms] by simp

section \<open>Repayments that post\<close>

lemma trim_repayment_key: "trim (''repayment:'' @ s) \<noteq> ''''"
  using trim_nonempty [of "CHR ''r''"] by (simp add: is_space_def)

lemma principal_repayment_total:
  assumes "loan_alloc t loan D = None \<or> assertRoleCanPost (ta_role actor) E_ADJUSTMENT = Inr ()"
  shows "\<exists>D'. applyPrincipalRepayment E t loan a cur key actor D = Inr D'"
proof (cases "a \<le> 0 \<or> loan_alloc t loan D = None")
  case False
  then obtain al where al: "loan_alloc t loan D = Some al" "0 < a" by auto
  with assms have role: "assertRoleCanPost (ta_role actor) E_ADJUSTMENT = Inr ()" by simp
  have "trim (''capital:repayment:'' @ key) \<noteq> ''''"
    using trim_nonempty [of "CHR ''c''"] by (simp add: is_space_def)
  from capital_guards [OF al(2) role this]
  have "\<exists>r D2. post_entry E (capital_entry E t loan cur actor E_ADJUSTMENT (''capital:repayment:'' @ key)
      memo CAPITAL_POOL_REPAID CAPITAL_POOL_DEPLOYED a) D1 = Inr (r, D2)" for memo D1
    by (intro post_entry_total)
  then obtain r D2 where "post_entry E (capital_entry E t loan cur actor E_ADJUSTMENT (''capital:repayment:'' @ key)
      (''Capital principal repaid to pool '' @ al_pool al) CAPITAL_POOL_REPAID CAPITAL_POOL_DEPLOYED a)
      (D\<lparr>db_allocs := update_where (\<lambda>b. al_id b = al_id al)
         (\<lambda>b. b\<lparr>al_released := money (al_released al + a),
                al_status := (if al_deployed al - (al_released al + a) - al_written_off al \<le> 0
                              then A_RELEASED else A_DEPLOYED)\<rparr>) (db_allocs D)\<rparr>) = Inr (r, D2)"
    by blast
  with al show ?thesis by (simp add: applyPrincipalRepayment_def Let_def)
qed (auto simp: applyPrincipalRepayment_def)

lemma book_total:
  assumes items: "\<forall>i \<in> set items. item_ok i" and a: "is_cents a" "0 < a" "a \<le> (\<Sum>i\<leftarrow>items. rem_total i)"
    and role: "assertRoleCanPost (Some (ra_role (ri_actor x))) E_REPAYMENT = Inr ()"
    and alloc: "loan_alloc t (l_id l) D = None \<or> assertRoleCanPost (Some (ra_role (ri_actor x))) E_ADJUSTMENT = Inr ()"
    and key: "find (\<lambda>r. rp_tenant r = t \<and> rp_key r = key) (db_repayments D) = None"
  shows "\<exists>p D'. book_repayment E t key l a postedAt ch x (allocateRepaymentToSchedule a items postedAt today) D =
    Inr (p, D')"
proof -
  have o: "\<forall>i \<in> set (orderedItems today items). item_ok i" using items by simp
  let ?ps = "paying a (orderedItems today items)"
  let ?s = "allocateRepaymentToSchedule a items postedAt today"
  have nn: "0 \<le> a" using a(2) by simp
  note s = allocation_paying [OF items a(1) nn, of postedAt today]
  note parts = paying_parts [OF o a(1) nn] and facts = paying_facts [OF o a(1) nn]
  have "(\<Sum>p\<leftarrow>?ps. snd p) = a" using facts(2) a(3) by (simp add: ordered_sum)
  then have left: "as_left ?s = 0" and sum: "as_fees ?s + as_interest ?s + as_principal ?s = a"
    using s share_sum [of ?ps] by simp_all
  have nonneg: "0 \<le> as_fees ?s" "0 \<le> as_interest ?s" "0 \<le> as_principal ?s" using s parts by simp_all
  have posted: "money (a - as_left ?s) = a" using left a(1) by simp
  let ?D1 = "fold apply_item_update (as_updates ?s) D"
  let ?j = "ev_cuid E (db_seq ?D1)"
  let ?D3 = "?D1\<lparr>db_seq := Suc (db_seq ?D1),
      db_repayments := db_repayments ?D1 @ [repayment_row t key l postedAt ch x a ?j]\<rparr>"
  let ?e = "repayment_entry t l postedAt x ?j (repayment_lines ch a ?s)"
  have "list_all (\<lambda>l. 0 < li_amount l) (repayment_lines ch a ?s)"
    using a(2) by (simp add: repayment_lines_def)
  moreover have "repayment_lines ch a ?s \<noteq> []" by (simp add: repayment_lines_def)
  moreover have "dir_sum DEBIT (map line_pair (repayment_lines ch a ?s)) =
      dir_sum CREDIT (map line_pair (repayment_lines ch a ?s))"
    using repayment_lines_sums [OF nonneg, of ch a] left sum by simp
  ultimately have "post_guards ?e"
    using role trim_repayment_key by (simp add: post_guards_def repayment_entry_def)
  from post_entry_total [OF this, of E ?D3] obtain r D4 where p: "post_entry E ?e ?D3 = Inr (r, D4)"
    by blast
  have "db_allocs ?D1 = db_allocs D" by (subst fold_updates_frame) simp
  then have "loan_alloc t (l_id l) D4 = loan_alloc t (l_id l) D"
    using post_entry_other_tables [OF p] by (simp add: loan_alloc_def)
  with alloc have "loan_alloc t (l_id l) D4 = None \<or>
      assertRoleCanPost (ta_role (capital_actor x)) E_ADJUSTMENT = Inr ()"
    by (simp add: capital_actor_def)
  from principal_repayment_total [OF this, of E "as_principal ?s" "l_currency l" ?j]
  obtain D5 where tr: "applyPrincipalRepayment E t (l_id l) (as_principal ?s) (l_currency l) ?j
       (capital_actor x) D4 = Inr D5" by blast
  have key1: "find (\<lambda>r. rp_tenant r = t \<and> rp_key r = key) (db_repayments ?D1) = None" using key by simp
  show ?thesis
    unfolding book_repayment_def Let_def posted key1 fresh_def
    using a(2) p tr by (simp add: chain_def)
qed

lemma settle_total_some:
  assumes ok: "items_ok D" and "EPSILON < loan_outstanding t (l_id l) D" "trim (l_phone l) \<noteq> ''''"
  shows "\<exists>r D'. settle_loan E t l postedAt x i posted D = Inr (r, D')"
proof -
  note f = loan_items_facts [OF ok, of t "l_id l"]
  have items: "\<forall>i \<in> set (loan_items t (l_id l) D). item_ok i" using f(1) by blast
  have nonneg: "0 \<le> outstanding_by si_principal_due si_principal_paid (loan_items t (l_id l) D)"
    "0 \<le> outstanding_by si_interest_due si_interest_paid (loan_items t (l_id l) D)"
    "0 \<le> outstanding_by si_fees_due si_fees_paid (loan_items t (l_id l) D)"
    unfolding outstanding_by_def by (intro money_nonneg sum_list_map_nonneg; simp)+
  have "\<not> loan_outstanding t (l_id l) D \<le> EPSILON" using assms(2) by simp
  moreover note settle_total [OF ok, of t "l_id l"]
  moreover have "assertLoanNonNegative (outstanding_by si_principal_due si_principal_paid (loan_items t (l_id l) D))
      (outstanding_by si_interest_due si_interest_paid (loan_items t (l_id l) D))
      (outstanding_by si_fees_due si_fees_paid (loan_items t (l_id l) D)) (loan_outstanding t (l_id l) D) = Inr ()"
    using nonneg settle_total(3) [OF ok] by (simp add: assertLoanNonNegative_Inr)
  moreover have "assertLoanCanClose s (loan_outstanding t (l_id l) D) = Inr ()" if "s \<noteq> LS_REPAID" for s
    using that by (simp add: assertLoanCanClose_Inr)
  ultimately show ?thesis
    unfolding settle_loan_def Let_def using assms(3) by simp
qed

text \<open>What the unpaid instalments of a loan still owe.\<close>

definition unpaid_total :: "string \<Rightarrow> string \<Rightarrow> db \<Rightarrow> decimal" where
  "unpaid_total t loan D =
     (\<Sum>i\<leftarrow>filter (\<lambda>i. si_tenant i = t \<and> si_loan i = loan \<and> si_status i \<noteq> SI_PAID) (db_items D). rem_total i)"

lemma pending_sum:
  "(\<Sum>i\<leftarrow>filter (\<lambda>i. si_status i \<noteq> SI_PAID) (loan_items t loan (mark_overdue t loan today D)). rem_total i) =
     unpaid_total t loan D"
proof -
  let ?g = "\<lambda>i. if si_tenant i = t \<and> si_loan i = loan \<and> si_status i \<noteq> SI_PAID then rem_total i else 0"
  let ?D1 = "mark_overdue t loan today D"
  have "(\<Sum>i\<leftarrow>filter (\<lambda>i. si_status i \<noteq> SI_PAID) (loan_items t loan ?D1). rem_total i) =
      (\<Sum>i\<leftarrow>filter (\<lambda>i. si_tenant i = t \<and> si_loan i = loan) (db_items ?D1).
         if si_status i \<noteq> SI_PAID then rem_total i else 0)"
    unfolding loan_items_def sum_list_map_filter' [of _ "\<lambda>i. si_status i \<noteq> SI_PAID"] sum_sort_key ..
  also have "\<dots> = (\<Sum>i\<leftarrow>db_items ?D1. ?g i)"
    by (subst sum_list_map_filter') (intro arg_cong [where f = sum_list] map_cong; simp)
  also have "map ?g (db_items ?D1) = map ?g (db_items D)"
  proof -
    have "db_items ?D1 = update_where
        (\<lambda>i. si_tenant i = t \<and> si_loan i = loan \<and> si_status i \<noteq> SI_PAID \<and> si_due i < today)
        (\<lambda>i. i\<lparr>si_status := SI_OVERDUE\<rparr>) (db_items D)" by (simp add: mark_overdue_def)
    then show ?thesis by (simp only:, intro map_update_where) (simp add: rem_total_def)
  qed
  finally show ?thesis by (simp only: unpaid_total_def sum_list_map_filter')
qed

lemma tx_total:
  assumes l: "find_loan t (ri_loan x) D = Some l" "l_status l = LS_DISBURSED \<or> l_status l = LS_OVERDUE"
    and ok: "items_ok D" and a: "is_cents a" "0 < a" "a \<le> unpaid_total t (ri_loan x) D"
      "EPSILON < loan_outstanding t (ri_loan x) D - a"
    and role: "assertRoleCanPost (Some (ra_role (ri_actor x))) E_REPAYMENT = Inr ()"
    and alloc: "loan_alloc t (ri_loan x) D = None \<or>
      assertRoleCanPost (Some (ra_role (ri_actor x))) E_ADJUSTMENT = Inr ()"
    and key: "find (\<lambda>r. rp_tenant r = t \<and> rp_key r = key) (db_repayments D) = None"
    and phone: "trim (l_phone l) \<noteq> ''''"
  shows "\<exists>r D'. repayment_tx E t key a x D = Inr (r, D')"
proof -
  note id = find_loanD [OF l(1)]
  let ?D1 = "mark_overdue t (l_id l) (ev_now E) D"
  let ?all = "loan_items t (l_id l) ?D1"
  let ?items = "filter (\<lambda>i. si_status i \<noteq> SI_PAID) ?all"
  have ok1: "items_ok ?D1" by (rule mark_overdue_ok [OF ok])
  note all = loan_items_facts [OF ok1, of t "l_id l"]
  have items: "\<forall>i \<in> set ?items. item_ok i" "set ?items \<subseteq> set (db_items ?D1)" "distinct (map si_id ?items)"
    "\<forall>i \<in> set ?items. si_tenant i = t \<and> si_loan i = l_id l"
    using all(1) distinct_map_filter [OF all(3)] by auto
  have sum: "a \<le> (\<Sum>i\<leftarrow>?items. rem_total i)" using a(3) id by (simp only: pending_sum)
  then have ne: "?items \<noteq> []" using a(2) by auto
  have alloc1: "loan_alloc t (l_id l) ?D1 = None \<or> assertRoleCanPost (Some (ra_role (ri_actor x))) E_ADJUSTMENT = Inr ()"
    using alloc id by (simp add: loan_alloc_def mark_overdue_def)
  have key1: "find (\<lambda>r. rp_tenant r = t \<and> rp_key r = key) (db_repayments ?D1) = None" using key by simp
  from book_total [OF items(1) a(1,2) sum role alloc1 key1, of E "posted_at E x" "channel_of x" "ev_now E"]
  obtain i posted D2 where b: "book_repayment E t key l a (posted_at E x) (channel_of x) x
      (allocateRepaymentToSchedule a ?items (posted_at E x) (ev_now E)) ?D1 = Inr ((i, posted), D2)"
    by auto
  note bk = book_repayment_facts [OF ok1 items(2,3,4) a(1) less_imp_le [OF a(2)] b]
  have "EPSILON < loan_outstanding t (l_id l) D2"
    using bk(4) a(4) id by (simp add: mark_overdue_outstanding)
  from settle_total_some [OF bk(3) this phone, of E "posted_at E x" x i posted] obtain r D' where
    "settle_loan E t l (posted_at E x) x i posted D2 = Inr (r, D')" by blast
  with l id ne b show ?thesis
    unfolding repayment_tx_def Let_def by (auto simp: ensureTenantMatch_def)
qed

definition sample_repayment :: repay_input where
  "sample_repayment =
     \<lparr>ri_tenant = ''ten'', ri_loan = ''loan'', ri_amount = 61, ri_posted_at = None, ri_channel = None,
      ri_reference = None, ri_key = Some ''k'', ri_actor = \<lparr>ra_admin = None, ra_role = OPS\<rparr>\<rparr>"

lemma loan_db_facts:
  "find_loan ''ten'' (ri_loan sample_repayment) loan_db = Some sample_loan" "items_ok loan_db"
  "loan_outstanding ''ten'' ''loan'' loan_db = 120" "unpaid_total ''ten'' ''loan'' loan_db = 120"
  "\<forall>e \<in> set (db_entries loan_db). entry_balanced e"
  by (simp_all add: loan_db_def empty_db_def find_loan_def sample_repayment_def sample_loan_def items_ok_def
      sample_items_def sample_item_ok loan_outstanding_def unpaid_total_def rem_total_def)
    (simp_all add: sample_item_def)

lemma sample_repayment_posts:
  "\<exists>r D'. repayment_tx sample_env ''ten'' ''k'' 61 sample_repayment loan_db = Inr (r, D')"
proof (rule tx_total [OF loan_db_facts(1) _ loan_db_facts(2)])
  have "ri_loan sample_repayment = ''loan''" by (simp add: sample_repayment_def)
  then show "61 \<le> unpaid_total ''ten'' (ri_loan sample_repayment) loan_db"
    "EPSILON < loan_outstanding ''ten'' (ri_loan sample_repayment) loan_db - 61"
    using loan_db_facts(3,4) by (simp_all add: EPSILON_def)
qed (simp_all add: sample_loan_def sample_repayment_def loan_alloc_def loan_db_def empty_db_def trim_def is_space_def)

theorem repayment_lowers_balance_witness:
  "\<exists>r D'. repayment_tx sample_env ''ten'' ''k'' 61 sample_repayment loan_db = Inr (r, D') \<and>
     loan_outstanding ''ten'' ''loan'' D' = 59 \<and> rr_total r = 59"
proof -
  obtain r D' where p: "repayment_tx sample_env ''ten'' ''k'' 61 sample_repayment loan_db = Inr (r, D')"
    using sample_repayment_posts by blast
  have "is_cents 61" "(0::decimal) \<le> 61" by simp_all
  from repayment_lowers_balance [OF p loan_db_facts(2) this loan_db_facts(5)] loan_db_facts(3)
  have "loan_outstanding ''ten'' ''loan'' D' = 59 \<and> rr_total r = 59"
    by (simp add: sample_repayment_def)
  with p show ?thesis by blast
qed

lemma overpayment_is_refused_witness:
  "\<exists>e. repayment_tx sample_env ''ten'' ''k'' 121 sample_repayment loan_db = Inl e"
  by (rule overpayment_is_refused [OF loan_db_facts(2)])
    (use loan_db_facts(3) in \<open>simp_all add: sample_repayment_def\<close>)

lemma repayment_closes_at_zero_witness:
  "\<exists>r D'. repayment_tx sample_env ''ten'' ''k'' 61 sample_repayment loan_db = Inr (r, D') \<and>
     loan_outstanding ''ten'' ''loan'' D' \<noteq> EPSILON"
proof -
  obtain r D' where p: "repayment_tx sample_env ''ten'' ''k'' 61 sample_repayment loan_db = Inr (r, D')"
    using sample_repayment_posts by blast
  have "is_cents 61" "(0::decimal) \<le> 61" by simp_all
  from repayment_closes_at_zero [OF p loan_db_facts(2) this] p show ?thesis
    by (auto simp: sample_repayment_def)
qed

text \<open>
  An ordinary repayment goes through: when the loan is disbursed or overdue, the amount is
  within what its unpaid instalments owe and leaves more than a kobo, the role may post repayments
  (and adjustments, if the loan is funded from a pool), the key is new and the borrower has a phone
  number, the transaction succeeds.
\<close>

lemma partial_repayment_posts:
  assumes "find_loan t (ri_loan x) D = Some l" "l_status l = LS_DISBURSED \<or> l_status l = LS_OVERDUE"
    and "items_ok D" "is_cents a" "0 < a" "a \<le> unpaid_total t (ri_loan x) D"
    and "EPSILON < loan_outstanding t (ri_loan x) D - a"
    and "assertRoleCanPost (Some (ra_role (ri_actor x))) E_REPAYMENT = Inr ()"
    and "loan_alloc t (ri_loan x) D = None \<or>
      assertRoleCanPost (Some (ra_role (ri_actor x))) E_ADJUSTMENT = Inr ()"
    and "find (\<lambda>r. rp_tenant r = t \<and> rp_key r = key) (db_repayments D) = None" "trim (l_phone l) \<noteq> ''''"
  shows "\<exists>r D'. repayment_tx E t key a x D = Inr (r, D')"
  using assms by (rule tx_total)

lemma partial_repayment_posts_witness:
  "\<exists>r D'. repayment_tx sample_env ''ten'' ''k2'' 60 sample_repayment loan_db = Inr (r, D')"
proof (rule partial_repayment_posts [OF loan_db_facts(1) _ loan_db_facts(2)])
  have "ri_loan sample_repayment = ''loan''" by (simp add: sample_repayment_def)
  then show "60 \<le> unpaid_total ''ten'' (ri_loan sample_repayment) loan_db"
    "EPSILON < loan_outstanding ''ten'' (ri_loan sample_repayment) loan_db - 60"
    using loan_db_facts(3,4) by (simp_all add: EPSILON_def)
qed (simp_all add: sample_loan_def sample_repayment_def loan_alloc_def loan_db_def empty_db_def trim_def is_space_def)

section \<open>Replays\<close>

lemma invariants_agree:
  assumes "db_loans D' = db_loans D" "db_items D' = db_items D" "db_repayments D' = db_repayments D"
    "db_disbursements D' = db_disbursements D"
  shows "(fst (assertLoanInvariants E i D') = Inr ()) = (fst (assertLoanInvariants E' i D) = Inr ())"
  using loan_invariants_iff [of E i D'] loan_invariants_iff [of E' i D] assms
  by (simp add: scheduled_due_def total_repaid_def successful_disbursements_def cong: option.case_cong)

lemma invariants_tables:
  assumes "assertLoanInvariants E i D = (res, D')"
  shows "db_loans D' = db_loans D" "db_items D' = db_items D" "db_repayments D' = db_repayments D"
    "db_disbursements D' = db_disbursements D" "db_entries D' = db_entries D"
proof -
  have "same_but_flags D D'" using loan_invariants_iff [of E i D] assms by simp
  then show "db_loans D' = db_loans D" "db_items D' = db_items D" "db_repayments D' = db_repayments D"
    "db_disbursements D' = db_disbursements D" "db_entries D' = db_entries D"
    by (auto simp: same_but_flags_def)
qed

text \<open>
  C5. Posting a repayment again with the same key does not pay twice: a repeated call for the
  tenant and the loan returns the first result and leaves loans, schedule, repayments and ledger as
  they are.
\<close>

theorem repayment_is_replayed:
  assumes "postRepayment E T x S = (Inr r, S')"
    and "ri_tenant y = ri_tenant x" "ri_loan y = ri_loan x" "0 < money (ri_amount y)"
    and "trim (repay_key E' T y) = trim (repay_key E T x)"
  shows "\<exists>S''. postRepayment E' T y S' = (Inr r, S'') \<and>
    db_loans (im_data S'') = db_loans (im_data S') \<and> db_items (im_data S'') = db_items (im_data S') \<and>
    db_repayments (im_data S'') = db_repayments (im_data S') \<and>
    db_entries (im_data S'') = db_entries (im_data S')"
proof -
  let ?q = "\<lambda>E z t. \<lparr>rq_tenant = t, rq_scope = ''REPAYMENT'', rq_key = repay_key E T z,
      rq_hash = Some (repayment_hash E T z)\<rparr>"
  from assms(1) obtain t where t: "requireTenantId (Some (ri_tenant x)) = Inr t"
    by (auto simp: postRepayment_def split: sum.splits)
  from assms(1) t have pos: "\<not> money (ri_amount x) \<le> 0"
    by (auto simp: postRepayment_def Let_def)
  obtain res S1 where w: "withIdempotency E (?q E x t)
      (repayment_operation E t (repay_key E T x) (money (ri_amount x)) x) S = (res, S1)"
    by (cases "withIdempotency E (?q E x t)
      (repayment_operation E t (repay_key E T x) (money (ri_amount x)) x) S")
  let ?D1 = "\<lambda>S i. emit (AuditEvent ''REPAYMENT.POST'' ''Repayment'' i) (im_data S)"
  from assms(1) t pos w obtain D2 where res: "res = Inr (Some r)"
    and inv: "assertLoanInvariants E (ri_loan x) (?D1 S1 (rr_id r)) = (Inr (), D2)"
    and S': "S' = S1\<lparr>im_data := D2\<rparr>"
    by (auto simp: postRepayment_def Let_def split: sum.splits option.splits prod.splits)
  have "decide (?q E' y t) S1 = Inr (Some r)"
    by (rule completed_decides [OF w [unfolded res]]) (use assms(5) in simp_all)
  then have w': "withIdempotency E' (?q E' y t)
      (repayment_operation E' t (repay_key E' T y) (money (ri_amount y)) y) S' = (Inr (Some r), S')"
    by (simp add: withIdempotency_def S')
  obtain v D3 where i2: "assertLoanInvariants E' (ri_loan x) (?D1 S' (rr_id r)) = (v, D3)"
    by (cases "assertLoanInvariants E' (ri_loan x) (?D1 S' (rr_id r))")
  have "fst (assertLoanInvariants E' (ri_loan x) (?D1 S' (rr_id r))) = Inr ()"
    using invariants_agree [of "?D1 S' (rr_id r)" "?D1 S1 (rr_id r)" E' "ri_loan x" E]
      invariants_tables [OF inv] inv by (simp add: S')
  then have v: "v = Inr ()" using i2 by simp
  have "postRepayment E' T y S' = (Inr r, S'\<lparr>im_data := D3\<rparr>)"
    using t pos assms(2-4) w' i2 v by (simp add: postRepayment_def Let_def)
  then show ?thesis using invariants_tables [OF i2] by simp
qed

text \<open>What a transaction keeps: the terms of the schedule and the disbursements.\<close>

definition item_terms :: "sched_item \<Rightarrow> string \<times> string \<times> string \<times> decimal" where
  "item_terms i = (si_id i, si_tenant i, si_loan i, si_total_due i)"

lemma updates_terms: "map item_terms (db_items (fold apply_item_update us D)) = map item_terms (db_items D)"
proof (induction us arbitrary: D)
  case (Cons u us)
  have "map item_terms (db_items (apply_item_update u D)) = map item_terms (db_items D)"
    unfolding apply_item_update_def by (simp add: map_update_where item_terms_def)
  with Cons show ?case by simp
qed simp

lemma fold_updates_disbursements: "db_disbursements (fold apply_item_update us D) = db_disbursements D"
  by (subst fold_updates_frame) simp

lemma book_frame:
  assumes "book_repayment E t key l a postedAt ch x s D = Inr ((i, posted), D')"
  shows "map item_terms (db_items D') = map item_terms (db_items D)"
    "db_disbursements D' = db_disbursements D" "db_loans D' = db_loans D"
proof -
  let ?D1 = "fold apply_item_update (as_updates s) D"
  obtain r D4 where p: "post_entry E (repayment_entry t l postedAt x i (repayment_lines ch posted s))
       (?D1\<lparr>db_seq := Suc (db_seq ?D1),
            db_repayments := db_repayments ?D1 @ [repayment_row t key l postedAt ch x posted i]\<rparr>) = Inr (r, D4)"
    and tr: "applyPrincipalRepayment E t (l_id l) (as_principal s) (l_currency l) i (capital_actor x) D4 = Inr D'"
    by (rule book_cases [OF assms])
  from tr have "db_disbursements D' = db_disbursements D4"
    unfolding applyPrincipalRepayment_def Let_def
    by (auto simp: chain_eq_Inr split: if_splits option.splits dest!: post_entry_other_tables)
  then show "map item_terms (db_items D') = map item_terms (db_items D)"
    "db_disbursements D' = db_disbursements D" "db_loans D' = db_loans D"
    using principal_repayment_tables [OF tr] post_entry_other_tables [OF p] updates_terms
    by (simp_all add: fold_updates_disbursements)
qed

lemma settle_frame:
  assumes "settle_loan E t l postedAt x i posted D = Inr (r, D')"
  shows "db_items D' = db_items D" "db_disbursements D' = db_disbursements D"
    "\<exists>p n f s d pa w. 0 \<le> p \<and> 0 \<le> n \<and> 0 \<le> f \<and> 0 \<le> s \<and>
       db_loans D' = update_where (\<lambda>m. l_id m = l_id l) (settled_loan p n f s d pa w) (db_loans D)"
proof -
  let ?items = "loan_items t (l_id l) D"
  let ?D1 = "note_overdue t l (trim_or_null (ra_admin (ri_actor x))) ?items D"
  have disb: "db_disbursements ?D1 = db_disbursements D" "\<And>e D. db_disbursements (emit e D) = db_disbursements D"
    by (simp_all add: note_overdue_def emit_def)
  from assms show "db_items D' = db_items D" "db_disbursements D' = db_disbursements D"
    unfolding settle_loan_def Let_def by (auto simp: chain_eq_Inr disb split: if_splits)
  let ?p = "outstanding_by si_principal_due si_principal_paid ?items"
    and ?n = "outstanding_by si_interest_due si_interest_paid ?items"
    and ?f = "outstanding_by si_fees_due si_fees_paid ?items"
  from assms have "assertLoanNonNegative ?p ?n ?f (money (?p + ?n + ?f)) = Inr ()"
    unfolding settle_loan_def Let_def by (auto simp: chain_eq_Inr split: if_splits)
  moreover have loans: "db_loans ?D1 = db_loans D" by (simp add: note_overdue_def)
  let ?st = "if money (?p + ?n + ?f) \<le> EPSILON then LS_REPAID
      else if l_status l = LS_OVERDUE then LS_OVERDUE else LS_DISBURSED"
  from assms have "db_loans D' = update_where (\<lambda>m. l_id m = l_id l)
      (settled_loan ?p ?n ?f (money (?p + ?n + ?f))
        (map_option si_due (find (\<lambda>i. si_status i \<noteq> SI_PAID) ?items)) ?st postedAt) (db_loans D)"
    unfolding settle_loan_def Let_def by (auto simp: chain_eq_Inr loans split: if_splits)
  ultimately show "\<exists>p n f s d pa w. 0 \<le> p \<and> 0 \<le> n \<and> 0 \<le> f \<and> 0 \<le> s \<and>
       db_loans D' = update_where (\<lambda>m. l_id m = l_id l) (settled_loan p n f s d pa w) (db_loans D)"
    unfolding assertLoanNonNegative_Inr by blast
qed

lemma tx_frame:
  assumes "repayment_tx E t key a x D = Inr (r, D')"
  shows "map item_terms (db_items D') = map item_terms (db_items D)"
    "db_disbursements D' = db_disbursements D"
    "\<exists>p n f s d pa w. 0 \<le> p \<and> 0 \<le> n \<and> 0 \<le> f \<and> 0 \<le> s \<and>
       db_loans D' = update_where (\<lambda>m. l_id m = ri_loan x) (settled_loan p n f s d pa w) (db_loans D)"
proof -
  obtain l i posted D2 s where l: "find_loan t (ri_loan x) D = Some l"
    and b: "book_repayment E t key l a (posted_at E x) (channel_of x) x s
       (mark_overdue t (l_id l) (ev_now E) D) = Inr ((i, posted), D2)"
    and st: "settle_loan E t l (posted_at E x) x i posted D2 = Inr (r, D')"
    by (rule tx_cases [OF assms])
  have id: "l_id l = ri_loan x" using find_loanD [OF l] by simp
  have m: "map item_terms (db_items (mark_overdue t (l_id l) (ev_now E) D)) = map item_terms (db_items D)"
    "db_disbursements (mark_overdue t (l_id l) (ev_now E) D) = db_disbursements D"
    unfolding mark_overdue_def by (simp_all add: map_update_where item_terms_def)
  note bk = book_frame [OF b] and sf = settle_frame [OF st]
  show "map item_terms (db_items D') = map item_terms (db_items D)" using bk(1) sf(1) m(1) by simp
  show "db_disbursements D' = db_disbursements D" using bk(2) sf(2) m(2) by simp
  show "\<exists>p n f s d pa w. 0 \<le> p \<and> 0 \<le> n \<and> 0 \<le> f \<and> 0 \<le> s \<and>
       db_loans D' = update_where (\<lambda>m. l_id m = ri_loan x) (settled_loan p n f s d pa w) (db_loans D)"
    using sf(3) bk(3) id by simp
qed

lemma sample_invariants:
  assumes "repayment_tx E ''ten'' key 61 sample_repayment loan_db = Inr (r, D')"
  shows "fst (assertLoanInvariants E' ''loan'' (emit e D')) = Inr ()"
proof -
  have ri: "ri_loan sample_repayment = ''loan''" by (simp add: sample_repayment_def)
  obtain p n f s d pa w where nn: "0 \<le> p" "0 \<le> n" "0 \<le> f" "0 \<le> s"
    and loans: "db_loans D' = [settled_loan p n f s d pa w sample_loan]"
    using tx_frame(3) [OF assms] by (auto simp: ri loan_db_def empty_db_def sample_loan_def)
  have terms: "map item_terms (db_items D') = map item_terms sample_items"
    using tx_frame(1) [OF assms] by (simp add: loan_db_def)
  have "is_cents 61" "(0::decimal) \<le> 61" by simp_all
  from tx_facts(5) [OF assms loan_db_facts(2) this] obtain rp where
    rps: "db_repayments D' = [rp]" "rp_amount rp = 61"
    by (auto simp: loan_db_def empty_db_def)
  have "db_disbursements D' = []" using tx_frame(2) [OF assms] by (simp add: loan_db_def empty_db_def)
  obtain i1 i2 where items: "db_items D' = [i1, i2]"
    and i: "item_terms i1 = (''i1'', ''ten'', ''loan'', 60)" "item_terms i2 = (''i2'', ''ten'', ''loan'', 60)"
    using terms by (auto simp: sample_items_def sample_item_def item_terms_def)
  let ?l = "settled_loan p n f s d pa w sample_loan"
  have l: "l_id ?l = ''loan''" "l_tenant ?l = ''ten''" "l_out_principal ?l = p" "l_out_interest ?l = n"
    "l_out_fees ?l = f" "l_out_total ?l = s"
    by (simp_all add: settled_loan_def sample_loan_def)
  have "scheduled_due ?l (emit e D') = Some 120"
    using items i by (simp add: scheduled_due_def sum_or_null_def l item_terms_def)
  moreover have "\<forall>v. total_repaid ?l (emit e D') = Some v \<longrightarrow> v \<le> 120"
    using rps by (simp add: total_repaid_def sum_or_null_def)
  ultimately show ?thesis
    using loan_invariants_iff [of E' "''loan''" "emit e D'"] nn
    by (simp add: loans l successful_disbursements_def \<open>db_disbursements D' = []\<close> split: option.split)
qed

definition loan_state :: "(repay_result, db) idem_state" where
  "loan_state = \<lparr>im_rows = [], im_seq = 0, im_data = loan_db\<rparr>"

definition plain_texts :: texts where
  "plain_texts = \<lparr>tx_date = (\<lambda>_. ''''), tx_decimal = (\<lambda>_. '''')\<rparr>"

lemma sample_post: "\<exists>r S'. postRepayment sample_env plain_texts sample_repayment loan_state = (Inr r, S')"
proof -
  have key: "repay_key sample_env plain_texts sample_repayment = ''k''"
    by (simp add: repay_key_def sample_repayment_def trim_or_null_def trim_def is_space_def)
  obtain r D' where tx: "repayment_tx sample_env ''ten'' ''k'' 61 sample_repayment loan_db = Inr (r, D')"
    using sample_repayment_posts by blast
  have t: "requireTenantId (Some (ri_tenant sample_repayment)) = Inr ''ten''"
    by code_simp
  have a: "money (ri_amount sample_repayment) = 61" by (simp add: sample_repayment_def)
  let ?q = "\<lparr>rq_tenant = ''ten'', rq_scope = ''REPAYMENT'', rq_key = ''k'',
      rq_hash = Some (repayment_hash sample_env plain_texts sample_repayment)\<rparr>"
  have d: "decide ?q loan_state = Inr None"
    by (simp add: decide_def tenant_find_def loan_state_def trim_def is_space_def)
  obtain i S1 where acq: "acquire sample_env ?q loan_state = Inr (i, S1)"
    using acquire_total [of loan_state ?q sample_env] by (auto simp: loan_state_def)
  obtain row where "tenant_find ?q S1 = Some row" "ik_id row = i" and data: "im_data S1 = loan_db"
    using acquire_row [OF acq] by (metis idem_state.select_convs(3) loan_state_def)
  let ?fn = "repayment_operation sample_env ''ten'' ''k'' 61 sample_repayment"
  have "?fn (im_data S1) = Inr (Some r, D')" by (simp add: repayment_operation_def tx data)
  note fin = finish_row(1,2) [of ?q S1 row i ?fn "Some r" D', OF \<open>tenant_find ?q S1 = Some row\<close>
      \<open>ik_id row = i\<close> this]
  obtain S2 where "finish i ?fn S1 = (Inr (Some r), S2)" and S2: "im_data S2 = D'"
    using fin by (metis prod.collapse)
  then have w: "withIdempotency sample_env ?q (repayment_operation sample_env ''ten'' ''k'' 61 sample_repayment)
      loan_state = (Inr (Some r), S2)"
    using withIdempotency_runs [OF d acq] by simp
  obtain D2 where "assertLoanInvariants sample_env (ri_loan sample_repayment)
      (emit (AuditEvent ''REPAYMENT.POST'' ''Repayment'' (rr_id r)) (im_data S2)) = (Inr (), D2)"
    using sample_invariants [OF tx, of sample_env] by (simp add: S2 sample_repayment_def) (metis prod.collapse)
  with w t a key show ?thesis by (simp add: postRepayment_def Let_def)
qed

theorem repayment_is_replayed_witness:
  "\<exists>r S' S''. postRepayment sample_env plain_texts sample_repayment loan_state = (Inr r, S') \<and>
     postRepayment sample_env plain_texts sample_repayment S' = (Inr r, S'') \<and>
     db_repayments (im_data S'') = db_repayments (im_data S')"
proof -
  obtain r S' where p: "postRepayment sample_env plain_texts sample_repayment loan_state = (Inr r, S')"
    using sample_post by blast
  have "0 < money (ri_amount sample_repayment)" by (simp add: sample_repayment_def)
  from repayment_is_replayed [OF p refl refl this refl] p show ?thesis by blast
qed

end
