(* ===== verification/Delinquency.thy ===== *)
theory Delinquency
  imports LoanLifecycle Calendar
begin

text \<open>
  The delinquency of a loan: the helpers of the arrears scan
  (\<open>modules/collections/arrears-utils.ts\<close>), the engine
  (\<open>modules/loans/delinquency/delinquency-engine.service.ts\<close>) and the service of the collections
  module (\<open>modules/collections/delinquency.service.ts\<close>), which both mark the overdue instalments of
  a loan and derive its days past due, its overdue amount and its status from them. The source has this
  arithmetic several times, and each copy is a definition of its own: the loop of
  \<open>computeLoanDelinquency\<close>, that of \<open>recalcLoanDelinquencyTx\<close> and the one inside \<open>updateLoanDelinquency\<close>.
\<close>

section \<open>Arrears\<close>

definition calculateDpd :: "int \<Rightarrow> int option \<Rightarrow> int" where
  "calculateDpd now earliest =
     (case earliest of None \<Rightarrow> 0 | Some d \<Rightarrow> max 0 ((now - d) div ms_per_day))"

definition determineCollectionsStage :: "int \<Rightarrow> case_stage" where
  "determineCollectionsStage dpd =
     (if 61 \<le> dpd then ST_LEGAL else if 15 \<le> dpd then ST_FIELD else ST_SOFT)"

definition sumOutstanding :: "sched_item list \<Rightarrow> decimal" where
  "sumOutstanding items = (\<Sum>i\<leftarrow>items. max 0 (si_total_due i - si_total_paid i))"

definition remainingAmount :: "sched_item \<Rightarrow> decimal" where
  "remainingAmount i = max 0 (si_total_due i - si_total_paid i)"

definition toCents :: "decimal \<Rightarrow> int" where
  "toCents v = half_up (v * 100)"

definition determineBucket :: "int \<Rightarrow> delinquency_bucket" where
  "determineBucket dpd =
     (if dpd \<le> 0 then B_CURRENT else if dpd \<le> 30 then DPD_1_30 else if dpd \<le> 60 then DPD_31_60
      else if dpd \<le> 90 then DPD_61_90 else DPD_90_PLUS)"

text \<open>An instalment is overdue once its date has passed and something of it is unpaid.\<close>

definition computeScheduleItemOverdue :: "sched_item \<Rightarrow> int \<Rightarrow> bool \<times> int option \<times> decimal" where
  "computeScheduleItemOverdue i now =
     (let remaining = remainingAmount i;
          isOverdue = (si_due i < now \<and> 0 < remaining)
      in (isOverdue,
          if isOverdue then Some (case si_overdue_since i of Some s \<Rightarrow> s | None \<Rightarrow> si_due i) else None,
          remaining))"

definition due_ordered :: "string \<Rightarrow> string \<Rightarrow> db \<Rightarrow> sched_item list" where
  "due_ordered t loan D = sort_key si_due (filter (\<lambda>i. si_tenant i = t \<and> si_loan i = loan) (db_items D))"

text \<open>The loop of the computation: it adds up what is overdue and finds the earliest overdue date.\<close>

definition arrears_step :: "int \<Rightarrow> sched_item \<Rightarrow> int option \<times> decimal \<Rightarrow> int option \<times> decimal" where
  "arrears_step now i s =
     (case computeScheduleItemOverdue i now of (isOverdue, since, remaining) \<Rightarrow>
        if \<not> isOverdue then s
        else (case fst s of
                None \<Rightarrow> Some (si_due i)
              | Some d \<Rightarrow> if si_due i < d then Some (si_due i) else Some d,
              snd s + remaining))"

definition arrears :: "int \<Rightarrow> sched_item list \<Rightarrow> int option \<times> decimal" where
  "arrears now items = fold (arrears_step now) items (None, 0)"

section \<open>The engine\<close>

record delinquency =
  dq_dpd :: int
  dq_cents :: int
  dq_status :: delinquency_status

definition delinquency_of :: "int \<Rightarrow> sched_item list \<Rightarrow> delinquency" where
  "delinquency_of now items =
     (let (earliest, overdueAmount) = arrears now items; cents = toCents overdueAmount
      in \<lparr>dq_dpd = (case earliest of None \<Rightarrow> 0 | Some d \<Rightarrow> max 0 ((now - d) div 86400000)), dq_cents = cents,
          dq_status = (if 0 < cents then DS_OVERDUE else DS_CURRENT)\<rparr>)"

definition computeLoanDelinquency :: "string \<Rightarrow> string \<Rightarrow> int \<Rightarrow> db \<Rightarrow> delinquency" where
  "computeLoanDelinquency loan t now D = delinquency_of now (due_ordered t loan D)"

text \<open>The update of an instalment's flags, when they differ from the computed ones.\<close>

definition refresh_flags :: "int \<Rightarrow> sched_item \<Rightarrow> db \<Rightarrow> db" where
  "refresh_flags now i D =
     (case computeScheduleItemOverdue i now of (isOverdue, since, remaining) \<Rightarrow>
        if si_is_overdue i \<noteq> isOverdue \<or> si_overdue_since i \<noteq> since
        then D\<lparr>db_items := update_where (\<lambda>j. si_id j = si_id i)
               (\<lambda>j. j\<lparr>si_is_overdue := isOverdue, si_overdue_since := since\<rparr>) (db_items D)\<rparr>
        else D)"

text \<open>One turn of the loop of the recalculation, which marks the instalment and then counts it.\<close>

definition engine_turn :: "int \<Rightarrow> sched_item \<Rightarrow> (int option \<times> decimal) \<times> db \<Rightarrow> (int option \<times> decimal) \<times> db" where
  "engine_turn now i s =
     (case s of ((earliest, overdueAmount), D) \<Rightarrow>
      case computeScheduleItemOverdue i now of (isOverdue, since, remaining) \<Rightarrow>
        let D1 = refresh_flags now i D
        in if \<not> isOverdue then ((earliest, overdueAmount), D1)
           else ((if (case earliest of None \<Rightarrow> True | Some d \<Rightarrow> si_due i < d) then Some (si_due i) else earliest,
                  overdueAmount + remaining), D1))"

definition recalcLoanDelinquencyTx ::
  "string \<Rightarrow> string \<Rightarrow> int \<Rightarrow> admin_role \<Rightarrow> string option \<Rightarrow> db \<Rightarrow> (delinquency \<times> db) outcome" where
  "recalcLoanDelinquencyTx loan t now actorRole actorId D =
     (case find (\<lambda>l. l_id l = loan \<and> l_tenant l = t) (db_loans D) of
        None \<Rightarrow> Inl (BadRequest ''Loan application not found.'')
      | Some l \<Rightarrow>
          case fold (engine_turn now) (due_ordered t loan D) ((None, 0), D) of ((earliest, overdueAmount), D1) \<Rightarrow>
          let cents = toCents overdueAmount;
              r = \<lparr>dq_dpd = (case earliest of None \<Rightarrow> 0 | Some d \<Rightarrow> max 0 ((now - d) div 86400000)), dq_cents = cents,
                   dq_status = (if 0 < cents then DS_OVERDUE else DS_CURRENT)\<rparr>;
              nextLifecycle = (if dq_status r = DS_OVERDUE then LS_OVERDUE else LS_DISBURSED);
              moves = ((l_status l = LS_DISBURSED \<and> nextLifecycle = LS_OVERDUE) \<or>
                       (l_status l = LS_OVERDUE \<and> nextLifecycle = LS_DISBURSED))
          in chain (if moves
                    then chain (assertValidTransition (l_status l) nextLifecycle)
                           (\<lambda>_. assertRoleCanTransition actorRole (l_status l) nextLifecycle)
                    else Inr ()) (\<lambda>_.
             let D2 = D1\<lparr>db_loans := update_where (\<lambda>m. l_id m = l_id l)
                   (\<lambda>m. m\<lparr>l_days_past_due := dq_dpd r, l_overdue_cents := dq_cents r,
                          l_delinquency := dq_status r, l_last_delinquency := Some now,
                          l_status := (if moves then nextLifecycle else l_status m)\<rparr>) (db_loans D1)\<rparr>
             in Inr (r, if moves
                   then D2\<lparr>db_history := db_history D2 @
                     [\<lparr>hi_tenant = t, hi_loan = l_id l, hi_from = Some (l_status l), hi_to = nextLifecycle,
                       hi_note = Some (if nextLifecycle = LS_OVERDUE
                                       then ''SYSTEM transition: delinquency became OVERDUE''
                                       else ''SYSTEM transition: delinquency returned to CURRENT''),
                       hi_by = actorId\<rparr>]\<rparr>
                   else D2)))"

text \<open>The transaction and its audit entry, which is written outside of it.\<close>

definition engine_recalcLoanDelinquency ::
  "string \<Rightarrow> string \<Rightarrow> int \<Rightarrow> admin_role \<Rightarrow> string option \<Rightarrow> db \<Rightarrow> (delinquency \<times> db) outcome" where
  "engine_recalcLoanDelinquency loan t now actorRole actorId D =
     chain (recalcLoanDelinquencyTx loan t now actorRole actorId D) (\<lambda>(r, D1).
       Inr (r, emit (Audit ''DELINQUENCY_RECALCULATED'' ''TENANT_LOAN_APPLICATION'' loan) D1))"

section \<open>The collections service\<close>

definition assertTenantMatch :: "string \<Rightarrow> string \<Rightarrow> unit outcome" where
  "assertTenantMatch entityTenantId jwtTenantId =
     (if entityTenantId = '''' \<or> entityTenantId \<noteq> jwtTenantId
      then Inl (Internal ''Tenant integrity check failed.'') else Inr ())"

fun status_name :: "loan_status \<Rightarrow> string" where
  "status_name LS_DRAFT = ''DRAFT''" | "status_name LS_SUBMITTED = ''SUBMITTED''"
| "status_name LS_UNDER_REVIEW = ''UNDER_REVIEW''"
| "status_name LS_REQUESTED_DOCUMENTS = ''REQUESTED_DOCUMENTS''"
| "status_name LS_APPROVED = ''APPROVED''"
| "status_name LS_READY_FOR_DISBURSEMENT = ''READY_FOR_DISBURSEMENT''"
| "status_name LS_DISBURSED = ''DISBURSED''" | "status_name LS_OVERDUE = ''OVERDUE''"
| "status_name LS_WRITTEN_OFF = ''WRITTEN_OFF''" | "status_name LS_SETTLED = ''SETTLED''"
| "status_name LS_REPAID = ''REPAID''" | "status_name LS_DEFAULTED = ''DEFAULTED''"
| "status_name LS_REJECTED = ''REJECTED''"

definition calculateDaysPastDue :: "string \<Rightarrow> string \<Rightarrow> int \<Rightarrow> db \<Rightarrow> int" where
  "calculateDaysPastDue loan t now D =
     (case find (\<lambda>i. si_due i < now \<and> 0 < si_total_due i \<and>
                   (si_status i \<in> {SI_PENDING, SI_PARTIAL, SI_OVERDUE} \<or> si_is_overdue i)) (due_ordered t loan D) of
        None \<Rightarrow> 0
      | Some i \<Rightarrow> max 0 ((now - si_due i) div 86400000))"

record loan_delinquency =
  ld_dpd :: int
  ld_bucket :: delinquency_bucket
  ld_cents :: int

text \<open>
  One turn of the loop of the service, with its own arithmetic. Unlike the engine, it also rewrites the
  status of an instalment it touches.
\<close>

definition service_turn :: "int \<Rightarrow> sched_item \<Rightarrow> (int option \<times> decimal) \<times> db \<Rightarrow> (int option \<times> decimal) \<times> db" where
  "service_turn now i s =
     (case s of ((earliestOverdue, overdueAmount), D) \<Rightarrow>
        let remaining = max 0 (si_total_due i - si_total_paid i);
            isOverdue = (now > si_due i \<and> remaining > 0);
            since = (if isOverdue then Some (case si_overdue_since i of Some d \<Rightarrow> d | None \<Rightarrow> si_due i) else None);
            D1 = (if si_is_overdue i \<noteq> isOverdue \<or> si_overdue_since i \<noteq> since
                  then D\<lparr>db_items := update_where (\<lambda>j. si_id j = si_id i)
                         (\<lambda>j. j\<lparr>si_is_overdue := isOverdue, si_overdue_since := since,
                                si_status := (if isOverdue then SI_OVERDUE
                                              else if remaining = 0 then SI_PAID
                                              else if si_total_paid i > 0 then SI_PARTIAL
                                              else SI_PENDING)\<rparr>) (db_items D)\<rparr>
                  else D)
        in if isOverdue
           then ((case earliestOverdue of
                    None \<Rightarrow> Some (si_due i)
                  | Some d \<Rightarrow> if si_due i < d then Some (si_due i) else earliestOverdue,
                  overdueAmount + remaining), D1)
           else ((earliestOverdue, overdueAmount), D1))"

definition next_status :: "int \<Rightarrow> loan_status \<Rightarrow> loan_status" where
  "next_status cents s =
     (if 0 < cents then if s = LS_DISBURSED then LS_OVERDUE else s
      else if s = LS_OVERDUE then LS_DISBURSED else s)"

definition updateLoanDelinquency ::
  "string \<Rightarrow> string \<Rightarrow> int \<Rightarrow> db \<Rightarrow> (loan_delinquency \<times> db) outcome" where
  "updateLoanDelinquency loan t now D =
     (case find (\<lambda>l. l_id l = loan \<and> l_tenant l = t) (db_loans D) of
        None \<Rightarrow> Inl (BadRequest ''Loan application not found.'')
      | Some l \<Rightarrow>
          chain (assertTenantMatch (l_tenant l) t) (\<lambda>_.
          case fold (service_turn now) (due_ordered t loan D) ((None, 0), D) of ((earliestOverdue, overdueAmount), D1) \<Rightarrow>
          let dpd = (case earliestOverdue of None \<Rightarrow> 0 | Some d \<Rightarrow> max 0 ((now - d) div 86400000));
              bucket = determineBucket dpd;
              cents = half_up (overdueAmount * 100);
              previousBucket = (case l_bucket l of None \<Rightarrow> B_CURRENT | Some b \<Rightarrow> b);
              nextStatus = next_status cents (l_status l)
          in chain (if nextStatus \<noteq> l_status l
                    then chain (assertValidTransition (l_status l) nextStatus)
                           (\<lambda>_. assertRoleCanTransition SYSTEM (l_status l) nextStatus)
                    else Inr ()) (\<lambda>_.
             let D2 = D1\<lparr>db_loans := update_where (\<lambda>m. l_id m = l_id l)
                   (\<lambda>m. m\<lparr>l_days_past_due := dpd, l_bucket := Some bucket, l_overdue_cents := cents,
                          l_delinquency := (if 0 < cents then DS_OVERDUE else DS_CURRENT),
                          l_last_delinquency := Some now,
                          l_status := (if nextStatus \<noteq> l_status l then nextStatus else l_status m)\<rparr>)
                   (db_loans D1)\<rparr>;
                 D3 = (if previousBucket \<noteq> bucket
                       then D2\<lparr>db_delinquency := db_delinquency D2 @
                         [\<lparr>de_tenant = t, de_loan = l_id l, de_dpd = dpd, de_bucket = bucket, de_at = now\<rparr>]\<rparr>
                       else D2);
                 D4 = (if nextStatus \<noteq> l_status l
                       then D3\<lparr>db_history := db_history D3 @
                         [\<lparr>hi_tenant = t, hi_loan = l_id l, hi_from = Some (l_status l), hi_to = nextStatus,
                           hi_note = Some (''SYSTEM transition during delinquency update: '' @
                             status_name (l_status l) @ '' -> '' @ status_name nextStatus),
                           hi_by = None\<rparr>]\<rparr>
                       else D3)
             in Inr (\<lparr>ld_dpd = dpd, ld_bucket = bucket, ld_cents = cents\<rparr>, D4))))"

section \<open>The copies agree\<close>

text \<open>The loops of the engine and of the service, split into what they mark and what they count.\<close>

definition refresh_item :: "int \<Rightarrow> sched_item \<Rightarrow> db \<Rightarrow> db" where
  "refresh_item now i D =
     (case computeScheduleItemOverdue i now of (isOverdue, since, remaining) \<Rightarrow>
        if si_is_overdue i \<noteq> isOverdue \<or> si_overdue_since i \<noteq> since
        then D\<lparr>db_items := update_where (\<lambda>j. si_id j = si_id i)
               (\<lambda>j. j\<lparr>si_is_overdue := isOverdue, si_overdue_since := since,
                      si_status := (if isOverdue then SI_OVERDUE
                                    else if remaining = 0 then SI_PAID
                                    else if 0 < si_total_paid i then SI_PARTIAL
                                    else SI_PENDING)\<rparr>) (db_items D)\<rparr>
        else D)"

lemma engine_loop:
  "fold (engine_turn now) items (s, D) = (fold (arrears_step now) items s, fold (refresh_flags now) items D)"
proof (induction items arbitrary: s D)
  case (Cons i items)
  have "engine_turn now i (s, D) = (arrears_step now i s, refresh_flags now i D)"
    by (cases s) (simp add: engine_turn_def arrears_step_def Let_def split: prod.split option.split)
  with Cons show ?case by simp
qed simp

lemma service_loop:
  "fold (service_turn now) items (s, D) = (fold (arrears_step now) items s, fold (refresh_item now) items D)"
proof (induction items arbitrary: s D)
  case (Cons i items)
  obtain e a where s: "s = (e, a)" by (cases s)
  let ?late = "si_due i < now \<and> 0 < max 0 (si_total_due i - si_total_paid i)"
  have c: "computeScheduleItemOverdue i now =
      (?late, if ?late then Some (case si_overdue_since i of Some d \<Rightarrow> d | None \<Rightarrow> si_due i) else None,
       max 0 (si_total_due i - si_total_paid i))"
    by (simp only: computeScheduleItemOverdue_def remainingAmount_def Let_def)
  have "service_turn now i (s, D) = (arrears_step now i s, refresh_item now i D)"
    unfolding s service_turn_def arrears_step_def refresh_item_def c prod.case Let_def
    by (cases "?late"; cases e) (simp_all only: if_True if_False simp_thms fst_conv snd_conv option.case)
  with Cons show ?case by simp
qed simp

lemma days_inline: "(case e of None \<Rightarrow> 0 | Some d \<Rightarrow> max 0 ((now - d) div 86400000)) = calculateDpd now e"
  by (simp add: calculateDpd_def ms_per_day_def split: option.split)

section \<open>What the loop computes\<close>

definition overdue_items :: "int \<Rightarrow> sched_item list \<Rightarrow> sched_item list" where
  "overdue_items now items = filter (\<lambda>i. si_due i < now \<and> si_total_paid i < si_total_due i) items"

lemma overdue_item [simp]:
  "fst (computeScheduleItemOverdue i now) \<longleftrightarrow> si_due i < now \<and> si_total_paid i < si_total_due i"
  by (auto simp: computeScheduleItemOverdue_def remainingAmount_def Let_def)

lemma arrears_step_eq:
  "arrears_step now i (e, a) =
     (if si_due i < now \<and> si_total_paid i < si_total_due i
      then (Some (case e of None \<Rightarrow> si_due i | Some d \<Rightarrow> min (si_due i) d), a + (si_total_due i - si_total_paid i))
      else (e, a))"
  by (auto simp: arrears_step_def computeScheduleItemOverdue_def remainingAmount_def Let_def min_def
      split: option.splits)

lemma arrears_fold:
  "fold (arrears_step now) items (e, a) =
     (let S = set_option e \<union> si_due ` set (overdue_items now items)
      in if S = {} then None else Some (Min S),
      a + (\<Sum>i\<leftarrow>overdue_items now items. si_total_due i - si_total_paid i))"
proof (induction items arbitrary: e a)
  case Nil
  then show ?case by (cases e) (simp_all add: overdue_items_def)
next
  case (Cons i items)
  show ?case
  proof (cases "si_due i < now \<and> si_total_paid i < si_total_due i")
    case True
    then have od: "overdue_items now (i # items) = i # overdue_items now items" by (simp add: overdue_items_def)
    let ?T = "si_due ` set (overdue_items now items)"
    have fin: "finite ?T" by simp
    have "min d (Min (insert x ?T)) = min x (Min (insert d ?T))" for d x
      using fin by (cases "?T = {}") (simp_all add: min.left_commute min.commute)
    moreover have "Min (insert (min (si_due i) d) ?T) = min d (Min (insert (si_due i) ?T))" for d
      using fin by (cases "?T = {}") (simp_all add: min.left_commute min.commute)
    ultimately show ?thesis using True
      by (cases e) (simp_all only: arrears_step_eq Cons.IH od Let_def fold_Cons comp_apply if_True simp_thms,
        simp_all add: algebra_simps)
  next
    case False
    then have "overdue_items now (i # items) = overdue_items now items" by (auto simp: overdue_items_def)
    moreover have "arrears_step now i (e, a) = (e, a)" unfolding arrears_step_eq using False by (rule if_not_P)
    ultimately show ?thesis by (simp add: Cons.IH)
  qed
qed

lemma arrears_eq:
  "arrears now items =
     (let S = si_due ` set (overdue_items now items) in if S = {} then None else Some (Min S),
      \<Sum>i\<leftarrow>overdue_items now items. si_total_due i - si_total_paid i)"
  unfolding arrears_def arrears_fold by simp

text \<open>The days past due of the instalments, and what they owe.\<close>

definition days_past_due :: "int \<Rightarrow> sched_item list \<Rightarrow> int" where
  "days_past_due now items =
     (case overdue_items now items of
        [] \<Rightarrow> 0
      | i # rest \<Rightarrow> (now - Min (si_due ` set (i # rest))) div ms_per_day)"

definition overdue_cents :: "int \<Rightarrow> sched_item list \<Rightarrow> int" where
  "overdue_cents now items = toCents (\<Sum>i\<leftarrow>overdue_items now items. si_total_due i - si_total_paid i)"

lemma dpd_arrears: "calculateDpd now (fst (arrears now items)) = days_past_due now items"
proof (cases "overdue_items now items")
  case Nil
  then show ?thesis by (simp add: arrears_eq calculateDpd_def days_past_due_def)
next
  case (Cons i rest)
  let ?S = "si_due ` set (overdue_items now items)"
  have "Min ?S \<in> ?S" using Cons by (intro Min_in) auto
  then have "Min ?S < now" by (auto simp: overdue_items_def)
  then have "0 \<le> (now - Min ?S) div ms_per_day" by (simp add: ms_per_day_def)
  then show ?thesis using Cons by (simp add: arrears_eq calculateDpd_def days_past_due_def)
qed

lemma cents_arrears: "toCents (snd (arrears now items)) = overdue_cents now items"
  by (simp add: arrears_eq overdue_cents_def)

section \<open>What the updates do\<close>

definition refreshed_flags :: "int \<Rightarrow> sched_item \<Rightarrow> sched_item \<Rightarrow> sched_item" where
  "refreshed_flags now i j =
     (case computeScheduleItemOverdue i now of (isOverdue, since, remaining) \<Rightarrow>
        if si_is_overdue i \<noteq> isOverdue \<or> si_overdue_since i \<noteq> since
        then j\<lparr>si_is_overdue := isOverdue, si_overdue_since := since\<rparr> else j)"

definition refreshed_item :: "int \<Rightarrow> sched_item \<Rightarrow> sched_item \<Rightarrow> sched_item" where
  "refreshed_item now i j =
     (case computeScheduleItemOverdue i now of (isOverdue, since, remaining) \<Rightarrow>
        if si_is_overdue i \<noteq> isOverdue \<or> si_overdue_since i \<noteq> since
        then j\<lparr>si_is_overdue := isOverdue, si_overdue_since := since,
               si_status := (if isOverdue then SI_OVERDUE else if remaining = 0 then SI_PAID
                             else if 0 < si_total_paid i then SI_PARTIAL else SI_PENDING)\<rparr> else j)"

lemma refreshed_frame [simp]:
  "si_id (refreshed_item now i j) = si_id j" "si_tenant (refreshed_item now i j) = si_tenant j"
  "si_loan (refreshed_item now i j) = si_loan j" "si_due (refreshed_item now i j) = si_due j"
  "si_total_due (refreshed_item now i j) = si_total_due j"
  "si_total_paid (refreshed_item now i j) = si_total_paid j"
  by (simp_all add: refreshed_item_def split: prod.splits)

lemma refreshed_flags_frame [simp]: "si_id (refreshed_flags now i j) = si_id j"
  by (simp add: refreshed_flags_def split: prod.splits)

lemma refresh_item_eq:
  "refresh_item now i D =
     D\<lparr>db_items := update_where (\<lambda>j. si_id j = si_id i) (refreshed_item now i) (db_items D)\<rparr>"
  by (simp add: refresh_item_def refreshed_item_def update_where_def cong: if_cong split: prod.splits)

lemma refresh_flags_eq:
  "refresh_flags now i D =
     D\<lparr>db_items := update_where (\<lambda>j. si_id j = si_id i) (refreshed_flags now i) (db_items D)\<rparr>"
  by (simp add: refresh_flags_def refreshed_flags_def update_where_def cong: if_cong split: prod.splits)

lemma fold_refresh_item:
  "fold (refresh_item now) items D =
     D\<lparr>db_items := fold (\<lambda>i. update_where (\<lambda>j. si_id j = si_id i) (refreshed_item now i)) items (db_items D)\<rparr>"
  by (induction items arbitrary: D) (simp_all add: refresh_item_eq)

lemma fold_refresh_flags:
  "fold (refresh_flags now) items D =
     D\<lparr>db_items := fold (\<lambda>i. update_where (\<lambda>j. si_id j = si_id i) (refreshed_flags now i)) items (db_items D)\<rparr>"
  by (induction items arbitrary: D) (simp_all add: refresh_flags_eq)

text \<open>After an update the flags of the instalment are the computed ones.\<close>

lemma computed_again: "computeScheduleItemOverdue (refreshed_item now i i) now = computeScheduleItemOverdue i now"
  unfolding refreshed_item_def
  by (auto simp: computeScheduleItemOverdue_def remainingAmount_def Let_def split: option.splits)

lemma refreshed_again:
  assumes "computeScheduleItemOverdue i now = (b, s, a)"
  shows "si_is_overdue (refreshed_item now i i) = b" "si_overdue_since (refreshed_item now i i) = s"
  using assms by (auto simp: refreshed_item_def)

lemma refreshed_fixed: "refreshed_item now (refreshed_item now i i) j = j"
  unfolding refreshed_item_def [of now "refreshed_item now i i"] computed_again
  by (auto simp: refreshed_again split: prod.splits)

lemma due_ordered_set: "set (due_ordered t loan D) = {i \<in> set (db_items D). si_tenant i = t \<and> si_loan i = loan}"
  by (auto simp: due_ordered_def)

lemma distinct_due_ordered:
  "distinct (map si_id (db_items D)) \<Longrightarrow> distinct (map si_id (due_ordered t loan D))"
  by (simp add: due_ordered_def distinct_map inj_on_def)

text \<open>The schedule after the loop.\<close>

lemma refreshed_items:
  assumes "distinct (map si_id (db_items D))"
  shows "db_items (fold (refresh_item now) (due_ordered t loan D) D) =
    map (\<lambda>j. if si_tenant j = t \<and> si_loan j = loan then refreshed_item now j j else j) (db_items D)"
proof -
  have "set (due_ordered t loan D) \<subseteq> set (db_items D)" by (auto simp: due_ordered_set)
  from fold_update_where_own [where g = "refreshed_item now", OF assms distinct_due_ordered [OF assms] this]
  show ?thesis
    unfolding fold_refresh_item by (simp add: due_ordered_set cong: map_cong)
qed

lemma due_ordered_refreshed:
  assumes "db_items D' =
    map (\<lambda>j. if si_tenant j = t \<and> si_loan j = loan then refreshed_item now j j else j) (db_items D)"
  shows "due_ordered t loan D' = map (\<lambda>j. refreshed_item now j j) (due_ordered t loan D)"
proof -
  have "filter (\<lambda>i. si_tenant i = t \<and> si_loan i = loan)
      (map (\<lambda>j. if si_tenant j = t \<and> si_loan j = loan then refreshed_item now j j else j) js) =
    map (\<lambda>j. refreshed_item now j j) (filter (\<lambda>i. si_tenant i = t \<and> si_loan i = loan) js)" for js
    by (induction js) auto
  then show ?thesis unfolding due_ordered_def assms by (simp add: sort_key_map_same)
qed

lemma arrears_refreshed: "arrears now (map (\<lambda>j. refreshed_item now j j) items) = arrears now items"
proof -
  have "arrears_step now (refreshed_item now j j) s = arrears_step now j s" for j s
    by (simp add: arrears_step_def computed_again split: prod.split option.split)
  then have "fold (arrears_step now) (map (\<lambda>j. refreshed_item now j j) items) s =
      fold (arrears_step now) items s" for s
    by (induction items arbitrary: s) simp_all
  then show ?thesis by (simp add: arrears_def)
qed

text \<open>An instalment after the loop, spelled out.\<close>

definition marked_item :: "int \<Rightarrow> sched_item \<Rightarrow> sched_item" where
  "marked_item now i =
     (let late = (si_due i < now \<and> si_total_paid i < si_total_due i);
          since = (if late then Some (case si_overdue_since i of Some d \<Rightarrow> d | None \<Rightarrow> si_due i) else None)
      in i\<lparr>si_is_overdue := late, si_overdue_since := since,
           si_status := (if si_is_overdue i = late \<and> si_overdue_since i = since then si_status i
                         else if late then SI_OVERDUE
                         else if si_total_due i \<le> si_total_paid i then SI_PAID
                         else if 0 < si_total_paid i then SI_PARTIAL else SI_PENDING)\<rparr>)"

lemma refreshed_is_marked: "refreshed_item now i i = marked_item now i"
proof -
  let ?late = "si_due i < now \<and> si_total_paid i < si_total_due i"
  let ?since = "if ?late then Some (case si_overdue_since i of Some d \<Rightarrow> d | None \<Rightarrow> si_due i) else None"
  have c: "computeScheduleItemOverdue i now = (?late, ?since, max 0 (si_total_due i - si_total_paid i))"
    by (auto simp: computeScheduleItemOverdue_def remainingAmount_def Let_def)
  have z: "max 0 (si_total_due i - si_total_paid i) = 0 \<longleftrightarrow> si_total_due i \<le> si_total_paid i" by auto
  show ?thesis
  proof (cases "si_is_overdue i = ?late \<and> si_overdue_since i = ?since")
    case True
    then have "refreshed_item now i i = i" unfolding refreshed_item_def c prod.case by metis
    moreover have "marked_item now i = i" unfolding marked_item_def Let_def using True by simp
    ultimately show ?thesis by simp
  next
    case False
    then have "si_is_overdue i \<noteq> ?late \<or> si_overdue_since i \<noteq> ?since" by metis
    with False show ?thesis unfolding refreshed_item_def marked_item_def c prod.case z Let_def by (simp only: if_True if_False)
  qed
qed

text \<open>The loan after an update, and the update in closed form.\<close>

definition delinquent_loan :: "int \<Rightarrow> sched_item list \<Rightarrow> loan \<Rightarrow> loan \<Rightarrow> loan" where
  "delinquent_loan now items l m =
     m\<lparr>l_days_past_due := days_past_due now items,
       l_bucket := Some (determineBucket (days_past_due now items)),
       l_overdue_cents := overdue_cents now items,
       l_delinquency := (if 0 < overdue_cents now items then DS_OVERDUE else DS_CURRENT),
       l_last_delinquency := Some now,
       l_status := (if next_status (overdue_cents now items) (l_status l) \<noteq> l_status l
                    then next_status (overdue_cents now items) (l_status l) else l_status m)\<rparr>"

lemma next_status_allowed:
  "next_status c s \<noteq> s \<Longrightarrow> next_status c s \<in> set (getAllowedTransitions s) \<and> roleCanTransition SYSTEM s (next_status c s)"
  by (cases s) (auto simp: next_status_def roleCanTransition_def split: if_splits)

lemma next_status_again [simp]: "next_status c (next_status c s) = next_status c s"
  by (auto simp: next_status_def)

lemma update_form:
  fixes t loan now D l
  defines "items \<equiv> due_ordered t loan D"
  defines "next \<equiv> next_status (overdue_cents now items) (l_status l)"
  assumes "find (\<lambda>l. l_id l = loan \<and> l_tenant l = t) (db_loans D) = Some l" "t \<noteq> ''''"
  shows "updateLoanDelinquency loan t now D =
    Inr (\<lparr>ld_dpd = days_past_due now items, ld_bucket = determineBucket (days_past_due now items),
          ld_cents = overdue_cents now items\<rparr>,
      (fold (refresh_item now) items D)
        \<lparr>db_loans := update_where (\<lambda>m. l_id m = l_id l) (delinquent_loan now items l) (db_loans D),
         db_delinquency := db_delinquency D @
           (if (case l_bucket l of None \<Rightarrow> B_CURRENT | Some b \<Rightarrow> b) \<noteq> determineBucket (days_past_due now items)
            then [\<lparr>de_tenant = t, de_loan = l_id l, de_dpd = days_past_due now items,
                   de_bucket = determineBucket (days_past_due now items), de_at = now\<rparr>] else []),
         db_history := db_history D @
           (if next \<noteq> l_status l
            then [\<lparr>hi_tenant = t, hi_loan = l_id l, hi_from = Some (l_status l), hi_to = next,
                   hi_note = Some (''SYSTEM transition during delinquency update: '' @
                     status_name (l_status l) @ '' -> '' @ status_name next), hi_by = None\<rparr>] else [])\<rparr>)"
proof -
  have lt: "l_tenant l = t" using find_SomeD [OF assms(3)] by simp
  obtain e a where ea: "arrears now items = (e, a)" by (cases "arrears now items")
  have d: "calculateDpd now e = days_past_due now items" and c: "toCents a = overdue_cents now items"
    using dpd_arrears [of now items] cents_arrears [of now items] by (simp_all add: ea)
  have ok: "(if next \<noteq> l_status l
      then chain (assertValidTransition (l_status l) next) (\<lambda>_. assertRoleCanTransition SYSTEM (l_status l) next)
      else Inr ()) = Inr ()"
    using next_status_allowed unfolding next_def by (simp add: outcome_simps)
  have frame: "db_loans (fold (refresh_item now) items D) = db_loans D"
    "db_delinquency (fold (refresh_item now) items D) = db_delinquency D"
    "db_history (fold (refresh_item now) items D) = db_history D"
    by (simp_all add: fold_refresh_item)
  have m: "assertTenantMatch (l_tenant l) t = Inr ()" using lt assms(4) by (simp add: assertTenantMatch_def)
  have dl: "delinquent_loan now items l = (\<lambda>m. m\<lparr>l_days_past_due := days_past_due now items,
      l_bucket := Some (determineBucket (days_past_due now items)), l_overdue_cents := overdue_cents now items,
      l_delinquency := (if 0 < overdue_cents now items then DS_OVERDUE else DS_CURRENT),
      l_last_delinquency := Some now, l_status := (if next \<noteq> l_status l then next else l_status m)\<rparr>)"
    by (rule ext) (simp add: delinquent_loan_def next_def)
  show ?thesis
    unfolding updateLoanDelinquency_def assms(3) option.case m chain_Inr items_def [symmetric] service_loop
      ea [unfolded arrears_def] prod.case days_inline toCents_def [symmetric] Let_def d c next_def [symmetric] ok dl
    by (simp add: frame)
qed

lemma delinquent_frame [simp]:
  "l_id (delinquent_loan now items l m) = l_id m" "l_tenant (delinquent_loan now items l m) = l_tenant m"
  by (simp_all add: delinquent_loan_def)

lemma update_Inr:
  assumes "updateLoanDelinquency loan t now D = Inr (r, D')"
  obtains l where "find (\<lambda>l. l_id l = loan \<and> l_tenant l = t) (db_loans D) = Some l" "t \<noteq> ''''"
proof -
  from assms obtain l where l: "find (\<lambda>l. l_id l = loan \<and> l_tenant l = t) (db_loans D) = Some l"
    by (auto simp: updateLoanDelinquency_def split: option.splits)
  have "l_tenant l = t" using find_SomeD [OF l] by simp
  then have "t \<noteq> ''''" using assms l by (auto simp: updateLoanDelinquency_def assertTenantMatch_def)
  with l show ?thesis by (rule that)
qed

text \<open>
  C12. A delinquency update makes the loan and its schedule say what the dates and payments say. On every
  instalment of the loan, and on no other, the overdue flag is set exactly when its date has passed and
  something of it is unpaid, with the date it is overdue since (the one it had, or its due date), and the
  status is rewritten when one of the two changed; no amount changes. The overdue amount of the loan is what
  the overdue instalments still owe, the days past due count from the earliest of them, bucket and
  delinquency status follow, and a disbursed loan is marked overdue exactly when something is overdue, and
  marked disbursed again when nothing is; no other status and no other loan changes.
\<close>

theorem delinquency_reflects_schedule:
  assumes "updateLoanDelinquency loan t now D = Inr (r, D')" "distinct (map l_id (db_loans D))"
    and "distinct (map si_id (db_items D))"
  shows "\<exists>l l' od. find (\<lambda>l. l_id l = loan \<and> l_tenant l = t) (db_loans D) = Some l \<and>
    find (\<lambda>l. l_id l = loan \<and> l_tenant l = t) (db_loans D') = Some l' \<and>
    filter (\<lambda>m. l_id m \<noteq> loan) (db_loans D') = filter (\<lambda>m. l_id m \<noteq> loan) (db_loans D) \<and>
    od = filter (\<lambda>i. si_due i < now \<and> si_total_paid i < si_total_due i) (due_ordered t loan D) \<and>
    db_items D' = map (\<lambda>i. if si_tenant i = t \<and> si_loan i = loan
      then (let late = (si_due i < now \<and> si_total_paid i < si_total_due i);
                since = (if late then Some (case si_overdue_since i of Some d \<Rightarrow> d | None \<Rightarrow> si_due i) else None)
            in i\<lparr>si_is_overdue := late, si_overdue_since := since,
                 si_status := (if si_is_overdue i = late \<and> si_overdue_since i = since then si_status i
                               else if late then SI_OVERDUE
                               else if si_total_due i \<le> si_total_paid i then SI_PAID
                               else if 0 < si_total_paid i then SI_PARTIAL else SI_PENDING)\<rparr>)
      else i) (db_items D) \<and>
    l_overdue_cents l' = toCents (\<Sum>i\<leftarrow>od. si_total_due i - si_total_paid i) \<and>
    l_days_past_due l' = (if od = [] then 0 else (now - Min (si_due ` set od)) div ms_per_day) \<and>
    l_bucket l' = Some (determineBucket (l_days_past_due l')) \<and>
    l_delinquency l' = (if 0 < l_overdue_cents l' then DS_OVERDUE else DS_CURRENT) \<and>
    l_last_delinquency l' = Some now \<and>
    r = \<lparr>ld_dpd = l_days_past_due l', ld_bucket = determineBucket (l_days_past_due l'),
         ld_cents = l_overdue_cents l'\<rparr> \<and>
    l_status l' = (if l_status l \<in> {LS_DISBURSED, LS_OVERDUE}
                   then if 0 < l_overdue_cents l' then LS_OVERDUE else LS_DISBURSED else l_status l)"
proof -
  obtain l where l: "find (\<lambda>l. l_id l = loan \<and> l_tenant l = t) (db_loans D) = Some l" and ne: "t \<noteq> ''''"
    by (rule update_Inr [OF assms(1)])
  have li: "l_id l = loan" using find_SomeD [OF l] by simp
  let ?items = "due_ordered t loan D"
  let ?l = "delinquent_loan now ?items l l"
  note form = update_form [OF l ne, of now]
  have items: "db_items D' = db_items (fold (refresh_item now) ?items D)"
    and loans: "db_loans D' = update_where (\<lambda>m. l_id m = l_id l) (delinquent_loan now ?items l) (db_loans D)"
    using assms(1) unfolding form by auto
  have marks: "db_items D' = map (\<lambda>i. if si_tenant i = t \<and> si_loan i = loan then marked_item now i else i) (db_items D)"
    unfolding items refreshed_items [OF assms(3)] refreshed_is_marked ..
  have others: "filter (\<lambda>m. l_id m \<noteq> loan) (db_loans D') = filter (\<lambda>m. l_id m \<noteq> loan) (db_loans D)"
  proof -
    have "filter (\<lambda>m. l_id m \<noteq> loan) (update_where (\<lambda>m. l_id m = l_id l) f ls) = filter (\<lambda>m. l_id m \<noteq> loan) ls"
      if "\<And>m. l_id (f m) = l_id m" for f ls
      by (induction ls) (simp_all add: that li)
    from this [of "delinquent_loan now ?items l" "db_loans D"] show ?thesis unfolding loans by simp
  qed
  have "find (\<lambda>l. l_id l = loan \<and> l_tenant l = t) (db_loans D') = Some ?l"
    using find_updated_loan [OF l _ assms(2), of "delinquent_loan now ?items l"] unfolding loans by simp
  moreover have "r = \<lparr>ld_dpd = days_past_due now ?items,
      ld_bucket = determineBucket (days_past_due now ?items), ld_cents = overdue_cents now ?items\<rparr>"
    using assms(1) unfolding form by simp
  moreover have "days_past_due now ?items = (if overdue_items now ?items = [] then 0
      else (now - Min (si_due ` set (overdue_items now ?items))) div ms_per_day)"
    by (simp add: days_past_due_def split: list.split)
  moreover have "l_status ?l = (if l_status l \<in> {LS_DISBURSED, LS_OVERDUE}
      then if 0 < overdue_cents now ?items then LS_OVERDUE else LS_DISBURSED else l_status l)"
    by (auto simp: delinquent_loan_def next_status_def)
  moreover have "l_overdue_cents ?l = overdue_cents now ?items" "l_days_past_due ?l = days_past_due now ?items"
    "l_bucket ?l = Some (determineBucket (days_past_due now ?items))" "l_last_delinquency ?l = Some now"
    "l_delinquency ?l = (if 0 < overdue_cents now ?items then DS_OVERDUE else DS_CURRENT)"
    by (simp_all add: delinquent_loan_def)
  ultimately show ?thesis
    using l marks others by (intro exI [of _ l] exI [of _ ?l] exI [of _ "overdue_items now ?items"] conjI)
      (simp_all only: overdue_items_def overdue_cents_def marked_item_def)
qed

text \<open>
  Recalculating is idempotent: run again at the same time, the update finds nothing to change,
  so it neither records another event nor another status change.
\<close>

lemma delinquency_update_idempotent:
  assumes "updateLoanDelinquency loan t now D = Inr (r, D')"
    and "distinct (map l_id (db_loans D))" "distinct (map si_id (db_items D))"
  shows "updateLoanDelinquency loan t now D' = Inr (r, D')"
proof -
  obtain l where l: "find (\<lambda>l. l_id l = loan \<and> l_tenant l = t) (db_loans D) = Some l" and ne: "t \<noteq> ''''"
    by (rule update_Inr [OF assms(1)])
  let ?items = "due_ordered t loan D"
  let ?l = "delinquent_loan now ?items l l"
  note form = update_form [OF l ne, of now]
  from assms(1) have r: "r = \<lparr>ld_dpd = days_past_due now ?items,
      ld_bucket = determineBucket (days_past_due now ?items), ld_cents = overdue_cents now ?items\<rparr>"
    and loans: "db_loans D' = update_where (\<lambda>m. l_id m = l_id l) (delinquent_loan now ?items l) (db_loans D)"
    and items: "db_items D' = db_items (fold (refresh_item now) ?items D)"
    unfolding form by auto
  note schedule = items [unfolded refreshed_items [OF assms(3)]]
  have l': "find (\<lambda>l. l_id l = loan \<and> l_tenant l = t) (db_loans D') = Some ?l"
    unfolding loans by (rule find_updated_loan [OF l _ assms(2)]) simp
  have items': "due_ordered t loan D' = map (\<lambda>j. refreshed_item now j j) ?items"
    by (rule due_ordered_refreshed [OF schedule])
  have same: "overdue_items now (due_ordered t loan D') = map (\<lambda>j. refreshed_item now j j) (overdue_items now ?items)"
    unfolding items' overdue_items_def by (simp add: filter_map comp_def)
  have dpd: "days_past_due now (due_ordered t loan D') = days_past_due now ?items"
    and cents: "overdue_cents now (due_ordered t loan D') = overdue_cents now ?items"
    using arg_cong [OF arrears_refreshed [of now ?items], of "\<lambda>p. calculateDpd now (fst p)"]
      arg_cong [OF arrears_refreshed [of now ?items], of "\<lambda>p. toCents (snd p)"]
    by (simp_all add: items' dpd_arrears cents_arrears)
  have row: "delinquent_loan now (due_ordered t loan D') ?l m = m" if "m \<in> set (db_loans D')" "l_id m = l_id ?l" for m
  proof -
    have "distinct (map l_id (db_loans D'))" unfolding loans using assms(2) by (simp add: map_update_where)
    moreover have "?l \<in> set (db_loans D')" using l' by (auto dest: find_SomeD)
    ultimately have "m = ?l" using that by (metis distinct_map inj_onD)
    then show ?thesis by (simp add: delinquent_loan_def dpd cents)
  qed
  have "update_where (\<lambda>m. l_id m = l_id ?l) (delinquent_loan now (due_ordered t loan D') ?l) (db_loans D') = db_loans D'"
    unfolding update_where_def using row by (intro map_idI) auto
  moreover have "fold (refresh_item now) (due_ordered t loan D') D' = D'"
  proof -
    have "refresh_item now i D' = D'" if "i \<in> set (due_ordered t loan D')" for i
    proof -
      from that items' obtain j where "i = refreshed_item now j j" by auto
      then have "refreshed_item now i = (\<lambda>k. k)" by (auto simp: refreshed_fixed)
      then show ?thesis by (simp add: refresh_item_eq update_where_def)
    qed
    then have "set js \<subseteq> set (due_ordered t loan D') \<Longrightarrow> fold (refresh_item now) js D' = D'" for js
      by (induction js) auto
    then show ?thesis by simp
  qed
  moreover have "l_status ?l = next_status (overdue_cents now ?items) (l_status l)"
    "(case l_bucket ?l of None \<Rightarrow> B_CURRENT | Some b \<Rightarrow> b) = determineBucket (days_past_due now ?items)"
    by (auto simp: delinquent_loan_def)
  ultimately show ?thesis
    unfolding update_form [OF l' ne, of now] dpd cents r by simp
qed

text \<open>What the engine makes of a loan of the tenant, when it runs for the system.\<close>

lemma recalc_form:
  fixes now :: int
  assumes "find (\<lambda>l. l_id l = loan \<and> l_tenant l = t) (db_loans D) = Some l"
  defines "items \<equiv> due_ordered t loan D"
  defines "c \<equiv> overdue_cents now items"
  defines "n \<equiv> next_status c (l_status l)"
  shows "\<exists>D1. recalcLoanDelinquencyTx loan t now SYSTEM actor D =
        Inr (\<lparr>dq_dpd = days_past_due now items, dq_cents = c,
              dq_status = (if 0 < c then DS_OVERDUE else DS_CURRENT)\<rparr>, D1) \<and>
      db_items D1 = db_items (fold (refresh_flags now) items D) \<and>
      db_loans D1 = update_where (\<lambda>m. l_id m = l_id l)
        (\<lambda>m. m\<lparr>l_days_past_due := days_past_due now items, l_overdue_cents := c,
               l_delinquency := (if 0 < c then DS_OVERDUE else DS_CURRENT), l_last_delinquency := Some now,
               l_status := (if n \<noteq> l_status l then n else l_status m)\<rparr>) (db_loans D)"
proof -
  obtain e a where ea: "arrears now items = (e, a)" by (cases "arrears now items")
  have d: "calculateDpd now e = days_past_due now items" and a: "toCents a = c"
    using dpd_arrears [of now items] cents_arrears [of now items] by (simp_all add: ea c_def)
  have loans: "db_loans (fold (refresh_flags now) items D) = db_loans D" by (simp add: fold_refresh_flags)
  define moves where "moves \<longleftrightarrow> n \<noteq> l_status l"
  have mv: "((l_status l = LS_DISBURSED \<and> (if 0 < c then LS_OVERDUE else LS_DISBURSED) = LS_OVERDUE) \<or>
      (l_status l = LS_OVERDUE \<and> (if 0 < c then LS_OVERDUE else LS_DISBURSED) = LS_DISBURSED)) = moves"
    and to: "moves \<Longrightarrow> n = (if 0 < c then LS_OVERDUE else LS_DISBURSED)"
    unfolding moves_def n_def by (auto simp: next_status_def split: if_splits)
  have ok: "moves \<Longrightarrow> n \<in> set (getAllowedTransitions (l_status l)) \<and> roleCanTransition SYSTEM (l_status l) n"
    using next_status_allowed unfolding moves_def n_def by auto
  show ?thesis
    unfolding moves_def [symmetric] recalcLoanDelinquencyTx_def assms(1) option.case items_def [symmetric] engine_loop
      ea [unfolded arrears_def] prod.case days_inline Let_def d a
    using mv to ok
    by (cases moves; cases "0 < c"; cases "l_status l") (auto simp: outcome_simps loans update_where_def)
qed


text \<open>The update fails only on a loan that is not there.\<close>

lemma update_succeeds_iff:
  "(\<exists>r D'. updateLoanDelinquency loan t now D = Inr (r, D')) \<longleftrightarrow>
     t \<noteq> '''' \<and> (\<exists>l \<in> set (db_loans D). l_id l = loan \<and> l_tenant l = t)"
proof
  assume "\<exists>r D'. updateLoanDelinquency loan t now D = Inr (r, D')"
  then obtain r D' where u: "updateLoanDelinquency loan t now D = Inr (r, D')" by blast
  from update_Inr [OF u] obtain l where "find (\<lambda>l. l_id l = loan \<and> l_tenant l = t) (db_loans D) = Some l" "t \<noteq> ''''" .
  then show "t \<noteq> '''' \<and> (\<exists>l \<in> set (db_loans D). l_id l = loan \<and> l_tenant l = t)"
    by (auto dest: find_SomeD)
next
  assume a: "t \<noteq> '''' \<and> (\<exists>l \<in> set (db_loans D). l_id l = loan \<and> l_tenant l = t)"
  then obtain l where "find (\<lambda>l. l_id l = loan \<and> l_tenant l = t) (db_loans D) = Some l"
    by (metis (mono_tags, lifting) find_None_iff not_None_eq)
  with a show "\<exists>r D'. updateLoanDelinquency loan t now D = Inr (r, D')"
    using update_form by blast
qed

section \<open>Instances\<close>

lemma loan_db_found:
  "find (\<lambda>l. l_id l = ''loan'' \<and> l_tenant l = ''ten'') (db_loans loan_db) = Some sample_loan"
  "distinct (map l_id (db_loans loan_db))" "distinct (map si_id (db_items loan_db))"
  by (simp_all add: loan_db_def empty_db_def sample_loan_def sample_items_def sample_item_def)

lemma loan_db_due: "due_ordered ''ten'' ''loan'' loan_db = sample_items"
  by (simp add: due_ordered_def loan_db_def sample_items_def sample_item_def)

lemma loan_db_updates:
  obtains r D' where "updateLoanDelinquency ''loan'' ''ten'' 1700000000000 loan_db = Inr (r, D')"
  using update_form [OF loan_db_found(1), of 1700000000000] by simp

theorem delinquency_reflects_schedule_witness:
  "\<exists>r D'. updateLoanDelinquency ''loan'' ''ten'' 1700000000000 loan_db = Inr (r, D') \<and>
     ld_cents r = 6000 \<and> ld_dpd r = 1157 \<and> ld_bucket r = DPD_90_PLUS"
proof -
  obtain r D' where u: "updateLoanDelinquency ''loan'' ''ten'' 1700000000000 loan_db = Inr (r, D')"
    by (rule loan_db_updates)
  from delinquency_reflects_schedule [OF u loan_db_found(2,3), unfolded loan_db_due] show ?thesis
  proof (elim exE conjE)
    fix l' od
    assume od: "od = filter (\<lambda>i. si_due i < 1700000000000 \<and> si_total_paid i < si_total_due i) sample_items"
      and l': "l_overdue_cents l' = toCents (\<Sum>i\<leftarrow>od. si_total_due i - si_total_paid i)"
      "l_days_past_due l' = (if od = [] then 0 else (1700000000000 - Min (si_due ` set od)) div ms_per_day)"
      and r: "r = \<lparr>ld_dpd = l_days_past_due l', ld_bucket = determineBucket (l_days_past_due l'),
           ld_cents = l_overdue_cents l'\<rparr>"
    have o1: "od = [sample_item ''i1'' 1 1600000000000]" by (simp add: od sample_items_def sample_item_def)
    have "toCents 60 = 6000" using half_up_of_int [of 6000] by (simp add: toCents_def)
    with l' have "l_overdue_cents l' = 6000" "l_days_past_due l' = 1157"
      by (simp_all add: o1 sample_item_def ms_per_day_def)
    with u r show ?thesis by (simp add: determineBucket_def)
  qed
qed

lemma delinquency_update_idempotent_witness:
  "\<exists>r D'. updateLoanDelinquency ''loan'' ''ten'' 1700000000000 loan_db = Inr (r, D') \<and>
     updateLoanDelinquency ''loan'' ''ten'' 1700000000000 D' = Inr (r, D')"
proof -
  obtain r D' where u: "updateLoanDelinquency ''loan'' ''ten'' 1700000000000 loan_db = Inr (r, D')"
    by (rule loan_db_updates)
  have "updateLoanDelinquency ''loan'' ''ten'' 1700000000000 D' = Inr (r, D')"
    by (rule delinquency_update_idempotent [OF u loan_db_found(2,3)])
  with u show ?thesis by (intro exI conjI)
qed


end
