(* ===== verification/Penalty.thy ===== *)
theory Penalty
  imports LoanLifecycle Calendar
begin

text \<open>
  The penalties of \<open>modules/collections/penalty.service.ts\<close>: the daily accrual, the switch that
  pauses it and the waiver. \<open>defaultRate\<close> stands for the number read from the configuration key
  \<open>COLLECTIONS_PENALTY_DAILY_RATE_BPS\<close>.
\<close>

section \<open>The service\<close>

definition resolveLoanProductId :: "string \<Rightarrow> string \<Rightarrow> db \<Rightarrow> string option" where
  "resolveLoanProductId loan t D =
     (case find (\<lambda>l. l_id l = loan \<and> l_tenant l = t) (db_loans D) of
        None \<Rightarrow> None
      | Some _ \<Rightarrow>
          (case sort_key (\<lambda>p. - pd_created p)
                  (filter (\<lambda>p. pd_tenant p = t \<and> pd_status p = PS_ACTIVE) (db_products D)) of
             [] \<Rightarrow> None
           | p # _ \<Rightarrow> Some (pd_id p)))"

text \<open>The newest rule of the product.\<close>

definition penalty_rule_of :: "string \<Rightarrow> string \<Rightarrow> db \<Rightarrow> penalty_rule option" where
  "penalty_rule_of t product D =
     (case sort_key (\<lambda>r. - pr_created r)
             (filter (\<lambda>r. pr_tenant r = t \<and> pr_product r = product) (db_rules D)) of
        [] \<Rightarrow> None
      | r # _ \<Rightarrow> Some r)"

definition rule_for :: "string \<Rightarrow> string \<Rightarrow> db \<Rightarrow> penalty_rule option" where
  "rule_for loan t D =
     (case resolveLoanProductId loan t D of None \<Rightarrow> None | Some p \<Rightarrow> penalty_rule_of t p D)"

text \<open>The amount of a day: the flat amount or the rate on the principal, within what the cap leaves.\<close>

definition penalty_amount :: "decimal_ops \<Rightarrow> decimal \<Rightarrow> penalty_rule option \<Rightarrow> loan \<Rightarrow> decimal" where
  "penalty_amount R defaultRate rule l =
     (let rate = (case rule of None \<Rightarrow> defaultRate
                  | Some r \<Rightarrow> (case pr_rate_bps r of None \<Rightarrow> defaultRate | Some b \<Rightarrow> of_int b));
          dailyRate = dc_div R rate 10000;
          base = max 0 (l_out_principal l);
          flat = (case rule of
                    Some r \<Rightarrow> if pr_kind r = PK_FLAT
                              then Some (case pr_flat r of None \<Rightarrow> 0 | Some f \<Rightarrow> f) else None
                  | None \<Rightarrow> None);
          accruedBase = (case flat of Some f \<Rightarrow> f | None \<Rightarrow> money (dc_mul R base dailyRate));
          cap = (case rule of None \<Rightarrow> None | Some r \<Rightarrow> pr_cap r)
      in case cap of
           None \<Rightarrow> accruedBase
         | Some c \<Rightarrow> min accruedBase (max 0 (c - l_penalty_accrued l)))"

definition penalized :: "decimal \<Rightarrow> int \<Rightarrow> loan \<Rightarrow> loan \<Rightarrow> loan" where
  "penalized accrued today l m =
     m\<lparr>l_penalty_accrued := l_penalty_accrued l + accrued, l_out_fees := l_out_fees l + accrued,
       l_out_total := l_out_total l + accrued, l_last_penalty := Some today\<rparr>"

definition accrueDailyPenalty ::
  "decimal_ops \<Rightarrow> decimal \<Rightarrow> string \<Rightarrow> string \<Rightarrow> int \<Rightarrow> db \<Rightarrow> (decimal \<times> db) outcome" where
  "accrueDailyPenalty R defaultRate loan t now D =
     (case find (\<lambda>l. l_id l = loan \<and> l_tenant l = t) (db_loans D) of
        None \<Rightarrow> Inl (BadRequest ''Loan application not found.'')
      | Some l \<Rightarrow>
          let today = utc_midnight now; day = today div ms_per_day; rule = rule_for loan t D
          in if l_status l = LS_WRITTEN_OFF \<or> l_status l = LS_SETTLED \<or>
                l_written_off_at l \<noteq> None \<or> l_settled_at l \<noteq> None then Inr (0, D)
             else if l_days_past_due l \<le> 0 then Inr (0, D)
             else if (case l_last_penalty l of None \<Rightarrow> False | Some d \<Rightarrow> utc_midnight d = today) then Inr (0, D)
             else if find (\<lambda>a. pa_tenant a = t \<and> pa_loan a = l_id l \<and> pa_date a = day) (db_accruals D) \<noteq> None
             then Inr (0, D)
             else if (case rule of None \<Rightarrow> False | Some r \<Rightarrow> pr_paused r) then Inr (0, D)
             else if l_days_past_due l \<le> (case rule of None \<Rightarrow> 0 | Some r \<Rightarrow> pr_grace_days r) then Inr (0, D)
             else
               let accrued = penalty_amount R defaultRate rule l
               in if accrued \<le> 0
                  then Inr (0, D\<lparr>db_loans := update_where (\<lambda>m. l_id m = l_id l)
                         (\<lambda>m. m\<lparr>l_last_penalty := Some today\<rparr>) (db_loans D)\<rparr>)
                  else Inr (accrued,
                    D\<lparr>db_loans := update_where (\<lambda>m. l_id m = l_id l) (penalized accrued today l) (db_loans D),
                      db_accruals := db_accruals D @
                        [\<lparr>pa_tenant = t, pa_loan = l_id l, pa_date = day, pa_amount = accrued\<rparr>]\<rparr>))"

definition default_rule_id :: "string \<Rightarrow> string \<Rightarrow> string" where
  "default_rule_id t product = t @ '':'' @ product @ '':default''"

definition setPenaltyPaused ::
  "env \<Rightarrow> int \<Rightarrow> string \<Rightarrow> string \<Rightarrow> bool \<Rightarrow> db \<Rightarrow> db outcome" where
  "setPenaltyPaused E defaultRate loan t isPaused D =
     (case resolveLoanProductId loan t D of
        None \<Rightarrow> Inl (BadRequest ''Unable to resolve product for loan account.'')
      | Some p \<Rightarrow>
          Inr (if find (\<lambda>r. pr_id r = default_rule_id t p) (db_rules D) \<noteq> None
               then D\<lparr>db_rules := update_where (\<lambda>r. pr_id r = default_rule_id t p)
                      (\<lambda>r. r\<lparr>pr_paused := isPaused\<rparr>) (db_rules D)\<rparr>
               else D\<lparr>db_rules := db_rules D @
                      [\<lparr>pr_id = default_rule_id t p, pr_tenant = t, pr_product = p,
                        pr_kind = PK_DAILY_PERCENT, pr_rate_bps = Some defaultRate, pr_flat = None,
                        pr_grace_days = 0, pr_cap = None, pr_paused = isPaused,
                        pr_created = ev_now E\<rparr>]\<rparr>))"

definition waived :: "decimal \<Rightarrow> loan \<Rightarrow> loan \<Rightarrow> loan" where
  "waived applied l m =
     m\<lparr>l_penalty_paid := l_penalty_paid l + applied, l_out_fees := l_out_fees l - applied,
       l_out_total := l_out_total l - applied\<rparr>"

definition waivePenalty :: "string \<Rightarrow> string \<Rightarrow> decimal \<Rightarrow> db \<Rightarrow> db outcome" where
  "waivePenalty loan t amount D =
     (let waiver = money amount
      in if waiver \<le> 0 then Inl (BadRequest ''Waiver amount must be > 0.'')
         else case find (\<lambda>l. l_id l = loan \<and> l_tenant l = t) (db_loans D) of
                None \<Rightarrow> Inl (BadRequest ''Loan account not found.'')
              | Some l \<Rightarrow>
                  let applied = min waiver (l_out_fees l)
                  in Inr (D\<lparr>db_loans := update_where (\<lambda>m. l_id m = l_id l) (waived applied l) (db_loans D)\<rparr>))"

section \<open>One accrual a day\<close>

lemma penalized_frame [simp]:
  "l_id (penalized a d l m) = l_id m" "l_tenant (penalized a d l m) = l_tenant m"
  "l_penalty_accrued (penalized a d l l) = l_penalty_accrued l + a"
  "l_out_fees (penalized a d l l) = l_out_fees l + a" "l_out_total (penalized a d l l) = l_out_total l + a"
  "l_last_penalty (penalized a d l m) = Some d" "l_status (penalized a d l m) = l_status m"
  "l_written_off_at (penalized a d l m) = l_written_off_at m" "l_settled_at (penalized a d l m) = l_settled_at m"
  "l_days_past_due (penalized a d l m) = l_days_past_due m"
  by (simp_all add: penalized_def)

lemma utc_midnight_again [simp]: "utc_midnight (utc_midnight t) = utc_midnight t"
  by (simp add: utc_midnight_def)

text \<open>The three ways an accrual ends: nothing happens, the day is marked, or an amount is added.\<close>

lemma accrue_cases [consumes 2, case_names unchanged marked accrued]:
  assumes "accrueDailyPenalty R dr loan t now D = Inr (a, D')"
    and "find (\<lambda>l. l_id l = loan \<and> l_tenant l = t) (db_loans D) = Some l"
  obtains "a = 0" "D' = D"
      "\<And>R dr now'. utc_midnight now' = utc_midnight now \<Longrightarrow> accrueDailyPenalty R dr loan t now' D = Inr (0, D)"
  | "a = 0" "penalty_amount R dr (rule_for loan t D) l \<le> 0"
      "D' = D\<lparr>db_loans := update_where (\<lambda>m. l_id m = l_id l) (\<lambda>m. m\<lparr>l_last_penalty := Some (utc_midnight now)\<rparr>) (db_loans D)\<rparr>"
  | "a = penalty_amount R dr (rule_for loan t D) l" "0 < a"
      "D' = D\<lparr>db_loans := update_where (\<lambda>m. l_id m = l_id l) (penalized a (utc_midnight now) l) (db_loans D),
         db_accruals := db_accruals D @ [\<lparr>pa_tenant = t, pa_loan = l_id l,
           pa_date = utc_midnight now div ms_per_day, pa_amount = a\<rparr>]\<rparr>"
proof -
  let ?rule = "rule_for loan t D"
  define early where "early \<longleftrightarrow> l_status l = LS_WRITTEN_OFF \<or> l_status l = LS_SETTLED \<or>
      l_written_off_at l \<noteq> None \<or> l_settled_at l \<noteq> None \<or> l_days_past_due l \<le> 0 \<or>
      (case l_last_penalty l of None \<Rightarrow> False | Some d \<Rightarrow> utc_midnight d = utc_midnight now) \<or>
      find (\<lambda>a. pa_tenant a = t \<and> pa_loan a = l_id l \<and> pa_date a = utc_midnight now div ms_per_day)
        (db_accruals D) \<noteq> None \<or>
      (case ?rule of None \<Rightarrow> False | Some r \<Rightarrow> pr_paused r) \<or>
      l_days_past_due l \<le> (case ?rule of None \<Rightarrow> 0 | Some r \<Rightarrow> pr_grace_days r)"
  have eq: "accrueDailyPenalty R' dr' loan t now' D =
      (if early then Inr (0, D)
       else if penalty_amount R' dr' ?rule l \<le> 0
       then Inr (0, D\<lparr>db_loans := update_where (\<lambda>m. l_id m = l_id l)
              (\<lambda>m. m\<lparr>l_last_penalty := Some (utc_midnight now)\<rparr>) (db_loans D)\<rparr>)
       else Inr (penalty_amount R' dr' ?rule l,
         D\<lparr>db_loans := update_where (\<lambda>m. l_id m = l_id l)
             (penalized (penalty_amount R' dr' ?rule l) (utc_midnight now) l) (db_loans D),
           db_accruals := db_accruals D @ [\<lparr>pa_tenant = t, pa_loan = l_id l,
             pa_date = utc_midnight now div ms_per_day, pa_amount = penalty_amount R' dr' ?rule l\<rparr>]\<rparr>))"
    if "utc_midnight now' = utc_midnight now" for R' dr' now'
    unfolding accrueDailyPenalty_def assms(2) option.case Let_def that early_def by simp
  show ?thesis
  proof (cases early)
    case True
    then have "accrueDailyPenalty R dr loan t now' D = Inr (0, D)" if "utc_midnight now' = utc_midnight now" for R dr now'
      using eq [OF that] by simp
    with assms(1) show ?thesis by (intro that(1)) auto
  next
    case False
    with assms(1) show ?thesis
      unfolding eq [OF refl] using that(2,3) by (auto split: if_splits)
  qed
qed

lemma accrue_Inr:
  assumes "accrueDailyPenalty R dr loan t now D = Inr (a, D')"
  obtains l where "find (\<lambda>l. l_id l = loan \<and> l_tenant l = t) (db_loans D) = Some l"
  using assms by (auto simp: accrueDailyPenalty_def split: option.splits)

text \<open>A loan whose last accrual was today accrues nothing.\<close>

lemma accrued_today:
  assumes "find (\<lambda>l. l_id l = loan \<and> l_tenant l = t) (db_loans D) = Some l"
    and "l_last_penalty l = Some d" "utc_midnight d = utc_midnight now"
  shows "accrueDailyPenalty R dr loan t now D = Inr (0, D)"
  unfolding accrueDailyPenalty_def assms(1) by (simp add: assms(2,3) Let_def)

text \<open>
  Penalties accrue at most once a day: after an accrual, any further one on the same UTC day,
  at whatever rate, adds nothing and changes nothing.
\<close>

lemma penalty_accrues_once_a_day:
  assumes "accrueDailyPenalty R dr loan t now D = Inr (a, D')" "distinct (map l_id (db_loans D))"
    and "utc_midnight now' = utc_midnight now"
  shows "accrueDailyPenalty R' dr' loan t now' D' = Inr (0, D')"
proof -
  obtain l where l: "find (\<lambda>l. l_id l = loan \<and> l_tenant l = t) (db_loans D) = Some l"
    by (rule accrue_Inr [OF assms(1)])
  show ?thesis
    using assms(1) l
  proof (cases rule: accrue_cases)
    case unchanged
    then show ?thesis using assms(3) by simp
  next
    case marked
    let ?f = "\<lambda>m. m\<lparr>l_last_penalty := Some (utc_midnight now)\<rparr>"
    have "find (\<lambda>l. l_id l = loan \<and> l_tenant l = t) (db_loans D') = Some (?f l)"
      using find_updated_loan [OF l _ assms(2), of ?f] by (simp add: marked)
    then show ?thesis by (rule accrued_today [where d = "utc_midnight now"]) (simp_all add: assms(3))
  next
    case accrued
    have "find (\<lambda>l. l_id l = loan \<and> l_tenant l = t) (db_loans D') = Some (penalized a (utc_midnight now) l l)"
      using find_updated_loan [OF l _ assms(2), of "penalized a (utc_midnight now) l"] by (simp add: accrued(3))
    then show ?thesis by (rule accrued_today [where d = "utc_midnight now"]) (simp_all add: assms(3))
  qed
qed

text \<open>
  C13. An accrual keeps the books of its loan: the amount is not negative, it is added to the penalties,
  fees and total of that loan and recorded in a row of that loan, dated with the UTC day; no other loan and
  no row of another loan changes, and the penalties never pass the cap of the rule by it.
\<close>

theorem penalty_keeps_books:
  assumes "accrueDailyPenalty R dr loan t now D = Inr (a, D')" "distinct (map l_id (db_loans D))"
  shows "\<exists>l l'. find (\<lambda>l. l_id l = loan \<and> l_tenant l = t) (db_loans D) = Some l \<and>
    find (\<lambda>l. l_id l = loan \<and> l_tenant l = t) (db_loans D') = Some l' \<and> 0 \<le> a \<and>
    l_penalty_accrued l' = l_penalty_accrued l + a \<and> l_out_fees l' = l_out_fees l + a \<and>
    l_out_total l' = l_out_total l + a \<and>
    filter (\<lambda>m. l_id m \<noteq> loan) (db_loans D') = filter (\<lambda>m. l_id m \<noteq> loan) (db_loans D) \<and>
    (\<Sum>x\<leftarrow>filter (\<lambda>x. pa_tenant x = t \<and> pa_loan x = loan) (db_accruals D'). pa_amount x) =
      (\<Sum>x\<leftarrow>filter (\<lambda>x. pa_tenant x = t \<and> pa_loan x = loan) (db_accruals D). pa_amount x) + a \<and>
    db_accruals D' = db_accruals D @ (if a = 0 then [] else
      [\<lparr>pa_tenant = t, pa_loan = loan, pa_date = utc_midnight now div ms_per_day, pa_amount = a\<rparr>]) \<and>
    (\<forall>r c. rule_for loan t D = Some r \<longrightarrow> pr_cap r = Some c \<longrightarrow>
      l_penalty_accrued l' \<le> max (l_penalty_accrued l) c)"
proof -
  obtain l where l: "find (\<lambda>l. l_id l = loan \<and> l_tenant l = t) (db_loans D) = Some l"
    by (rule accrue_Inr [OF assms(1)])
  have li: "l_id l = loan" using find_SomeD [OF l] by simp
  have others: "filter (\<lambda>m. l_id m \<noteq> loan) (update_where (\<lambda>m. l_id m = l_id l) f ls) = filter (\<lambda>m. l_id m \<noteq> loan) ls"
    if "\<And>m. l_id (f m) = l_id m" for f ls
    by (induction ls) (simp_all add: that li)
  show ?thesis
    using assms(1) l
  proof (cases rule: accrue_cases)
    case unchanged
    with l show ?thesis by auto
  next
    case marked
    let ?f = "\<lambda>m. m\<lparr>l_last_penalty := Some (utc_midnight now)\<rparr>"
    have "find (\<lambda>l. l_id l = loan \<and> l_tenant l = t) (db_loans D') = Some (?f l)"
      using find_updated_loan [OF l _ assms(2), of ?f] by (simp add: marked)
    with l marked others [of ?f] show ?thesis by (intro exI [of _ l] exI [of _ "?f l"]) auto
  next
    case accrued
    let ?l = "penalized a (utc_midnight now) l l"
    have "find (\<lambda>l. l_id l = loan \<and> l_tenant l = t) (db_loans D') = Some ?l"
      using find_updated_loan [OF l _ assms(2), of "penalized a (utc_midnight now) l"] by (simp add: accrued(3))
    moreover have "l_penalty_accrued l + a \<le> max (l_penalty_accrued l) c"
      if "rule_for loan t D = Some r" "pr_cap r = Some c" for r c
    proof -
      have "a \<le> max 0 (c - l_penalty_accrued l)" using accrued(1) that by (simp add: penalty_amount_def Let_def)
      then show ?thesis by (auto simp: max_def split: if_splits)
    qed
    moreover have "db_accruals D' = db_accruals D @
        [\<lparr>pa_tenant = t, pa_loan = loan, pa_date = utc_midnight now div ms_per_day, pa_amount = a\<rparr>]"
      by (simp add: accrued(3) li)
    ultimately show ?thesis
      using l accrued(2) others [of "penalized a (utc_midnight now) l"]
      by (intro exI [of _ l] exI [of _ ?l]) (auto simp: accrued(3))
  qed
qed

section \<open>Pausing\<close>

definition default_rule :: "env \<Rightarrow> int \<Rightarrow> string \<Rightarrow> string \<Rightarrow> bool \<Rightarrow> penalty_rule" where
  "default_rule E defaultRate t product isPaused =
     \<lparr>pr_id = default_rule_id t product, pr_tenant = t, pr_product = product,
      pr_kind = PK_DAILY_PERCENT, pr_rate_bps = Some defaultRate, pr_flat = None,
      pr_grace_days = 0, pr_cap = None, pr_paused = isPaused, pr_created = ev_now E\<rparr>"

lemma resolve_same_product:
  assumes "resolveLoanProductId loan t D = Some p" "find (\<lambda>l. l_id l = loan' \<and> l_tenant l = t) (db_loans D) \<noteq> None"
  shows "resolveLoanProductId loan' t D = Some p"
  using assms by (auto simp: resolveLoanProductId_def split: option.splits list.splits)

lemma resolve_tables:
  assumes "db_loans D' = db_loans D" "db_products D' = db_products D"
  shows "resolveLoanProductId loan t D' = resolveLoanProductId loan t D"
  unfolding resolveLoanProductId_def assms by (rule refl)

lemma rule_after_default:
  assumes "\<forall>r \<in> set rs. pr_created r < pr_created x" "pr_tenant x = t" "pr_product x = p" "db_rules D = rs @ [x]"
  shows "penalty_rule_of t p D = Some x"
proof -
  let ?ys = "filter (\<lambda>r. pr_tenant r = t \<and> pr_product r = p) rs"
  have ins: "insort_key (\<lambda>r. - pr_created r) y zs = y # zs"
    if "\<forall>z \<in> set zs. - pr_created y \<le> - pr_created z" for y zs
    using that by (cases zs) auto
  have "sort_key (\<lambda>r. - pr_created r) (ys @ [x]) = x # sort_key (\<lambda>r. - pr_created r) ys"
    if "\<forall>r \<in> set ys. pr_created r < pr_created x" for ys
    using that by (induction ys) auto
  then have "sort_key (\<lambda>r. - pr_created r) (?ys @ [x]) = x # sort_key (\<lambda>r. - pr_created r) ?ys"
    using assms(1) by simp
  then show ?thesis using assms(2-4) by (simp add: penalty_rule_of_def)
qed

lemma pause_Inr:
  assumes "setPenaltyPaused E d loan t b D = Inr D'"
  obtains p where "resolveLoanProductId loan t D = Some p"
  using assms by (auto simp: setPenaltyPaused_def split: option.splits)

text \<open>
  Pausing is not per loan and does not come back: pausing the penalties of one loan, when the
  product has no default rule, stops them on every loan of the tenant, and resuming leaves every
  loan with the default rule, without the cap and the grace days of the rule the tenant had set.
\<close>

lemma pause_then_resume_replaces_rule:
  assumes "setPenaltyPaused E dr loan t True D = Inr D1" "setPenaltyPaused E' dr' loan t False D1 = Inr D2"
    and "\<forall>r \<in> set (db_rules D). \<forall>p. pr_id r \<noteq> default_rule_id t p"
    and "\<forall>r \<in> set (db_rules D). pr_created r < ev_now E"
    and "find (\<lambda>l. l_id l = loan' \<and> l_tenant l = t) (db_loans D) = Some l'"
  shows "(\<exists>D'. accrueDailyPenalty R c loan' t now D1 = Inr (0, D')) \<and>
    (\<exists>p. rule_for loan' t D2 = Some (default_rule E dr t p False))"
proof -
  obtain p where p: "resolveLoanProductId loan t D = Some p" by (rule pause_Inr [OF assms(1)])
  have "find (\<lambda>r. pr_id r = default_rule_id t p) (db_rules D) = None"
    using assms(3) by (auto simp: find_None_iff)
  with assms(1) p have D1: "D1 = D\<lparr>db_rules := db_rules D @ [default_rule E dr t p True]\<rparr>"
    by (simp add: setPenaltyPaused_def default_rule_def)
  have p1: "resolveLoanProductId i t D1 = resolveLoanProductId i t D" for i
    by (rule resolve_tables) (simp_all add: D1)
  have rest: "update_where (\<lambda>r. pr_id r = default_rule_id t p) f (db_rules D) = db_rules D" for f
    using assms(3) by (auto simp: update_where_def intro!: map_idI)
  have "find (\<lambda>r. pr_id r = default_rule_id t p) (db_rules D1) = Some (default_rule E dr t p True)"
    using \<open>find _ (db_rules D) = None\<close> by (simp add: D1 find_append default_rule_def)
  with assms(2) p p1 have D2: "D2 = D1\<lparr>db_rules := db_rules D @ [default_rule E dr t p False]\<rparr>"
    using rest by (simp add: setPenaltyPaused_def D1 update_where_def default_rule_def)
  have p2: "resolveLoanProductId i t D2 = resolveLoanProductId i t D" for i
    by (rule resolve_tables) (simp_all add: D1 D2)
  have pl: "resolveLoanProductId loan' t D = Some p"
    using resolve_same_product [OF p] assms(5) by simp
  have "penalty_rule_of t p D1 = Some (default_rule E dr t p True)"
    by (rule rule_after_default [of "db_rules D"]) (use assms(4) in \<open>simp_all add: D1 default_rule_def\<close>)
  then have r1: "rule_for loan' t D1 = Some (default_rule E dr t p True)" by (simp add: rule_for_def p1 pl)
  have "penalty_rule_of t p D2 = Some (default_rule E dr t p False)"
    by (rule rule_after_default [of "db_rules D"]) (use assms(4) in \<open>simp_all add: D2 default_rule_def\<close>)
  then have r2: "rule_for loan' t D2 = Some (default_rule E dr t p False)" by (simp add: rule_for_def p2 pl)
  have "find (\<lambda>l. l_id l = loan' \<and> l_tenant l = t) (db_loans D1) = Some l'" using assms(5) by (simp add: D1)
  then have "accrueDailyPenalty R c loan' t now D1 = Inr (0, D1)"
    unfolding accrueDailyPenalty_def by (simp add: r1 default_rule_def Let_def)
  with r2 show ?thesis by blast
qed

section \<open>Waivers\<close>

text \<open>A waiver takes from the fees at most what they are, and the total follows.\<close>

lemma waiver_effect:
  assumes "waivePenalty loan t amount D = Inr D'" "distinct (map l_id (db_loans D))"
  shows "\<exists>l l'. find (\<lambda>l. l_id l = loan \<and> l_tenant l = t) (db_loans D) = Some l \<and>
    find (\<lambda>l. l_id l = loan \<and> l_tenant l = t) (db_loans D') = Some l' \<and>
    l_out_fees l - l_out_fees l' = min (money amount) (l_out_fees l) \<and>
    l_out_total l - l_out_total l' = l_out_fees l - l_out_fees l' \<and>
    l_penalty_paid l' - l_penalty_paid l = l_out_fees l - l_out_fees l'"
proof -
  from assms(1) obtain l where l: "find (\<lambda>l. l_id l = loan \<and> l_tenant l = t) (db_loans D) = Some l"
    by (auto simp: waivePenalty_def Let_def split: if_splits option.splits)
  let ?a = "min (money amount) (l_out_fees l)"
  from assms(1) l have "D' = D\<lparr>db_loans := update_where (\<lambda>m. l_id m = l_id l) (waived ?a l) (db_loans D)\<rparr>"
    by (simp add: waivePenalty_def Let_def split: if_splits)
  then have "find (\<lambda>l. l_id l = loan \<and> l_tenant l = t) (db_loans D') = Some (waived ?a l l)"
    using find_updated_loan [OF l _ assms(2), of "waived ?a l"] by (simp add: waived_def)
  with l show ?thesis by (intro exI [of _ l] exI [of _ "waived ?a l l"]) (simp add: waived_def)
qed

text \<open>A waiver is not limited to penalties: here it waives a fee of the loan no penalty is part of.\<close>

lemma waiver_takes_other_fees:
  "\<exists>D'. waivePenalty ''loan'' ''ten'' 4 loan_db = Inr D' \<and>
     (\<forall>l \<in> set (db_loans D'). l_penalty_accrued l = 0 \<and> l_penalty_paid l = 4 \<and> l_out_fees l = 0)"
  by (simp add: waivePenalty_def loan_db_def empty_db_def sample_loan_def waived_def)

section \<open>Instances\<close>

definition late_loan :: loan where
  "late_loan = sample_loan\<lparr>l_days_past_due := 10, l_out_principal := 1000\<rparr>"

definition late_db :: db where
  "late_db = empty_db\<lparr>db_loans := [late_loan],
     db_products := [\<lparr>pd_id = ''p'', pd_tenant = ''ten'', pd_status = PS_ACTIVE, pd_created = 0\<rparr>],
     db_rules := [\<lparr>pr_id = ''own'', pr_tenant = ''ten'', pr_product = ''p'', pr_kind = PK_FLAT,
       pr_rate_bps = None, pr_flat = Some 7, pr_grace_days = 3, pr_cap = Some 5, pr_paused = False,
       pr_created = 0\<rparr>]\<rparr>"

lemma late_db_accrues:
  obtains D' where "accrueDailyPenalty exact_ops 15 ''loan'' ''ten'' 1700000000000 late_db = Inr (5, D')"
proof -
  have "rule_for ''loan'' ''ten'' late_db = Some (hd (db_rules late_db))"
    by (simp add: rule_for_def resolveLoanProductId_def penalty_rule_of_def late_db_def empty_db_def
        late_loan_def sample_loan_def)
  then have "\<exists>D'. accrueDailyPenalty exact_ops 15 ''loan'' ''ten'' 1700000000000 late_db = Inr (5, D')"
    by (simp add: accrueDailyPenalty_def late_db_def empty_db_def late_loan_def sample_loan_def
        penalty_amount_def Let_def)
  with that show ?thesis by blast
qed

lemma penalty_accrues_once_a_day_witness:
  "\<exists>D'. accrueDailyPenalty exact_ops 15 ''loan'' ''ten'' 1700000000000 late_db = Inr (5, D') \<and>
     accrueDailyPenalty exact_ops 15 ''loan'' ''ten'' 1700000000001 D' = Inr (0, D')"
proof -
  obtain D' where a: "accrueDailyPenalty exact_ops 15 ''loan'' ''ten'' 1700000000000 late_db = Inr (5, D')"
    by (rule late_db_accrues)
  have "utc_midnight 1700000000001 = utc_midnight 1700000000000" by (simp add: utc_midnight_def ms_per_day_def)
  with penalty_accrues_once_a_day [OF a] a show ?thesis by (simp add: late_db_def)
qed

theorem penalty_keeps_books_witness:
  "\<exists>D' l'. accrueDailyPenalty exact_ops 15 ''loan'' ''ten'' 1700000000000 late_db = Inr (5, D') \<and>
     find (\<lambda>l. l_id l = ''loan'' \<and> l_tenant l = ''ten'') (db_loans D') = Some l' \<and> l_out_total l' = 125"
proof -
  obtain D' where a: "accrueDailyPenalty exact_ops 15 ''loan'' ''ten'' 1700000000000 late_db = Inr (5, D')"
    by (rule late_db_accrues)
  have "distinct (map l_id (db_loans late_db))" by (simp add: late_db_def)
  from penalty_keeps_books [OF a this] a show ?thesis
    by (auto simp: late_db_def late_loan_def sample_loan_def)
qed

lemma pause_then_resume_replaces_rule_witness:
  "\<exists>D1 D2 p. setPenaltyPaused sample_env 15 ''loan'' ''ten'' True late_db = Inr D1 \<and>
     setPenaltyPaused sample_env 15 ''loan'' ''ten'' False D1 = Inr D2 \<and>
     rule_for ''loan'' ''ten'' D2 = Some (default_rule sample_env 15 ''ten'' p False)"
proof -
  have r: "resolveLoanProductId ''loan'' ''ten'' D = Some ''p''"
    if "db_loans D = db_loans late_db" "db_products D = db_products late_db" for D
    using that by (simp add: resolveLoanProductId_def late_db_def late_loan_def sample_loan_def)
  obtain D1 where p1: "setPenaltyPaused sample_env 15 ''loan'' ''ten'' True late_db = Inr D1"
    and "db_loans D1 = db_loans late_db" "db_products D1 = db_products late_db"
    by (simp add: setPenaltyPaused_def r)
  then obtain D2 where p2: "setPenaltyPaused sample_env 15 ''loan'' ''ten'' False D1 = Inr D2"
    by (simp add: setPenaltyPaused_def r)
  have "\<forall>p. ''own'' \<noteq> default_rule_id ''ten'' p" by (simp add: default_rule_id_def)
  with pause_then_resume_replaces_rule [OF p1 p2, of "''loan''" late_loan] p1 p2 show ?thesis
    by (auto simp: late_db_def late_loan_def sample_loan_def sample_env_def)
qed

end
