(* ===== verification/CollectionsScan.thy ===== *)
theory CollectionsScan
  imports Delinquency Penalty
begin

text \<open>
  The arrears scan (\<open>modules/collections/collections-scan.service.ts\<close>): for every active loan of a
  tenant it refreshes the delinquency, accrues the penalty of the day and opens, updates or resolves
  the collections case of the loan. Each loan is a transaction of its own, so a loan that fails
  stops the scan but keeps what the earlier ones did.
\<close>

section \<open>Feature flags\<close>

fun flag_default :: "flag_key \<Rightarrow> bool" where
  "flag_default AUTO_APPROVAL = False"
| "flag_default AUTO_DISBURSE = False"
| "flag_default INTEREST_ACCRUAL = True"
| "flag_default COLLECTIONS_AUTOMATION = True"

definition isEnabled :: "string \<Rightarrow> flag_key \<Rightarrow> db \<Rightarrow> bool" where
  "isEnabled t k D =
     (case find (\<lambda>f. ff_tenant f = t \<and> ff_key f = k) (db_flags D) of
        None \<Rightarrow> flag_default k | Some f \<Rightarrow> ff_enabled f)"

section \<open>The case of a loan\<close>

definition active_case :: "coll_case \<Rightarrow> bool" where
  "active_case c \<longleftrightarrow> ca_status c \<in> {CS_OPEN, CS_IN_PROGRESS, CS_PROMISE_TO_PAY, CS_BROKEN_PTP}"

definition existing_case :: "string \<Rightarrow> string \<Rightarrow> db \<Rightarrow> coll_case option" where
  "existing_case t loan D = find (\<lambda>c. ca_tenant c = t \<and> ca_loan c = loan \<and> active_case c) (db_cases D)"

fun stage_order :: "case_stage \<Rightarrow> nat" where
  "stage_order ST_SOFT = 1" | "stage_order ST_FIELD = 2" | "stage_order ST_LEGAL = 3"

definition add_action :: "string \<Rightarrow> string \<Rightarrow> action_type \<Rightarrow> string \<Rightarrow> db \<Rightarrow> db" where
  "add_action t c ty note D =
     D\<lparr>db_actions := db_actions D @ [\<lparr>cn_tenant = t, cn_case = c, cn_by = None, cn_type = ty, cn_note = note\<rparr>]\<rparr>"

definition set_case :: "string \<Rightarrow> (coll_case \<Rightarrow> coll_case) \<Rightarrow> db \<Rightarrow> db" where
  "set_case i f D = D\<lparr>db_cases := update_where (\<lambda>c. ca_id c = i) f (db_cases D)\<rparr>"

text \<open>The days past due the scan itself derives, and what the instalments owe in all.\<close>

definition scan_dpd :: "int \<Rightarrow> sched_item list \<Rightarrow> int" where
  "scan_dpd now items =
     calculateDpd now (map_option si_due (find (\<lambda>i. si_due i < now \<and> si_status i \<noteq> SI_PAID \<and>
       si_total_paid i < si_total_due i) items))"

definition open_case :: "env \<Rightarrow> string \<Rightarrow> string \<Rightarrow> int \<Rightarrow> int \<Rightarrow> decimal \<Rightarrow> db \<Rightarrow> db outcome" where
  "open_case E t loan now dpd outst D =
     (case find (\<lambda>l. l_id l = loan) (db_loans D) of
        None \<Rightarrow> Inl (NotFound ''No record was found for a query.'')
      | Some l \<Rightarrow> (case fresh E D of (i, D1) \<Rightarrow>
          Inr (add_action t i AT_NOTE ''SYSTEM: Collections case opened by arrears scan.''
            (D1\<lparr>db_cases := db_cases D1 @
               [\<lparr>ca_id = i, ca_tenant = t, ca_loan = loan, ca_borrower = l_phone l, ca_opened = now,
                 ca_status = CS_OPEN, ca_stage = determineCollectionsStage dpd, ca_dpd_open = dpd,
                 ca_dpd = dpd, ca_outstanding_open = outst, ca_outstanding = outst, ca_promise = None,
                 ca_next_action = Some now, ca_resolved_at = None, ca_note = None,
                 ca_assigned = None, ca_contact = None\<rparr>]\<rparr>))))"

definition update_case :: "string \<Rightarrow> int \<Rightarrow> int \<Rightarrow> decimal \<Rightarrow> coll_case \<Rightarrow> db \<Rightarrow> db" where
  "update_case t now dpd outst c D =
     (let stage = determineCollectionsStage dpd;
          D1 = set_case (ca_id c) (\<lambda>d. d\<lparr>ca_dpd := dpd, ca_outstanding := outst, ca_stage := stage,
                 ca_status := (if ca_status c = CS_OPEN then CS_IN_PROGRESS else ca_status c)\<rparr>) D;
          D2 = (if stage_order (ca_stage c) < stage_order stage
                then emit (EscalationEvent (ca_id c) (ca_stage c) stage) D1 else D1)
      in if (case ca_promise c of None \<Rightarrow> False | Some p \<Rightarrow> p < now) \<and> ca_status c = CS_PROMISE_TO_PAY
         then add_action t (ca_id c) AT_PTP_BROKEN
                ''SYSTEM: Promise to pay date has elapsed with outstanding balance.''
                (set_case (ca_id c) (\<lambda>d. d\<lparr>ca_status := CS_BROKEN_PTP\<rparr>) D2)
         else D2)"

definition resolve_case :: "string \<Rightarrow> int \<Rightarrow> decimal \<Rightarrow> coll_case \<Rightarrow> db \<Rightarrow> db" where
  "resolve_case t now outst c D =
     add_action t (ca_id c) AT_NOTE ''SYSTEM: Case resolved automatically after arrears cleared.''
       (set_case (ca_id c) (\<lambda>d. d\<lparr>ca_status := CS_RESOLVED, ca_dpd := 0, ca_outstanding := outst,
          ca_resolved_at := Some now,
          ca_note := Some ''SYSTEM: Auto-resolved by arrears scan (caught up).''\<rparr>) D)"

text \<open>What happens to the case; the pair counts the cases opened and resolved.\<close>

definition scan_case :: "env \<Rightarrow> string \<Rightarrow> string \<Rightarrow> int \<Rightarrow> db \<Rightarrow> ((nat \<times> nat) \<times> db) outcome" where
  "scan_case E t loan now D =
     (let items = due_ordered t loan D; dpd = scan_dpd now items; outst = sumOutstanding items
      in if 0 < dpd \<and> 0 < outst
         then case existing_case t loan D of
                None \<Rightarrow> chain (open_case E t loan now dpd outst D) (\<lambda>D1. Inr ((1, 0), D1))
              | Some c \<Rightarrow> Inr ((0, 0), update_case t now dpd outst c D)
         else case existing_case t loan D of
                None \<Rightarrow> Inr ((0, 0), D)
              | Some c \<Rightarrow> Inr ((0, 1), resolve_case t now outst c D))"

section \<open>The scan\<close>

definition scan_loan ::
  "env \<Rightarrow> decimal_ops \<Rightarrow> decimal \<Rightarrow> string \<Rightarrow> string \<Rightarrow> int \<Rightarrow> db \<Rightarrow> ((nat \<times> nat) \<times> db) outcome" where
  "scan_loan E R rate t loan now D =
     chain (updateLoanDelinquency loan t now D) (\<lambda>(_, D1).
     chain (accrueDailyPenalty R rate loan t now D1) (\<lambda>(_, D2).
     scan_case E t loan now D2))"

fun scan_loans ::
  "env \<Rightarrow> decimal_ops \<Rightarrow> decimal \<Rightarrow> string \<Rightarrow> int \<Rightarrow> loan list \<Rightarrow> nat \<times> nat \<Rightarrow> db \<Rightarrow>
     (nat \<times> nat) outcome \<times> db" where
  "scan_loans E R rate t now [] counts D = (Inr counts, D)"
| "scan_loans E R rate t now (l # ls) counts D =
     (case chain (assertTenantMatch (l_tenant l) t) (\<lambda>_. scan_loan E R rate t (l_id l) now D) of
        Inl e \<Rightarrow> (Inl e, D)
      | Inr ((opened, resolved), D1) \<Rightarrow>
          scan_loans E R rate t now ls (fst counts + opened, snd counts + resolved) D1)"

record scan_summary =
  sc_scanned :: nat
  sc_opened :: nat
  sc_resolved :: nat

definition runForTenant ::
  "env \<Rightarrow> decimal_ops \<Rightarrow> decimal \<Rightarrow> string \<Rightarrow> int \<Rightarrow> db \<Rightarrow> scan_summary outcome \<times> db" where
  "runForTenant E R rate t now D =
     (if \<not> isEnabled t COLLECTIONS_AUTOMATION D
      then (Inr \<lparr>sc_scanned = 0, sc_opened = 0, sc_resolved = 0\<rparr>, D)
      else
        let loans = take 1000 (filter (\<lambda>l. l_tenant l = t \<and>
              (l_status l = LS_DISBURSED \<or> l_status l = LS_OVERDUE)) (db_loans D))
        in case scan_loans E R rate t now loans (0, 0) D of
             (Inl e, D1) \<Rightarrow> (Inl e, D1)
           | (Inr (opened, resolved), D1) \<Rightarrow>
               (Inr \<lparr>sc_scanned = length loans, sc_opened = opened, sc_resolved = resolved\<rparr>, D1))"

fun run_tenants ::
  "env \<Rightarrow> decimal_ops \<Rightarrow> decimal \<Rightarrow> int \<Rightarrow> string list \<Rightarrow> scan_summary \<Rightarrow> db \<Rightarrow> scan_summary outcome \<times> db" where
  "run_tenants E R rate now [] s D = (Inr s, D)"
| "run_tenants E R rate now (t # ts) s D =
     (case runForTenant E R rate t now D of
        (Inl e, D1) \<Rightarrow> (Inl e, D1)
      | (Inr r, D1) \<Rightarrow> run_tenants E R rate now ts
          \<lparr>sc_scanned = sc_scanned s + sc_scanned r, sc_opened = sc_opened s + sc_opened r,
           sc_resolved = sc_resolved s + sc_resolved r\<rparr> D1)"

text \<open>\<open>tenants\<close> are the ids of the tenant table.\<close>

definition runAllTenants ::
  "env \<Rightarrow> decimal_ops \<Rightarrow> decimal \<Rightarrow> string list \<Rightarrow> int \<Rightarrow> db \<Rightarrow> scan_summary outcome \<times> db" where
  "runAllTenants E R rate tenants now D =
     run_tenants E R rate now tenants \<lparr>sc_scanned = 0, sc_opened = 0, sc_resolved = 0\<rparr> D"

section \<open>The cases of a loan\<close>

text \<open>
  The table of cases is well-formed when its identifiers are distinct and not about to be handed
  out, and no loan has two active cases.
\<close>

definition case_key :: "coll_case \<Rightarrow> string \<times> string" where
  "case_key c = (ca_tenant c, ca_loan c)"

definition cases_ok :: "env \<Rightarrow> db \<Rightarrow> bool" where
  "cases_ok E D \<longleftrightarrow> distinct (map ca_id (db_cases D)) \<and>
     distinct (map case_key (filter active_case (db_cases D))) \<and>
     (\<forall>c \<in> set (db_cases D). \<forall>n \<ge> db_seq D. ca_id c \<noteq> ev_cuid E n)"

lemma existing_SomeD:
  "existing_case t loan D = Some c \<Longrightarrow> c \<in> set (db_cases D) \<and> ca_tenant c = t \<and> ca_loan c = loan \<and> active_case c"
  unfolding existing_case_def by (drule find_SomeD) simp

text \<open>A change of a case keeps the table well-formed, if it keeps id and loan and revives no case.\<close>

lemma update_cases_ok:
  assumes "cases_ok E D" "c \<in> set (db_cases D)" "active_case (f c) \<Longrightarrow> active_case c"
    and "db_cases D' = update_where (\<lambda>d. ca_id d = ca_id c) f (db_cases D)"
    and "db_seq D' = db_seq D" "\<And>d. ca_id (f d) = ca_id d \<and> case_key (f d) = case_key d"
  shows "cases_ok E D'"
proof -
  have ids: "map ca_id (db_cases D') = map ca_id (db_cases D)"
    unfolding assms(4) by (rule map_update_where) (simp add: assms(6))
  have "distinct (map case_key (filter active_case (db_cases D')))"
    unfolding assms(4) by (rule update_keeps_unique [where k = ca_id and A = active_case and g = case_key, OF _ assms(2,3)]) (use assms(1,6) in \<open>simp_all add: cases_ok_def\<close>)
  moreover have "ca_id d \<noteq> ev_cuid E n" if "d \<in> set (db_cases D')" "db_seq D' \<le> n" for d n
    using that assms(1) ids assms(5) by (metis (no_types, lifting) cases_ok_def image_eqI image_iff list.set_map)
  ultimately show ?thesis using assms(1) ids by (simp add: cases_ok_def)
qed

lemma set_case_ok:
  assumes "cases_ok E D" "c \<in> set (db_cases D)" "active_case (f c) \<Longrightarrow> active_case c"
    and "\<And>d. ca_id (f d) = ca_id d \<and> case_key (f d) = case_key d"
  shows "cases_ok E (set_case (ca_id c) f D)"
  by (rule update_cases_ok [where f = f, OF assms(1-3)]) (simp_all add: set_case_def assms(4))

lemma open_case_ok:
  assumes "open_case E t loan now dpd outst D = Inr D'" "cases_ok E D" "existing_case t loan D = None"
    and "inj (ev_cuid E)"
  shows "cases_ok E D'"
proof -
  from assms(1) obtain l where l: "find (\<lambda>l. l_id l = loan) (db_loans D) = Some l"
    by (auto simp: open_case_def split: option.splits)
  with assms(1) have D': "db_seq D' = Suc (db_seq D)" "db_cases D' = db_cases D @
      [\<lparr>ca_id = ev_cuid E (db_seq D), ca_tenant = t, ca_loan = loan, ca_borrower = l_phone l, ca_opened = now,
        ca_status = CS_OPEN, ca_stage = determineCollectionsStage dpd, ca_dpd_open = dpd,
        ca_dpd = dpd, ca_outstanding_open = outst, ca_outstanding = outst, ca_promise = None,
        ca_next_action = Some now, ca_resolved_at = None, ca_note = None,
                 ca_assigned = None, ca_contact = None\<rparr>]"
    by (auto simp: open_case_def fresh_def add_action_def)
  have "ev_cuid E (db_seq D) \<notin> ca_id ` set (db_cases D)" using assms(2) unfolding cases_ok_def by (metis imageE order_refl)
  moreover have "(t, loan) \<notin> case_key ` set (filter active_case (db_cases D))"
    using assms(3) by (auto simp: existing_case_def find_None_iff case_key_def)
  moreover have "ev_cuid E (db_seq D) \<noteq> ev_cuid E n" if "Suc (db_seq D) \<le> n" for n
    using that assms(4) by (auto dest: injD)
  ultimately show ?thesis
    using assms(2) by (auto simp: cases_ok_def D' case_key_def active_case_def)
qed

lemma emit_cases_ok [simp]: "cases_ok E (emit e D) = cases_ok E D"
  by (simp add: cases_ok_def)

lemma add_action_ok [simp]: "cases_ok E (add_action t c ty n D) = cases_ok E D"
  by (simp add: cases_ok_def add_action_def)

lemma resolve_case_ok:
  "cases_ok E D \<Longrightarrow> c \<in> set (db_cases D) \<Longrightarrow> active_case c \<Longrightarrow> cases_ok E (resolve_case t now outst c D)"
  by (simp add: resolve_case_def set_case_ok case_key_def)

text \<open>The row of an updated case.\<close>

definition updated_case :: "int \<Rightarrow> int \<Rightarrow> decimal \<Rightarrow> coll_case \<Rightarrow> coll_case \<Rightarrow> coll_case" where
  "updated_case now dpd outst c d =
     d\<lparr>ca_dpd := dpd, ca_outstanding := outst, ca_stage := determineCollectionsStage dpd,
       ca_status := (if (case ca_promise c of None \<Rightarrow> False | Some p \<Rightarrow> p < now) \<and> ca_status c = CS_PROMISE_TO_PAY
                     then CS_BROKEN_PTP
                     else if ca_status c = CS_OPEN then CS_IN_PROGRESS else ca_status c)\<rparr>"

lemma update_case_rows:
  "db_cases (update_case t now dpd outst c D) =
     update_where (\<lambda>d. ca_id d = ca_id c) (updated_case now dpd outst c) (db_cases D)"
  "db_seq (update_case t now dpd outst c D) = db_seq D"
  by (auto simp: update_case_def Let_def set_case_def add_action_def updated_case_def update_where_def)

lemma update_case_ok:
  "cases_ok E D \<Longrightarrow> c \<in> set (db_cases D) \<Longrightarrow> active_case c \<Longrightarrow>
     cases_ok E (update_case t now dpd outst c D)"
  by (rule update_cases_ok [OF _ _ _ update_case_rows]) (simp_all add: updated_case_def case_key_def)

lemma scan_case_ok:
  assumes "scan_case E t loan now D = Inr (n, D')" "cases_ok E D" "inj (ev_cuid E)"
  shows "cases_ok E D'"
proof (cases "existing_case t loan D")
  case None
  then show ?thesis
    using assms open_case_ok [of E t loan now _ _ D D'] by (auto simp: scan_case_def Let_def outcome_simps split: if_splits)
next
  case (Some c)
  then show ?thesis
    using assms(1,2) existing_SomeD [OF Some]
    by (auto simp: scan_case_def Let_def update_case_ok resolve_case_ok split: if_splits)
qed

lemma delinquency_keeps_cases:
  assumes "updateLoanDelinquency loan t now D = Inr (r, D')"
  shows "db_cases D' = db_cases D" "db_seq D' = db_seq D"
proof -
  obtain l where "find (\<lambda>l. l_id l = loan \<and> l_tenant l = t) (db_loans D) = Some l" "t \<noteq> ''''"
    by (rule update_Inr [OF assms])
  from assms [unfolded update_form [OF this]] show "db_cases D' = db_cases D" "db_seq D' = db_seq D"
    by (auto simp: fold_refresh_item)
qed

lemma accrual_keeps_cases:
  assumes "accrueDailyPenalty R dr loan t now D = Inr (a, D')"
  shows "db_cases D' = db_cases D" "db_seq D' = db_seq D"
proof -
  obtain l where "find (\<lambda>l. l_id l = loan \<and> l_tenant l = t) (db_loans D) = Some l" by (rule accrue_Inr [OF assms])
  with assms show "db_cases D' = db_cases D" "db_seq D' = db_seq D"
    by (cases rule: accrue_cases; simp)+
qed

lemma scan_loan_ok:
  assumes "scan_loan E R rate t loan now D = Inr (n, D')" "cases_ok E D" "inj (ev_cuid E)"
  shows "cases_ok E D'"
proof -
  from assms(1) obtain r D1 a D2 where u: "updateLoanDelinquency loan t now D = Inr (r, D1)"
    and p: "accrueDailyPenalty R rate loan t now D1 = Inr (a, D2)" and s: "scan_case E t loan now D2 = Inr (n, D')"
    by (auto simp: scan_loan_def outcome_simps)
  have "cases_ok E D2"
    using assms(2) delinquency_keeps_cases [OF u] accrual_keeps_cases [OF p] by (simp add: cases_ok_def)
  then show ?thesis by (rule scan_case_ok [OF s]) (rule assms(3))
qed

lemma scan_loans_ok:
  "scan_loans E R rate t now ls n D = (res, D') \<Longrightarrow> cases_ok E D \<Longrightarrow> inj (ev_cuid E) \<Longrightarrow> cases_ok E D'"
proof (induction ls arbitrary: n D)
  case (Cons l ls)
  then show ?case by (auto simp: outcome_simps scan_loan_ok split: sum.splits prod.splits)
qed simp

text \<open>
  A loan never has two active cases: the scan of a tenant, even one that stops at a loan that
  fails, keeps the table of cases well-formed.
\<close>

lemma scan_keeps_one_active_case:
  assumes "runForTenant E R rate t now D = (res, D')" "cases_ok E D" "inj (ev_cuid E)"
  shows "cases_ok E D'"
  using assms by (auto simp: runForTenant_def Let_def split: if_splits sum.splits prod.splits elim: scan_loans_ok)

text \<open>The active cases of a loan after a change of the one it had, or after the first was added.\<close>

definition active_of :: "string \<Rightarrow> string \<Rightarrow> db \<Rightarrow> coll_case list" where
  "active_of t loan D = filter (\<lambda>c. case_key c = (t, loan) \<and> active_case c) (db_cases D)"

lemma no_active: "existing_case t loan D = None \<Longrightarrow> active_of t loan D = []"
  by (auto simp: active_of_def existing_case_def find_None_iff case_key_def filter_empty_conv)

lemma active_after_update:
  assumes "cases_ok E D" "existing_case t loan D = Some c" "case_key (f c) = case_key c"
    and "db_cases D' = update_where (\<lambda>d. ca_id d = ca_id c) f (db_cases D)"
  shows "active_of t loan D' = (if active_case (f c) then [f c] else [])"
proof -
  note c = existing_SomeD [OF assms(2)]
  obtain xs ys where s: "db_cases D = xs @ c # ys" "db_cases D' = xs @ f c # ys"
    using unique_row [of ca_id "db_cases D" c] assms(1,4) c unfolding cases_ok_def by metis
  have "distinct (map case_key (filter active_case (xs @ c # ys)))"
    using assms(1) by (simp add: cases_ok_def s(1))
  then have "case_key c \<notin> case_key ` set (filter active_case xs)" "case_key c \<notin> case_key ` set (filter active_case ys)"
    using c by simp_all
  then have "filter (\<lambda>d. case_key d = case_key c \<and> active_case d) xs = []"
    "filter (\<lambda>d. case_key d = case_key c \<and> active_case d) ys = []"
    by (auto simp: filter_empty_conv image_iff)
  moreover have "(t, loan) = case_key c" using c by (simp add: case_key_def)
  ultimately show ?thesis using assms(3) by (simp add: active_of_def s(2))
qed

text \<open>
  What the scan does with the case: when the loan is in arrears its only active case carries the days past
  due, the stage and the amount outstanding the scan found, and when it is not, no active case is left.
\<close>

lemma scan_case_syncs:
  assumes "scan_case E t loan now D = Inr (n, D')" "cases_ok E D"
  shows "let items = due_ordered t loan D; dpd = scan_dpd now items; outst = sumOutstanding items;
             active = filter (\<lambda>c. case_key c = (t, loan) \<and> active_case c) (db_cases D')
         in if 0 < dpd \<and> 0 < outst
            then \<exists>c. active = [c] \<and> ca_dpd c = dpd \<and> ca_outstanding c = outst \<and>
                   ca_stage c = determineCollectionsStage dpd
            else active = []"
proof -
  define items where "items = due_ordered t loan D"
  define dpd where "dpd = scan_dpd now items"
  define outst where "outst = sumOutstanding items"
  have "if 0 < dpd \<and> 0 < outst
    then \<exists>c. active_of t loan D' = [c] \<and> ca_dpd c = dpd \<and> ca_outstanding c = outst \<and>
           ca_stage c = determineCollectionsStage dpd
    else active_of t loan D' = []"
  proof (cases "existing_case t loan D")
    case None
    note none = no_active [OF None]
    show ?thesis
    proof (cases "0 < dpd \<and> 0 < outst")
      case True
      with assms(1) None have "open_case E t loan now dpd outst D = Inr D'"
        by (auto simp: scan_case_def Let_def outcome_simps items_def dpd_def outst_def)
      then obtain c where "db_cases D' = db_cases D @ [c]" "case_key c = (t, loan)" "active_case c" "ca_dpd c = dpd"
        "ca_outstanding c = outst" "ca_stage c = determineCollectionsStage dpd"
        by (auto simp: open_case_def fresh_def add_action_def case_key_def active_case_def split: option.splits)
      with True none show ?thesis by (simp add: active_of_def)
    next
      case False
      with assms(1) None have "D' = D" by (auto simp: scan_case_def Let_def items_def dpd_def outst_def split: if_splits)
      with False none show ?thesis by simp
    qed
  next
    case (Some c)
    note c = existing_SomeD [OF Some]
    show ?thesis
    proof (cases "0 < dpd \<and> 0 < outst")
      case True
      with assms(1) Some have "D' = update_case t now dpd outst c D"
        by (auto simp: scan_case_def Let_def items_def dpd_def outst_def)
      moreover have "active_case (updated_case now dpd outst c c)"
        using c by (auto simp: updated_case_def active_case_def)
      ultimately have "active_of t loan D' = [updated_case now dpd outst c c]"
        using active_after_update [OF assms(2) Some _ update_case_rows(1)] by (simp add: updated_case_def case_key_def)
      with True show ?thesis by (simp add: updated_case_def)
    next
      case False
      with assms(1) Some have D': "D' = resolve_case t now outst c D"
        by (auto simp: scan_case_def Let_def items_def dpd_def outst_def split: if_splits)
      obtain f where f: "db_cases (resolve_case t now outst c D) = update_where (\<lambda>d. ca_id d = ca_id c) f (db_cases D)"
        "case_key (f c) = case_key c" "\<not> active_case (f c)"
        by (simp add: resolve_case_def add_action_def set_case_def active_case_def case_key_def)
      from active_after_update [where f = f, OF assms(2) Some f(2,1)] False f(3) show ?thesis by (simp add: D')
    qed
  qed
  then show ?thesis unfolding Let_def active_of_def items_def dpd_def outst_def .
qed

lemma active_of_existing: "active_of t loan D = [] \<longleftrightarrow> existing_case t loan D = None"
  by (auto simp: active_of_def existing_case_def find_None_iff case_key_def filter_empty_conv)

lemma scan_case_frame:
  assumes "scan_case E t loan now D = Inr (n, D')"
  shows "db_items D' = db_items D \<and> db_loans D' = db_loans D \<and>
    n = (let items = due_ordered t loan D; late = (0 < scan_dpd now items \<and> 0 < sumOutstanding items)
         in (if late \<and> active_of t loan D = [] then 1 else 0, if \<not> late \<and> active_of t loan D \<noteq> [] then 1 else 0))"
  using assms unfolding active_of_existing
  by (auto simp: scan_case_def Let_def outcome_simps open_case_def fresh_def add_action_def update_case_def
      resolve_case_def set_case_def split: option.splits if_splits)


section \<open>Instances\<close>

text \<open>The scan of the sample loan, whose first instalment is overdue, opens a case.\<close>

definition scan_db :: db where
  "scan_db = loan_db\<lparr>db_loans := [sample_loan\<lparr>l_status := LS_OVERDUE\<rparr>]\<rparr>"

lemma scan_db_ok: "cases_ok sample_env scan_db"
  by (simp add: cases_ok_def scan_db_def loan_db_def empty_db_def)

lemma scan_db_due: "due_ordered ''ten'' ''loan'' scan_db = sample_items"
  by (simp add: due_ordered_def scan_db_def loan_db_def sample_items_def sample_item_def)

lemma scan_keeps_one_active_case_witness:
  "\<exists>res D'. runForTenant sample_env exact_ops 15 ''ten'' 1700000000000 scan_db = (res, D') \<and>
     cases_ok sample_env D'"
proof -
  obtain res D' where r: "runForTenant sample_env exact_ops 15 ''ten'' 1700000000000 scan_db = (res, D')"
    by (cases "runForTenant sample_env exact_ops 15 ''ten'' 1700000000000 scan_db")
  from scan_keeps_one_active_case [OF r scan_db_ok sample_env_inj] r show ?thesis by blast
qed

lemma scan_db_arrears:
  "scan_dpd 1700000000000 sample_items = 1157" "sumOutstanding sample_items = 120"
  by (simp_all add: scan_dpd_def calculateDpd_def ms_per_day_def sumOutstanding_def remainingAmount_def
      sample_items_def sample_item_def)

lemma scan_db_loan: "find (\<lambda>l. l_id l = ''loan'' \<and> l_tenant l = ''ten'') (db_loans scan_db) = Some (sample_loan\<lparr>l_status := LS_OVERDUE\<rparr>)"
  by (simp add: scan_db_def sample_loan_def)

lemma accrue_total:
  "find (\<lambda>l. l_id l = loan \<and> l_tenant l = t) (db_loans D) = Some l \<Longrightarrow> \<exists>a D'. accrueDailyPenalty R rate loan t now D = Inr (a, D')"
  by (auto simp: accrueDailyPenalty_def Let_def)

text \<open>The scan of the sample loan goes through, and the schedule it leaves has the first instalment marked.\<close>

lemma scan_db_scans:
  obtains n D' where "scan_loan sample_env exact_ops 15 ''ten'' ''loan'' 1700000000000 scan_db = Inr (n, D')"
    "scan_dpd 1700000000000 (due_ordered ''ten'' ''loan'' D') = 1157" "sumOutstanding (due_ordered ''ten'' ''loan'' D') = 120"
proof -
  obtain r D1 where u: "updateLoanDelinquency ''loan'' ''ten'' 1700000000000 scan_db = Inr (r, D1)"
    and items: "db_items D1 = db_items (fold (refresh_item 1700000000000) sample_items scan_db)"
    and loans: "db_loans D1 = update_where (\<lambda>m. l_id m = ''loan'')
      (delinquent_loan 1700000000000 sample_items (sample_loan\<lparr>l_status := LS_OVERDUE\<rparr>)) (db_loans scan_db)"
    using update_form [OF scan_db_loan, of 1700000000000] by (simp add: scan_db_due sample_loan_def)
  have items1: "db_items D1 = [(sample_item ''i1'' 1 1600000000000)\<lparr>si_is_overdue := True,
      si_overdue_since := Some 1600000000000, si_status := SI_OVERDUE\<rparr>, sample_item ''i2'' 2 1800000000000]"
    unfolding items by (simp add: sample_items_def refresh_item_def computeScheduleItemOverdue_def remainingAmount_def
        scan_db_def loan_db_def sample_item_def)
  have l1: "\<exists>l. find (\<lambda>l. l_id l = ''loan'' \<and> l_tenant l = ''ten'') (db_loans D1) = Some l"
    unfolding loans by (simp add: scan_db_def sample_loan_def delinquent_loan_def)
  then obtain l where l: "find (\<lambda>l. l_id l = ''loan'' \<and> l_tenant l = ''ten'') (db_loans D1) = Some l" by (elim exE)
  from accrue_total [OF this] obtain a D2 where p: "accrueDailyPenalty exact_ops 15 ''loan'' ''ten'' 1700000000000 D1 = Inr (a, D2)"
    by blast
  have ids: "map l_id (db_loans D2) = map l_id (db_loans D1)" and it2: "db_items D2 = db_items D1"
    using p l by (cases rule: accrue_cases; simp add: map_update_where)+
  have due: "due_ordered ''ten'' ''loan'' D2 = db_items D1"
    by (simp add: due_ordered_def it2 items1 sample_item_def)
  have dpd: "scan_dpd 1700000000000 (db_items D1) = 1157" and outst: "sumOutstanding (db_items D1) = 120"
    by (simp_all add: items1 scan_dpd_def calculateDpd_def ms_per_day_def sumOutstanding_def remainingAmount_def sample_item_def)
  have "''loan'' \<in> set (map l_id (db_loans D2))"
    unfolding ids using find_SomeD [OF l] by (auto intro!: image_eqI)
  then have "find (\<lambda>l. l_id l = ''loan'') (db_loans D2) \<noteq> None" by (auto simp: find_None_iff)
  then have "\<exists>n D'. scan_case sample_env ''ten'' ''loan'' 1700000000000 D2 = Inr (n, D')"
    by (auto simp: scan_case_def Let_def open_case_def fresh_def split: option.splits)
  then obtain n D' where s: "scan_case sample_env ''ten'' ''loan'' 1700000000000 D2 = Inr (n, D')" by (elim exE)
  have "due_ordered ''ten'' ''loan'' D' = db_items D1"
    using scan_case_frame [OF s] due by (simp add: due_ordered_def)
  with that [of n D'] show thesis by (simp add: scan_loan_def u p s dpd outst)
qed


end
