(* ===== verification/BoundedWork.thy ===== *)
theory BoundedWork
  imports Prelude
begin

text \<open>
  Runs of a component as lists of calls, and the interface of a component whose calls do a bounded
  amount of work: every call keeps an invariant and pays for its work out of what is left. The job
  queue and the outbox dispatcher are instances.
\<close>

fun run_all :: "('c \<Rightarrow> 's \<Rightarrow> 'r \<times> 's) \<Rightarrow> 'c list \<Rightarrow> 's \<Rightarrow> 's" where
  "run_all exec [] s = s"
| "run_all exec (c # cs) s = run_all exec cs (snd (exec c s))"

fun work_of :: "('r \<Rightarrow> nat) \<Rightarrow> ('c \<Rightarrow> 's \<Rightarrow> 'r \<times> 's) \<Rightarrow> 'c list \<Rightarrow> 's \<Rightarrow> nat" where
  "work_of w exec [] s = 0"
| "work_of w exec (c # cs) s = w (fst (exec c s)) + work_of w exec cs (snd (exec c s))"

lemma run_all_append: "run_all exec (cs @ ds) s = run_all exec ds (run_all exec cs s)"
  by (induction cs arbitrary: s) simp_all

lemma work_of_append: "work_of w exec (cs @ ds) s = work_of w exec cs s + work_of w exec ds (run_all exec cs s)"
  by (induction cs arbitrary: s) simp_all

locale invariant_calls =
  fixes exec :: "'c \<Rightarrow> 's \<Rightarrow> 'r \<times> 's" and inv :: "'s \<Rightarrow> bool"
  assumes keeps: "inv s \<Longrightarrow> inv (snd (exec c s))"
begin

lemma run_keeps: "inv s \<Longrightarrow> inv (run_all exec cs s)"
  by (induction cs arbitrary: s) (simp_all add: keeps)

end

locale bounded_work = invariant_calls exec inv for exec :: "'c \<Rightarrow> 's \<Rightarrow> 'r \<times> 's" and inv +
  fixes work :: "'r \<Rightarrow> nat" and left :: "'s \<Rightarrow> nat"
  assumes pays: "inv s \<Longrightarrow> work (fst (exec c s)) + left (snd (exec c s)) \<le> left s"
begin

lemma work_bounded: "inv s \<Longrightarrow> work_of work exec cs s + left (run_all exec cs s) \<le> left s"
proof (induction cs arbitrary: s)
  case (Cons c cs)
  have "work_of work exec cs (snd (exec c s)) + left (run_all exec cs (snd (exec c s))) \<le> left (snd (exec c s))"
    by (rule Cons.IH [OF keeps [OF Cons.prems]])
  then show ?case using pays [OF Cons.prems, of c] by simp
qed simp

end

text \<open>Some calls grant more work than was left.\<close>

locale granted_work = invariant_calls exec inv for exec :: "'c \<Rightarrow> 's \<Rightarrow> 'r \<times> 's" and inv +
  fixes work :: "'r \<Rightarrow> nat" and left :: "'s \<Rightarrow> nat" and grant :: "'c \<Rightarrow> nat"
  assumes pays_granted: "inv s \<Longrightarrow> work (fst (exec c s)) + left (snd (exec c s)) \<le> left s + grant c"
begin

lemma work_granted: "inv s \<Longrightarrow> work_of work exec cs s + left (run_all exec cs s) \<le> left s + sum_list (map grant cs)"
proof (induction cs arbitrary: s)
  case (Cons c cs)
  have "work_of work exec cs (snd (exec c s)) + left (run_all exec cs (snd (exec c s)))
      \<le> left (snd (exec c s)) + sum_list (map grant cs)"
    by (rule Cons.IH [OF keeps [OF Cons.prems]])
  then show ?case using pays_granted [OF Cons.prems, of c] by simp
qed simp

end

sublocale bounded_work \<subseteq> granted_work exec inv work left "\<lambda>_. 0"
  by unfold_locales (simp add: pays)

end
