(* ===== verification/JobQueue.thy ===== *)
theory JobQueue
  imports Idempotency BoundedWork
begin

text \<open>
  The background job queue, \<open>common/jobs/job-queue.service.ts\<close>: enqueueing with a dedupe key,
  claiming, and marking a job succeeded or failed, with retries, back-off and dead letters. The
  tables are those of the rows \<open>Job\<close>, \<open>JobDlq\<close>, \<open>AuditLog\<close> and \<open>Tenant\<close>. \<open>Math.random\<close> and the
  row locks other transactions hold (\<open>SKIP LOCKED\<close>) are parameters of a call; metrics are left out.
\<close>

section \<open>Data\<close>

datatype job_type = JT_ACCRUE_INTEREST | JT_RECALC_BALANCES | JT_SEND_NOTIFICATION
  | JT_COLLECTIONS_ESCALATION | JT_RISK_REEVALUATION | JT_LEDGER_RECONCILE | JT_INTEGRITY_SCAN
  | JT_PROCESS_WEBHOOK_EVENT | JT_MANDATE_DEBIT

datatype job_status = JS_PENDING | JS_PROCESSING | JS_SUCCEEDED | JS_FAILED | JS_DEAD_LETTER

record job =
  jb_id :: string
  jb_type :: job_type
  jb_status :: job_status
  jb_tenant :: string
  jb_lender :: "string option"
  jb_dedupe :: "string option"
  jb_payload :: json
  jb_run_at :: int
  jb_attempts :: int
  jb_max :: int
  jb_error :: "string option"
  jb_backoff :: int
  jb_locked_at :: "int option"
  jb_locked_by :: "string option"
  jb_created :: int
  jb_succeeded_at :: "int option"
  jb_failed_at :: "int option"

record dead_job =
  dl_tenant :: string
  dl_job :: string
  dl_type :: job_type
  dl_payload :: json
  dl_attempts :: int
  dl_error :: string
  dl_failed_at :: int

record job_audit =
  ad_tenant :: string
  ad_request :: "string option"
  ad_job :: string
  ad_type :: job_type
  ad_attempts :: int
  ad_max :: int
  ad_correlation :: "string option"
  ad_dlq :: bool

record queue =
  jq_jobs :: "job list"
  jq_dlq :: "dead_job list"
  jq_audit :: "job_audit list"
  jq_tenants :: "string list"
  jq_seq :: nat

text \<open>The environment of a call: the clock, fresh identifiers, \<open>Math.random\<close> and the configuration.\<close>

record queue_env = env +
  qe_random :: rat
  qe_max_attempts :: int
  qe_backoff_ms :: int
  qe_dlq_enabled :: bool

record actor =
  qa_type :: string
  qa_id :: "string option"
  qa_role :: "string option"

record enqueue_params =
  ep_type :: job_type
  ep_tenant :: string
  ep_lender :: "string option"
  ep_dedupe :: "string option"
  ep_payload :: "(string \<times> json) list"
  ep_run_at :: "int option"
  ep_max :: "int option"
  ep_backoff :: "int option"
  ep_request :: "string option"
  ep_actor :: "actor option"

section \<open>Back-off\<close>

text \<open>
  \<open>2 ** n\<close> is a float in the code and becomes infinite for huge \<open>n\<close>; the cap is smaller than any
  power for which float and exact value differ.
\<close>

definition calculateBackoffMs ::
  "int \<Rightarrow> rat option \<Rightarrow> rat option \<Rightarrow> rat option \<Rightarrow> rat \<Rightarrow> int" where
  "calculateBackoffMs attempts baseMs capMs jitterRatio rnd =
     (let base = max 100 (case baseMs of Some b \<Rightarrow> b | None \<Rightarrow> 2000);
          cap = max base (case capMs of Some c \<Rightarrow> c | None \<Rightarrow> 600000);
          ratio = min (9 / 10) (max 0 (case jitterRatio of Some r \<Rightarrow> r | None \<Rightarrow> 1 / 5));
          core = min cap (base * 2 ^ nat (max 0 (attempts - 1)));
          jitter = core * ratio * rnd
      in \<lfloor>min cap (core + jitter)\<rfloor>)"

section \<open>Enqueueing\<close>

definition assertTenantExists :: "string \<Rightarrow> queue \<Rightarrow> unit outcome" where
  "assertTenantExists t Q =
     (if trim t = '''' then Inl (BadRequest ''tenantId is required'')
      else ensure (trim t \<in> set (jq_tenants Q)) (BadRequest ''Invalid tenantId''))"

text \<open>Object spread: a key that is there keeps its place, a new one goes to the end.\<close>

fun set_field :: "string \<Rightarrow> json \<Rightarrow> (string \<times> json) list \<Rightarrow> (string \<times> json) list" where
  "set_field k v [] = [(k, v)]"
| "set_field k v ((k', v') # kvs) = (if k' = k then (k, v) # kvs else (k', v') # set_field k v kvs)"

definition json_text :: "string option \<Rightarrow> json" where
  "json_text s = (case s of Some x \<Rightarrow> JStr x | None \<Rightarrow> JNull)"

definition json_actor :: "actor option \<Rightarrow> json" where
  "json_actor a = (case a of None \<Rightarrow> JNull
     | Some x \<Rightarrow> JObj [(''type'', JStr (qa_type x)), (''id'', json_text (qa_id x)), (''role'', json_text (qa_role x))])"

definition buildPayload :: "enqueue_params \<Rightarrow> json" where
  "buildPayload p =
     JObj (set_field ''actor'' (json_actor (ep_actor p))
       (set_field ''tenantId'' (JStr (ep_tenant p))
         (set_field ''correlationId''
           (json_text (case ep_request p of Some r \<Rightarrow> Some r | None \<Rightarrow> ep_dedupe p))
           (set_field ''requestId'' (json_text (ep_request p)) (ep_payload p)))))"

definition getPayloadString :: "json \<Rightarrow> string \<Rightarrow> string option" where
  "getPayloadString payload k =
     (case payload of
        JObj kvs \<Rightarrow> (case map_of kvs k of Some (JStr s) \<Rightarrow> (if trim s = '''' then None else Some (trim s)) | _ \<Rightarrow> None)
      | _ \<Rightarrow> None)"

text \<open>An empty dedupe key is falsy: it is stored but not looked up.\<close>

definition lookup_key :: "enqueue_params \<Rightarrow> string option" where
  "lookup_key p = (case ep_dedupe p of Some k \<Rightarrow> (if k = '''' then None else Some k) | None \<Rightarrow> None)"

definition find_dedupe :: "string option \<Rightarrow> queue \<Rightarrow> job option" where
  "find_dedupe k Q = (case k of None \<Rightarrow> None | Some _ \<Rightarrow> find (\<lambda>j. jb_dedupe j = k) (jq_jobs Q))"

definition new_job :: "queue_env \<Rightarrow> enqueue_params \<Rightarrow> string \<Rightarrow> job" where
  "new_job E p i =
     \<lparr>jb_id = i, jb_type = ep_type p, jb_status = JS_PENDING, jb_tenant = ep_tenant p,
      jb_lender = ep_lender p, jb_dedupe = ep_dedupe p, jb_payload = buildPayload p,
      jb_run_at = (case ep_run_at p of Some r \<Rightarrow> r | None \<Rightarrow> ev_now E), jb_attempts = 0,
      jb_max = (case ep_max p of Some m \<Rightarrow> m | None \<Rightarrow> qe_max_attempts E), jb_error = None,
      jb_backoff = (case ep_backoff p of Some b \<Rightarrow> b | None \<Rightarrow> qe_backoff_ms E),
      jb_locked_at = None, jb_locked_by = None, jb_created = ev_now E,
      jb_succeeded_at = None, jb_failed_at = None\<rparr>"

text \<open>The constraints of the table: the identifier, and the dedupe key unless it is null.\<close>

definition job_clash :: "job \<Rightarrow> job \<Rightarrow> bool" where
  "job_clash j k \<longleftrightarrow> jb_id k = jb_id j \<or> (jb_dedupe j \<noteq> None \<and> jb_dedupe k = jb_dedupe j)"

text \<open>The insert, with the catch that turns a lost race into the winner's job.\<close>

definition create_job :: "queue_env \<Rightarrow> enqueue_params \<Rightarrow> queue \<Rightarrow> (job \<times> queue) outcome" where
  "create_job E p Q =
     (let j = new_job E p (ev_cuid E (jq_seq Q))
      in if find (job_clash j) (jq_jobs Q) = None
         then Inr (j, Q\<lparr>jq_jobs := jq_jobs Q @ [j], jq_seq := Suc (jq_seq Q)\<rparr>)
         else case find_dedupe (lookup_key p) Q of
                Some k \<Rightarrow> Inr (k, Q)
              | None \<Rightarrow> Inl (Internal ''Unique constraint failed''))"

definition enqueueJob :: "queue_env \<Rightarrow> enqueue_params \<Rightarrow> queue \<Rightarrow> (job \<times> queue) outcome" where
  "enqueueJob E p Q =
     chain (assertTenantExists (ep_tenant p) Q) (\<lambda>_.
       case find_dedupe (lookup_key p) Q of
         Some j \<Rightarrow> Inr (j, Q)
       | None \<Rightarrow> create_job E p Q)"

section \<open>Claiming and marking\<close>

definition update_job :: "string \<Rightarrow> (job \<Rightarrow> job) \<Rightarrow> queue \<Rightarrow> queue" where
  "update_job i f Q = Q\<lparr>jq_jobs := update_where (\<lambda>j. jb_id j = i) f (jq_jobs Q)\<rparr>"

definition limited :: "nat option \<Rightarrow> 'a list \<Rightarrow> 'a list" where
  "limited limit rows = take (case limit of Some n \<Rightarrow> n | None \<Rightarrow> 1) rows"

text \<open>The rows of the claiming query: due, of the wanted types, not locked, oldest first.\<close>

definition claimable :: "(string \<Rightarrow> bool) \<Rightarrow> job_type list \<Rightarrow> int \<Rightarrow> queue \<Rightarrow> job list" where
  "claimable busy types now Q =
     filter (\<lambda>j. \<not> busy (jb_id j))
       (sort_key (\<lambda>j. (jb_run_at j, jb_created j))
         (filter (\<lambda>j. jb_status j = JS_PENDING \<and> jb_run_at j \<le> now \<and> (types = [] \<or> jb_type j \<in> set types))
           (jq_jobs Q)))"

definition claimNextJob ::
  "queue_env \<Rightarrow> (string \<Rightarrow> bool) \<Rightarrow> string \<Rightarrow> job_type list \<Rightarrow> nat option \<Rightarrow> queue \<Rightarrow>
     (job option \<times> queue) outcome" where
  "claimNextJob E busy worker types limit Q =
     (let w = trim worker
      in if w = '''' then Inl (BadRequest ''workerId is required'')
         else case limited limit (claimable busy types (ev_now E) Q) of
                [] \<Rightarrow> Inr (None, Q)
              | j # _ \<Rightarrow>
                  let Q1 = Q\<lparr>jq_jobs := update_where (\<lambda>k. jb_id k = jb_id j \<and> jb_status k = JS_PENDING)
                             (\<lambda>k. k\<lparr>jb_status := JS_PROCESSING, jb_locked_at := Some (ev_now E), jb_locked_by := Some w\<rparr>)
                             (jq_jobs Q)\<rparr>
                  in if length (filter (\<lambda>k. jb_id k = jb_id j \<and> jb_status k = JS_PENDING) (jq_jobs Q)) \<noteq> 1
                     then Inr (None, Q1)
                     else Inr (find (\<lambda>k. jb_id k = jb_id j) (jq_jobs Q1), Q1))"

definition held :: "string \<Rightarrow> string \<Rightarrow> job \<Rightarrow> bool" where
  "held i worker j \<longleftrightarrow> jb_id j = i \<and> jb_status j = JS_PROCESSING \<and> jb_locked_by j = Some worker"

definition markSucceeded :: "queue_env \<Rightarrow> string \<Rightarrow> string \<Rightarrow> queue \<Rightarrow> queue" where
  "markSucceeded E i worker Q =
     Q\<lparr>jq_jobs := update_where (held i worker)
         (\<lambda>j. j\<lparr>jb_status := JS_SUCCEEDED, jb_succeeded_at := Some (ev_now E), jb_locked_at := None,
                jb_locked_by := None, jb_error := None\<rparr>)
         (jq_jobs Q)\<rparr>"

definition retry_delay :: "queue_env \<Rightarrow> job \<Rightarrow> int" where
  "retry_delay E j =
     calculateBackoffMs (jb_attempts j + 1) (Some (of_int (jb_backoff j))) (Some 600000) (Some (1 / 5)) (qe_random E)"

definition dead_row :: "queue_env \<Rightarrow> string \<Rightarrow> job \<Rightarrow> dead_job" where
  "dead_row E msg j =
     \<lparr>dl_tenant = jb_tenant j, dl_job = jb_id j, dl_type = jb_type j, dl_payload = jb_payload j,
      dl_attempts = jb_attempts j + 1, dl_error = take 2000 msg, dl_failed_at = ev_now E\<rparr>"

definition dead_audit :: "queue_env \<Rightarrow> job \<Rightarrow> job_audit" where
  "dead_audit E j =
     \<lparr>ad_tenant = jb_tenant j, ad_request = getPayloadString (jb_payload j) ''requestId'', ad_job = jb_id j,
      ad_type = jb_type j, ad_attempts = jb_attempts j + 1, ad_max = jb_max j,
      ad_correlation = getPayloadString (jb_payload j) ''correlationId'', ad_dlq = qe_dlq_enabled E\<rparr>"

definition markFailed :: "queue_env \<Rightarrow> string \<Rightarrow> string \<Rightarrow> string \<Rightarrow> queue \<Rightarrow> queue" where
  "markFailed E i worker msg Q =
     (case find (held i worker) (jq_jobs Q) of
        None \<Rightarrow> Q
      | Some j \<Rightarrow>
          if jb_attempts j + 1 \<ge> jb_max j
          then let Q1 = update_job i (\<lambda>k. k\<lparr>jb_attempts := jb_attempts j + 1, jb_status := JS_DEAD_LETTER,
                      jb_error := Some (take 2000 msg), jb_failed_at := Some (ev_now E),
                      jb_locked_at := None, jb_locked_by := None\<rparr>) Q;
                   Q2 = (if qe_dlq_enabled E then Q1\<lparr>jq_dlq := jq_dlq Q1 @ [dead_row E msg j]\<rparr> else Q1)
               in Q2\<lparr>jq_audit := jq_audit Q2 @ [dead_audit E j]\<rparr>
          else update_job i (\<lambda>k. k\<lparr>jb_attempts := jb_attempts j + 1, jb_status := JS_PENDING,
                 jb_run_at := ev_now E + retry_delay E j, jb_error := Some (take 2000 msg),
                 jb_locked_at := None, jb_locked_by := None\<rparr>) Q)"

section \<open>Runs\<close>

text \<open>
  The calls of all workers and clients in the order the database commits them: each call is one
  transaction, so a run of the system is a list of calls.
\<close>

datatype queue_call =
    Enqueue queue_env enqueue_params
  | Claim queue_env "string \<Rightarrow> bool" string "job_type list" "nat option"
  | Succeed queue_env string string
  | Fail queue_env string string string

fun exec_call :: "queue_call \<Rightarrow> queue \<Rightarrow> job option \<times> queue" where
  "exec_call (Enqueue E p) Q = (case enqueueJob E p Q of Inl e \<Rightarrow> (None, Q) | Inr (j, Q') \<Rightarrow> (None, Q'))"
| "exec_call (Claim E busy w types limit) Q =
     (case claimNextJob E busy w types limit Q of Inl e \<Rightarrow> (None, Q) | Inr r \<Rightarrow> r)"
| "exec_call (Succeed E i w) Q = (None, markSucceeded E i w Q)"
| "exec_call (Fail E i w msg) Q = (None, markFailed E i w msg Q)"

text \<open>How often the job \<open>i\<close> is handed to a worker in a run.\<close>

definition handed :: "string \<Rightarrow> job option \<Rightarrow> nat" where
  "handed i r = (if map_option jb_id r = Some i then 1 else 0)"

definition claims_of :: "string \<Rightarrow> queue_call list \<Rightarrow> queue \<Rightarrow> nat" where
  "claims_of i cs Q = work_of (handed i) exec_call cs Q"

definition run_calls :: "queue_call list \<Rightarrow> queue \<Rightarrow> queue" where
  "run_calls cs Q = run_all exec_call cs Q"

section \<open>What each call does to the table\<close>

definition job_of :: "string \<Rightarrow> queue \<Rightarrow> job option" where
  "job_of i Q = find (\<lambda>j. jb_id j = i) (jq_jobs Q)"

definition ids_ok :: "queue \<Rightarrow> bool" where
  "ids_ok Q \<longleftrightarrow> distinct (map jb_id (jq_jobs Q))"

definition claimed :: "int \<Rightarrow> string \<Rightarrow> job \<Rightarrow> job" where
  "claimed now w j = j\<lparr>jb_status := JS_PROCESSING, jb_locked_at := Some now, jb_locked_by := Some w\<rparr>"

definition succeeded :: "int \<Rightarrow> job \<Rightarrow> job" where
  "succeeded now j = j\<lparr>jb_status := JS_SUCCEEDED, jb_succeeded_at := Some now, jb_locked_at := None,
     jb_locked_by := None, jb_error := None\<rparr>"

definition failed_job :: "queue_env \<Rightarrow> string \<Rightarrow> job \<Rightarrow> job" where
  "failed_job E msg j =
     (if jb_max j \<le> jb_attempts j + 1
      then j\<lparr>jb_attempts := jb_attempts j + 1, jb_status := JS_DEAD_LETTER, jb_error := Some (take 2000 msg),
             jb_failed_at := Some (ev_now E), jb_locked_at := None, jb_locked_by := None\<rparr>
      else j\<lparr>jb_attempts := jb_attempts j + 1, jb_status := JS_PENDING,
             jb_run_at := ev_now E + retry_delay E j, jb_error := Some (take 2000 msg),
             jb_locked_at := None, jb_locked_by := None\<rparr>)"

lemma changed_row_simps [simp]:
  "jb_id (claimed now w j) = jb_id j" "jb_id (succeeded now j) = jb_id j" "jb_id (failed_job E msg j) = jb_id j"
  "jb_dedupe (claimed now w j) = jb_dedupe j" "jb_dedupe (succeeded now j) = jb_dedupe j"
  "jb_dedupe (failed_job E msg j) = jb_dedupe j" "jb_tenant (claimed now w j) = jb_tenant j"
  "jb_tenant (succeeded now j) = jb_tenant j" "jb_tenant (failed_job E msg j) = jb_tenant j"
  by (simp_all add: claimed_def succeeded_def failed_job_def)

lemma job_of_row:
  assumes "ids_ok Q" "j \<in> set (jq_jobs Q)"
  shows "job_of (jb_id j) Q = Some j"
  using assms unfolding ids_ok_def job_of_def by (rule find_own_key)

lemma job_ofD: "job_of i Q = Some j \<Longrightarrow> j \<in> set (jq_jobs Q) \<and> jb_id j = i"
  unfolding job_of_def by (auto dest: find_SomeD)

lemma update_where_one:
  assumes "distinct (map k rows)" "r \<in> set rows" "P r" "\<And>q. P q \<Longrightarrow> k q = k r" "g r = f r"
  shows "update_where P g rows = update_where (\<lambda>q. k q = k r) f rows"
proof -
  have "(if P q then g q else q) = (if k q = k r then f q else q)" if q: "q \<in> set rows" for q
  proof (cases "k q = k r")
    case True
    then have "q = r" using assms(1,2) q by (auto simp: distinct_map inj_on_def)
    then show ?thesis using assms(3,5) by simp
  next
    case False
    then show ?thesis using assms(4) [of q] by auto
  qed
  then show ?thesis unfolding update_where_def by simp
qed

lemma distinct_filter_eq_length: "distinct xs \<Longrightarrow> x \<in> set xs \<Longrightarrow> length (filter (\<lambda>y. y = x) xs) = 1"
proof (induction xs)
  case (Cons y ys)
  then show ?case by (cases "y = x") (auto simp: filter_empty_conv)
qed simp

lemma claim_eq:
  assumes "ids_ok Q" "trim worker \<noteq> ''''"
  shows "claimNextJob E busy worker types limit Q =
    (case limited limit (claimable busy types (ev_now E) Q) of
       [] \<Rightarrow> Inr (None, Q)
     | j # _ \<Rightarrow> Inr (Some (claimed (ev_now E) (trim worker) j),
         update_job (jb_id j) (claimed (ev_now E) (trim worker)) Q))"
proof (cases "limited limit (claimable busy types (ev_now E) Q)")
  case Nil
  with assms(2) show ?thesis by (simp add: claimNextJob_def Let_def)
next
  case (Cons j rest)
  then have "j \<in> set (claimable busy types (ev_now E) Q)" unfolding limited_def by (metis in_set_takeD list.set_intros(1))
  then have j: "j \<in> set (jq_jobs Q)" "jb_status j = JS_PENDING" by (auto simp: claimable_def)
  have only: "k = j" if "k \<in> set (jq_jobs Q)" "jb_id k = jb_id j" for k
    using job_of_row [OF assms(1) that(1)] job_of_row [OF assms(1) j(1)] that(2) by (metis option.inject)
  let ?P = "\<lambda>k. jb_id k = jb_id j \<and> jb_status k = JS_PENDING"
  let ?f = "claimed (ev_now E) (trim worker)"
  have d: "distinct (map jb_id (jq_jobs Q))" using assms(1) by (simp add: ids_ok_def)
  have up: "update_where ?P (\<lambda>k. k\<lparr>jb_status := JS_PROCESSING, jb_locked_at := Some (ev_now E), jb_locked_by := Some (trim worker)\<rparr>)
      (jq_jobs Q) = update_where (\<lambda>k. jb_id k = jb_id j) ?f (jq_jobs Q)"
    by (rule update_where_one [OF d j(1)]) (simp_all only: j claimed_def simp_thms)
  have "filter ?P (jq_jobs Q) = filter (\<lambda>k. k = j) (jq_jobs Q)"
    using j(2) by (intro filter_cong [OF refl]) (auto dest: only)
  moreover have "distinct (jq_jobs Q)" using d by (simp add: distinct_map)
  ultimately have one: "length (filter ?P (jq_jobs Q)) = 1"
    using j(1) by (simp only: distinct_filter_eq_length)
  have "find (\<lambda>k. jb_id k = jb_id j) (update_where (\<lambda>k. jb_id k = jb_id j) ?f (jq_jobs Q)) = Some (?f j)"
  proof -
    have "?f j \<in> set (update_where (\<lambda>k. jb_id k = jb_id j) ?f (jq_jobs Q))"
      using j(1) by (force simp: set_update_where)
    moreover have "distinct (map jb_id (update_where (\<lambda>k. jb_id k = jb_id j) ?f (jq_jobs Q)))"
      using d by (simp add: map_update_where)
    ultimately show ?thesis
      using find_own_key [of jb_id "update_where (\<lambda>k. jb_id k = jb_id j) ?f (jq_jobs Q)" "?f j"] by simp
  qed
  with Cons assms(2) one up show ?thesis
    by (simp add: claimNextJob_def Let_def update_job_def)
qed

lemma succeed_eq:
  assumes "ids_ok Q"
  shows "markSucceeded E i w Q =
    (case find (held i w) (jq_jobs Q) of None \<Rightarrow> Q | Some j \<Rightarrow> update_job i (succeeded (ev_now E)) Q)"
proof (cases "find (held i w) (jq_jobs Q)")
  case None
  then have "update_where (held i w) f (jq_jobs Q) = jq_jobs Q" for f
    by (auto simp: update_where_def find_None_iff intro!: map_idI)
  with None show ?thesis by (simp add: markSucceeded_def)
next
  case (Some j)
  then have j: "j \<in> set (jq_jobs Q)" "held i w j" by (auto dest: find_SomeD)
  then have i: "i = jb_id j" by (simp add: held_def)
  have "update_where (held i w) (\<lambda>j. j\<lparr>jb_status := JS_SUCCEEDED, jb_succeeded_at := Some (ev_now E),
      jb_locked_at := None, jb_locked_by := None, jb_error := None\<rparr>) (jq_jobs Q) =
    update_where (\<lambda>k. jb_id k = jb_id j) (succeeded (ev_now E)) (jq_jobs Q)"
    by (rule update_where_one [OF assms [unfolded ids_ok_def] j(1)]) (use j in \<open>simp_all add: held_def succeeded_def\<close>)
  with Some show ?thesis by (simp add: markSucceeded_def update_job_def i)
qed

lemma fail_eq:
  assumes "ids_ok Q" "find (held i w) (jq_jobs Q) = Some j"
  shows "jq_jobs (markFailed E i w msg Q) = update_where (\<lambda>k. jb_id k = i) (failed_job E msg) (jq_jobs Q)"
proof -
  have j: "j \<in> set (jq_jobs Q)" "held i w j" using assms(2) by (auto dest: find_SomeD)
  then have i: "i = jb_id j" by (simp add: held_def)
  have d: "distinct (map jb_id (jq_jobs Q))" using assms(1) by (simp add: ids_ok_def)
  have same: "update_where (\<lambda>k. jb_id k = jb_id j) f (jq_jobs Q) =
      update_where (\<lambda>k. jb_id k = jb_id j) (failed_job E msg) (jq_jobs Q)" if "f j = failed_job E msg j" for f
    by (rule update_where_one [OF d j(1)]) (simp_all only: that simp_thms)
  have "\<exists>f. jq_jobs (markFailed E i w msg Q) = update_where (\<lambda>k. jb_id k = i) f (jq_jobs Q) \<and>
      f j = failed_job E msg j"
  proof (cases "jb_max j \<le> jb_attempts j + 1")
    case True
    show ?thesis unfolding markFailed_def assms(2) option.case if_P [OF True] Let_def update_job_def
      by (intro exI [of _ "\<lambda>k. k\<lparr>jb_attempts := jb_attempts j + 1, jb_status := JS_DEAD_LETTER,
           jb_error := Some (take 2000 msg), jb_failed_at := Some (ev_now E), jb_locked_at := None,
           jb_locked_by := None\<rparr>"] conjI) (simp_all add: failed_job_def True)
  next
    case False
    show ?thesis unfolding markFailed_def assms(2) option.case if_not_P [OF False] Let_def update_job_def
      by (intro exI [of _ "\<lambda>k. k\<lparr>jb_attempts := jb_attempts j + 1, jb_status := JS_PENDING,
           jb_run_at := ev_now E + retry_delay E j, jb_error := Some (take 2000 msg), jb_locked_at := None,
           jb_locked_by := None\<rparr>"] conjI) (simp_all add: failed_job_def False)
  qed
  then obtain f where f: "jq_jobs (markFailed E i w msg Q) = update_where (\<lambda>k. jb_id k = i) f (jq_jobs Q)"
    "f j = failed_job E msg j" by (elim exE conjE)
  show ?thesis unfolding f(1) unfolding i by (rule same [of f, OF f(2)])
qed

section \<open>The life of one job\<close>

text \<open>How a call changes a job that is in the table: not at all, or by one step of its life.\<close>

lemma job_of_update:
  assumes "\<And>q. jb_id (f q) = jb_id q"
  shows "job_of i (update_job i' f Q) = map_option (if i' = i then f else (\<lambda>q. q)) (job_of i Q)"
  unfolding job_of_def update_job_def by (simp add: find_update_one assms)

lemma create_job_jobs:
  "create_job E p Q = Inr (j, Q') \<Longrightarrow>
     Q' = Q \<or> (\<exists>n. Q' = Q\<lparr>jq_jobs := jq_jobs Q @ [n], jq_seq := Suc (jq_seq Q)\<rparr> \<and>
       find (job_clash n) (jq_jobs Q) = None \<and> n = new_job E p (ev_cuid E (jq_seq Q)) \<and> j = n)"
  by (auto simp: create_job_def Let_def split: if_splits option.splits)

lemma enqueue_jobs:
  "enqueueJob E p Q = Inr (j, Q') \<Longrightarrow>
     Q' = Q \<or> (\<exists>n. Q' = Q\<lparr>jq_jobs := jq_jobs Q @ [n], jq_seq := Suc (jq_seq Q)\<rparr> \<and>
       find (job_clash n) (jq_jobs Q) = None \<and> n = new_job E p (ev_cuid E (jq_seq Q)) \<and> j = n)"
  by (auto simp: enqueueJob_def outcome_simps dest: create_job_jobs split: option.splits)

definition life_step :: "queue_call \<Rightarrow> job option \<Rightarrow> job \<Rightarrow> job \<Rightarrow> bool" where
  "life_step c r j j' \<longleftrightarrow>
     (j' = j \<and> handed (jb_id j) r = 0) \<or>
     (case c of
        Enqueue E p \<Rightarrow> False
      | Claim E busy w types limit \<Rightarrow>
          jb_status j = JS_PENDING \<and> jb_run_at j \<le> ev_now E \<and> \<not> busy (jb_id j) \<and>
          j' = claimed (ev_now E) (trim w) j \<and> r = Some j'
      | Succeed E i w \<Rightarrow> held i w j \<and> j' = succeeded (ev_now E) j \<and> r = None
      | Fail E i w msg \<Rightarrow> held i w j \<and> j' = failed_job E msg j \<and> r = None)"

lemma held_found:
  assumes "ids_ok Q" "find (held i w) (jq_jobs Q) = Some h" "job_of i Q = Some j"
  shows "h = j"
proof -
  have "h \<in> set (jq_jobs Q)" "jb_id h = i" using assms(2) by (auto simp: held_def dest: find_SomeD)
  then show ?thesis using job_of_row [OF assms(1), of h] assms(3) by simp
qed

lemma call_life:
  assumes "ids_ok Q" "job_of i Q = Some j" "exec_call c Q = (r, Q')"
  shows "\<exists>j'. job_of i Q' = Some j' \<and> life_step c r j j'"
proof (cases c)
  case (Enqueue E p)
  have "job_of i Q' = Some j \<and> r = None"
    using assms(2,3) unfolding Enqueue
    by (auto simp: job_of_def find_append dest!: enqueue_jobs split: sum.splits prod.splits)
  then show ?thesis by (auto simp: life_step_def handed_def)
next
  case (Claim E busy w types limit)
  show ?thesis
  proof (cases "trim w = ''''")
    case True
    then have "Q' = Q \<and> r = None" using assms(3) Claim by (auto simp: claimNextJob_def)
    then show ?thesis using assms(2) by (auto simp: life_step_def handed_def)
  next
    case False
    note eq = claim_eq [OF assms(1) False, of E busy types limit]
    show ?thesis
    proof (cases "limited limit (claimable busy types (ev_now E) Q)")
      case Nil
      then have "Q' = Q \<and> r = None" using assms(3) Claim eq by simp
      then show ?thesis using assms(2) by (auto simp: life_step_def handed_def)
    next
      case (Cons h rest)
      let ?f = "claimed (ev_now E) (trim w)"
      have res: "r = Some (?f h)" "Q' = update_job (jb_id h) ?f Q"
        using assms(3) Claim eq Cons by simp_all
      have "h \<in> set (claimable busy types (ev_now E) Q)"
        using Cons unfolding limited_def by (metis in_set_takeD list.set_intros(1))
      then have h: "h \<in> set (jq_jobs Q)" "jb_status h = JS_PENDING" "jb_run_at h \<le> ev_now E" "\<not> busy (jb_id h)"
        by (auto simp: claimable_def)
      have at: "job_of i Q' = Some (if jb_id h = i then ?f j else j)"
        unfolding res(2) by (simp add: job_of_update assms(2))
      show ?thesis
      proof (cases "jb_id h = i")
        case True
        then have "h = j" using job_of_row [OF assms(1) h(1)] assms(2) by simp
        then show ?thesis using at True h res(1) by (auto simp: life_step_def Claim)
      next
        case False
        then show ?thesis using at job_ofD [OF assms(2)] by (auto simp: life_step_def handed_def res(1))
      qed
    qed
  qed
next
  case (Succeed E k w)
  have r: "r = None" and Q': "Q' = markSucceeded E k w Q" using assms(3) Succeed by simp_all
  show ?thesis
  proof (cases "find (held k w) (jq_jobs Q)")
    case None
    then have "Q' = Q" by (simp add: Q' succeed_eq [OF assms(1)])
    then show ?thesis using assms(2) r by (auto simp: life_step_def handed_def)
  next
    case (Some h)
    then have at: "job_of i Q' = Some (if k = i then succeeded (ev_now E) j else j)"
      by (simp add: Q' succeed_eq [OF assms(1)] job_of_update assms(2))
    have "held i w j" if "k = i"
      using held_found [OF assms(1) Some [unfolded that] assms(2)] Some that by (auto dest: find_SomeD)
    then show ?thesis using at r by (auto simp: life_step_def handed_def Succeed)
  qed
next
  case (Fail E k w msg)
  have r: "r = None" and Q': "Q' = markFailed E k w msg Q" using assms(3) Fail by simp_all
  show ?thesis
  proof (cases "find (held k w) (jq_jobs Q)")
    case None
    then have "Q' = Q" by (simp add: Q' markFailed_def)
    then show ?thesis using assms(2) r by (auto simp: life_step_def handed_def)
  next
    case (Some h)
    have at: "job_of i Q' = Some (if k = i then failed_job E msg j else j)"
      using assms(2) unfolding job_of_def Q' fail_eq [OF assms(1) Some] by (simp add: find_update_one)
    have "held i w j" if "k = i"
      using held_found [OF assms(1) Some [unfolded that] assms(2)] Some that by (auto dest: find_SomeD)
    then show ?thesis using at r by (auto simp: life_step_def handed_def Fail)
  qed
qed

section \<open>The table stays well-formed\<close>

definition locks_ok :: "job \<Rightarrow> bool" where
  "locks_ok j \<longleftrightarrow> (jb_status j = JS_PROCESSING \<longleftrightarrow> jb_locked_by j \<noteq> None) \<and>
     (jb_locked_at j = None \<longleftrightarrow> jb_locked_by j = None)"

definition keys_of :: "job list \<Rightarrow> string option list" where
  "keys_of js = filter (\<lambda>k. k \<noteq> None) (map jb_dedupe js)"

definition queue_ok :: "queue \<Rightarrow> bool" where
  "queue_ok Q \<longleftrightarrow> ids_ok Q \<and> distinct (keys_of (jq_jobs Q)) \<and>
     (\<forall>j \<in> set (jq_jobs Q). locks_ok j \<and> trim (jb_tenant j) \<in> set (jq_tenants Q))"

lemma call_jobs:
  assumes "ids_ok Q" "exec_call c Q = (r, Q')"
  shows "jq_tenants Q' = jq_tenants Q \<and>
    (jq_jobs Q' = jq_jobs Q \<or>
     (\<exists>n. jq_jobs Q' = jq_jobs Q @ [n] \<and> find (job_clash n) (jq_jobs Q) = None \<and>
        locks_ok n \<and> trim (jb_tenant n) \<in> set (jq_tenants Q)) \<or>
     (\<exists>i f. jq_jobs Q' = update_where (\<lambda>j. jb_id j = i) f (jq_jobs Q) \<and>
        (\<forall>j. locks_ok (f j) \<and> jb_id (f j) = jb_id j \<and> jb_dedupe (f j) = jb_dedupe j \<and> jb_tenant (f j) = jb_tenant j)))"
proof (cases c)
  case (Enqueue E p)
  show ?thesis
  proof (cases "enqueueJob E p Q")
    case (Inl e)
    with assms(2) show ?thesis unfolding Enqueue by simp
  next
    case (Inr jq)
    then obtain j where en: "enqueueJob E p Q = Inr (j, Q')" using assms(2) Enqueue by (cases jq) auto
    then have "trim (ep_tenant p) \<in> set (jq_tenants Q)"
      by (auto simp: enqueueJob_def assertTenantExists_def outcome_simps split: if_splits)
    moreover have "locks_ok (new_job E p x)" "jb_tenant (new_job E p x) = ep_tenant p" for x
      by (simp_all add: new_job_def locks_ok_def)
    ultimately show ?thesis using enqueue_jobs [OF en] by (elim disjE exE conjE) simp_all
  qed
next
  case (Claim E busy w types limit)
  have l: "locks_ok (claimed now x j)" for now x j by (simp add: locks_ok_def claimed_def)
  show ?thesis
  proof (cases "trim w = ''''")
    case True
    then show ?thesis using assms(2) Claim by (auto simp: claimNextJob_def)
  next
    case False
    note eq = claim_eq [OF assms(1) False, of E busy types limit]
    show ?thesis
    proof (cases "limited limit (claimable busy types (ev_now E) Q)")
      case Nil
      then show ?thesis using assms(2) Claim eq by simp
    next
      case (Cons h rest)
      then have "Q' = update_job (jb_id h) (claimed (ev_now E) (trim w)) Q" using assms(2) Claim eq by simp
      then show ?thesis
        by (intro conjI disjI2 exI [of _ "jb_id h"] exI [of _ "claimed (ev_now E) (trim w)"])
          (simp_all add: update_job_def l)
    qed
  qed
next
  case (Succeed E i w)
  have l: "locks_ok (succeeded now j)" for now j by (simp add: locks_ok_def succeeded_def)
  have Q': "Q' = markSucceeded E i w Q" using assms(2) Succeed by simp
  show ?thesis
  proof (cases "find (held i w) (jq_jobs Q)")
    case None
    then show ?thesis by (simp add: Q' succeed_eq [OF assms(1)])
  next
    case (Some h)
    then have "Q' = update_job i (succeeded (ev_now E)) Q" by (simp add: Q' succeed_eq [OF assms(1)])
    then show ?thesis
      by (intro conjI disjI2 exI [of _ i] exI [of _ "succeeded (ev_now E)"]) (simp_all add: update_job_def l)
  qed
next
  case (Fail E i w msg)
  have l: "locks_ok (failed_job F m j)" for F m j by (simp add: locks_ok_def failed_job_def)
  have Q': "Q' = markFailed E i w msg Q" using assms(2) Fail by simp
  have tn: "jq_tenants Q' = jq_tenants Q"
    by (simp add: Q' markFailed_def update_job_def Let_def split: option.split)
  have "jq_jobs Q' = jq_jobs Q \<or> jq_jobs Q' = update_where (\<lambda>j. jb_id j = i) (failed_job E msg) (jq_jobs Q)"
  proof (cases "find (held i w) (jq_jobs Q)")
    case None
    then show ?thesis by (simp add: Q' markFailed_def)
  next
    case (Some h)
    show ?thesis by (rule disjI2) (simp only: Q' fail_eq [OF assms(1) Some])
  qed
  then have "jq_jobs Q' = jq_jobs Q \<or> (\<exists>i f. jq_jobs Q' = update_where (\<lambda>j. jb_id j = i) f (jq_jobs Q) \<and>
      (\<forall>j. locks_ok (f j) \<and> jb_id (f j) = jb_id j \<and> jb_dedupe (f j) = jb_dedupe j \<and> jb_tenant (f j) = jb_tenant j))"
  proof (elim disjE)
    assume "jq_jobs Q' = update_where (\<lambda>j. jb_id j = i) (failed_job E msg) (jq_jobs Q)"
    then show ?thesis by (intro disjI2 exI [of _ i] exI [of _ "failed_job E msg"] conjI) (simp_all add: l)
  qed (rule disjI1)
  with tn show ?thesis by (elim disjE) (intro conjI disjI1 disjI2; assumption)+
qed

lemma call_keeps_ids:
  assumes "ids_ok Q" "exec_call c Q = (r, Q')"
  shows "ids_ok Q'"
  using call_jobs [OF assms]
proof (elim conjE disjE exE)
  fix n
  assume "jq_jobs Q' = jq_jobs Q @ [n]" "find (job_clash n) (jq_jobs Q) = None"
  then show ?thesis using assms(1) by (auto simp: ids_ok_def find_None_iff job_clash_def)
next
  fix i f
  assume "jq_jobs Q' = update_where (\<lambda>j. jb_id j = i) f (jq_jobs Q)"
    "\<forall>j. locks_ok (f j) \<and> jb_id (f j) = jb_id j \<and> jb_dedupe (f j) = jb_dedupe j \<and> jb_tenant (f j) = jb_tenant j"
  then show ?thesis using assms(1) by (simp add: ids_ok_def map_update_where)
qed (use assms(1) in \<open>simp add: ids_ok_def\<close>)

lemma queue_ok_append:
  assumes "queue_ok Q" "jq_jobs Q' = jq_jobs Q @ [n]" "jq_tenants Q' = jq_tenants Q"
    and "find (job_clash n) (jq_jobs Q) = None" "locks_ok n" "trim (jb_tenant n) \<in> set (jq_tenants Q)"
  shows "queue_ok Q'"
proof -
  have "jb_id n \<notin> jb_id ` set (jq_jobs Q)" using assms(4) by (auto simp: find_None_iff job_clash_def)
  moreover have "jb_dedupe n \<noteq> None \<Longrightarrow> jb_dedupe n \<notin> set (keys_of (jq_jobs Q))"
    using assms(4) by (auto simp: find_None_iff job_clash_def keys_of_def)
  ultimately show ?thesis
    using assms(1-3,5,6) by (auto simp: queue_ok_def ids_ok_def keys_of_def)
qed

lemma queue_ok_update:
  assumes "queue_ok Q" "jq_jobs Q' = update_where P f (jq_jobs Q)" "jq_tenants Q' = jq_tenants Q"
    and "\<forall>j. locks_ok (f j) \<and> jb_id (f j) = jb_id j \<and> jb_dedupe (f j) = jb_dedupe j \<and> jb_tenant (f j) = jb_tenant j"
  shows "queue_ok Q'"
proof -
  have "map jb_id (jq_jobs Q') = map jb_id (jq_jobs Q)" "map jb_dedupe (jq_jobs Q') = map jb_dedupe (jq_jobs Q)"
    unfolding assms(2) using assms(4) by (auto intro!: map_update_where)
  moreover have "\<forall>j \<in> set (jq_jobs Q'). locks_ok j \<and> trim (jb_tenant j) \<in> set (jq_tenants Q)"
    using assms(1,4) unfolding assms(2) queue_ok_def by (auto simp: set_update_where)
  ultimately show ?thesis
    using assms(1,3) by (auto simp: queue_ok_def ids_ok_def keys_of_def)
qed

lemma call_keeps_queue_ok:
  assumes "queue_ok Q"
  shows "queue_ok (snd (exec_call c Q))"
proof -
  obtain r Q' where ex: "exec_call c Q = (r, Q')" by (cases "exec_call c Q")
  have "ids_ok Q" using assms by (simp add: queue_ok_def)
  note cj = call_jobs [OF this ex]
  then have t: "jq_tenants Q' = jq_tenants Q" by (rule conjunct1)
  from cj have "queue_ok Q'"
  proof (elim conjE disjE exE)
    assume "jq_jobs Q' = jq_jobs Q"
    then show ?thesis using assms t by (simp add: queue_ok_def ids_ok_def)
  next
    fix n
    assume n: "jq_jobs Q' = jq_jobs Q @ [n]" "find (job_clash n) (jq_jobs Q) = None"
      "locks_ok n" "trim (jb_tenant n) \<in> set (jq_tenants Q)"
    show ?thesis by (rule queue_ok_append [OF assms n(1) t n(2-4)])
  next
    fix i f
    assume "jq_jobs Q' = update_where (\<lambda>j. jb_id j = i) f (jq_jobs Q)"
      "\<forall>j. locks_ok (f j) \<and> jb_id (f j) = jb_id j \<and> jb_dedupe (f j) = jb_dedupe j \<and> jb_tenant (f j) = jb_tenant j"
    then show ?thesis by (rule queue_ok_update [OF assms _ t])
  qed
  then show ?thesis by (simp add: ex)
qed

interpretation queue_calls: invariant_calls exec_call queue_ok
  by unfold_locales (rule call_keeps_queue_ok)

section \<open>Bounded attempts\<close>

text \<open>How many times a job can still be handed out.\<close>

definition attempts_left :: "job \<Rightarrow> nat" where
  "attempts_left j =
     (case jb_status j of
        JS_PENDING \<Rightarrow> nat (max 1 (jb_max j - jb_attempts j))
      | JS_PROCESSING \<Rightarrow> nat (max 1 (jb_max j - jb_attempts j)) - 1
      | _ \<Rightarrow> 0)"

definition claims_left :: "string \<Rightarrow> queue \<Rightarrow> nat" where
  "claims_left i Q = (case job_of i Q of Some j \<Rightarrow> attempts_left j | None \<Rightarrow> 0)"

lemma life_step_pays:
  assumes "life_step c r j j'" "jb_id j = i"
  shows "handed i r + attempts_left j' \<le> attempts_left j"
  using assms
  by (auto simp: life_step_def handed_def attempts_left_def claimed_def succeeded_def failed_job_def held_def
      split: queue_call.splits if_splits)

interpretation job_life: bounded_work exec_call "\<lambda>Q. ids_ok Q \<and> job_of i Q \<noteq> None" "handed i" "claims_left i" for i
proof unfold_locales
  fix Q c
  assume Q: "ids_ok Q \<and> job_of i Q \<noteq> None"
  obtain r Q' where ex: "exec_call c Q = (r, Q')" by (cases "exec_call c Q")
  from Q obtain j where j: "job_of i Q = Some j" by auto
  from call_life [OF conjunct1 [OF Q] j ex] obtain j' where j': "job_of i Q' = Some j'" "life_step c r j j'"
    by (elim exE conjE)
  have "ids_ok Q'" by (rule call_keeps_ids [OF conjunct1 [OF Q] ex])
  with j' show "ids_ok (snd (exec_call c Q)) \<and> job_of i (snd (exec_call c Q)) \<noteq> None" by (simp add: ex)
  show "handed i (fst (exec_call c Q)) + claims_left i (snd (exec_call c Q)) \<le> claims_left i Q"
    using life_step_pays [OF j'(2), of i] job_ofD [OF j] by (simp add: ex claims_left_def j j'(1))
qed

text \<open>
  C19. The table of jobs stays well-formed over any run of calls: identifiers and dedupe keys are
  unique, a job is locked by a worker exactly while it is processed, and its tenant exists.
\<close>

theorem queue_stays_well_formed:
  assumes "queue_ok Q"
  shows "queue_ok (run_calls cs Q)"
  unfolding run_calls_def by (rule queue_calls.run_keeps [OF assms])

text \<open>
  As long as nobody retries or releases it, a pending job is handed out at most as often as it has
  attempts left, or once if none is left.
\<close>

lemma job_claims_bounded:
  assumes "ids_ok Q" "job_of i Q = Some j" "jb_status j = JS_PENDING"
  shows "claims_of i cs Q \<le> nat (max 1 (jb_max j - jb_attempts j))"
  using job_life.work_bounded [of Q i cs] assms
  by (simp add: claims_of_def claims_left_def attempts_left_def)

section \<open>Exclusion, order and dedupe\<close>

definition marks :: "string \<Rightarrow> string \<Rightarrow> queue_call \<Rightarrow> bool" where
  "marks i w c = (case c of Succeed E k v \<Rightarrow> k = i \<and> v = w | Fail E k v msg \<Rightarrow> k = i \<and> v = w | _ \<Rightarrow> False)"

lemma life_step_locked:
  assumes "life_step c r j j'" "jb_status j = JS_PROCESSING" "jb_locked_by j = Some w" "\<not> marks (jb_id j) w c"
  shows "j' = j \<and> handed (jb_id j) r = 0"
  using assms by (auto simp: life_step_def held_def marks_def split: queue_call.splits)

text \<open>
  A claimed job belongs to its worker: until that worker marks it, no call of anyone else hands
  it out again or changes it in any way.
\<close>

lemma claimed_job_is_exclusive:
  assumes "ids_ok Q" "job_of i Q = Some j" "jb_status j = JS_PROCESSING" "jb_locked_by j = Some w"
    and "\<forall>c \<in> set cs. \<not> marks i w c"
  shows "job_of i (run_calls cs Q) = Some j \<and> claims_of i cs Q = 0"
  using assms
proof (induction cs arbitrary: Q)
  case (Cons c cs)
  obtain r Q' where ex: "exec_call c Q = (r, Q')" by (cases "exec_call c Q")
  obtain j' where j': "job_of i Q' = Some j'" "life_step c r j j'"
    using call_life [OF Cons.prems(1,2) ex] by (elim exE conjE)
  have i: "jb_id j = i" using job_ofD [OF Cons.prems(2)] by simp
  then have "\<not> marks (jb_id j) w c" using Cons.prems(5) by simp
  note same = life_step_locked [OF j'(2) Cons.prems(3,4) this]
  have "job_of i (run_calls cs Q') = Some j \<and> claims_of i cs Q' = 0"
    by (rule Cons.IH [OF call_keeps_ids [OF Cons.prems(1) ex] _ Cons.prems(3,4)])
      (use j'(1) same Cons.prems(5) in simp_all)
  then show ?case using same i by (simp add: run_calls_def claims_of_def ex)
qed (simp add: run_calls_def claims_of_def)

lemma sort_key_hd_least:
  fixes f :: "'a \<Rightarrow> 'b::linorder"
  assumes "filter P (sort_key f xs) = x # ys" "z \<in> set xs" "P z"
  shows "f x \<le> f z"
proof -
  have "sorted (map f (filter P (sort_key f xs)))" by (intro sorted_filter) simp
  moreover have "z \<in> set (filter P (sort_key f xs))" using assms(2,3) by simp
  ultimately show ?thesis unfolding assms(1) by auto
qed

text \<open>
  A claim takes the right job: it returns one exactly when an unlocked pending job of the wanted
  types is due, and then the one due first (of those due together, the one created first), locked by
  the caller.
\<close>

lemma claim_takes_oldest_due:
  assumes "ids_ok Q" "trim w \<noteq> ''''"
  shows "\<exists>r Q'. claimNextJob E busy w types None Q = Inr (r, Q') \<and>
    (r = None \<longleftrightarrow> (\<forall>j \<in> set (jq_jobs Q). \<not> (jb_status j = JS_PENDING \<and> jb_run_at j \<le> ev_now E \<and>
       \<not> busy (jb_id j) \<and> (types = [] \<or> jb_type j \<in> set types)))) \<and>
    (r = None \<longrightarrow> Q' = Q) \<and>
    (\<forall>k. r = Some k \<longrightarrow> jb_status k = JS_PROCESSING \<and> jb_locked_by k = Some (trim w) \<and> job_of (jb_id k) Q' = Some k \<and>
       (\<forall>j \<in> set (jq_jobs Q). jb_status j = JS_PENDING \<and> jb_run_at j \<le> ev_now E \<and> \<not> busy (jb_id j) \<and>
          (types = [] \<or> jb_type j \<in> set types) \<longrightarrow> (jb_run_at k, jb_created k) \<le> (jb_run_at j, jb_created j)))"
proof (cases "claimable busy types (ev_now E) Q")
  case Nil
  then have "claimNextJob E busy w types None Q = Inr (None, Q)"
    by (simp add: claim_eq [OF assms] limited_def)
  moreover have "\<forall>j \<in> set (jq_jobs Q). \<not> (jb_status j = JS_PENDING \<and> jb_run_at j \<le> ev_now E \<and>
      \<not> busy (jb_id j) \<and> (types = [] \<or> jb_type j \<in> set types))"
    using Nil by (auto simp: claimable_def filter_empty_conv)
  ultimately show ?thesis by auto
next
  case (Cons h rest)
  let ?k = "claimed (ev_now E) (trim w) h"
  have eq: "claimNextJob E busy w types None Q = Inr (Some ?k, update_job (jb_id h) (claimed (ev_now E) (trim w)) Q)"
    using Cons by (simp add: claim_eq [OF assms] limited_def)
  have "h \<in> set (claimable busy types (ev_now E) Q)" using Cons by simp
  then have h: "h \<in> set (jq_jobs Q)" "jb_status h = JS_PENDING \<and> jb_run_at h \<le> ev_now E \<and>
      \<not> busy (jb_id h) \<and> (types = [] \<or> jb_type h \<in> set types)" by (auto simp: claimable_def)
  have "job_of (jb_id ?k) (update_job (jb_id h) (claimed (ev_now E) (trim w)) Q) = Some ?k"
    by (simp add: job_of_update job_of_row [OF assms(1) h(1)])
  moreover have "(jb_run_at ?k, jb_created ?k) \<le> (jb_run_at j, jb_created j)"
    if "j \<in> set (jq_jobs Q)" "jb_status j = JS_PENDING \<and> jb_run_at j \<le> ev_now E \<and> \<not> busy (jb_id j) \<and>
        (types = [] \<or> jb_type j \<in> set types)" for j
    using sort_key_hd_least [OF Cons [unfolded claimable_def], of j] that by (simp add: claimed_def)
  ultimately show ?thesis
    using h by (intro exI [of _ "Some ?k"] exI [of _ "update_job (jb_id h) (claimed (ev_now E) (trim w)) Q"] conjI eq)
      (auto simp: claimed_def)
qed

text \<open>The first half of an enqueue, before the insert.\<close>

lemma find_dedupe_append:
  "find_dedupe k Q = None \<Longrightarrow> jb_dedupe n = k \<Longrightarrow> k \<noteq> None \<Longrightarrow>
     find_dedupe k (Q\<lparr>jq_jobs := jq_jobs Q @ [n], jq_seq := m\<rparr>) = Some n"
  by (auto simp: find_dedupe_def find_append split: option.splits)

text \<open>
  Enqueueing is idempotent in the dedupe key, also in a race: after one caller enqueued a job, a
  second caller with the same key gets that job and adds nothing, whether it looks the key up
  afterwards or had looked it up before and comes only with its insert.
\<close>

lemma enqueue_is_deduplicated:
  assumes "enqueueJob E p Q = Inr (j, Q')" "lookup_key p = Some k" "lookup_key q = Some k"
    and "trim (ep_tenant q) \<noteq> ''''" "trim (ep_tenant q) \<in> set (jq_tenants Q')"
  shows "enqueueJob F q Q' = Inr (j, Q') \<and> create_job F q Q' = Inr (j, Q') \<and> jb_dedupe j = Some k"
proof -
  have p: "ep_dedupe p = Some k" and q: "ep_dedupe q = Some k"
    using assms(2,3) by (auto simp: lookup_key_def split: option.splits if_splits)
  have found: "find_dedupe (Some k) Q' = Some j \<and> jb_dedupe j = Some k"
  proof (cases "find_dedupe (Some k) Q")
    case (Some h)
    then have "j = h \<and> Q' = Q" using assms(1,2) by (simp add: enqueueJob_def outcome_simps)
    with Some show ?thesis by (auto simp: find_dedupe_def dest: find_SomeD)
  next
    case None
    then have "create_job E p Q = Inr (j, Q')" using assms(1,2) by (simp add: enqueueJob_def outcome_simps)
    with None assms(2) have "Q' = Q\<lparr>jq_jobs := jq_jobs Q @ [j], jq_seq := Suc (jq_seq Q)\<rparr> \<and> jb_dedupe j = Some k"
      using p by (auto simp: create_job_def Let_def new_job_def split: if_splits)
    with find_dedupe_append [OF None, of j] show ?thesis by simp
  qed
  then obtain h where "h \<in> set (jq_jobs Q')" "jb_dedupe h = Some k"
    by (auto simp: find_dedupe_def dest: find_SomeD)
  then have "find (job_clash (new_job F q (ev_cuid F (jq_seq Q')))) (jq_jobs Q') \<noteq> None"
    by (auto simp: find_None_iff job_clash_def new_job_def q)
  then have "create_job F q Q' = Inr (j, Q')"
    using found assms(3) unfolding create_job_def Let_def by (subst if_not_P) simp_all
  moreover have "enqueueJob F q Q' = Inr (j, Q')"
    using found assms(3-5) by (simp add: enqueueJob_def assertTenantExists_def)
  ultimately show ?thesis using found by simp
qed

section \<open>Back-off grows\<close>

text \<open>
  The delay of a retry is at least its core, the base doubled for every attempt before and capped
  at ten minutes, and never above the cap; and since the jitter is less than the next doubling, the
  delays never get shorter from one attempt to the next, whatever the random numbers.
\<close>

lemma backoff_grows:
  assumes "1 \<le> a" "0 \<le> r" "r < 1" "0 \<le> r'" "base = max 100 b" "cap = max base c"
  shows "\<lfloor>min cap (base * 2 ^ nat (a - 1))\<rfloor> \<le> calculateBackoffMs a (Some b) (Some c) ratio r \<and>
    calculateBackoffMs a (Some b) (Some c) ratio r \<le> \<lfloor>cap\<rfloor> \<and>
    calculateBackoffMs a (Some b) (Some c) ratio r \<le> calculateBackoffMs (a + 1) (Some b) (Some c) ratio r'"
proof -
  define q :: rat where "q = min (9 / 10) (max 0 (case ratio of Some x \<Rightarrow> x | None \<Rightarrow> 1 / 5))"
  have q: "0 \<le> q" "q < 1" by (auto simp: q_def min_def max_def)
  define core where "core n = min cap (base * 2 ^ n)" for n :: nat
  have pos: "0 < base" "base \<le> cap" using assms(5,6) by simp_all
  then have core0: "0 \<le> core n" for n by (simp add: core_def)
  have eq: "calculateBackoffMs x (Some b) (Some c) ratio s = \<lfloor>min cap (core (nat (x - 1)) + core (nat (x - 1)) * q * s)\<rfloor>"
    if "1 \<le> x" for x s
    using that by (simp add: calculateBackoffMs_def Let_def core_def q_def assms(5,6) max_def)
  let ?n = "nat (a - 1)"
  have n': "nat (a + 1 - 1) = Suc ?n" using assms(1) by simp
  have j: "0 \<le> core ?n * q * r" using core0 q assms(2) by simp
  have "q * r \<le> 1" using q assms(2,3) by (simp add: mult_le_one)
  then have "core ?n * q * r \<le> core ?n"
    using mult_left_mono [OF _ core0, of "q * r" 1 ?n] by (simp add: mult.assoc)
  moreover have "core ?n \<le> base * 2 ^ ?n" by (simp add: core_def)
  ultimately have "core ?n + core ?n * q * r \<le> base * 2 ^ Suc ?n" by simp
  then have "min cap (core ?n + core ?n * q * r) \<le> core (Suc ?n)"
    unfolding core_def [of "Suc ?n"] by (rule min.mono [OF order_refl])
  also have "\<dots> \<le> min cap (core (Suc ?n) + core (Suc ?n) * q * r')"
  proof -
    have "0 \<le> core (Suc ?n) * q * r'" using core0 q assms(4) by simp
    moreover have "core (Suc ?n) \<le> cap" by (simp add: core_def)
    ultimately show ?thesis by simp
  qed
  finally have step: "min cap (core ?n + core ?n * q * r) \<le> min cap (core (Suc ?n) + core (Suc ?n) * q * r')" .
  have "core ?n \<le> cap" by (simp add: core_def)
  then have low: "core ?n \<le> min cap (core ?n + core ?n * q * r)" using j by simp
  have "1 \<le> a + 1" using assms(1) by simp
  show ?thesis
    unfolding eq [OF assms(1)] eq [OF \<open>1 \<le> a + 1\<close>] n' core_def [of ?n, symmetric]
    by (intro conjI floor_mono low step min.cobounded1)
qed

section \<open>A concrete queue\<close>

definition sample_queue_env :: queue_env where
  "sample_queue_env = \<lparr>ev_now = 1700000000000, ev_cuid = (\<lambda>n. replicate n (CHR ''x'')), qe_random = 1 / 2,
     qe_max_attempts = 3, qe_backoff_ms = 2000, qe_dlq_enabled = True\<rparr>"

definition sample_params :: enqueue_params where
  "sample_params = \<lparr>ep_type = JT_SEND_NOTIFICATION, ep_tenant = ''t'', ep_lender = None, ep_dedupe = Some ''k'',
     ep_payload = [(''a'', JNum 1)], ep_run_at = None, ep_max = None, ep_backoff = None,
     ep_request = Some ''r'', ep_actor = None\<rparr>"

definition empty_queue :: queue where
  "empty_queue = \<lparr>jq_jobs = [], jq_dlq = [], jq_audit = [], jq_tenants = [''t''], jq_seq = 0\<rparr>"

definition sample_job :: job where
  "sample_job = new_job sample_queue_env sample_params ''''"

definition sample_queue :: queue where
  "sample_queue = empty_queue\<lparr>jq_jobs := [sample_job], jq_seq := 1\<rparr>"

definition busy_queue :: queue where
  "busy_queue = empty_queue\<lparr>jq_jobs := [claimed 1700000000000 ''w'' sample_job], jq_seq := 1\<rparr>"

lemmas queue_samples = sample_queue_env_def sample_params_def empty_queue_def sample_job_def new_job_def
  sample_queue_def busy_queue_def

lemma sample_enqueue: "enqueueJob sample_queue_env sample_params empty_queue = Inr (sample_job, sample_queue)"
  by (simp add: enqueueJob_def assertTenantExists_def find_dedupe_def lookup_key_def create_job_def
      queue_samples Let_def trim_def is_space_def)

lemma sample_queue_ok: "queue_ok sample_queue"
  by (simp add: queue_ok_def ids_ok_def keys_of_def locks_ok_def queue_samples trim_def is_space_def)

lemma sample_job_found: "job_of '''' sample_queue = Some sample_job"
  by (simp add: job_of_def queue_samples)

theorem queue_stays_well_formed_witness:
  "queue_ok (run_calls [Claim sample_queue_env (\<lambda>i. False) ''w'' [] None, Fail sample_queue_env '''' ''w'' ''e''] sample_queue)"
  by (rule queue_stays_well_formed [OF sample_queue_ok])

lemma job_claims_bounded_witness:
  "claims_of '''' (concat (replicate 5 [Claim sample_queue_env (\<lambda>i. False) ''w'' [] None,
     Fail sample_queue_env '''' ''w'' ''e''])) sample_queue \<le> 3"
proof -
  have st: "jb_status sample_job = JS_PENDING" and left: "nat (max 1 (jb_max sample_job - jb_attempts sample_job)) = 3"
    by (simp_all add: queue_samples)
  show ?thesis
    by (rule job_claims_bounded [OF sample_queue_ok [unfolded queue_ok_def, THEN conjunct1] sample_job_found st,
          unfolded left])
qed

lemma claimed_job_is_exclusive_witness:
  "job_of '''' (run_calls [Claim sample_queue_env (\<lambda>i. False) ''v'' [] None, Succeed sample_queue_env '''' ''v''] busy_queue) =
     Some (claimed 1700000000000 ''w'' sample_job)"
  using claimed_job_is_exclusive [of busy_queue "''''" "claimed 1700000000000 ''w'' sample_job" "''w''"
      "[Claim sample_queue_env (\<lambda>i. False) ''v'' [] None, Succeed sample_queue_env '''' ''v'']"]
  by (simp add: ids_ok_def job_of_def marks_def claimed_def queue_samples)

lemma claim_takes_oldest_due_witness:
  "\<exists>k Q'. claimNextJob sample_queue_env (\<lambda>i. False) ''w'' [] None sample_queue = Inr (Some k, Q') \<and> jb_locked_by k = Some ''w''"
proof -
  have w: "trim ''w'' = ''w''" by (simp add: trim_def is_space_def)
  have j: "sample_job \<in> set (jq_jobs sample_queue)" "jb_status sample_job = JS_PENDING" "jb_run_at sample_job \<le> ev_now sample_queue_env"
    by (simp_all add: queue_samples)
  obtain r Q' where r: "claimNextJob sample_queue_env (\<lambda>i. False) ''w'' [] None sample_queue = Inr (r, Q')" "r \<noteq> None"
    "\<forall>k. r = Some k \<longrightarrow> jb_locked_by k = Some (trim ''w'')"
    using claim_takes_oldest_due [OF sample_queue_ok [unfolded queue_ok_def, THEN conjunct1], of "''w''" sample_queue_env "\<lambda>i. False" "[]"]
      j w by auto
  then show ?thesis by (auto simp: w)
qed

lemma enqueue_is_deduplicated_witness:
  "enqueueJob sample_queue_env (sample_params\<lparr>ep_type := JT_INTEGRITY_SCAN\<rparr>) sample_queue = Inr (sample_job, sample_queue)"
  using enqueue_is_deduplicated [OF sample_enqueue, of "''k''" "sample_params\<lparr>ep_type := JT_INTEGRITY_SCAN\<rparr>" sample_queue_env]
  by (simp add: lookup_key_def queue_samples trim_def is_space_def)

lemma backoff_grows_witness:
  "calculateBackoffMs 3 (Some 2000) (Some 600000) (Some (1 / 5)) (9 / 10)
     \<le> calculateBackoffMs 4 (Some 2000) (Some 600000) (Some (1 / 5)) 0"
  using backoff_grows [of 3 "9 / 10" 0 2000 2000 600000 600000 "Some (1 / 5)"] by simp

end
