(* ===== verification/Jobs.thy ===== *)
theory Jobs
  imports JobQueue Calendar
begin

text \<open>
  The clients of the job queue: \<open>common/jobs/jobs.service.ts\<close> (creating, retrying and cancelling),
  \<open>jobs-scheduler.service.ts\<close> (the daily jobs), \<open>jobs-runner.service.ts\<close> and the handlers of
  \<open>worker/job-handlers.ts\<close> (executing), \<open>modules/admin-jobs/admin-jobs.service.ts\<close> and
  \<open>modules/admin-ops/admin-ops.service.ts\<close> (the administrators' retry and cancel). The processors of
  webhook events and mandate debits are parameters of the worker. Listings are left out.
\<close>

section \<open>Creating jobs\<close>

record create_input =
  ci_type :: job_type
  ci_key :: string
  ci_payload :: "json option"
  ci_run_at :: "int option"
  ci_max :: "int option"
  ci_tenant :: "string option"
  ci_lender :: "string option"
  ci_backoff :: "int option"
  ci_request :: "string option"
  ci_actor :: "actor option"

definition payload_tenant :: "json option \<Rightarrow> string option" where
  "payload_tenant p = (case p of Some (JObj kvs) \<Rightarrow>
     (case map_of kvs ''tenantId'' of Some (JStr s) \<Rightarrow> Some (trim s) | _ \<Rightarrow> None) | _ \<Rightarrow> None)"

definition resolveTenantId :: "string option \<Rightarrow> create_input \<Rightarrow> string outcome" where
  "resolveTenantId default_tenant i =
     (case trim_or_null (ci_tenant i) of
        Some t \<Rightarrow> Inr t
      | None \<Rightarrow>
          case payload_tenant (ci_payload i) of
            Some t \<Rightarrow> Inr t
          | None \<Rightarrow>
              case trim_or_null default_tenant of
                Some t \<Rightarrow> Inr t
              | None \<Rightarrow> Inl (BadRequest ''tenantId is required for job enqueue''))"

definition toObjectPayload :: "json option \<Rightarrow> (string \<times> json) list" where
  "toObjectPayload p = (case p of Some (JObj kvs) \<Rightarrow> kvs | _ \<Rightarrow> [])"

definition createJob :: "queue_env \<Rightarrow> string option \<Rightarrow> create_input \<Rightarrow> queue \<Rightarrow> (job \<times> queue) outcome" where
  "createJob E default_tenant i Q =
     chain (resolveTenantId default_tenant i) (\<lambda>t.
       enqueueJob E \<lparr>ep_type = ci_type i, ep_tenant = t, ep_lender = ci_lender i,
         ep_dedupe = Some (trim (ci_key i)), ep_payload = toObjectPayload (ci_payload i),
         ep_run_at = ci_run_at i, ep_max = ci_max i, ep_backoff = ci_backoff i,
         ep_request = ci_request i, ep_actor = ci_actor i\<rparr> Q)"

section \<open>The daily jobs\<close>

text \<open>\<open>toISOString().slice(0, 10)\<close>, for the years 0 to 9999.\<close>

definition digit :: "int \<Rightarrow> char" where
  "digit n = char_of (48 + nat (n mod 10))"

definition two_digits :: "int \<Rightarrow> string" where
  "two_digits n = [digit (n div 10), digit n]"

definition dayKey :: "int \<Rightarrow> string" where
  "dayKey t =
     (let y = utc_month t div 12
      in two_digits (y div 100) @ two_digits y @ ''-'' @ two_digits (utc_month t mod 12 + 1) @ ''-'' @ two_digits (utc_date t))"

definition twoAmUtc :: "int \<Rightarrow> int" where
  "twoAmUtc t = utc_midnight t + 7200000"

definition daily :: "job_type \<Rightarrow> string \<Rightarrow> (string \<times> json) list \<Rightarrow> int \<Rightarrow> create_input" where
  "daily jt key payload runAt =
     \<lparr>ci_type = jt, ci_key = key, ci_payload = Some (JObj payload), ci_run_at = Some runAt, ci_max = None,
      ci_tenant = None, ci_lender = None, ci_backoff = None, ci_request = None, ci_actor = None\<rparr>"

definition daily_jobs :: "int \<Rightarrow> create_input list" where
  "daily_jobs t =
     (let day = dayKey t; runAt = twoAmUtc t
      in [daily JT_LEDGER_RECONCILE (''ledgerReconcile:daily:'' @ day)
            [(''day'', JStr day), (''date'', JStr (day @ ''T00:00:00.000Z''))] runAt,
          daily JT_ACCRUE_INTEREST (''accrueInterest:daily:'' @ day)
            [(''day'', JStr day), (''asOfDate'', JStr (day @ ''T00:00:00.000Z''))] runAt,
          daily JT_RISK_REEVALUATION (''riskReevaluation:daily:'' @ day) [(''day'', JStr day)] runAt])"

text \<open>The jobs are created one after the other; an error leaves those created before it.\<close>

fun create_jobs :: "queue_env \<Rightarrow> string option \<Rightarrow> create_input list \<Rightarrow> queue \<Rightarrow> unit outcome \<times> queue" where
  "create_jobs E dt [] Q = (Inr (), Q)"
| "create_jobs E dt (i # rest) Q =
     (case createJob E dt i Q of
        Inl e \<Rightarrow> (Inl e, Q)
      | Inr (j, Q') \<Rightarrow> create_jobs E dt rest Q')"

definition scheduleDaily :: "queue_env \<Rightarrow> string option \<Rightarrow> int \<Rightarrow> queue \<Rightarrow> unit outcome \<times> queue" where
  "scheduleDaily E dt t Q = create_jobs E dt (daily_jobs t) Q"

section \<open>Executing jobs\<close>

text \<open>The result of a handler: the message of the error it throws, or nothing.\<close>

type_synonym handled = "string + unit"

fun job_type_name :: "job_type \<Rightarrow> string" where
  "job_type_name JT_ACCRUE_INTEREST = ''ACCRUE_INTEREST''"
| "job_type_name JT_RECALC_BALANCES = ''RECALC_BALANCES''"
| "job_type_name JT_SEND_NOTIFICATION = ''SEND_NOTIFICATION''"
| "job_type_name JT_COLLECTIONS_ESCALATION = ''COLLECTIONS_ESCALATION''"
| "job_type_name JT_RISK_REEVALUATION = ''RISK_REEVALUATION''"
| "job_type_name JT_LEDGER_RECONCILE = ''LEDGER_RECONCILE''"
| "job_type_name JT_INTEGRITY_SCAN = ''INTEGRITY_SCAN''"
| "job_type_name JT_PROCESS_WEBHOOK_EVENT = ''PROCESS_WEBHOOK_EVENT''"
| "job_type_name JT_MANDATE_DEBIT = ''MANDATE_DEBIT''"

definition has_key :: "json \<Rightarrow> string \<Rightarrow> bool" where
  "has_key p k = (case p of JObj kvs \<Rightarrow> map_of kvs k \<noteq> None | _ \<Rightarrow> False)"

fun requirePayloadKeys :: "job_type \<Rightarrow> json \<Rightarrow> string list \<Rightarrow> handled" where
  "requirePayloadKeys jt p [] = Inr ()"
| "requirePayloadKeys jt p (k # ks) =
     (if has_key p k then requirePayloadKeys jt p ks
      else Inl (''Missing payload field for '' @ job_type_name jt @ '': '' @ k))"

definition handleJob :: "job_type \<Rightarrow> json \<Rightarrow> handled" where
  "handleJob jt p =
     (case jt of
        JT_ACCRUE_INTEREST \<Rightarrow> requirePayloadKeys jt p [''loanId'', ''asOfDate'']
      | JT_RECALC_BALANCES \<Rightarrow> requirePayloadKeys jt p [''loanId'']
      | _ \<Rightarrow> Inr ())"

text \<open>A required string of the payload, and the handlers of the worker.\<close>

definition requireString :: "json \<Rightarrow> string \<Rightarrow> (string \<Rightarrow> handled) \<Rightarrow> handled" where
  "requireString p k f =
     (case p of
        JObj kvs \<Rightarrow>
          (case map_of kvs k of
             Some (JStr s) \<Rightarrow> (if trim s = '''' then Inl (''Invalid payload.'' @ k) else f (trim s))
           | _ \<Rightarrow> Inl (''Invalid payload.'' @ k))
      | _ \<Rightarrow> Inl (''Invalid payload.'' @ k))"

record worker_context =
  wc_webhook :: "(string \<Rightarrow> handled) option"
  wc_mandate :: "(string \<Rightarrow> handled) option"

definition job_handler :: "worker_context \<Rightarrow> job \<Rightarrow> handled" where
  "job_handler C j =
     (let p = jb_payload j
      in case jb_type j of
           JT_ACCRUE_INTEREST \<Rightarrow> requireString p ''loanId'' (\<lambda>_. requireString p ''asOfDate'' (\<lambda>_. Inr ()))
         | JT_RECALC_BALANCES \<Rightarrow> requireString p ''loanId'' (\<lambda>_. Inr ())
         | JT_LEDGER_RECONCILE \<Rightarrow> requireString p ''tenantId'' (\<lambda>_. requireString p ''date'' (\<lambda>_. Inr ()))
         | JT_PROCESS_WEBHOOK_EVENT \<Rightarrow> requireString p ''webhookEventId'' (\<lambda>w.
             (case wc_webhook C of None \<Rightarrow> Inl ''Webhook processor is not configured in worker context'' | Some f \<Rightarrow> f w))
         | JT_MANDATE_DEBIT \<Rightarrow> requireString p ''mandateId'' (\<lambda>m.
             (case wc_mandate C of None \<Rightarrow> Inl ''Mandate debit processor is not configured in worker context'' | Some f \<Rightarrow> f m))
         | _ \<Rightarrow> Inr ())"

text \<open>One round of the runner: claim, execute, mark. \<open>None\<close> is a round that found no job.\<close>

definition processOnce ::
  "queue_env \<Rightarrow> (string \<Rightarrow> bool) \<Rightarrow> string \<Rightarrow> (job \<Rightarrow> handled) \<Rightarrow> queue \<Rightarrow> bool outcome \<times> queue" where
  "processOnce E busy worker handler Q =
     (case claimNextJob E busy worker [] None Q of
        Inl e \<Rightarrow> (Inl e, Q)
      | Inr (None, Q1) \<Rightarrow> (Inr False, Q1)
      | Inr (Some j, Q1) \<Rightarrow>
          (Inr True,
           (case handler j of
              Inl msg \<Rightarrow> markFailed E (jb_id j) worker msg Q1
            | Inr _ \<Rightarrow> markSucceeded E (jb_id j) worker Q1)))"

definition runner_handler :: "job \<Rightarrow> handled" where
  "runner_handler j = handleJob (jb_type j) (jb_payload j)"

section \<open>Retrying and cancelling\<close>

definition retried :: "int \<Rightarrow> job \<Rightarrow> job" where
  "retried now j = j\<lparr>jb_status := JS_PENDING, jb_run_at := now, jb_locked_at := None, jb_locked_by := None,
     jb_failed_at := None, jb_error := None, jb_attempts := 0\<rparr>"

definition retryJob :: "queue_env \<Rightarrow> string \<Rightarrow> queue \<Rightarrow> job option \<times> queue" where
  "retryJob E i Q =
     (case find (\<lambda>j. jb_id j = i) (jq_jobs Q) of
        None \<Rightarrow> (None, Q)
      | Some j \<Rightarrow>
          if jb_status j \<noteq> JS_FAILED \<and> jb_status j \<noteq> JS_DEAD_LETTER then (Some j, Q)
          else (Some (retried (ev_now E) j), update_job i (retried (ev_now E)) Q))"

definition cancelled :: "int \<Rightarrow> string \<Rightarrow> job \<Rightarrow> job" where
  "cancelled now reason j = j\<lparr>jb_status := JS_DEAD_LETTER, jb_failed_at := Some now,
     jb_error := Some (take 2000 reason), jb_locked_at := None, jb_locked_by := None\<rparr>"

definition cancelJob :: "queue_env \<Rightarrow> string \<Rightarrow> string \<Rightarrow> queue \<Rightarrow> queue" where
  "cancelJob E i reason Q =
     (case find (\<lambda>j. jb_id j = i) (jq_jobs Q) of
        None \<Rightarrow> Q
      | Some j \<Rightarrow>
          (let Q1 = update_job i (cancelled (ev_now E) reason) Q
           in Q1\<lparr>jq_dlq := jq_dlq Q1 @ [\<lparr>dl_tenant = jb_tenant j, dl_job = i, dl_type = jb_type j,
                dl_payload = jb_payload j, dl_attempts = jb_attempts j, dl_error = take 2000 reason,
                dl_failed_at = ev_now E\<rparr>]\<rparr>))"

definition releaseClaim :: "string \<Rightarrow> queue \<Rightarrow> queue" where
  "releaseClaim i Q =
     Q\<lparr>jq_jobs := update_where (\<lambda>j. jb_id j = i \<and> jb_status j = JS_PROCESSING)
         (\<lambda>j. j\<lparr>jb_status := JS_PENDING, jb_locked_at := None, jb_locked_by := None\<rparr>) (jq_jobs Q)\<rparr>"

definition tenant_job :: "string \<Rightarrow> string \<Rightarrow> queue \<Rightarrow> job outcome" where
  "tenant_job t i Q =
     (case find (\<lambda>j. jb_id j = i \<and> jb_tenant j = t) (jq_jobs Q) of
        None \<Rightarrow> Inl (NotFound ''Job not found.'') | Some j \<Rightarrow> Inr j)"

definition admin_retryJob :: "queue_env \<Rightarrow> string \<Rightarrow> string \<Rightarrow> queue \<Rightarrow> (job \<times> queue) outcome" where
  "admin_retryJob E t i Q =
     chain (tenant_job t i Q) (\<lambda>_.
       case retryJob E i Q of
         (None, Q') \<Rightarrow> Inl (NotFound ''Job not found.'')
       | (Some j, Q') \<Rightarrow> Inr (j, Q'))"

definition admin_cancelJob :: "queue_env \<Rightarrow> string \<Rightarrow> string \<Rightarrow> string option \<Rightarrow> queue \<Rightarrow> queue outcome" where
  "admin_cancelJob E t i reason Q =
     chain (tenant_job t i Q) (\<lambda>_.
       Inr (cancelJob E i (case trim_or_null reason of Some r \<Rightarrow> r | None \<Rightarrow> ''Cancelled by admin'') Q))"

text \<open>
  The operations console: its own role check and a throttle of one retry per job and minute, kept in
  the memory of the process.
\<close>

definition canManageOps :: "string \<Rightarrow> bool" where
  "canManageOps role \<longleftrightarrow> role = ''SUPER_ADMIN'' \<or> role = ''SYSTEM''"

type_synonym throttle = "string \<Rightarrow> int option"

definition assertRetryThrottle :: "queue_env \<Rightarrow> string \<Rightarrow> throttle \<Rightarrow> throttle outcome" where
  "assertRetryThrottle E i T =
     (case T i of
        Some prev \<Rightarrow> (if ev_now E - prev < 60000 then Inl (TooManyRequests ''Retry is rate-limited. Try again in a minute.'')
                    else Inr (T(i \<mapsto> ev_now E)))
      | None \<Rightarrow> Inr (T(i \<mapsto> ev_now E)))"

definition ops_retryJob ::
  "queue_env \<Rightarrow> string \<Rightarrow> string \<Rightarrow> string \<Rightarrow> throttle \<times> queue \<Rightarrow> job outcome \<times> throttle \<times> queue" where
  "ops_retryJob E role t i TQ =
     (case TQ of (T, Q) \<Rightarrow>
        if \<not> canManageOps role then (Inl (Forbidden ''Not authorized for operations control.''), T, Q)
        else case assertRetryThrottle E i T of
          Inl e \<Rightarrow> (Inl e, T, Q)
        | Inr T' \<Rightarrow>
            case tenant_job t i Q of
              Inl e \<Rightarrow> (Inl e, T', Q)
            | Inr j \<Rightarrow>
                if jb_status j \<noteq> JS_FAILED \<and> jb_status j \<noteq> JS_DEAD_LETTER
                then (Inl (Forbidden ''Only failed jobs can be retried.''), T', Q)
                else (Inr (retried (ev_now E) j), T', update_job (jb_id j) (retried (ev_now E)) Q))"

section \<open>One round settles one job\<close>

text \<open>
  A round of the runner settles the job it claimed: a job whose handler succeeds is succeeded, and
  one whose handler fails is pending again for later, or dead once its attempts are used up; it is never
  left locked.
\<close>

lemma process_once_settles:
  assumes "ids_ok Q" "trim w = w" "w \<noteq> ''''" "processOnce E busy w h Q = (Inr True, Q')"
  shows "\<exists>j k. job_of (jb_id j) Q = Some j \<and> jb_status j = JS_PENDING \<and> jb_run_at j \<le> ev_now E \<and>
    job_of (jb_id j) Q' = Some k \<and> jb_locked_by k = None \<and>
    (case h (claimed (ev_now E) w j) of
       Inr _ \<Rightarrow> jb_status k = JS_SUCCEEDED \<and> jb_attempts k = jb_attempts j
     | Inl msg \<Rightarrow> jb_attempts k = jb_attempts j + 1 \<and> jb_error k = Some (take 2000 msg) \<and>
         jb_status k = (if jb_attempts k < jb_max k then JS_PENDING else JS_DEAD_LETTER))"
proof -
  have w: "trim w \<noteq> ''''" using assms(2,3) by simp
  obtain r Q1 where cl: "claimNextJob E busy w [] None Q = Inr (r, Q1)"
    using assms(4) by (auto simp: processOnce_def split: sum.splits prod.splits)
  have ex: "exec_call (Claim E busy w [] None) Q = (r, Q1)" by (simp add: cl)
  obtain c where r: "r = Some c" using assms(4) cl by (cases r) (auto simp: processOnce_def)
  then obtain j where j: "j \<in> set (jq_jobs Q)" "jb_status j = JS_PENDING" "jb_run_at j \<le> ev_now E"
    "c = claimed (ev_now E) w j"
  proof (cases "limited None (claimable busy [] (ev_now E) Q)")
    case Nil
    then show ?thesis using claim_eq [OF assms(1) w, of E busy "[]" None] cl r by simp
  next
    case (Cons k rest)
    have "k \<in> set (claimable busy [] (ev_now E) Q)"
      using Cons unfolding limited_def by (metis in_set_takeD list.set_intros(1))
    then show ?thesis
      using that [of k] claim_eq [OF assms(1) w, of E busy "[]" None] cl r Cons assms(2) by (simp add: claimable_def)
  qed
  have jo: "job_of (jb_id j) Q = Some j" by (rule job_of_row [OF assms(1) j(1)])
  obtain j1 where j1: "job_of (jb_id j) Q1 = Some j1" "life_step (Claim E busy w [] None) r j j1"
    using call_life [OF assms(1) jo ex] by (elim exE conjE)
  have c1: "j1 = c" using j1(2) r j(4) by (auto simp: life_step_def handed_def)
  have ids1: "ids_ok Q1" by (rule call_keeps_ids [OF assms(1) ex])
  have "held (jb_id j) w c" by (simp add: held_def j(4) claimed_def)
  moreover have "c \<in> set (jq_jobs Q1)" using job_ofD [OF j1(1)] c1 by simp
  ultimately obtain hd where hd: "find (held (jb_id j) w) (jq_jobs Q1) = Some hd"
    by (cases "find (held (jb_id j) w) (jq_jobs Q1)") (auto simp: find_None_iff)
  have "hd = c" using held_found [OF ids1 hd j1(1)] c1 by simp
  have id: "jb_id c = jb_id j" by (simp add: j(4))
  show ?thesis
  proof (cases "h c")
    case (Inr u)
    then have "Q' = markSucceeded E (jb_id j) w Q1" using assms(4) cl r id by (simp add: processOnce_def)
    then have "job_of (jb_id j) Q' = Some (succeeded (ev_now E) c)"
      using j1(1) c1 by (simp add: succeed_eq [OF ids1] hd job_of_update)
    then show ?thesis
      using jo j Inr by (intro exI [of _ j] exI [of _ "succeeded (ev_now E) c"]) (simp add: succeeded_def claimed_def)
  next
    case (Inl msg)
    then have "Q' = markFailed E (jb_id j) w msg Q1" using assms(4) cl r id by (simp add: processOnce_def)
    then have "job_of (jb_id j) Q' = Some (failed_job E msg c)"
      using j1(1) c1 unfolding job_of_def by (simp add: fail_eq [OF ids1 hd] find_update_one)
    then show ?thesis
      using jo j Inl by (intro exI [of _ j] exI [of _ "failed_job E msg c"]) (simp add: failed_job_def claimed_def)
  qed
qed

section \<open>The daily accrual job\<close>

lemma create_jobs_old: "create_jobs E dt is Q = (r, Q') \<Longrightarrow> set (jq_jobs Q) \<subseteq> set (jq_jobs Q')"
proof (induction "is" arbitrary: Q)
  case (Cons i rest)
  show ?case
  proof (cases "createJob E dt i Q")
    case (Inr jq)
    obtain j Q1 where jq: "jq = (j, Q1)" by (cases jq)
    then have "set (jq_jobs Q) \<subseteq> set (jq_jobs Q1)"
      using Inr by (auto simp: createJob_def outcome_simps dest!: enqueue_jobs)
    moreover have "set (jq_jobs Q1) \<subseteq> set (jq_jobs Q')"
      using Cons.prems Inr jq by (auto dest!: Cons.IH)
    ultimately show ?thesis by simp
  qed (use Cons.prems in simp)
qed simp

lemma create_jobs_new:
  assumes "create_jobs E dt is Q = (r, Q')" "j \<in> set (jq_jobs Q')" "j \<notin> set (jq_jobs Q)"
  shows "\<exists>i \<in> set is. jb_type j = ci_type i \<and> (\<exists>p. jb_payload j = buildPayload p \<and> ep_payload p = toObjectPayload (ci_payload i))"
  using assms
proof (induction "is" arbitrary: Q)
  case (Cons i rest)
  show ?case
  proof (cases "createJob E dt i Q")
    case (Inr jq)
    obtain k Q1 where jq: "jq = (k, Q1)" by (cases jq)
    have cr: "create_jobs E dt rest Q1 = (r, Q')" using Cons.prems(1) Inr jq by simp
    show ?thesis
    proof (cases "j \<in> set (jq_jobs Q1)")
      case True
      obtain t where "enqueueJob E \<lparr>ep_type = ci_type i, ep_tenant = t, ep_lender = ci_lender i,
         ep_dedupe = Some (trim (ci_key i)), ep_payload = toObjectPayload (ci_payload i),
         ep_run_at = ci_run_at i, ep_max = ci_max i, ep_backoff = ci_backoff i,
         ep_request = ci_request i, ep_actor = ci_actor i\<rparr> Q = Inr (k, Q1)" (is "enqueueJob E ?p Q = _")
        using Inr jq by (auto simp: createJob_def outcome_simps)
      from enqueue_jobs [OF this] True Cons.prems(3) have "\<exists>x. j = new_job E ?p x" by auto
      then show ?thesis by (intro bexI [of _ i]) (auto simp: new_job_def)
    next
      case False
      then show ?thesis using Cons.IH [OF cr Cons.prems(2)] by auto
    qed
  qed (use Cons.prems in simp)
qed simp

lemma create_jobs_dedupe:
  assumes "create_jobs E dt is Q = (Inr u, Q')" "i \<in> set is" "trim (ci_key i) \<noteq> ''''"
  shows "\<exists>j \<in> set (jq_jobs Q'). jb_dedupe j = Some (trim (ci_key i))"
  using assms(1,2)
proof (induction "is" arbitrary: Q)
  case (Cons k rest)
  then obtain j Q1 where c: "createJob E dt k Q = Inr (j, Q1)" "create_jobs E dt rest Q1 = (Inr u, Q')"
    by (auto split: sum.splits)
  show ?case
  proof (cases "k = i")
    case True
    have "\<exists>j \<in> set (jq_jobs Q1). jb_dedupe j = Some (trim (ci_key i))"
      using c(1) assms(3) unfolding True
      by (auto simp: createJob_def outcome_simps enqueueJob_def lookup_key_def find_dedupe_def create_job_def
          new_job_def Let_def dest: find_SomeD split: option.splits if_splits)
    then show ?thesis using create_jobs_old [OF c(2)] by auto
  qed (use Cons c in auto)
qed simp

lemma map_of_set_field: "map_of (set_field k v kvs) x = (if x = k then Some v else map_of kvs x)"
  by (induction kvs) auto

lemma payload_field:
  assumes "k \<notin> {''requestId'', ''correlationId'', ''tenantId'', ''actor''}"
  shows "\<exists>kvs. buildPayload p = JObj kvs \<and> map_of kvs k = map_of (ep_payload p) k"
  using assms by (auto simp: buildPayload_def map_of_set_field)

lemma trim_not_blank: "\<not> is_space c \<Longrightarrow> trim (c # cs) \<noteq> ''''"
  by (auto simp: trim_def)

text \<open>
  The daily interest accrual never runs: the scheduler leaves a job for the day in the queue, but
  creates it without the loan that both the handler of the worker and that of the runner demand, so
  every attempt at it fails.
\<close>

lemma daily_accrual_always_fails:
  assumes "scheduleDaily E dt t Q = (Inr u, Q')"
  shows "(\<exists>j \<in> set (jq_jobs Q'). jb_dedupe j = Some (trim (''accrueInterest:daily:'' @ dayKey t))) \<and>
    (\<forall>j \<in> set (jq_jobs Q') - set (jq_jobs Q). jb_type j = JT_ACCRUE_INTEREST \<longrightarrow>
       job_handler C j = Inl ''Invalid payload.loanId'' \<and>
       runner_handler j = Inl ''Missing payload field for ACCRUE_INTEREST: loanId'')"
proof
  let ?i = "daily_jobs t ! 1"
  have "?i \<in> set (daily_jobs t)" "ci_key ?i = ''accrueInterest:daily:'' @ dayKey t"
    by (simp_all add: daily_jobs_def Let_def daily_def)
  moreover have "trim (''accrueInterest:daily:'' @ dayKey t) \<noteq> ''''"
    by (simp add: trim_not_blank is_space_def)
  ultimately show "\<exists>j \<in> set (jq_jobs Q'). jb_dedupe j = Some (trim (''accrueInterest:daily:'' @ dayKey t))"
    using create_jobs_dedupe [OF assms [unfolded scheduleDaily_def], of ?i] by simp
next
  show "\<forall>j \<in> set (jq_jobs Q') - set (jq_jobs Q). jb_type j = JT_ACCRUE_INTEREST \<longrightarrow>
       job_handler C j = Inl ''Invalid payload.loanId'' \<and>
       runner_handler j = Inl ''Missing payload field for ACCRUE_INTEREST: loanId''"
  proof (intro ballI impI)
    fix j
    assume j: "j \<in> set (jq_jobs Q') - set (jq_jobs Q)" "jb_type j = JT_ACCRUE_INTEREST"
    then obtain i p where i: "i \<in> set (daily_jobs t)" "jb_type j = ci_type i" "jb_payload j = buildPayload p"
      "ep_payload p = toObjectPayload (ci_payload i)"
      using create_jobs_new [OF assms [unfolded scheduleDaily_def], of j] by auto
    have "map_of (ep_payload p) ''loanId'' = None"
      using i(1) unfolding i(4) by (auto simp: daily_jobs_def Let_def daily_def toObjectPayload_def)
    then obtain kvs where "jb_payload j = JObj kvs" "map_of kvs ''loanId'' = None"
      using payload_field [of "''loanId''" p] i(3) by auto
    then show "job_handler C j = Inl ''Invalid payload.loanId'' \<and>
        runner_handler j = Inl ''Missing payload field for ACCRUE_INTEREST: loanId''"
      using j(2) by (simp add: job_handler_def requireString_def runner_handler_def handleJob_def has_key_def)
  qed
qed

section \<open>The administrators\<close>

lemma retryJob_tables: "ids_ok Q \<Longrightarrow> retryJob E i Q = (r, Q') \<Longrightarrow> j \<in> set (jq_jobs Q) \<Longrightarrow> jb_id j \<noteq> i \<Longrightarrow> j \<in> set (jq_jobs Q')"
  by (auto simp: retryJob_def update_job_def set_update_where split: option.splits if_splits)

lemma cancelJob_tables: "j \<in> set (jq_jobs Q) \<Longrightarrow> jb_id j \<noteq> i \<Longrightarrow> j \<in> set (jq_jobs (cancelJob E i m Q))"
  by (auto simp: cancelJob_def update_job_def set_update_where Let_def split: option.splits)

lemma tenant_job_id:
  assumes "ids_ok Q" "tenant_job t i Q = Inr k" "j \<in> set (jq_jobs Q)" "jb_tenant j \<noteq> t"
  shows "jb_id j \<noteq> i \<and> jb_id k = i"
proof -
  have k: "k \<in> set (jq_jobs Q)" "jb_id k = i" "jb_tenant k = t"
    using assms(2) by (auto simp: tenant_job_def dest!: find_SomeD split: option.splits)
  moreover have "jb_id j \<noteq> i"
  proof
    assume "jb_id j = i"
    then have "j = k" using job_of_row [OF assms(1,3)] job_of_row [OF assms(1) k(1)] k(2) by simp
    with k(3) assms(4) show False by simp
  qed
  ultimately show ?thesis by simp
qed

text \<open>
  Administrators act on the jobs of their own tenant only: a retry, a cancellation or a retry from
  the operations console leaves every job of another tenant as it is.
\<close>

lemma admin_jobs_respect_tenant:
  assumes "ids_ok Q" "j \<in> set (jq_jobs Q)" "jb_tenant j \<noteq> t"
  shows "(admin_retryJob E t i Q = Inr (k, Q1) \<longrightarrow> j \<in> set (jq_jobs Q1)) \<and>
    (admin_cancelJob E t i m Q = Inr Q2 \<longrightarrow> j \<in> set (jq_jobs Q2)) \<and>
    (ops_retryJob E role t i (T, Q) = (r, T', Q3) \<longrightarrow> j \<in> set (jq_jobs Q3))"
proof (intro conjI impI)
  assume "admin_retryJob E t i Q = Inr (k, Q1)"
  then show "j \<in> set (jq_jobs Q1)"
    using tenant_job_id [OF assms(1) _ assms(2,3)] assms(2)
    by (auto simp: admin_retryJob_def outcome_simps split: prod.splits option.splits intro: retryJob_tables [OF assms(1)])
next
  assume "admin_cancelJob E t i m Q = Inr Q2"
  then show "j \<in> set (jq_jobs Q2)"
    using tenant_job_id [OF assms(1) _ assms(2,3)] assms(2)
    by (auto simp: admin_cancelJob_def outcome_simps intro: cancelJob_tables)
next
  assume "ops_retryJob E role t i (T, Q) = (r, T', Q3)"
  then have "Q3 = Q \<or> (\<exists>q. tenant_job t i Q = Inr q \<and> Q3 = update_job (jb_id q) (retried (ev_now E)) Q)"
    by (auto simp: ops_retryJob_def split: if_splits sum.splits)
  then show "j \<in> set (jq_jobs Q3)"
  proof (elim disjE exE conjE)
    fix q
    assume q: "tenant_job t i Q = Inr q" "Q3 = update_job (jb_id q) (retried (ev_now E)) Q"
    then have "jb_id j \<noteq> jb_id q" using tenant_job_id [OF assms(1) q(1) assms(2,3)] by simp
    then show ?thesis using assms(2) by (force simp: q(2) update_job_def set_update_where)
  qed (simp add: assms(2))
qed

text \<open>
  Cancelling undoes success: a job of the tenant in any state, also one that has succeeded, can be
  cancelled and then retried, after which it is pending and due with no attempt counted, to be executed
  once more.
\<close>

lemma cancel_then_retry_reruns:
  assumes "ids_ok Q" "job_of i Q = Some j" "jb_tenant j = t"
  shows "\<exists>Q1 k Q2. admin_cancelJob E t i m Q = Inr Q1 \<and> admin_retryJob F t i Q1 = Inr (k, Q2) \<and>
    job_of i Q2 = Some k \<and> jb_status k = JS_PENDING \<and> jb_attempts k = 0 \<and> jb_run_at k = ev_now F \<and>
    jb_type k = jb_type j \<and> jb_payload k = jb_payload j"
proof -
  have found: "tenant_job (jb_tenant j) i R = Inr j'" if "ids_ok R" "job_of i R = Some j'" and tn: "jb_tenant j' = jb_tenant j" for R j'
  proof -
    have "j' \<in> set (jq_jobs R)" "jb_id j' = i" using job_ofD [OF that(2)] by auto
    obtain q where q: "find (\<lambda>q. jb_id q = i \<and> jb_tenant q = jb_tenant j) (jq_jobs R) = Some q"
      using tn \<open>j' \<in> set (jq_jobs R)\<close> \<open>jb_id j' = i\<close> by (cases "find (\<lambda>q. jb_id q = i \<and> jb_tenant q = jb_tenant j) (jq_jobs R)") (auto simp: find_None_iff)
    then have "q \<in> set (jq_jobs R)" "jb_id q = i" by (auto dest: find_SomeD)
    then have "q = j'" using job_of_row [OF that(1), of q] that(2) by simp
    with q show ?thesis by (simp add: tenant_job_def)
  qed
  define reason where "reason = (case trim_or_null m of Some r \<Rightarrow> r | None \<Rightarrow> ''Cancelled by admin'')"
  define c where "c = cancelled (ev_now E) reason j"
  define Q1 where "Q1 = cancelJob E i reason Q"
  have cid: "jb_id (cancelled n s q) = jb_id q" for n s q by (simp add: cancelled_def)
  have jobs1: "jq_jobs Q1 = update_where (\<lambda>q. jb_id q = i) (cancelled (ev_now E) reason) (jq_jobs Q)"
    using assms(2) by (simp add: Q1_def cancelJob_def job_of_def update_job_def Let_def)
  have c: "job_of i Q1 = Some c"
    using assms(2) by (simp add: job_of_def jobs1 find_update_one cid c_def)
  have ids: "ids_ok Q1" using assms(1) by (simp add: ids_ok_def jobs1 map_update_where cid)
  have "jb_status c = JS_DEAD_LETTER" "jb_tenant c = jb_tenant j" by (simp_all add: c_def cancelled_def)
  then have "admin_retryJob F t i Q1 = Inr (retried (ev_now F) c, update_job i (retried (ev_now F)) Q1)"
    using found [OF ids c] c by (simp add: admin_retryJob_def retryJob_def assms(3) [symmetric] job_of_def)
  moreover have "admin_cancelJob E t i m Q = Inr Q1"
    using found [OF assms(1,2) refl] by (simp add: admin_cancelJob_def assms(3) [symmetric] Q1_def reason_def)
  moreover have "job_of i (update_job i (retried (ev_now F)) Q1) = Some (retried (ev_now F) c)"
    using c by (simp add: job_of_update retried_def)
  ultimately show ?thesis
    by (intro exI [of _ Q1] exI [of _ "retried (ev_now F) c"] exI [of _ "update_job i (retried (ev_now F)) Q1"])
      (simp add: retried_def c_def cancelled_def)
qed

section \<open>Bounded hand-outs\<close>

text \<open>
  The calls of the queue together with those of its administrators and of a worker that gives a job
  back, in the order they are committed. The throttle of the operations console is part of the state.
\<close>

datatype job_event =
    Queue_call queue_call
  | Admin_retry queue_env string string
  | Admin_cancel queue_env string string "string option"
  | Ops_retry queue_env string string string
  | Release string

fun exec_event :: "job_event \<Rightarrow> throttle \<times> queue \<Rightarrow> job option \<times> throttle \<times> queue" where
  "exec_event (Queue_call c) (T, Q) = (case exec_call c Q of (r, Q') \<Rightarrow> (r, T, Q'))"
| "exec_event (Admin_retry E t i) (T, Q) =
     (None, T, (case admin_retryJob E t i Q of Inl e \<Rightarrow> Q | Inr (j, Q') \<Rightarrow> Q'))"
| "exec_event (Admin_cancel E t i reason) (T, Q) =
     (None, T, (case admin_cancelJob E t i reason Q of Inl e \<Rightarrow> Q | Inr Q' \<Rightarrow> Q'))"
| "exec_event (Ops_retry E role t i) (T, Q) = (None, snd (ops_retryJob E role t i (T, Q)))"
| "exec_event (Release i) (T, Q) = (None, T, releaseClaim i Q)"

definition retries_of :: "string \<Rightarrow> job_event list \<Rightarrow> nat" where
  "retries_of i es =
     length (filter (\<lambda>e. case e of Admin_retry _ _ k \<Rightarrow> k = i | Ops_retry _ _ _ k \<Rightarrow> k = i | _ \<Rightarrow> False) es)"

definition releases_of :: "string \<Rightarrow> job_event list \<Rightarrow> nat" where
  "releases_of i es = length (filter (\<lambda>e. e = Release i) es)"

definition granted :: "string \<Rightarrow> int \<Rightarrow> job_event \<Rightarrow> nat" where
  "granted i m e = (case e of Admin_retry _ _ k \<Rightarrow> (if k = i then nat (max 1 m) else 0)
     | Ops_retry _ _ _ k \<Rightarrow> (if k = i then nat (max 1 m) else 0)
     | Release k \<Rightarrow> (if k = i then 1 else 0) | _ \<Rightarrow> 0)"

lemma granted_sum: "sum_list (map (granted i m) es) = retries_of i es * nat (max 1 m) + releases_of i es"
  by (induction es) (auto simp: granted_def retries_of_def releases_of_def split: job_event.splits)

text \<open>Each of the added calls changes the jobs with the identifier it names, or nothing.\<close>

definition changes_only :: "string \<Rightarrow> (job \<Rightarrow> job) \<Rightarrow> queue \<Rightarrow> queue \<Rightarrow> bool" where
  "changes_only i f Q Q' \<longleftrightarrow> jq_jobs Q' = jq_jobs Q \<or> jq_jobs Q' = update_where (\<lambda>j. jb_id j = i) f (jq_jobs Q)"

definition released_job :: "job \<Rightarrow> job" where
  "released_job j = (if jb_status j = JS_PROCESSING
     then j\<lparr>jb_status := JS_PENDING, jb_locked_at := None, jb_locked_by := None\<rparr> else j)"

lemma changed_keys [simp]:
  "jb_id (retried n j) = jb_id j" "jb_max (retried n j) = jb_max j"
  "jb_id (cancelled n s j) = jb_id j" "jb_max (cancelled n s j) = jb_max j"
  "jb_id (released_job j) = jb_id j" "jb_max (released_job j) = jb_max j"
  by (simp_all add: retried_def cancelled_def released_job_def)

lemma retry_changes: "changes_only i (retried (ev_now E)) Q (snd (retryJob E i Q))"
  by (simp add: changes_only_def retryJob_def update_job_def split: option.split)

lemma admin_retry_changes:
  "changes_only i (retried (ev_now E)) Q (case admin_retryJob E t i Q of Inl e \<Rightarrow> Q | Inr (j, Q') \<Rightarrow> Q')"
  using retry_changes [of i E Q]
  by (auto simp: admin_retryJob_def chain_def changes_only_def split: sum.split option.split prod.splits)

lemma admin_cancel_changes:
  "\<exists>s. changes_only i (cancelled (ev_now E) s) Q (case admin_cancelJob E t i m Q of Inl e \<Rightarrow> Q | Inr Q' \<Rightarrow> Q')"
proof -
  have c: "changes_only i (cancelled (ev_now E) s) Q (cancelJob E i s Q)" for s
    by (simp add: changes_only_def cancelJob_def update_job_def Let_def split: option.split)
  show ?thesis
  proof (cases "tenant_job t i Q")
    case (Inr j)
    then show ?thesis
      using c [of "case trim_or_null m of Some r \<Rightarrow> r | None \<Rightarrow> ''Cancelled by admin''"] by (auto simp: admin_cancelJob_def)
  qed (simp add: admin_cancelJob_def changes_only_def)
qed

lemma tenant_job_idD: "tenant_job t i Q = Inr j \<Longrightarrow> jb_id j = i"
  by (auto simp: tenant_job_def dest: find_SomeD split: option.splits)

lemma ops_retry_changes: "changes_only i (retried (ev_now E)) Q (snd (snd (ops_retryJob E role t i (T, Q))))"
  by (auto simp: ops_retryJob_def changes_only_def update_job_def dest: tenant_job_idD split: sum.split)

lemma release_changes: "changes_only i released_job Q (releaseClaim i Q)"
proof -
  have "(if jb_id j = i \<and> jb_status j = JS_PROCESSING then j\<lparr>jb_status := JS_PENDING, jb_locked_at := None,
      jb_locked_by := None\<rparr> else j) = (if jb_id j = i then released_job j else j)" for j
    by (simp add: released_job_def)
  then show ?thesis by (simp add: changes_only_def releaseClaim_def update_where_def)
qed

text \<open>What such a change does to the hand-outs a job has left.\<close>

lemma change_grants:
  assumes "changes_only k f Q Q'" "ids_ok Q" "job_of i Q = Some j" and "\<And>j. jb_id (f j) = jb_id j"
    and "\<And>j. jb_max (f j) = jb_max j" and "k = i \<Longrightarrow> attempts_left (f j) \<le> attempts_left j + n"
  shows "ids_ok Q' \<and> (\<exists>j'. job_of i Q' = Some j' \<and> jb_max j' = jb_max j \<and> attempts_left j' \<le> attempts_left j + n)"
proof (cases "jq_jobs Q' = jq_jobs Q")
  case True
  then show ?thesis using assms(2,3) by (simp add: ids_ok_def job_of_def)
next
  case False
  with assms(1) have u: "jq_jobs Q' = update_where (\<lambda>j. jb_id j = k) f (jq_jobs Q)" by (simp add: changes_only_def)
  have "job_of i Q' = Some (if k = i then f j else j)"
    using assms(3) by (simp add: job_of_def u find_update_one assms(4))
  then show ?thesis using assms(2,5,6) by (simp add: ids_ok_def u map_update_where assms(4))
qed

lemma retried_attempts: "attempts_left (retried n j) \<le> attempts_left j + nat (max 1 (jb_max j))"
  by (simp add: attempts_left_def retried_def)

lemma cancelled_attempts: "attempts_left (cancelled n s j) \<le> attempts_left j + 0"
  by (simp add: attempts_left_def cancelled_def)

lemma released_attempts: "attempts_left (released_job j) \<le> attempts_left j + 1"
  by (simp add: attempts_left_def released_job_def)

lemma life_step_max: "life_step c r j j' \<Longrightarrow> jb_max j' = jb_max j"
  by (auto simp: life_step_def claimed_def succeeded_def failed_job_def split: queue_call.splits)

lemma event_grants:
  assumes "ids_ok Q" "job_of i Q = Some j" "exec_event e (T, Q) = (r, T', Q')"
  shows "ids_ok Q' \<and> (\<exists>j'. job_of i Q' = Some j' \<and> jb_max j' = jb_max j \<and>
    handed i r + attempts_left j' \<le> attempts_left j + granted i (jb_max j) e)"
proof (cases e)
  case (Queue_call c)
  with assms(3) have ex: "exec_call c Q = (r, Q')" by (simp split: prod.splits)
  from call_life [OF assms(1,2) ex] obtain j' where j': "job_of i Q' = Some j'" "life_step c r j j'" by (elim exE conjE)
  then show ?thesis
    using call_keeps_ids [OF assms(1) ex] life_step_max [OF j'(2)] life_step_pays [OF j'(2), of i] job_ofD [OF assms(2)]
    by (simp add: Queue_call granted_def)
next
  case (Admin_retry E t k)
  then have r: "r = None" "Q' = (case admin_retryJob E t k Q of Inl e \<Rightarrow> Q | Inr (j, Q') \<Rightarrow> Q')" using assms(3) by simp_all
  have c: "changes_only k (retried (ev_now E)) Q Q'" unfolding r(2) by (rule admin_retry_changes)
  show ?thesis
    using change_grants [OF c assms(1,2), of "granted i (jb_max j) e"] retried_attempts [of "ev_now E" j]
    by (simp add: Admin_retry granted_def r(1) handed_def)
next
  case (Admin_cancel E t k m)
  then have r: "r = None" "Q' = (case admin_cancelJob E t k m Q of Inl e \<Rightarrow> Q | Inr Q' \<Rightarrow> Q')" using assms(3) by simp_all
  obtain s where c: "changes_only k (cancelled (ev_now E) s) Q Q'" unfolding r(2) using admin_cancel_changes by blast
  show ?thesis
    using change_grants [OF c assms(1,2), of "granted i (jb_max j) e"] cancelled_attempts [of "ev_now E" s j]
    by (simp add: Admin_cancel granted_def r(1) handed_def)
next
  case (Ops_retry E role t k)
  then have r: "r = None" "Q' = snd (snd (ops_retryJob E role t k (T, Q)))" using assms(3) by (simp_all add: prod_eq_iff)
  have c: "changes_only k (retried (ev_now E)) Q Q'" unfolding r(2) by (rule ops_retry_changes)
  show ?thesis
    using change_grants [OF c assms(1,2), of "granted i (jb_max j) e"] retried_attempts [of "ev_now E" j]
    by (simp add: Ops_retry granted_def r(1) handed_def)
next
  case (Release k)
  then have r: "r = None" "Q' = releaseClaim k Q" using assms(3) by simp_all
  have c: "changes_only k released_job Q Q'" unfolding r(2) by (rule release_changes)
  show ?thesis
    using change_grants [OF c assms(1,2), of "granted i (jb_max j) e"] released_attempts [of j]
    by (simp add: Release granted_def r(1) handed_def)
qed

interpretation job_grants: granted_work exec_event
  "\<lambda>(T, Q). ids_ok Q \<and> (\<exists>j. job_of i Q = Some j \<and> jb_max j = m)" "handed i" "\<lambda>(T, Q). claims_left i Q" "granted i m" for i m
proof unfold_locales
  fix s :: "throttle \<times> queue" and e
  assume inv: "case s of (T, Q) \<Rightarrow> ids_ok Q \<and> (\<exists>j. job_of i Q = Some j \<and> jb_max j = m)"
  obtain T Q where s: "s = (T, Q)" by (cases s)
  obtain r T' Q' where ex: "exec_event e s = (r, T', Q')" by (cases "exec_event e s") auto
  from inv s obtain j where j: "ids_ok Q" "job_of i Q = Some j" "jb_max j = m" by auto
  from event_grants [OF j(1,2) ex [unfolded s]] j(3) obtain j' where "ids_ok Q'" "job_of i Q' = Some j'" "jb_max j' = m"
    "handed i r + attempts_left j' \<le> attempts_left j + granted i m e"
    by auto
  with j show "case snd (exec_event e s) of (T, Q) \<Rightarrow> ids_ok Q \<and> (\<exists>j. job_of i Q = Some j \<and> jb_max j = m)"
    and "handed i (fst (exec_event e s)) + (case snd (exec_event e s) of (T, Q) \<Rightarrow> claims_left i Q)
      \<le> (case s of (T, Q) \<Rightarrow> claims_left i Q) + granted i m e"
    by (simp_all add: s ex [unfolded s] claims_left_def)
qed

text \<open>How often a job is handed to a worker in a run of all these calls.\<close>

definition hand_outs :: "string \<Rightarrow> job_event list \<Rightarrow> throttle \<times> queue \<Rightarrow> nat" where
  "hand_outs i es s = work_of (handed i) exec_event es s"

text \<open>
  C20. How often a job runs at most, whatever the clients, the workers and the administrators do: as often as
  it has attempts left (a pending job at least once, even with all its attempts used up), once more for every
  release of its claim, which counts no attempt, and its whole number of attempts again for every retry.
  Cancelling grants nothing.
\<close>

theorem job_hand_outs_bounded:
  assumes "ids_ok Q" "job_of i Q = Some j"
  shows "hand_outs i es (T, Q) \<le>
    (case jb_status j of
       JS_PENDING \<Rightarrow> nat (max 1 (jb_max j - jb_attempts j))
     | JS_PROCESSING \<Rightarrow> nat (max 1 (jb_max j - jb_attempts j)) - 1
     | _ \<Rightarrow> 0) + retries_of i es * nat (max 1 (jb_max j)) + releases_of i es"
  using job_grants.work_granted [of i "jb_max j" "(T, Q)" es] assms
  by (simp add: hand_outs_def granted_sum claims_left_def attempts_left_def [symmetric])

section \<open>Concrete instances\<close>

lemma sample_queue_ids: "ids_ok sample_queue"
  by (simp add: ids_ok_def queue_samples)

definition failing_round :: "bool outcome \<times> queue" where
  "failing_round = processOnce sample_queue_env (\<lambda>i. False) ''w'' (\<lambda>j. Inl ''e'') sample_queue"

lemma trim_w: "trim ''w'' = ''w''"
  by (simp add: trim_def is_space_def)

lemma failing_round_processed: "fst failing_round = Inr True"
proof -
  have "claimable (\<lambda>i. False) [] 1700000000000 sample_queue = [sample_job]"
    by (simp add: claimable_def queue_samples)
  then have "limited None (claimable (\<lambda>i. False) [] (ev_now sample_queue_env) sample_queue) = [sample_job]"
    by (simp add: limited_def sample_queue_env_def)
  then show ?thesis
    by (simp add: failing_round_def processOnce_def claim_eq [OF sample_queue_ids] trim_w)
qed

lemma process_once_settles_witness:
  "\<exists>k i. job_of i (snd failing_round) = Some k \<and> jb_locked_by k = None \<and> jb_error k = Some ''e''"
proof -
  have "failing_round = (Inr True, snd failing_round)"
    by (simp add: prod_eq_iff failing_round_processed)
  then have "processOnce sample_queue_env (\<lambda>i. False) ''w'' (\<lambda>j. Inl ''e'') sample_queue = (Inr True, snd failing_round)"
    by (simp add: failing_round_def)
  from process_once_settles [OF sample_queue_ids trim_w _ this] show ?thesis by auto
qed

definition sample_schedule :: "unit outcome \<times> queue" where
  "sample_schedule = scheduleDaily sample_queue_env (Some ''t'') 1700000000000 empty_queue"

lemma sample_schedule_runs: "fst sample_schedule = Inr ()"
  by code_simp

lemma daily_accrual_always_fails_witness:
  "\<exists>j \<in> set (jq_jobs (snd sample_schedule)). jb_dedupe j = Some ''accrueInterest:daily:2023-11-14''"
proof -
  have "scheduleDaily sample_queue_env (Some ''t'') 1700000000000 empty_queue = (Inr (), snd sample_schedule)"
    using sample_schedule_runs by (simp add: sample_schedule_def prod_eq_iff)
  moreover have "trim (''accrueInterest:daily:'' @ dayKey 1700000000000) = ''accrueInterest:daily:2023-11-14''"
    by code_simp
  ultimately show ?thesis using daily_accrual_always_fails by metis
qed

definition two_tenants :: queue where
  "two_tenants = sample_queue\<lparr>jq_jobs := [sample_job, sample_job\<lparr>jb_id := ''x'', jb_tenant := ''u'', jb_dedupe := None\<rparr>]\<rparr>"

lemma admin_jobs_respect_tenant_witness:
  "\<exists>Q2. admin_cancelJob sample_queue_env ''u'' ''x'' None two_tenants = Inr Q2 \<and> sample_job \<in> set (jq_jobs Q2)"
proof -
  have ids: "ids_ok two_tenants" by (simp add: ids_ok_def two_tenants_def queue_samples)
  have "\<exists>Q2. admin_cancelJob sample_queue_env ''u'' ''x'' None two_tenants = Inr Q2"
    by (simp add: admin_cancelJob_def tenant_job_def two_tenants_def queue_samples)
  then obtain Q2 where "admin_cancelJob sample_queue_env ''u'' ''x'' None two_tenants = Inr Q2" ..
  moreover have "sample_job \<in> set (jq_jobs two_tenants)" "jb_tenant sample_job \<noteq> ''u''"
    by (simp_all add: two_tenants_def queue_samples)
  ultimately show ?thesis using admin_jobs_respect_tenant [OF ids] by metis
qed

text \<open>A failing job with one attempt, retried once, and one that is released: the bound is met.\<close>

definition one_attempt :: queue where
  "one_attempt = sample_queue\<lparr>jq_jobs := [sample_job\<lparr>jb_max := 1\<rparr>]\<rparr>"

definition retry_run :: "job_event list" where
  "retry_run =
     (let claim = Queue_call (Claim sample_queue_env (\<lambda>i. False) ''w'' [] None);
          fail = Queue_call (Fail sample_queue_env '''' ''w'' ''e'')
      in [claim, Release '''', claim, fail, claim, Admin_retry sample_queue_env ''t'' '''', claim, fail, claim])"

theorem job_hand_outs_bounded_witness:
  "hand_outs '''' retry_run (Map.empty, one_attempt) \<le> 3 \<and> retries_of '''' retry_run = 1 \<and> releases_of '''' retry_run = 1"
proof -
  have c: "retries_of '''' retry_run = 1" "releases_of '''' retry_run = 1"
    by (simp_all add: retries_of_def releases_of_def retry_run_def Let_def)
  have "ids_ok one_attempt" "job_of '''' one_attempt = Some (sample_job\<lparr>jb_max := 1\<rparr>)"
    by (simp_all add: one_attempt_def ids_ok_def job_of_def queue_samples)
  from job_hand_outs_bounded [OF this, of retry_run Map.empty] c show ?thesis
    by (simp add: queue_samples)
qed

lemma hand_outs_bound_met: "hand_outs '''' retry_run (Map.empty, one_attempt) = 3"
  by code_simp

lemma cancel_then_retry_reruns_witness:
  "\<exists>Q1 k Q2. admin_cancelJob sample_queue_env ''t'' '''' None sample_queue = Inr Q1 \<and>
     admin_retryJob sample_queue_env ''t'' '''' Q1 = Inr (k, Q2) \<and> jb_status k = JS_PENDING"
proof -
  have "jb_tenant sample_job = ''t''" by (simp add: queue_samples)
  from cancel_then_retry_reruns [OF sample_queue_ids sample_job_found this, of sample_queue_env None sample_queue_env]
  show ?thesis by (elim exE conjE) (intro exI conjI)
qed

end
