(* ===== verification/Risk.thy ===== *)
theory Risk
  imports LoanLifecycle Tenancy Delinquency
begin

text \<open>
  The risk service, \<open>risk/risk.service.ts\<close> with the policy schema of \<open>risk-policy.schema.ts\<close>: the
  score of an application under a policy, the gate its decision puts before a transition, the
  policies of a tenant, the evaluations of an application and its holds; and the borrower holds of
  \<open>modules/fraud/hold-enforcement.service.ts\<close> and the open alerts of \<open>fraud-evaluator.service.ts\<close>.
  Numbers are exact: the factors are small decimals, and a float in the code can only differ from
  them where a product lies half way between two integers.
\<close>

section \<open>Rules\<close>

text \<open>\<open>Number(text)\<close> on decimal numerals; other texts are not a number.\<close>

definition digit_value :: "char \<Rightarrow> nat option" where
  "digit_value c = (let n = of_char c :: nat in if 48 \<le> n \<and> n \<le> 57 then Some (n - 48) else None)"

fun digits_value :: "nat \<Rightarrow> string \<Rightarrow> nat option" where
  "digits_value acc [] = Some acc"
| "digits_value acc (c # cs) = (case digit_value c of None \<Rightarrow> None | Some d \<Rightarrow> digits_value (10 * acc + d) cs)"

definition unsigned_number :: "string \<Rightarrow> rat option" where
  "unsigned_number s =
     (let whole = takeWhile (\<lambda>c. c \<noteq> CHR ''.'') s; rest = drop (length whole + 1) s
      in if whole = [] \<and> rest = [] then None
         else case (digits_value 0 whole, digits_value 0 rest) of
                (Some w, Some f) \<Rightarrow> Some (of_nat w + of_nat f / 10 ^ length rest)
              | _ \<Rightarrow> None)"

definition js_number :: "string \<Rightarrow> rat option" where
  "js_number s =
     (case trim s of
        [] \<Rightarrow> Some 0
      | c # cs \<Rightarrow>
          if c = CHR ''-'' then map_option uminus (unsigned_number cs)
          else if c = CHR ''+'' then unsigned_number cs
          else unsigned_number (c # cs))"

text \<open>\<open>Number(value)\<close>; \<open>None\<close> is \<open>NaN\<close>. An array is read through its text.\<close>

fun to_number :: "rule_value \<Rightarrow> rat option" where
  "to_number VUndef = None"
| "to_number VNull = Some 0"
| "to_number (VBool b) = Some (if b then 1 else 0)"
| "to_number (VNum n) = Some n"
| "to_number (VStr s) = js_number s"
| "to_number (VArr []) = Some 0"
| "to_number (VArr [VUndef]) = Some 0"
| "to_number (VArr [VNull]) = Some 0"
| "to_number (VArr [VBool b]) = None"
| "to_number (VArr [v]) = to_number v"
| "to_number (VArr (v # w # vs)) = None"
| "to_number (VObj kvs) = None"

text \<open>\<open>===\<close>: the objects of a snapshot and of a policy are never the same object.\<close>

fun strict_equal :: "rule_value \<Rightarrow> rule_value \<Rightarrow> bool" where
  "strict_equal VUndef VUndef = True"
| "strict_equal VNull VNull = True"
| "strict_equal (VBool a) (VBool b) = (a = b)"
| "strict_equal (VNum a) (VNum b) = (a = b)"
| "strict_equal (VStr a) (VStr b) = (a = b)"
| "strict_equal _ _ = False"

fun truthy :: "rule_value \<Rightarrow> bool" where
  "truthy VUndef = False"
| "truthy VNull = False"
| "truthy (VBool b) = b"
| "truthy (VNum n) = (n \<noteq> 0)"
| "truthy (VStr s) = (s \<noteq> '''')"
| "truthy (VArr vs) = True"
| "truthy (VObj kvs) = True"

definition is_null :: "rule_value \<Rightarrow> bool" where
  "is_null v \<longleftrightarrow> v = VUndef \<or> v = VNull"

definition compare_numbers :: "(rat \<Rightarrow> rat \<Rightarrow> bool) \<Rightarrow> rule_value \<Rightarrow> rule_value \<Rightarrow> bool" where
  "compare_numbers R a b = (case (to_number a, to_number b) of (Some x, Some y) \<Rightarrow> R x y | _ \<Rightarrow> False)"

definition isRuleMatch :: "rule_value \<Rightarrow> rule_operator \<Rightarrow> rule_value \<Rightarrow> bool" where
  "isRuleMatch v oper expected =
     (case oper of
        OP_EQ \<Rightarrow> strict_equal v expected
      | OP_NE \<Rightarrow> \<not> strict_equal v expected
      | OP_IN \<Rightarrow> (case expected of VArr vs \<Rightarrow> list_ex (strict_equal v) vs | _ \<Rightarrow> False)
      | OP_NIN \<Rightarrow> (case expected of VArr vs \<Rightarrow> \<not> list_ex (strict_equal v) vs | _ \<Rightarrow> True)
      | OP_GT \<Rightarrow> compare_numbers (>) v expected
      | OP_GTE \<Rightarrow> compare_numbers (\<ge>) v expected
      | OP_LT \<Rightarrow> compare_numbers (<) v expected
      | OP_LTE \<Rightarrow> compare_numbers (\<le>) v expected
      | OP_EXISTS \<Rightarrow> (if truthy expected then \<not> is_null v else is_null v))"

fun split_on :: "char \<Rightarrow> string \<Rightarrow> string list" where
  "split_on d [] = [[]]"
| "split_on d (c # cs) = (if c = d then [] # split_on d cs
     else case split_on d cs of [] \<Rightarrow> [[c]] | w # ws \<Rightarrow> (c # w) # ws)"

definition get_key :: "rule_value \<Rightarrow> string \<Rightarrow> rule_value" where
  "get_key v k = (case v of VObj kvs \<Rightarrow> (case map_of kvs k of Some x \<Rightarrow> x | None \<Rightarrow> VUndef) | _ \<Rightarrow> VUndef)"

definition getPathValue :: "rule_value \<Rightarrow> string \<Rightarrow> rule_value" where
  "getPathValue v path = foldl get_key v (split_on (CHR ''.'') path)"

definition opt_text :: "string option \<Rightarrow> rule_value" where
  "opt_text s = (case s of Some x \<Rightarrow> VStr x | None \<Rightarrow> VNull)"

definition snapshot_value :: "risk_snapshot \<Rightarrow> rule_value" where
  "snapshot_value s = VObj
     [(''borrower'', VObj
        [(''employmentStatus'', opt_text (sn_employment s)), (''incomeBand'', opt_text (sn_income s)),
         (''kycLevel'', VStr (sn_kyc s)), (''hasActiveDefault'', VBool (sn_active_default s))]),
      (''application'', VObj
        [(''requestedAmount'', VNum (of_int (sn_amount s))), (''tenorDays'', VNum (of_int (sn_tenor s)))]),
      (''repaymentStats'', VObj
        [(''onTimeRate'', VNum (sn_on_time s)), (''defaultsCount'', VNum (of_nat (sn_defaults s)))]),
      (''derived'', VObj [(''hasActiveDefault'', VBool (sn_derived_default s))]),
      (''deviceRisk'', VObj [(''isEmulator'', (case sn_emulator s of Some b \<Rightarrow> VBool b | None \<Rightarrow> VNull))])]"

definition rule_matches :: "risk_snapshot \<Rightarrow> risk_rule \<Rightarrow> bool" where
  "rule_matches s r = isRuleMatch (getPathValue (snapshot_value s) (rl_field r)) (rl_operator r) (rl_value r)"

section \<open>The score\<close>

text \<open>\<open>Math.round\<close>: halves go up.\<close>

definition js_round :: "rat \<Rightarrow> int" where
  "js_round x = \<lfloor>x + 1 / 2\<rfloor>"

definition clampScore :: "int \<Rightarrow> int" where
  "clampScore n = max 0 (min 1000 n)"

definition factors :: "risk_snapshot \<Rightarrow> risk_config \<Rightarrow> contribution list" where
  "factors s c =
     [\<lparr>cb_key = ''employmentStatus'',
       cb_delta = js_round ((if sn_employment s = Some ''EMPLOYED'' then 1 else 0) * of_int (rc_employment c) * 5),
       cb_description = ''Employment status contribution''\<rparr>,
      \<lparr>cb_key = ''incomeBand'',
       cb_delta = js_round ((if sn_income s = Some ''HIGH'' then 1 else if sn_income s = Some ''MEDIUM'' then 1 / 2
                             else if sn_income s = Some ''LOW'' then - (1 / 2) else 0) * of_int (rc_income c) * 5),
       cb_description = ''Income band contribution''\<rparr>,
      \<lparr>cb_key = ''repaymentHistory'',
       cb_delta = js_round ((max 0 (min 1 (sn_on_time s)) - 1 / 2) * 2 * of_int (rc_repayment c) * 5),
       cb_description = ''Historical repayment punctuality contribution''\<rparr>,
      \<lparr>cb_key = ''kycLevel'',
       cb_delta = js_round ((if sn_kyc s = ''FULL'' then 1 else if sn_kyc s = ''PARTIAL'' then 1 / 5 else - (4 / 5))
                             * of_int (rc_kyc c) * 5),
       cb_description = ''KYC quality contribution''\<rparr>]"

definition device_factor :: "risk_snapshot \<Rightarrow> risk_config \<Rightarrow> contribution list" where
  "device_factor s c =
     (if sn_emulator s = Some True
      then [\<lparr>cb_key = ''deviceTrust'', cb_delta = - js_round (of_int (rc_device c) * 5),
             cb_description = ''Emulator/device risk penalty''\<rparr>]
      else [])"

definition device_flag :: "risk_snapshot \<Rightarrow> (string \<times> string) list" where
  "device_flag s =
     (if sn_emulator s = Some True
      then [(''DEVICE_EMULATOR'', ''Application appears to come from an emulator.'')] else [])"

definition soft_contribution :: "risk_rule \<Rightarrow> contribution list" where
  "soft_contribution r =
     (case rl_delta r of
        None \<Rightarrow> []
      | Some d \<Rightarrow> [\<lparr>cb_key = ''soft:'' @ rl_code r, cb_delta = d, cb_description = rl_message r\<rparr>])"

definition decide_risk :: "risk_config \<Rightarrow> bool \<Rightarrow> int \<Rightarrow> risk_decision" where
  "decide_risk c hard score =
     (if hard then RD_DECLINE
      else if rc_approve_min c \<le> score then RD_APPROVE
      else if rc_review_min c \<le> score then RD_REVIEW else RD_DECLINE)"

text \<open>The decimal numeral of a policy's version, in the message of the reason.\<close>

fun nat_text :: "nat \<Rightarrow> string" where
  "nat_text n = (if n < 10 then [char_of (48 + n)] else nat_text (n div 10) @ [char_of (48 + n mod 10)])"

declare nat_text.simps [simp del]

definition computeRiskFromInput :: "risk_snapshot \<Rightarrow> risk_config \<Rightarrow> string \<Rightarrow> int \<Rightarrow> risk_assessment" where
  "computeRiskFromInput s c name version =
     (let hard = filter (rule_matches s) (rc_hard c);
          soft = filter (rule_matches s) (rc_soft c);
          contributions = factors s c @ device_factor s c @ concat (map soft_contribution soft);
          normalized = clampScore (500 + (\<Sum>x\<leftarrow>contributions. cb_delta x));
          decision = decide_risk c (hard \<noteq> []) normalized;
          score = (if hard \<noteq> [] then min 400 normalized else normalized)
      in \<lparr>rk_score = score, rk_decision = decision,
          rk_reasons = [\<lparr>rs_code = ''POLICY'', rs_message = ''Policy '' @ name @ '' v'' @ nat_text (nat version),
            rs_data = Some \<lparr>rd_contributions = contributions,
              rd_hard = map (\<lambda>r. (rl_code r, rl_message r)) hard,
              rd_soft = device_flag s @ map (\<lambda>r. (rl_code r, rl_message r)) soft,
              rd_final = (score, decision)\<rparr>\<rparr>]\<rparr>)"

section \<open>The gate\<close>

definition sensitive_gates :: "loan_status list" where
  "sensitive_gates = [LS_UNDER_REVIEW, LS_APPROVED, LS_READY_FOR_DISBURSEMENT, LS_DISBURSED]"

definition hold_blocked :: "loan_status list" where
  "hold_blocked = [LS_APPROVED, LS_READY_FOR_DISBURSEMENT, LS_DISBURSED]"

fun hold_name :: "hold_type \<Rightarrow> string" where
  "hold_name FRAUD_SUSPECTED = ''FRAUD_SUSPECTED''"
| "hold_name KYC_MISSING = ''KYC_MISSING''"
| "hold_name DOCUMENTS_MISSING = ''DOCUMENTS_MISSING''"
| "hold_name POLICY_VIOLATION = ''POLICY_VIOLATION''"
| "hold_name MANUAL_REVIEW = ''MANUAL_REVIEW''"
| "hold_name COLLECTIONS_REVIEW = ''COLLECTIONS_REVIEW''"
| "hold_name SYSTEM_VELOCITY = ''SYSTEM_VELOCITY''"

fun comma_list :: "string list \<Rightarrow> string" where
  "comma_list [] = ''''"
| "comma_list [s] = s"
| "comma_list (s # ss) = s @ '', '' @ comma_list ss"

definition blocked_message :: "risk_assessment \<Rightarrow> string" where
  "blocked_message a =
     (let codes = comma_list (map rs_code (rk_reasons a))
      in ''Risk blocked: '' @ (if codes = '''' then ''DECLINE'' else codes) @ ''.'')"

definition enforceRiskGate :: "loan_status \<Rightarrow> risk_assessment \<Rightarrow> hold_type list \<Rightarrow> bool \<Rightarrow> unit outcome" where
  "enforceRiskGate toStatus a holds overrideEnabled =
     (if toStatus \<notin> set sensitive_gates then Inr ()
      else if overrideEnabled then Inr ()
      else if rk_decision a = RD_DECLINE then Inl (Forbidden (blocked_message a))
      else if rk_decision a = RD_REVIEW \<and> toStatus \<noteq> LS_UNDER_REVIEW
      then Inl (Forbidden ''Risk decision REVIEW allows only transition to UNDER_REVIEW until override.'')
      else if holds \<noteq> [] \<and> toStatus \<in> set hold_blocked
      then Inl (Forbidden (''Active holds block transition: '' @ comma_list (map hold_name holds)))
      else Inr ())"

section \<open>Policies\<close>

definition assertCanRun :: "admin_role \<Rightarrow> unit outcome" where
  "assertCanRun role = ensure (role \<in> {CREDIT_OFFICER, RISK_MANAGER, SUPER_ADMIN})
     (Forbidden ''Role cannot run risk evaluation.'')"

definition assertCanManagePolicies :: "admin_role \<Rightarrow> unit outcome" where
  "assertCanManagePolicies role = ensure (role \<in> {RISK_MANAGER, SUPER_ADMIN})
     (Forbidden ''Role cannot manage risk policies.'')"

definition default_config :: risk_config where
  "default_config =
     \<lparr>rc_employment = 20, rc_income = 20, rc_repayment = 25, rc_device = 10, rc_kyc = 25,
      rc_approve_min = 700, rc_review_min = 550,
      rc_hard = [\<lparr>rl_code = ''HARD_DEFAULTED_BORROWER'', rl_field = ''borrower.hasActiveDefault'',
        rl_operator = OP_EQ, rl_value = VBool True,
        rl_message = ''Borrower has active/defaulted loan exposure.'', rl_delta = None\<rparr>],
      rc_soft = [\<lparr>rl_code = ''SOFT_LOW_ONTIME_RATE'', rl_field = ''repaymentStats.onTimeRate'',
        rl_operator = OP_LT, rl_value = VNum (7 / 10),
        rl_message = ''Repayment punctuality is below preferred threshold.'', rl_delta = Some (- 120)\<rparr>,
       \<lparr>rl_code = ''SOFT_HIGH_REQUEST'', rl_field = ''application.requestedAmount'',
        rl_operator = OP_GT, rl_value = VNum 500000,
        rl_message = ''Requested amount is high and requires manual review.'', rl_delta = Some (- 80)\<rparr>]\<rparr>"

text \<open>The constraint \<open>(tenantId, name, version)\<close> of the table.\<close>

definition create_policy :: "env \<Rightarrow> risk_policy \<Rightarrow> db \<Rightarrow> (risk_policy \<times> db) outcome" where
  "create_policy E p D =
     (if find (\<lambda>q. pl_tenant q = pl_tenant p \<and> pl_name q = pl_name p \<and> pl_version q = pl_version p) (db_policies D) \<noteq> None
      then Inl (Internal ''Unique constraint failed'')
      else case fresh E D of (i, D1) \<Rightarrow>
        Inr (p\<lparr>pl_id := i\<rparr>, D1\<lparr>db_policies := db_policies D1 @ [p\<lparr>pl_id := i\<rparr>]\<rparr>))"

definition active_policies :: "string \<Rightarrow> db \<Rightarrow> risk_policy list" where
  "active_policies t D =
     sort_key (\<lambda>p. - pl_created p) (filter (\<lambda>p. pl_tenant p = t \<and> pl_active p) (db_policies D))"

definition ensureActivePolicy ::
  "env \<Rightarrow> string \<Rightarrow> db \<Rightarrow> ((risk_policy \<times> risk_config) \<times> db) outcome" where
  "ensureActivePolicy E t D =
     chain (requireTenantId (Some t)) (\<lambda>t'.
       chain
         (case active_policies t' D of
            p # _ \<Rightarrow> Inr (p, D)
          | [] \<Rightarrow> create_policy E \<lparr>pl_id = '''', pl_tenant = t', pl_name = ''default'', pl_version = 1,
              pl_active = True, pl_created = ev_now E, pl_created_by = None, pl_config = Some default_config\<rparr> D)
         (\<lambda>(p, D1).
            case pl_config p of
              None \<Rightarrow> Inl (BadRequest ''Active risk policy config is invalid.'')
            | Some c \<Rightarrow> Inr ((p, c), D1)))"

text \<open>\<open>config\<close> is \<open>None\<close> when the JSON of the request does not satisfy the schema.\<close>

definition createPolicy ::
  "env \<Rightarrow> string \<Rightarrow> admin_role \<Rightarrow> string \<Rightarrow> risk_config option \<Rightarrow> string option \<Rightarrow> db \<Rightarrow>
     (risk_policy \<times> db) outcome" where
  "createPolicy E t role name config createdBy D =
     chain (assertCanManagePolicies role) (\<lambda>_.
       case config of
         None \<Rightarrow> Inl (BadRequest ''Invalid risk policy config.'')
       | Some c \<Rightarrow>
           (let latest = sort_key (\<lambda>p. - pl_version p)
                  (filter (\<lambda>p. pl_tenant p = t \<and> pl_name p = name) (db_policies D));
                version = (case latest of p # _ \<Rightarrow> pl_version p | [] \<Rightarrow> 0) + 1
            in create_policy E \<lparr>pl_id = '''', pl_tenant = t, pl_name = name, pl_version = version,
                 pl_active = False, pl_created = ev_now E, pl_created_by = createdBy, pl_config = Some c\<rparr> D))"

definition activatePolicy :: "string \<Rightarrow> admin_role \<Rightarrow> string \<Rightarrow> db \<Rightarrow> db outcome" where
  "activatePolicy t role policyId D =
     chain (assertCanManagePolicies role) (\<lambda>_.
       case find (\<lambda>p. pl_id p = policyId \<and> pl_tenant p = t) (db_policies D) of
         None \<Rightarrow> Inl (NotFound ''Risk policy not found.'')
       | Some p \<Rightarrow> Inr (D\<lparr>db_policies :=
           update_where (\<lambda>q. pl_id q = pl_id p) (\<lambda>q. q\<lparr>pl_active := True\<rparr>)
             (update_where (\<lambda>q. pl_tenant q = t \<and> pl_name q = pl_name p \<and> pl_active q)
                (\<lambda>q. q\<lparr>pl_active := False\<rparr>) (db_policies D))\<rparr>))"

section \<open>Evaluations\<close>

definition filled :: "string option \<Rightarrow> bool" where
  "filled s \<longleftrightarrow> s \<noteq> None \<and> s \<noteq> Some ''''"

definition kyc_level :: "loan \<Rightarrow> string" where
  "kyc_level l =
     (if filled (l_email l) \<and> filled (l_address l) \<and> l_dob l \<noteq> None then ''FULL''
      else if filled (l_email l) \<or> filled (l_address l) then ''PARTIAL'' else ''NONE'')"

definition lower_char :: "char \<Rightarrow> char" where
  "lower_char c = (let n = of_char c :: nat in if 65 \<le> n \<and> n \<le> 90 then char_of (n + 32) else c)"

fun contains_text :: "string \<Rightarrow> string \<Rightarrow> bool" where
  "contains_text needle [] = (needle = [])"
| "contains_text needle (c # cs) = (take (length needle) (c # cs) = needle \<or> contains_text needle cs)"

definition active_loan_statuses :: "loan_status list" where
  "active_loan_statuses = [LS_APPROVED, LS_READY_FOR_DISBURSEMENT, LS_DISBURSED, LS_OVERDUE, LS_WRITTEN_OFF]"

definition other_loans :: "string \<Rightarrow> loan \<Rightarrow> (loan_status \<Rightarrow> bool) \<Rightarrow> db \<Rightarrow> nat" where
  "other_loans t l P D =
     length (filter (\<lambda>m. l_tenant m = t \<and> l_phone m = l_phone l \<and> l_id m \<noteq> l_id l \<and> P (l_status m)) (db_loans D))"

definition on_time_rate :: "int \<Rightarrow> sched_item list \<Rightarrow> rat" where
  "on_time_rate now items =
     (let pastDue = filter (\<lambda>i. si_due i < now) items;
          onTime = length (filter (\<lambda>i. (case si_paid_at i of Some p \<Rightarrow> p \<le> si_due i | None \<Rightarrow> False) \<and> si_status i = SI_PAID) pastDue)
      in if pastDue = [] then 1 else of_nat onTime / of_nat (length pastDue))"

definition buildSnapshot :: "int \<Rightarrow> string \<Rightarrow> string \<Rightarrow> db \<Rightarrow> (loan \<times> risk_snapshot) outcome" where
  "buildSnapshot now t i D =
     chain (requireTenantId (Some t)) (\<lambda>t'.
       case find_loan t' i D of
         None \<Rightarrow> Inl (NotFound ''Loan application not found for risk evaluation.'')
       | Some l \<Rightarrow>
           chain (ensureTenantMatch (l_tenant l) t') (\<lambda>_.
             (let hasDefault = 0 < other_loans t' l (\<lambda>s. s = LS_DEFAULTED \<or> s = LS_WRITTEN_OFF) D;
                  activeLoans = other_loans t' l (\<lambda>s. s \<in> set active_loan_statuses) D;
                  items = filter (\<lambda>s. si_tenant s = t' \<and> si_loan s = l_id l) (db_items D)
              in Inr (l,
                \<lparr>sn_employment = l_employment l, sn_income = l_income l, sn_kyc = kyc_level l,
                 sn_active_default = hasDefault, sn_amount = l_amount l,
                 sn_tenor = max 0 (if l_term_days l \<noteq> 0 then l_term_days l else l_tenor_months l * 30),
                 sn_on_time = on_time_rate now items,
                 sn_defaults = length (filter (\<lambda>m. l_tenant m = t' \<and> l_phone m = l_phone l \<and> l_status m = LS_DEFAULTED) (db_loans D)),
                 sn_derived_default = (hasDefault \<or> 1 < activeLoans),
                 sn_emulator = map_option (\<lambda>d. contains_text ''emulator'' (map lower_char d)) (l_device l)\<rparr>))))"

text \<open>The table of evaluations holds one row per application.\<close>

definition create_evaluation :: "env \<Rightarrow> risk_eval \<Rightarrow> db \<Rightarrow> (risk_eval \<times> db) outcome" where
  "create_evaluation E v D =
     (if find (\<lambda>w. rv_loan w = rv_loan v) (db_risk_evals D) \<noteq> None then Inl (Internal ''Unique constraint failed'')
      else case fresh E D of (i, D1) \<Rightarrow>
        Inr (v\<lparr>rv_id := i\<rparr>, D1\<lparr>db_risk_evals := db_risk_evals D1 @ [v\<lparr>rv_id := i\<rparr>]\<rparr>))"

definition assessment_row :: "string \<Rightarrow> string \<Rightarrow> risk_assessment \<Rightarrow> string option \<Rightarrow> loan_assessment" where
  "assessment_row t i a by_admin =
     \<lparr>la_tenant = t, la_loan = i, la_score = max 0 (min 100 (js_round (of_int (rk_score a) / 10))),
      la_decision = rk_decision a, la_reasons = rk_reasons a, la_by = by_admin\<rparr>"

definition persistAssessment :: "string \<Rightarrow> string \<Rightarrow> risk_assessment \<Rightarrow> string option \<Rightarrow> db \<Rightarrow> db" where
  "persistAssessment t i a by_admin D =
     (let row = assessment_row t i a by_admin
      in D\<lparr>db_assessments :=
             (if find (\<lambda>x. la_loan x = i) (db_assessments D) = None then db_assessments D @ [row]
              else update_where (\<lambda>x. la_loan x = i) (\<lambda>_. row) (db_assessments D)),
           db_assessment_log := db_assessment_log D @ [row]\<rparr>)"

definition rated :: "risk_assessment \<Rightarrow> risk_eval \<Rightarrow> loan \<Rightarrow> loan" where
  "rated a v l = l\<lparr>l_risk_score := Some (rk_score a), l_risk_decision := Some (rk_decision a),
     l_risk_evaluated_at := Some (rv_created v), l_risk_evaluation := Some (rv_id v)\<rparr>"

definition evaluateAndPersist ::
  "env \<Rightarrow> string \<Rightarrow> string \<Rightarrow> risk_trigger \<Rightarrow> string option \<Rightarrow> db \<Rightarrow> ((string \<times> risk_assessment) \<times> db) outcome" where
  "evaluateAndPersist E t i trigger createdBy D =
     chain (ensureActivePolicy E t D) (\<lambda>((p, c), D1).
       chain (buildSnapshot (ev_now E) t i D1) (\<lambda>(l, s).
         (let a = computeRiskFromInput s c (pl_name p) (pl_version p)
          in chain (create_evaluation E \<lparr>rv_id = '''', rv_tenant = t, rv_loan = l_id l, rv_borrower = l_phone l,
                 rv_policy = pl_id p, rv_trigger = trigger, rv_assessment = a, rv_snapshot = s,
                 rv_created_by = createdBy, rv_created = ev_now E\<rparr> D1) (\<lambda>(v, D2).
               Inr ((rv_id v, a),
                 persistAssessment t (l_id l) a createdBy
                   (D2\<lparr>db_loans := update_where (\<lambda>m. l_id m = l_id l) (rated a v) (db_loans D2)\<rparr>))))))"

definition runManualEvaluation ::
  "env \<Rightarrow> string \<Rightarrow> admin_role \<Rightarrow> string \<Rightarrow> string option \<Rightarrow> db \<Rightarrow> ((string \<times> risk_assessment) \<times> db) outcome" where
  "runManualEvaluation E t role i adminId D =
     chain (assertCanRun role) (\<lambda>_. evaluateAndPersist E t i MANUAL_ADMIN adminId D)"

definition assessLoanApplication :: "env \<Rightarrow> string \<Rightarrow> string \<Rightarrow> db \<Rightarrow> (risk_assessment \<times> db) outcome" where
  "assessLoanApplication E t i D =
     chain (ensureActivePolicy E t D) (\<lambda>((p, c), D1).
       chain (buildSnapshot (ev_now E) t i D1) (\<lambda>(l, s).
         Inr (computeRiskFromInput s c (pl_name p) (pl_version p), D1)))"

record risk_view =
  rw_assessment :: risk_assessment
  rw_by :: "string option"
  rw_at :: "int option"
  rw_override :: bool

definition hasOverrideReason :: "risk_reason list \<Rightarrow> bool" where
  "hasOverrideReason rs = list_ex (\<lambda>r. rs_code r = ''OVERRIDE'') rs"

definition getRiskSnapshot :: "string \<Rightarrow> string \<Rightarrow> db \<Rightarrow> risk_view" where
  "getRiskSnapshot t i D =
     (case sort_key (\<lambda>v. - rv_created v) (filter (\<lambda>v. rv_tenant v = t \<and> rv_loan v = i) (db_risk_evals D)) of
        v # _ \<Rightarrow>
          \<lparr>rw_assessment = rv_assessment v, rw_by = rv_created_by v, rw_at = Some (rv_created v),
           rw_override = (filled (rv_created_by v) \<and> rk_decision (rv_assessment v) = RD_APPROVE \<and>
             hasOverrideReason (rk_reasons (rv_assessment v)))\<rparr>
      | [] \<Rightarrow>
          \<lparr>rw_assessment = \<lparr>rk_score = 500, rk_decision = RD_REVIEW,
             rk_reasons = [\<lparr>rs_code = ''BASELINE'', rs_message = ''No evaluation found.'', rs_data = None\<rparr>]\<rparr>,
           rw_by = None, rw_at = None, rw_override = False\<rparr>)"

text \<open>The override runs outside a transaction: a default policy it had to create stays when it fails.\<close>

definition override_assessment :: "string \<Rightarrow> risk_assessment" where
  "override_assessment note =
     \<lparr>rk_score = 1000, rk_decision = RD_APPROVE,
      rk_reasons = [\<lparr>rs_code = ''OVERRIDE'',
        rs_message = (if trim note = '''' then ''Manual override to APPROVE.'' else trim note), rs_data = None\<rparr>]\<rparr>"

definition overrideToPass ::
  "env \<Rightarrow> string \<Rightarrow> string \<Rightarrow> string \<Rightarrow> string \<Rightarrow> admin_role \<Rightarrow> db \<Rightarrow> unit outcome \<times> db" where
  "overrideToPass E t i note adminId role D =
     (if role \<noteq> SUPER_ADMIN \<and> role \<noteq> RISK_MANAGER then (Inl (Forbidden ''Role cannot override risk decision.''), D)
      else case ensureActivePolicy E t D of
        Inl e \<Rightarrow> (Inl e, D)
      | Inr ((p, c), D1) \<Rightarrow>
          (case buildSnapshot (ev_now E) t i D1 of
             Inl e \<Rightarrow> (Inl e, D1)
           | Inr (l, s) \<Rightarrow>
               (case create_evaluation E \<lparr>rv_id = '''', rv_tenant = t, rv_loan = l_id l, rv_borrower = l_phone l,
                    rv_policy = pl_id p, rv_trigger = MANUAL_ADMIN, rv_assessment = override_assessment note,
                    rv_snapshot = s, rv_created_by = Some adminId, rv_created = ev_now E\<rparr> D1 of
                  Inl e \<Rightarrow> (Inl e, D1)
                | Inr (v, D2) \<Rightarrow>
                    (Inr (), emit (AuditEvent ''ADMIN_OVERRIDE'' ''LoanApplication'' i)
                      (emit (AuditEvent ''RISK_OVERRIDE'' ''TENANT_LOAN_APPLICATION'' i)
                        (D2\<lparr>db_loans := update_where (\<lambda>m. l_id m = l_id l) (rated (override_assessment note) v)
                             (db_loans D2)\<rparr>))))))"

section \<open>Holds and alerts\<close>

definition listActiveHolds :: "string \<Rightarrow> string \<Rightarrow> db \<Rightarrow> loan_hold list" where
  "listActiveHolds t i D = filter (\<lambda>h. lh_tenant h = t \<and> lh_loan h = i \<and> lh_active h) (rev (db_holds D))"

definition addHold ::
  "env \<Rightarrow> string \<Rightarrow> string \<Rightarrow> hold_type \<Rightarrow> string option \<Rightarrow> string \<Rightarrow> db \<Rightarrow> (loan_hold \<times> db) outcome" where
  "addHold E t i type note adminId D =
     (case find (\<lambda>l. l_id l = i \<and> l_tenant l = t) (db_loans D) of
        None \<Rightarrow> Inl (NotFound ''Loan application not found for hold.'')
      | Some l \<Rightarrow>
          (case fresh E D of (k, D1) \<Rightarrow>
             (let h = \<lparr>lh_id = k, lh_tenant = t, lh_loan = i, lh_type = type, lh_note = trim_or_null note,
                    lh_active = True, lh_created_by = adminId, lh_resolved_at = None, lh_resolved_by = None,
                    lh_resolution = None\<rparr>
              in Inr (h, emit (AuditEvent ''RISK_HOLD_ADDED'' ''TENANT_LOAN_APPLICATION'' i)
                   (D1\<lparr>db_holds := db_holds D1 @ [h]\<rparr>)))))"

definition resolveHold ::
  "env \<Rightarrow> string \<Rightarrow> string \<Rightarrow> string option \<Rightarrow> string \<Rightarrow> db \<Rightarrow> (loan_hold \<times> db) outcome" where
  "resolveHold E t holdId note adminId D =
     (case find (\<lambda>h. lh_id h = holdId \<and> lh_tenant h = t) (db_holds D) of
        None \<Rightarrow> Inl (NotFound ''Risk hold not found.'')
      | Some h \<Rightarrow>
          if \<not> lh_active h then Inl (BadRequest ''Risk hold is already resolved.'')
          else (let f = (\<lambda>h. h\<lparr>lh_active := False, lh_resolved_at := Some (ev_now E), lh_resolved_by := Some adminId,
                       lh_resolution := trim_or_null note\<rparr>)
                in Inr (f h, emit (AuditEvent ''RISK_HOLD_RESOLVED'' ''TENANT_LOAN_APPLICATION'' (lh_loan h))
                     (D\<lparr>db_holds := update_where (\<lambda>k. lh_id k = lh_id h) f (db_holds D)\<rparr>))))"

definition assertBorrowerNotRestricted :: "string \<Rightarrow> string \<Rightarrow> admin_role option \<Rightarrow> db \<Rightarrow> unit outcome" where
  "assertBorrowerNotRestricted t borrower role D =
     (case find (\<lambda>h. bh_tenant h = t \<and> bh_borrower h = borrower \<and> bh_active h) (db_borrower_holds D) of
        None \<Rightarrow> Inr ()
      | Some h \<Rightarrow> if role = Some SUPER_ADMIN then Inr ()
                  else Inl (Forbidden ''Account is temporarily restricted. Contact support.''))"

fun severity_rank :: "severity \<Rightarrow> nat" where
  "severity_rank SEV_LOW = 1"
| "severity_rank SEV_MEDIUM = 2"
| "severity_rank SEV_HIGH = 3"
| "severity_rank SEV_CRITICAL = 4"

text \<open>The query reads at most twenty alerts.\<close>

definition hasOpenAlertAtOrAbove :: "string \<Rightarrow> string \<Rightarrow> severity \<Rightarrow> db \<Rightarrow> bool" where
  "hasOpenAlertAtOrAbove t i sev D =
     list_ex (\<lambda>a. severity_rank sev \<le> severity_rank (fa_severity a))
       (take 20 (filter (\<lambda>a. fa_tenant a = t \<and> fa_loan a = Some i \<and>
          fa_status a \<in> {AL_OPEN, AL_INVESTIGATING, AL_ESCALATED}) (db_alerts D)))"

section \<open>What the score promises\<close>

lemma clampScore_bounds: "0 \<le> clampScore n \<and> clampScore n \<le> 1000"
  by (simp add: clampScore_def)

text \<open>
  The score is between 0 and 1000 and carries the decision: a matching hard rule declines and
  holds the score at 400 or less, and without one the decision is read off the score by the two
  thresholds.
\<close>

lemma risk_score_carries_decision:
  assumes "rc_review_min c \<le> rc_approve_min c"
  shows "let a = computeRiskFromInput s c name version; hard = list_ex (rule_matches s) (rc_hard c) in
    0 \<le> rk_score a \<and> rk_score a \<le> 1000 \<and>
    (if hard then rk_decision a = RD_DECLINE \<and> rk_score a \<le> 400
     else (rk_decision a = RD_APPROVE \<longleftrightarrow> rc_approve_min c \<le> rk_score a) \<and>
          (rk_decision a = RD_DECLINE \<longleftrightarrow> rk_score a < rc_review_min c))"
proof -
  have "list_ex (rule_matches s) (rc_hard c) \<longleftrightarrow> filter (rule_matches s) (rc_hard c) \<noteq> []"
    by (simp add: list_ex_iff filter_empty_conv)
  then show ?thesis
    using assms clampScore_bounds
    by (simp add: computeRiskFromInput_def decide_risk_def Let_def min_le_iff_disj)
qed

fun decision_rank :: "risk_decision \<Rightarrow> nat" where
  "decision_rank RD_DECLINE = 0"
| "decision_rank RD_REVIEW = 1"
| "decision_rank RD_APPROVE = 2"

lemma js_round_mono: "x \<le> y \<Longrightarrow> js_round x \<le> js_round y"
  by (simp add: js_round_def floor_mono)

lemma clampScore_mono: "m \<le> n \<Longrightarrow> clampScore m \<le> clampScore n"
  by (simp add: clampScore_def)

lemma decide_risk_mono:
  assumes "m \<le> n" "rc_review_min c \<le> rc_approve_min c"
  shows "decision_rank (decide_risk c h m) \<le> decision_rank (decide_risk c h n)"
  using assms by (simp add: decide_risk_def)

lemma default_paths:
  "getPathValue (snapshot_value s) ''borrower.hasActiveDefault'' = VBool (sn_active_default s)"
  "getPathValue (snapshot_value s) ''repaymentStats.onTimeRate'' = VNum (sn_on_time s)"
  "getPathValue (snapshot_value s) ''application.requestedAmount'' = VNum (of_int (sn_amount s))"
  by (simp_all add: getPathValue_def snapshot_value_def get_key_def)

definition default_rate_delta :: "rat \<Rightarrow> int" where
  "default_rate_delta r = js_round ((max 0 (min 1 r) - 1 / 2) * 2 * 25 * 5) + (if r < 7 / 10 then - 120 else 0)"

lemma default_rate_delta_mono: "r \<le> r' \<Longrightarrow> default_rate_delta r \<le> default_rate_delta r'"
proof -
  assume le: "r \<le> r'"
  then have "max 0 (min 1 r) \<le> max 0 (min 1 r')" by (auto simp: min_def max_def)
  then have "js_round ((max 0 (min 1 r) - 1 / 2) * 2 * 25 * 5) \<le> js_round ((max 0 (min 1 r') - 1 / 2) * 2 * 25 * 5)"
    by (intro js_round_mono) simp
  then show ?thesis unfolding default_rate_delta_def using le by (intro add_mono) simp_all
qed

definition default_rest :: "risk_snapshot \<Rightarrow> int" where
  "default_rest s =
     (let f = factors s default_config
      in cb_delta (f ! 0) + cb_delta (f ! 1) + cb_delta (f ! 3) + (\<Sum>x\<leftarrow>device_factor s default_config. cb_delta x) +
         (if 500000 < sn_amount s then - 80 else 0))"

lemma default_score:
  "rk_score (computeRiskFromInput s default_config name version) =
     (let n = clampScore (500 + default_rest s + default_rate_delta (sn_on_time s))
      in if sn_active_default s then min 400 n else n) \<and>
   rk_decision (computeRiskFromInput s default_config name version) =
     decide_risk default_config (sn_active_default s) (clampScore (500 + default_rest s + default_rate_delta (sn_on_time s)))"
proof -
  have hard: "filter (rule_matches s) (rc_hard default_config) \<noteq> [] \<longleftrightarrow> sn_active_default s"
    by (simp add: default_config_def rule_matches_def isRuleMatch_def default_paths)
  have "(\<Sum>x\<leftarrow>factors s default_config @ device_factor s default_config @
        concat (map soft_contribution (filter (rule_matches s) (rc_soft default_config))). cb_delta x) =
      default_rest s + default_rate_delta (sn_on_time s)"
    by (simp add: default_rest_def Let_def factors_def default_rate_delta_def rule_matches_def isRuleMatch_def
        default_paths soft_contribution_def compare_numbers_def)
      (simp add: default_config_def rule_matches_def isRuleMatch_def default_paths soft_contribution_def compare_numbers_def)
  then show ?thesis
    using hard by (simp add: computeRiskFromInput_def Let_def add.assoc)
qed

text \<open>
  Under the default policy punctuality is never held against a borrower: with everything else the
  same, a higher rate of instalments paid on time gives no lower score and no worse decision.
\<close>

lemma punctuality_never_hurts:
  assumes "sn_on_time s \<le> r"
  shows "rk_score (computeRiskFromInput s default_config name v) \<le>
      rk_score (computeRiskFromInput (s\<lparr>sn_on_time := r\<rparr>) default_config name v) \<and>
    decision_rank (rk_decision (computeRiskFromInput s default_config name v)) \<le>
      decision_rank (rk_decision (computeRiskFromInput (s\<lparr>sn_on_time := r\<rparr>) default_config name v))"
proof -
  have rest: "default_rest (s\<lparr>sn_on_time := r\<rparr>) = default_rest s"
    by (simp add: default_rest_def factors_def device_factor_def)
  have le: "clampScore (500 + default_rest s + default_rate_delta (sn_on_time s)) \<le>
      clampScore (500 + default_rest s + default_rate_delta r)"
    by (intro clampScore_mono add_left_mono default_rate_delta_mono assms)
  moreover have "rc_review_min default_config \<le> rc_approve_min default_config" by (simp add: default_config_def)
  ultimately show ?thesis
    using default_score [of s name v] default_score [of "s\<lparr>sn_on_time := r\<rparr>" name v]
      decide_risk_mono [OF le, of default_config "sn_active_default s"] min.mono [OF order_refl le, of 400]
    by (simp add: rest Let_def)
qed

text \<open>
  The gate in full: a transition passes exactly when its target is not sensitive, or an override is
  in force, or the decision is not to decline and, unless it is only to take the application under
  review, the decision is to approve and no hold is active.
\<close>

lemma risk_gate_passes_iff:
  "enforceRiskGate to a holds overridden = Inr () \<longleftrightarrow>
     to \<notin> {LS_UNDER_REVIEW, LS_APPROVED, LS_READY_FOR_DISBURSEMENT, LS_DISBURSED} \<or> overridden \<or>
     (to = LS_UNDER_REVIEW \<and> rk_decision a \<noteq> RD_DECLINE) \<or>
     (rk_decision a = RD_APPROVE \<and> holds = [])"
  by (cases "rk_decision a") (auto simp: enforceRiskGate_def sensitive_gates_def hold_blocked_def)

section \<open>One evaluation per application\<close>

definition evaluated :: "string \<Rightarrow> db \<Rightarrow> bool" where
  "evaluated i D \<longleftrightarrow> (\<exists>v \<in> set (db_risk_evals D). rv_loan v = i)"

lemma fresh_evals [simp]: "db_risk_evals (snd (fresh E D)) = db_risk_evals D"
  by (simp add: fresh_def)

lemma ensureActivePolicy_frame:
  "ensureActivePolicy E t D = Inr (pc, D1) \<Longrightarrow>
     db_risk_evals D1 = db_risk_evals D \<and> db_loans D1 = db_loans D \<and> db_items D1 = db_items D \<and>
     db_history D1 = db_history D \<and> db_effects D1 = db_effects D \<and> db_borrower_holds D1 = db_borrower_holds D \<and>
     db_alerts D1 = db_alerts D \<and> db_entries D1 = db_entries D \<and> db_accounts D1 = db_accounts D \<and>
     db_holds D1 = db_holds D"
proof -
  assume "ensureActivePolicy E t D = Inr (pc, D1)"
  then obtain t' p where "(case active_policies t' D of
      p # _ \<Rightarrow> Inr (p, D)
    | [] \<Rightarrow> create_policy E \<lparr>pl_id = '''', pl_tenant = t', pl_name = ''default'', pl_version = 1,
        pl_active = True, pl_created = ev_now E, pl_created_by = None, pl_config = Some default_config\<rparr> D) = Inr (p, D1)"
    by (auto simp: ensureActivePolicy_def chain_eq_Inr split: option.splits)
  then show ?thesis
    by (cases "active_policies t' D") (auto simp: create_policy_def fresh_def split: if_splits)
qed

lemma buildSnapshot_loan:
  "buildSnapshot now t i D = Inr (l, s) \<Longrightarrow> l_id l = i \<and> l \<in> set (db_loans D)"
  by (auto simp: buildSnapshot_def outcome_simps Let_def dest: find_loanD split: option.splits)

lemma create_evaluation_evaluated:
  "evaluated (rv_loan v) D \<Longrightarrow> create_evaluation E v D = Inl (Internal ''Unique constraint failed'')"
  by (auto simp: evaluated_def create_evaluation_def find_None_iff)

lemma create_evaluation_Inr:
  "create_evaluation E v D = Inr (w, D') \<Longrightarrow>
     \<not> evaluated (rv_loan v) D \<and> (\<exists>k. w = v\<lparr>rv_id := k\<rparr> \<and> D' = D\<lparr>db_seq := Suc (db_seq D), db_risk_evals := db_risk_evals D @ [w]\<rparr>)"
  by (auto simp: create_evaluation_def evaluated_def find_None_iff fresh_def split: if_splits)

lemma evaluate_fails:
  assumes "evaluated i D"
  shows "\<exists>e. evaluateAndPersist E t i trigger b D = Inl e"
proof (cases "evaluateAndPersist E t i trigger b D")
  case (Inr r)
  then obtain pc D1 l s where en: "ensureActivePolicy E t D = Inr (pc, D1)"
    and b: "buildSnapshot (ev_now E) t i D1 = Inr (l, s)"
    by (auto simp: evaluateAndPersist_def outcome_simps Let_def)
  have ev: "evaluated (l_id l) D1"
    using ensureActivePolicy_frame [OF en] buildSnapshot_loan [OF b] assms by (simp add: evaluated_def)
  obtain p c where pc: "pc = (p, c)" by (cases pc)
  show ?thesis
    by (simp add: evaluateAndPersist_def en [unfolded pc] b Let_def create_evaluation_evaluated ev)
qed blast

lemma override_fails:
  assumes "evaluated i D"
  shows "\<exists>e D'. overrideToPass E t i remark ad role D = (Inl e, D') \<and> db_risk_evals D' = db_risk_evals D \<and> db_loans D' = db_loans D"
proof (cases "role \<noteq> SUPER_ADMIN \<and> role \<noteq> RISK_MANAGER")
  case True
  then show ?thesis by (simp add: overrideToPass_def)
next
  case role: False
  show ?thesis
  proof (cases "ensureActivePolicy E t D")
    case (Inl e)
    with role show ?thesis by (auto simp: overrideToPass_def)
  next
    case (Inr r)
    obtain p c D1 where r: "r = ((p, c), D1)" by (cases r) auto
    note fr = ensureActivePolicy_frame [OF Inr [unfolded r]]
    show ?thesis
    proof (cases "buildSnapshot (ev_now E) t i D1")
      case (Inl e)
      with role Inr r fr show ?thesis by (auto simp: overrideToPass_def)
    next
      case (Inr ls)
      obtain l s where ls: "ls = (l, s)" by (cases ls)
      have "evaluated (l_id l) D1"
        using fr buildSnapshot_loan [OF Inr [unfolded ls]] assms by (simp add: evaluated_def)
      then have "create_evaluation E v D1 = Inl (Internal ''Unique constraint failed'')" if "rv_loan v = l_id l" for v
        using create_evaluation_evaluated [of v D1 E] that by simp
      with role \<open>ensureActivePolicy E t D = Inr r\<close> r Inr ls fr show ?thesis by (auto simp: overrideToPass_def)
    qed
  qed
qed

lemma evaluate_evaluated:
  assumes "evaluateAndPersist E t i trigger b D = Inr (r, D')"
  shows "evaluated i D'"
  using assms buildSnapshot_loan
  by (force simp: evaluateAndPersist_def outcome_simps Let_def persistAssessment_def evaluated_def dest!: create_evaluation_Inr)

text \<open>
  An application is evaluated only once: after a first evaluation every further one fails, whoever
  asks for it and whatever the reason, and so does every override of the decision.
\<close>

lemma second_evaluation_fails:
  assumes "evaluateAndPersist E t i trigger b D = Inr (r, D')"
  shows "(\<exists>e. evaluateAndPersist E' t' i trigger' b' D' = Inl e) \<and>
    (\<exists>e. runManualEvaluation E' t' role i b' D' = Inl e) \<and>
    (\<exists>e D''. overrideToPass E' t' i remark ad role D' = (Inl e, D''))"
proof (intro conjI)
  note ev = evaluate_evaluated [OF assms]
  show "\<exists>e. evaluateAndPersist E' t' i trigger' b' D' = Inl e" by (rule evaluate_fails [OF ev])
  have "\<exists>e. evaluateAndPersist E' t' i MANUAL_ADMIN b' D' = Inl e" by (rule evaluate_fails [OF ev])
  then obtain e where "evaluateAndPersist E' t' i MANUAL_ADMIN b' D' = Inl e" ..
  then show "\<exists>e. runManualEvaluation E' t' role i b' D' = Inl e"
    by (cases "assertCanRun role") (auto simp: runManualEvaluation_def)
  show "\<exists>e D''. overrideToPass E' t' i remark ad role D' = (Inl e, D'')"
    using override_fails [OF ev, of E' t' remark ad role] by auto
qed
lemma first_evaluation_succeeds:
  assumes "requireTenantId (Some t) = Inr t" "find_loan t i D = Some l" "\<not> evaluated i D"
    and "ensureActivePolicy E t D = Inr ((p, c), D1)"
  shows "\<exists>r D'. evaluateAndPersist E t i trigger b D = Inr (r, D')"
proof -
  have D1: "db_loans D1 = db_loans D" "db_risk_evals D1 = db_risk_evals D"
    using ensureActivePolicy_frame [OF assms(4)] by simp_all
  have l: "find_loan t i D1 = Some l" "l_tenant l = t" "l_id l = i"
    using assms(2) find_loanD [OF assms(2)] by (simp_all add: find_loan_def D1)
  have b: "\<exists>s. buildSnapshot (ev_now E) t i D1 = Inr (l, s)"
    by (simp add: buildSnapshot_def assms(1) l ensureTenantMatch_def Let_def)
  have "find (\<lambda>w. rv_loan w = i) (db_risk_evals D1) = None"
    using assms(3) by (auto simp: evaluated_def D1 find_None_iff)
  then have "\<exists>w D2. create_evaluation E v D1 = Inr (w, D2)" if "rv_loan v = i" for v
    using that by (simp add: create_evaluation_def fresh_def)
  with b show ?thesis
    by (auto simp: evaluateAndPersist_def assms(4) Let_def l(3) chain_eq_Inr)
qed

section \<open>Which policy is in force\<close>

lemma mem_update_where: "q \<in> set rows \<Longrightarrow> \<not> P q \<Longrightarrow> q \<in> set (update_where P f rows)"
  by (force simp: set_update_where)

lemma active_policies_hd:
  assumes "q \<in> set (db_policies D)" "pl_tenant q = t" "pl_active q"
    and "\<And>r. r \<in> set (db_policies D) \<Longrightarrow> pl_tenant r = t \<Longrightarrow> pl_active r \<Longrightarrow> r \<noteq> q \<Longrightarrow> pl_created r < pl_created q"
  shows "\<exists>rest. active_policies t D = q # rest"
proof (cases "active_policies t D")
  case Nil
  then have "set (active_policies t D) = {}" by simp
  with assms(1-3) show ?thesis by (auto simp: active_policies_def)
next
  case (Cons x rest)
  have "x \<in> set (active_policies t D)" using Cons by simp
  then have x: "x \<in> set (db_policies D)" "pl_tenant x = t" "pl_active x" by (auto simp: active_policies_def)
  have "sorted (map (\<lambda>p. - pl_created p) (active_policies t D))" by (simp add: active_policies_def)
  moreover have "q \<in> set (active_policies t D)" using assms(1-3) by (simp add: active_policies_def)
  ultimately have "- pl_created x \<le> - pl_created q" unfolding Cons by auto
  then have "x = q" using assms(4) [OF x] by force
  with Cons show ?thesis by simp
qed

text \<open>
  The newest policy is in force, not the one activated last: activating a policy turns off only
  policies of its own name, and an active policy of another name that was created later goes on
  deciding.
\<close>

lemma activation_does_not_replace_newer:
  assumes "activatePolicy t role i D = Inr D'" "find (\<lambda>p. pl_id p = i \<and> pl_tenant p = t) (db_policies D) = Some p"
    and "q \<in> set (db_policies D)" "pl_tenant q = t" "pl_active q" "pl_name q \<noteq> pl_name p"
    and "\<forall>r \<in> set (db_policies D). pl_tenant r = t \<and> (pl_active r \<or> pl_id r = i) \<and> r \<noteq> q \<longrightarrow> pl_created r < pl_created q"
    and "pl_id q \<noteq> i"
  shows "\<exists>rest. active_policies t D' = q # rest"
proof (rule active_policies_hd)
  have p: "pl_id p = i" "pl_tenant p = t" using assms(2) by (auto dest: find_SomeD)
  have D': "db_policies D' = update_where (\<lambda>q. pl_id q = i) (\<lambda>q. q\<lparr>pl_active := True\<rparr>)
      (update_where (\<lambda>q. pl_tenant q = t \<and> pl_name q = pl_name p \<and> pl_active q) (\<lambda>q. q\<lparr>pl_active := False\<rparr>) (db_policies D))"
    using assms(1,2) p by (auto simp: activatePolicy_def outcome_simps)
  show "q \<in> set (db_policies D')"
    unfolding D' using assms(3,6,8) by (intro mem_update_where) auto
  show "pl_tenant q = t" "pl_active q" by (fact assms)+
  fix r
  assume r: "r \<in> set (db_policies D')" "pl_tenant r = t" "pl_active r" "r \<noteq> q"
  let ?off = "\<lambda>s. if pl_tenant s = t \<and> pl_name s = pl_name p \<and> pl_active s then s\<lparr>pl_active := False\<rparr> else s"
  from r(1) obtain s where s: "s \<in> set (db_policies D)"
    "r = (if pl_id (?off s) = i then (?off s)\<lparr>pl_active := True\<rparr> else ?off s)"
    unfolding D' update_where_def set_map by blast
  have "pl_created r = pl_created s" "pl_tenant s = t" "pl_active s \<or> pl_id s = i"
    using s(2) r(2,3) by (auto split: if_splits)
  moreover have "s \<noteq> q" using s(2) r(4) assms(6,8) by (auto split: if_splits)
  ultimately show "pl_created r < pl_created q" using assms(7) s(1) by auto
qed

section \<open>Concrete instances\<close>

definition sample_snapshot :: risk_snapshot where
  "sample_snapshot = \<lparr>sn_employment = Some ''EMPLOYED'', sn_income = Some ''MEDIUM'', sn_kyc = ''PARTIAL'',
     sn_active_default = False, sn_amount = 1000, sn_tenor = 90, sn_on_time = 1 / 2, sn_defaults = 0,
     sn_derived_default = False, sn_emulator = None\<rparr>"

lemma risk_score_carries_decision_witness:
  "rk_score (computeRiskFromInput sample_snapshot default_config ''p'' 1) \<le> 1000"
  using risk_score_carries_decision [of default_config sample_snapshot "''p''" 1]
  by (simp add: Let_def default_config_def)

lemma punctuality_never_hurts_witness:
  "rk_score (computeRiskFromInput sample_snapshot default_config ''p'' 1) \<le>
     rk_score (computeRiskFromInput (sample_snapshot\<lparr>sn_on_time := 9 / 10\<rparr>) default_config ''p'' 1)"
  using punctuality_never_hurts [of sample_snapshot "9 / 10" "''p''" 1] by (simp add: sample_snapshot_def)

lemma sample_tenant: "requireTenantId (Some ''ten'') = Inr ''ten''"
  by code_simp

lemma sample_policy_created: "\<exists>pc D1. ensureActivePolicy sample_env ''ten'' loan_db = Inr (pc, D1)"
  by (simp add: ensureActivePolicy_def sample_tenant active_policies_def create_policy_def loan_db_def empty_db_def
      fresh_def)

lemma sample_loan_found: "find_loan ''ten'' (l_id sample_loan) loan_db = Some sample_loan"
  by (simp add: find_loan_def loan_db_def sample_loan_def)

lemma second_evaluation_fails_witness:
  "\<exists>r D' e. evaluateAndPersist sample_env ''ten'' (l_id sample_loan) AUTO_ON_SUBMISSION None loan_db = Inr (r, D') \<and>
     evaluateAndPersist sample_env ''ten'' (l_id sample_loan) SYSTEM_REEVAL None D' = Inl e"
proof -
  obtain r D' where ev: "evaluateAndPersist sample_env ''ten'' (l_id sample_loan) AUTO_ON_SUBMISSION None loan_db = Inr (r, D')"
  proof -
    obtain pc D1 where "ensureActivePolicy sample_env ''ten'' loan_db = Inr (pc, D1)"
      using sample_policy_created by (elim exE)
    moreover have "\<not> evaluated (l_id sample_loan) loan_db" by (simp add: evaluated_def loan_db_def empty_db_def)
    ultimately show ?thesis
      using first_evaluation_succeeds [OF sample_tenant sample_loan_found, of sample_env] that by (cases pc) blast
  qed
  obtain e where "evaluateAndPersist sample_env ''ten'' (l_id sample_loan) SYSTEM_REEVAL None D' = Inl e"
    using second_evaluation_fails [OF ev] by blast
  with ev show ?thesis by (intro exI conjI)
qed

definition sample_policy :: "string \<Rightarrow> string \<Rightarrow> int \<Rightarrow> risk_policy" where
  "sample_policy i name at_ms = \<lparr>pl_id = i, pl_tenant = ''ten'', pl_name = name, pl_version = 1, pl_active = True,
     pl_created = at_ms, pl_created_by = None, pl_config = Some default_config\<rparr>"

definition policy_db :: db where
  "policy_db = empty_db\<lparr>db_policies := [(sample_policy ''p1'' ''strict'' 1)\<lparr>pl_active := False\<rparr>, sample_policy ''p2'' ''loose'' 2]\<rparr>"

lemma activation_does_not_replace_newer_witness:
  "\<exists>D' rest. activatePolicy ''ten'' RISK_MANAGER ''p1'' policy_db = Inr D' \<and>
     active_policies ''ten'' D' = sample_policy ''p2'' ''loose'' 2 # rest"
proof -
  have f: "find (\<lambda>p. pl_id p = ''p1'' \<and> pl_tenant p = ''ten'') (db_policies policy_db) =
      Some ((sample_policy ''p1'' ''strict'' 1)\<lparr>pl_active := False\<rparr>)"
    by (simp add: policy_db_def sample_policy_def)
  then have "\<exists>D'. activatePolicy ''ten'' RISK_MANAGER ''p1'' policy_db = Inr D'"
    by (simp add: activatePolicy_def assertCanManagePolicies_def)
  then obtain D' where act: "activatePolicy ''ten'' RISK_MANAGER ''p1'' policy_db = Inr D'" ..
  have "\<exists>rest. active_policies ''ten'' D' = sample_policy ''p2'' ''loose'' 2 # rest"
    by (rule activation_does_not_replace_newer [OF act f]) (simp_all add: policy_db_def sample_policy_def)
  with act show ?thesis by auto
qed

lemma risk_gate_passes_iff_witness:
  "enforceRiskGate LS_UNDER_REVIEW \<lparr>rk_score = 600, rk_decision = RD_REVIEW, rk_reasons = []\<rparr> [KYC_MISSING] False = Inr () \<and>
   enforceRiskGate LS_APPROVED \<lparr>rk_score = 800, rk_decision = RD_APPROVE, rk_reasons = []\<rparr> [KYC_MISSING] False \<noteq> Inr ()"
  by (simp add: risk_gate_passes_iff)

end
