(* ===== verification/LoanApplications.thy ===== *)
theory LoanApplications
  imports Risk Treasury BoundedWork
begin

text \<open>
  Loan applications, \<open>modules/loan-applications/loan-applications.service.ts\<close>: submitting one, moving
  it from status to status (the transition map and the role matrix of \<open>LoanLifecycle\<close>, the risk
  evaluation, gate, holds and alerts of \<open>Risk\<close>, the ledger balance, the write-off of capital) and
  the direct mutation reserved to the system. The reads, and \<open>disburseLoan\<close>, which posts to the
  older ledger of \<open>modules/ledger\<close>, are left out.
\<close>

section \<open>Submitting\<close>

record application_input =
  ap_name :: string
  ap_phone :: string
  ap_email :: "string option"
  ap_dob :: "int option"
  ap_address :: "string option"
  ap_amount :: int
  ap_tenor :: int
  ap_purpose :: "string option"
  ap_employment :: "string option"
  ap_income :: "string option"

text \<open>The row with the column defaults of the schema.\<close>

definition new_loan :: "string \<Rightarrow> application_input \<Rightarrow> string \<Rightarrow> loan" where
  "new_loan t x i =
     \<lparr>l_id = i, l_tenant = t, l_status = LS_SUBMITTED, l_currency = ''NGN'', l_name = trim (ap_name x),
      l_phone = trim (ap_phone x), l_purpose = trim_or_null (ap_purpose x), l_email = trim_or_null (ap_email x),
      l_address = trim_or_null (ap_address x), l_dob = ap_dob x, l_employment = trim_or_null (ap_employment x),
      l_income = trim_or_null (ap_income x), l_device = None, l_amount = ap_amount x, l_term_days = 0,
      l_tenor_months = ap_tenor x, l_frequency = MONTHLY, l_annual_bps = 0, l_requested = of_int (ap_amount x),
      l_approved = None, l_disbursed_amount = None, l_disbursed_at = None, l_out_principal = 0, l_out_interest = 0,
      l_out_fees = 0, l_out_total = 0, l_days_past_due = 0, l_bucket = None, l_overdue_cents = 0,
      l_delinquency = DS_CURRENT, l_last_delinquency = None, l_penalty_accrued = 0, l_penalty_paid = 0,
      l_last_penalty = None, l_written_off_at = None, l_settled_at = None, l_next_due = None, l_repaid_at = None,
      l_risk_score = None, l_risk_decision = None, l_risk_evaluated_at = None, l_risk_evaluation = None,
      l_annual_rate = None, l_last_accrued = None, l_int_paused = False, l_int_paused_at = None,
      l_int_paused_until = None, l_int_pause_reason = None, l_int_paused_by = None,
      l_override_rate = None, l_override_at = None, l_override_by = None\<rparr>"

text \<open>The counters of a borrower need a borrower.\<close>

definition count_behavior :: "string \<Rightarrow> string \<Rightarrow> db \<Rightarrow> db outcome" where
  "count_behavior borrower counter D =
     (if trim borrower = '''' then Inl (BadRequest ''borrowerId is required for behavior snapshot update.'')
      else Inr (emit (BehaviorCount (trim borrower) counter) D))"

definition create_application :: "env \<Rightarrow> string \<Rightarrow> application_input \<Rightarrow> db \<Rightarrow> (string \<times> db) outcome" where
  "create_application E tenantId x D =
     chain (requireTenantId (Some tenantId)) (\<lambda>t.
     chain (assertBorrowerNotRestricted t (trim (ap_phone x)) None D) (\<lambda>_.
       case fresh E D of (i, D1) \<Rightarrow>
         if find (\<lambda>l. l_id l = i) (db_loans D1) \<noteq> None then Inl (Internal ''Unique constraint failed'')
         else
           let l = new_loan t x i;
               D2 = D1\<lparr>db_loans := db_loans D1 @ [l],
                 db_history := db_history D1 @ [\<lparr>hi_tenant = t, hi_loan = i, hi_from = None, hi_to = LS_SUBMITTED,
                   hi_note = Some ''Application submitted'', hi_by = None\<rparr>]\<rparr>
           in chain (count_behavior (l_phone l) ''totalApplications''
                  (emit (Audit ''LOAN_APPLICATION_SUBMITTED'' ''TENANT_LOAN_APPLICATION'' i) D2)) (\<lambda>D3.
                Inr (i, emit (AuditEvent ''LOAN_APPLY'' ''TENANT_LOAN_APPLICATION'' i)
                  (emit (OutboxEvent ''loan_application.submitted'' i (l_requested l)) D3)))))"

section \<open>Transitions\<close>

definition isApprovalBlockedByFraudAlert :: "admin_role \<Rightarrow> bool \<Rightarrow> bool" where
  "isApprovalBlockedByFraudAlert role hasAlert \<longleftrightarrow> hasAlert \<and> role \<noteq> SUPER_ADMIN"

text \<open>The assessment that counts, and whether an override is in force.\<close>

definition risk_step ::
  "env \<Rightarrow> string \<Rightarrow> loan \<Rightarrow> loan_status \<Rightarrow> string option \<Rightarrow> db \<Rightarrow> ((risk_assessment \<times> bool) \<times> db) outcome" where
  "risk_step E t l toStatus by D =
     (let v = getRiskSnapshot t (l_id l) D
      in if l_status l = LS_SUBMITTED \<and> toStatus = LS_UNDER_REVIEW
         then chain (evaluateAndPersist E t (l_id l) AUTO_ON_SUBMISSION by D) (\<lambda>((_, a), D1).
           Inr ((a, rw_override (getRiskSnapshot t (l_id l) D1)), D1))
         else if \<not> rw_override v
         then chain (evaluateAndPersist E t (l_id l) SYSTEM_REEVAL by D) (\<lambda>((_, a), D1). Inr ((a, False), D1))
         else Inr ((rw_assessment v, True), D))"

definition approval_step :: "string \<Rightarrow> loan \<Rightarrow> admin_role \<Rightarrow> db \<Rightarrow> unit outcome" where
  "approval_step t l role D =
     chain (assertBorrowerNotRestricted t (l_phone l) (Some role) D) (\<lambda>_.
       ensure (\<not> isApprovalBlockedByFraudAlert role (hasOpenAlertAtOrAbove t (l_id l) SEV_HIGH D))
         (Forbidden ''Approval blocked by open HIGH/CRITICAL fraud alert.''))"

definition repaid_step :: "string \<Rightarrow> loan \<Rightarrow> db \<Rightarrow> unit outcome" where
  "repaid_step t l D =
     (case getBalances t (l_id l) D of (_, _, _, outst) \<Rightarrow>
        ensure (outst = 0) (BadRequest ''Loan cannot be marked REPAID while outstanding balance exists.''))"

definition transition_note :: "loan_status \<Rightarrow> loan_status \<Rightarrow> risk_assessment \<Rightarrow> string option \<Rightarrow> string option" where
  "transition_note s toStatus a remark =
     (if s = LS_SUBMITTED \<and> toStatus = LS_UNDER_REVIEW \<and> rk_decision a = RD_DECLINE
      then Some ((case trim_or_null remark of Some n \<Rightarrow> n @ '' | '' | None \<Rightarrow> '''') @
             ''Risk evaluation suggests DECLINE; kept UNDER_REVIEW for manual decision.'')
      else trim_or_null remark)"

definition audience_roles :: "loan_status \<Rightarrow> admin_role list" where
  "audience_roles toStatus =
     (if toStatus = LS_APPROVED then [OPS, SUPER_ADMIN]
      else if toStatus = LS_UNDER_REVIEW then [CREDIT_OFFICER, SUPER_ADMIN]
      else [CREDIT_OFFICER, OPS, SUPER_ADMIN])"

definition admins_with :: "string \<Rightarrow> admin_role list \<Rightarrow> db \<Rightarrow> string list" where
  "admins_with t roles D = map au_id (filter (\<lambda>a. au_tenant a = t \<and> au_role a \<in> set roles) (db_admins D))"

definition count_step :: "loan \<Rightarrow> loan_status \<Rightarrow> db \<Rightarrow> db outcome" where
  "count_step l toStatus D =
     (if toStatus = LS_APPROVED then count_behavior (l_phone l) ''totalApproved'' D
      else if toStatus = LS_REJECTED then count_behavior (l_phone l) ''totalRejected'' D
      else if toStatus = LS_DEFAULTED then count_behavior (l_phone l) ''defaultCount'' D
      else Inr D)"

definition write_off_step :: "env \<Rightarrow> string \<Rightarrow> loan \<Rightarrow> loan_status \<Rightarrow> admin_role \<Rightarrow> string option \<Rightarrow> db \<Rightarrow> db outcome" where
  "write_off_step E t l toStatus role by D =
     (if toStatus = LS_DEFAULTED \<or> toStatus = LS_WRITTEN_OFF
      then applyWriteOff E t (l_id l) (l_out_principal l) (l_currency l) (l_id l @ '':'' @ status_name toStatus)
             \<lparr>ta_id = by, ta_role = Some role\<rparr> D
      else Inr D)"

text \<open>The new status, its history, and the messages to the other services.\<close>

definition record_transition ::
  "string \<Rightarrow> loan \<Rightarrow> loan_status \<Rightarrow> string option \<Rightarrow> string option \<Rightarrow> db \<Rightarrow> db" where
  "record_transition t l toStatus remark by D =
     (let D1 = D\<lparr>db_loans := update_where (\<lambda>m. l_id m = l_id l) (\<lambda>m. m\<lparr>l_status := toStatus\<rparr>) (db_loans D),
            db_history := db_history D @ [\<lparr>hi_tenant = t, hi_loan = l_id l, hi_from = Some (l_status l),
              hi_to = toStatus, hi_note = remark, hi_by = by\<rparr>]\<rparr>
      in emit (StatusEvent (l_id l) (l_status l) toStatus)
          (emit (AuditTransition (l_id l) (l_status l) toStatus)
            (emit (StatusChanged (l_id l) (l_status l) toStatus (admins_with t (audience_roles toStatus) D1)) D1)))"

definition transition_tx ::
  "env \<Rightarrow> string \<Rightarrow> string \<Rightarrow> loan_status \<Rightarrow> admin_role \<Rightarrow> string option \<Rightarrow> string option \<Rightarrow> db \<Rightarrow> db outcome" where
  "transition_tx E t i toStatus role remark by D =
     (case find (\<lambda>l. l_id l = i \<and> l_tenant l = t) (db_loans D) of
        None \<Rightarrow> Inl (NotFound ''Loan application not found.'')
      | Some l \<Rightarrow>
          chain (assertTenantMatch (l_tenant l) t) (\<lambda>_.
          chain (assertValidTransition (l_status l) toStatus) (\<lambda>_.
          chain (risk_step E t l toStatus by D) (\<lambda>((a, overridden), D1).
          chain (enforceRiskGate toStatus a (map lh_type (listActiveHolds t (l_id l) D1)) overridden) (\<lambda>_.
          chain (if toStatus = LS_APPROVED then approval_step t l role D1 else Inr ()) (\<lambda>_.
          chain (if toStatus = LS_REPAID then repaid_step t l D1 else Inr ()) (\<lambda>_.
          chain (assertRoleCanTransition role (l_status l) toStatus) (\<lambda>_.
          chain (count_step l toStatus
                  (record_transition t l toStatus (transition_note (l_status l) toStatus a remark) by D1)) (\<lambda>D2.
            write_off_step E t l toStatus role by D2)))))))))"

definition transitionStatus ::
  "env \<Rightarrow> string \<Rightarrow> string \<Rightarrow> loan_status \<Rightarrow> admin_role \<Rightarrow> string option \<Rightarrow> string option \<Rightarrow> db \<Rightarrow> db outcome" where
  "transitionStatus E t i toStatus role remark changedBy D =
     chain (transition_tx E t i toStatus role remark (trim_or_null changedBy) D) (\<lambda>D1.
       Inr (emit (AuditEvent ''LOAN_DECISION'' ''TENANT_LOAN_APPLICATION'' i)
         (emit (AuditEvent ''LOAN_APP_TRANSITION'' ''LoanApplication'' i) D1)))"

text \<open>The system's own way, past the map and the gate. Nothing in the repository but a test calls it.\<close>

definition setStatusDirectSystemOnly ::
  "string \<Rightarrow> string \<Rightarrow> loan_status \<Rightarrow> string \<Rightarrow> string option \<Rightarrow> string option \<Rightarrow> db \<Rightarrow> db outcome" where
  "setStatusDirectSystemOnly t i toStatus actorRole actorId remark D =
     (if actorRole \<noteq> ''SYSTEM'' then Inl (Forbidden ''Silent status mutation is forbidden. Use transitionStatus.'')
      else case find (\<lambda>l. l_id l = i \<and> l_tenant l = t) (db_loans D) of
        None \<Rightarrow> Inl (NotFound ''Loan application not found.'')
      | Some l \<Rightarrow> Inr (emit (AuditTransition (l_id l) (l_status l) toStatus)
          (D\<lparr>db_loans := update_where (\<lambda>m. l_id m = l_id l) (\<lambda>m. m\<lparr>l_status := toStatus\<rparr>) (db_loans D),
             db_history := db_history D @ [\<lparr>hi_tenant = t, hi_loan = l_id l, hi_from = Some (l_status l),
               hi_to = toStatus, hi_note = Some (case trim_or_null remark of Some n \<Rightarrow> n | None \<Rightarrow> ''SYSTEM direct status mutation''),
               hi_by = trim_or_null actorId\<rparr>]\<rparr>)))"

section \<open>What the steps leave alone\<close>

definition status_of :: "string \<Rightarrow> db \<Rightarrow> loan_status option" where
  "status_of i D = map_of (map (\<lambda>l. (l_id l, l_status l)) (db_loans D)) i"

definition loan_ids_ok :: "db \<Rightarrow> bool" where
  "loan_ids_ok D \<longleftrightarrow> distinct (map l_id (db_loans D))"

text \<open>A step that only rates the application \<open>k\<close>: at most one evaluation is added.\<close>

definition rates :: "string \<Rightarrow> db \<Rightarrow> db \<Rightarrow> bool" where
  "rates k D D' \<longleftrightarrow>
     map (\<lambda>l. (l_id l, l_status l)) (db_loans D') = map (\<lambda>l. (l_id l, l_status l)) (db_loans D) \<and>
     (db_risk_evals D' = db_risk_evals D \<or>
      (\<exists>w. rv_loan w = k \<and> \<not> evaluated k D \<and> db_risk_evals D' = db_risk_evals D @ [w]))"

lemma rates_same:
  "db_loans D' = db_loans D \<Longrightarrow> db_risk_evals D' = db_risk_evals D \<Longrightarrow> rates k D D'"
  by (simp add: rates_def)

lemma rates_status: "rates k D D' \<Longrightarrow> status_of i D' = status_of i D"
  by (simp add: rates_def status_of_def)

lemma rates_ids:
  assumes "rates k D D'"
  shows "map l_id (db_loans D') = map l_id (db_loans D)"
  using arg_cong [OF conjunct1 [OF assms [unfolded rates_def]], of "map fst"] by (simp add: comp_def)

lemma rated_status: "map (\<lambda>l. (l_id l, l_status l)) (update_where P (rated a v) ls) = map (\<lambda>l. (l_id l, l_status l)) ls"
  by (rule map_update_where) (simp add: rated_def)

lemma compute_not_override: "\<not> hasOverrideReason (rk_reasons (computeRiskFromInput s c name v))"
  by (simp add: computeRiskFromInput_def Let_def hasOverrideReason_def)

text \<open>An evaluation adds one row, rates the application and logs the assessment.\<close>

lemma evaluate_Inr:
  assumes "evaluateAndPersist E t k trigger b D = Inr (r, D')"
  obtains pc D1 v where "ensureActivePolicy E t D = Inr (pc, D1)" "\<not> evaluated k D"
    "rv_loan v = k" "rv_tenant v = t" "rv_assessment v = snd r"
    "\<not> hasOverrideReason (rk_reasons (rv_assessment v))"
    "D' = persistAssessment t k (snd r) b (D1\<lparr>db_seq := Suc (db_seq D1), db_risk_evals := db_risk_evals D1 @ [v],
       db_loans := update_where (\<lambda>m. l_id m = k) (rated (snd r) v) (db_loans D1)\<rparr>)"
proof -
  from assms obtain p c D1 l s where en: "ensureActivePolicy E t D = Inr ((p, c), D1)"
    and b: "buildSnapshot (ev_now E) t k D1 = Inr (l, s)"
    by (auto simp: evaluateAndPersist_def chain_eq_Inr Let_def)
  let ?a = "computeRiskFromInput s c (pl_name p) (pl_version p)"
  let ?v = "\<lparr>rv_id = '''', rv_tenant = t, rv_loan = l_id l, rv_borrower = l_phone l,
     rv_policy = pl_id p, rv_trigger = trigger, rv_assessment = ?a, rv_snapshot = s,
     rv_created_by = b, rv_created = ev_now E\<rparr>"
  have l: "l_id l = k" using buildSnapshot_loan [OF b] by simp
  from assms obtain v D2 where cr: "create_evaluation E ?v D1 = Inr (v, D2)"
    and r: "r = (rv_id v, ?a)"
    and D': "D' = persistAssessment t (l_id l) ?a b (D2\<lparr>db_loans := update_where (\<lambda>m. l_id m = l_id l) (rated ?a v) (db_loans D2)\<rparr>)"
    by (auto simp: evaluateAndPersist_def chain_eq_Inr Let_def en b)
  from create_evaluation_Inr [OF cr] obtain i where v: "v = ?v\<lparr>rv_id := i\<rparr>"
    and D2: "D2 = D1\<lparr>db_seq := Suc (db_seq D1), db_risk_evals := db_risk_evals D1 @ [v]\<rparr>" and new: "\<not> evaluated (rv_loan ?v) D1"
    by (elim conjE exE)
  show ?thesis
  proof (rule that [OF en])
    show "\<not> evaluated k D" using new l ensureActivePolicy_frame [OF en] by (simp add: evaluated_def)
    show "\<not> hasOverrideReason (rk_reasons (rv_assessment v))" using compute_not_override by (simp add: v)
    show "D' = persistAssessment t k (snd r) b (D1\<lparr>db_seq := Suc (db_seq D1), db_risk_evals := db_risk_evals D1 @ [v],
       db_loans := update_where (\<lambda>m. l_id m = k) (rated (snd r) v) (db_loans D1)\<rparr>)"
      by (simp add: D' D2 r l)
  qed (simp_all add: v l r)
qed

lemma evaluate_adds:
  assumes "evaluateAndPersist E t k trigger b D = Inr (r, D')"
  shows "\<not> evaluated k D \<and> (\<exists>w. rv_loan w = k \<and> rv_tenant w = t \<and> \<not> hasOverrideReason (rk_reasons (rv_assessment w)) \<and>
      rv_assessment w = snd r \<and> db_risk_evals D' = db_risk_evals D @ [w]) \<and>
    map (\<lambda>l. (l_id l, l_status l)) (db_loans D') = map (\<lambda>l. (l_id l, l_status l)) (db_loans D)"
proof -
  obtain pc D1 v where ev: "ensureActivePolicy E t D = Inr (pc, D1)" "\<not> evaluated k D"
    "rv_loan v = k" "rv_tenant v = t" "rv_assessment v = snd r"
    "\<not> hasOverrideReason (rk_reasons (rv_assessment v))"
    "D' = persistAssessment t k (snd r) b (D1\<lparr>db_seq := Suc (db_seq D1), db_risk_evals := db_risk_evals D1 @ [v],
       db_loans := update_where (\<lambda>m. l_id m = k) (rated (snd r) v) (db_loans D1)\<rparr>)"
    by (rule evaluate_Inr [OF assms])
  have "db_risk_evals D' = db_risk_evals D @ [v]"
    "map (\<lambda>l. (l_id l, l_status l)) (db_loans D') = map (\<lambda>l. (l_id l, l_status l)) (db_loans D)"
    by (simp_all add: ev(7) persistAssessment_def Let_def rated_status ensureActivePolicy_frame [OF ev(1)])
  with ev(2-6) show ?thesis by (intro conjI exI [of _ v])
qed

lemma evaluate_rates:
  assumes "evaluateAndPersist E t k trigger b D = Inr (r, D')"
  shows "rates k D D'"
  using evaluate_adds [OF assms] unfolding rates_def by (elim conjE exE) auto

lemma override_rates: "rates k D (snd (overrideToPass E t k remark ad role D))"
proof (cases "role \<noteq> SUPER_ADMIN \<and> role \<noteq> RISK_MANAGER")
  case True
  then show ?thesis by (simp add: overrideToPass_def rates_def)
next
  case role: False
  show ?thesis
  proof (cases "ensureActivePolicy E t D")
    case (Inl e)
    with role show ?thesis by (auto simp: overrideToPass_def rates_def)
  next
    case en: (Inr r)
    obtain p c D1 where r: "r = ((p, c), D1)" by (cases r) auto
    note fr = ensureActivePolicy_frame [OF en [unfolded r]]
    show ?thesis
    proof (cases "buildSnapshot (ev_now E) t k D1")
      case (Inl e)
      with role en r fr show ?thesis by (auto simp: overrideToPass_def intro: rates_same)
    next
      case b: (Inr ls)
      obtain l s where ls: "ls = (l, s)" by (cases ls)
      have l: "l_id l = k" using buildSnapshot_loan [OF b [unfolded ls]] by simp
      let ?v = "\<lparr>rv_id = '''', rv_tenant = t, rv_loan = l_id l, rv_borrower = l_phone l,
                    rv_policy = pl_id p, rv_trigger = MANUAL_ADMIN, rv_assessment = override_assessment remark,
                    rv_snapshot = s, rv_created_by = Some ad, rv_created = ev_now E\<rparr>"
      show ?thesis
      proof (cases "create_evaluation E ?v D1")
        case (Inl e)
        with role en r b ls fr show ?thesis by (auto simp: overrideToPass_def intro: rates_same)
      next
        case cr: (Inr vD)
        obtain v D2 where vD: "vD = (v, D2)" by (cases vD)
        have res: "snd (overrideToPass E t k remark ad role D) = emit (AuditEvent ''ADMIN_OVERRIDE'' ''LoanApplication'' k)
            (emit (AuditEvent ''RISK_OVERRIDE'' ''TENANT_LOAN_APPLICATION'' k)
              (D2\<lparr>db_loans := update_where (\<lambda>m. l_id m = l_id l) (rated (override_assessment remark) v) (db_loans D2)\<rparr>))"
          using role en r b ls cr vD by (auto simp: overrideToPass_def)
        from create_evaluation_Inr [OF cr [unfolded vD]] obtain i where v: "v = ?v\<lparr>rv_id := i\<rparr>"
          and D2: "D2 = D1\<lparr>db_seq := Suc (db_seq D1), db_risk_evals := db_risk_evals D1 @ [v]\<rparr>"
          and new: "\<not> evaluated (rv_loan ?v) D1"
          by (elim conjE exE)
        have "rv_loan v = k" "\<not> evaluated k D" using v new l fr by (simp_all add: evaluated_def)
        then show ?thesis
          unfolding rates_def res by (intro conjI disjI2 exI [of _ v]) (simp_all add: rated_status D2 fr)
      qed
    qed
  qed
qed

lemma risk_step_rates:
  assumes "risk_step E t l to by_admin D = Inr ((a, ov), D1)"
  shows "rates (l_id l) D D1"
  using assms evaluate_rates
  by (auto simp: risk_step_def Let_def chain_eq_Inr rates_same split: if_splits)

lemma count_step_tables:
  assumes "count_step l to D = Inr D'"
  shows "db_loans D' = db_loans D \<and> db_risk_evals D' = db_risk_evals D \<and> db_history D' = db_history D"
  using assms by (auto simp: count_step_def count_behavior_def split: if_splits)

lemma write_off_step_tables:
  assumes "write_off_step E t l to role by_admin D = Inr D'"
  shows "db_loans D' = db_loans D \<and> db_risk_evals D' = db_risk_evals D \<and> db_history D' = db_history D"
proof (cases "to = LS_DEFAULTED \<or> to = LS_WRITTEN_OFF")
  case True
  then have w: "applyWriteOff E t (l_id l) (l_out_principal l) (l_currency l) (l_id l @ '':'' @ status_name to)
      \<lparr>ta_id = by_admin, ta_role = Some role\<rparr> D = Inr D'"
    using assms by (simp add: write_off_step_def)
  then show ?thesis
  proof (cases rule: write_off_cases)
    case nothing
    then show ?thesis by simp
  next
    case (booked a w r)
    show ?thesis by (subst (1 2 3) post_entry_frame [OF booked(6)]) simp
  qed
qed (use assms in \<open>simp add: write_off_step_def\<close>)

text \<open>Everything a transition that goes through has passed, and what it leaves.\<close>

lemma transition_Inr:
  assumes "transition_tx E t i to role remark by_admin D = Inr D'"
  obtains l a ov D1 where "find (\<lambda>l. l_id l = i \<and> l_tenant l = t) (db_loans D) = Some l"
    "to \<in> set (getAllowedTransitions (l_status l))" "risk_step E t l to by_admin D = Inr ((a, ov), D1)"
    "enforceRiskGate to a (map lh_type (listActiveHolds t (l_id l) D1)) ov = Inr ()"
    "to = LS_APPROVED \<Longrightarrow> approval_step t l role D1 = Inr ()" "to = LS_REPAID \<Longrightarrow> repaid_step t l D1 = Inr ()"
    "roleCanTransition role (l_status l) to"
    "db_loans D' = update_where (\<lambda>m. l_id m = l_id l) (\<lambda>m. m\<lparr>l_status := to\<rparr>) (db_loans D1)"
    "db_risk_evals D' = db_risk_evals D1"
    "db_history D' = db_history D1 @ [\<lparr>hi_tenant = t, hi_loan = l_id l, hi_from = Some (l_status l),
       hi_to = to, hi_note = transition_note (l_status l) to a remark, hi_by = by_admin\<rparr>]"
proof -
  from assms obtain l a ov D1 D2 where l: "find (\<lambda>l. l_id l = i \<and> l_tenant l = t) (db_loans D) = Some l"
    and v: "assertValidTransition (l_status l) to = Inr ()"
    and r: "risk_step E t l to by_admin D = Inr ((a, ov), D1)"
    and g: "enforceRiskGate to a (map lh_type (listActiveHolds t (l_id l) D1)) ov = Inr ()"
    and ap: "(if to = LS_APPROVED then approval_step t l role D1 else Inr ()) = Inr ()"
    and rp: "(if to = LS_REPAID then repaid_step t l D1 else Inr ()) = Inr ()"
    and ro: "assertRoleCanTransition role (l_status l) to = Inr ()"
    and c: "count_step l to (record_transition t l to (transition_note (l_status l) to a remark) by_admin D1) = Inr D2"
    and w: "write_off_step E t l to role by_admin D2 = Inr D'"
    unfolding transition_tx_def by (auto simp: chain_eq_Inr split: option.splits)
  have tables: "db_loans D' = update_where (\<lambda>m. l_id m = l_id l) (\<lambda>m. m\<lparr>l_status := to\<rparr>) (db_loans D1)"
    "db_risk_evals D' = db_risk_evals D1"
    "db_history D' = db_history D1 @ [\<lparr>hi_tenant = t, hi_loan = l_id l, hi_from = Some (l_status l),
       hi_to = to, hi_note = transition_note (l_status l) to a remark, hi_by = by_admin\<rparr>]"
    using count_step_tables [OF c] write_off_step_tables [OF w] by (simp_all add: record_transition_def Let_def)
  show ?thesis
    by (rule that [OF l _ r g _ _ _ tables]) (use v ap rp ro in \<open>simp_all split: if_splits\<close>)
qed

lemma transitionStatus_Inr:
  assumes "transitionStatus E t i to role remark by_admin D = Inr D'"
  obtains D2 where "transition_tx E t i to role remark (trim_or_null by_admin) D = Inr D2"
    "db_loans D' = db_loans D2" "db_risk_evals D' = db_risk_evals D2" "db_history D' = db_history D2"
  using assms by (auto simp: transitionStatus_def chain_eq_Inr)

lemma risk_step_history:
  assumes "risk_step E t l to by_admin D = Inr ((a, ov), D1)"
  shows "db_history D1 = db_history D \<and> db_borrower_holds D1 = db_borrower_holds D \<and> db_alerts D1 = db_alerts D \<and>
    db_entries D1 = db_entries D \<and> db_accounts D1 = db_accounts D \<and> db_holds D1 = db_holds D"
proof -
  have "db_history D' = db_history D \<and> db_borrower_holds D' = db_borrower_holds D \<and> db_alerts D' = db_alerts D \<and>
    db_entries D' = db_entries D \<and> db_accounts D' = db_accounts D \<and> db_holds D' = db_holds D"
    if ev: "evaluateAndPersist E t k trigger b D = Inr (r, D')" for k trigger b r D'
  proof (rule evaluate_Inr [OF ev])
    fix pc D1 v
    assume en: "ensureActivePolicy E t D = Inr (pc, D1)"
      and D': "D' = persistAssessment t k (snd r) b (D1\<lparr>db_seq := Suc (db_seq D1), db_risk_evals := db_risk_evals D1 @ [v],
        db_loans := update_where (\<lambda>m. l_id m = k) (rated (snd r) v) (db_loans D1)\<rparr>)"
    show ?thesis
      using ensureActivePolicy_frame [OF en] by (simp add: D' persistAssessment_def Let_def)
  qed
  then show ?thesis
    using assms by (auto simp: risk_step_def Let_def chain_eq_Inr split: if_splits)
qed

section \<open>Applications stop under review\<close>

datatype app_call =
    Submit application_input
  | Transition string loan_status admin_role "string option" "string option"
  | Override string string string admin_role
  | Reevaluate string admin_role "string option"
  | AddHold string hold_type "string option" string
  | ResolveHold string "string option" string
  | NewPolicy admin_role string "risk_config option" "string option"
  | ActivatePolicy admin_role string

fun committed :: "db outcome \<Rightarrow> db \<Rightarrow> unit outcome \<times> db" where
  "committed (Inl e) D = (Inl e, D)"
| "committed (Inr D') D = (Inr (), D')"

text \<open>
  One request of the tenant \<open>t\<close> to this service or the risk service, at the time and with the ids of \<open>E\<close>. The
  requests of the decision orchestrator and of the fraud service are added in \<open>Decisions\<close>; the payout and
  payment services and the collections service have statuses of their own to set.
\<close>

fun exec_app :: "env \<times> string \<times> app_call \<Rightarrow> db \<Rightarrow> unit outcome \<times> db" where
  "exec_app (E, t, Submit x) D = committed (map_sum id snd (create_application E t x D)) D"
| "exec_app (E, t, Transition i to role remark by_admin) D =
     committed (transitionStatus E t i to role remark by_admin D) D"
| "exec_app (E, t, Override i remark ad role) D = overrideToPass E t i remark ad role D"
| "exec_app (E, t, Reevaluate i role ad) D = committed (map_sum id snd (runManualEvaluation E t role i ad D)) D"
| "exec_app (E, t, AddHold i type remark ad) D = committed (map_sum id snd (addHold E t i type remark ad D)) D"
| "exec_app (E, t, ResolveHold h remark ad) D = committed (map_sum id snd (resolveHold E t h remark ad D)) D"
| "exec_app (E, t, NewPolicy role name config ad) D = committed (map_sum id snd (createPolicy E t role name config ad D)) D"
| "exec_app (E, t, ActivatePolicy role p) D = committed (activatePolicy t role p D) D"

definition app_inv :: "string \<Rightarrow> db \<Rightarrow> bool" where
  "app_inv i D \<longleftrightarrow> loan_ids_ok D \<and>
     (status_of i D \<in> {Some LS_SUBMITTED, Some LS_REJECTED} \<or>
      status_of i D = Some LS_UNDER_REVIEW \<and> evaluated i D \<and>
      (\<forall>w \<in> set (db_risk_evals D). rv_loan w = i \<longrightarrow> \<not> hasOverrideReason (rk_reasons (rv_assessment w))))"

lemma status_found:
  assumes "loan_ids_ok D" "find (\<lambda>l. l_id l = i \<and> l_tenant l = t) (db_loans D) = Some l"
  shows "status_of i D = Some (l_status l)" "l_id l = i"
proof -
  have l: "l \<in> set (db_loans D)" "l_id l = i" using find_loanD [OF assms(2) [folded find_loan_def]] by simp_all
  then show "l_id l = i" by simp
  show "status_of i D = Some (l_status l)"
    using assms(1) l by (auto simp: status_of_def loan_ids_ok_def comp_def intro!: map_of_is_SomeI)
qed

lemma map_of_status:
  "map_of (map (\<lambda>l. (l_id l, l_status l)) (update_where (\<lambda>m. l_id m = k) (\<lambda>m. m\<lparr>l_status := to\<rparr>) ls)) i =
     (if k = i then map_option (\<lambda>_. to) (map_of (map (\<lambda>l. (l_id l, l_status l)) ls) i)
      else map_of (map (\<lambda>l. (l_id l, l_status l)) ls) i)"
  by (induction ls) (auto simp: update_where_def)

lemma app_inv_same:
  assumes "app_inv i D" "db_loans D' = db_loans D" "db_risk_evals D' = db_risk_evals D"
  shows "app_inv i D'"
  using assms by (simp add: app_inv_def loan_ids_ok_def status_of_def evaluated_def)

lemma app_inv_rates:
  assumes inv: "app_inv i D" and r: "rates k D D'"
  shows "app_inv i D'"
proof -
  have ids: "loan_ids_ok D'" using inv rates_ids [OF r] by (simp add: app_inv_def loan_ids_ok_def)
  have st: "status_of i D' = status_of i D" by (rule rates_status [OF r])
  consider (same) "db_risk_evals D' = db_risk_evals D"
    | (new) w where "rv_loan w = k" "\<not> evaluated k D" "db_risk_evals D' = db_risk_evals D @ [w]"
    using r unfolding rates_def by (elim conjE disjE exE)
  then show ?thesis
  proof cases
    case same
    with inv ids st show ?thesis by (simp add: app_inv_def evaluated_def)
  next
    case (new w)
    show ?thesis
    proof (cases "status_of i D = Some LS_UNDER_REVIEW")
      case True
      with inv have ev: "evaluated i D"
        and no: "\<forall>w \<in> set (db_risk_evals D). rv_loan w = i \<longrightarrow> \<not> hasOverrideReason (rk_reasons (rv_assessment w))"
        by (simp_all add: app_inv_def)
      with new have "k \<noteq> i" by auto
      with ids st True ev no new show ?thesis by (simp add: app_inv_def evaluated_def)
    next
      case False
      with inv ids st show ?thesis by (simp add: app_inv_def)
    qed
  qed
qed

lemma no_override_view:
  assumes "\<forall>w \<in> set (db_risk_evals D). rv_loan w = i \<longrightarrow> \<not> hasOverrideReason (rk_reasons (rv_assessment w))"
  shows "\<not> rw_override (getRiskSnapshot t i D)"
proof (cases "sort_key (\<lambda>v. - rv_created v) (filter (\<lambda>v. rv_tenant v = t \<and> rv_loan v = i) (db_risk_evals D))")
  case (Cons v vs)
  then have "v \<in> set (sort_key (\<lambda>v. - rv_created v) (filter (\<lambda>v. rv_tenant v = t \<and> rv_loan v = i) (db_risk_evals D)))"
    by simp
  then have "v \<in> set (db_risk_evals D) \<and> rv_loan v = i" by simp
  with assms Cons show ?thesis by (simp add: getRiskSnapshot_def)
qed (simp add: getRiskSnapshot_def)

text \<open>Under review with its one evaluation, an application goes nowhere.\<close>

lemma under_review_stuck:
  assumes inv: "app_inv i D" and st: "status_of i D = Some LS_UNDER_REVIEW"
  shows "transition_tx E t i to role remark by_admin D \<noteq> Inr D'"
proof
  assume "transition_tx E t i to role remark by_admin D = Inr D'"
  then obtain l a ov D1 where l: "find (\<lambda>l. l_id l = i \<and> l_tenant l = t) (db_loans D) = Some l"
    and r: "risk_step E t l to by_admin D = Inr ((a, ov), D1)"
    by (rule transition_Inr)
  have lf: "l_status l = LS_UNDER_REVIEW" "l_id l = i"
    using status_found [OF _ l] inv st by (auto simp: app_inv_def)
  have ev: "evaluated i D" and v: "\<not> rw_override (getRiskSnapshot t i D)"
    using inv st no_override_view by (auto simp: app_inv_def)
  obtain e where "evaluateAndPersist E t i SYSTEM_REEVAL by_admin D = Inl e"
    using evaluate_fails [OF ev] by blast
  with r lf v show False by (simp add: risk_step_def)
qed

lemma transition_keeps_app_inv:
  assumes inv: "app_inv i D" and tr: "transition_tx E t k to role remark by_admin D = Inr D'"
  shows "app_inv i D'"
proof (rule transition_Inr [OF tr])
  fix l a ov D1
  assume l: "find (\<lambda>l. l_id l = k \<and> l_tenant l = t) (db_loans D) = Some l"
    and to: "to \<in> set (getAllowedTransitions (l_status l))"
    and r: "risk_step E t l to by_admin D = Inr ((a, ov), D1)"
    and loans: "db_loans D' = update_where (\<lambda>m. l_id m = l_id l) (\<lambda>m. m\<lparr>l_status := to\<rparr>) (db_loans D1)"
    and evals: "db_risk_evals D' = db_risk_evals D1"
  have ids: "loan_ids_ok D" using inv by (simp add: app_inv_def)
  note lf = status_found [OF ids l]
  have inv1: "app_inv i D1" by (rule app_inv_rates [OF inv risk_step_rates [OF r]])
  have ids': "loan_ids_ok D'"
    using inv1 by (simp add: app_inv_def loan_ids_ok_def loans map_update_where)
  have st: "status_of i D' = (if k = i then map_option (\<lambda>_. to) (status_of i D1) else status_of i D1)"
    by (simp add: status_of_def loans map_of_status lf(2))
  show ?thesis
  proof (cases "k = i")
    case False
    with st ids' inv1 evals show ?thesis by (simp add: app_inv_def evaluated_def)
  next
    case True
    have "status_of i D \<noteq> Some LS_UNDER_REVIEW" using under_review_stuck [OF inv] tr True by blast
    with inv lf(1) True to have from_submitted: "l_status l = LS_SUBMITTED" "to = LS_UNDER_REVIEW \<or> to = LS_REJECTED"
      by (auto simp: app_inv_def)
    have st': "status_of i D' = Some to"
      using st True rates_status [OF risk_step_rates [OF r], of i] lf(1) by simp
    show ?thesis
    proof (cases "to = LS_REJECTED")
      case True
      with st' ids' show ?thesis by (simp add: app_inv_def)
    next
      case False
      with from_submitted have rev: "to = LS_UNDER_REVIEW" by simp
      with r from_submitted obtain r' where
        "evaluateAndPersist E t i AUTO_ON_SUBMISSION by_admin D = Inr (r', D1)"
        by (auto simp: risk_step_def Let_def chain_eq_Inr lf(2) True)
      from evaluate_adds [OF this] obtain w where w: "\<not> evaluated i D" "rv_loan w = i"
        "\<not> hasOverrideReason (rk_reasons (rv_assessment w))" "db_risk_evals D1 = db_risk_evals D @ [w]"
        by (elim conjE exE)
      then have "evaluated i D'" "\<forall>w \<in> set (db_risk_evals D'). rv_loan w = i \<longrightarrow> \<not> hasOverrideReason (rk_reasons (rv_assessment w))"
        by (auto simp: evaluated_def evals)
      with st' ids' rev show ?thesis by (simp add: app_inv_def)
    qed
  qed
qed

lemma committed_sum: "committed r D = (case r of Inl e \<Rightarrow> (Inl e, D) | Inr D' \<Rightarrow> (Inr (), D'))"
  by (cases r) simp_all

lemma create_keeps_app_inv:
  assumes inv: "app_inv i D" and cr: "create_application E t x D = Inr (k, D')"
  shows "app_inv i D'"
proof -
  from cr obtain t' where new: "find (\<lambda>l. l_id l = k) (db_loans D) = None"
    and D': "db_loans D' = db_loans D @ [new_loan t' x k]" "db_risk_evals D' = db_risk_evals D"
    by (auto simp: create_application_def chain_eq_Inr fresh_def Let_def count_behavior_def split: if_splits)
  have l: "l_id (new_loan t' x k) = k" by (simp add: new_loan_def)
  from new have k: "k \<notin> l_id ` set (db_loans D)" by (auto simp: find_None_iff)
  have "loan_ids_ok D'" using inv k by (simp add: app_inv_def loan_ids_ok_def D' l)
  moreover have "status_of i D \<noteq> None" using inv by (auto simp: app_inv_def)
  then have "status_of i D' = status_of i D"
    by (auto simp: status_of_def D' map_add_def split: option.splits)
  ultimately show ?thesis using inv by (simp add: app_inv_def evaluated_def D')
qed

lemma createPolicy_tables:
  assumes "createPolicy E t role name config ad D = Inr (p, D')"
  shows "db_loans D' = db_loans D" "db_risk_evals D' = db_risk_evals D"
  using assms
  by (auto simp: createPolicy_def create_policy_def fresh_def Let_def chain_eq_Inr simp del: filter.simps
      split: option.splits if_splits)

lemma call_keeps_app_inv:
  assumes inv: "app_inv i D"
  shows "app_inv i (snd (exec_app c D))"
proof -
  obtain E t c' where c: "c = (E, t, c')" by (cases c)
  show ?thesis
  proof (cases c')
    case (Submit x)
    show ?thesis
      using create_keeps_app_inv [OF inv] inv
      by (cases "create_application E t x D") (auto simp: c Submit)
  next
    case (Transition k to role remark ad)
    have "app_inv i D'" if "transitionStatus E t k to role remark ad D = Inr D'" for D'
    proof (rule transitionStatus_Inr [OF that])
      fix D2
      assume "transition_tx E t k to role remark (trim_or_null ad) D = Inr D2"
        and same: "db_loans D' = db_loans D2" "db_risk_evals D' = db_risk_evals D2"
      then have "app_inv i D2" by (rule_tac transition_keeps_app_inv [OF inv])
      then show ?thesis by (rule app_inv_same) (simp_all add: same)
    qed
    then show ?thesis
      using inv by (cases "transitionStatus E t k to role remark ad D") (simp_all add: c Transition)
  next
    case (Override k remark ad role)
    then show ?thesis using app_inv_rates [OF inv override_rates] by (simp add: c)
  next
    case (Reevaluate k role ad)
    have "app_inv i D'" if "runManualEvaluation E t role k ad D = Inr (r, D')" for r D'
      using that app_inv_rates [OF inv evaluate_rates [of E t k MANUAL_ADMIN ad D r D']]
      by (simp add: runManualEvaluation_def chain_eq_Inr)
    then show ?thesis
      using inv by (cases "runManualEvaluation E t role k ad D") (auto simp: c Reevaluate)
  next
    case (AddHold k type remark ad)
    then show ?thesis
      using inv by (auto simp: c committed_sum addHold_def fresh_def Let_def intro: app_inv_same [OF inv] split: option.splits)
  next
    case (ResolveHold h remark ad)
    then show ?thesis
      using inv by (auto simp: c committed_sum resolveHold_def Let_def intro: app_inv_same [OF inv] split: option.splits)
  next
    case (NewPolicy role name config ad)
    have "app_inv i D'" if "createPolicy E t role name config ad D = Inr (p, D')" for p D'
      using app_inv_same [OF inv createPolicy_tables [OF that]] .
    then show ?thesis
      using inv by (cases "createPolicy E t role name config ad D") (auto simp: c NewPolicy)
  next
    case (ActivatePolicy role p)
    then show ?thesis
      using inv by (auto simp: c committed_sum activatePolicy_def chain_eq_Inr
          intro: app_inv_same [OF inv] split: sum.splits option.splits)
  qed
qed

interpretation app_calls: invariant_calls exec_app "app_inv i" for i
  by unfold_locales (rule call_keeps_app_inv)

text \<open>The assessment a transition is judged by: that of the override in force, or a first evaluation.\<close>

lemma risk_step_Inr:
  assumes "risk_step E t l to by_admin D = Inr ((a, ov), D1)"
  shows "if ov then rw_override (getRiskSnapshot t (l_id l) D) \<and> a = rw_assessment (getRiskSnapshot t (l_id l) D)
    else \<not> evaluated (l_id l) D \<and>
      (\<exists>w. rv_loan w = l_id l \<and> rv_assessment w = a \<and> db_risk_evals D1 = db_risk_evals D @ [w])"
proof -
  have new: "(\<not> evaluated (l_id l) D \<and>
      (\<exists>w. rv_loan w = l_id l \<and> rv_assessment w = a \<and> db_risk_evals D1 = db_risk_evals D @ [w])) \<and>
      \<not> rw_override (getRiskSnapshot t (l_id l) D1)"
    if "evaluateAndPersist E t (l_id l) trigger b D = Inr ((v, a), D1)" for trigger b v
  proof -
    from evaluate_adds [OF that] obtain w where w: "\<not> evaluated (l_id l) D" "rv_loan w = l_id l"
      "\<not> hasOverrideReason (rk_reasons (rv_assessment w))" "rv_assessment w = a"
      "db_risk_evals D1 = db_risk_evals D @ [w]"
      unfolding snd_conv by (elim conjE exE)
    have "\<not> rw_override (getRiskSnapshot t (l_id l) D1)"
      by (rule no_override_view) (use w in \<open>auto simp: evaluated_def\<close>)
    with w show ?thesis by (intro conjI exI [of _ w])
  qed
  consider (first) "l_status l = LS_SUBMITTED \<and> to = LS_UNDER_REVIEW"
    | (again) "\<not> (l_status l = LS_SUBMITTED \<and> to = LS_UNDER_REVIEW)" "\<not> rw_override (getRiskSnapshot t (l_id l) D)"
    | (override) "\<not> (l_status l = LS_SUBMITTED \<and> to = LS_UNDER_REVIEW)" "rw_override (getRiskSnapshot t (l_id l) D)"
    by argo
  then show ?thesis
  proof cases
    case first
    with assms obtain v where "evaluateAndPersist E t (l_id l) AUTO_ON_SUBMISSION by_admin D = Inr ((v, a), D1)"
      "ov = rw_override (getRiskSnapshot t (l_id l) D1)"
      by (simp add: risk_step_def chain_eq_Inr split: prod.splits) (elim exE conjE, simp)
    with new [OF this(1)] show ?thesis by simp
  next
    case again
    with assms obtain v where "evaluateAndPersist E t (l_id l) SYSTEM_REEVAL by_admin D = Inr ((v, a), D1)" "\<not> ov"
      by (simp add: risk_step_def Let_def chain_eq_Inr split: prod.splits) (elim exE conjE, simp)
    with new [OF this(1)] show ?thesis by simp
  next
    case override
    with assms show ?thesis by (simp add: risk_step_def Let_def split: if_splits) blast
  qed
qed

lemma updated_status:
  assumes "m \<in> set (update_where (\<lambda>m. l_id m = k) (\<lambda>m. m\<lparr>l_status := to\<rparr>) ls)" "l_id m = k"
  shows "l_status m = to"
proof -
  from assms(1) obtain q where "m = (if l_id q = k then q\<lparr>l_status := to\<rparr> else q)"
    unfolding set_update_where by (elim bexE)
  with assms(2) show ?thesis by (cases "l_id q = k") simp_all
qed

lemma repaid_step_Inr: "repaid_step t l D = Inr () \<longleftrightarrow> snd (snd (snd (getBalances t (l_id l) D))) = 0"
  by (cases "getBalances t (l_id l) D") (simp add: repaid_step_def ensure_def)

lemma approval_step_Inr:
  "approval_step t l role D = Inr () \<longleftrightarrow> role = SUPER_ADMIN \<or>
     \<not> hasOpenAlertAtOrAbove t (l_id l) SEV_HIGH D \<and>
     find (\<lambda>h. bh_tenant h = t \<and> bh_borrower h = l_phone l \<and> bh_active h) (db_borrower_holds D) = None"
proof (cases "role = SUPER_ADMIN")
  case True
  then show ?thesis
    by (simp add: approval_step_def isApprovalBlockedByFraudAlert_def assertBorrowerNotRestricted_def ensure_def
        split: option.splits)
next
  case False
  then show ?thesis
    by (simp add: approval_step_def isApprovalBlockedByFraudAlert_def assertBorrowerNotRestricted_def ensure_def chain_eq_Inr
        split: option.splits)
qed

text \<open>
  By the requests of this service and of the risk service alone, in any order, an application that has been
  submitted is never approved: the first move under review stores its evaluation, of which
  there can be one only, every later move asks for a new evaluation or an override, and both fail.
  (The decision orchestrator of \<open>Decisions\<close> puts an application under review without an evaluation.)
\<close>

lemma applications_stop_under_review:
  assumes "distinct (map l_id (db_loans D))" "status_of i D = Some LS_SUBMITTED"
  shows "status_of i (run_all exec_app cs D) \<in> {Some LS_SUBMITTED, Some LS_UNDER_REVIEW, Some LS_REJECTED}"
  using app_calls.run_keeps [of i D cs] assms by (auto simp: app_inv_def loan_ids_ok_def)

text \<open>
  A transition that succeeds has passed every check of the service: the map, the role, the gate of
  the risk service with the holds of the loan, for an approval the restrictions of the borrower and the
  fraud alerts, for a repayment the balance of the ledger. It leaves the new status and one row of
  history. The assessment the gate saw is that of the override in force, or a first evaluation, stored by
  this very request.
\<close>

lemma transition_passes_checks:
  assumes "transitionStatus E t i to role remark by_admin D = Inr D'"
  shows "\<exists>l a ov. find (\<lambda>l. l_id l = i \<and> l_tenant l = t) (db_loans D) = Some l \<and>
    to \<in> set (getAllowedTransitions (l_status l)) \<and> roleCanTransition role (l_status l) to \<and>
    enforceRiskGate to a (map lh_type (listActiveHolds t i D)) ov = Inr () \<and>
    (if ov then rw_override (getRiskSnapshot t i D) \<and> a = rw_assessment (getRiskSnapshot t i D)
     else \<not> evaluated i D \<and> (\<exists>w. rv_loan w = i \<and> rv_assessment w = a \<and> db_risk_evals D' = db_risk_evals D @ [w])) \<and>
    (to = LS_APPROVED \<longrightarrow> role = SUPER_ADMIN \<or> \<not> hasOpenAlertAtOrAbove t i SEV_HIGH D \<and>
       find (\<lambda>h. bh_tenant h = t \<and> bh_borrower h = l_phone l \<and> bh_active h) (db_borrower_holds D) = None) \<and>
    (to = LS_REPAID \<longrightarrow> snd (snd (snd (getBalances t i D))) = 0) \<and>
    (\<forall>m \<in> set (db_loans D'). l_id m = i \<longrightarrow> l_status m = to) \<and>
    db_history D' = db_history D @ [\<lparr>hi_tenant = t, hi_loan = i, hi_from = Some (l_status l), hi_to = to,
      hi_note = transition_note (l_status l) to a remark, hi_by = trim_or_null by_admin\<rparr>]"
proof (rule transitionStatus_Inr [OF assms])
  fix D2
  assume tx: "transition_tx E t i to role remark (trim_or_null by_admin) D = Inr D2"
    and D': "db_loans D' = db_loans D2" "db_risk_evals D' = db_risk_evals D2" "db_history D' = db_history D2"
  show ?thesis
  proof (rule transition_Inr [OF tx])
    fix l a ov D1
    assume l: "find (\<lambda>l. l_id l = i \<and> l_tenant l = t) (db_loans D) = Some l"
      and map: "to \<in> set (getAllowedTransitions (l_status l))"
      and r: "risk_step E t l to (trim_or_null by_admin) D = Inr ((a, ov), D1)"
      and g: "enforceRiskGate to a (map lh_type (listActiveHolds t (l_id l) D1)) ov = Inr ()"
      and ap: "to = LS_APPROVED \<Longrightarrow> approval_step t l role D1 = Inr ()"
      and rp: "to = LS_REPAID \<Longrightarrow> repaid_step t l D1 = Inr ()"
      and ro: "roleCanTransition role (l_status l) to"
      and loans: "db_loans D2 = update_where (\<lambda>m. l_id m = l_id l) (\<lambda>m. m\<lparr>l_status := to\<rparr>) (db_loans D1)"
      and evals: "db_risk_evals D2 = db_risk_evals D1"
      and hist: "db_history D2 = db_history D1 @ [\<lparr>hi_tenant = t, hi_loan = l_id l, hi_from = Some (l_status l),
        hi_to = to, hi_note = transition_note (l_status l) to a remark, hi_by = trim_or_null by_admin\<rparr>]"
    have li: "l_id l = i" using find_SomeD [OF l] by simp
    note same = risk_step_history [OF r]
    have holds: "listActiveHolds t i D1 = listActiveHolds t i D" by (simp add: listActiveHolds_def same)
    have ap': "role = SUPER_ADMIN \<or> \<not> hasOpenAlertAtOrAbove t i SEV_HIGH D \<and>
       find (\<lambda>h. bh_tenant h = t \<and> bh_borrower h = l_phone l \<and> bh_active h) (db_borrower_holds D) = None"
      if "to = LS_APPROVED"
      using ap [OF that] approval_step_Inr [of t l role D1]
      by (simp only: li same hasOpenAlertAtOrAbove_def)
    have bal: "getBalances t i D1 = getBalances t i D" by (simp only: getBalances_def loan_lines_def same)
    have rp': "snd (snd (snd (getBalances t i D))) = 0" if "to = LS_REPAID"
      using rp [OF that] repaid_step_Inr [of t l D1] by (simp only: li bal)
    have st: "\<forall>m \<in> set (db_loans D'). l_id m = i \<longrightarrow> l_status m = to"
      using updated_status by (simp only: D' loans li) blast
    have g': "enforceRiskGate to a (map lh_type (listActiveHolds t i D)) ov = Inr ()"
      using g by (simp only: li holds)
    have judged: "if ov then rw_override (getRiskSnapshot t i D) \<and> a = rw_assessment (getRiskSnapshot t i D)
      else \<not> evaluated i D \<and> (\<exists>w. rv_loan w = i \<and> rv_assessment w = a \<and> db_risk_evals D' = db_risk_evals D @ [w])"
      using risk_step_Inr [OF r] by (simp only: li D' evals)
    have hist': "db_history D' = db_history D @ [\<lparr>hi_tenant = t, hi_loan = i, hi_from = Some (l_status l), hi_to = to,
        hi_note = transition_note (l_status l) to a remark, hi_by = trim_or_null by_admin\<rparr>]"
      by (simp add: D' hist same li)
    show ?thesis
      by (rule exI [of _ l], rule exI [of _ a], rule exI [of _ ov])
        (intro conjI impI, (rule l map ro g' judged)+, erule ap', erule rp', rule st, rule hist')
  qed
qed

text \<open>
  A submitted application whose first evaluation succeeds is put under review by a credit officer
  or a super admin exactly when the evaluation does not decline it: the note that would keep a declined
  application under review is never written.
\<close>

lemma review_admits_unless_declined:
  assumes "find (\<lambda>l. l_id l = i \<and> l_tenant l = t) (db_loans D) = Some l" "l_status l = LS_SUBMITTED"
    and "role \<in> {CREDIT_OFFICER, SUPER_ADMIN}"
    and "evaluateAndPersist E t i AUTO_ON_SUBMISSION (trim_or_null by_admin) D = Inr ((v, a), D1)"
  shows "(\<exists>D'. transitionStatus E t i LS_UNDER_REVIEW role remark by_admin D = Inr D') \<longleftrightarrow> rk_decision a \<noteq> RD_DECLINE"
proof -
  have li: "l_id l = i" "l_tenant l = t" using find_SomeD [OF assms(1)] by simp_all
  from evaluate_adds [OF assms(4)] obtain w where w: "\<not> evaluated i D" "rv_loan w = i"
    "\<not> hasOverrideReason (rk_reasons (rv_assessment w))" "db_risk_evals D1 = db_risk_evals D @ [w]"
    by (elim conjE exE)
  then have "\<not> rw_override (getRiskSnapshot t i D1)" by (intro no_override_view) (auto simp: evaluated_def)
  then have r: "risk_step E t l LS_UNDER_REVIEW (trim_or_null by_admin) D = Inr ((a, False), D1)"
    by (simp add: risk_step_def li assms(2,4))
  have g: "enforceRiskGate LS_UNDER_REVIEW a hs False = Inr () \<longleftrightarrow> rk_decision a \<noteq> RD_DECLINE" for hs
    by (simp add: enforceRiskGate_def sensitive_gates_def hold_blocked_def)
  have m: "LS_UNDER_REVIEW \<in> set (getAllowedTransitions (l_status l))" "roleCanTransition role (l_status l) LS_UNDER_REVIEW"
    using assms(2,3) by (auto simp: roleCanTransition_def)
  from evaluate_Inr [OF assms(4)] obtain pc D0 where "ensureActivePolicy E t D = Inr (pc, D0)" by metis
  then have t: "t \<noteq> ''''" by (auto simp: ensureActivePolicy_def requireTenantId_def)
  show ?thesis
  proof (cases "enforceRiskGate LS_UNDER_REVIEW a (map lh_type (listActiveHolds t (l_id l) D1)) False")
    case (Inl e)
    with g [of "map lh_type (listActiveHolds t (l_id l) D1)"] have "rk_decision a = RD_DECLINE" by auto
    moreover have "\<not> (\<exists>D'. transitionStatus E t i LS_UNDER_REVIEW role remark by_admin D = Inr D')"
      by (simp add: transitionStatus_def transition_tx_def assms(1) chain_eq_Inr r Inl m)
    ultimately show ?thesis by simp
  next
    case (Inr u)
    with g [of "map lh_type (listActiveHolds t (l_id l) D1)"] have "rk_decision a \<noteq> RD_DECLINE" by simp
    moreover have "\<exists>D'. transitionStatus E t i LS_UNDER_REVIEW role remark by_admin D = Inr D'"
      by (simp add: transitionStatus_def transition_tx_def assms(1) li t assertTenantMatch_def r Inr [unfolded li] m count_step_def
          write_off_step_def assertValidTransition_def assertRoleCanTransition_def ensure_def)
    ultimately show ?thesis by simp
  qed
qed

section \<open>Witnesses\<close>

definition review_db :: db where
  "review_db = loan_db\<lparr>db_loans := [sample_loan\<lparr>l_status := LS_SUBMITTED\<rparr>]\<rparr>"

lemma review_db_loan:
  "find (\<lambda>l. l_id l = ''loan'' \<and> l_tenant l = ''ten'') (db_loans review_db) = Some (sample_loan\<lparr>l_status := LS_SUBMITTED\<rparr>)"
  by (simp add: review_db_def sample_loan_def)

lemma applications_stop_under_review_witness:
  "status_of ''loan'' (run_all exec_app [(sample_env, ''ten'', Transition ''loan'' LS_UNDER_REVIEW CREDIT_OFFICER None None),
      (sample_env, ''ten'', Transition ''loan'' LS_APPROVED SUPER_ADMIN None None)] review_db) \<noteq> Some LS_APPROVED"
  using applications_stop_under_review [of review_db "''loan''" "[(sample_env, ''ten'', Transition ''loan'' LS_UNDER_REVIEW CREDIT_OFFICER None None),
      (sample_env, ''ten'', Transition ''loan'' LS_APPROVED SUPER_ADMIN None None)]"]
  by (auto simp: review_db_def sample_loan_def status_of_def)

lemma review_evaluates:
  obtains v a D1 where "evaluateAndPersist sample_env ''ten'' ''loan'' trigger b review_db = Inr ((v, a), D1)"
proof -
  have "\<exists>pc D1. ensureActivePolicy sample_env ''ten'' review_db = Inr (pc, D1)"
    by (simp add: ensureActivePolicy_def sample_tenant active_policies_def create_policy_def review_db_def loan_db_def
        empty_db_def fresh_def)
  then obtain p c D1 where "ensureActivePolicy sample_env ''ten'' review_db = Inr ((p, c), D1)"
    by (elim exE) (rename_tac pc D1, case_tac pc, simp)
  moreover have "\<not> evaluated ''loan'' review_db" by (simp add: evaluated_def review_db_def loan_db_def empty_db_def)
  ultimately have "\<exists>r D'. evaluateAndPersist sample_env ''ten'' ''loan'' trigger b review_db = Inr (r, D')"
    using first_evaluation_succeeds [OF sample_tenant review_db_loan [folded find_loan_def], of sample_env] by blast
  then show ?thesis using that by (elim exE) (rename_tac r D', case_tac r, simp)
qed

lemma review_rejects: "\<exists>D'. transitionStatus sample_env ''ten'' ''loan'' LS_REJECTED CREDIT_OFFICER None None review_db = Inr D'"
proof -
  let ?l = "sample_loan\<lparr>l_status := LS_SUBMITTED\<rparr>"
  have l: "l_id ?l = ''loan''" "l_tenant ?l = ''ten''" "l_status ?l = LS_SUBMITTED" "l_phone ?l = ''080''"
    by (simp_all add: sample_loan_def)
  obtain v a D1 where ev: "evaluateAndPersist sample_env ''ten'' ''loan'' SYSTEM_REEVAL None review_db = Inr ((v, a), D1)"
    by (rule review_evaluates)
  have "\<not> rw_override (getRiskSnapshot ''ten'' ''loan'' review_db)"
    by (simp add: getRiskSnapshot_def review_db_def loan_db_def empty_db_def)
  then have r: "risk_step sample_env ''ten'' ?l LS_REJECTED None review_db = Inr ((a, False), D1)"
    by (simp add: risk_step_def l ev)
  have p: "trim ''080'' \<noteq> ''''" "trim_or_null None = None" by code_simp+
  have "\<exists>D'. transition_tx sample_env ''ten'' ''loan'' LS_REJECTED CREDIT_OFFICER None None review_db = Inr D'"
    unfolding transition_tx_def review_db_loan option.case l
    by (simp add: assertTenantMatch_def assertValidTransition_def assertRoleCanTransition_def roleCanTransition_def
        l r p enforceRiskGate_def sensitive_gates_def count_step_def count_behavior_def write_off_step_def ensure_def)
  then show ?thesis by (elim exE) (simp add: transitionStatus_def p)
qed

lemma transition_passes_checks_witness:
  "\<exists>D' (l :: loan) a ov. transitionStatus sample_env ''ten'' ''loan'' LS_REJECTED CREDIT_OFFICER None None review_db = Inr D' \<and>
    LS_REJECTED \<in> set (getAllowedTransitions (l_status l)) \<and>
    enforceRiskGate LS_REJECTED a (map lh_type (listActiveHolds ''ten'' ''loan'' review_db)) ov = Inr ()"
proof -
  obtain D' where tr: "transitionStatus sample_env ''ten'' ''loan'' LS_REJECTED CREDIT_OFFICER None None review_db = Inr D'"
    using review_rejects by (elim exE)
  from transition_passes_checks [OF tr] show ?thesis
  proof (elim exE conjE)
    fix l :: loan and a ov
    assume x: "LS_REJECTED \<in> set (getAllowedTransitions (l_status l))"
      "enforceRiskGate LS_REJECTED a (map lh_type (listActiveHolds ''ten'' ''loan'' review_db)) ov = Inr ()"
    show ?thesis
      by (rule exI [of _ D'], rule exI [of _ l], rule exI [of _ a], rule exI [of _ ov]) (intro conjI tr x)
  qed
qed

lemma review_admits_unless_declined_witness:
  "\<exists>v a D1. evaluateAndPersist sample_env ''ten'' ''loan'' AUTO_ON_SUBMISSION None review_db = Inr ((v, a), D1) \<and>
    ((\<exists>D'. transitionStatus sample_env ''ten'' ''loan'' LS_UNDER_REVIEW CREDIT_OFFICER None None review_db = Inr D') \<longleftrightarrow>
       rk_decision a \<noteq> RD_DECLINE)"
proof -
  obtain v a D1 where ev: "evaluateAndPersist sample_env ''ten'' ''loan'' AUTO_ON_SUBMISSION None review_db = Inr ((v, a), D1)"
    by (rule review_evaluates)
  have n: "trim_or_null None = None" by code_simp
  have "(\<exists>D'. transitionStatus sample_env ''ten'' ''loan'' LS_UNDER_REVIEW CREDIT_OFFICER None None review_db = Inr D') \<longleftrightarrow>
       rk_decision a \<noteq> RD_DECLINE"
    by (rule review_admits_unless_declined [OF review_db_loan]) (simp_all add: n ev)
  with ev show ?thesis by (intro exI conjI)
qed

end
