(* ===== verification/Disbursement.thy ===== *)
theory Disbursement
  imports LoanApplications CollectionsScan Repayment
begin

text \<open>
  Disbursement, \<open>modules/admin-loan-applications/admin-loan-applications.service.ts\<close>: making an
  approved loan ready, paying it out under an idempotency key, retrying a payment that failed and
  reversing one that succeeded. The provider is the mock of the code; whether its environment variable
  makes it fail is a parameter. The details the operations return are reads and left out, as are the
  lists and the queue of the same service.
\<close>

section \<open>Data\<close>

record disburse_input =
  dn_method :: "disbursement_method option"
  dn_key :: "string option"
  dn_note :: "string option"
  dn_force_fail :: "bool option"

fun method_name :: "disbursement_method \<Rightarrow> string" where
  "method_name DM_BANK_TRANSFER = ''BANK_TRANSFER''"
| "method_name DM_WALLET = ''WALLET''"
| "method_name DM_CASH = ''CASH''"
| "method_name DM_MANUAL = ''MANUAL''"

definition assertOpsOrSuperAdmin :: "admin_role \<Rightarrow> unit outcome" where
  "assertOpsOrSuperAdmin role = ensure (role \<in> {OPS, SUPER_ADMIN, SYSTEM})
     (Forbidden ''Only OPS or SUPER_ADMIN can perform disbursement operations.'')"

definition writeDisbursementHistory ::
  "string \<Rightarrow> string \<Rightarrow> string \<Rightarrow> disbursement_status option \<Rightarrow> disbursement_status \<Rightarrow> string option \<Rightarrow>
     string option \<Rightarrow> db \<Rightarrow> db" where
  "writeDisbursementHistory t loan disb from_status to_status remark actor_id D =
     D\<lparr>db_disb_history := db_disb_history D @
        [\<lparr>dh_tenant = t, dh_loan = loan, dh_disbursement = disb, dh_from = from_status, dh_to = to_status,
          dh_note = trim_or_null remark, dh_by = trim_or_null actor_id\<rparr>]\<rparr>"

definition set_disbursement :: "string \<Rightarrow> (disbursement \<Rightarrow> disbursement) \<Rightarrow> db \<Rightarrow> db" where
  "set_disbursement i f D = D\<lparr>db_disbursements := update_where (\<lambda>d. di_id d = i) f (db_disbursements D)\<rparr>"

definition set_loan_status :: "string \<Rightarrow> loan_status \<Rightarrow> db \<Rightarrow> db" where
  "set_loan_status i s D = D\<lparr>db_loans := update_where (\<lambda>m. l_id m = i) (\<lambda>m. m\<lparr>l_status := s\<rparr>) (db_loans D)\<rparr>"

definition default_key :: "string \<Rightarrow> string" where
  "default_key loan = ''loan:'' @ loan @ '':disburse:v1''"

definition loan_amount :: "loan \<Rightarrow> decimal" where
  "loan_amount l = (case l_approved l of Some a \<Rightarrow> a | None \<Rightarrow> l_requested l)"

definition notified :: "admin_role list" where
  "notified = [CREDIT_OFFICER, OPS, SUPER_ADMIN]"

text \<open>A new row, with the constraints on loan and on tenant and key.\<close>

definition create_disbursement ::
  "env \<Rightarrow> principal \<Rightarrow> loan \<Rightarrow> string \<Rightarrow> disbursement_method \<Rightarrow> db \<Rightarrow> (disbursement \<times> db) outcome" where
  "create_disbursement E P l key method D =
     (if find (\<lambda>d. di_loan d = l_id l \<or> di_tenant d = pc_tenant P \<and> di_key d = key) (db_disbursements D) \<noteq> None
      then Inl (Internal ''Unique constraint failed'')
      else case fresh E D of (i, D1) \<Rightarrow>
        let d = \<lparr>di_id = i, di_tenant = pc_tenant P, di_loan = l_id l, di_key = key, di_amount = loan_amount l,
              di_currency = l_currency l, di_method = method, di_status = D_PENDING, di_provider = None,
              di_reference = None, di_initiated_by = Some (pc_admin P), di_processed_at = None, di_failure = None,
              di_disbursed_at = None\<rparr>
        in Inr (d, D1\<lparr>db_disbursements := db_disbursements D1 @ [d]\<rparr>))"

section \<open>Ready for disbursement\<close>

definition stored_gate :: "string \<Rightarrow> string \<Rightarrow> loan_status \<Rightarrow> db \<Rightarrow> unit outcome" where
  "stored_gate t i toStatus D =
     (let v = getRiskSnapshot t i D
      in enforceRiskGate toStatus (rw_assessment v) (map lh_type (listActiveHolds t i D)) (rw_override v))"

text \<open>The row of the payment, unless the loan has one.\<close>

definition first_disbursement :: "env \<Rightarrow> principal \<Rightarrow> loan \<Rightarrow> db \<Rightarrow> db outcome" where
  "first_disbursement E P l D =
     (case find (\<lambda>d. di_tenant d = pc_tenant P \<and> di_loan d = l_id l) (db_disbursements D) of
        Some _ \<Rightarrow> Inr D
      | None \<Rightarrow>
          chain (create_disbursement E P l (default_key (l_id l)) DM_BANK_TRANSFER D) (\<lambda>(d, D1).
            Inr (writeDisbursementHistory (pc_tenant P) (l_id l) (di_id d) None D_PENDING
              (Some ''Disbursement record created.'') (Some (pc_admin P)) D1)))"

definition ready_tx :: "env \<Rightarrow> principal \<Rightarrow> string \<Rightarrow> db \<Rightarrow> db outcome" where
  "ready_tx E P i D =
     (case find (\<lambda>l. l_id l = i \<and> l_tenant l = pc_tenant P) (db_loans D) of
        None \<Rightarrow> Inl (BadRequest ''Loan application not found.'')
      | Some l \<Rightarrow>
          chain (assertTenantMatch (l_tenant l) (pc_tenant P)) (\<lambda>_.
          if l_status l \<noteq> LS_APPROVED
          then Inl (BadRequest ''Only APPROVED loans can be marked ready for disbursement.'')
          else
          chain (assertValidTransition (l_status l) LS_READY_FOR_DISBURSEMENT) (\<lambda>_.
          chain (assertRoleCanTransition (pc_role P) (l_status l) LS_READY_FOR_DISBURSEMENT) (\<lambda>_.
          chain (stored_gate (pc_tenant P) (l_id l) LS_READY_FOR_DISBURSEMENT D) (\<lambda>_.
            let D1 = set_loan_status (l_id l) LS_READY_FOR_DISBURSEMENT D;
                D2 = D1\<lparr>db_history := db_history D1 @ [\<lparr>hi_tenant = pc_tenant P, hi_loan = l_id l,
                  hi_from = Some (l_status l), hi_to = LS_READY_FOR_DISBURSEMENT,
                  hi_note = Some ''Marked ready for disbursement.'', hi_by = Some (pc_admin P)\<rparr>]\<rparr>;
                D3 = emit (StatusChanged (l_id l) (l_status l) LS_READY_FOR_DISBURSEMENT
                  (admins_with (pc_tenant P) notified D2)) D2
            in first_disbursement E P l D3)))))"

definition markReadyForDisbursement :: "env \<Rightarrow> principal \<Rightarrow> string \<Rightarrow> db \<Rightarrow> db outcome" where
  "markReadyForDisbursement E P i D =
     chain (ensure (pc_role P = CREDIT_OFFICER \<or> pc_role P = SUPER_ADMIN)
       (Forbidden ''Only CREDIT_OFFICER or SUPER_ADMIN can mark ready for disbursement.'')) (\<lambda>_.
     chain (ready_tx E P i D) (\<lambda>D1. Inr (emit (AuditEvent ''DISBURSEMENT.INITIATE'' ''TENANT_DISBURSEMENT'' i) D1)))"

section \<open>Paying out\<close>

definition shouldFailProvider :: "bool \<Rightarrow> bool option \<Rightarrow> bool" where
  "shouldFailProvider provider_down forceFail \<longleftrightarrow> forceFail = Some True \<or> provider_down"

definition mockProviderReference :: "env \<Rightarrow> string \<Rightarrow> string" where
  "mockProviderReference E i = ''mock_'' @ i @ ''_'' @ nat_text (nat (ev_now E))"

text \<open>The loan must be ready and nobody may object.\<close>

definition disburse_guards :: "principal \<Rightarrow> string \<Rightarrow> db \<Rightarrow> loan outcome" where
  "disburse_guards P i D =
     (case find (\<lambda>l. l_id l = i \<and> l_tenant l = pc_tenant P) (db_loans D) of
        None \<Rightarrow> Inl (BadRequest ''Loan application not found.'')
      | Some l \<Rightarrow>
          if l_status l \<noteq> LS_READY_FOR_DISBURSEMENT
          then Inl (BadRequest ''Loan must be READY_FOR_DISBURSEMENT before disbursing.'')
          else
          chain (assertBorrowerNotRestricted (pc_tenant P) (l_phone l) (Some (pc_role P)) D) (\<lambda>_.
          chain (stored_gate (pc_tenant P) (l_id l) LS_DISBURSED D) (\<lambda>_.
          chain (ensure (\<not> hasOpenAlertAtOrAbove (pc_tenant P) (l_id l) SEV_CRITICAL D)
            (Conflict ''Disbursement blocked by open CRITICAL fraud alert.'')) (\<lambda>_. Inr l))))"

text \<open>The row that has the key, or else the row of the loan, which then takes key and method.\<close>

definition take_disbursement ::
  "env \<Rightarrow> principal \<Rightarrow> loan \<Rightarrow> string \<Rightarrow> disbursement_method \<Rightarrow> disbursement option \<Rightarrow> db \<Rightarrow>
     (disbursement \<times> db) outcome" where
  "take_disbursement E P l key method duplicate D =
     (case duplicate of
        Some d \<Rightarrow> Inr (d, D)
      | None \<Rightarrow>
          (case find (\<lambda>d. di_loan d = l_id l) (db_disbursements D) of
             Some d \<Rightarrow> Inr (d\<lparr>di_key := key, di_method := method\<rparr>,
               set_disbursement (di_id d) (\<lambda>d. d\<lparr>di_key := key, di_method := method\<rparr>) D)
           | None \<Rightarrow> create_disbursement E P l key method D))"

definition start_processing :: "principal \<Rightarrow> loan \<Rightarrow> disbursement \<Rightarrow> string option \<Rightarrow> db \<Rightarrow> db" where
  "start_processing P l d remark D =
     writeDisbursementHistory (pc_tenant P) (l_id l) (di_id d) (Some (di_status d)) D_PROCESSING
       (Some (case remark of Some n \<Rightarrow> n | None \<Rightarrow> ''Disbursement moved to processing.'')) (Some (pc_admin P))
       (set_disbursement (di_id d) (\<lambda>d. d\<lparr>di_status := D_PROCESSING, di_failure := None\<rparr>) D)"

definition record_failure :: "env \<Rightarrow> principal \<Rightarrow> loan \<Rightarrow> disbursement \<Rightarrow> db \<Rightarrow> db" where
  "record_failure E P l d D =
     writeDisbursementHistory (pc_tenant P) (l_id l) (di_id d) (Some D_PROCESSING) D_FAILED
       (Some ''Provider reported failure.'') (Some (pc_admin P))
       (set_disbursement (di_id d) (\<lambda>d. d\<lparr>di_status := D_FAILED, di_failure := Some ''Mock provider failure'',
          di_processed_at := Some (ev_now E)\<rparr>) D)"

definition bank_account :: "disbursement_method \<Rightarrow> account_code" where
  "bank_account m = (if m = DM_MANUAL \<or> m = DM_CASH then CASH_ON_HAND else BANK_CLEARING)"

definition payout_entry :: "env \<Rightarrow> principal \<Rightarrow> loan \<Rightarrow> disbursement \<Rightarrow> disbursement_method \<Rightarrow> entry_input" where
  "payout_entry E P l d method =
     \<lparr>ei_tenant = pc_tenant P, ei_occurred = ev_now E, ei_type = E_DISBURSEMENT, ei_key = di_key d,
      ei_ref_type = ''LoanApplication'', ei_ref_id = l_id l, ei_currency = Some (l_currency l),
      ei_created_by = Some (pc_admin P), ei_role = Some (pc_role P), ei_memo = Some (''Loan disbursement '' @ l_id l),
      ei_lines = [\<lparr>li_code = LOAN_PRINCIPAL_RECEIVABLE, li_direction = DEBIT, li_amount = loan_amount l\<rparr>,
                  \<lparr>li_code = bank_account method, li_direction = CREDIT, li_amount = loan_amount l\<rparr>]\<rparr>"

definition record_success ::
  "env \<Rightarrow> principal \<Rightarrow> loan \<Rightarrow> disbursement \<Rightarrow> disbursement_method \<Rightarrow> string option \<Rightarrow> db \<Rightarrow> db" where
  "record_success E P l d method remark D =
     writeDisbursementHistory (pc_tenant P) (l_id l) (di_id d) (Some D_PROCESSING) D_SUCCESS
       (Some (case remark of Some n \<Rightarrow> n | None \<Rightarrow> ''Disbursement succeeded.'')) (Some (pc_admin P))
       (set_disbursement (di_id d) (\<lambda>d. d\<lparr>di_method := method, di_status := D_SUCCESS,
          di_provider := Some (if method = DM_MANUAL then ''MANUAL'' else ''MOCK_PROVIDER''),
          di_reference := Some (mockProviderReference E (di_id d)), di_processed_at := Some (ev_now E),
          di_disbursed_at := Some (ev_now E), di_failure := None\<rparr>) D)"

text \<open>The status of the loan and its history.\<close>

definition mark_disbursed :: "env \<Rightarrow> texts \<Rightarrow> principal \<Rightarrow> loan \<Rightarrow> db \<Rightarrow> db" where
  "mark_disbursed E T P l D =
     emit (AuditTransition (l_id l) (l_status l) LS_DISBURSED)
       (D\<lparr>db_loans := update_where (\<lambda>m. l_id m = l_id l)
            (\<lambda>m. m\<lparr>l_status := LS_DISBURSED, l_disbursed_amount := Some (loan_amount l), l_disbursed_at := Some (ev_now E)\<rparr>)
            (db_loans D),
          db_history := db_history D @ [\<lparr>hi_tenant = pc_tenant P, hi_loan = l_id l, hi_from = Some (l_status l),
            hi_to = LS_DISBURSED, hi_note = Some (''Disbursed '' @ tx_decimal T (loan_amount l) @ '' '' @ l_currency l),
            hi_by = Some (pc_admin P)\<rparr>]\<rparr>)"

definition paid_out :: "string \<Rightarrow> string \<Rightarrow> db \<Rightarrow> nat" where
  "paid_out t loan D =
     length (filter (\<lambda>d. di_tenant d = t \<and> di_loan d = loan \<and> di_status d = D_SUCCESS) (db_disbursements D))"

text \<open>
  The messages after a payment. \<open>d\<close> is the row as it was taken, so its status is the one before the
  payment.
\<close>

definition announce :: "principal \<Rightarrow> loan \<Rightarrow> disbursement \<Rightarrow> db \<Rightarrow> db outcome" where
  "announce P l d D =
     (let D1 = emit (Audit (if di_status d = D_FAILED then ''DISBURSEMENT.FAILED'' else ''DISBURSEMENT.COMPLETE'')
            ''TENANT_DISBURSEMENT'' (di_id d)) D;
          D2 = (if di_status d = D_SUCCESS
                then emit (OutboxEvent ''disbursement.completed'' (l_id l) (loan_amount l)) D1 else D1);
          D3 = emit (LoanDisbursed (di_id d) (l_id l) (loan_amount l) (admins_with (pc_tenant P) notified D2)) D2
      in if trim (l_phone l) = ''''
         then Inl (BadRequest ''borrowerId is required for behavior snapshot update.'')
         else Inr (emit (BehaviorDisbursed (trim (l_phone l)) (loan_amount l)) D3))"

text \<open>From the ledger entry to the messages.\<close>

definition pay_out ::
  "env \<Rightarrow> decimal_ops \<Rightarrow> texts \<Rightarrow> principal \<Rightarrow> loan \<Rightarrow> disbursement \<Rightarrow> disbursement_method \<Rightarrow> string option \<Rightarrow>
     db \<Rightarrow> db outcome" where
  "pay_out E R T P l d method remark D =
     chain (post_entry E (payout_entry E P l d method) D) (\<lambda>(_, D1).
     chain (deployToLoan E R (pc_tenant P) (l_id l) (loan_amount l) (l_currency l) (di_id d)
              \<lparr>ta_id = Some (pc_admin P), ta_role = Some (pc_role P)\<rparr> D1) (\<lambda>(_, D2).
     let D3 = record_success E P l d method remark D2
     in chain (assertValidTransition (l_status l) LS_DISBURSED) (\<lambda>_.
        chain (assertRoleCanTransition (pc_role P) (l_status l) LS_DISBURSED) (\<lambda>_.
        let D4 = mark_disbursed E T P l D3
        in chain (assertNoDuplicateDisbursement (paid_out (pc_tenant P) (l_id l) D4)) (\<lambda>_.
           chain (assertLoanNonNegative (l_out_principal l) (l_out_interest l) (l_out_fees l) (l_out_total l)) (\<lambda>_.
           chain (assertLoanCanClose LS_DISBURSED (l_out_total l)) (\<lambda>_. announce P l d D4)))))))"

type_synonym disburse_result = "string \<times> disbursement_status"

definition disburse_new ::
  "env \<Rightarrow> decimal_ops \<Rightarrow> texts \<Rightarrow> bool \<Rightarrow> principal \<Rightarrow> loan \<Rightarrow> disburse_input \<Rightarrow> string \<Rightarrow>
     disbursement_method \<Rightarrow> disbursement option \<Rightarrow> db \<Rightarrow> (disburse_result \<times> db) outcome" where
  "disburse_new E R T provider_down P l x key method duplicate D =
     chain (take_disbursement E P l key method duplicate D) (\<lambda>(d, D1).
       let D2 = start_processing P l d (dn_note x) D1
       in if shouldFailProvider provider_down (dn_force_fail x)
          then Inr ((di_id d, D_FAILED), record_failure E P l d D2)
          else chain (pay_out E R T P l d method (dn_note x) D2) (\<lambda>D3. Inr ((di_id d, D_SUCCESS), D3)))"

definition disburse_tx ::
  "env \<Rightarrow> decimal_ops \<Rightarrow> texts \<Rightarrow> bool \<Rightarrow> principal \<Rightarrow> string \<Rightarrow> disburse_input \<Rightarrow> string \<Rightarrow> db \<Rightarrow>
     (disburse_result \<times> db) outcome" where
  "disburse_tx E R T provider_down P i x key D =
     chain (disburse_guards P i D) (\<lambda>l.
       let method = (case dn_method x of Some m \<Rightarrow> m | None \<Rightarrow> DM_BANK_TRANSFER);
           duplicate = find (\<lambda>d. di_tenant d = pc_tenant P \<and> di_key d = key) (db_disbursements D)
       in case duplicate of
            Some d \<Rightarrow>
              if di_loan d \<noteq> l_id l then Inl (Conflict ''idempotencyKey already used for another disbursement.'')
              else if di_status d = D_SUCCESS
              then if dn_method x \<noteq> None \<and> di_method d \<noteq> method
                   then Inl (Conflict ''idempotencyKey already finalized with a different method.'')
                   else Inr ((di_id d, D_SUCCESS), D)
              else disburse_new E R T provider_down P l x key method duplicate D
          | None \<Rightarrow> disburse_new E R T provider_down P l x key method duplicate D)"

definition disburse_hash :: "string \<Rightarrow> disburse_input \<Rightarrow> string" where
  "disburse_hash i x =
     i @ '':'' @ method_name (case dn_method x of Some m \<Rightarrow> m | None \<Rightarrow> DM_BANK_TRANSFER) @ '':'' @
     (case dn_note x of Some n \<Rightarrow> n | None \<Rightarrow> '''') @ '':'' @
     (if dn_force_fail x = Some True then ''true'' else ''false'')"

definition requested_key :: "string \<Rightarrow> disburse_input \<Rightarrow> string" where
  "requested_key i x = (case trim_or_null (dn_key x) of Some k \<Rightarrow> k | None \<Rightarrow> default_key i)"

definition disburse_request :: "principal \<Rightarrow> string \<Rightarrow> disburse_input \<Rightarrow> request" where
  "disburse_request P i x = \<lparr>rq_tenant = pc_tenant P, rq_scope = ''DISBURSEMENT'', rq_key = requested_key i x,
     rq_hash = Some (disburse_hash i x)\<rparr>"

definition disburse_operation ::
  "env \<Rightarrow> decimal_ops \<Rightarrow> texts \<Rightarrow> bool \<Rightarrow> principal \<Rightarrow> string \<Rightarrow> disburse_input \<Rightarrow> (disburse_result, db) operation" where
  "disburse_operation E R T provider_down P i x D =
     chain (disburse_tx E R T provider_down P i x (requested_key i x) D) (\<lambda>(r, D'). Inr (Some r, D'))"

definition failed_attempts :: "string \<Rightarrow> string \<Rightarrow> db \<Rightarrow> nat" where
  "failed_attempts t loan D =
     length (filter (\<lambda>d. di_tenant d = t \<and> di_loan d = loan \<and> di_status d = D_FAILED) (db_disbursements D))"

text \<open>What follows the transaction: the check of the loan's invariants, or the count of failures.\<close>

definition after_disburse :: "env \<Rightarrow> principal \<Rightarrow> string \<Rightarrow> disburse_result \<Rightarrow> db \<Rightarrow> unit outcome \<times> db" where
  "after_disburse E P i r D =
     (if snd r = D_SUCCESS then assertLoanInvariants E i D
      else if snd r = D_FAILED \<and> 3 \<le> failed_attempts (pc_tenant P) i D
      then (Inr (), flagSuspicious E (pc_tenant P) ''TENANT_DISBURSEMENT'' (fst r)
             ''Multiple failed disburse attempts'' ''HIGH'' D)
      else (Inr (), D))"

definition disburseNow ::
  "env \<Rightarrow> decimal_ops \<Rightarrow> texts \<Rightarrow> bool \<Rightarrow> principal \<Rightarrow> string \<Rightarrow> disburse_input \<Rightarrow>
     (disburse_result, db) idem_state \<Rightarrow> disburse_result outcome \<times> (disburse_result, db) idem_state" where
  "disburseNow E R T provider_down P i x S =
     (if pc_role P = SYSTEM \<and> \<not> isEnabled (pc_tenant P) AUTO_DISBURSE (im_data S)
      then (Inl (Conflict ''AUTO_DISBURSE feature flag is disabled for this tenant.''), S)
      else case assertOpsOrSuperAdmin (pc_role P) of
        Inl e \<Rightarrow> (Inl e, S)
      | Inr _ \<Rightarrow>
          (case withIdempotency E (disburse_request P i x) (disburse_operation E R T provider_down P i x) S of
             (Inl e, S1) \<Rightarrow> (Inl e, S1)
           | (Inr None, S1) \<Rightarrow> (Inl (Internal ''no result''), S1)
           | (Inr (Some r), S1) \<Rightarrow>
               (case after_disburse E P i r (im_data S1) of
                  (Inl e, D2) \<Rightarrow> (Inl e, S1\<lparr>im_data := D2\<rparr>)
                | (Inr _, D2) \<Rightarrow> (Inr r, S1\<lparr>im_data := D2\<rparr>))))"

section \<open>Retry and reversal\<close>

definition find_disbursement :: "principal \<Rightarrow> string \<Rightarrow> db \<Rightarrow> disbursement option" where
  "find_disbursement P i D = find (\<lambda>d. di_id d = i \<and> di_tenant d = pc_tenant P) (db_disbursements D)"

definition retryDisbursement ::
  "env \<Rightarrow> decimal_ops \<Rightarrow> texts \<Rightarrow> bool \<Rightarrow> principal \<Rightarrow> string \<Rightarrow> string option \<Rightarrow> bool option \<Rightarrow>
     (disburse_result, db) idem_state \<Rightarrow> unit outcome \<times> (disburse_result, db) idem_state" where
  "retryDisbursement E R T provider_down P i remark forceFail S =
     (case assertOpsOrSuperAdmin (pc_role P) of
        Inl e \<Rightarrow> (Inl e, S)
      | Inr _ \<Rightarrow>
          (case find_disbursement P i (im_data S) of
             None \<Rightarrow> (Inl (BadRequest ''Disbursement not found.''), S)
           | Some d \<Rightarrow>
               if di_status d \<noteq> D_FAILED
               then (Inl (BadRequest ''Only FAILED disbursements can be retried.''), S)
               else (case disburseNow E R T provider_down P (di_loan d)
                       \<lparr>dn_method = None, dn_key = None, dn_note = remark, dn_force_fail = forceFail\<rparr> S of
                       (Inl e, S1) \<Rightarrow> (Inl e, S1)
                     | (Inr _, S1) \<Rightarrow> (Inr (), S1\<lparr>im_data :=
                         emit (AuditEvent ''DISBURSEMENT.INITIATE'' ''TENANT_DISBURSEMENT'' i) (im_data S1)\<rparr>))))"

definition reversal_entry :: "env \<Rightarrow> principal \<Rightarrow> disbursement \<Rightarrow> entry_input" where
  "reversal_entry E P d =
     \<lparr>ei_tenant = pc_tenant P, ei_occurred = ev_now E, ei_type = E_ADJUSTMENT, ei_key = ''reverse:'' @ di_id d,
      ei_ref_type = ''LoanApplication'', ei_ref_id = di_loan d, ei_currency = Some (di_currency d),
      ei_created_by = Some (pc_admin P), ei_role = Some (pc_role P),
      ei_memo = Some (''Disbursement reversal '' @ di_id d),
      ei_lines = [\<lparr>li_code = bank_account (di_method d), li_direction = DEBIT, li_amount = di_amount d\<rparr>,
                  \<lparr>li_code = LOAN_PRINCIPAL_RECEIVABLE, li_direction = CREDIT, li_amount = di_amount d\<rparr>]\<rparr>"

definition reverse_tx :: "env \<Rightarrow> principal \<Rightarrow> string \<Rightarrow> string \<Rightarrow> db \<Rightarrow> db outcome" where
  "reverse_tx E P i reason D =
     (case find_disbursement P i D of
        None \<Rightarrow> Inl (BadRequest ''Disbursement not found.'')
      | Some d \<Rightarrow>
          if di_status d \<noteq> D_SUCCESS then Inl (BadRequest ''Only SUCCESS disbursements can be reversed.'')
          else chain (post_entry E (reversal_entry E P d) D) (\<lambda>(_, D1).
            Inr (writeDisbursementHistory (pc_tenant P) (di_loan d) (di_id d) (Some (di_status d)) D_REVERSED
              (Some reason) (Some (pc_admin P))
              (set_disbursement (di_id d) (\<lambda>d. d\<lparr>di_status := D_REVERSED, di_failure := Some reason,
                 di_processed_at := Some (ev_now E)\<rparr>) D1))))"

definition reverseDisbursement :: "env \<Rightarrow> principal \<Rightarrow> string \<Rightarrow> string \<Rightarrow> db \<Rightarrow> db outcome" where
  "reverseDisbursement E P i reason D =
     chain (assertOpsOrSuperAdmin (pc_role P)) (\<lambda>_.
     chain (reverse_tx E P i reason D) (\<lambda>D1.
       Inr (emit (AuditEvent ''DISBURSEMENT_REVERSED'' ''TENANT_DISBURSEMENT'' i) D1)))"

section \<open>What a payment leaves\<close>

lemma set_disbursement_tables [simp]:
  "db_loans (set_disbursement i f D) = db_loans D" "db_allocs (set_disbursement i f D) = db_allocs D"
  "db_entries (set_disbursement i f D) = db_entries D" "db_history (set_disbursement i f D) = db_history D"
  "db_disbursements (set_disbursement i f D) = update_where (\<lambda>d. di_id d = i) f (db_disbursements D)"
  by (simp_all add: set_disbursement_def)

lemma write_disbursement_tables [simp]:
  "db_loans (writeDisbursementHistory t l d s s' n a D) = db_loans D"
  "db_allocs (writeDisbursementHistory t l d s s' n a D) = db_allocs D"
  "db_entries (writeDisbursementHistory t l d s s' n a D) = db_entries D"
  "db_history (writeDisbursementHistory t l d s s' n a D) = db_history D"
  "db_disbursements (writeDisbursementHistory t l d s s' n a D) = db_disbursements D"
  by (simp_all add: writeDisbursementHistory_def)

lemma ensure_disbursements [simp]: "db_disbursements (ensureDefaultAccounts E t D) = db_disbursements D"
  by (subst ensure_frame) simp

lemma deploy_disbursements:
  assumes "deployToLoan E R t loan amount cur key actor D = Inr (a, D')"
  shows "db_disbursements D' = db_disbursements D \<and> db_loans D' = db_loans D"
proof (cases "loan_alloc t loan D")
  case (Some b)
  with assms show ?thesis by (simp add: deployToLoan_def)
next
  case None
  with assms show ?thesis
    by (auto simp: deployToLoan_def chain_eq_Inr fresh_def Let_def post_entry_other_tables(1,11) split: if_splits)
qed

lemma announce_Inr:
  assumes "announce P l d D = Inr D'"
  shows "db_loans D' = db_loans D" "db_allocs D' = db_allocs D" "db_entries D' = db_entries D"
    "db_disbursements D' = db_disbursements D" "db_history D' = db_history D"
  using assms by (auto simp: announce_def Let_def split: if_splits)

lemma pay_out_Inr:
  assumes "pay_out E R T P l d method remark D = Inr D'"
  obtains r D1 a D2 where "post_entry E (payout_entry E P l d method) D = Inr (r, D1)"
    "deployToLoan E R (pc_tenant P) (l_id l) (loan_amount l) (l_currency l) (di_id d)
       \<lparr>ta_id = Some (pc_admin P), ta_role = Some (pc_role P)\<rparr> D1 = Inr (a, D2)"
    "roleCanTransition (pc_role P) (l_status l) LS_DISBURSED" "paid_out (pc_tenant P) (l_id l) D' \<le> 1"
    "db_disbursements D' = db_disbursements (record_success E P l d method remark D2)"
    "db_loans D' = update_where (\<lambda>m. l_id m = l_id l)
       (\<lambda>m. m\<lparr>l_status := LS_DISBURSED, l_disbursed_amount := Some (loan_amount l), l_disbursed_at := Some (ev_now E)\<rparr>)
       (db_loans D2)"
    "db_allocs D' = db_allocs D2" "db_entries D' = db_entries D2"
proof -
  let ?actor = "\<lparr>ta_id = Some (pc_admin P), ta_role = Some (pc_role P)\<rparr>"
  from assms obtain r D1 a D2 where p: "post_entry E (payout_entry E P l d method) D = Inr (r, D1)"
    and q: "deployToLoan E R (pc_tenant P) (l_id l) (loan_amount l) (l_currency l) (di_id d) ?actor D1 = Inr (a, D2)"
    and rest: "chain (assertValidTransition (l_status l) LS_DISBURSED) (\<lambda>_.
        chain (assertRoleCanTransition (pc_role P) (l_status l) LS_DISBURSED) (\<lambda>_.
        let D4 = mark_disbursed E T P l (record_success E P l d method remark D2)
        in chain (assertNoDuplicateDisbursement (paid_out (pc_tenant P) (l_id l) D4)) (\<lambda>_.
           chain (assertLoanNonNegative (l_out_principal l) (l_out_interest l) (l_out_fees l) (l_out_total l)) (\<lambda>_.
           chain (assertLoanCanClose LS_DISBURSED (l_out_total l)) (\<lambda>_. announce P l d D4))))) = Inr D'"
    unfolding pay_out_def by (auto simp: chain_eq_Inr)
  let ?D4 = "mark_disbursed E T P l (record_success E P l d method remark D2)"
  from rest have ro: "roleCanTransition (pc_role P) (l_status l) LS_DISBURSED"
    and n: "assertNoDuplicateDisbursement (paid_out (pc_tenant P) (l_id l) ?D4) = Inr ()"
    and an: "announce P l d ?D4 = Inr D'"
    by (simp_all add: chain_eq_Inr Let_def)
  note t = announce_Inr [OF an]
  have "paid_out (pc_tenant P) (l_id l) D' \<le> 1"
    using n t(4) by (simp add: assertNoDuplicateDisbursement_def paid_out_def split: if_splits)
  then show thesis
    by (rule that [OF p q ro]) (simp_all add: t mark_disbursed_def record_success_def)
qed

text \<open>The two ways a payment ends in success: it was made before, or it is made now.\<close>

lemma disburse_success:
  assumes "disburse_tx E R T down P i x key D = Inr ((k, D_SUCCESS), D')"
  obtains (before) l d where "disburse_guards P i D = Inr l" "d \<in> set (db_disbursements D)" "di_tenant d = pc_tenant P"
      "di_loan d = l_id l" "di_status d = D_SUCCESS" "D' = D" "k = di_id d"
  | (now) l d D1 m where "disburse_guards P i D = Inr l"
      "take_disbursement E P l key m (find (\<lambda>d. di_tenant d = pc_tenant P \<and> di_key d = key) (db_disbursements D)) D = Inr (d, D1)"
      "pay_out E R T P l d m (dn_note x) (start_processing P l d (dn_note x) D1) = Inr D'" "k = di_id d"
proof -
  let ?dup = "find (\<lambda>d. di_tenant d = pc_tenant P \<and> di_key d = key) (db_disbursements D)"
  let ?m = "case dn_method x of Some m \<Rightarrow> m | None \<Rightarrow> DM_BANK_TRANSFER"
  from assms obtain l where g: "disburse_guards P i D = Inr l"
    by (auto simp: disburse_tx_def chain_eq_Inr)
  have new: thesis if "disburse_new E R T down P l x key ?m ?dup D = Inr ((k, D_SUCCESS), D')"
  proof -
    from that obtain d D1 where "take_disbursement E P l key ?m ?dup D = Inr (d, D1)"
      "pay_out E R T P l d ?m (dn_note x) (start_processing P l d (dn_note x) D1) = Inr D'" "k = di_id d"
      by (auto simp: disburse_new_def chain_eq_Inr Let_def split: if_splits)
    then show thesis by (rule now [OF g])
  qed
  show thesis
  proof (cases ?dup)
    case None
    with assms g show thesis by (intro new) (simp add: disburse_tx_def Let_def)
  next
    case (Some d)
    from find_SomeD [OF Some] have d: "d \<in> set (db_disbursements D)" "di_tenant d = pc_tenant P" by simp_all
    show thesis
    proof (cases "di_status d = D_SUCCESS")
      case True
      with assms g Some have "di_loan d = l_id l" "D' = D" "k = di_id d"
        by (auto simp: disburse_tx_def Let_def split: if_splits)
      with True show thesis by (intro before [OF g d])
    next
      case False
      with assms g Some show thesis by (intro new) (simp add: disburse_tx_def Let_def split: if_splits)
    qed
  qed
qed

lemma disburse_guards_Inr:
  assumes "disburse_guards P i D = Inr l"
  shows "find (\<lambda>l. l_id l = i \<and> l_tenant l = pc_tenant P) (db_loans D) = Some l" "l_id l = i"
    "l_status l = LS_READY_FOR_DISBURSEMENT"
    "assertBorrowerNotRestricted (pc_tenant P) (l_phone l) (Some (pc_role P)) D = Inr ()"
    "stored_gate (pc_tenant P) i LS_DISBURSED D = Inr ()"
    "\<not> hasOpenAlertAtOrAbove (pc_tenant P) i SEV_CRITICAL D"
proof -
  from assms have f: "find (\<lambda>l. l_id l = i \<and> l_tenant l = pc_tenant P) (db_loans D) = Some l"
    by (auto simp: disburse_guards_def chain_eq_Inr split: option.splits if_splits)
  from find_SomeD [OF f] have i: "l_id l = i" by simp
  with assms f show "l_status l = LS_READY_FOR_DISBURSEMENT"
    "assertBorrowerNotRestricted (pc_tenant P) (l_phone l) (Some (pc_role P)) D = Inr ()"
    "stored_gate (pc_tenant P) i LS_DISBURSED D = Inr ()"
    "\<not> hasOpenAlertAtOrAbove (pc_tenant P) i SEV_CRITICAL D"
    by (simp_all add: disburse_guards_def chain_eq_Inr split: if_splits)
  show "find (\<lambda>l. l_id l = i \<and> l_tenant l = pc_tenant P) (db_loans D) = Some l" "l_id l = i" by (fact f i)+
qed

lemma take_disbursement_Inr:
  assumes "take_disbursement E P l key m dup D = Inr (d, D1)"
    and dup: "\<And>e. dup = Some e \<Longrightarrow> find (\<lambda>d. di_tenant d = pc_tenant P \<and> di_key d = key) (db_disbursements D) = Some e"
  shows "db_allocs D1 = db_allocs D \<and> db_loans D1 = db_loans D \<and> db_entries D1 = db_entries D \<and>
    d \<in> set (db_disbursements D1) \<and> di_key d = key"
proof (cases dup)
  case (Some e)
  with assms find_SomeD [OF dup [OF Some]] show ?thesis by (auto simp: take_disbursement_def)
next
  case None
  show ?thesis
  proof (cases "find (\<lambda>d. di_loan d = l_id l) (db_disbursements D)")
    case (Some e)
    from find_SomeD [OF Some] have e: "e \<in> set (db_disbursements D)" by simp
    from assms None Some have d: "d = e\<lparr>di_key := key, di_method := m\<rparr>"
      "D1 = set_disbursement (di_id e) (\<lambda>d. d\<lparr>di_key := key, di_method := m\<rparr>) D"
      by (simp_all add: take_disbursement_def)
    from e have "d \<in> set (db_disbursements D1)" unfolding d set_disbursement_tables set_update_where
      by (intro bexI [of _ e]) simp_all
    with d show ?thesis by simp
  next
    case none: None
    with assms None show ?thesis
      by (auto simp: take_disbursement_def create_disbursement_def fresh_def Let_def split: if_splits)
  qed
qed

section \<open>Properties\<close>

text \<open>A payment made now: who may make it, and what it leaves.\<close>

lemma paid_now:
  assumes "disburse_tx E R T down P i x key D = Inr ((k, D_SUCCESS), D')" "paid_out (pc_tenant P) i D = 0"
  obtains l d m D1 r D2 a D3 where "disburse_guards P i D = Inr l"
    "db_allocs D1 = db_allocs D" "db_loans D1 = db_loans D" "db_entries D1 = db_entries D"
    "d \<in> set (db_disbursements D1)" "di_key d = key" "k = di_id d"
    "post_entry E (payout_entry E P l d m) (start_processing P l d (dn_note x) D1) = Inr (r, D2)"
    "deployToLoan E R (pc_tenant P) i (loan_amount l) (l_currency l) (di_id d)
       \<lparr>ta_id = Some (pc_admin P), ta_role = Some (pc_role P)\<rparr> D2 = Inr (a, D3)"
    "roleCanTransition (pc_role P) LS_READY_FOR_DISBURSEMENT LS_DISBURSED" "paid_out (pc_tenant P) i D' \<le> 1"
    "db_disbursements D' = db_disbursements (record_success E P l d m (dn_note x) D3)"
    "db_disbursements D3 = db_disbursements (start_processing P l d (dn_note x) D1)"
    "db_loans D' = update_where (\<lambda>m. l_id m = i)
       (\<lambda>m. m\<lparr>l_status := LS_DISBURSED, l_disbursed_amount := Some (loan_amount l), l_disbursed_at := Some (ev_now E)\<rparr>)
       (db_loans D3)"
    "db_allocs D' = db_allocs D3" "db_entries D' = db_entries D3"
  using assms(1)
proof (cases rule: disburse_success)
  case (before l d)
  from before(1) have "l_id l = i" by (rule disburse_guards_Inr)
  with before have "d \<in> set (filter (\<lambda>d. di_tenant d = pc_tenant P \<and> di_loan d = i \<and> di_status d = D_SUCCESS) (db_disbursements D))"
    by simp
  with assms(2) show thesis by (auto simp: paid_out_def filter_empty_conv)
next
  case (now l d D1 m)
  note g = disburse_guards_Inr [OF now(1)]
  have t: "db_allocs D1 = db_allocs D \<and> db_loans D1 = db_loans D \<and> db_entries D1 = db_entries D \<and> d \<in> set (db_disbursements D1) \<and>
    di_key d = key"
    by (rule take_disbursement_Inr [OF now(2)])
  from now(3) show thesis
  proof (rule pay_out_Inr)
    fix r D2 a D3
    assume p: "post_entry E (payout_entry E P l d m) (start_processing P l d (dn_note x) D1) = Inr (r, D2)"
      and q: "deployToLoan E R (pc_tenant P) (l_id l) (loan_amount l) (l_currency l) (di_id d)
       \<lparr>ta_id = Some (pc_admin P), ta_role = Some (pc_role P)\<rparr> D2 = Inr (a, D3)"
      and ro: "roleCanTransition (pc_role P) (l_status l) LS_DISBURSED"
      and n: "paid_out (pc_tenant P) (l_id l) D' \<le> 1"
      and ds: "db_disbursements D' = db_disbursements (record_success E P l d m (dn_note x) D3)"
      and ls: "db_loans D' = update_where (\<lambda>m. l_id m = l_id l)
       (\<lambda>m. m\<lparr>l_status := LS_DISBURSED, l_disbursed_amount := Some (loan_amount l), l_disbursed_at := Some (ev_now E)\<rparr>)
       (db_loans D3)"
      and al: "db_allocs D' = db_allocs D3" "db_entries D' = db_entries D3"
    have d3: "db_disbursements D3 = db_disbursements (start_processing P l d (dn_note x) D1)"
      using deploy_disbursements [OF q] post_entry_other_tables(11) [OF p] by simp
    show thesis
      using that [OF now(1) _ _ _ _ _ now(4) p q [unfolded g(2)] ro [unfolded g(3)] n [unfolded g(2)] ds d3 ls [unfolded g(2)] al] t
      by simp
  qed
qed

text \<open>
  C22. Only a super admin can pay out a loan that has no capital yet: an operations admin may not post
  the entry that moves the capital, and the system may not move the loan to disbursed.
\<close>

theorem only_super_admin_disburses:
  assumes "disburse_tx E R T down P i x key D = Inr ((k, D_SUCCESS), D')" "paid_out (pc_tenant P) i D = 0"
    and "loan_alloc (pc_tenant P) i D = None"
  shows "pc_role P = SUPER_ADMIN"
  using assms(1,2)
proof (rule paid_now)
  fix l d m D1 r D2 a D3
  assume al: "db_allocs D1 = db_allocs D"
    and p: "post_entry E (payout_entry E P l d m) (start_processing P l d (dn_note x) D1) = Inr (r, D2)"
    and q: "deployToLoan E R (pc_tenant P) i (loan_amount l) (l_currency l) (di_id d)
       \<lparr>ta_id = Some (pc_admin P), ta_role = Some (pc_role P)\<rparr> D2 = Inr (a, D3)"
    and ro: "roleCanTransition (pc_role P) LS_READY_FOR_DISBURSEMENT LS_DISBURSED"
  have "loan_alloc (pc_tenant P) i D2 = None"
    using assms(3) post_entry_other_tables(5) [OF p] by (simp add: loan_alloc_def al start_processing_def)
  then have none: "loan_alloc (pc_tenant P) i D2 = None" .
  obtain ai ap where a: "a = (ai, ap)" by (cases a)
  have "assertRoleCanPost (Some (pc_role P)) E_ADJUSTMENT = Inr ()"
    by (rule deploy_cases [OF q [unfolded a] none]) (drule post_entry_guards, simp add: post_guards_def capital_entry_def)
  with ro show ?thesis
    by (cases "pc_role P") (simp_all add: roleCanTransition_def)
qed

lemma post_entry_keyed:
  assumes "post_entry E x D = Inr (r, D')"
  shows "set (db_entries D) \<subseteq> set (db_entries D') \<and>
    (\<exists>e \<in> set (db_entries D'). en_tenant e = ei_tenant x \<and> en_key e = ei_key x)"
proof -
  obtain i b where r: "r = (i, b)" by (cases r)
  from assms [unfolded r] show ?thesis
  proof (cases rule: post_entry_cases)
    case (reused e)
    from find_SomeD [OF reused(4)] reused(3) show ?thesis by auto
  next
    case (new lines)
    then show ?thesis by (simp add: posted_entry_def) blast
  qed
qed

lemma deploy_allocates:
  assumes "deployToLoan E R t loan amount cur key actor D = Inr (a, D')"
  shows "loan_alloc t loan D' \<noteq> None \<and> set (db_entries D) \<subseteq> set (db_entries D')"
proof (cases "loan_alloc t loan D")
  case (Some b)
  with assms show ?thesis by (auto simp: deployToLoan_def)
next
  case None
  obtain i p where a: "a = (i, p)" by (cases a)
  from assms [unfolded a] None show ?thesis
  proof (rule deploy_cases)
    fix x D3 r D4 y
    assume "al_tenant x = t" "al_loan x = loan" "db_allocs D' = db_allocs D @ [x]"
      and e: "db_entries D3 = db_entries D" "post_entry E y D3 = Inr (r, D4)"
      and D': "D' = emit (AuditEvent ''TREASURY.MOVE'' ''CapitalAllocation'' i) D4"
    moreover have "set (db_entries D) \<subseteq> set (db_entries D')"
      using post_entry_keyed [OF e(2)] e(1) D' by simp
    ultimately show ?thesis by (auto simp: loan_alloc_def find_None_iff)
  qed
qed

lemma mem_update_key:
  assumes "m \<in> set (update_where (\<lambda>m. key m = k) f ls)" "key m = k" "\<And>m. key (f m) = key m"
  shows "\<exists>n. m = f n"
proof -
  from assms(1) obtain n where "m = (if key n = k then f n else n)" unfolding set_update_where by (elim bexE)
  with assms(2,3) show ?thesis by (cases "key n = k") auto
qed

text \<open>
  C23. A payment that goes through now found the loan ready, the gate of the risk service open, no
  critical alert and, unless a super admin pays, no restriction of the borrower; it leaves the loan
  disbursed with the approved amount, capital allocated to it, an entry in the ledger under the
  payment's key, and no second successful payment.
\<close>

theorem payment_passes_checks:
  assumes "disburse_tx E R T down P i x key D = Inr ((k, D_SUCCESS), D')" "paid_out (pc_tenant P) i D = 0"
  shows "\<exists>l. find (\<lambda>l. l_id l = i \<and> l_tenant l = pc_tenant P) (db_loans D) = Some l \<and>
    l_status l = LS_READY_FOR_DISBURSEMENT \<and> stored_gate (pc_tenant P) i LS_DISBURSED D = Inr () \<and>
    \<not> hasOpenAlertAtOrAbove (pc_tenant P) i SEV_CRITICAL D \<and>
    assertBorrowerNotRestricted (pc_tenant P) (l_phone l) (Some (pc_role P)) D = Inr () \<and>
    (\<forall>m \<in> set (db_loans D'). l_id m = i \<longrightarrow> l_status m = LS_DISBURSED \<and> l_disbursed_amount m = Some (loan_amount l)) \<and>
    loan_alloc (pc_tenant P) i D' \<noteq> None \<and> paid_out (pc_tenant P) i D' \<le> 1 \<and>
    (\<exists>e \<in> set (db_entries D'). en_tenant e = pc_tenant P \<and> en_key e = key)"
  using assms
proof (rule paid_now)
  fix l d m D1 r D2 a D3
  assume g: "disburse_guards P i D = Inr l" and k: "di_key d = key"
    and p: "post_entry E (payout_entry E P l d m) (start_processing P l d (dn_note x) D1) = Inr (r, D2)"
    and q: "deployToLoan E R (pc_tenant P) i (loan_amount l) (l_currency l) (di_id d)
       \<lparr>ta_id = Some (pc_admin P), ta_role = Some (pc_role P)\<rparr> D2 = Inr (a, D3)"
    and n: "paid_out (pc_tenant P) i D' \<le> 1"
    and ls: "db_loans D' = update_where (\<lambda>m. l_id m = i)
       (\<lambda>m. m\<lparr>l_status := LS_DISBURSED, l_disbursed_amount := Some (loan_amount l), l_disbursed_at := Some (ev_now E)\<rparr>)
       (db_loans D3)"
    and al: "db_allocs D' = db_allocs D3" "db_entries D' = db_entries D3"
  have st: "\<forall>m \<in> set (db_loans D'). l_id m = i \<longrightarrow> l_status m = LS_DISBURSED \<and> l_disbursed_amount m = Some (loan_amount l)"
    unfolding ls by (intro ballI impI) (drule mem_update_key, assumption, simp, elim exE, simp)
  have alloc: "loan_alloc (pc_tenant P) i D' \<noteq> None"
    using deploy_allocates [OF q] by (simp add: loan_alloc_def al)
  have "\<exists>e \<in> set (db_entries D2). en_tenant e = pc_tenant P \<and> en_key e = key"
    using post_entry_keyed [OF p] by (simp add: payout_entry_def k)
  then have e: "\<exists>e \<in> set (db_entries D'). en_tenant e = pc_tenant P \<and> en_key e = key"
    using deploy_allocates [OF q] unfolding al by blast
  note gs = disburse_guards_Inr [OF g]
  show ?thesis
    by (rule exI [of _ l]) (intro conjI gs(1,3-6) st alloc n e)
qed

text \<open>What follows a failed transaction changes neither payments nor loans.\<close>

lemma after_failure_tables:
  assumes "after_disburse E P i (k, D_FAILED) D = (o1, D')"
  shows "o1 = Inr () \<and> db_disbursements D' = db_disbursements D \<and> db_loans D' = db_loans D"
  using assms flag_simps by (auto simp: after_disburse_def split: if_splits)

lemma disburseNow_replays_failure:
  assumes "decide (disburse_request P i x) S = Inr (Some (k, D_FAILED))"
  shows "(\<exists>e. disburseNow E R T down P i x S = (Inl e, S)) \<or>
    (\<exists>S'. disburseNow E R T down P i x S = (Inr (k, D_FAILED), S') \<and>
       db_disbursements (im_data S') = db_disbursements (im_data S) \<and> db_loans (im_data S') = db_loans (im_data S))"
proof -
  have w: "withIdempotency E (disburse_request P i x) (disburse_operation E R T down P i x) S = (Inr (Some (k, D_FAILED)), S)"
    using assms by (simp add: withIdempotency_def)
  obtain o1 D2 where a: "after_disburse E P i (k, D_FAILED) (im_data S) = (o1, D2)"
    by (cases "after_disburse E P i (k, D_FAILED) (im_data S)")
  note t = after_failure_tables [OF a]
  show ?thesis
  proof (cases "pc_role P = SYSTEM \<and> \<not> isEnabled (pc_tenant P) AUTO_DISBURSE (im_data S)")
    case True
    then show ?thesis by (simp add: disburseNow_def)
  next
    case False
    then show ?thesis
      using w a t by (cases "assertOpsOrSuperAdmin (pc_role P)") (auto simp: disburseNow_def)
  qed
qed

lemma failed_disburse_decides:
  assumes "disburseNow E R T down P i x S = (Inr (k, D_FAILED), S')"
    and "pc_tenant Q = pc_tenant P" "requested_key i y = requested_key i x"
  shows "decide (disburse_request Q i y) S' = Inr (Some (k, D_FAILED))"
proof -
  obtain o1 S1 where w: "withIdempotency E (disburse_request P i x) (disburse_operation E R T down P i x) S = (o1, S1)"
    by (cases "withIdempotency E (disburse_request P i x) (disburse_operation E R T down P i x) S")
  from assms(1) w have o1: "o1 = Inr (Some (k, D_FAILED))" "\<exists>D2. S' = S1\<lparr>im_data := D2\<rparr>"
    by (auto simp: disburseNow_def split: if_splits sum.splits option.splits prod.splits)
  have "decide (disburse_request Q i y) S1 = Inr (Some (k, D_FAILED))"
    by (rule completed_decides [OF w [unfolded o1(1)]]) (simp_all add: disburse_request_def assms(2,3))
  with o1(2) show ?thesis by auto
qed

text \<open>
  A payment that the provider refused is never retried: its result is stored as that of a
  completed request, and a retry, which sends no key, is answered with it. No row of a payment or a
  loan changes, whoever retries and whatever the provider would say.
\<close>

lemma failed_payment_is_not_retried:
  assumes "disburseNow E R T down P i x S = (Inr (k, D_FAILED), S')" "trim_or_null (dn_key x) = None"
    and "pc_tenant Q = pc_tenant P" "find_disbursement Q k (im_data S') = Some d" "di_loan d = i"
  shows "\<exists>r S''. retryDisbursement E' R' T' down' Q k remark force_fail S' = (r, S'') \<and>
    db_disbursements (im_data S'') = db_disbursements (im_data S') \<and> db_loans (im_data S'') = db_loans (im_data S')"
proof -
  let ?y = "\<lparr>dn_method = None, dn_key = None, dn_note = remark, dn_force_fail = force_fail\<rparr>"
  have "requested_key i ?y = requested_key i x" using assms(2) by (simp add: requested_key_def trim_or_null_def)
  note d = failed_disburse_decides [OF assms(1,3) this]
  from disburseNow_replays_failure [OF d, of E' R' T' down'] show ?thesis
  proof (elim disjE exE conjE)
    fix e
    assume "disburseNow E' R' T' down' Q i ?y S' = (Inl e, S')"
    then show ?thesis
      using assms(4,5) by (cases "assertOpsOrSuperAdmin (pc_role Q)") (simp_all add: retryDisbursement_def)
  next
    fix S2
    assume "disburseNow E' R' T' down' Q i ?y S' = (Inr (k, D_FAILED), S2)"
      "db_disbursements (im_data S2) = db_disbursements (im_data S')" "db_loans (im_data S2) = db_loans (im_data S')"
    then show ?thesis
      using assms(4,5) by (cases "assertOpsOrSuperAdmin (pc_role Q)") (simp_all add: retryDisbursement_def)
  qed
qed

text \<open>
  Reversing a payment takes the principal back in the ledger and marks the payment reversed, but
  leaves the loan and the capital allocated to it as they were: a disbursed loan stays disbursed and
  cannot be paid out again.
\<close>

lemma reversal_leaves_loan_disbursed:
  assumes "reverseDisbursement E P k reason D = Inr D'" "find_disbursement P k D = Some d"
    and "find (\<lambda>l. l_id l = di_loan d \<and> l_tenant l = pc_tenant P) (db_loans D) = Some l" "l_status l = LS_DISBURSED"
    and "pc_tenant Q = pc_tenant P"
  shows "db_loans D' = db_loans D \<and> db_allocs D' = db_allocs D \<and>
    (\<exists>e \<in> set (db_entries D'). en_tenant e = pc_tenant P \<and> en_key e = ''reverse:'' @ k) \<and>
    (\<forall>q \<in> set (db_disbursements D'). di_id q = k \<longrightarrow> di_status q = D_REVERSED) \<and>
    (\<exists>e. disburse_tx E' R' T' down Q (di_loan d) x key D' = Inl e)"
proof -
  have k: "di_id d = k" using find_SomeD [OF assms(2) [unfolded find_disbursement_def]] by simp
  from assms(1,2) obtain r D1 where p: "post_entry E (reversal_entry E P d) D = Inr (r, D1)"
    and D': "D' = emit (AuditEvent ''DISBURSEMENT_REVERSED'' ''TENANT_DISBURSEMENT'' k)
      (writeDisbursementHistory (pc_tenant P) (di_loan d) (di_id d) (Some (di_status d)) D_REVERSED
         (Some reason) (Some (pc_admin P))
         (set_disbursement (di_id d) (\<lambda>d. d\<lparr>di_status := D_REVERSED, di_failure := Some reason,
            di_processed_at := Some (ev_now E)\<rparr>) D1))"
    by (auto simp: reverseDisbursement_def reverse_tx_def chain_eq_Inr split: if_splits)
  note same = post_entry_other_tables [OF p]
  have l: "db_loans D' = db_loans D" "db_allocs D' = db_allocs D" by (simp_all add: D' same)
  have e: "\<exists>e \<in> set (db_entries D'). en_tenant e = pc_tenant P \<and> en_key e = ''reverse:'' @ k"
    using post_entry_keyed [OF p] by (simp add: D' reversal_entry_def k)
  have q: "\<forall>q \<in> set (db_disbursements D'). di_id q = k \<longrightarrow> di_status q = D_REVERSED"
    unfolding D' emit_simps write_disbursement_tables set_disbursement_tables k
    by (intro ballI impI) (drule mem_update_key, assumption, simp, elim exE, simp)
  have "disburse_guards Q (di_loan d) D' = Inl (BadRequest ''Loan must be READY_FOR_DISBURSEMENT before disbursing.'')"
    using assms(3-5) by (simp add: disburse_guards_def l)
  then have x: "\<exists>e. disburse_tx E' R' T' down Q (di_loan d) x key D' = Inl e" by (simp add: disburse_tx_def)
  show ?thesis by (intro conjI l e q x)
qed

section \<open>At most one row per loan\<close>

datatype disb_call =
    MarkReady string
  | DisburseNow string disburse_input
  | Retry string "string option" "bool option"
  | Reverse string string

type_synonym disb_state = "(disburse_result, db) idem_state"

fun kept :: "db outcome \<Rightarrow> disb_state \<Rightarrow> unit outcome \<times> disb_state" where
  "kept (Inl e) S = (Inl e, S)"
| "kept (Inr D) S = (Inr (), S\<lparr>im_data := D\<rparr>)"

text \<open>One request, with its clock, its arithmetic, its texts, the provider and the admin who makes it.\<close>

fun exec_disb ::
  "env \<times> decimal_ops \<times> texts \<times> bool \<times> principal \<times> disb_call \<Rightarrow> disb_state \<Rightarrow> unit outcome \<times> disb_state" where
  "exec_disb (E, R, T, down, P, MarkReady i) S = kept (markReadyForDisbursement E P i (im_data S)) S"
| "exec_disb (E, R, T, down, P, DisburseNow i x) S =
     map_prod (map_sum id (\<lambda>_. ())) id (disburseNow E R T down P i x S)"
| "exec_disb (E, R, T, down, P, Retry i remark force_fail) S = retryDisbursement E R T down P i remark force_fail S"
| "exec_disb (E, R, T, down, P, Reverse i reason) S = kept (reverseDisbursement E P i reason (im_data S)) S"

definition one_per_loan :: "db \<Rightarrow> bool" where
  "one_per_loan D \<longleftrightarrow> distinct (map di_loan (db_disbursements D))"

lemma one_per_loan_set:
  "(\<And>d. di_loan (f d) = di_loan d) \<Longrightarrow> one_per_loan (set_disbursement i f D) \<longleftrightarrow> one_per_loan D"
  by (simp add: one_per_loan_def map_update_where)

lemma one_per_loan_create:
  assumes "one_per_loan D" "create_disbursement E P l key m D = Inr (d, D')"
  shows "one_per_loan D'"
proof -
  from assms(2) have none: "find (\<lambda>d. di_loan d = l_id l \<or> di_tenant d = pc_tenant P \<and> di_key d = key) (db_disbursements D) = None"
    and d: "di_loan d = l_id l" "db_disbursements D' = db_disbursements D @ [d]"
    by (auto simp: create_disbursement_def fresh_def Let_def split: if_splits)
  have "di_loan d \<notin> di_loan ` set (db_disbursements D)"
    by (rule notI, elim imageE) (drule find_NoneD [OF none], simp add: d(1))
  with assms(1) d(2) show ?thesis by (simp add: one_per_loan_def)
qed

lemma one_per_loan_cong: "db_disbursements D' = db_disbursements D \<Longrightarrow> one_per_loan D' \<longleftrightarrow> one_per_loan D"
  by (simp add: one_per_loan_def)

lemma one_per_loan_take:
  assumes "one_per_loan D" "take_disbursement E P l key m dup D = Inr (d, D')"
  shows "one_per_loan D'"
  using assms one_per_loan_create
  by (auto simp: take_disbursement_def one_per_loan_set split: option.splits)

lemma one_per_loan_pay:
  assumes "one_per_loan D" "pay_out E R T P l d m remark D = Inr D'"
  shows "one_per_loan D'"
  using assms(2)
proof (rule pay_out_Inr)
  fix r D1 a D2
  assume p: "post_entry E (payout_entry E P l d m) D = Inr (r, D1)"
    and q: "deployToLoan E R (pc_tenant P) (l_id l) (loan_amount l) (l_currency l) (di_id d)
       \<lparr>ta_id = Some (pc_admin P), ta_role = Some (pc_role P)\<rparr> D1 = Inr (a, D2)"
    and ds: "db_disbursements D' = db_disbursements (record_success E P l d m remark D2)"
  have "one_per_loan D2"
    using assms(1) deploy_disbursements [OF q] post_entry_other_tables(11) [OF p] by (simp add: one_per_loan_def)
  then show ?thesis by (simp add: one_per_loan_def ds record_success_def map_update_where)
qed

lemma one_per_loan_tx:
  assumes "one_per_loan D" "disburse_tx E R T down P i x key D = Inr (r, D')"
  shows "one_per_loan D'"
proof -
  have new: "one_per_loan D'" if "disburse_new E R T down P l x key m dup D = Inr (r, D')" for l m dup
  proof -
    from that obtain d D1 where t: "take_disbursement E P l key m dup D = Inr (d, D1)"
      and rest: "(if shouldFailProvider down (dn_force_fail x)
          then Inr ((di_id d, D_FAILED), record_failure E P l d (start_processing P l d (dn_note x) D1))
          else chain (pay_out E R T P l d m (dn_note x) (start_processing P l d (dn_note x) D1))
            (\<lambda>D3. Inr ((di_id d, D_SUCCESS), D3))) = Inr (r, D')"
      by (auto simp: disburse_new_def chain_eq_Inr Let_def)
    have s: "one_per_loan (start_processing P l d (dn_note x) D1)"
      using one_per_loan_take [OF assms(1) t] by (simp add: one_per_loan_def start_processing_def map_update_where)
    from rest show ?thesis
      using s one_per_loan_pay [OF s]
      by (auto simp: one_per_loan_def record_failure_def map_update_where chain_eq_Inr split: if_splits)
  qed
  from assms new show ?thesis
    by (auto simp: disburse_tx_def chain_eq_Inr Let_def split: option.splits if_splits)
qed

lemma one_per_loan_withIdempotency:
  assumes "one_per_loan (im_data S)" "\<And>r D'. fn (im_data S) = Inr (r, D') \<Longrightarrow> one_per_loan D'"
  shows "one_per_loan (im_data (snd (withIdempotency E q fn S)))"
proof (cases "decide q S")
  case (Inl e)
  with assms(1) show ?thesis by (simp add: withIdempotency_def)
next
  case (Inr r)
  show ?thesis
  proof (cases r)
    case (Some x)
    with Inr assms(1) show ?thesis by (simp add: withIdempotency_def)
  next
    case None
    show ?thesis
    proof (cases "acquire E q S")
      case (Inl e)
      with Inr None assms(1) \<open>decide q S = Inr r\<close> show ?thesis by (simp add: withIdempotency_def)
    next
      case a: (Inr p)
      obtain i S1 where p: "p = (i, S1)" by (cases p)
      from acquire_row [OF a [unfolded p]] have "im_data S1 = im_data S" by blast
      with a p None \<open>decide q S = Inr r\<close> assms show ?thesis
        by (cases "fn (im_data S)") (auto simp: withIdempotency_def finish_def)
    qed
  qed
qed

lemma one_per_loan_after:
  "one_per_loan (snd (after_disburse E P i r D)) \<longleftrightarrow> one_per_loan D"
proof -
  obtain o1 D' where a: "assertLoanInvariants E i D = (o1, D')" by (cases "assertLoanInvariants E i D")
  show ?thesis
    using scan_flags [of D E i] a flag_simps
    by (auto simp: after_disburse_def one_per_loan_def assertLoanInvariants_def same_but_flags_def
        split: prod.splits list.splits)
qed

lemma one_per_loan_disburseNow:
  assumes "one_per_loan (im_data S)"
  shows "one_per_loan (im_data (snd (disburseNow E R T down P i x S)))"
proof -
  let ?w = "withIdempotency E (disburse_request P i x) (disburse_operation E R T down P i x) S"
  have "one_per_loan (im_data (snd ?w))"
    by (rule one_per_loan_withIdempotency [OF assms])
      (auto simp: disburse_operation_def chain_eq_Inr intro: one_per_loan_tx [OF assms])
  moreover obtain o1 S1 where w: "?w = (o1, S1)" by (cases ?w)
  ultimately have s: "one_per_loan (im_data S1)" by simp
  show ?thesis
    using assms s w one_per_loan_after [of E P i _ "im_data S1"]
    by (auto simp: disburseNow_def split: sum.splits option.splits prod.splits) (metis snd_conv)+
qed

lemma ready_keeps_one:
  assumes "one_per_loan D" "ready_tx E P i D = Inr D'"
  shows "one_per_loan D'"
proof -
  from assms(2) obtain l D3 where f: "first_disbursement E P l D3 = Inr D'" and D3: "db_disbursements D3 = db_disbursements D"
    by (auto simp: ready_tx_def chain_eq_Inr Let_def set_loan_status_def split: option.splits if_splits)
  show ?thesis
  proof (cases "find (\<lambda>d. di_tenant d = pc_tenant P \<and> di_loan d = l_id l) (db_disbursements D3)")
    case None
    with f obtain d D4 where "create_disbursement E P l (default_key (l_id l)) DM_BANK_TRANSFER D3 = Inr (d, D4)"
      "db_disbursements D' = db_disbursements D4"
      by (auto simp: first_disbursement_def chain_eq_Inr)
    with one_per_loan_create [of D3] D3 assms(1) show ?thesis by (simp add: one_per_loan_def)
  next
    case (Some d)
    with f D3 assms(1) show ?thesis by (simp add: first_disbursement_def one_per_loan_def)
  qed
qed

lemma call_keeps_one:
  assumes "one_per_loan (im_data S)"
  shows "one_per_loan (im_data (snd (exec_disb c S)))"
proof -
  obtain E R T down P c' where c: "c = (E, R, T, down, P, c')" by (cases c)
  have now: "one_per_loan (im_data (snd (disburseNow E R T down P i x S)))" for i x
    by (rule one_per_loan_disburseNow [OF assms])
  show ?thesis
  proof (cases c')
    case (MarkReady i)
    have "one_per_loan D'" if "markReadyForDisbursement E P i (im_data S) = Inr D'" for D'
      using that ready_keeps_one [OF assms] by (auto simp: markReadyForDisbursement_def chain_eq_Inr one_per_loan_def)
    with assms show ?thesis
      by (cases "markReadyForDisbursement E P i (im_data S)") (simp_all add: c MarkReady)
  next
    case (DisburseNow i x)
    with now show ?thesis by (simp add: c)
  next
    case (Retry k remark force_fail)
    have "one_per_loan (im_data S1)" if "disburseNow E R T down P i x S = (o1, S1)" for i x o1 S1
      using now [of i x] that by simp
    then show ?thesis
      using assms by (auto simp: c Retry retryDisbursement_def one_per_loan_def
          split: sum.splits option.splits prod.splits)
  next
    case (Reverse k reason)
    have "one_per_loan D'" if "reverseDisbursement E P k reason (im_data S) = Inr D'" for D'
      using that assms post_entry_other_tables(11)
      by (fastforce simp: reverseDisbursement_def reverse_tx_def chain_eq_Inr one_per_loan_def map_update_where
          split: option.splits if_splits)
    with assms show ?thesis
      by (cases "reverseDisbursement E P k reason (im_data S)") (simp_all add: c Reverse)
  qed
qed

interpretation disb_calls: invariant_calls exec_disb "\<lambda>S. one_per_loan (im_data S)"
  by unfold_locales (rule call_keeps_one)

lemma distinct_filter_le_1:
  "distinct (map f xs) \<Longrightarrow> length (filter (\<lambda>x. f x = k \<and> P x) xs) \<le> 1"
proof (induction xs)
  case (Cons x xs)
  show ?case
  proof (cases "f x = k")
    case True
    with Cons.prems have "\<forall>y \<in> set xs. f y \<noteq> k" by (metis distinct.simps(2) imageI list.set_map list.simps(9))
    then have "filter (\<lambda>x. f x = k \<and> P x) xs = []" by (simp add: filter_empty_conv)
    then show ?thesis by simp
  qed (use Cons in simp)
qed simp

text \<open>
  Whatever payments are made, retried and reversed, a loan has at most one payment row: so at most
  one failed payment is ever counted, and the alarm on three failed attempts is never raised.
\<close>

lemma three_failures_are_never_counted:
  assumes "distinct (map di_loan (db_disbursements (im_data S)))"
  shows "failed_attempts t i (im_data (run_all exec_disb cs S)) \<le> 1 \<and>
    paid_out t i (im_data (run_all exec_disb cs S)) \<le> 1"
proof -
  let ?ds = "db_disbursements (im_data (run_all exec_disb cs S))"
  have d: "distinct (map di_loan ?ds)"
    using disb_calls.run_keeps [of S cs] assms by (simp add: one_per_loan_def)
  have "length (filter (\<lambda>d. di_tenant d = t \<and> di_loan d = i \<and> di_status d = s) ?ds) \<le> 1" for s
    using distinct_filter_le_1 [OF d, of i "\<lambda>d. di_tenant d = t \<and> di_status d = s"]
    by (simp add: conj_left_commute)
  then show ?thesis by (simp add: failed_attempts_def paid_out_def)
qed

section \<open>Payments that go through\<close>

lemma pay_out_total:
  assumes "0 < loan_amount l" "trim (di_key d) \<noteq> ''''" "pc_role P = SUPER_ADMIN"
    and "l_status l = LS_READY_FOR_DISBURSEMENT" "find (\<lambda>a. al_loan a = l_id l) (db_allocs D) = None"
    and pool: "\<And>D1. db_pools D1 = db_pools D \<Longrightarrow> db_allocs D1 = db_allocs D \<Longrightarrow>
      \<exists>p. resolveFundingPoolForLoan R (pc_tenant P) (loan_amount l) D1 = Inr p"
    and "length (db_disbursements D) \<le> 1" "trim (l_phone l) \<noteq> ''''"
    and "0 \<le> l_out_principal l" "0 \<le> l_out_interest l" "0 \<le> l_out_fees l" "0 \<le> l_out_total l"
  shows "\<exists>D'. pay_out E R T P l d m remark D = Inr D'"
proof -
  have "post_guards (payout_entry E P l d m)"
    using assms(1-3) by (simp add: post_guards_def payout_entry_def line_pair_def bank_account_def)
  from post_entry_total [OF this, of E D] obtain r D1 where p: "post_entry E (payout_entry E P l d m) D = Inr (r, D1)"
    by (elim exE)
  note same = post_entry_other_tables [OF p]
  from pool [of D1] same obtain pl where pl: "resolveFundingPoolForLoan R (pc_tenant P) (loan_amount l) D1 = Inr pl"
    by auto
  let ?actor = "\<lparr>ta_id = Some (pc_admin P), ta_role = Some (pc_role P)\<rparr>"
  have none: "find (\<lambda>a. al_loan a = l_id l) (db_allocs D1) = None" using assms(5) same by simp
  have "assertRoleCanPost (ta_role ?actor) E_ADJUSTMENT = Inr ()" using assms(3) by simp
  from deploy_exists [OF none pl assms(1) this, of E "l_currency l" "di_id d"] obtain a D2 where
    q: "deployToLoan E R (pc_tenant P) (l_id l) (loan_amount l) (l_currency l) (di_id d) ?actor D1 = Inr (a, D2)"
    by blast
  let ?D4 = "mark_disbursed E T P l (record_success E P l d m remark D2)"
  have "length (db_disbursements D2) \<le> 1" using deploy_disbursements [OF q] same assms(7) by simp
  moreover have "db_disbursements ?D4 = db_disbursements (record_success E P l d m remark D2)"
    by (simp add: mark_disbursed_def)
  ultimately have "length (db_disbursements ?D4) \<le> 1" by (simp add: record_success_def)
  then have n: "assertNoDuplicateDisbursement (paid_out (pc_tenant P) (l_id l) ?D4) = Inr ()"
    using le_trans [OF length_filter_le] by (simp add: assertNoDuplicateDisbursement_def paid_out_def not_less)
  have v: "assertValidTransition (l_status l) LS_DISBURSED = Inr ()"
    "assertRoleCanTransition (pc_role P) (l_status l) LS_DISBURSED = Inr ()"
    using assms(3,4) by (simp_all add: roleCanTransition_def)
  have nn: "assertLoanNonNegative (l_out_principal l) (l_out_interest l) (l_out_fees l) (l_out_total l) = Inr ()"
    "assertLoanCanClose LS_DISBURSED (l_out_total l) = Inr ()"
    using assms(9-12) by (simp_all add: assertLoanNonNegative_def assertLoanCanClose_def)
  obtain D' where an: "announce P l d ?D4 = Inr D'" using assms(8) by (simp add: announce_def Let_def)
  show ?thesis by (simp only: pay_out_def p q chain_Inr prod.case Let_def v n nn an) blast
qed

section \<open>Witnesses\<close>

definition paying_admin :: "admin_role \<Rightarrow> principal" where
  "paying_admin role = \<lparr>pc_admin = ''a'', pc_tenant = ''ten'', pc_role = role\<rparr>"

definition ready_loan :: loan where
  "ready_loan = sample_loan\<lparr>l_status := LS_READY_FOR_DISBURSEMENT\<rparr>"

definition approval :: risk_eval where
  "approval = \<lparr>rv_id = ''e'', rv_tenant = ''ten'', rv_loan = ''loan'', rv_borrower = ''080'', rv_policy = ''p'',
     rv_trigger = AUTO_ON_SUBMISSION, rv_assessment = \<lparr>rk_score = 800, rk_decision = RD_APPROVE, rk_reasons = []\<rparr>,
     rv_snapshot = sample_snapshot, rv_created_by = None, rv_created = 0\<rparr>"

definition ready_db :: db where
  "ready_db = loan_db\<lparr>db_loans := [ready_loan], db_risk_evals := [approval],
     db_pools := [(sample_pool ''p'' 1000 None)\<lparr>po_tenant := ''ten''\<rparr>]\<rparr>"

definition no_texts :: texts where
  "no_texts = \<lparr>tx_date = (\<lambda>_. ''''), tx_decimal = (\<lambda>_. '''')\<rparr>"

definition plain_input :: "bool option \<Rightarrow> disburse_input" where
  "plain_input f = \<lparr>dn_method = None, dn_key = None, dn_note = None, dn_force_fail = f\<rparr>"

lemma ready_guards: "disburse_guards (paying_admin r) ''loan'' ready_db = Inr ready_loan"
  by (simp add: disburse_guards_def ready_db_def ready_loan_def sample_loan_def loan_db_def empty_db_def paying_admin_def
      assertBorrowerNotRestricted_def stored_gate_def getRiskSnapshot_def approval_def enforceRiskGate_def
      listActiveHolds_def hasOpenAlertAtOrAbove_def Let_def filled_def)

definition first_payment :: "principal \<Rightarrow> string \<Rightarrow> disbursement" where
  "first_payment P key = \<lparr>di_id = '''', di_tenant = pc_tenant P, di_loan = ''loan'', di_key = key, di_amount = 100,
     di_currency = ''NGN'', di_method = DM_BANK_TRANSFER, di_status = D_PENDING, di_provider = None,
     di_reference = None, di_initiated_by = Some (pc_admin P), di_processed_at = None, di_failure = None,
     di_disbursed_at = None\<rparr>"

lemma ready_takes:
  "take_disbursement sample_env (paying_admin r) ready_loan key DM_BANK_TRANSFER None ready_db =
     Inr (first_payment (paying_admin r) key,
       ready_db\<lparr>db_seq := 1, db_disbursements := [first_payment (paying_admin r) key]\<rparr>)"
  by (simp add: take_disbursement_def create_disbursement_def ready_db_def loan_db_def empty_db_def fresh_def sample_env_def
      first_payment_def ready_loan_def sample_loan_def loan_amount_def Let_def)

lemma ready_resolves:
  assumes "db_pools D = db_pools ready_db" "db_allocs D = db_allocs ready_db"
  shows "resolveFundingPoolForLoan exact_ops ''ten'' 100 D = Inr ((sample_pool ''p'' 1000 None)\<lparr>po_tenant := ''ten''\<rparr>)"
  using assms by (simp add: pool_eval ready_db_def loan_db_def empty_db_def)

lemma ready_pays:
  "\<exists>D'. disburse_tx sample_env exact_ops no_texts False (paying_admin SUPER_ADMIN) ''loan'' (plain_input None) ''k'' ready_db =
     Inr (('''', D_SUCCESS), D')"
proof -
  let ?P = "paying_admin SUPER_ADMIN" and ?d = "first_payment (paying_admin SUPER_ADMIN) ''k''"
  let ?D1 = "ready_db\<lparr>db_seq := 1, db_disbursements := [?d]\<rparr>"
  let ?D2 = "start_processing ?P ready_loan ?d None ?D1"
  have l: "loan_amount ready_loan = 100" "l_id ready_loan = ''loan''" "l_status ready_loan = LS_READY_FOR_DISBURSEMENT"
    "l_out_principal ready_loan = 100" "l_out_interest ready_loan = 16" "l_out_fees ready_loan = 4" "l_out_total ready_loan = 120"
    "l_phone ready_loan = ''080''"
    by (simp_all add: ready_loan_def sample_loan_def loan_amount_def)
  have tables: "db_pools ?D2 = db_pools ready_db" "db_allocs ?D2 = db_allocs ready_db" "length (db_disbursements ?D2) \<le> 1"
    "db_allocs ready_db = []"
    by (simp_all add: start_processing_def writeDisbursementHistory_def set_disbursement_def ready_db_def loan_db_def empty_db_def)
  have t: "trim (di_key ?d) \<noteq> ''''" "trim ''080'' \<noteq> ''''" "pc_role ?P = SUPER_ADMIN" "pc_tenant ?P = ''ten''" "di_id ?d = ''''"
    by (simp_all add: first_payment_def paying_admin_def) code_simp+
  have "\<exists>D'. pay_out sample_env exact_ops no_texts ?P ready_loan ?d DM_BANK_TRANSFER None ?D2 = Inr D'"
    by (rule pay_out_total) (use ready_resolves tables l t in simp_all)
  then obtain D' where "pay_out sample_env exact_ops no_texts ?P ready_loan ?d DM_BANK_TRANSFER None ?D2 = Inr D'"
    by (elim exE)
  moreover have "find (\<lambda>d. di_tenant d = pc_tenant ?P \<and> di_key d = ''k'') (db_disbursements ready_db) = None"
    by (simp add: ready_db_def loan_db_def empty_db_def)
  ultimately show ?thesis
    unfolding disburse_tx_def ready_guards chain_Inr
    by (simp add: plain_input_def disburse_new_def ready_takes shouldFailProvider_def t)
qed

lemma ready_unpaid: "paid_out t i ready_db = 0" "loan_alloc t i ready_db = None"
  by (simp_all add: paid_out_def loan_alloc_def ready_db_def loan_db_def empty_db_def)

theorem only_super_admin_disburses_witness:
  "\<exists>D'. disburse_tx sample_env exact_ops no_texts False (paying_admin SUPER_ADMIN) ''loan'' (plain_input None) ''k'' ready_db =
     Inr (('''', D_SUCCESS), D') \<and> pc_role (paying_admin SUPER_ADMIN) = SUPER_ADMIN"
proof -
  obtain D' where p: "disburse_tx sample_env exact_ops no_texts False (paying_admin SUPER_ADMIN) ''loan'' (plain_input None)
      ''k'' ready_db = Inr (('''', D_SUCCESS), D')"
    using ready_pays by (elim exE)
  from only_super_admin_disburses [OF p ready_unpaid] p show ?thesis by (intro exI conjI)
qed

theorem payment_passes_checks_witness:
  "\<exists>D'. disburse_tx sample_env exact_ops no_texts False (paying_admin SUPER_ADMIN) ''loan'' (plain_input None) ''k'' ready_db =
     Inr (('''', D_SUCCESS), D') \<and> paid_out ''ten'' ''loan'' D' \<le> 1 \<and> loan_alloc ''ten'' ''loan'' D' \<noteq> None"
proof -
  obtain D' where p: "disburse_tx sample_env exact_ops no_texts False (paying_admin SUPER_ADMIN) ''loan'' (plain_input None)
      ''k'' ready_db = Inr (('''', D_SUCCESS), D')"
    using ready_pays by (elim exE)
  have t: "pc_tenant (paying_admin SUPER_ADMIN) = ''ten''" by (simp add: paying_admin_def)
  from payment_passes_checks [OF p ready_unpaid(1)]
  have "paid_out ''ten'' ''loan'' D' \<le> 1 \<and> loan_alloc ''ten'' ''loan'' D' \<noteq> None"
    unfolding t by (elim exE conjE) (intro conjI)
  with p show ?thesis by blast
qed

definition start_state :: disb_state where
  "start_state = \<lparr>im_rows = [], im_seq = 0, im_data = ready_db\<rparr>"

text \<open>The provider is made to refuse.\<close>

lemma refused:
  "\<exists>S' d. disburseNow sample_env exact_ops no_texts False (paying_admin OPS) ''loan'' (plain_input (Some True)) start_state =
       (Inr ('''', D_FAILED), S') \<and> find_disbursement (paying_admin OPS) '''' (im_data S') = Some d \<and> di_loan d = ''loan''"
proof -
  let ?P = "paying_admin OPS" and ?x = "plain_input (Some True)"
  let ?q = "disburse_request ?P ''loan'' ?x"
  let ?key = "default_key ''loan''"
  let ?d = "first_payment ?P ?key"
  let ?D = "record_failure sample_env ?P ready_loan ?d (start_processing ?P ready_loan ?d None
      (ready_db\<lparr>db_seq := 1, db_disbursements := [?d]\<rparr>))"
  have k: "requested_key ''loan'' ?x = ?key" by (simp add: requested_key_def plain_input_def trim_or_null_def)
  have "trim ?key \<noteq> ''''" by code_simp
  then have de: "decide ?q start_state = Inr None"
    by (simp add: decide_def disburse_request_def k tenant_find_def start_state_def)
  have "\<exists>i S1. acquire sample_env ?q start_state = Inr (i, S1)"
    by (rule acquire_total) (simp add: start_state_def)
  then obtain i S1 where ac: "acquire sample_env ?q start_state = Inr (i, S1)" by (elim exE)
  from acquire_row [OF ac] have S1: "im_data S1 = ready_db" by (auto simp: start_state_def)
  have "find (\<lambda>d. di_tenant d = pc_tenant ?P \<and> di_key d = ?key) (db_disbursements ready_db) = None"
    by (simp add: ready_db_def loan_db_def empty_db_def)
  then have tx: "disburse_tx sample_env exact_ops no_texts False ?P ''loan'' ?x ?key ready_db = Inr (('''', D_FAILED), ?D)"
    unfolding disburse_tx_def ready_guards chain_Inr
    by (simp add: plain_input_def disburse_new_def ready_takes shouldFailProvider_def first_payment_def)
  have w: "\<exists>S2. withIdempotency sample_env ?q (disburse_operation sample_env exact_ops no_texts False ?P ''loan'' ?x) start_state =
      (Inr (Some ('''', D_FAILED)), S2) \<and> im_data S2 = ?D"
    unfolding withIdempotency_runs [OF de ac]
    by (simp add: finish_def S1 disburse_operation_def k tx update_row_def)
  then obtain S2 where w: "withIdempotency sample_env ?q (disburse_operation sample_env exact_ops no_texts False ?P ''loan'' ?x) start_state =
      (Inr (Some ('''', D_FAILED)), S2)" and S2: "im_data S2 = ?D" by (elim exE conjE)
  obtain o1 D2 where a: "after_disburse sample_env ?P ''loan'' ('''', D_FAILED) ?D = (o1, D2)"
    by (cases "after_disburse sample_env ?P ''loan'' ('''', D_FAILED) ?D")
  note t = after_failure_tables [OF a]
  have "disburseNow sample_env exact_ops no_texts False ?P ''loan'' ?x start_state = (Inr ('''', D_FAILED), S2\<lparr>im_data := D2\<rparr>)"
    using w a t S2 by (simp add: disburseNow_def assertOpsOrSuperAdmin_def) (simp add: paying_admin_def)
  moreover have "find_disbursement ?P '''' D2 \<noteq> None \<and> (\<forall>d. find_disbursement ?P '''' D2 = Some d \<longrightarrow> di_loan d = ''loan'')"
    using t by (simp add: find_disbursement_def record_failure_def start_processing_def first_payment_def paying_admin_def)
  ultimately show ?thesis by auto
qed

lemma failed_payment_is_not_retried_witness:
  "\<exists>S' r S''. disburseNow sample_env exact_ops no_texts False (paying_admin OPS) ''loan'' (plain_input (Some True)) start_state =
       (Inr ('''', D_FAILED), S') \<and>
     retryDisbursement sample_env exact_ops no_texts False (paying_admin SUPER_ADMIN) '''' None None S' = (r, S'') \<and>
     db_disbursements (im_data S'') = db_disbursements (im_data S')"
proof -
  obtain S' d where p: "disburseNow sample_env exact_ops no_texts False (paying_admin OPS) ''loan'' (plain_input (Some True)) start_state =
       (Inr ('''', D_FAILED), S')" and d: "find_disbursement (paying_admin OPS) '''' (im_data S') = Some d" "di_loan d = ''loan''"
    using refused by (elim exE conjE)
  have "\<exists>r S''. retryDisbursement sample_env exact_ops no_texts False (paying_admin SUPER_ADMIN) '''' None None S' = (r, S'') \<and>
      db_disbursements (im_data S'') = db_disbursements (im_data S') \<and> db_loans (im_data S'') = db_loans (im_data S')"
    by (rule failed_payment_is_not_retried [OF p _ _ _ d(2)])
      (use d in \<open>simp_all add: plain_input_def trim_or_null_def paying_admin_def find_disbursement_def\<close>)
  with p show ?thesis by blast
qed

lemma three_failures_are_never_counted_witness:
  "failed_attempts ''ten'' ''loan'' (im_data (run_all exec_disb
     [(sample_env, exact_ops, no_texts, True, paying_admin OPS, DisburseNow ''loan'' (plain_input None)),
      (sample_env, exact_ops, no_texts, True, paying_admin OPS, Retry '''' None None)] start_state)) < 3"
  using three_failures_are_never_counted [of start_state "''ten''" "''loan''"
    "[(sample_env, exact_ops, no_texts, True, paying_admin OPS, DisburseNow ''loan'' (plain_input None)),
      (sample_env, exact_ops, no_texts, True, paying_admin OPS, Retry '''' None None)]"]
  by (simp add: start_state_def ready_db_def loan_db_def empty_db_def del: exec_disb.simps run_all.simps)

definition paid_db :: db where
  "paid_db = loan_db\<lparr>db_disbursements := [(first_payment (paying_admin SUPER_ADMIN) ''k'')\<lparr>di_status := D_SUCCESS\<rparr>]\<rparr>"

lemma reversal_leaves_loan_disbursed_witness:
  "\<exists>D'. reverseDisbursement sample_env (paying_admin SUPER_ADMIN) '''' ''error'' paid_db = Inr D' \<and>
     db_loans D' = db_loans paid_db \<and> db_allocs D' = db_allocs paid_db"
proof -
  let ?P = "paying_admin SUPER_ADMIN"
  let ?d = "(first_payment ?P ''k'')\<lparr>di_status := D_SUCCESS\<rparr>"
  have d: "find_disbursement ?P '''' paid_db = Some ?d"
    by (simp add: find_disbursement_def paid_db_def first_payment_def paying_admin_def)
  have l: "find (\<lambda>l. l_id l = di_loan ?d \<and> l_tenant l = pc_tenant ?P) (db_loans paid_db) = Some sample_loan"
    by (simp add: paid_db_def first_payment_def paying_admin_def loan_db_def) (simp add: sample_loan_def)
  have "trim (''reverse:'' @ '''') \<noteq> ''''" by code_simp
  then have "post_guards (reversal_entry sample_env ?P ?d)"
    by (simp add: post_guards_def reversal_entry_def first_payment_def paying_admin_def line_pair_def bank_account_def)
  from post_entry_total [OF this, of sample_env paid_db] obtain r D1 where
    "post_entry sample_env (reversal_entry sample_env ?P ?d) paid_db = Inr (r, D1)" by (elim exE)
  then have "\<exists>D'. reverseDisbursement sample_env ?P '''' ''error'' paid_db = Inr D'"
    by (simp add: reverseDisbursement_def assertOpsOrSuperAdmin_def reverse_tx_def d) (simp add: paying_admin_def)
  then obtain D' where r: "reverseDisbursement sample_env ?P '''' ''error'' paid_db = Inr D'" by (elim exE)
  have "l_status sample_loan = LS_DISBURSED" by (simp add: sample_loan_def)
  from reversal_leaves_loan_disbursed [OF r d l this refl] r show ?thesis by blast
qed

end
