(* ===== verification/TextCodec.thy ===== *)
theory TextCodec
  imports Calendar Risk
begin

text \<open>
  The parts of JavaScript's standard library the page cursors are made with: base64url as
  \<open>Buffer\<close> writes and reads it, \<open>JSON.stringify\<close> and \<open>JSON.parse\<close>, and the ISO format of
  dates. Each writer comes with the lemma that the reader gives back what was written. A text is
  the list of its UTF-8 bytes; the bytes an ill-formed sequence decodes to are kept as they are, and
  the two halves of an escaped surrogate pair are read as two characters.
\<close>

section \<open>base64url\<close>

definition b64_alphabet :: string where
  "b64_alphabet = ''ABCDEFGHIJKLMNOPQRSTUVWXYZabcdefghijklmnopqrstuvwxyz0123456789-_''"

definition b64_char :: "nat \<Rightarrow> char" where
  "b64_char n = b64_alphabet ! n"

text \<open>Both alphabets are read, whichever of the two is asked for.\<close>

definition b64_value :: "char \<Rightarrow> nat option" where
  "b64_value c =
     (let n = of_char c :: nat
      in if 65 \<le> n \<and> n \<le> 90 then Some (n - 65)
         else if 97 \<le> n \<and> n \<le> 122 then Some (n - 71)
         else if 48 \<le> n \<and> n \<le> 57 then Some (n + 4)
         else if c = CHR ''-'' \<or> c = CHR ''+'' then Some 62
         else if c = CHR ''_'' \<or> c = CHR 0x2F then Some 63
         else None)"

text \<open>Three bytes are four groups of six bits.\<close>

fun sextets :: "nat list \<Rightarrow> nat list" where
  "sextets (a # b # c # r) =
     [a div 4, a mod 4 * 16 + b div 16, b mod 16 * 4 + c div 64, c mod 64] @ sextets r"
| "sextets [a, b] = [a div 4, a mod 4 * 16 + b div 16, b mod 16 * 4]"
| "sextets [a] = [a div 4, a mod 4 * 16]"
| "sextets [] = []"

fun octets :: "nat list \<Rightarrow> nat list" where
  "octets (p # q # r # s # t) =
     [p * 4 + q div 16, q mod 16 * 16 + r div 4, r mod 4 * 64 + s] @ octets t"
| "octets [p, q, r] = [p * 4 + q div 16, q mod 16 * 16 + r div 4]"
| "octets [p, q] = [p * 4 + q div 16]"
| "octets [p] = []"
| "octets [] = []"

definition to_base64url :: "string \<Rightarrow> string" where
  "to_base64url s = map b64_char (sextets (map of_char s))"

text \<open>What is not in the alphabet is skipped; padding ends the text.\<close>

definition from_base64url :: "string \<Rightarrow> string" where
  "from_base64url s = map char_of (octets (List.map_filter b64_value (takeWhile (\<lambda>c. c \<noteq> CHR ''='') s)))"

lemma b64_alphabet_read:
  "map b64_value b64_alphabet = map Some [0..<64]" "length b64_alphabet = 64" "CHR ''='' \<notin> set b64_alphabet"
  by (simp_all add: b64_alphabet_def b64_value_def upt_rec_numeral upt_conv_Cons [of 0] upt_conv_Cons [of "Suc 0"]
      numeral_2_eq_2 [symmetric])

lemma b64_value_char:
  assumes "n < 64"
  shows "b64_value (b64_char n) = Some n"
  using assms arg_cong [OF b64_alphabet_read(1), of "\<lambda>xs. xs ! n"] b64_alphabet_read(2)
  by (simp add: b64_char_def)

lemma b64_char_no_padding: "n < 64 \<Longrightarrow> b64_char n \<noteq> CHR ''=''"
  using b64_alphabet_read(2,3) by (metis b64_char_def nth_mem)

lemma pack_bound:
  fixes q x :: nat
  assumes "q < k" and "x < m" and "m * k \<le> n"
  shows "x * k + q < n"
proof -
  have "x * k + q < (x + 1) * k" using assms(1) by simp
  also have "\<dots> \<le> m * k" using assms(2) by (intro mult_le_mono) simp_all
  finally show ?thesis using assms(3) by simp
qed

lemma sextets_bound: "\<forall>b \<in> set bs. b < 256 \<Longrightarrow> \<forall>n \<in> set (sextets bs). n < 64"
proof (induction bs rule: sextets.induct)
  case (1 a b c r)
  then have "a div 4 < 64" "b div 16 < 16" "c div 64 < 4" by (auto simp: less_mult_imp_div_less)
  with 1 show ?case by (simp add: pack_bound [where k = 16 and m = 4] pack_bound [where k = 4 and m = 16])
next
  case (2 a b)
  then have "a div 4 < 64" "b div 16 < 16" by (auto simp: less_mult_imp_div_less)
  then show ?case by (simp add: pack_bound [where k = 16 and m = 4] pack_bound [where k = 4 and m = 16 and q = 0, simplified])
next
  case (3 a)
  then have "a div 4 < 64" by (auto simp: less_mult_imp_div_less)
  then show ?case by (simp add: pack_bound [where k = 16 and m = 4 and q = 0, simplified])
qed simp

lemma pack_bits:
  fixes q k x :: nat
  assumes "q < k"
  shows "(x * k + q) div k = x" "(x * k + q) mod k = q"
  using assms by simp_all

lemma octets_sextets: "\<forall>b \<in> set bs. b < 256 \<Longrightarrow> octets (sextets bs) = bs"
proof (induction bs rule: sextets.induct)
  case (1 a b c r)
  then have "b div 16 < 16" "c div 64 < 4" by (auto simp: less_mult_imp_div_less)
  with 1 show ?case by (simp add: pack_bits)
next
  case (2 a b)
  then have "b div 16 < 16" by (auto simp: less_mult_imp_div_less)
  then show ?case by (simp add: pack_bits)
qed simp_all

theorem base64url_read: "from_base64url (to_base64url s) = s"
proof -
  define ns where "ns = sextets (map of_char s :: nat list)"
  have bytes: "\<forall>b \<in> set (map of_char s :: nat list). b < 256" by auto
  from sextets_bound [OF bytes] have ns: "\<forall>n \<in> set ns. n < 64" unfolding ns_def .
  then have "takeWhile (\<lambda>c. c \<noteq> CHR ''='') (map b64_char ns) = map b64_char ns"
    by (simp only: takeWhile_eq_all_conv) (auto simp: b64_char_no_padding)
  moreover from ns have "List.map_filter b64_value (map b64_char ns) = ns"
    by (induction ns) (simp_all add: List.map_filter_simps b64_value_char)
  ultimately show ?thesis
    by (simp only: from_base64url_def to_base64url_def ns_def octets_sextets [OF bytes] map_map comp_def char_of_char map_ident)
qed

section \<open>JSON\<close>

text \<open>\<open>JSON.stringify\<close> of a text, and of an object whose members are texts.\<close>

definition hex_char :: "nat \<Rightarrow> char" where
  "hex_char n = ''0123456789abcdef'' ! n"

definition escape_char :: "char \<Rightarrow> string" where
  "escape_char c =
     (if c = CHR 0x22 then [CHR 0x5C, CHR 0x22]
      else if c = CHR 0x5C then [CHR 0x5C, CHR 0x5C]
      else if c = CHR 0x08 then [CHR 0x5C, CHR ''b'']
      else if c = CHR 0x09 then [CHR 0x5C, CHR ''t'']
      else if c = CHR 0x0A then [CHR 0x5C, CHR ''n'']
      else if c = CHR 0x0C then [CHR 0x5C, CHR ''f'']
      else if c = CHR 0x0D then [CHR 0x5C, CHR ''r'']
      else if (of_char c :: nat) < 32
        then [CHR 0x5C, CHR ''u'', CHR ''0'', CHR ''0'', hex_char (of_char c div 16), hex_char (of_char c mod 16)]
      else [c])"

definition quoted_text :: "string \<Rightarrow> string" where
  "quoted_text s = [CHR 0x22] @ concat (map escape_char s) @ [CHR 0x22]"

fun json_members_text :: "(string \<times> string) list \<Rightarrow> string" where
  "json_members_text [] = ''''"
| "json_members_text [(k, v)] = quoted_text k @ '':'' @ quoted_text v"
| "json_members_text ((k, v) # m # ms) = quoted_text k @ '':'' @ quoted_text v @ '','' @ json_members_text (m # ms)"

definition json_object_text :: "(string \<times> string) list \<Rightarrow> string" where
  "json_object_text ms = ''{'' @ json_members_text ms @ ''}''"

text \<open>
  \<open>JSON.parse\<close>. The fuel bounds the nesting of the calls, of which each reads at least one
  character before the next: more than the length of the text is enough.
\<close>

definition hex_value :: "char \<Rightarrow> nat option" where
  "hex_value c =
     (let n = of_char c :: nat
      in if 48 \<le> n \<and> n \<le> 57 then Some (n - 48)
         else if 97 \<le> n \<and> n \<le> 102 then Some (n - 87)
         else if 65 \<le> n \<and> n \<le> 70 then Some (n - 55) else None)"

definition utf8 :: "nat \<Rightarrow> string" where
  "utf8 n =
     (if n < 128 then [char_of n]
      else if n < 2048 then [char_of (192 + n div 64), char_of (128 + n mod 64)]
      else [char_of (224 + n div 4096), char_of (128 + n div 64 mod 64), char_of (128 + n mod 64)])"

definition escaped :: "char \<Rightarrow> string option" where
  "escaped e =
     (if e = CHR 0x22 \<or> e = CHR 0x5C \<or> e = CHR 0x2F then Some [e]
      else if e = CHR ''b'' then Some [CHR 0x08]
      else if e = CHR ''t'' then Some [CHR 0x09]
      else if e = CHR ''n'' then Some [CHR 0x0A]
      else if e = CHR ''f'' then Some [CHR 0x0C]
      else if e = CHR ''r'' then Some [CHR 0x0D] else None)"

definition hex4 :: "char \<Rightarrow> char \<Rightarrow> char \<Rightarrow> char \<Rightarrow> string option" where
  "hex4 a b c d =
     (case (hex_value a, hex_value b, hex_value c, hex_value d) of
        (Some w, Some x, Some y, Some z) \<Rightarrow> Some (utf8 (4096 * w + 256 * x + 16 * y + z))
      | _ \<Rightarrow> None)"

definition put :: "string \<Rightarrow> (string \<times> string) option \<Rightarrow> (string \<times> string) option" where
  "put x p = map_option (\<lambda>(s, t). (x @ s, t)) p"

text \<open>The rest of a text after its opening quote: its characters, and what follows it.\<close>

fun json_chars :: "string \<Rightarrow> (string \<times> string) option" where
  "json_chars [] = None"
| "json_chars (c # r) =
     (if c = CHR 0x22 then Some ([], r)
      else if c = CHR 0x5C then
        (case r of
           [] \<Rightarrow> None
         | e # r' \<Rightarrow>
             (if e = CHR ''u'' then
                (case r' of
                   w # x # y # z # r'' \<Rightarrow>
                     (case hex4 w x y z of None \<Rightarrow> None | Some u \<Rightarrow> put u (json_chars r''))
                 | _ \<Rightarrow> None)
              else (case escaped e of None \<Rightarrow> None | Some u \<Rightarrow> put u (json_chars r'))))
      else if (of_char c :: nat) < 32 then None
      else put [c] (json_chars r))"

text \<open>White space, and a character with white space before it.\<close>

definition json_skip :: "string \<Rightarrow> string" where
  "json_skip s = dropWhile (\<lambda>c. c \<in> set [CHR '' '', CHR 0x09, CHR 0x0A, CHR 0x0D]) s"

definition expect :: "char \<Rightarrow> string \<Rightarrow> string option" where
  "expect c s = (case json_skip s of [] \<Rightarrow> None | x # t \<Rightarrow> (if x = c then Some t else None))"

definition is_digit :: "char \<Rightarrow> bool" where
  "is_digit c \<longleftrightarrow> digit_value c \<noteq> None"

definition digits_read :: "string \<Rightarrow> rat" where
  "digits_read s = (case digits_value 0 s of Some n \<Rightarrow> of_nat n | None \<Rightarrow> 0)"

text \<open>The fraction and the exponent of a number, each with its value and what follows.\<close>

definition json_fraction :: "string \<Rightarrow> (rat \<times> string) option" where
  "json_fraction s =
     (case s of
        [] \<Rightarrow> Some (0, [])
      | c # t \<Rightarrow>
          (if c = CHR ''.'' then
             (let ds = takeWhile is_digit t
              in if ds = [] then None else Some (digits_read ds / 10 ^ length ds, dropWhile is_digit t))
           else Some (0, s)))"

definition json_exponent :: "string \<Rightarrow> (rat \<times> string) option" where
  "json_exponent s =
     (case s of
        [] \<Rightarrow> Some (1, [])
      | c # t \<Rightarrow>
          (if c = CHR ''e'' \<or> c = CHR ''E'' then
             (let u = (case t of [] \<Rightarrow> [] | d # w \<Rightarrow> (if d = CHR ''+'' \<or> d = CHR ''-'' then w else t));
                  ds = takeWhile is_digit u;
                  k = (10 :: rat) ^ nat \<lfloor>digits_read ds\<rfloor>
              in if ds = [] then None
                 else Some ((if t \<noteq> [] \<and> hd t = CHR ''-'' then 1 / k else k), dropWhile is_digit u))
           else Some (1, s)))"

definition json_number :: "string \<Rightarrow> (rule_value \<times> string) option" where
  "json_number s =
     (let negative = (s \<noteq> [] \<and> hd s = CHR ''-'');
          u = (if negative then tl s else s);
          ds = takeWhile is_digit u
      in if ds = [] \<or> (1 < length ds \<and> hd ds = CHR ''0'') then None
         else Option.bind (json_fraction (dropWhile is_digit u)) (\<lambda>(f, v).
              Option.bind (json_exponent v) (\<lambda>(e, w).
              Some (VNum ((if negative then - 1 else 1) * (digits_read ds + f) * e), w))))"

definition json_word :: "string \<Rightarrow> rule_value \<Rightarrow> string \<Rightarrow> (rule_value \<times> string) option" where
  "json_word w v s = (if take (length w) s = w then Some (v, drop (length w) s) else None)"

text \<open>The last member of a name counts.\<close>

definition object_of :: "(string \<times> rule_value) list \<Rightarrow> rule_value" where
  "object_of ms = VObj (rev ms)"

fun json_value :: "nat \<Rightarrow> string \<Rightarrow> (rule_value \<times> string) option"
  and json_members :: "nat \<Rightarrow> string \<Rightarrow> ((string \<times> rule_value) list \<times> string) option"
  and json_items :: "nat \<Rightarrow> string \<Rightarrow> (rule_value list \<times> string) option" where
  "json_value 0 s = None"
| "json_value (Suc n) s =
     (case json_skip s of
        [] \<Rightarrow> None
      | c # r \<Rightarrow>
          (if c = CHR 0x22 then map_option (\<lambda>(x, t). (VStr x, t)) (json_chars r)
           else if c = CHR ''{'' then
             (case expect (CHR ''}'') r of
                Some t \<Rightarrow> Some (VObj [], t)
              | None \<Rightarrow> map_option (\<lambda>(ms, t). (object_of ms, t)) (json_members n r))
           else if c = CHR ''['' then
             (case expect (CHR '']'') r of
                Some t \<Rightarrow> Some (VArr [], t)
              | None \<Rightarrow> map_option (\<lambda>(xs, t). (VArr xs, t)) (json_items n r))
           else if c = CHR ''t'' then json_word ''true'' (VBool True) (c # r)
           else if c = CHR ''f'' then json_word ''false'' (VBool False) (c # r)
           else if c = CHR ''n'' then json_word ''null'' VNull (c # r)
           else json_number (c # r)))"
| "json_members 0 s = None"
| "json_members (Suc n) s =
     Option.bind (expect (CHR 0x22) s) (\<lambda>r.
     Option.bind (json_chars r) (\<lambda>(k, t).
     Option.bind (expect (CHR '':'') t) (\<lambda>u.
     Option.bind (json_value n u) (\<lambda>(v, w).
       (case expect (CHR '','') w of
          Some x \<Rightarrow> map_option (\<lambda>(ms, y). ((k, v) # ms, y)) (json_members n x)
        | None \<Rightarrow> map_option (\<lambda>x. ([(k, v)], x)) (expect (CHR ''}'') w))))))"
| "json_items 0 s = None"
| "json_items (Suc n) s =
     Option.bind (json_value n s) (\<lambda>(v, w).
       (case expect (CHR '','') w of
          Some x \<Rightarrow> map_option (\<lambda>(vs, y). (v # vs, y)) (json_items n x)
        | None \<Rightarrow> map_option (\<lambda>x. ([v], x)) (expect (CHR '']'') w)))"

definition json_parse :: "string \<Rightarrow> rule_value option" where
  "json_parse s =
     Option.bind (json_value (Suc (length s)) s) (\<lambda>(v, t). if json_skip t = [] then Some v else None)"

lemma put_Some [simp]: "put x (Some (s, t)) = Some (x @ s, t)"
  by (simp add: put_def)

lemma hex_digits_read: "map hex_value ''0123456789abcdef'' = map Some [0..<16]"
  by (simp add: hex_value_def upt_rec_numeral upt_conv_Cons [of 0] upt_conv_Cons [of "Suc 0"]
      numeral_2_eq_2 [symmetric])

lemma hex_read: "n < 16 \<Longrightarrow> hex_value (hex_char n) = Some n"
  using arg_cong [OF hex_digits_read, of "\<lambda>xs. xs ! n"] by (simp add: hex_char_def del: list.map)

lemma escaped_chars_read: "json_chars (escape_char c @ r) = put [c] (json_chars r)"
proof (cases "c \<in> set [CHR 0x22, CHR 0x5C, CHR 0x08, CHR 0x09, CHR 0x0A, CHR 0x0C, CHR 0x0D]")
  case True
  then show ?thesis by (auto simp: escape_char_def escaped_def)
next
  case False
  show ?thesis
  proof (cases "(of_char c :: nat) < 32")
    case True
    then have "(of_char c :: nat) div 16 < 16" "(of_char c :: nat) mod 16 < 16" by (simp_all add: less_mult_imp_div_less)
    moreover have "hex_value (CHR ''0'') = Some 0" by (simp add: hex_value_def)
    ultimately have "hex4 (CHR ''0'') (CHR ''0'') (hex_char (of_char c div 16)) (hex_char (of_char c mod 16)) = Some [c]"
      using True by (simp add: hex4_def hex_read utf8_def)
    with False True show ?thesis by (simp add: escape_char_def)
  next
    case False
    with \<open>c \<notin> _\<close> show ?thesis by (simp add: escape_char_def)
  qed
qed

lemma json_text_read: "json_chars (concat (map escape_char s) @ CHR 0x22 # r) = Some (s, r)"
  by (induction s) (simp_all add: escaped_chars_read)

lemma json_text_value: "json_value (Suc n) (quoted_text s @ r) = Some (VStr s, r)"
  by (simp add: quoted_text_def json_skip_def json_text_read)

lemma expect_here [simp]:
  "expect c (c # s) = Some s" if "c \<notin> set [CHR '' '', CHR 0x09, CHR 0x0A, CHR 0x0D]"
  using that by (auto simp: expect_def json_skip_def)

lemma members_read:
  "ms \<noteq> [] \<Longrightarrow> length ms < n \<Longrightarrow>
   json_members n (json_members_text ms @ CHR ''}'' # r) = Some (map (\<lambda>(k, v). (k, VStr v)) ms, r)"
proof (induction ms arbitrary: n rule: json_members_text.induct)
  case 1
  then show ?case by simp
next
  case (2 k v)
  then obtain m where n: "n = Suc (Suc m)" by (cases n; cases "n - 1") auto
  show ?case
    unfolding n json_members_text.simps
    by (simp add: quoted_text_def expect_def json_skip_def json_text_read)
next
  case (3 k v m ms)
  then obtain j where n: "n = Suc j" "length (m # ms) < j" by (cases n) auto
  then obtain i where j: "j = Suc i" by (cases j) auto
  from 3 n have IH: "json_members j (json_members_text (m # ms) @ CHR ''}'' # r) =
      Some (map (\<lambda>(k, v). (k, VStr v)) (m # ms), r)"
    by simp
  show ?case
    unfolding n(1) json_members_text.simps
    using IH by (simp add: quoted_text_def expect_def json_skip_def json_text_read j)
qed

lemma members_text_length: "length ms \<le> length (json_members_text ms)"
  by (induction ms rule: json_members_text.induct) (simp_all add: quoted_text_def)

theorem json_object_read:
  assumes "ms \<noteq> []"
  shows "json_parse (json_object_text ms) = Some (object_of (map (\<lambda>(k, v). (k, VStr v)) ms))"
proof -
  have "length ms < length (json_object_text ms)"
    using members_text_length [of ms] by (simp add: json_object_text_def)
  with assms have "json_members (length (json_object_text ms)) (json_members_text ms @ ''}'') =
      Some (map (\<lambda>(k, v). (k, VStr v)) ms, [])"
    using members_read [of ms _ "[]"] by simp
  moreover have "expect (CHR ''}'') (json_members_text ms @ ''}'') = None"
    using assms by (cases ms rule: json_members_text.cases) (auto simp: quoted_text_def expect_def json_skip_def)
  ultimately show ?thesis
    by (simp add: json_parse_def json_object_text_def json_skip_def)
qed

section \<open>The day of the month\<close>

lemma era_divisions:
  fixes d a s b r :: int
  assumes "d = 1460 * a + s" "0 \<le> s" "s < 1460" "d = 36524 * b + r" "0 \<le> r" "r < 36524"
    and "0 \<le> b" "b \<le> 3" "0 \<le> d" "d < 146097"
  shows "a \<le> 100" "b \<le> a" "0 \<le> d - a + b - 36500 * b" "d - a + b - 36500 * b < 36500"
proof -
  show "a \<le> 100" using assms(1,2,10) by linarith
  have eq: "1460 * a + s = 36524 * b + r" using assms(1,4) by simp
  show "b \<le> a"
  proof (rule ccontr)
    assume "\<not> b \<le> a"
    then have "1460 * a + 1460 \<le> 1460 * b" by simp
    then show False using eq assms(3,5,7) by linarith
  qed
  have b: "b = 0 \<or> b = 1 \<or> b = 2 \<or> b = 3" using assms(7,8) by linarith
  then show "0 \<le> d - a + b - 36500 * b" using eq assms(2,3,5,6) unfolding assms(4) by auto
  from b show "d - a + b - 36500 * b < 36500" using eq assms(2,3,5,6) unfolding assms(4) by auto
qed

text \<open>The day of the year that \<open>month_of_day\<close> finds.\<close>

definition era_year :: "int \<Rightarrow> int" where
  "era_year d = (d - d div 1460 + d div 36524 - d div 146096) div 365"

definition year_day :: "int \<Rightarrow> int" where
  "year_day d = d - (365 * era_year d + era_year d div 4 - era_year d div 100)"

lemma year_day_bounds:
  assumes "0 \<le> d" and "d < 146097"
  shows "0 \<le> year_day d" and "year_day d \<le> 365" and "0 \<le> era_year d" and "era_year d < 400"
proof -
  define a where "a = d div 1460"
  define s where "s = d mod 1460"
  define b where "b = d div 36524"
  define r where "r = d mod 36524"
  have split: "d = 1460 * a + s" "0 \<le> s" "s < 1460" "d = 36524 * b + r" "0 \<le> r" "r < 36524"
    by (simp_all add: a_def s_def b_def r_def)
  have "0 \<le> year_day d \<and> year_day d \<le> 365 \<and> 0 \<le> era_year d \<and> era_year d < 400"
  proof (cases "d = 146096")
    case True
    then show ?thesis by (simp add: year_day_def era_year_def)
  next
    case False
    define q where "q = d - a + b"
    have b: "0 \<le> b" "b \<le> 3" using split assms False by linarith+
    note bounds = era_divisions [OF split b assms, folded q_def]
    have "d div 146096 = 0" using assms False by (simp add: div_pos_pos_trivial)
    then have y: "era_year d = q div 365" by (simp add: era_year_def q_def a_def b_def)
    have century: "q div 36500 = b" using bounds(3,4) by (intro int_div_pos_eq [of _ _ _ "q - 36500 * b"]) auto
    have q: "q = 1460 * a + (s - a + b)" by (simp add: q_def split(1))
    then have "q = 1460 * (a - 1) + (s - a + b + 1460)" by simp
    then have four: "q div 1460 = a \<or> q div 1460 = a - 1"
      using bounds(1,2) b split(2,3) q
      by (cases "0 \<le> s - a + b")
        (auto intro: int_div_pos_eq [of _ _ _ "s - a + b"] int_div_pos_eq [of _ _ _ "s - a + b + 1460"])
    have "era_year d div 4 = q div 1460" "era_year d div 100 = q div 36500"
      by (simp_all add: y zdiv_zmult2_eq [symmetric])
    moreover have "0 \<le> q - 365 * era_year d" "q - 365 * era_year d \<le> 364"
      unfolding y by (simp_all add: minus_mult_div_eq_mod)
    moreover have "0 \<le> q" "q < 146000" using bounds(3,4) b by linarith+
    then have "0 \<le> era_year d" "era_year d < 400" unfolding y by (simp_all add: pos_imp_zdiv_nonneg_iff)
    ultimately show ?thesis using century four q_def by (auto simp: year_day_def)
  qed
  then show "0 \<le> year_day d" and "year_day d \<le> 365" and "0 \<le> era_year d" and "era_year d < 400" by auto
qed

lemma month_day_bounds:
  fixes k :: int
  assumes "0 \<le> k" and "k \<le> 365"
  defines "m \<equiv> (5 * k + 2) div 153"
  shows "0 \<le> m" "m \<le> 11" "0 \<le> k - (153 * m + 2) div 5" "k - (153 * m + 2) div 5 \<le> 30"
proof -
  define e where "e = (5 * k + 2) mod 153"
  define j where "j = (153 * m + 2) div 5"
  define f where "f = (153 * m + 2) mod 5"
  have m: "5 * k + 2 = 153 * m + e" "0 \<le> e" "e < 153" by (simp_all add: m_def e_def)
  have j: "153 * m + 2 = 5 * j + f" "0 \<le> f" "f < 5" by (simp_all add: j_def f_def)
  show "0 \<le> m" "m \<le> 11" using m assms(1,2) by linarith+
  from m j have "- 4 \<le> 5 * (k - j)" "5 * (k - j) \<le> 152" by simp_all
  then show "0 \<le> k - (153 * m + 2) div 5" "k - (153 * m + 2) div 5 \<le> 30"
    unfolding j_def [symmetric] by simp_all
qed

lemma day_of_month: "1 \<le> utc_date t" "utc_date t \<le> 31"
proof -
  define z where "z = t div ms_per_day + 719468"
  define era where "era = z div 146097"
  define d where "d = z mod 146097"
  define k where "k = year_day d"
  define m where "m = (5 * k + 2) div 153"
  have "0 \<le> d" "d < 146097" by (simp_all add: d_def)
  then have "0 \<le> k" "k \<le> 365" and y: "0 \<le> era_year d" "era_year d < 400"
    unfolding k_def by (simp_all add: year_day_bounds)
  note m = month_day_bounds [OF this(1,2), folded m_def]
  define y where "y = era_year d + era * 400"
  have "utc_month t = 12 * y + m + 2"
    by (simp only: utc_month_def month_of_day_def Let_def z_def era_def d_def k_def m_def y_def year_day_def era_year_def)
  moreover have "(12 * y + m + 2 - 2) div 12 = y" "(12 * y + m + 2 - 2) mod 12 = m"
    using m(1,2) int_div_pos_eq [of _ 12 y m] int_mod_pos_eq [of _ 12 y m] by simp_all
  ultimately have start: "month_start (utc_month t) =
      365 * y + y div 4 - y div 100 + y div 400 + (153 * m + 2) div 5 - 719468"
    by (simp only: month_start_def Let_def)
  have "y div 4 = era_year d div 4 + 100 * era" "y div 100 = era_year d div 100 + 4 * era" "y div 400 = era"
    using y by (simp_all add: y_def div_pos_pos_trivial)
  moreover have "k = d - (365 * era_year d + era_year d div 4 - era_year d div 100)"
    by (simp only: k_def year_day_def)
  moreover have "365 * (e + c * 400) + (f + 100 * c) - (g + 4 * c) + c + x - 719468 =
      146097 * c + d - (d - (365 * e + f - g)) + x - 719468" for e c f g x :: int
    by simp
  ultimately have "month_start (utc_month t) = 146097 * era + d - k + (153 * m + 2) div 5 - 719468"
    by (simp only: start y_def)
  moreover have "z = 146097 * era + d" by (simp add: era_def d_def)
  moreover have "t div ms_per_day = z - 719468" by (simp add: z_def)
  ultimately have "utc_date t = k - (153 * m + 2) div 5 + 1"
    unfolding utc_date_def by simp
  with m(3,4) show "1 \<le> utc_date t" "utc_date t \<le> 31" by simp_all
qed

section \<open>ISO dates\<close>

fun pad :: "nat \<Rightarrow> nat \<Rightarrow> string" where
  "pad 0 n = []"
| "pad (Suc k) n = pad k (n div 10) @ [char_of (48 + n mod 10)]"

definition year_text :: "int \<Rightarrow> string" where
  "year_text y =
     (if 0 \<le> y \<and> y \<le> 9999 then pad 4 (nat y)
      else (if y < 0 then CHR ''-'' else CHR ''+'') # pad 6 (nat \<bar>y\<bar>))"

definition toISOString :: "int \<Rightarrow> string" where
  "toISOString t =
     (let n = utc_month t; ms = t mod ms_per_day
      in year_text (n div 12) @ ''-'' @ pad 2 (nat (n mod 12 + 1)) @ ''-'' @ pad 2 (nat (utc_date t)) @
         ''T'' @ pad 2 (nat (ms div 3600000)) @ '':'' @ pad 2 (nat (ms div 60000 mod 60)) @
         '':'' @ pad 2 (nat (ms div 1000 mod 60)) @ ''.'' @ pad 3 (nat (ms mod 1000)) @ ''Z'')"

text \<open>The reader of this format; \<open>None\<close> leaves the text to the engine's other formats.\<close>

definition read_pad :: "nat \<Rightarrow> string \<Rightarrow> (int \<times> string) option" where
  "read_pad k s =
     (if k \<le> length s \<and> list_all is_digit (take k s)
      then (case digits_value 0 (take k s) of Some n \<Rightarrow> Some (int n, drop k s) | None \<Rightarrow> None) else None)"

definition read_char :: "char \<Rightarrow> string \<Rightarrow> string option" where
  "read_char c s = (case s of [] \<Rightarrow> None | x # t \<Rightarrow> (if x = c then Some t else None))"

definition read_year :: "string \<Rightarrow> (int \<times> string) option" where
  "read_year s =
     (case s of
        [] \<Rightarrow> None
      | c # t \<Rightarrow>
          (if c = CHR ''+'' then read_pad 6 t
           else if c = CHR ''-'' then
             Option.bind (read_pad 6 t) (\<lambda>(y, u). if y = 0 then None else Some (- y, u))
           else read_pad 4 s))"

text \<open>A number of \<open>k\<close> digits after a separator.\<close>

definition read_part :: "char \<Rightarrow> nat \<Rightarrow> string \<Rightarrow> (int \<times> string) option" where
  "read_part c k s = Option.bind (read_char c s) (read_pad k)"

definition iso_date :: "string \<Rightarrow> int option" where
  "iso_date s =
     Option.bind (read_year s) (\<lambda>(y, s).
     Option.bind (read_part (CHR ''-'') 2 s) (\<lambda>(mo, s).
     Option.bind (read_part (CHR ''-'') 2 s) (\<lambda>(d, s).
     Option.bind (read_part (CHR ''T'') 2 s) (\<lambda>(h, s).
     Option.bind (read_part (CHR '':'') 2 s) (\<lambda>(mi, s).
     Option.bind (read_part (CHR '':'') 2 s) (\<lambda>(sec, s).
     Option.bind (read_part (CHR ''.'') 3 s) (\<lambda>(ms, s).
       if s = ''Z'' \<and> 1 \<le> mo \<and> mo \<le> 12 \<and> 1 \<le> d \<and> d \<le> 31 \<and> h \<le> 23 \<and> mi \<le> 59 \<and> sec \<le> 59
       then Some (make_date (12 * y + mo - 1) d (h * 3600000 + mi * 60000 + sec * 1000 + ms))
       else None)))))))"

text \<open>The dates a \<open>Date\<close> can hold: 100,000,000 days on either side of the epoch.\<close>

definition date_range :: "int \<Rightarrow> bool" where
  "date_range t \<longleftrightarrow> \<bar>t\<bar> \<le> 100000000 * ms_per_day"

text \<open>
  \<open>new Date(value)\<close>, \<open>None\<close> for an invalid date. What a text in another format, an array or
  an object gives is up to the engine: the parameter.
\<close>

definition time_clip :: "int \<Rightarrow> int option" where
  "time_clip t = (if date_range t then Some t else None)"

definition new_date :: "(rule_value \<Rightarrow> int option) \<Rightarrow> rule_value \<Rightarrow> int option" where
  "new_date other v =
     (case v of
        VUndef \<Rightarrow> None
      | VNull \<Rightarrow> Some 0
      | VBool b \<Rightarrow> Some (if b then 1 else 0)
      | VNum x \<Rightarrow> time_clip (if 0 \<le> x then \<lfloor>x\<rfloor> else \<lceil>x\<rceil>)
      | VStr s \<Rightarrow> (case iso_date s of Some t \<Rightarrow> time_clip t | None \<Rightarrow> Option.bind (other v) time_clip)
      | _ \<Rightarrow> Option.bind (other v) time_clip)"

lemma digit_char: "n < 10 \<Longrightarrow> digit_value (char_of (48 + n)) = Some n"
  by (simp add: digit_value_def)

lemma length_pad [simp]: "length (pad k n) = k"
  by (induction k arbitrary: n) simp_all

lemma digits_value_append:
  "digits_value a (xs @ ys) = (case digits_value a xs of None \<Rightarrow> None | Some b \<Rightarrow> digits_value b ys)"
  by (induction xs arbitrary: a) (simp_all split: option.splits)

lemma pad_read: "n < 10 ^ k \<Longrightarrow> digits_value 0 (pad k n) = Some n \<and> list_all is_digit (pad k n)"
proof (induction k arbitrary: n)
  case (Suc k)
  then have "n div 10 < 10 ^ k" by (simp add: less_mult_imp_div_less mult.commute)
  note IH = Suc.IH [OF this]
  have "10 * (n div 10) + n mod 10 = n" by simp
  with IH show ?case
    by (simp only: pad.simps digits_value_append list_all_append) (simp add: digit_char is_digit_def)
qed simp

lemma read_pad_pad: "n < 10 ^ k \<Longrightarrow> read_pad k (pad k n @ s) = Some (int n, s)"
  by (simp add: read_pad_def pad_read)

lemma read_part_pad: "n < 10 ^ k \<Longrightarrow> read_part c k ([c] @ pad k n @ s) = Some (int n, s)"
  by (simp add: read_part_def read_char_def read_pad_pad)

lemma pad_digits: "list_all is_digit (pad k n)"
  by (induction k arbitrary: n) (simp_all add: digit_char is_digit_def)

lemma pad_starts_with_digit: "pad k n = c # t \<Longrightarrow> c \<noteq> CHR ''+'' \<and> c \<noteq> CHR ''-''"
  using pad_digits [of k n] by (auto simp: is_digit_def digit_value_def)

lemma read_year_text:
  assumes "\<bar>y\<bar> < 1000000"
  shows "read_year (year_text y @ s) = Some (y, s)"
proof (cases "0 \<le> y \<and> y \<le> 9999")
  case True
  obtain c t where ct: "pad 4 (nat y) = c # t" by (cases "pad 4 (nat y)") (auto dest: arg_cong [of _ _ length])
  from True have "read_pad 4 (pad 4 (nat y) @ s) = Some (y, s)" by (simp add: read_pad_pad nat_less_iff)
  with True ct pad_starts_with_digit [OF ct] show ?thesis by (simp add: year_text_def read_year_def)
next
  case False
  from assms have "nat \<bar>y\<bar> < 10 ^ 6" by (simp add: nat_less_iff)
  from read_pad_pad [OF this] False show ?thesis by (auto simp: year_text_def read_year_def)
qed

lemma month_start_mono: "i \<le> j \<Longrightarrow> month_start i \<le> month_start j"
  using month_start_less [of i j] by (cases "i = j") auto

lemma utc_year_bound:
  assumes "date_range t"
  shows "\<bar>utc_month t div 12\<bar> < 1000000"
proof -
  define d where "d = t div ms_per_day"
  from assms have d: "- 100000000 \<le> d" "d \<le> 100000000"
    by (simp_all add: date_range_def d_def ms_per_day_def)
  have day: "1 \<le> d - month_start (utc_month t) + 1" "d - month_start (utc_month t) + 1 \<le> 31"
    using day_of_month [of t] by (simp_all add: utc_date_def d_def)
  have "utc_month t < 12 * 1000000"
  proof (rule ccontr)
    assume "\<not> ?thesis"
    then have "month_start (12 * 1000000) \<le> month_start (utc_month t)" by (intro month_start_mono) simp
    moreover have "month_start (12 * 1000000) = 364522972" by code_simp
    ultimately show False using day d by linarith
  qed
  moreover have "12 * - 999999 \<le> utc_month t"
  proof (rule ccontr)
    assume "\<not> ?thesis"
    then have "month_start (utc_month t) \<le> month_start (12 * - 999999)" by (intro month_start_mono) simp
    moreover have "month_start (12 * - 999999) < - 365000000" by code_simp
    ultimately show False using day d by linarith
  qed
  ultimately show ?thesis by linarith
qed

theorem iso_date_read:
  assumes "date_range t"
  shows "iso_date (toISOString t) = Some t"
proof -
  define n where "n = utc_month t"
  define ms where "ms = t mod ms_per_day"
  define h where "h = nat (ms div 3600000)"
  define mi where "mi = nat (ms div 60000 mod 60)"
  define sec where "sec = nat (ms div 1000 mod 60)"
  define milli where "milli = nat (ms mod 1000)"
  have ms: "0 \<le> ms" "ms < 86400000" by (simp_all add: ms_def ms_per_day_def)
  then have parts: "h < 10 ^ 2" "h \<le> 23" "mi < 10 ^ 2" "mi \<le> 59" "sec < 10 ^ 2" "sec \<le> 59" "milli < 10 ^ 3"
    by (simp_all add: h_def mi_def sec_def milli_def nat_less_iff nat_le_iff)
  have time: "int h * 3600000 + int mi * 60000 + int sec * 1000 + int milli = ms"
  proof -
    have "ms div 60000 = ms div 1000 div 60" "ms div 3600000 = ms div 60000 div 60"
      by (simp_all add: zdiv_zmult2_eq [symmetric])
    moreover have "1000 * (ms div 1000) + ms mod 1000 = ms" by simp
    moreover have "60 * (ms div 1000 div 60) + ms div 1000 mod 60 = ms div 1000" by simp
    moreover have "60 * (ms div 60000 div 60) + ms div 60000 mod 60 = ms div 60000" by simp
    moreover have "0 \<le> ms div 3600000" using ms(1) by simp
    moreover have "int h = ms div 3600000" "int mi = ms div 60000 mod 60" "int sec = ms div 1000 mod 60"
      "int milli = ms mod 1000"
      using ms(1) by (simp_all add: h_def mi_def sec_def milli_def)
    ultimately show ?thesis by linarith
  qed
  have month: "nat (n mod 12 + 1) < 10 ^ 2" "int (nat (n mod 12 + 1)) = n mod 12 + 1" by (simp_all add: nat_less_iff)
  have day: "nat (utc_date t) < 10 ^ 2" "int (nat (utc_date t)) = utc_date t" "1 \<le> utc_date t" "utc_date t \<le> 31"
    using day_of_month [of t] by (simp_all add: nat_less_iff)
  have written: "toISOString t = year_text (n div 12) @ [CHR ''-''] @ pad 2 (nat (n mod 12 + 1)) @ [CHR ''-''] @
      pad 2 (nat (utc_date t)) @ [CHR ''T''] @ pad 2 h @ [CHR '':''] @ pad 2 mi @ [CHR '':''] @ pad 2 sec @
      [CHR ''.''] @ pad 3 milli @ ''Z''"
    by (simp only: toISOString_def Let_def n_def ms_def h_def mi_def sec_def milli_def)
  have "iso_date (toISOString t) = Some (make_date (12 * (n div 12) + (n mod 12 + 1) - 1) (utc_date t) ms)"
    unfolding written iso_date_def read_year_text [OF utc_year_bound [OF assms], folded n_def]
    using parts month day
    by (simp add: read_part_pad [unfolded append_Cons append_Nil] time [symmetric])
  also have "12 * (n div 12) + (n mod 12 + 1) - 1 = n" by simp
  also have "make_date n (utc_date t) ms = t"
    using set_utc_date_shift [of t 0] by (simp add: set_utc_date_def n_def ms_def)
  finally show ?thesis .
qed

end
