(* ===== verification/CursorPagination.thy ===== *)
theory CursorPagination
  imports TextCodec Idempotency "HOL-Library.Product_Lexorder"
begin

text \<open>
  The page cursors of \<open>common/pagination/cursor-pagination.ts\<close>, the lists that are read page by page
  with them, and the audit log of \<open>modules/admin-audit-logs/admin-audit-logs.service.ts\<close> as one of
  these lists. Ids are compared as the database compares them in the C collation, byte by byte; on
  the lower case letters and digits of a cuid every collation does the same.
\<close>

section \<open>Cursors\<close>

record cursor =
  cu_created :: int
  cu_id :: string

definition encodeCursor :: "cursor \<Rightarrow> string" where
  "encodeCursor c =
     to_base64url (json_object_text [(''createdAt'', toISOString (cu_created c)), (''id'', cu_id c)])"

text \<open>
  What a client sends back need not come from \<open>encodeCursor\<close>: the id is whatever JSON value the
  text holds.
\<close>

definition invalid_cursor :: err where
  "invalid_cursor = BadRequest ''Invalid cursor.''"

definition decodeCursor :: "(rule_value \<Rightarrow> int option) \<Rightarrow> string option \<Rightarrow> (int \<times> rule_value) option outcome" where
  "decodeCursor other cursor =
     (case cursor of
        None \<Rightarrow> Inr None
      | Some s \<Rightarrow>
          (if s = '''' then Inr None
           else
             (case json_parse (from_base64url s) of
                None \<Rightarrow> Inl invalid_cursor
              | Some v \<Rightarrow>
                  (case new_date other (get_key v ''createdAt'') of
                     None \<Rightarrow> Inl invalid_cursor
                   | Some t \<Rightarrow>
                       (if truthy (get_key v ''id'') then Inr (Some (t, get_key v ''id''))
                        else Inl invalid_cursor)))))"

text \<open>The condition on \<open>(createdAt, id)\<close>; Prisma refuses an id that is not a text.\<close>

definition buildDescCreatedAtCursorWhere :: "(int \<times> rule_value) option \<Rightarrow> (int \<times> string \<Rightarrow> bool) outcome" where
  "buildDescCreatedAtCursorWhere c =
     (case c of
        None \<Rightarrow> Inr (\<lambda>k. True)
      | Some (t, VStr i) \<Rightarrow> Inr (\<lambda>(created, id). created < t \<or> created = t \<and> id < i)
      | Some _ \<Rightarrow> Inl (Internal ''PrismaClientValidationError''))"

section \<open>Pages\<close>

record 'r page =
  pg_items :: "'r list"
  pg_next :: "string option"

text \<open>\<open>orderBy: [{ createdAt: 'desc' }, { id: 'desc' }]\<close>.\<close>

definition newest_first :: "('r \<Rightarrow> int \<times> string) \<Rightarrow> 'r list \<Rightarrow> 'r list" where
  "newest_first key rows = rev (sort_key key rows)"

definition page_cursor :: "int \<times> string \<Rightarrow> cursor" where
  "page_cursor k = \<lparr>cu_created = fst k, cu_id = snd k\<rparr>"

text \<open>One row more than the page holds is read; the cursor names that row.\<close>

definition page_of :: "('r \<Rightarrow> int \<times> string) \<Rightarrow> nat \<Rightarrow> (int \<times> string \<Rightarrow> bool) \<Rightarrow> 'r list \<Rightarrow> 'r page" where
  "page_of key limit below rows =
     (let found = take (limit + 1) (newest_first key (filter (\<lambda>r. below (key r)) rows))
      in \<lparr>pg_items = take limit found,
          pg_next = (if limit < length found then Some (encodeCursor (page_cursor (key (found ! limit)))) else None)\<rparr>)"

section \<open>The audit log\<close>

record audit_log =
  lg_id :: string
  lg_event :: string
  lg_action :: "string option"
  lg_lender :: "string option"
  lg_request :: "string option"
  lg_actor_type :: "string option"
  lg_actor :: "string option"
  lg_entity_type :: "string option"
  lg_entity :: "string option"
  lg_metadata :: rule_value
  lg_created :: int

record audit_query =
  aq_limit :: "nat option"
  aq_cursor :: "string option"
  aq_details :: bool
  aq_action :: "string option"
  aq_actor_type :: "string option"
  aq_actor :: "string option"
  aq_entity_type :: "string option"
  aq_entity :: "string option"
  aq_search :: "string option"
  aq_from :: "string option"
  aq_to :: "string option"
  aq_lender :: "string option"

definition audit_key :: "audit_log \<Rightarrow> int \<times> string" where
  "audit_key r = (lg_created r, lg_id r)"

text \<open>An empty text counts as absent.\<close>

definition given :: "string option \<Rightarrow> string option" where
  "given s = (if s = Some '''' then None else s)"

definition resolveLenderScope :: "string option \<Rightarrow> string option \<Rightarrow> string outcome" where
  "resolveLenderScope admin_lender lender =
     (case (given admin_lender, given lender) of
        (None, None) \<Rightarrow> Inl (BadRequest ''lenderId is required for platform admin scope.'')
      | (Some a, Some l) \<Rightarrow> (if l \<noteq> a then Inl (Forbidden ''Cross-tenant access is not allowed.'') else Inr a)
      | (Some a, None) \<Rightarrow> Inr a
      | (None, Some l) \<Rightarrow> Inr l)"

definition EXPORT_MAX_ROWS :: nat where
  "EXPORT_MAX_ROWS = 50000"

definition EXPORT_MAX_DAYS :: int where
  "EXPORT_MAX_DAYS = 31"

text \<open>A date of the query: absent, invalid (which Prisma refuses, and no comparison holds of) or a date.\<close>

definition query_date :: "(rule_value \<Rightarrow> int option) \<Rightarrow> string option \<Rightarrow> int option outcome" where
  "query_date other s =
     (case given s of
        None \<Rightarrow> Inr None
      | Some x \<Rightarrow>
          (case new_date other (VStr x) of
             None \<Rightarrow> Inl (Internal ''PrismaClientValidationError'')
           | Some t \<Rightarrow> Inr (Some t)))"

definition resolveDateRange ::
  "(rule_value \<Rightarrow> int option) \<Rightarrow> int \<Rightarrow> audit_query \<Rightarrow> bool \<Rightarrow> (int option \<times> int option) outcome" where
  "resolveDateRange other now q export =
     chain (query_date other (aq_from q)) (\<lambda>from_date.
     chain (query_date other (aq_to q)) (\<lambda>to_date.
       (if \<not> export then Inr (from_date, to_date)
        else
          (let f = (case from_date of Some t \<Rightarrow> t | None \<Rightarrow> now - EXPORT_MAX_DAYS * ms_per_day);
               t = (case to_date of Some t \<Rightarrow> t | None \<Rightarrow> now)
           in if t - f < 0 \<or> EXPORT_MAX_DAYS * ms_per_day < t - f
              then Inl (BadRequest ''Export date range must be <= 31 days.'')
              else Inr (Some f, Some t)))))"

text \<open>\<open>contains\<close> with \<open>mode: 'insensitive'\<close>.\<close>

definition contains_insensitive :: "string \<Rightarrow> string option \<Rightarrow> bool" where
  "contains_insensitive p s =
     (case s of
        None \<Rightarrow> False
      | Some x \<Rightarrow> list_ex (\<lambda>i. take (length p) (drop i (to_upper x)) = to_upper p) [0..<Suc (length x)])"

definition same_or_any :: "string option \<Rightarrow> string option \<Rightarrow> bool" where
  "same_or_any wanted x = (case given wanted of None \<Rightarrow> True | Some w \<Rightarrow> x = Some (trim w))"

definition buildWhere ::
  "(rule_value \<Rightarrow> int option) \<Rightarrow> int \<Rightarrow> string option \<Rightarrow> audit_query \<Rightarrow> bool \<Rightarrow> (audit_log \<Rightarrow> bool) outcome" where
  "buildWhere other now admin_lender q export =
     chain (resolveLenderScope admin_lender (aq_lender q)) (\<lambda>lender.
     chain (resolveDateRange other now q export) (\<lambda>(from_date, to_date).
       Inr (\<lambda>r.
         lg_lender r = Some lender \<and>
         same_or_any (aq_action q) (lg_action r) \<and>
         same_or_any (aq_actor_type q) (lg_actor_type r) \<and>
         same_or_any (aq_actor q) (lg_actor r) \<and>
         same_or_any (aq_entity_type q) (lg_entity_type r) \<and>
         same_or_any (aq_entity q) (lg_entity r) \<and>
         (case trim_or_null (aq_search q) of
            None \<Rightarrow> True
          | Some p \<Rightarrow> contains_insensitive p (lg_action r) \<or> contains_insensitive p (lg_actor r) \<or>
              contains_insensitive p (lg_entity r) \<or> contains_insensitive p (lg_request r)) \<and>
         (case from_date of None \<Rightarrow> True | Some t \<Rightarrow> t \<le> lg_created r) \<and>
         (case to_date of None \<Rightarrow> True | Some t \<Rightarrow> lg_created r \<le> t))))"

record audit_item =
  ai_id :: string
  ai_action :: string
  ai_actor_type :: "string option"
  ai_actor :: "string option"
  ai_entity_type :: "string option"
  ai_entity :: "string option"
  ai_request :: "string option"
  ai_metadata :: "(string \<times> rule_value) list option"
  ai_created :: string

definition normalizeMetadata :: "rule_value \<Rightarrow> bool \<Rightarrow> (string \<times> rule_value) list option" where
  "normalizeMetadata v details =
     (case v of
        VObj kvs \<Rightarrow>
          Some (if details then kvs else filter (\<lambda>(k, x). k \<noteq> ''before'' \<and> k \<noteq> ''after'') kvs)
      | _ \<Rightarrow> None)"

definition toListItem :: "bool \<Rightarrow> audit_log \<Rightarrow> audit_item" where
  "toListItem details r =
     \<lparr>ai_id = lg_id r, ai_action = (case lg_action r of Some a \<Rightarrow> a | None \<Rightarrow> lg_event r),
      ai_actor_type = lg_actor_type r, ai_actor = lg_actor r, ai_entity_type = lg_entity_type r,
      ai_entity = lg_entity r, ai_request = lg_request r,
      ai_metadata = normalizeMetadata (lg_metadata r) details, ai_created = toISOString (lg_created r)\<rparr>"

definition list_logs ::
  "(rule_value \<Rightarrow> int option) \<Rightarrow> int \<Rightarrow> string option \<Rightarrow> audit_query \<Rightarrow> audit_log list \<Rightarrow> audit_item page outcome" where
  "list_logs other now admin_lender q rows =
     chain (decodeCursor other (aq_cursor q)) (\<lambda>cursor.
     chain (buildWhere other now admin_lender q False) (\<lambda>wanted.
     chain (buildDescCreatedAtCursorWhere cursor) (\<lambda>below.
       (let limit = (case aq_limit q of Some n \<Rightarrow> n | None \<Rightarrow> 50);
            p = page_of audit_key limit below (filter wanted rows)
        in Inr \<lparr>pg_items = map (toListItem (aq_details q)) (pg_items p), pg_next = pg_next p\<rparr>))))"

definition exportRows ::
  "(rule_value \<Rightarrow> int option) \<Rightarrow> int \<Rightarrow> string option \<Rightarrow> audit_query \<Rightarrow> audit_log list \<Rightarrow> audit_log list outcome" where
  "exportRows other now admin_lender q rows =
     chain (buildWhere other now admin_lender q True) (\<lambda>wanted.
       (let found = take (EXPORT_MAX_ROWS + 1) (newest_first audit_key (filter wanted rows))
        in if EXPORT_MAX_ROWS < length found
           then Inl (BadRequest ''Export exceeds max rows (50000). Narrow filters and retry.'')
           else Inr found))"

section \<open>Reading a cursor back\<close>

lemma cursor_values:
  "get_key (object_of [(''createdAt'', u), (''id'', v)]) ''createdAt'' = u"
  "get_key (object_of [(''createdAt'', u), (''id'', v)]) ''id'' = v"
  by (simp_all add: get_key_def object_of_def)

lemma cursor_read_back:
  assumes "date_range (cu_created c)" and "cu_id c \<noteq> ''''"
  shows "decodeCursor other (Some (encodeCursor c)) = Inr (Some (cu_created c, VStr (cu_id c)))"
proof -
  have "from_base64url (encodeCursor c) \<noteq> from_base64url ''''"
    by (simp add: encodeCursor_def base64url_read json_object_text_def)
      (simp add: from_base64url_def List.map_filter_simps)
  then have "encodeCursor c \<noteq> ''''" by auto
  moreover have "json_parse (from_base64url (encodeCursor c)) =
      Some (object_of [(''createdAt'', VStr (toISOString (cu_created c))), (''id'', VStr (cu_id c))])"
    by (simp add: encodeCursor_def base64url_read json_object_read)
  moreover have "new_date other (VStr (toISOString (cu_created c))) = Some (cu_created c)"
    using assms(1) by (simp add: new_date_def iso_date_read time_clip_def)
  ultimately show ?thesis
    using assms(2) by (simp add: decodeCursor_def cursor_values)
qed

lemma cursor_condition:
  assumes "date_range (cu_created c)" and "cu_id c \<noteq> ''''"
  shows "chain (decodeCursor other (Some (encodeCursor c))) buildDescCreatedAtCursorWhere =
    Inr (\<lambda>k. k < (cu_created c, cu_id c))"
  using cursor_read_back [OF assms, of other]
  by (auto simp: buildDescCreatedAtCursorWhere_def less_prod_def fun_eq_iff)

text \<open>
  C24. Round trip of a page cursor: what \<open>encodeCursor\<close> writes for a row, \<open>decodeCursor\<close> reads back
  as the row's date and id, whatever the engine makes of other dates; the condition built from it
  holds exactly of the rows after that row.
\<close>

theorem cursor_roundtrip:
  assumes "date_range (cu_created c)" and "cu_id c \<noteq> ''''"
  shows "decodeCursor other (Some (encodeCursor c)) = Inr (Some (cu_created c, VStr (cu_id c))) \<and>
    chain (decodeCursor other (Some (encodeCursor c))) buildDescCreatedAtCursorWhere =
      Inr (\<lambda>k. k < (cu_created c, cu_id c))"
  using cursor_read_back [OF assms] cursor_condition [OF assms] by simp

definition sample_cursor :: cursor where
  "sample_cursor = \<lparr>cu_created = 1763554512345, cu_id = ''cmi5p\"q0001''\<rparr>"

theorem cursor_roundtrip_witness:
  "decodeCursor (\<lambda>v. None) (Some (encodeCursor sample_cursor)) = Inr (Some (1763554512345, VStr ''cmi5p\"q0001''))"
  using cursor_roundtrip [of sample_cursor "\<lambda>v. None"]
  by (simp add: sample_cursor_def date_range_def ms_per_day_def)

section \<open>Reading page after page\<close>

fun read_pages :: "nat \<Rightarrow> (string option \<Rightarrow> 'r page outcome) \<Rightarrow> string option \<Rightarrow> 'r list outcome" where
  "read_pages 0 f c = Inl (Internal ''more pages'')"
| "read_pages (Suc k) f c =
     chain (f c) (\<lambda>p.
       (case pg_next p of
          None \<Rightarrow> Inr (pg_items p)
        | Some n \<Rightarrow> chain (read_pages k f (Some n)) (\<lambda>rest. Inr (pg_items p @ rest))))"

text \<open>The rows of a list but the last of every \<open>n + 1\<close>.\<close>

definition but_each :: "nat \<Rightarrow> 'r list \<Rightarrow> 'r list" where
  "but_each n xs = map ((!) xs) (filter (\<lambda>i. i mod (n + 1) \<noteq> n) [0..<length xs])"

lemma but_each_short: "length xs \<le> n \<Longrightarrow> but_each n xs = xs"
proof -
  assume "length xs \<le> n"
  then have "filter (\<lambda>i. i mod (n + 1) \<noteq> n) [0..<length xs] = [0..<length xs]"
    by (intro filter_True) auto
  then show ?thesis by (simp add: but_each_def map_nth)
qed

lemma but_each_step:
  assumes "n < length xs"
  shows "but_each n xs = take n xs @ but_each n (drop (n + 1) xs)"
proof -
  define m where "m = length xs - (n + 1)"
  have len: "length xs = n + 1 + m" using assms by (simp add: m_def)
  have "[0..<length xs] = [0..<n] @ n # map (\<lambda>i. i + (n + 1)) [0..<m]"
    unfolding len add.assoc upt_add_eq_append [OF le0]
    using upt_conv_Cons [of n "n + (1 + m)"] map_add_upt [of "n + 1" m] by (simp add: ac_simps)
  moreover have "filter (\<lambda>i. i mod (n + 1) \<noteq> n) [0..<n] = [0..<n]"
    by (intro filter_True) auto
  moreover have "map ((!) xs) [0..<n] = take n xs"
    using assms by (intro nth_equalityI) simp_all
  moreover have "(i + (n + 1)) mod (n + 1) = i mod (n + 1)" for i by (rule mod_add_self2)
  moreover have "xs ! (i + (n + 1)) = drop (n + 1) xs ! i" for i
    using assms by (simp add: add.commute)
  ultimately show ?thesis
    by (simp only: but_each_def filter_append filter.simps filter_map map_append map_map comp_def length_drop m_def)
      simp
qed

lemma newest_first_sorted:
  assumes "distinct (map key rows)"
  shows "sorted_wrt (\<lambda>a b. key b < key a) (newest_first key rows)"
proof -
  have "sorted (map key (sort_key key rows))" by simp
  moreover have "distinct (map key (sort_key key rows))"
    using assms by (metis distinct_map distinct_sort set_sort)
  ultimately have "sorted_wrt (<) (map key (sort_key key rows))"
    by (simp add: strict_sorted_iff)
  then show ?thesis by (simp add: newest_first_def sorted_wrt_rev sorted_wrt_map)
qed

lemma newest_first_filter:
  "newest_first key (filter P rows) = filter P (newest_first key rows)"
  by (simp add: newest_first_def filter_sort [symmetric] rev_filter)

lemma after_row:
  assumes "sorted_wrt (\<lambda>a b. key b < (key a :: 'k :: linorder)) xs" and "m < length xs"
  shows "filter (\<lambda>r. key r < key (xs ! m)) xs = drop (Suc m) xs"
proof -
  have xs: "xs = take m xs @ xs ! m # drop (Suc m) xs" using assms(2) by (rule id_take_nth_drop)
  have "sorted_wrt (\<lambda>a b. key b < key a) (take m xs @ xs ! m # drop (Suc m) xs)"
    using assms(1) xs by simp
  then have "\<forall>r \<in> set (take m xs). key (xs ! m) < key r" "\<forall>r \<in> set (drop (Suc m) xs). key r < key (xs ! m)"
    by (simp_all add: sorted_wrt_append)
  then show ?thesis by (subst xs) (auto simp: filter_empty_conv intro!: filter_True)
qed

lemma page_of_all: "page_of key limit (\<lambda>k. True) rows =
   \<lparr>pg_items = take limit (newest_first key rows),
    pg_next = (if limit < length rows
      then Some (encodeCursor (page_cursor (key (newest_first key rows ! limit)))) else None)\<rparr>"
  by (simp add: page_of_def newest_first_def min_def)

lemma page_of_after:
  assumes "distinct (map key rows)" and "m < length rows"
  defines "xs \<equiv> newest_first key rows"
  shows "page_of key limit (\<lambda>k. k < key (xs ! m)) rows =
   \<lparr>pg_items = take limit (drop (Suc m) xs),
    pg_next = (if Suc m + limit < length rows
      then Some (encodeCursor (page_cursor (key (xs ! (Suc m + limit))))) else None)\<rparr>"
proof -
  have len: "length xs = length rows" by (simp add: xs_def newest_first_def)
  have "newest_first key (filter (\<lambda>r. key r < key (xs ! m)) rows) = drop (Suc m) xs"
    using after_row [OF newest_first_sorted [OF assms(1), folded xs_def], of m] assms(2) len
    by (simp add: newest_first_filter xs_def)
  then show ?thesis using len assms(2) by (auto simp: page_of_def Let_def min_def)
qed

text \<open>
  Any list that is read with these cursors: its pages, one after the other, give all its rows but
  the last of every \<open>limit + 1\<close>.
\<close>

lemma pages_skip_rows:
  fixes key :: "'r \<Rightarrow> int \<times> string"
  assumes distinct: "distinct (map key rows)"
    and valid: "\<forall>r \<in> set rows. date_range (fst (key r)) \<and> snd (key r) \<noteq> ''''"
    and f: "\<And>c. f c = chain (chain (decodeCursor other c) buildDescCreatedAtCursorWhere) (\<lambda>below.
        Inr (page_of key limit below rows))"
    and fuel: "length rows < fuel"
  shows "read_pages fuel f None = Inr (but_each limit (newest_first key rows))"
proof -
  define xs where "xs = newest_first key rows"
  have len: "length xs = length rows" and rows: "set xs = set rows"
    by (simp_all add: xs_def newest_first_def)
  have after: "f (Some (encodeCursor (page_cursor (key (xs ! m))))) =
      Inr (page_of key limit (\<lambda>k. k < key (xs ! m)) rows)" if "m < length xs" for m
  proof -
    have "date_range (fst (key (xs ! m)))" "snd (key (xs ! m)) \<noteq> ''''"
      using valid rows nth_mem [OF that] by auto
    then show ?thesis
      using cursor_condition [of "page_cursor (key (xs ! m))" other]
      by (simp add: f page_cursor_def)
  qed
  have next_pages: "m < length xs \<Longrightarrow> length xs - m \<le> k \<Longrightarrow>
      read_pages k f (Some (encodeCursor (page_cursor (key (xs ! m))))) = Inr (but_each limit (drop (Suc m) xs))" for k m
  proof (induction k arbitrary: m)
    case 0
    then show ?case by simp
  next
    case (Suc k)
    note page = page_of_after [OF distinct, of m limit, folded xs_def]
    show ?case
    proof (cases "Suc m + limit < length xs")
      case True
      with Suc.IH [of "Suc m + limit"] Suc.prems page len show ?thesis
        by (simp add: after but_each_step [of limit "drop (Suc m) xs"] add.commute)
    next
      case False
      with Suc.prems page len show ?thesis by (simp add: after but_each_short)
    qed
  qed
  obtain k where k: "fuel = Suc k" using fuel by (cases fuel) auto
  have first: "f None = Inr (page_of key limit (\<lambda>k. True) rows)"
    by (simp add: f decodeCursor_def buildDescCreatedAtCursorWhere_def)
  show ?thesis
  proof (cases "limit < length xs")
    case True
    with next_pages [of limit k] fuel len show ?thesis
      by (simp add: k first page_of_all xs_def [symmetric] but_each_step [of limit xs])
  next
    case False
    with len show ?thesis by (simp add: k first page_of_all xs_def [symmetric] but_each_short)
  qed
qed

lemma read_pages_map:
  "read_pages k (\<lambda>c. chain (f c) (\<lambda>p. Inr \<lparr>pg_items = map h (pg_items p), pg_next = pg_next p\<rparr>)) c =
   chain (read_pages k f c) (\<lambda>xs. Inr (map h xs))"
proof (induction k arbitrary: c)
  case (Suc k)
  show ?case
  proof (cases "f c")
    case (Inr p)
    then show ?thesis by (cases "pg_next p"; cases "read_pages k f (Some (the (pg_next p)))") (simp_all add: Suc.IH)
  qed simp
qed simp

lemma list_logs_pages:
  assumes "buildWhere other now lender q False = Inr wanted"
  shows "list_logs other now lender (q\<lparr>aq_cursor := c\<rparr>) rows =
    chain (chain (chain (decodeCursor other c) buildDescCreatedAtCursorWhere) (\<lambda>below.
        Inr (page_of audit_key (case aq_limit q of Some n \<Rightarrow> n | None \<Rightarrow> 50) below (filter wanted rows))))
      (\<lambda>p. Inr \<lparr>pg_items = map (toListItem (aq_details q)) (pg_items p), pg_next = pg_next p\<rparr>)"
proof -
  have "buildWhere other now lender (q\<lparr>aq_cursor := c\<rparr>) False = Inr wanted"
    using assms by (simp add: buildWhere_def resolveDateRange_def)
  then show ?thesis
    by (cases "decodeCursor other c") (auto simp: list_logs_def Let_def chain_def split: sum.splits)
qed

text \<open>
  C25. Reading the audit log page after page, each time with the cursor of the page before, loses
  rows: of the rows the filter lets through, newest first, the last of every \<open>limit + 1\<close> is never
  listed. The cursor names the first row that was left out, and the next page begins after it.
\<close>

theorem audit_pages_skip_rows:
  assumes "buildWhere other now lender q False = Inr wanted"
    and "distinct (map audit_key (filter wanted rows))"
    and "\<forall>r \<in> set rows. date_range (lg_created r) \<and> lg_id r \<noteq> ''''"
    and "length rows < fuel"
  shows "read_pages fuel (\<lambda>c. list_logs other now lender (q\<lparr>aq_cursor := c\<rparr>) rows) None =
    Inr (map (toListItem (aq_details q))
      (but_each (case aq_limit q of Some n \<Rightarrow> n | None \<Rightarrow> 50) (newest_first audit_key (filter wanted rows))))"
proof -
  define limit where "limit = (case aq_limit q of Some n \<Rightarrow> n | None \<Rightarrow> 50)"
  have "read_pages fuel (\<lambda>c. chain (chain (decodeCursor other c) buildDescCreatedAtCursorWhere) (\<lambda>below.
        Inr (page_of audit_key limit below (filter wanted rows)))) None =
      Inr (but_each limit (newest_first audit_key (filter wanted rows)))"
    using assms(2-4) le_less_trans [OF length_filter_le [of wanted rows]]
    by (intro pages_skip_rows [where other = other]) (auto simp: audit_key_def)
  then show ?thesis
    unfolding list_logs_pages [OF assms(1)] read_pages_map limit_def [symmetric] by simp
qed

definition sample_log :: "int \<Rightarrow> string \<Rightarrow> audit_log" where
  "sample_log t i =
     \<lparr>lg_id = i, lg_event = ''LOGIN'', lg_action = None, lg_lender = Some ''l1'', lg_request = None,
      lg_actor_type = None, lg_actor = None, lg_entity_type = None, lg_entity = None,
      lg_metadata = VNull, lg_created = t\<rparr>"

definition sample_query :: audit_query where
  "sample_query =
     \<lparr>aq_limit = Some 1, aq_cursor = None, aq_details = False, aq_action = None, aq_actor_type = None,
      aq_actor = None, aq_entity_type = None, aq_entity = None, aq_search = None, aq_from = None,
      aq_to = None, aq_lender = None\<rparr>"

text \<open>Four entries, one to a page: the second and the fourth are not listed.\<close>

theorem audit_pages_skip_rows_witness:
  "\<exists>items. read_pages 9 (\<lambda>c. list_logs (\<lambda>v. None) 0 (Some ''l1'') (sample_query\<lparr>aq_cursor := c\<rparr>)
      [sample_log 10 ''a'', sample_log 30 ''b'', sample_log 20 ''c'', sample_log 30 ''d'']) None = Inr items \<and>
    map ai_id items = [''d'', ''c'']"
proof -
  define rows where "rows = [sample_log 10 ''a'', sample_log 30 ''b'', sample_log 20 ''c'', sample_log 30 ''d'']"
  define wanted where "wanted = (\<lambda>r :: audit_log. lg_lender r = Some ''l1'')"
  have where_sample: "buildWhere (\<lambda>v. None) 0 (Some ''l1'') sample_query False = Inr wanted"
    by (simp add: buildWhere_def resolveLenderScope_def given_def resolveDateRange_def query_date_def
        same_or_any_def trim_or_null_def sample_query_def wanted_def)
  have "filter wanted rows = rows" by (simp add: rows_def wanted_def sample_log_def)
  moreover have "newest_first audit_key rows =
      [sample_log 30 ''d'', sample_log 30 ''b'', sample_log 20 ''c'', sample_log 10 ''a'']"
    by (simp add: newest_first_def rows_def audit_key_def sample_log_def less_prod_def less_eq_prod_def)
  moreover have "but_each 1 [w, x, y, z] = [w, y]" for w x y z :: audit_log
    by (simp add: but_each_def upt_rec numeral_3_eq_3 [symmetric] numeral_2_eq_2 [symmetric])
  ultimately show ?thesis
    using audit_pages_skip_rows [OF where_sample, of rows 9] unfolding rows_def [symmetric]
    by (simp add: sample_query_def toListItem_def sample_log_def)
      (simp add: rows_def audit_key_def sample_log_def date_range_def ms_per_day_def)
qed

text \<open>The export, on the other hand, gives every row in the range of dates, or refuses.\<close>

lemma export_complete:
  assumes "buildWhere other now lender q True = Inr wanted"
  shows "exportRows other now lender q rows =
    (if EXPORT_MAX_ROWS < length (filter wanted rows)
     then Inl (BadRequest ''Export exceeds max rows (50000). Narrow filters and retry.'')
     else Inr (newest_first audit_key (filter wanted rows)))"
  using assms by (simp add: exportRows_def Let_def min_def newest_first_def)

text \<open>Only the rows of one lender are listed, and of the admin's own where the admin has one.\<close>

lemma wanted_rows_in_scope:
  assumes "buildWhere other now lender q e = Inr wanted" and "wanted r"
  shows "\<exists>l. resolveLenderScope lender (aq_lender q) = Inr l \<and> lg_lender r = Some l \<and>
    (given lender \<noteq> None \<longrightarrow> lender = Some l)"
  using assms by (auto simp: buildWhere_def outcome_simps resolveLenderScope_def given_def split: option.splits if_splits)

end
