(* ===== verification/LoanInterest.thy ===== *)
theory LoanInterest
  imports CollectionsScan FinanceInvariants TenantLedger Tenancy TextCodec
begin

text \<open>
  The interest of a disbursed loan: the switches of
  \<open>modules/admin-loan-applications/loan-interest-control.service.ts\<close> (pause, resume, override of the
  rate) and the accrual of \<open>admin-loan-applications.service.ts\<close>, which posts the interest of the days
  since the last accrual to the ledger. A loan that was never accrued counts its days from the row's
  \<open>updatedAt\<close>, which the database client sets on every update of the row, those of pause and resume
  included; the rows of the model have no such column, and the value the accrual reads is its argument
  \<open>updated\<close>. The day accrued through is given by its midnight.
\<close>

section \<open>Switches\<close>

definition can_control :: "principal \<Rightarrow> unit outcome" where
  "can_control P = ensure (pc_role P \<in> {RISK_MANAGER, OPS, SUPER_ADMIN})
     (Forbidden ''Role cannot manage interest accrual control.'')"

definition find_loan_of :: "principal \<Rightarrow> string \<Rightarrow> db \<Rightarrow> loan outcome" where
  "find_loan_of P i D =
     (case find (\<lambda>l. l_id l = i \<and> l_tenant l = pc_tenant P) (db_loans D) of
        None \<Rightarrow> Inl (BadRequest ''Loan application not found.'')
      | Some l \<Rightarrow> Inr l)"

definition current_rate :: "loan \<Rightarrow> decimal option" where
  "current_rate l = (case l_override_rate l of Some x \<Rightarrow> Some x | None \<Rightarrow> l_annual_rate l)"

text \<open>The row is updated and the change is written down.\<close>

definition switch_loan ::
  "principal \<Rightarrow> loan \<Rightarrow> (loan \<Rightarrow> loan) \<Rightarrow> interest_action \<Rightarrow> decimal option \<Rightarrow> decimal option \<Rightarrow> string option \<Rightarrow> db \<Rightarrow> db" where
  "switch_loan P l f action previous next_rate reason D =
     D\<lparr>db_loans := update_where (\<lambda>m. l_id m = l_id l) f (db_loans D),
       db_interest_audits := db_interest_audits D @
         [\<lparr>ia_tenant = pc_tenant P, ia_loan = l_id l, ia_action = action, ia_previous = previous,
           ia_new = next_rate, ia_reason = reason, ia_by = pc_admin P\<rparr>]\<rparr>"

definition pauseInterest :: "env \<Rightarrow> principal \<Rightarrow> string \<Rightarrow> string option \<Rightarrow> db \<Rightarrow> db outcome" where
  "pauseInterest E P i reason D =
     chain (can_control P) (\<lambda>_.
     chain (find_loan_of P i D) (\<lambda>l.
     chain (ensure (\<not> l_int_paused l) (BadRequest ''Interest accrual is already paused.'')) (\<lambda>_.
     Inr (switch_loan P l (\<lambda>m. m\<lparr>l_int_paused := True, l_int_paused_at := Some (ev_now E),
            l_int_paused_by := Some (pc_admin P), l_int_pause_reason := trim_or_null reason\<rparr>)
            IA_PAUSED (current_rate l) (current_rate l) (trim_or_null reason) D))))"

definition resumeInterest :: "principal \<Rightarrow> string \<Rightarrow> db \<Rightarrow> db outcome" where
  "resumeInterest P i D =
     chain (can_control P) (\<lambda>_.
     chain (find_loan_of P i D) (\<lambda>l.
     chain (ensure (l_int_paused l) (BadRequest ''Interest accrual is not paused.'')) (\<lambda>_.
     Inr (switch_loan P l (\<lambda>m. m\<lparr>l_int_paused := False, l_int_paused_at := None,
            l_int_paused_by := None, l_int_pause_reason := None\<rparr>)
            IA_RESUMED (current_rate l) (current_rate l) None D))))"

definition control_setInterestOverride :: "env \<Rightarrow> principal \<Rightarrow> string \<Rightarrow> decimal \<Rightarrow> string option \<Rightarrow> db \<Rightarrow> db outcome" where
  "control_setInterestOverride E P i rate reason D =
     chain (can_control P) (\<lambda>_.
     chain (ensure (0 < rate) (BadRequest ''Override rate must be greater than zero.'')) (\<lambda>_.
     chain (find_loan_of P i D) (\<lambda>l.
     Inr (switch_loan P l (\<lambda>m. m\<lparr>l_override_rate := Some rate, l_override_at := Some (ev_now E),
            l_override_by := Some (pc_admin P)\<rparr>)
            IA_OVERRIDE_SET (current_rate l) (Some rate) (trim_or_null reason) D))))"

text \<open>The flag of a late override is written after the transaction of the override.\<close>

definition setInterestOverride :: "env \<Rightarrow> principal \<Rightarrow> string \<Rightarrow> decimal \<Rightarrow> string option \<Rightarrow> db \<Rightarrow> db outcome" where
  "setInterestOverride E P i rate reason D =
     chain (control_setInterestOverride E P i rate reason D) (\<lambda>D1.
     Inr (case find (\<lambda>l. l_id l = i \<and> l_tenant l = pc_tenant P) (db_loans D1) of
            None \<Rightarrow> D1
          | Some l \<Rightarrow>
              (if l_status l = LS_DISBURSED \<or> l_status l = LS_OVERDUE
               then flagSuspicious E (pc_tenant P) ''TENANT_LOAN_APPLICATION'' i
                      ''Manual interest override after disbursement'' ''HIGH'' D1
               else D1)))"

definition removeInterestOverride :: "principal \<Rightarrow> string \<Rightarrow> string option \<Rightarrow> db \<Rightarrow> db outcome" where
  "removeInterestOverride P i reason D =
     chain (can_control P) (\<lambda>_.
     chain (find_loan_of P i D) (\<lambda>l.
     chain (ensure (l_override_rate l \<noteq> None) (BadRequest ''No interest override is currently set.'')) (\<lambda>_.
     Inr (switch_loan P l (\<lambda>m. m\<lparr>l_override_rate := None, l_override_at := None, l_override_by := None\<rparr>)
            IA_OVERRIDE_REMOVED (l_override_rate l) (l_annual_rate l) (trim_or_null reason) D))))"

section \<open>Accrual\<close>

definition day_text :: "int \<Rightarrow> string" where
  "day_text t = take 10 (toISOString t)"

text \<open>The days from the day of the last accrual to the day accrued through.\<close>

definition accrual_days :: "int \<Rightarrow> int \<Rightarrow> loan \<Rightarrow> int" where
  "accrual_days updated through l =
     (through - utc_midnight (case l_last_accrued l of Some t \<Rightarrow> t | None \<Rightarrow> updated)) div ms_per_day"

definition accrued_interest :: "decimal_ops \<Rightarrow> decimal \<Rightarrow> decimal \<Rightarrow> int \<Rightarrow> decimal" where
  "accrued_interest R owed rate days =
     money (dc_mul R (dc_mul R owed (dc_div R rate 36500)) (of_int days))"

definition accrual_entry :: "principal \<Rightarrow> loan \<Rightarrow> int \<Rightarrow> decimal \<Rightarrow> entry_input" where
  "accrual_entry P l through amount =
     \<lparr>ei_tenant = pc_tenant P, ei_occurred = through, ei_type = E_ACCRUAL,
      ei_key = ''accrual:'' @ l_id l @ '':'' @ day_text through, ei_ref_type = ''LoanApplication'',
      ei_ref_id = l_id l, ei_currency = Some (l_currency l), ei_created_by = Some (pc_admin P),
      ei_role = Some (pc_role P), ei_memo = Some (''Interest accrual through '' @ day_text through),
      ei_lines = [\<lparr>li_code = INTEREST_RECEIVABLE, li_direction = DEBIT, li_amount = amount\<rparr>,
                  \<lparr>li_code = INTEREST_INCOME, li_direction = CREDIT, li_amount = amount\<rparr>]\<rparr>"

definition accrue_tx :: "env \<Rightarrow> decimal_ops \<Rightarrow> int \<Rightarrow> principal \<Rightarrow> string \<Rightarrow> int \<Rightarrow> db \<Rightarrow> db outcome" where
  "accrue_tx E R updated P i through D =
     chain (find_loan_of P i D) (\<lambda>l.
     chain (ensure (l_status l = LS_DISBURSED) (BadRequest ''Interest accrual requires DISBURSED status.'')) (\<lambda>_.
     if l_int_paused l then Inr D
     else
       (case l_annual_rate l of
          None \<Rightarrow> Inl (BadRequest ''annualInterestRate must be set before accrual.'')
        | Some annual \<Rightarrow>
            (if annual \<le> 0 then Inl (BadRequest ''annualInterestRate must be set before accrual.'')
             else
               (case getBalances (pc_tenant P) (l_id l) D of (owed, _, _, _) \<Rightarrow>
                  let days = accrual_days updated through l;
                      amount = accrued_interest R owed
                        (case l_override_rate l of Some x \<Rightarrow> x | None \<Rightarrow> annual) days
                  in if owed \<le> 0 \<or> days \<le> 0 \<or> amount \<le> 0 then Inr D
                     else chain (post_entry E (accrual_entry P l through amount) D) (\<lambda>(_, D1).
                       Inr (D1\<lparr>db_loans := update_where (\<lambda>m. l_id m = l_id l)
                              (\<lambda>m. m\<lparr>l_last_accrued := Some through\<rparr>) (db_loans D1)\<rparr>)))))))"

definition accrueInterest :: "env \<Rightarrow> decimal_ops \<Rightarrow> int \<Rightarrow> principal \<Rightarrow> string \<Rightarrow> int \<Rightarrow> db \<Rightarrow> db outcome" where
  "accrueInterest E R updated P i through D =
     (if \<not> isEnabled (pc_tenant P) INTEREST_ACCRUAL D
      then Inl (Conflict ''INTEREST_ACCRUAL feature flag is disabled for this tenant.'')
      else
        chain (ensure (pc_role P \<in> {OPS, SUPER_ADMIN, RISK_MANAGER}) (Forbidden ''Role cannot accrue interest.''))
          (\<lambda>_. accrue_tx E R updated P i through D))"

section \<open>The ledger does not look at the changes of the switches\<close>

definition with_audits :: "interest_audit list \<Rightarrow> db \<Rightarrow> db" where
  "with_audits xs D = D\<lparr>db_interest_audits := xs\<rparr>"

lemma upsert_audits: "upsert_account E t s (with_audits xs D) = with_audits xs (upsert_account E t s D)"
  by (cases s) (simp add: upsert_account_def Let_def fresh_def with_audits_def)

lemma ensure_audits: "ensureDefaultAccounts E t (with_audits xs D) = with_audits xs (ensureDefaultAccounts E t D)"
proof -
  have "fold (upsert_account E t) ss (with_audits xs D) = with_audits xs (fold (upsert_account E t) ss D)" for ss
    by (induction ss arbitrary: D) (simp_all add: upsert_audits)
  then show ?thesis by (simp add: ensureDefaultAccounts_def)
qed

lemma with_audits_simps [simp]:
  "db_loans (with_audits xs D) = db_loans D" "db_entries (with_audits xs D) = db_entries D"
  "db_accounts (with_audits xs D) = db_accounts D" "db_flags (with_audits xs D) = db_flags D"
  "db_seq (with_audits xs D) = db_seq D"
  by (simp_all add: with_audits_def)

definition keep_audits :: "interest_audit list \<Rightarrow> db outcome \<Rightarrow> db outcome" where
  "keep_audits xs r = chain r (\<lambda>D. Inr (with_audits xs D))"

lemma post_entry_refuses:
  assumes "\<not> post_guards x"
  shows "\<exists>e. \<forall>D. post_entry E x D = Inl e"
proof -
  consider (key) "trim (ei_key x) = ''''" | (lines) "trim (ei_key x) \<noteq> ''''" "ei_lines x = []"
    | (role) e where "trim (ei_key x) \<noteq> ''''" "ei_lines x \<noteq> []" "assertRoleCanPost (ei_role x) (ei_type x) = Inl e"
    | (amount) e where "trim (ei_key x) \<noteq> ''''" "ei_lines x \<noteq> []" "assertRoleCanPost (ei_role x) (ei_type x) = Inr ()"
        "tally ''Ledger line amount must be > 0.'' (map line_pair (ei_lines x)) = Inl e"
    | (sides) "trim (ei_key x) \<noteq> ''''" "ei_lines x \<noteq> []" "assertRoleCanPost (ei_role x) (ei_type x) = Inr ()"
        "tally ''Ledger line amount must be > 0.'' (map line_pair (ei_lines x)) =
          Inr (dir_sum DEBIT (map line_pair (ei_lines x)), dir_sum CREDIT (map line_pair (ei_lines x)))"
        "dir_sum DEBIT (map line_pair (ei_lines x)) \<noteq> dir_sum CREDIT (map line_pair (ei_lines x))"
    using assms by (cases "assertRoleCanPost (ei_role x) (ei_type x)";
        cases "tally ''Ledger line amount must be > 0.'' (map line_pair (ei_lines x))")
      (auto simp: tally_Inr post_guards_def list_all_iff line_pair_def, blast)
  then show ?thesis
  proof cases
    case key
    then show ?thesis by (simp only: post_entry_def if_True simp_thms) blast
  next
    case lines
    then show ?thesis by (simp only: post_entry_def if_True if_False simp_thms) blast
  next
    case role
    then show ?thesis by (simp only: post_entry_def if_False chain_Inl simp_thms) blast
  next
    case amount
    then show ?thesis by (simp only: post_entry_def if_False chain_Inr chain_Inl simp_thms) blast
  next
    case sides
    then show ?thesis by (simp only: post_entry_def if_False if_True chain_Inr prod.case simp_thms) blast
  qed
qed

lemma post_entry_audits:
  "post_entry E x (with_audits xs D) = chain (post_entry E x D) (\<lambda>(r, D'). Inr (r, with_audits xs D'))"
proof (cases "post_guards x")
  case True
  show ?thesis
  proof (cases "find (keyed (ei_tenant x) (ei_key x)) (db_entries D)")
    case None
    then show ?thesis
      by (cases "fold_outcome (build_line (ei_tenant x) (normalize_currency (ei_currency x))
            (db_accounts (ensureDefaultAccounts E (ei_tenant x) D))) (ei_lines x) []")
        (simp_all add: post_entry_unfold [OF True] ensure_audits Let_def, simp add: with_audits_def)
  next
    case (Some e)
    then show ?thesis by (simp add: post_entry_unfold [OF True] ensure_audits Let_def)
  qed
next
  case False
  from post_entry_refuses [OF this, of E] show ?thesis by auto
qed

lemma getBalances_audits: "getBalances t loan (with_audits xs D) = getBalances t loan D"
  unfolding getBalances_def loan_lines_def with_audits_simps ..

lemma accrue_tx_audits: "accrue_tx E R u P i through (with_audits xs D) = keep_audits xs (accrue_tx E R u P i through D)"
proof (cases "find (\<lambda>l. l_id l = i \<and> l_tenant l = pc_tenant P) (db_loans D)")
  case None
  then show ?thesis
    by (simp only: accrue_tx_def find_loan_of_def keep_audits_def with_audits_simps option.case chain_Inl)
next
  case (Some l)
  then have loan: "find_loan_of P i D = Inr l" "find_loan_of P i (with_audits xs D) = Inr l"
    by (simp_all add: find_loan_of_def)
  show ?thesis
  proof (cases "l_status l = LS_DISBURSED")
    case False
    with loan show ?thesis
      by (simp only: accrue_tx_def keep_audits_def chain_Inr chain_Inl ensure_False)
  next
    case True
    show ?thesis
    proof (cases "l_int_paused l \<or> l_annual_rate l = None")
      case idle: True
      with loan True show ?thesis
        by (cases "l_int_paused l")
          (simp_all only: accrue_tx_def keep_audits_def chain_Inr chain_Inl ensure_True if_True if_False
            option.case simp_thms)
    next
      case False
      obtain p q r s where b: "getBalances (pc_tenant P) (l_id l) D = (p, q, r, s)" by (metis prod_cases4)
      from False obtain annual where annual: "l_annual_rate l = Some annual" and running: "\<not> l_int_paused l" by auto
      let ?x = "accrual_entry P l through (accrued_interest R p (case l_override_rate l of Some x \<Rightarrow> x | None \<Rightarrow> annual)
                  (accrual_days u through l))"
      have "accrue_tx E R u P i through D' =
        (if annual \<le> 0 then Inl (BadRequest ''annualInterestRate must be set before accrual.'')
         else if p \<le> 0 \<or> accrual_days u through l \<le> 0 \<or> accrued_interest R p
           (case l_override_rate l of Some x \<Rightarrow> x | None \<Rightarrow> annual) (accrual_days u through l) \<le> 0 then Inr D'
         else chain (post_entry E ?x D') (\<lambda>(_, D1).
           Inr (D1\<lparr>db_loans := update_where (\<lambda>m. l_id m = l_id l)
             (\<lambda>m. m\<lparr>l_last_accrued := Some through\<rparr>) (db_loans D1)\<rparr>)))"
        if "find_loan_of P i D' = Inr l" "getBalances (pc_tenant P) (l_id l) D' = (p, q, r, s)" for D'
        using that running True annual
        by (simp only: accrue_tx_def chain_Inr ensure_True if_False option.case prod.case Let_def simp_thms)
      note form = this [OF loan(1) b] this [OF loan(2), unfolded getBalances_audits, OF b]
      show ?thesis
        unfolding form
        by (cases "post_entry E ?x D") (auto simp: keep_audits_def post_entry_audits split: prod.split, simp_all add: with_audits_def)
    qed
  qed
qed

lemma accrue_audits: "accrueInterest E R u P i through (with_audits xs D) = keep_audits xs (accrueInterest E R u P i through D)"
  by (simp add: accrueInterest_def isEnabled_def accrue_tx_audits)
    (simp add: keep_audits_def chain_def ensure_def)

section \<open>A pause only defers the interest\<close>

lemma find_loan_ofD:
  "find_loan_of P i D = Inr l \<Longrightarrow> l \<in> set (db_loans D) \<and> l_id l = i \<and> l_tenant l = pc_tenant P"
  by (auto simp: find_loan_of_def dest: find_SomeD split: option.splits)

lemma switched_loan:
  assumes "find_loan_of P i D = Inr l" and "\<And>m. l_id (f m) = l_id m \<and> l_tenant (f m) = l_tenant m"
    and "distinct (map l_id (db_loans D))" and "pc_tenant Q = pc_tenant P"
  shows "find_loan_of Q i (switch_loan P l f a b c r D) = Inr (f l)"
proof -
  from assms(1) have "find (\<lambda>l. l_id l = i \<and> l_tenant l = pc_tenant P) (db_loans D) = Some l"
    by (simp add: find_loan_of_def split: option.splits)
  from find_updated_loan [OF this assms(2,3)] assms(4) show ?thesis
    by (simp add: find_loan_of_def switch_loan_def)
qed

lemma accrue_ignores_update:
  assumes "\<And>m. find_loan_of P i D = Inr m \<Longrightarrow> l_last_accrued m \<noteq> None"
  shows "accrueInterest E R u P i through D = accrueInterest E R v P i through D"
proof -
  have "accrue_tx E R u P i through D = accrue_tx E R v P i through D"
  proof (cases "find_loan_of P i D")
    case (Inr m)
    with assms obtain t where "l_last_accrued m = Some t" by blast
    then have "accrual_days u through m = accrual_days v through m" by (simp add: accrual_days_def)
    then show ?thesis unfolding accrue_tx_def Inr by (simp add: Let_def split: option.split prod.split)
  qed (simp add: accrue_tx_def)
  then show ?thesis by (simp add: accrueInterest_def)
qed

lemma find_loan_of_unique:
  assumes "distinct (map l_id (db_loans D))" "find_loan_of P i D = Inr l" "find_loan_of A i D = Inr m"
  shows "m = l"
  using find_loan_ofD [OF assms(2)] find_loan_ofD [OF assms(3)] assms(1)
  by (auto dest!: inj_onD [OF conjunct2 [OF iffD1 [OF distinct_map]]])

text \<open>
  C26. A pause that is lifted again defers the interest and does not spare it: for a loan that was accrued
  before, every accrual after a pause and a resumption posts and records exactly what it would have posted
  without the pause, whenever the row was updated last, so the paused days are charged with the next
  accrual. Only the audit rows differ. (A loan that was never accrued counts from the row's last update,
  which the pause and the resumption move.)
\<close>

theorem paused_days_are_charged:
  assumes "distinct (map l_id (db_loans D))" and "find_loan_of P i D = Inr l"
    and "l_last_accrued l = Some day"
    and "\<not> l_int_paused l" and "l_int_paused_at l = None" and "l_int_paused_by l = None"
    and "l_int_pause_reason l = None"
    and "pauseInterest E P i reason D = Inr D1" and "resumeInterest Q i D1 = Inr D2"
    and "pc_tenant Q = pc_tenant P"
  shows "\<exists>xs. D2 = D\<lparr>db_interest_audits := xs\<rparr> \<and> length xs = length (db_interest_audits D) + 2 \<and>
    accrueInterest E' R updated2 A i through D2 =
      chain (accrueInterest E' R updated A i through D) (\<lambda>D'. Inr (D'\<lparr>db_interest_audits := xs\<rparr>))"
proof -
  note assms = assms(1,2,4-10) and accrued = assms(3)
  define f where "f = (\<lambda>m. m\<lparr>l_int_paused := True, l_int_paused_at := Some (ev_now E),
    l_int_paused_by := Some (pc_admin P), l_int_pause_reason := trim_or_null reason\<rparr> :: loan)"
  define g where "g = (\<lambda>m. m\<lparr>l_int_paused := False, l_int_paused_at := None, l_int_paused_by := None,
    l_int_pause_reason := None\<rparr> :: loan)"
  from assms(2,7) obtain a b c r where D1: "D1 = switch_loan P l f a b c r D"
    by (auto simp: pauseInterest_def outcome_simps f_def)
  from find_loan_ofD [OF assms(2)] have l: "l \<in> set (db_loans D)" "l_id l = i" by auto
  have "find_loan_of Q i D1 = Inr (f l)"
    unfolding D1 by (rule switched_loan [OF assms(2) _ assms(1,9)]) (simp add: f_def)
  with assms(8) obtain a' b' c' r' where D2: "D2 = switch_loan Q (f l) g a' b' c' r' D1"
    by (auto simp: resumeInterest_def outcome_simps g_def)
  have "g (f l) = l" using assms(3-6) by (cases l) (simp add: f_def g_def)
  moreover have "l_id (f m) = l_id m" for m by (simp add: f_def)
  ultimately have "db_loans D2 = db_loans D"
    using update_where_own [OF assms(1) l(1), of "\<lambda>m. g (f m)"] by (simp add: D2 D1 switch_loan_def update_where_twice)
  moreover have "D2 = D\<lparr>db_loans := db_loans D2, db_interest_audits := db_interest_audits D2\<rparr>"
    by (simp add: D2 D1 switch_loan_def)
  ultimately have frame: "D2 = with_audits (db_interest_audits D2) D"
    unfolding with_audits_def by simp
  have "accrueInterest E' R updated2 A i through D2 =
      keep_audits (db_interest_audits D2) (accrueInterest E' R updated2 A i through D)"
    using accrue_audits [of E' R updated2 A i through "db_interest_audits D2" D, folded frame] .
  moreover have "accrueInterest E' R updated2 A i through D = accrueInterest E' R updated A i through D"
    using find_loan_of_unique [OF assms(1,2)] accrued by (intro accrue_ignores_update) auto
  moreover have "length (db_interest_audits D2) = length (db_interest_audits D) + 2"
    by (simp add: D2 D1 switch_loan_def)
  ultimately show ?thesis
    using frame by (intro exI [of _ "db_interest_audits D2"]) (simp add: keep_audits_def with_audits_def)
qed

definition risk_officer :: principal where
  "risk_officer = \<lparr>pc_admin = ''adm'', pc_tenant = ''ten'', pc_role = RISK_MANAGER\<rparr>"

definition accrued_loan :: loan where
  "accrued_loan = sample_loan\<lparr>l_last_accrued := Some 1700006400000\<rparr>"

theorem paused_days_are_charged_witness:
  "\<exists>D1 D2 xs. pauseInterest sample_env risk_officer ''loan'' None (loan_db\<lparr>db_loans := [accrued_loan]\<rparr>) = Inr D1 \<and>
    resumeInterest risk_officer ''loan'' D1 = Inr D2 \<and>
    D2 = loan_db\<lparr>db_loans := [accrued_loan], db_interest_audits := xs\<rparr> \<and> length xs = 2"
proof -
  let ?D = "loan_db\<lparr>db_loans := [accrued_loan]\<rparr>"
  have found: "find_loan_of risk_officer ''loan'' ?D = Inr accrued_loan"
    by (simp add: find_loan_of_def sample_loan_def accrued_loan_def risk_officer_def)
  have ids: "distinct (map l_id (db_loans ?D))" by simp
  have role: "can_control risk_officer = Inr ()" by (simp add: can_control_def risk_officer_def)
  from found role obtain D1 f where p: "pauseInterest sample_env risk_officer ''loan'' None ?D = Inr D1"
      "find_loan_of risk_officer ''loan'' D1 = Inr (f accrued_loan)" "l_int_paused (f accrued_loan)"
    using switched_loan [OF found _ ids refl] by (simp add: pauseInterest_def accrued_loan_def sample_loan_def)
  then obtain D2 where r: "resumeInterest risk_officer ''loan'' D1 = Inr D2"
    using role by (simp add: resumeInterest_def)
  have "l_last_accrued accrued_loan = Some 1700006400000" "\<not> l_int_paused accrued_loan"
    "l_int_paused_at accrued_loan = None" "l_int_paused_by accrued_loan = None"
    "l_int_pause_reason accrued_loan = None"
    by (simp_all add: accrued_loan_def sample_loan_def)
  from paused_days_are_charged [OF ids found this p(1) r refl] obtain xs
    where "D2 = ?D\<lparr>db_interest_audits := xs\<rparr>" "length xs = length (db_interest_audits ?D) + 2"
    by blast
  with p(1) r show ?thesis by (auto simp: loan_db_def empty_db_def)
qed

text \<open>
  A risk manager passes the check of the accrual but never accrues anything: the ledger lets the
  role post no accrual, so every call fails or leaves the database as it was.
\<close>

lemma risk_manager_accrues_nothing:
  assumes "pc_role P = RISK_MANAGER" and "accrueInterest E R u P i through D = Inr D'"
  shows "D' = D"
proof -
  have "\<not> post_guards (accrual_entry P l through a)" for l a
    using assms(1) by (simp add: post_guards_def accrual_entry_def)
  then have "post_entry E (accrual_entry P l through a) D \<noteq> Inr r" for l a r
    using post_entry_guards by blast
  with assms(2) show ?thesis
    by (auto simp: accrueInterest_def accrue_tx_def outcome_simps Let_def split: if_splits option.splits prod.splits)
qed

lemma risk_manager_accrues_nothing_witness:
  "accrueInterest sample_env exact_ops 0 risk_officer ''loan'' 1700006400000
     (loan_db\<lparr>db_loans := [sample_loan\<lparr>l_int_paused := True\<rparr>]\<rparr>) =
   Inr (loan_db\<lparr>db_loans := [sample_loan\<lparr>l_int_paused := True\<rparr>]\<rparr>)"
proof -
  define D where "D = loan_db\<lparr>db_loans := [sample_loan\<lparr>l_int_paused := True\<rparr>]\<rparr>"
  have "accrueInterest sample_env exact_ops 0 risk_officer ''loan'' 1700006400000 D = Inr D"
    by (simp add: accrueInterest_def isEnabled_def accrue_tx_def find_loan_of_def D_def loan_db_def empty_db_def
        risk_officer_def sample_loan_def)
  from risk_manager_accrues_nothing [OF _ this] this show ?thesis
    by (simp add: risk_officer_def D_def)
qed

end
