(* ===== verification/Hardship.thy ===== *)
theory Hardship
  imports LoanApplications Amortization LoanInterest
begin

text \<open>
  Hardship requests, \<open>modules/hardship/hardship.service.ts\<close>: a borrower asks for a pause, a longer
  term or a lower rate, an admin takes the request through its states, and an approval changes the
  loan: a pause sets the flags of its interest, the other two replace the unpaid instalments by a new
  schedule. The lists are reads and left out. Rates are exact: the product with 100 is taken in
  floating point by the code, on numbers of at most five decimals.
\<close>

section \<open>Data\<close>

record hardship_input =
  hq_loan :: string
  hq_type :: hardship_type
  hq_reason :: string
  hq_tenor :: "int option"
  hq_rate :: "decimal option"
  hq_pause_days :: "int option"

fun periodDays :: "frequency \<Rightarrow> int" where
  "periodDays DAILY = 1"
| "periodDays WEEKLY = 7"
| "periodDays BIWEEKLY = 14"
| "periodDays MONTHLY = 30"

definition active_request :: "hardship \<Rightarrow> bool" where
  "active_request r \<longleftrightarrow> hs_status r \<in> {HS_REQUESTED, HS_UNDER_REVIEW}"

section \<open>Guards\<close>

definition assertAdminTransitionRole :: "admin_role \<Rightarrow> hardship_status \<Rightarrow> unit outcome" where
  "assertAdminTransitionRole role to_status =
     ensure (role = SUPER_ADMIN \<or> (to_status = HS_UNDER_REVIEW \<and> role = CREDIT_OFFICER) \<or>
       (to_status \<in> {HS_APPROVED, HS_REJECTED} \<and> role = RISK_MANAGER))
       (Forbidden ''Role cannot transition hardship request.'')"

definition assertTransitionAllowed :: "hardship_status \<Rightarrow> hardship_status \<Rightarrow> unit outcome" where
  "assertTransitionAllowed from_status to_status =
     ensure ((from_status = HS_REQUESTED \<and> to_status \<in> {HS_UNDER_REVIEW, HS_REJECTED}) \<or>
       (from_status = HS_UNDER_REVIEW \<and> to_status \<in> {HS_APPROVED, HS_REJECTED}))
       (BadRequest ''Invalid hardship transition.'')"

section \<open>A request\<close>

definition notifyCreditOfficerGroup :: "string \<Rightarrow> string \<Rightarrow> string \<Rightarrow> db \<Rightarrow> db" where
  "notifyCreditOfficerGroup t i template D = emit (Notified template i (admins_with t [CREDIT_OFFICER] D)) D"

definition notifyCollectionsGroup :: "string \<Rightarrow> string \<Rightarrow> db \<Rightarrow> db" where
  "notifyCollectionsGroup t i D = emit (Notified ''HARDSHIP_APPROVED'' i (admins_with t [COLLECTIONS] D)) D"

text \<open>A rate of zero is kept as no rate.\<close>

definition new_request :: "borrower \<Rightarrow> hardship_input \<Rightarrow> string \<Rightarrow> hardship" where
  "new_request B x i =
     \<lparr>hs_id = i, hs_tenant = bo_tenant B, hs_borrower = bo_id B, hs_loan = hq_loan x, hs_type = hq_type x,
      hs_reason = trim (hq_reason x), hs_tenor = hq_tenor x,
      hs_rate = (if hq_rate x = Some 0 then None else hq_rate x), hs_pause_days = hq_pause_days x,
      hs_status = HS_REQUESTED, hs_notes = None, hs_approved_by = None, hs_decided_at = None\<rparr>"

definition createBorrowerRequest :: "env \<Rightarrow> borrower \<Rightarrow> hardship_input \<Rightarrow> db \<Rightarrow> (hardship \<times> db) outcome" where
  "createBorrowerRequest E B x D =
     (case find (\<lambda>l. l_id l = hq_loan x \<and> l_tenant l = bo_tenant B) (db_loans D) of
        None \<Rightarrow> Inl (NotFound ''Loan application not found.'')
      | Some l \<Rightarrow>
          (if l_phone l \<noteq> bo_phone B then Inl (NotFound ''Loan application not found.'')
           else if l_status l \<noteq> LS_DISBURSED
           then Inl (BadRequest ''Hardship can only be requested for DISBURSED loans.'')
           else if \<exists>r \<in> set (db_hardships D). hs_tenant r = bo_tenant B \<and> hs_borrower r = bo_id B \<and>
                     hs_loan r = l_id l \<and> active_request r
           then Inl (Conflict ''An active hardship request already exists for this loan.'')
           else
             (case fresh E D of (i, D1) \<Rightarrow>
                let r = new_request B x i;
                    D2 = D1\<lparr>db_hardships := db_hardships D1 @ [r],
                      db_hardship_history := db_hardship_history D1 @
                        [\<lparr>ht_request = i, ht_from = HS_REQUESTED, ht_to = HS_REQUESTED, ht_by = None\<rparr>]\<rparr>
                in Inr (r, emit (Audit ''HARDSHIP_REQUEST_CREATED'' ''HARDSHIP_REQUEST'' i)
                     (notifyCreditOfficerGroup (bo_tenant B) i ''HARDSHIP_REQUEST_CREATED'' D2)))))"

section \<open>What an approval does to the loan\<close>

definition pause_loan :: "env \<Rightarrow> hardship \<Rightarrow> principal \<Rightarrow> int \<Rightarrow> loan \<Rightarrow> loan" where
  "pause_loan E r P days m =
     m\<lparr>l_int_paused := True, l_int_paused_at := Some (ev_now E),
       l_int_paused_until := Some (set_utc_date (ev_now E) (utc_date (ev_now E) + days)),
       l_int_pause_reason := Some (''Hardship approved ('' @ hs_id r @ '')''),
       l_int_paused_by := Some (pc_admin P)\<rparr>"

definition loan_schedule :: "string \<Rightarrow> string \<Rightarrow> db \<Rightarrow> sched_item list" where
  "loan_schedule t loan D = sort_key si_no (filter (\<lambda>i. si_tenant i = t \<and> si_loan i = loan) (db_items D))"

text \<open>The term in days and the rate in basis points of the new schedule.\<close>

definition new_terms :: "hardship \<Rightarrow> loan \<Rightarrow> nat \<Rightarrow> (int \<times> int) outcome" where
  "new_terms r l unpaid =
     (let p = periodDays (l_frequency l); kept = max p (int unpaid * p)
      in case hs_type r of
           TENOR_EXTENSION \<Rightarrow>
             (let months = (case hs_tenor r of Some n \<Rightarrow> n | None \<Rightarrow> 0)
              in if months \<le> 0 then Inl (BadRequest ''proposedTenorMonths is required for TENOR_EXTENSION approvals.'')
                 else Inr (max (months * 30) p, l_annual_bps l))
         | RATE_REDUCTION \<Rightarrow>
             (let rate = (case hs_rate r of Some x \<Rightarrow> x | None \<Rightarrow> 0)
              in if rate \<le> 0 then Inl (BadRequest ''proposedRate is required for RATE_REDUCTION approvals.'')
                 else Inr (kept, js_round (rate * 100)))
         | PAYMENT_PAUSE \<Rightarrow> Inr (kept, l_annual_bps l))"

definition new_schedule :: "env \<Rightarrow> decimal_ops \<Rightarrow> loan \<Rightarrow> int \<Rightarrow> int \<Rightarrow> schedule_line list" where
  "new_schedule E R l term bps =
     generateSchedule R \<lparr>in_principal = l_out_principal l, in_annual_bps = bps, in_start = ev_now E,
       in_frequency = l_frequency l, in_term_days = term, in_method = Some REDUCING_BALANCE,
       in_fees = Some 0\<rparr>"

definition new_item :: "hardship \<Rightarrow> loan \<Rightarrow> nat \<Rightarrow> schedule_line \<Rightarrow> string \<Rightarrow> sched_item" where
  "new_item r l no line i =
     \<lparr>si_id = i, si_tenant = hs_tenant r, si_loan = l_id l, si_no = no, si_due = sl_due line,
      si_principal_due = sl_principal line, si_interest_due = sl_interest line, si_fees_due = sl_fees line,
      si_total_due = sl_total line, si_principal_paid = 0, si_interest_paid = 0, si_fees_paid = 0,
      si_total_paid = 0, si_status = SI_PENDING, si_paid_at = None, si_is_overdue = False,
      si_overdue_since = None\<rparr>"

text \<open>A loan has one instalment of a number.\<close>

definition create_item :: "env \<Rightarrow> hardship \<Rightarrow> loan \<Rightarrow> nat \<times> schedule_line \<Rightarrow> db \<Rightarrow> db outcome" where
  "create_item E r l nl D =
     (if \<exists>i \<in> set (db_items D). si_loan i = l_id l \<and> si_no i = fst nl
      then Inl (Internal ''Unique constraint failed'')
      else (case fresh E D of (i, D1) \<Rightarrow>
              Inr (D1\<lparr>db_items := db_items D1 @ [new_item r l (fst nl) (snd nl) i]\<rparr>)))"

definition rest_of :: "(sched_item \<Rightarrow> decimal) \<Rightarrow> (sched_item \<Rightarrow> decimal) \<Rightarrow> sched_item list \<Rightarrow> decimal" where
  "rest_of due paid items = (\<Sum>i\<leftarrow>items. due i - paid i)"

definition rescheduled :: "hardship \<Rightarrow> int \<Rightarrow> sched_item list \<Rightarrow> schedule_line list \<Rightarrow> loan \<Rightarrow> loan \<Rightarrow> loan" where
  "rescheduled r bps paid lines l m =
     (let p = rest_of si_principal_due si_principal_paid paid + (\<Sum>x\<leftarrow>lines. sl_principal x);
          i = rest_of si_interest_due si_interest_paid paid + (\<Sum>x\<leftarrow>lines. sl_interest x);
          f = rest_of si_fees_due si_fees_paid paid + (\<Sum>x\<leftarrow>lines. sl_fees x)
      in m\<lparr>l_annual_bps := bps,
           l_annual_rate := (if hs_type r = RATE_REDUCTION \<and> hs_rate r \<noteq> None then hs_rate r else l_annual_rate l),
           l_out_principal := p, l_out_interest := i, l_out_fees := f, l_out_total := p + i + f,
           l_next_due := (case lines of [] \<Rightarrow> l_next_due l | x # _ \<Rightarrow> Some (sl_due x))\<rparr>)"

definition reschedule :: "env \<Rightarrow> decimal_ops \<Rightarrow> hardship \<Rightarrow> loan \<Rightarrow> db \<Rightarrow> db outcome" where
  "reschedule E R r l D =
     (let items = loan_schedule (hs_tenant r) (l_id l) D;
          paid = filter (\<lambda>i. si_status i = SI_PAID) items;
          unpaid = filter (\<lambda>i. si_status i \<noteq> SI_PAID) items
      in if \<exists>i \<in> set unpaid. 0 < si_total_paid i
         then Inl (Conflict ''Cannot recalculate schedule when a future installment is partially paid.'')
         else
           chain (new_terms r l (length unpaid)) (\<lambda>(term, bps).
           let lines = new_schedule E R l term bps;
               D1 = D\<lparr>db_items := filter (\<lambda>i. \<not> (si_tenant i = hs_tenant r \<and> si_loan i = l_id l \<and>
                         si_status i \<noteq> SI_PAID)) (db_items D)\<rparr>
           in chain (fold_outcome (create_item E r l)
                      (enumerate (length paid + 1) lines) D1) (\<lambda>D2.
              Inr (D2\<lparr>db_loans := update_where (\<lambda>m. l_id m = l_id l) (rescheduled r bps paid lines l)
                       (db_loans D2)\<rparr>))))"

definition applyApprovedMutation :: "env \<Rightarrow> decimal_ops \<Rightarrow> hardship \<Rightarrow> principal \<Rightarrow> db \<Rightarrow> db outcome" where
  "applyApprovedMutation E R r P D =
     (case find (\<lambda>l. l_id l = hs_loan r \<and> l_tenant l = hs_tenant r) (db_loans D) of
        None \<Rightarrow> Inl (NotFound ''Loan not found for hardship request.'')
      | Some l \<Rightarrow>
          (if l_status l \<noteq> LS_DISBURSED
           then Inl (BadRequest ''Only DISBURSED loans can be mutated by hardship approval.'')
           else if hs_type r = PAYMENT_PAUSE
           then (let days = (case hs_pause_days r of Some n \<Rightarrow> n | None \<Rightarrow> 0)
                 in if days \<le> 0 then Inl (BadRequest ''pauseDays is required for PAYMENT_PAUSE approvals.'')
                    else Inr (D\<lparr>db_loans := update_where (\<lambda>m. l_id m = l_id l) (pause_loan E r P days) (db_loans D)\<rparr>))
           else reschedule E R r l D))"

section \<open>A transition\<close>

definition decided :: "env \<Rightarrow> principal \<Rightarrow> hardship_status \<Rightarrow> string option \<Rightarrow> hardship \<Rightarrow> hardship" where
  "decided E P to_status notes r =
     r\<lparr>hs_status := to_status, hs_notes := trim_or_null notes,
       hs_approved_by := (if to_status = HS_APPROVED then Some (pc_admin P) else None),
       hs_decided_at := (if to_status \<in> {HS_APPROVED, HS_REJECTED} then Some (ev_now E) else None)\<rparr>"

definition record_decision ::
  "env \<Rightarrow> principal \<Rightarrow> hardship \<Rightarrow> hardship_status \<Rightarrow> string option \<Rightarrow> db \<Rightarrow> db" where
  "record_decision E P r to_status notes D =
     (let D1 = D\<lparr>db_hardships := update_where (\<lambda>q. hs_id q = hs_id r) (decided E P to_status notes) (db_hardships D),
            db_hardship_history := db_hardship_history D @
              [\<lparr>ht_request = hs_id r, ht_from = hs_status r, ht_to = to_status, ht_by = Some (pc_admin P)\<rparr>]\<rparr>;
          D2 = (if to_status = HS_APPROVED
                then notifyCollectionsGroup (hs_tenant r) (hs_id r)
                       (emit (Notified ''HARDSHIP_APPROVED'' (hs_id r) [hs_borrower r]) D1)
                else D1)
      in emit (Audit ''HARDSHIP_STATUS_TRANSITION'' ''HARDSHIP_REQUEST'' (hs_id r)) D2)"

definition transitionRequest ::
  "env \<Rightarrow> decimal_ops \<Rightarrow> principal \<Rightarrow> string \<Rightarrow> hardship_status \<Rightarrow> string option \<Rightarrow> db \<Rightarrow> db outcome" where
  "transitionRequest E R P i to_status notes D =
     chain (assertAdminTransitionRole (pc_role P) to_status) (\<lambda>_.
     (case find (\<lambda>r. hs_id r = i \<and> hs_tenant r = pc_tenant P) (db_hardships D) of
        None \<Rightarrow> Inl (NotFound ''Hardship request not found.'')
      | Some r \<Rightarrow>
          (if hs_status r \<in> {HS_APPROVED, HS_REJECTED, HS_CANCELLED}
           then Inl (Conflict ''Hardship request is already in a terminal status.'')
           else
             chain (assertTransitionAllowed (hs_status r) to_status) (\<lambda>_.
             chain (if to_status = HS_APPROVED then applyApprovedMutation E R r P D else Inr D) (\<lambda>D1.
             Inr (record_decision E P r to_status notes D1))))))"

section \<open>The new schedule\<close>

lemma new_request_rows_frame:
  "create_item E r l nl D = Inr D' \<Longrightarrow>
   D' = D\<lparr>db_items := db_items D @ [new_item r l (fst nl) (snd nl) (ev_cuid E (db_seq D))], db_seq := Suc (db_seq D)\<rparr>"
  by (auto simp: create_item_def fresh_def split: if_splits)

lemma create_items_form:
  "fold_outcome (create_item E r l) nls D = Inr D' \<Longrightarrow>
   \<exists>is. D' = D\<lparr>db_items := db_items D @ is, db_seq := db_seq D'\<rparr> \<and>
     list_all2 (\<lambda>nl i. \<exists>k. i = new_item r l (fst nl) (snd nl) k) nls is"
proof (induction nls arbitrary: D)
  case Nil
  then show ?case by (intro exI [of _ "[]"]) simp
next
  case (Cons nl nls)
  then obtain D1 where D1: "create_item E r l nl D = Inr D1" "fold_outcome (create_item E r l) nls D1 = Inr D'"
    by (auto simp: outcome_simps)
  from Cons.IH [OF D1(2)] obtain "is" where tail: "D' = D1\<lparr>db_items := db_items D1 @ is, db_seq := db_seq D'\<rparr>"
      "list_all2 (\<lambda>nl i. \<exists>k. i = new_item r l (fst nl) (snd nl) k) nls is" by blast
  note head = new_request_rows_frame [OF D1(1)]
  have "D' = D\<lparr>db_items := db_items D @ new_item r l (fst nl) (snd nl) (ev_cuid E (db_seq D)) # is, db_seq := db_seq D'\<rparr>"
    by (subst tail(1)) (simp add: head)
  with tail(2) show ?case
    by (intro exI [of _ "new_item r l (fst nl) (snd nl) (ev_cuid E (db_seq D)) # is"]) auto
qed

text \<open>What the new instalments add up to is what the lines of the schedule add up to.\<close>

lemma new_items_sum:
  assumes "list_all2 (\<lambda>nl i. \<exists>k. i = new_item r l (fst nl) (snd nl) k) nls is"
    and "\<And>n x k. g (new_item r l n x k) = h x"
  shows "(\<Sum>i\<leftarrow>is. g i) = (\<Sum>nl\<leftarrow>nls. h (snd nl))"
  using assms(1) by (induction rule: list_all2_induct) (auto simp: assms(2))

lemma new_items_all:
  assumes "list_all2 (\<lambda>nl i. \<exists>k. i = new_item r l (fst nl) (snd nl) k) nls is" and "i \<in> set is"
  shows "si_tenant i = hs_tenant r \<and> si_loan i = l_id l \<and> si_status i = SI_PENDING"
  using assms by (induction rule: list_all2_induct) (auto simp: new_item_def)

lemma period_pos: "0 < periodDays f"
  by (cases f) simp_all

lemma new_terms_pos: "new_terms r l n = Inr (term, bps) \<Longrightarrow> 0 < term"
  using period_pos [of "l_frequency l"]
  by (cases "hs_type r") (auto simp: new_terms_def Let_def less_max_iff_disj split: if_splits)

lemma new_schedule_sums:
  fixes E :: env and R :: decimal_ops and bps :: int
  assumes "0 < term" and "0 < l_out_principal l" and "is_cents (l_out_principal l)"
  defines "lines \<equiv> new_schedule E R l term bps"
  shows "(\<Sum>x\<leftarrow>lines. sl_principal x) = l_out_principal l" "(\<Sum>x\<leftarrow>lines. sl_fees x) = 0"
    "(\<Sum>x\<leftarrow>lines. sl_total x) = l_out_principal l + (\<Sum>x\<leftarrow>lines. sl_interest x)"
proof -
  define x where "x = \<lparr>in_principal = l_out_principal l, in_annual_bps = bps, in_start = ev_now E,
       in_frequency = l_frequency l, in_term_days = term, in_method = Some REDUCING_BALANCE, in_fees = Some 0\<rparr>"
  have n: "0 < installmentCount (in_term_days x) (in_frequency x)"
    using assms(1) by (simp add: x_def installmentCount_pos)
  have "lines = schedule_rows R x"
    using n assms(2,3) by (simp add: lines_def new_schedule_def x_def generate_eq_rows)
  then show p: "(\<Sum>x\<leftarrow>lines. sl_principal x) = l_out_principal l" and f: "(\<Sum>x\<leftarrow>lines. sl_fees x) = 0"
    using rows_sums [OF n, of R] assms(3) by (simp_all add: x_def input_fees_def)
  have "map sl_total lines = map (\<lambda>l. sl_principal l + sl_interest l + sl_fees l) lines"
    using rows_total \<open>lines = schedule_rows R x\<close> by (intro map_cong) auto
  then show "(\<Sum>x\<leftarrow>lines. sl_total x) = l_out_principal l + (\<Sum>x\<leftarrow>lines. sl_interest x)"
    by (simp only: sum_list_map_add p f)
qed

definition unpaid_items :: "string \<Rightarrow> string \<Rightarrow> db \<Rightarrow> sched_item list" where
  "unpaid_items t loan D =
     filter (\<lambda>i. si_tenant i = t \<and> si_loan i = loan \<and> si_status i \<noteq> SI_PAID) (db_items D)"

definition fully_paid :: "sched_item \<Rightarrow> bool" where
  "fully_paid i \<longleftrightarrow> si_principal_paid i = si_principal_due i \<and> si_interest_paid i = si_interest_due i \<and>
     si_fees_paid i = si_fees_due i"

lemma rest_of_paid:
  assumes "\<forall>i \<in> set items. paid i = due i"
  shows "rest_of due paid items = 0"
  using assms by (induction items) (auto simp: rest_of_def)

lemma sum_enumerate_snd: "(\<Sum>nl\<leftarrow>enumerate n xs. h (snd nl)) = (\<Sum>x\<leftarrow>xs. h x)"
  by (induction xs arbitrary: n) auto


text \<open>A successful approval that is not a pause is a rescheduling of the loan it found.\<close>

lemma approved_reschedule:
  assumes "transitionRequest E R P i HS_APPROVED notes D = Inr D'"
    and "find (\<lambda>r. hs_id r = i \<and> hs_tenant r = pc_tenant P) (db_hardships D) = Some r"
    and "find (\<lambda>l. l_id l = hs_loan r \<and> l_tenant l = hs_tenant r) (db_loans D) = Some l"
    and "hs_type r \<noteq> PAYMENT_PAUSE"
  shows "\<exists>D1. reschedule E R r l D = Inr D1 \<and> D' = record_decision E P r HS_APPROVED notes D1"
  using assms by (auto simp: transitionRequest_def applyApprovedMutation_def outcome_simps split: if_splits)

lemma record_decision_frame [simp]:
  "db_loans (record_decision E P r s notes D) = db_loans D" "db_items (record_decision E P r s notes D) = db_items D"
  "db_entries (record_decision E P r s notes D) = db_entries D"
  "db_hardships (record_decision E P r s notes D) =
     update_where (\<lambda>q. hs_id q = hs_id r) (decided E P s notes) (db_hardships D)"
  "db_seq (record_decision E P r s notes D) = db_seq D"
  by (simp_all add: record_decision_def notifyCollectionsGroup_def emit_def Let_def)

lemma reschedule_form:
  assumes "reschedule E R r l D = Inr D'"
  obtains span bps "is" where "new_terms r l (length (filter (\<lambda>i. si_status i \<noteq> SI_PAID) (loan_schedule (hs_tenant r) (l_id l) D))) = Inr (span, bps)"
    "db_items D' = filter (\<lambda>i. \<not> (si_tenant i = hs_tenant r \<and> si_loan i = l_id l \<and> si_status i \<noteq> SI_PAID)) (db_items D) @ is"
    "list_all2 (\<lambda>nl i. \<exists>k. i = new_item r l (fst nl) (snd nl) k)
      (enumerate (length (filter (\<lambda>i. si_status i = SI_PAID) (loan_schedule (hs_tenant r) (l_id l) D)) + 1)
        (new_schedule E R l span bps)) is"
    "db_loans D' = update_where (\<lambda>m. l_id m = l_id l)
      (rescheduled r bps (filter (\<lambda>i. si_status i = SI_PAID) (loan_schedule (hs_tenant r) (l_id l) D))
        (new_schedule E R l span bps) l) (db_loans D)"
    "db_entries D' = db_entries D" "db_hardships D' = db_hardships D"
proof -
  define paid where "paid = filter (\<lambda>i. si_status i = SI_PAID) (loan_schedule (hs_tenant r) (l_id l) D)"
  from assms obtain span bps D2 where
    t: "new_terms r l (length (filter (\<lambda>i. si_status i \<noteq> SI_PAID) (loan_schedule (hs_tenant r) (l_id l) D))) = Inr (span, bps)"
    and f: "fold_outcome (create_item E r l) (enumerate (length paid + 1) (new_schedule E R l span bps))
      (D\<lparr>db_items := filter (\<lambda>i. \<not> (si_tenant i = hs_tenant r \<and> si_loan i = l_id l \<and> si_status i \<noteq> SI_PAID)) (db_items D)\<rparr>) =
      Inr D2"
    and D': "D' = D2\<lparr>db_loans := update_where (\<lambda>m. l_id m = l_id l)
      (rescheduled r bps paid (new_schedule E R l span bps) l) (db_loans D2)\<rparr>"
    by (auto simp: reschedule_def Let_def outcome_simps paid_def split: if_splits)
  from create_items_form [OF f] obtain "is" where D2: "D2 = D\<lparr>db_items := filter (\<lambda>i. \<not> (si_tenant i = hs_tenant r \<and>
        si_loan i = l_id l \<and> si_status i \<noteq> SI_PAID)) (db_items D) @ is, db_seq := db_seq D2\<rparr>"
    and "is": "list_all2 (\<lambda>nl i. \<exists>k. i = new_item r l (fst nl) (snd nl) k)
      (enumerate (length paid + 1) (new_schedule E R l span bps)) is"
    by auto
  show ?thesis
  proof (rule that [OF t])
    show "db_items D' = filter (\<lambda>i. \<not> (si_tenant i = hs_tenant r \<and> si_loan i = l_id l \<and> si_status i \<noteq> SI_PAID))
        (db_items D) @ is"
      unfolding D' by (subst D2) simp
    show "db_loans D' = update_where (\<lambda>m. l_id m = l_id l)
      (rescheduled r bps (filter (\<lambda>i. si_status i = SI_PAID) (loan_schedule (hs_tenant r) (l_id l) D))
        (new_schedule E R l span bps) l) (db_loans D)"
      unfolding D' paid_def by (subst D2) simp
    show "db_entries D' = db_entries D" "db_hardships D' = db_hardships D"
      unfolding D' by (subst D2, simp)+
  qed (use "is" in \<open>simp add: paid_def\<close>)
qed

text \<open>
  C27. An approved extension or rate change keeps the principal and forgives the fees: the new
  instalments repay exactly the principal that was outstanding, the loan owes what they owe, with no
  fees left whatever it owed in fees before, and no ledger entry is written for the difference.
\<close>

theorem rescheduling_keeps_principal_drops_fees:
  assumes "transitionRequest E R P i HS_APPROVED notes D = Inr D'"
    and "find (\<lambda>r. hs_id r = i \<and> hs_tenant r = pc_tenant P) (db_hardships D) = Some r"
    and "find (\<lambda>l. l_id l = hs_loan r \<and> l_tenant l = hs_tenant r) (db_loans D) = Some l"
    and "hs_type r \<noteq> PAYMENT_PAUSE" and "distinct (map l_id (db_loans D))"
    and "0 < l_out_principal l" and "is_cents (l_out_principal l)"
    and "\<forall>j \<in> set (db_items D). si_loan j = l_id l \<and> si_status j = SI_PAID \<longrightarrow> fully_paid j"
  shows "\<exists>l'. find (\<lambda>l. l_id l = hs_loan r \<and> l_tenant l = hs_tenant r) (db_loans D') = Some l' \<and>
    l_out_principal l' = l_out_principal l \<and> l_out_fees l' = 0 \<and>
    l_out_total l' = (\<Sum>j\<leftarrow>unpaid_items (hs_tenant r) (l_id l) D'. si_total_due j) \<and>
    (\<Sum>j\<leftarrow>unpaid_items (hs_tenant r) (l_id l) D'. si_principal_due j) = l_out_principal l \<and>
    db_entries D' = db_entries D"
proof -
  from approved_reschedule [OF assms(1-4)] obtain D1
    where D1: "reschedule E R r l D = Inr D1" and D': "D' = record_decision E P r HS_APPROVED notes D1"
    by blast
  define paid where "paid = filter (\<lambda>i. si_status i = SI_PAID) (loan_schedule (hs_tenant r) (l_id l) D)"
  from D1 show ?thesis
  proof (cases rule: reschedule_form)
    case (1 span bps "is")
    define xs where "xs = new_schedule E R l span bps"
    note sums = new_schedule_sums [OF new_terms_pos [OF 1(1)] assms(6,7), of E R bps, folded xs_def]
    have rows: "unpaid_items (hs_tenant r) (l_id l) D' = is"
      using new_items_all [OF 1(3)] by (auto simp: unpaid_items_def D' 1(2) filter_empty_conv intro!: filter_True)
    have due: "(\<Sum>j\<leftarrow>is. si_principal_due j) = (\<Sum>x\<leftarrow>xs. sl_principal x)"
      "(\<Sum>j\<leftarrow>is. si_total_due j) = (\<Sum>x\<leftarrow>xs. sl_total x)"
      using new_items_sum [OF 1(3), of si_principal_due sl_principal] new_items_sum [OF 1(3), of si_total_due sl_total]
      by (simp_all add: new_item_def xs_def sum_enumerate_snd)
    have "\<forall>j \<in> set paid. fully_paid j" using assms(8) by (auto simp: paid_def loan_schedule_def)
    then have rest: "rest_of si_principal_due si_principal_paid paid = 0" "rest_of si_interest_due si_interest_paid paid = 0"
      "rest_of si_fees_due si_fees_paid paid = 0"
      by (simp_all add: rest_of_paid fully_paid_def)
    have "find (\<lambda>l. l_id l = hs_loan r \<and> l_tenant l = hs_tenant r) (db_loans D') = Some (rescheduled r bps paid xs l l)"
      unfolding D' record_decision_frame 1(4) paid_def xs_def
      by (rule find_updated_loan [OF assms(3) _ assms(5)]) (simp add: rescheduled_def Let_def)
    moreover have "db_entries D' = db_entries D" by (simp add: D' 1(5))
    ultimately show ?thesis
      unfolding rows using sums rest due by (simp add: rescheduled_def Let_def)
  qed
qed

text \<open>The instalments are created as long as no number is taken.\<close>

lemma create_items_succeed:
  "distinct (map fst nls) \<Longrightarrow> \<forall>nl \<in> set nls. \<forall>i \<in> set (db_items D). si_loan i = l_id l \<longrightarrow> si_no i \<noteq> fst nl \<Longrightarrow>
   \<exists>D'. fold_outcome (create_item E r l) nls D = Inr D'"
proof (induction nls arbitrary: D)
  case (Cons nl nls)
  then obtain D1 where D1: "create_item E r l nl D = Inr D1" by (auto simp: create_item_def fresh_def)
  note form = new_request_rows_frame [OF D1]
  have "\<exists>D'. fold_outcome (create_item E r l) nls D1 = Inr D'"
    by (rule Cons.IH) (use Cons.prems in \<open>auto simp: form new_item_def\<close>)
  with D1 show ?case by simp
qed simp

definition late_request :: hardship where
  "late_request = \<lparr>hs_id = ''h1'', hs_tenant = ''ten'', hs_borrower = ''b1'', hs_loan = ''loan'', hs_type = TENOR_EXTENSION,
     hs_reason = ''job loss'', hs_tenor = Some 3, hs_rate = None, hs_pause_days = Some 30, hs_status = HS_UNDER_REVIEW,
     hs_notes = None, hs_approved_by = None, hs_decided_at = None\<rparr>"

definition hardship_db :: "hardship_type \<Rightarrow> db" where
  "hardship_db ty = loan_db\<lparr>db_hardships := [late_request\<lparr>hs_type := ty\<rparr>]\<rparr>"

lemma hardship_db_found:
  "find (\<lambda>r. hs_id r = ''h1'' \<and> hs_tenant r = pc_tenant risk_officer) (db_hardships (hardship_db ty)) =
     Some (late_request\<lparr>hs_type := ty\<rparr>)"
  "find (\<lambda>l. l_id l = hs_loan (late_request\<lparr>hs_type := ty\<rparr>) \<and> l_tenant l = hs_tenant (late_request\<lparr>hs_type := ty\<rparr>))
     (db_loans (hardship_db ty)) = Some sample_loan"
  "distinct (map l_id (db_loans (hardship_db ty)))"
  by (simp_all add: hardship_db_def late_request_def risk_officer_def loan_db_def empty_db_def sample_loan_def)

lemma untouched_schedule_is_replaced:
  assumes "\<forall>j \<in> set (db_items D). si_loan j = l_id l \<longrightarrow>
      si_tenant j = hs_tenant r \<and> si_status j \<noteq> SI_PAID \<and> si_total_paid j = 0"
    and "\<exists>b. new_terms r l (length (loan_schedule (hs_tenant r) (l_id l) D)) = Inr b"
  shows "\<exists>D'. reschedule E R r l D = Inr D'"
proof -
  let ?items = "loan_schedule (hs_tenant r) (l_id l) D"
  have all: "filter (\<lambda>i. si_status i = SI_PAID) ?items = []" "filter (\<lambda>i. si_status i \<noteq> SI_PAID) ?items = ?items"
    "\<not> (\<exists>i \<in> set ?items. 0 < si_total_paid i)"
    using assms(1) by (auto simp: loan_schedule_def filter_empty_conv intro!: filter_True)
  from assms(2) obtain d b where t: "new_terms r l (length ?items) = Inr (d, b)" by auto
  have "\<exists>D1. fold_outcome (create_item E r l) (enumerate (length ([] :: sched_item list) + 1) (new_schedule E R l d b))
      (D\<lparr>db_items := filter (\<lambda>i. \<not> (si_tenant i = hs_tenant r \<and> si_loan i = l_id l \<and> si_status i \<noteq> SI_PAID)) (db_items D)\<rparr>) =
      Inr D1"
    using assms(1) by (intro create_items_succeed) auto
  then obtain D1 where "fold_outcome (create_item E r l)
      (enumerate (length ([] :: sched_item list) + 1) (new_schedule E R l d b))
      (D\<lparr>db_items := filter (\<lambda>i. \<not> (si_tenant i = hs_tenant r \<and> si_loan i = l_id l \<and> si_status i \<noteq> SI_PAID)) (db_items D)\<rparr>) =
      Inr D1" ..
  then show ?thesis
    unfolding reschedule_def Let_def all(1,2) if_not_P [OF all(3)] t chain_Inr prod.case by simp
qed

lemma hardship_db_approves: "\<exists>D'. transitionRequest sample_env exact_ops risk_officer ''h1'' HS_APPROVED None (hardship_db TENOR_EXTENSION) = Inr D'"
proof -
  let ?r = "late_request\<lparr>hs_type := TENOR_EXTENSION\<rparr>"
  have "\<exists>D'. reschedule sample_env exact_ops ?r sample_loan (hardship_db TENOR_EXTENSION) = Inr D'"
    by (rule untouched_schedule_is_replaced)
      (auto simp: hardship_db_def loan_db_def sample_items_def sample_item_def late_request_def new_terms_def)
  then obtain D' where "reschedule sample_env exact_ops ?r sample_loan (hardship_db TENOR_EXTENSION) = Inr D'" ..
  moreover have "l_status sample_loan = LS_DISBURSED" by (simp add: sample_loan_def)
  moreover have "hs_status ?r = HS_UNDER_REVIEW" "hs_type ?r = TENOR_EXTENSION" by (simp_all add: late_request_def)
  moreover have "assertAdminTransitionRole (pc_role risk_officer) HS_APPROVED = Inr ()"
    by (simp add: assertAdminTransitionRole_def risk_officer_def)
  ultimately show ?thesis
    using hardship_db_found [of TENOR_EXTENSION]
    by (simp add: transitionRequest_def assertTransitionAllowed_def applyApprovedMutation_def)
qed

theorem rescheduling_keeps_principal_drops_fees_witness:
  "\<exists>D' l'. transitionRequest sample_env exact_ops risk_officer ''h1'' HS_APPROVED None (hardship_db TENOR_EXTENSION) = Inr D' \<and>
    find (\<lambda>l. l_id l = ''loan'' \<and> l_tenant l = ''ten'') (db_loans D') = Some l' \<and>
    l_out_principal l' = 100 \<and> l_out_fees sample_loan = 4 \<and> l_out_fees l' = 0"
proof -
  obtain D' where D': "transitionRequest sample_env exact_ops risk_officer ''h1'' HS_APPROVED None (hardship_db TENOR_EXTENSION) = Inr D'"
    using hardship_db_approves ..
  have "\<forall>j \<in> set (db_items (hardship_db TENOR_EXTENSION)). si_loan j = l_id sample_loan \<and> si_status j = SI_PAID \<longrightarrow> fully_paid j"
    by (simp add: hardship_db_def loan_db_def sample_items_def sample_item_def)
  from rescheduling_keeps_principal_drops_fees [OF D' hardship_db_found(1,2) _ hardship_db_found(3) _ _ this] D'
  show ?thesis by (auto simp: sample_loan_def late_request_def)
qed

section \<open>A pause\<close>

lemma approved_pause:
  assumes "transitionRequest E R P i HS_APPROVED notes D = Inr D'"
    and "find (\<lambda>r. hs_id r = i \<and> hs_tenant r = pc_tenant P) (db_hardships D) = Some r"
    and "find (\<lambda>l. l_id l = hs_loan r \<and> l_tenant l = hs_tenant r) (db_loans D) = Some l"
    and "hs_type r = PAYMENT_PAUSE"
  obtains days where "hs_pause_days r = Some days" "0 < days" "l_status l = LS_DISBURSED"
    "D' = record_decision E P r HS_APPROVED notes
      (D\<lparr>db_loans := update_where (\<lambda>m. l_id m = l_id l) (pause_loan E r P days) (db_loans D)\<rparr>)"
  using assms
  by (auto simp: transitionRequest_def applyApprovedMutation_def outcome_simps Let_def split: if_splits option.splits)

text \<open>
  C28. An approved pause has an end date that nothing reads: the date is the pause days after the
  approval, but from then on every accrual by a role that may accrue leaves the database as it is,
  whatever day it is made on or through, while the instalments and the arrears they make run on.
\<close>

theorem approved_pause_never_ends:
  assumes "transitionRequest E R P i HS_APPROVED notes D = Inr D'"
    and "find (\<lambda>r. hs_id r = i \<and> hs_tenant r = pc_tenant P) (db_hardships D) = Some r"
    and "find (\<lambda>l. l_id l = hs_loan r \<and> l_tenant l = hs_tenant r) (db_loans D) = Some l"
    and "hs_type r = PAYMENT_PAUSE" and "distinct (map l_id (db_loans D))"
    and "pc_tenant Q = hs_tenant r" and "pc_role Q \<in> {OPS, SUPER_ADMIN, RISK_MANAGER}"
    and "isEnabled (hs_tenant r) INTEREST_ACCRUAL D"
  shows "(\<exists>l' days. find (\<lambda>l. l_id l = hs_loan r \<and> l_tenant l = hs_tenant r) (db_loans D') = Some l' \<and>
      hs_pause_days r = Some days \<and> l_int_paused_until l' = Some (ev_now E + days * ms_per_day)) \<and>
    accrueInterest E' R' updated Q (hs_loan r) through D' = Inr D' \<and>
    computeLoanDelinquency t loan now D' = computeLoanDelinquency t loan now D"
proof -
  from approved_pause [OF assms(1-4)] obtain days where days: "hs_pause_days r = Some days" "l_status l = LS_DISBURSED"
    and D': "D' = record_decision E P r HS_APPROVED notes
      (D\<lparr>db_loans := update_where (\<lambda>m. l_id m = l_id l) (pause_loan E r P days) (db_loans D)\<rparr>)" by blast
  have found: "find (\<lambda>l. l_id l = hs_loan r \<and> l_tenant l = hs_tenant r) (db_loans D') = Some (pause_loan E r P days l)"
    unfolding D' record_decision_frame
    using find_updated_loan [OF assms(3) _ assms(5), of "pause_loan E r P days"] by (simp add: pause_loan_def)
  have paused: "l_int_paused (pause_loan E r P days l)" "l_status (pause_loan E r P days l) = LS_DISBURSED"
    "l_int_paused_until (pause_loan E r P days l) = Some (ev_now E + days * ms_per_day)"
    using days(2) by (simp_all add: pause_loan_def set_utc_date_shift)
  have "isEnabled (hs_tenant r) INTEREST_ACCRUAL D'"
    using assms(8) by (simp add: isEnabled_def D' record_decision_def notifyCollectionsGroup_def emit_def Let_def)
  then have "accrueInterest E' R' updated Q (hs_loan r) through D' = Inr D'"
    using found paused(1,2) assms(6,7) by (auto simp: accrueInterest_def accrue_tx_def find_loan_of_def)
  moreover have "db_items D' = db_items D" by (simp add: D')
  ultimately show ?thesis
    using found paused(3) days(1) by (simp add: computeLoanDelinquency_def due_ordered_def)
qed

theorem approved_pause_never_ends_witness:
  "\<exists>D'. transitionRequest sample_env exact_ops risk_officer ''h1'' HS_APPROVED None (hardship_db PAYMENT_PAUSE) = Inr D' \<and>
    accrueInterest (sample_env\<lparr>ev_now := 1900000000000\<rparr>) exact_ops 0 (risk_officer\<lparr>pc_role := OPS\<rparr>) ''loan'' 1899936000000 D' = Inr D'"
proof -
  obtain D' where D': "transitionRequest sample_env exact_ops risk_officer ''h1'' HS_APPROVED None (hardship_db PAYMENT_PAUSE) = Inr D'"
    using hardship_db_found [of PAYMENT_PAUSE]
    by (auto simp: transitionRequest_def assertAdminTransitionRole_def risk_officer_def assertTransitionAllowed_def
        late_request_def applyApprovedMutation_def sample_loan_def)
  have "isEnabled ''ten'' INTEREST_ACCRUAL (hardship_db PAYMENT_PAUSE)"
    by (simp add: isEnabled_def hardship_db_def loan_db_def empty_db_def)
  with approved_pause_never_ends [OF D' hardship_db_found(1,2) _ hardship_db_found(3),
      of "risk_officer\<lparr>pc_role := OPS\<rparr>" "sample_env\<lparr>ev_now := 1900000000000\<rparr>" exact_ops 0 1899936000000 "''ten''" "''loan''" 0] D'
  show ?thesis by (auto simp: late_request_def risk_officer_def)
qed

section \<open>Requests over time\<close>

definition request_key :: "hardship \<Rightarrow> string \<times> string \<times> string" where
  "request_key r = (hs_tenant r, hs_borrower r, hs_loan r)"

definition requests_ok :: "(nat \<Rightarrow> string) \<Rightarrow> db \<Rightarrow> bool" where
  "requests_ok f D \<longleftrightarrow> inj f \<and> distinct (map hs_id (db_hardships D)) \<and>
     (\<forall>r \<in> set (db_hardships D). \<forall>n \<ge> db_seq D. hs_id r \<noteq> f n) \<and>
     distinct (map request_key (filter active_request (db_hardships D)))"

datatype hardship_call =
    Ask borrower hardship_input
  | Decide decimal_ops principal string hardship_status "string option"

text \<open>A call that fails changes nothing.\<close>

fun exec_hardship :: "env \<times> hardship_call \<Rightarrow> db \<Rightarrow> db" where
  "exec_hardship (E, Ask B x) D = (case createBorrowerRequest E B x D of Inl e \<Rightarrow> D | Inr (r, D') \<Rightarrow> D')"
| "exec_hardship (E, Decide R P i s notes) D = (case transitionRequest E R P i s notes D of Inl e \<Rightarrow> D | Inr D' \<Rightarrow> D')"

lemma request_rows:
  assumes "createBorrowerRequest E B x D = Inr (r, D')"
  shows "db_hardships D' = db_hardships D @ [r]" "hs_id r = ev_cuid E (db_seq D)" "db_seq D' = Suc (db_seq D)"
    "\<forall>q \<in> set (db_hardships D). active_request q \<longrightarrow> request_key q \<noteq> request_key r"
  using assms
  by (auto simp: createBorrowerRequest_def fresh_def notifyCreditOfficerGroup_def emit_def Let_def new_request_def
      request_key_def dest: find_SomeD split: option.splits if_splits)

lemma create_items_seq:
  "fold_outcome (create_item E r l) nls D = Inr D' \<Longrightarrow> db_seq D \<le> db_seq D'"
proof (induction nls arbitrary: D)
  case (Cons nl nls)
  then obtain D1 where "create_item E r l nl D = Inr D1" "fold_outcome (create_item E r l) nls D1 = Inr D'"
    by (auto simp: outcome_simps)
  with Cons.IH [OF this(2)] new_request_rows_frame [OF this(1)] show ?case by simp
qed simp

lemma reschedule_seq: "reschedule E R r l D = Inr D' \<Longrightarrow> db_seq D \<le> db_seq D'"
  by (auto simp: reschedule_def Let_def outcome_simps dest!: create_items_seq split: if_splits)

lemma mutation_rows:
  assumes "applyApprovedMutation E R r P D = Inr D'"
  shows "db_hardships D' = db_hardships D" "db_seq D \<le> db_seq D'"
proof -
  from assms obtain l where "find (\<lambda>l. l_id l = hs_loan r \<and> l_tenant l = hs_tenant r) (db_loans D) = Some l"
    by (auto simp: applyApprovedMutation_def split: option.splits)
  with assms have "reschedule E R r l D = Inr D' \<or> (\<exists>ls. D' = D\<lparr>db_loans := ls\<rparr>)"
    by (auto simp: applyApprovedMutation_def Let_def split: if_splits)
  then show "db_hardships D' = db_hardships D" "db_seq D \<le> db_seq D'"
    by (auto dest: reschedule_seq elim: reschedule_form)
qed

lemma transition_rows:
  assumes "transitionRequest E R P i s notes D = Inr D'"
  obtains r where "r \<in> set (db_hardships D)" "active_request r"
    "db_hardships D' = update_where (\<lambda>q. hs_id q = hs_id r) (decided E P s notes) (db_hardships D)"
    "db_seq D \<le> db_seq D'"
proof -
  from assms obtain r where r: "find (\<lambda>r. hs_id r = i \<and> hs_tenant r = pc_tenant P) (db_hardships D) = Some r"
    by (auto simp: transitionRequest_def outcome_simps split: option.splits)
  with assms obtain D1 where D1: "assertTransitionAllowed (hs_status r) s = Inr ()"
      "(if s = HS_APPROVED then applyApprovedMutation E R r P D else Inr D) = Inr D1"
      "D' = record_decision E P r s notes D1"
    by (auto simp: transitionRequest_def outcome_simps split: if_splits)
  then have "db_hardships D1 = db_hardships D" "db_seq D \<le> db_seq D1"
    by (auto dest: mutation_rows split: if_splits)
  with D1 find_SomeD [OF r] show ?thesis
    by (intro that [of r]) (auto simp: assertTransitionAllowed_def active_request_def)
qed

lemma exec_hardship_ok:
  assumes "requests_ok f D" and "ev_cuid E = f"
  shows "requests_ok f (exec_hardship (E, c) D)"
proof (cases c)
  case (Ask B x)
  show ?thesis
  proof (cases "createBorrowerRequest E B x D")
    case (Inr p)
    obtain r D' where p: "p = (r, D')" by (cases p)
    note rows = request_rows [OF Inr [unfolded p]]
    from assms rows(2) have "hs_id r \<notin> hs_id ` set (db_hardships D)" by (fastforce simp: requests_ok_def)
    moreover have "hs_id r \<noteq> f n" if "Suc (db_seq D) \<le> n" for n
      using assms that rows(2) by (auto simp: requests_ok_def dest: injD)
    moreover have "request_key r \<notin> request_key ` set (filter active_request (db_hardships D))"
      using rows(4) by fastforce
    ultimately show ?thesis
      using assms rows by (auto simp: Ask Inr p requests_ok_def)
  qed (simp add: Ask assms(1))
next
  case (Decide R P i s remark)
  show ?thesis
  proof (cases "transitionRequest E R P i s remark D")
    case (Inr D')
    then show ?thesis
    proof (cases rule: transition_rows)
      case (1 r)
      have frame: "hs_id (decided E P s remark q) = hs_id q" "request_key (decided E P s remark q) = request_key q" for q
        by (simp_all add: decided_def request_key_def)
      then have ids: "map hs_id (db_hardships D') = map hs_id (db_hardships D)"
        unfolding 1(3) by (intro map_update_where) simp
      then have "hs_id ` set (db_hardships D') = hs_id ` set (db_hardships D)" by (metis list.set_map)
      then have "\<forall>q \<in> set (db_hardships D'). \<forall>n \<ge> db_seq D'. hs_id q \<noteq> f n"
        using assms(1) 1(4) unfolding requests_ok_def by (metis image_iff order_trans)
      moreover have "distinct (map request_key (filter active_request (db_hardships D')))"
        unfolding 1(3) by (rule update_keeps_unique [where k = hs_id and A = active_request and g = request_key, OF _ 1(1,2)])
          (use assms(1) frame(2) in \<open>simp_all add: requests_ok_def\<close>)
      ultimately show ?thesis using assms(1) ids by (simp add: Decide Inr requests_ok_def)
    qed
  qed (simp add: Decide assms(1))
qed

text \<open>
  C29. Whatever borrowers ask and admins decide, in any order and with failed calls in between, a
  borrower never has two open hardship requests for the same loan.
\<close>

theorem one_open_request_per_loan:
  assumes "requests_ok f D" and "\<forall>(E, c) \<in> set calls. ev_cuid E = f"
  shows "distinct (map request_key (filter active_request (db_hardships (fold exec_hardship calls D))))"
proof -
  have "requests_ok f (fold exec_hardship calls D)"
    using assms
  proof (induction calls arbitrary: D)
    case (Cons c calls)
    obtain E d where c: "c = (E, d)" by (cases c)
    with Cons.prems have "requests_ok f (exec_hardship c D)" by (auto intro: exec_hardship_ok)
    with Cons show ?case by simp
  qed simp
  then show ?thesis by (simp add: requests_ok_def)
qed

definition sample_borrower :: borrower where
  "sample_borrower = \<lparr>bo_id = ''b1'', bo_tenant = ''ten'', bo_phone = ''080''\<rparr>"

definition sample_ask :: hardship_input where
  "sample_ask = \<lparr>hq_loan = ''loan'', hq_type = PAYMENT_PAUSE, hq_reason = ''ill'', hq_tenor = None, hq_rate = None,
     hq_pause_days = Some 30\<rparr>"

text \<open>The second of two requests is refused, and accepted after the first was rejected.\<close>

theorem one_open_request_per_loan_witness:
  "\<exists>D. D = fold exec_hardship [(sample_env, Ask sample_borrower sample_ask), (sample_env, Ask sample_borrower sample_ask),
      (sample_env, Decide exact_ops risk_officer '''' HS_REJECTED None), (sample_env, Ask sample_borrower sample_ask)] loan_db \<and>
    map hs_status (db_hardships D) = [HS_REJECTED, HS_REQUESTED] \<and>
    distinct (map request_key (filter active_request (db_hardships D)))"
proof -
  have "requests_ok (ev_cuid sample_env) loan_db"
    by (simp add: requests_ok_def loan_db_def empty_db_def)
  from one_open_request_per_loan [OF this, of "[(sample_env, Ask sample_borrower sample_ask), (sample_env, Ask sample_borrower sample_ask),
      (sample_env, Decide exact_ops risk_officer '''' HS_REJECTED None), (sample_env, Ask sample_borrower sample_ask)]"]
  show ?thesis
    by (simp add: createBorrowerRequest_def transitionRequest_def assertAdminTransitionRole_def assertTransitionAllowed_def
        record_decision_def decided_def new_request_def active_request_def fresh_def notifyCreditOfficerGroup_def emit_def
        Let_def loan_db_def empty_db_def sample_loan_def sample_ask_def sample_borrower_def risk_officer_def sample_env_def
        admins_with_def)
qed

end
