(* ===== verification/AdminCollections.thy ===== *)
theory AdminCollections
  imports CollectionsScan TenantLedger Tenancy TextCodec BoundedWork
begin

text \<open>
  What admins do with collections cases, \<open>modules/admin-collections/admin-collections.service.ts\<close>:
  assigning, logging an action, a promise to pay, closing, writing off, pausing and waiving
  penalties, and the older endpoints on a loan (activity, write-off, settlement). The penalty
  service and the scan are those of \<open>Penalty\<close> and \<open>CollectionsScan\<close>.
\<close>

section \<open>Guards and look-ups\<close>

definition collections_assertRole :: "principal \<Rightarrow> admin_role list \<Rightarrow> unit outcome" where
  "collections_assertRole P required =
     ensure (pc_role P \<in> set required) (Forbidden ''Role cannot perform this operation.'')"

definition assertCollectionsRole :: "principal \<Rightarrow> unit outcome" where
  "assertCollectionsRole P = collections_assertRole P [COLLECTIONS, SUPER_ADMIN]"

definition assertCaseActionRole :: "principal \<Rightarrow> unit outcome" where
  "assertCaseActionRole P = collections_assertRole P [CREDIT_OFFICER, OPS, COLLECTIONS, RISK_MANAGER, SUPER_ADMIN]"

definition find_case :: "principal \<Rightarrow> string \<Rightarrow> db \<Rightarrow> coll_case outcome" where
  "find_case P i D =
     (case find (\<lambda>c. ca_id c = i \<and> ca_tenant c = pc_tenant P) (db_cases D) of
        None \<Rightarrow> Inl (BadRequest ''Collections case not found.'') | Some c \<Rightarrow> Inr c)"

definition find_account :: "principal \<Rightarrow> string \<Rightarrow> db \<Rightarrow> loan outcome" where
  "find_account P i D =
     (case find_loan (pc_tenant P) i D of None \<Rightarrow> Inl (BadRequest ''Loan not found.'') | Some l \<Rightarrow> Inr l)"

definition appendCaseAction :: "principal \<Rightarrow> string \<Rightarrow> action_type \<Rightarrow> string \<Rightarrow> db \<Rightarrow> db" where
  "appendCaseAction P c ty note D =
     D\<lparr>db_actions := db_actions D @
         [\<lparr>cn_tenant = pc_tenant P, cn_case = c, cn_by = Some (pc_admin P), cn_type = ty, cn_note = note\<rparr>]\<rparr>"

section \<open>Cases\<close>

definition assignCase :: "principal \<Rightarrow> string \<Rightarrow> string \<Rightarrow> db \<Rightarrow> db outcome" where
  "assignCase P i admin D =
     chain (collections_assertRole P [OPS, COLLECTIONS, SUPER_ADMIN]) (\<lambda>_.
     chain (find_case P i D) (\<lambda>c.
     Inr (appendCaseAction P (ca_id c) AT_NOTE (''Case assigned to '' @ admin)
       (set_case (ca_id c) (\<lambda>d. d\<lparr>ca_assigned := Some admin,
          ca_status := (if ca_status c = CS_OPEN then CS_IN_PROGRESS else ca_status c)\<rparr>) D))))"

definition addCaseAction :: "env \<Rightarrow> principal \<Rightarrow> string \<Rightarrow> action_type \<Rightarrow> string \<Rightarrow> db \<Rightarrow> db outcome" where
  "addCaseAction E P i ty note D =
     chain (assertCaseActionRole P) (\<lambda>_.
     chain (find_case P i D) (\<lambda>c.
     let D1 = appendCaseAction P (ca_id c) ty note D
     in Inr (if ty \<in> {AT_CALL, AT_SMS, AT_WHATSAPP, AT_EMAIL, AT_VISIT}
             then set_case (ca_id c) (\<lambda>d. d\<lparr>ca_contact := Some (ev_now E)\<rparr>) D1 else D1)))"

definition promised :: "int \<Rightarrow> coll_case \<Rightarrow> coll_case" where
  "promised at_time c = c\<lparr>ca_status := CS_PROMISE_TO_PAY, ca_promise := Some at_time, ca_next_action := Some at_time\<rparr>"

definition setPromiseToPay :: "principal \<Rightarrow> string \<Rightarrow> int \<Rightarrow> string option \<Rightarrow> db \<Rightarrow> db outcome" where
  "setPromiseToPay P i at_time remark D =
     chain (collections_assertRole P [CREDIT_OFFICER, OPS, COLLECTIONS, SUPER_ADMIN]) (\<lambda>_.
     chain (find_case P i D) (\<lambda>c.
     Inr (appendCaseAction P (ca_id c) AT_PTP_SET
       (case remark of Some n \<Rightarrow> n | None \<Rightarrow> ''Promise to pay set for '' @ toISOString at_time)
       (set_case (ca_id c) (promised at_time) D))))"

definition finished :: "env \<Rightarrow> case_status \<Rightarrow> string \<Rightarrow> coll_case \<Rightarrow> coll_case" where
  "finished E s note c = c\<lparr>ca_status := s, ca_resolved_at := Some (ev_now E), ca_note := Some note\<rparr>"

definition closeCase :: "env \<Rightarrow> principal \<Rightarrow> string \<Rightarrow> string \<Rightarrow> db \<Rightarrow> db outcome" where
  "closeCase E P i note D =
     chain (collections_assertRole P [COLLECTIONS, OPS, SUPER_ADMIN]) (\<lambda>_.
     chain (find_case P i D) (\<lambda>c.
     Inr (appendCaseAction P (ca_id c) AT_NOTE (''Case closed: '' @ note)
       (set_case (ca_id c) (finished E CS_CLOSED note) D))))"

section \<open>Writing off a case\<close>

definition write_off_lines :: "loan \<Rightarrow> line_input list" where
  "write_off_lines l =
     (let p = max 0 (l_out_principal l); i = max 0 (l_out_interest l)
      in (if 0 < p
          then [\<lparr>li_code = WRITE_OFF_EXPENSE, li_direction = DEBIT, li_amount = p\<rparr>,
                \<lparr>li_code = LOAN_PRINCIPAL_RECEIVABLE, li_direction = CREDIT, li_amount = p\<rparr>]
          else []) @
         (if 0 < i
          then [\<lparr>li_code = WRITE_OFF_EXPENSE, li_direction = DEBIT, li_amount = i\<rparr>,
                \<lparr>li_code = INTEREST_RECEIVABLE, li_direction = CREDIT, li_amount = i\<rparr>]
          else []))"

definition write_off_entry :: "env \<Rightarrow> principal \<Rightarrow> loan \<Rightarrow> string \<Rightarrow> entry_input" where
  "write_off_entry E P l note =
     \<lparr>ei_tenant = pc_tenant P, ei_occurred = ev_now E, ei_type = E_WRITE_OFF,
      ei_key = ''writeoff:'' @ l_id l, ei_ref_type = ''LoanApplication'', ei_ref_id = l_id l,
      ei_currency = None, ei_created_by = Some (pc_admin P), ei_role = Some (pc_role P),
      ei_memo = Some note, ei_lines = write_off_lines l\<rparr>"

text \<open>The checks every way of writing off or settling makes of the new status, and its row of history.\<close>

definition may_move :: "principal \<Rightarrow> loan \<Rightarrow> loan_status \<Rightarrow> unit outcome" where
  "may_move P l s =
     chain (assertValidTransition (l_status l) s) (\<lambda>_. assertRoleCanTransition (pc_role P) (l_status l) s)"

definition moved :: "principal \<Rightarrow> loan \<Rightarrow> loan_status \<Rightarrow> string \<Rightarrow> history" where
  "moved P l s note =
     \<lparr>hi_tenant = pc_tenant P, hi_loan = l_id l, hi_from = Some (l_status l), hi_to = s,
      hi_note = Some note, hi_by = Some (pc_admin P)\<rparr>"

definition written_off :: "env \<Rightarrow> loan \<Rightarrow> loan" where
  "written_off E m = m\<lparr>l_status := LS_WRITTEN_OFF, l_written_off_at := Some (ev_now E)\<rparr>"

definition writeOffCase :: "env \<Rightarrow> principal \<Rightarrow> string \<Rightarrow> string \<Rightarrow> db \<Rightarrow> db outcome" where
  "writeOffCase E P i note D =
     chain (collections_assertRole P [COLLECTIONS, RISK_MANAGER, SUPER_ADMIN]) (\<lambda>_.
     chain (find_case P i D) (\<lambda>c.
     case find (\<lambda>l. l_id l = ca_loan c) (db_loans D) of
       None \<Rightarrow> Inl (Internal ''loanAccount'')
     | Some l \<Rightarrow>
         chain (may_move P l LS_WRITTEN_OFF) (\<lambda>_.
         let D1 = D\<lparr>db_loans := update_where (\<lambda>m. l_id m = l_id l) (written_off E) (db_loans D)\<rparr>
         in chain (if 0 < l_out_principal l \<or> 0 < l_out_interest l
                   then chain (post_entry E (write_off_entry E P l note) D1) (\<lambda>(_, D2). Inr D2)
                   else Inr D1) (\<lambda>D2.
            Inr (appendCaseAction P (ca_id c) AT_WRITE_OFF note
              (set_case (ca_id c) (finished E CS_WRITTEN_OFF note)
                (D2\<lparr>db_history := db_history D2 @ [moved P l LS_WRITTEN_OFF note]\<rparr>)))))))"

section \<open>Penalties\<close>

text \<open>The action is noted on the active case of the loan, when it has one.\<close>

definition note_on_case :: "principal \<Rightarrow> string \<Rightarrow> action_type \<Rightarrow> string \<Rightarrow> db \<Rightarrow> db" where
  "note_on_case P loan ty note D =
     (case existing_case (pc_tenant P) loan D of
        None \<Rightarrow> D | Some c \<Rightarrow> appendCaseAction P (ca_id c) ty note D)"

definition pauseLoanPenalty :: "env \<Rightarrow> int \<Rightarrow> principal \<Rightarrow> string \<Rightarrow> bool \<Rightarrow> string \<Rightarrow> db \<Rightarrow> db outcome" where
  "pauseLoanPenalty E defaultRate P loan isPaused note D =
     chain (collections_assertRole P [OPS, RISK_MANAGER, SUPER_ADMIN]) (\<lambda>_.
     chain (setPenaltyPaused E defaultRate loan (pc_tenant P) isPaused D) (\<lambda>D1.
     Inr (emit (Audit ''PENALTY_PAUSE_UPDATED'' ''LOAN_ACCOUNT'' loan) (note_on_case P loan AT_NOTE note D1))))"

definition waiveLoanPenalty :: "principal \<Rightarrow> string \<Rightarrow> decimal \<Rightarrow> string \<Rightarrow> db \<Rightarrow> db outcome" where
  "waiveLoanPenalty P loan amount note D =
     chain (collections_assertRole P [RISK_MANAGER, SUPER_ADMIN]) (\<lambda>_.
     chain (waivePenalty loan (pc_tenant P) amount D) (\<lambda>D1.
     Inr (emit (Audit ''PENALTY_WAIVED'' ''LOAN_ACCOUNT'' loan) (note_on_case P loan AT_WAIVER note D1))))"

section \<open>The scan by hand\<close>

text \<open>What the scan did before a loan failed stays, as it is not one transaction.\<close>

definition runCollectionsScan ::
  "env \<Rightarrow> decimal_ops \<Rightarrow> decimal \<Rightarrow> principal \<Rightarrow> int option \<Rightarrow> db \<Rightarrow> scan_summary outcome \<times> db" where
  "runCollectionsScan E R rate P now D =
     (case collections_assertRole P [SUPER_ADMIN] of
        Inl e \<Rightarrow> (Inl e, D)
      | Inr _ \<Rightarrow>
          (let t = (case now of Some n \<Rightarrow> n | None \<Rightarrow> ev_now E)
           in case runForTenant E R rate (pc_tenant P) t D of
                (Inl e, D1) \<Rightarrow> (Inl e, D1)
              | (Inr s, D1) \<Rightarrow>
                  (Inr s, emit (AuditEvent ''COLLECTION_RESULT'' ''CollectionAttempt''
                     (pc_tenant P @ '':'' @ toISOString t)) D1)))"

section \<open>The older endpoints\<close>

definition addActivity :: "env \<Rightarrow> principal \<Rightarrow> string \<Rightarrow> string \<Rightarrow> string option \<Rightarrow> db \<Rightarrow> (activity \<times> db) outcome" where
  "addActivity E P loan ty note D =
     chain (assertCollectionsRole P) (\<lambda>_.
     chain (find_account P loan D) (\<lambda>_.
     case fresh E D of (i, D1) \<Rightarrow>
       let a = \<lparr>av_id = i, av_tenant = pc_tenant P, av_loan = loan, av_type = ty, av_note = trim_or_null note,
                av_by = pc_admin P\<rparr>
       in Inr (a, emit (AuditEvent ''COLLECTION_ATTEMPTED'' ''CollectionAttempt'' i)
            (D1\<lparr>db_activities := db_activities D1 @ [a]\<rparr>))))"

definition collections_writeOff :: "env \<Rightarrow> principal \<Rightarrow> string \<Rightarrow> db \<Rightarrow> db outcome" where
  "collections_writeOff E P loan D =
     chain (assertCollectionsRole P) (\<lambda>_.
     chain (find_account P loan D) (\<lambda>l.
     chain (ensure (l_status l \<in> {LS_DISBURSED, LS_OVERDUE, LS_DEFAULTED})
       (BadRequest ''Loan is not in a writable status for write-off.'')) (\<lambda>_.
     chain (may_move P l LS_WRITTEN_OFF) (\<lambda>_.
     Inr (D\<lparr>db_loans := update_where (\<lambda>m. l_id m = l_id l) (written_off E) (db_loans D),
            db_history := db_history D @ [moved P l LS_WRITTEN_OFF ''Loan written off by collections.'']\<rparr>)))))"

definition settled :: "env \<Rightarrow> loan \<Rightarrow> loan" where
  "settled E m =
     m\<lparr>l_status := LS_SETTLED, l_settled_at := Some (ev_now E), l_out_principal := 0, l_out_interest := 0,
       l_out_fees := 0, l_out_total := 0, l_days_past_due := 0, l_bucket := Some B_CURRENT,
       l_delinquency := DS_CURRENT, l_overdue_cents := 0\<rparr>"

definition settle :: "env \<Rightarrow> principal \<Rightarrow> string \<Rightarrow> db \<Rightarrow> db outcome" where
  "settle E P loan D =
     chain (assertCollectionsRole P) (\<lambda>_.
     chain (find_account P loan D) (\<lambda>l.
     chain (may_move P l LS_SETTLED) (\<lambda>_.
     chain (updateLoanDelinquency (l_id l) (pc_tenant P) (ev_now E)
       (D\<lparr>db_loans := update_where (\<lambda>m. l_id m = l_id l) (settled E) (db_loans D),
          db_history := db_history D @ [moved P l LS_SETTLED ''Loan settled by collections.'']\<rparr>)) (\<lambda>(_, D1).
     Inr D1))))"

section \<open>What the operations leave alone\<close>

lemma find_case_Inr [simp]:
  "find_case P i D = Inr c \<longleftrightarrow> find (\<lambda>c. ca_id c = i \<and> ca_tenant c = pc_tenant P) (db_cases D) = Some c"
  by (simp add: find_case_def split: option.splits)

lemma find_account_Inr [simp]: "find_account P i D = Inr l \<longleftrightarrow> find_loan (pc_tenant P) i D = Some l"
  by (simp add: find_account_def split: option.splits)

lemma appendCaseAction_frame [simp]:
  "db_cases (appendCaseAction P c ty n D) = db_cases D" "db_seq (appendCaseAction P c ty n D) = db_seq D"
  "db_loans (appendCaseAction P c ty n D) = db_loans D" "db_entries (appendCaseAction P c ty n D) = db_entries D"
  "db_allocs (appendCaseAction P c ty n D) = db_allocs D"
  by (simp_all add: appendCaseAction_def)

lemma note_on_case_frame [simp]:
  "db_cases (note_on_case P loan ty n D) = db_cases D" "db_seq (note_on_case P loan ty n D) = db_seq D"
  by (simp_all add: note_on_case_def split: option.splits)

lemma set_case_frame [simp]:
  "db_seq (set_case i f D) = db_seq D" "db_loans (set_case i f D) = db_loans D"
  "db_entries (set_case i f D) = db_entries D" "db_allocs (set_case i f D) = db_allocs D"
  by (simp_all add: set_case_def)

lemma ensure_seq: "db_seq D \<le> db_seq (ensureDefaultAccounts E t D)"
proof -
  have "db_seq D \<le> db_seq (fold (upsert_account E t) ss D)" for ss
  proof (induction ss arbitrary: D)
    case (Cons s ss)
    have "db_seq D \<le> db_seq (upsert_account E t s D)"
      by (cases s) (simp add: upsert_account_def Let_def fresh_def)
    then show ?case using Cons [of "upsert_account E t s D"] by simp
  qed simp
  then show ?thesis by (simp add: ensureDefaultAccounts_def)
qed

lemma post_entry_cases_table:
  assumes "post_entry E x D = Inr (r, D')"
  shows "db_cases D' = db_cases D" "db_seq D \<le> db_seq D'"
proof -
  show "db_cases D' = db_cases D" by (subst post_entry_frame [OF assms], simp)
  obtain i b where "r = (i, b)" by (cases r)
  from assms [unfolded this] show "db_seq D \<le> db_seq D'"
    by (cases rule: post_entry_cases) (use ensure_seq in \<open>simp_all add: le_SucI\<close>)
qed

section \<open>Write-off\<close>

lemma write_off_Inr:
  assumes "writeOffCase E P i note D = Inr D'"
  obtains c l D2 where "find_case P i D = Inr c" "find (\<lambda>l. l_id l = ca_loan c) (db_loans D) = Some l"
    "may_move P l LS_WRITTEN_OFF = Inr ()"
    "if 0 < l_out_principal l \<or> 0 < l_out_interest l
     then \<exists>r. post_entry E (write_off_entry E P l note)
       (D\<lparr>db_loans := update_where (\<lambda>m. l_id m = l_id l) (written_off E) (db_loans D)\<rparr>) = Inr (r, D2)
     else D2 = D\<lparr>db_loans := update_where (\<lambda>m. l_id m = l_id l) (written_off E) (db_loans D)\<rparr>"
    "D' = appendCaseAction P (ca_id c) AT_WRITE_OFF note (set_case (ca_id c) (finished E CS_WRITTEN_OFF note)
       (D2\<lparr>db_history := db_history D2 @ [moved P l LS_WRITTEN_OFF note]\<rparr>))"
proof -
  from assms obtain c where c: "find_case P i D = Inr c" by (auto simp: writeOffCase_def outcome_simps)
  from assms c obtain l where l: "find (\<lambda>l. l_id l = ca_loan c) (db_loans D) = Some l"
    by (auto simp: writeOffCase_def outcome_simps split: option.splits)
  from assms c l that [OF c l] show thesis
    by (auto simp: writeOffCase_def outcome_simps Let_def split: if_splits)
qed

lemma may_write_off:
  "may_move P l LS_WRITTEN_OFF = Inr () \<Longrightarrow> l_status l = LS_OVERDUE \<and> pc_role P \<in> {COLLECTIONS, SUPER_ADMIN}"
  by (cases "l_status l"; cases "pc_role P")
    (auto simp: may_move_def outcome_simps roleCanTransition_def normalizeRole.simps)

text \<open>
  C30. The write-off of a case with principal or interest outstanding is a super admin's alone: the
  collections role passes the role check of the life cycle and not that of the ledger, the risk
  manager the ledger's and not the life cycle's. When it succeeds, the loan is written off under the
  ledger key of the write-off, and still carries its whole balance, and the capital allocated to it
  is not touched.
\<close>

theorem case_write_off_needs_super_admin:
  assumes "writeOffCase E P i note D = Inr D'" and "find_case P i D = Inr c"
    and "find (\<lambda>l. l_id l = ca_loan c) (db_loans D) = Some l" and "0 < l_out_principal l \<or> 0 < l_out_interest l"
  shows "pc_role P = SUPER_ADMIN \<and> l_status l = LS_OVERDUE \<and>
    (\<exists>l'. find (\<lambda>l. l_id l = ca_loan c) (db_loans D') = Some l' \<and> l_status l' = LS_WRITTEN_OFF \<and>
       l_out_principal l' = l_out_principal l \<and> l_out_total l' = l_out_total l) \<and>
    (\<exists>e \<in> set (db_entries D'). en_tenant e = pc_tenant P \<and> en_key e = ''writeoff:'' @ l_id l) \<and>
    db_allocs D' = db_allocs D"
  using assms(1)
proof (cases rule: write_off_Inr)
  case (1 c' l' D2)
  with assms have same: "c' = c" "l' = l" by simp_all
  let ?D1 = "D\<lparr>db_loans := update_where (\<lambda>m. l_id m = l_id l) (written_off E) (db_loans D)\<rparr>"
  from 1(4) assms(4) obtain j b where p: "post_entry E (write_off_entry E P l note) ?D1 = Inr ((j, b), D2)"
    by (auto simp: same)
  have "assertRoleCanPost (Some (pc_role P)) E_WRITE_OFF = Inr ()"
    using post_entry_guards [OF p] by (simp add: post_guards_def write_off_entry_def)
  with may_write_off [OF 1(3)] have role: "pc_role P = SUPER_ADMIN" "l_status l = LS_OVERDUE" by (auto simp: same)
  have key: "\<exists>e \<in> set (db_entries D2). en_tenant e = pc_tenant P \<and> en_key e = ''writeoff:'' @ l_id l"
    using p
  proof (cases rule: post_entry_cases)
    case (reused e)
    then show ?thesis using find_SomeD [OF reused(4)] by (auto simp: write_off_entry_def)
  next
    case (new lines)
    then show ?thesis by (simp add: write_off_entry_def posted_entry_def)
  qed
  have id: "l_id l = ca_loan c" using find_SomeD [OF assms(3)] by simp
  have "find (\<lambda>l. l_id l = ca_loan c) (db_loans D') = Some (written_off E l)"
    using find_update_one [of l_id "written_off E" "ca_loan c" "l_id l" "db_loans D"] assms(3) id
    by (simp add: 1(5) post_entry_other_tables [OF p] written_off_def)
  with role key show ?thesis
    by (simp add: 1(5) post_entry_other_tables [OF p] written_off_def)
qed

definition collections_head :: principal where
  "collections_head = \<lparr>pc_admin = ''adm'', pc_tenant = ''ten'', pc_role = SUPER_ADMIN\<rparr>"

definition sample_case :: coll_case where
  "sample_case = \<lparr>ca_id = ''c1'', ca_tenant = ''ten'', ca_loan = ''loan'', ca_borrower = ''080'', ca_opened = 0,
     ca_status = CS_OPEN, ca_stage = ST_SOFT, ca_dpd_open = 1, ca_dpd = 1, ca_outstanding_open = 120,
     ca_outstanding = 120, ca_promise = None, ca_next_action = None, ca_resolved_at = None, ca_note = None,
     ca_assigned = None, ca_contact = None\<rparr>"

definition cases_db :: "coll_case list \<Rightarrow> db" where
  "cases_db cs = scan_db\<lparr>db_cases := cs\<rparr>"

lemma cases_db_loan: "find (\<lambda>l. l_id l = ''loan'') (db_loans (cases_db cs)) = Some (sample_loan\<lparr>l_status := LS_OVERDUE\<rparr>)"
  by (simp add: cases_db_def scan_db_def sample_loan_def)

theorem case_write_off_needs_super_admin_witness:
  "\<exists>D' l'. writeOffCase sample_env collections_head ''c1'' ''gone'' (cases_db [sample_case]) = Inr D' \<and>
    find (\<lambda>l. l_id l = ''loan'') (db_loans D') = Some l' \<and> l_status l' = LS_WRITTEN_OFF \<and> l_out_total l' = 120 \<and>
    (\<exists>e \<in> set (db_entries D'). en_key e = ''writeoff:loan'')"
proof -
  let ?D = "cases_db [sample_case]" and ?l = "sample_loan\<lparr>l_status := LS_OVERDUE\<rparr>"
  have c: "find_case collections_head ''c1'' ?D = Inr sample_case"
    by (simp add: cases_db_def sample_case_def collections_head_def)
  have l: "find (\<lambda>l. l_id l = ca_loan sample_case) (db_loans ?D) = Some ?l"
    using cases_db_loan by (simp add: sample_case_def)
  have m: "may_move collections_head ?l LS_WRITTEN_OFF = Inr ()"
    by (simp add: may_move_def outcome_simps collections_head_def roleCanTransition_def sample_loan_def)
  have "post_guards (write_off_entry sample_env collections_head ?l ''gone'')"
    by (simp add: post_guards_def write_off_entry_def write_off_lines_def collections_head_def sample_loan_def line_pair_def
        dir_sum_def trim_def is_space_def)
  then have p: "\<exists>r D'. post_entry sample_env (write_off_entry sample_env collections_head ?l ''gone'') D = Inr (r, D')" for D
    by (rule post_entry_total)
  have role: "collections_assertRole collections_head [COLLECTIONS, RISK_MANAGER, SUPER_ADMIN] = Inr ()"
    by (simp add: collections_assertRole_def collections_head_def)
  have owes: "0 < l_out_principal ?l \<or> 0 < l_out_interest ?l" by (simp add: sample_loan_def)
  obtain D' where w: "writeOffCase sample_env collections_head ''c1'' ''gone'' ?D = Inr D'"
    using p [of "?D\<lparr>db_loans := update_where (\<lambda>m. l_id m = l_id ?l) (written_off sample_env) (db_loans ?D)\<rparr>"] owes
    unfolding writeOffCase_def role chain_Inr c l option.case m Let_def by auto
  from case_write_off_needs_super_admin [OF w c l owes] w show ?thesis
    by (auto simp: sample_case_def sample_loan_def)
qed

section \<open>Settlement\<close>

text \<open>The update of the delinquency leaves what is unpaid on every instalment.\<close>

lemma unpaid_update_where:
  assumes "\<And>j. si_due (g j) = si_due j" "\<And>j. si_tenant (g j) = si_tenant j" "\<And>j. si_loan (g j) = si_loan j"
    "\<And>j. remainingAmount (g j) = remainingAmount j"
  shows "map remainingAmount (due_ordered t loan (D\<lparr>db_items := update_where p g items\<rparr>)) =
    map remainingAmount (due_ordered t loan (D\<lparr>db_items := items\<rparr>))"
proof -
  let ?f = "\<lambda>j. if p j then g j else j"
  have "filter (\<lambda>i. si_tenant i = t \<and> si_loan i = loan) (map ?f items) =
      map ?f (filter (\<lambda>i. si_tenant i = t \<and> si_loan i = loan) items)"
    using assms by (induction items) auto
  moreover have "sort_key si_due (map ?f js) = map ?f (sort_key si_due js)" for js
    by (rule sort_key_map_same) (simp add: assms(1))
  ultimately show ?thesis by (simp add: due_ordered_def update_where_def assms(4))
qed

lemma unpaid_refreshed:
  "map remainingAmount (due_ordered t loan (fold (refresh_item now) items D)) =
     map remainingAmount (due_ordered t loan D)"
proof -
  have "map remainingAmount (due_ordered t loan (D\<lparr>db_items :=
      fold (\<lambda>i. update_where (\<lambda>j. si_id j = si_id i) (refreshed_item now i)) items js\<rparr>)) =
    map remainingAmount (due_ordered t loan (D\<lparr>db_items := js\<rparr>))" for js
    by (induction items arbitrary: js) (simp_all add: unpaid_update_where remainingAmount_def)
  from this [of "db_items D"] show ?thesis by (simp add: fold_refresh_item)
qed

text \<open>
  C31. A settlement forgives the loan outside the books: the outstanding principal, interest, fees and
  total of the loan become zero, but no entry is posted, so the balances the ledger gives for the loan
  are what they were. The instalments keep what is unpaid on them, so the update of the delinquency at
  the end of the settlement makes the settled loan delinquent again whenever an instalment is overdue.
\<close>

theorem settlement_is_off_the_books:
  assumes "settle E P loan D = Inr D'" and "find_loan (pc_tenant P) loan D = Some l"
  shows "let items = due_ordered (pc_tenant P) loan D; cents = overdue_cents (ev_now E) items
    in db_entries D' = db_entries D \<and> getBalances (pc_tenant P) loan D' = getBalances (pc_tenant P) loan D \<and>
      db_cases D' = db_cases D \<and>
      map remainingAmount (due_ordered (pc_tenant P) loan D') = map remainingAmount items \<and>
      (\<exists>l'. find_loan (pc_tenant P) loan D' = Some l' \<and> l_status l' = LS_SETTLED \<and>
         l_out_principal l' = 0 \<and> l_out_interest l' = 0 \<and> l_out_fees l' = 0 \<and> l_out_total l' = 0 \<and>
         l_overdue_cents l' = cents \<and> l_days_past_due l' = days_past_due (ev_now E) items \<and>
         l_delinquency l' = (if 0 < cents then DS_OVERDUE else DS_CURRENT))"
proof -
  let ?t = "pc_tenant P" and ?now = "ev_now E"
  have l: "l_id l = loan" "l_tenant l = ?t" using find_loanD [OF assms(2)] by simp_all
  let ?D1 = "D\<lparr>db_loans := update_where (\<lambda>m. l_id m = loan) (settled E) (db_loans D),
    db_history := db_history D @ [moved P l LS_SETTLED ''Loan settled by collections.'']\<rparr>"
  have f: "find (\<lambda>l. l_id l = loan \<and> l_tenant l = ?t) (update_where (\<lambda>m. l_id m = loan) g ls) =
      map_option g (find (\<lambda>l. l_id l = loan \<and> l_tenant l = ?t) ls)"
    if "\<And>m. l_id (g m) = l_id m" "\<And>m. l_tenant (g m) = l_tenant m" for g ls
    using that by (intro find_update_keyed) simp_all
  from assms(2) f [of "settled E"] have found: "find (\<lambda>l. l_id l = loan \<and> l_tenant l = ?t) (db_loans ?D1) = Some (settled E l)"
    by (simp add: find_loan_def settled_def)
  from assms l obtain r where u: "updateLoanDelinquency loan ?t ?now ?D1 = Inr (r, D')"
    by (auto simp: settle_def outcome_simps)
  then have "?t \<noteq> ''''" by (rule update_Inr)
  note form = update_form [where now = ?now, OF found this, unfolded u]
  have due: "due_ordered ?t loan ?D1 = due_ordered ?t loan D" by (simp add: due_ordered_def)
  from form have "find_loan ?t loan D' =
      Some (delinquent_loan ?now (due_ordered ?t loan D) (settled E l) (settled E l))"
    using f [of "delinquent_loan ?now (due_ordered ?t loan D) (settled E l)"] found
    by (simp add: find_loan_def due fold_refresh_item l settled_def)
  moreover from form have fr: "db_entries D' = db_entries D" "db_accounts D' = db_accounts D" "db_cases D' = db_cases D"
    by (simp_all add: fold_refresh_item)
  moreover from form have "due_ordered ?t loan D' =
      due_ordered ?t loan (fold (refresh_item ?now) (due_ordered ?t loan D) D)"
    by (simp add: due due_ordered_def fold_refresh_item)
  then have "map remainingAmount (due_ordered ?t loan D') = map remainingAmount (due_ordered ?t loan D)"
    by (simp add: unpaid_refreshed)
  ultimately show ?thesis
    by (simp add: Let_def getBalances_def loan_lines_def delinquent_loan_def settled_def next_status_def)
qed

theorem settlement_is_off_the_books_witness:
  "\<exists>D' l'. settle sample_env collections_head ''loan'' scan_db = Inr D' \<and>
    find_loan ''ten'' ''loan'' D' = Some l' \<and> l_status l' = LS_SETTLED \<and> l_out_principal l' = 0 \<and>
    l_out_total l' = 0 \<and> db_entries D' = db_entries scan_db \<and> l_delinquency l' = DS_OVERDUE"
proof -
  let ?l = "sample_loan\<lparr>l_status := LS_OVERDUE\<rparr>"
  have l: "find_loan ''ten'' ''loan'' scan_db = Some ?l"
    by (simp add: find_loan_def scan_db_def sample_loan_def)
  let ?D1 = "scan_db\<lparr>db_loans := update_where (\<lambda>m. l_id m = l_id ?l) (settled sample_env) (db_loans scan_db),
    db_history := db_history scan_db @ [moved collections_head ?l LS_SETTLED ''Loan settled by collections.'']\<rparr>"
  have "find (\<lambda>l. l_id l = ''loan'' \<and> l_tenant l = ''ten'') (db_loans ?D1) = Some (settled sample_env ?l)"
    by (simp add: scan_db_def sample_loan_def settled_def)
  from update_form [where now = "ev_now sample_env", OF this] obtain r D' where "updateLoanDelinquency ''loan'' ''ten'' (ev_now sample_env) ?D1 = Inr (r, D')"
    by simp
  then have s: "settle sample_env collections_head ''loan'' scan_db = Inr D'"
    using l by (simp add: settle_def assertCollectionsRole_def collections_assertRole_def may_move_def
        outcome_simps collections_head_def roleCanTransition_def sample_loan_def)
  have "0 < overdue_cents (ev_now sample_env) (due_ordered ''ten'' ''loan'' scan_db)"
    unfolding scan_db_due
    by (simp add: overdue_cents_def overdue_items_def sample_items_def sample_item_def sample_env_def toCents_def
        half_up_def remainingAmount_def sumOutstanding_def)
  with settlement_is_off_the_books [OF s] l s show ?thesis
    by (auto simp: Let_def collections_head_def)
qed

section \<open>One active case per loan\<close>

lemma cases_ok_mono:
  "cases_ok E D \<Longrightarrow> db_cases D' = db_cases D \<Longrightarrow> db_seq D \<le> db_seq D' \<Longrightarrow> cases_ok E D'"
  unfolding cases_ok_def by (metis order_trans)

lemma cases_ok_env: "ev_cuid E = ev_cuid E' \<Longrightarrow> cases_ok E D = cases_ok E' D"
  by (simp add: cases_ok_def)

lemma find_caseD: "find_case P i D = Inr c \<Longrightarrow> c \<in> set (db_cases D) \<and> ca_id c = i \<and> ca_tenant c = pc_tenant P"
  by (auto dest: find_SomeD)

lemma finished_keeps:
  "s \<in> {CS_CLOSED, CS_WRITTEN_OFF} \<Longrightarrow> cases_ok E D \<Longrightarrow> c \<in> set (db_cases D) \<Longrightarrow>
     cases_ok E (set_case (ca_id c) (finished E' s n) D)"
  by (rule set_case_ok) (auto simp: finished_def active_case_def case_key_def)

lemma appendCaseAction_ok [simp]: "cases_ok E (appendCaseAction P c ty n D) = cases_ok E D"
  by (simp add: cases_ok_def)

lemma note_on_case_ok [simp]: "cases_ok E (note_on_case P c ty n D) = cases_ok E D"
  by (simp add: cases_ok_def)

text \<open>
  C32. A promise to pay puts a case back in progress whatever its status was. The table of cases keeps
  its shape exactly if the case was still active or the loan has no active case: a promise on a case
  that was resolved, closed or written off while a later case of the loan is open leaves the loan with
  two active cases, of which the scan keeps only one up to date.
\<close>

theorem promise_keeps_one_active_case:
  assumes "setPromiseToPay P i at_time remark D = Inr D'" and "find_case P i D = Inr c" and "cases_ok E D"
  shows "cases_ok E D' = (active_case c \<or> existing_case (ca_tenant c) (ca_loan c) D = None)"
proof -
  note c = find_caseD [OF assms(2)]
  obtain xs ys where s: "db_cases D = xs @ c # ys" "ca_id c \<notin> ca_id ` (set xs \<union> set ys)"
      "update_where (\<lambda>d. ca_id d = ca_id c) (promised at_time) (db_cases D) = xs @ promised at_time c # ys"
    using unique_row [of ca_id "db_cases D" c] assms(3) c unfolding cases_ok_def by metis
  have D': "db_cases D' = xs @ promised at_time c # ys" "db_seq D' = db_seq D"
    using assms(1,2) s(3) by (auto simp: setPromiseToPay_def outcome_simps set_case_def)
  have f: "ca_id (promised at_time c) = ca_id c" "case_key (promised at_time c) = case_key c" "active_case (promised at_time c)"
    by (simp_all add: promised_def case_key_def active_case_def)
  let ?old = "map case_key (filter active_case xs @ filter active_case ys)"
  have "distinct ?old" using assms(3) by (auto simp: cases_ok_def s(1) split: if_splits)
  then have "cases_ok E D' = (case_key c \<notin> set ?old)"
    using assms(3) by (auto simp: cases_ok_def s(1) D' f)
  moreover have "case_key c \<notin> set ?old" if "active_case c"
    using assms(3) that by (auto simp: cases_ok_def s(1))
  moreover have "(existing_case (ca_tenant c) (ca_loan c) D = None) =
      (\<forall>d \<in> set xs \<union> set ys. active_case d \<longrightarrow> case_key c \<noteq> case_key d)" if "\<not> active_case c"
    using that by (auto simp: existing_case_def find_None_iff s(1) case_key_def)
  moreover have "(case_key c \<notin> set ?old) = (\<forall>d \<in> set xs \<union> set ys. active_case d \<longrightarrow> case_key c \<noteq> case_key d)"
    by (auto simp: image_iff)
  ultimately show ?thesis by metis
qed

text \<open>A closed case, and a newer one of the same loan: the promise on the closed case makes them two.\<close>

theorem promise_keeps_one_active_case_witness:
  "\<exists>D'. setPromiseToPay collections_head ''c1'' 0 (Some ''on Friday'')
      (cases_db [sample_case\<lparr>ca_status := CS_CLOSED\<rparr>, sample_case\<lparr>ca_id := ''c2''\<rparr>]) = Inr D' \<and>
    \<not> cases_ok sample_env D'"
proof -
  let ?c = "sample_case\<lparr>ca_status := CS_CLOSED\<rparr>"
  let ?D = "cases_db [?c, sample_case\<lparr>ca_id := ''c2''\<rparr>]"
  have c: "find_case collections_head ''c1'' ?D = Inr ?c"
    by (simp add: cases_db_def sample_case_def collections_head_def)
  obtain D' where p: "setPromiseToPay collections_head ''c1'' 0 (Some ''on Friday'') ?D = Inr D'"
    unfolding setPromiseToPay_def c chain_Inr by (simp add: collections_assertRole_def collections_head_def)
  have "''c1'' \<noteq> replicate n (CHR ''x'')" "''c2'' \<noteq> replicate n (CHR ''x'')" for n by (cases n; simp)+
  then have ok: "cases_ok sample_env ?D"
    by (simp add: cases_ok_def cases_db_def sample_case_def active_case_def case_key_def sample_env_def)
  have "existing_case (ca_tenant ?c) (ca_loan ?c) ?D \<noteq> None" "\<not> active_case ?c"
    by (simp_all add: existing_case_def cases_db_def sample_case_def active_case_def)
  with promise_keeps_one_active_case [OF p c ok] p show ?thesis by auto
qed

text \<open>
  The other operations, as calls of admins at their times; an operation that fails changes nothing,
  but a scan that fails keeps what it did.
\<close>

datatype case_call =
    Assign string string | Act string action_type string | Close string string | Write_off string string
  | Pause_penalty int string bool string | Waive string decimal string | Scan decimal_ops decimal "int option"
  | Log string string "string option" | Old_write_off string | Settle string

definition if_done :: "db \<Rightarrow> db outcome \<Rightarrow> db" where
  "if_done D r = (case r of Inl e \<Rightarrow> D | Inr D' \<Rightarrow> D')"

fun exec_case :: "env \<Rightarrow> principal \<Rightarrow> case_call \<Rightarrow> db \<Rightarrow> db" where
  "exec_case E P (Assign i a) D = if_done D (assignCase P i a D)"
| "exec_case E P (Act i ty n) D = if_done D (addCaseAction E P i ty n D)"
| "exec_case E P (Close i n) D = if_done D (closeCase E P i n D)"
| "exec_case E P (Write_off i n) D = if_done D (writeOffCase E P i n D)"
| "exec_case E P (Pause_penalty r i b n) D = if_done D (pauseLoanPenalty E r P i b n D)"
| "exec_case E P (Waive i a n) D = if_done D (waiveLoanPenalty P i a n D)"
| "exec_case E P (Scan R r t) D = snd (runCollectionsScan E R r P t D)"
| "exec_case E P (Log i ty n) D = if_done D (chain (addActivity E P i ty n D) (\<lambda>(_, D1). Inr D1))"
| "exec_case E P (Old_write_off i) D = if_done D (collections_writeOff E P i D)"
| "exec_case E P (Settle i) D = if_done D (settle E P i D)"

lemma if_done_ok: "cases_ok E D \<Longrightarrow> (\<And>D'. r = Inr D' \<Longrightarrow> cases_ok E D') \<Longrightarrow> cases_ok E (if_done D r)"
  by (cases r) (simp_all add: if_done_def)

lemma assign_ok: "assignCase P i a D = Inr D' \<Longrightarrow> cases_ok E D \<Longrightarrow> cases_ok E D'"
  by (auto simp: assignCase_def outcome_simps active_case_def case_key_def intro!: set_case_ok dest: find_SomeD split: if_splits)

lemma contacted_ok:
  "cases_ok E D \<Longrightarrow> c \<in> set (db_cases D) \<Longrightarrow> cases_ok E (set_case (ca_id c) (\<lambda>d. d\<lparr>ca_contact := x\<rparr>) D)"
  by (rule set_case_ok) (simp_all add: active_case_def case_key_def)

lemma act_ok:
  assumes "addCaseAction E' P i ty n D = Inr D'" "cases_ok E D"
  shows "cases_ok E D'"
proof -
  from assms(1) obtain c where "find_case P i D = Inr c" and
    D': "D' = (let D1 = appendCaseAction P (ca_id c) ty n D
        in if ty \<in> {AT_CALL, AT_SMS, AT_WHATSAPP, AT_EMAIL, AT_VISIT}
           then set_case (ca_id c) (\<lambda>d. d\<lparr>ca_contact := Some (ev_now E')\<rparr>) D1 else D1)"
    unfolding addCaseAction_def chain_eq_Inr Let_def by blast
  then have "c \<in> set (db_cases D)" by (simp only: find_caseD)
  with assms(2) show ?thesis unfolding D' Let_def by (simp add: contacted_ok)
qed

lemma close_ok: "closeCase E' P i n D = Inr D' \<Longrightarrow> cases_ok E D \<Longrightarrow> cases_ok E D'"
  by (auto simp: closeCase_def outcome_simps intro!: finished_keeps dest: find_SomeD)

lemma write_off_ok:
  assumes "writeOffCase E' P i n D = Inr D'" "cases_ok E D"
  shows "cases_ok E D'"
  using assms(1)
proof (cases rule: write_off_Inr)
  case (1 c l D2)
  have D2: "db_cases D2 = db_cases D" "db_seq D \<le> db_seq D2"
    using 1(4) by (auto split: if_splits dest: post_entry_cases_table(1), auto split: if_splits dest: post_entry_cases_table(2))
  let ?D3 = "D2\<lparr>db_history := db_history D2 @ [moved P l LS_WRITTEN_OFF n]\<rparr>"
  have "cases_ok E ?D3" by (rule cases_ok_mono [OF assms(2)]) (simp_all add: D2)
  moreover have "c \<in> set (db_cases ?D3)" using find_caseD [OF 1(1)] by (simp add: D2)
  ultimately have "cases_ok E (set_case (ca_id c) (finished E' CS_WRITTEN_OFF n) ?D3)"
    by (rule set_case_ok) (simp_all add: finished_def active_case_def case_key_def)
  then show ?thesis unfolding 1(5) by (rule cases_ok_mono) simp_all
qed

lemma settle_ok:
  assumes "settle E' P i D = Inr D'" "cases_ok E D"
  shows "cases_ok E D'"
proof -
  from assms(1) obtain l r where "updateLoanDelinquency (l_id l) (pc_tenant P) (ev_now E')
      (D\<lparr>db_loans := update_where (\<lambda>m. l_id m = l_id l) (settled E') (db_loans D),
         db_history := db_history D @ [moved P l LS_SETTLED ''Loan settled by collections.'']\<rparr>) = Inr (r, D')"
    by (auto simp: settle_def outcome_simps)
  from delinquency_keeps_cases [OF this] show ?thesis by (intro cases_ok_mono [OF assms(2)]) simp_all
qed

lemma penalty_ok:
  "pauseLoanPenalty E' r P i b n D = Inr D' \<Longrightarrow> cases_ok E D \<Longrightarrow> cases_ok E D'"
  "waiveLoanPenalty P i a n D = Inr D' \<Longrightarrow> cases_ok E D \<Longrightarrow> cases_ok E D'"
  by (auto simp: pauseLoanPenalty_def waiveLoanPenalty_def setPenaltyPaused_def waivePenalty_def outcome_simps Let_def
      split: option.splits if_splits intro: cases_ok_mono)

lemma old_ok:
  "addActivity E' P i ty m D = Inr (a, D') \<Longrightarrow> cases_ok E D \<Longrightarrow> cases_ok E D'"
  "collections_writeOff E' P i D = Inr D' \<Longrightarrow> cases_ok E D \<Longrightarrow> cases_ok E D'"
  by (auto simp: addActivity_def collections_writeOff_def fresh_def Let_def outcome_simps intro: cases_ok_mono)

lemma scan_ok:
  assumes "cases_ok E D" "inj (ev_cuid E)"
  shows "cases_ok E (snd (runForTenant E R rate t now D))"
  by (auto simp: runForTenant_def Let_def split: sum.splits prod.splits intro: scan_loans_ok [OF _ assms] assms(1))

lemma exec_case_ok:
  assumes "cases_ok E D" "inj (ev_cuid E)"
  shows "cases_ok E (exec_case E P c D)"
proof (cases c)
  case (Scan R r t)
  show ?thesis
    unfolding Scan exec_case.simps runCollectionsScan_def Let_def
    using scan_ok [OF assms, of R r "pc_tenant P"] assms(1)
    by (auto split: sum.splits prod.splits) (metis emit_cases_ok snd_conv)+
qed (use assms(1) in \<open>auto simp: outcome_simps intro!: if_done_ok
      intro: assign_ok act_ok close_ok write_off_ok settle_ok penalty_ok old_ok\<close>)

definition case_step :: "(nat \<Rightarrow> string) \<Rightarrow> int \<times> principal \<times> case_call \<Rightarrow> db \<Rightarrow> unit \<times> db" where
  "case_step f x D = (case x of (now, P, c) \<Rightarrow> ((), exec_case \<lparr>ev_now = now, ev_cuid = f\<rparr> P c D))"

interpretation case_calls: invariant_calls "case_step f" "\<lambda>D. inj f \<and> cases_ok \<lparr>ev_now = 0, ev_cuid = f\<rparr> D" for f
proof
  fix D and x :: "int \<times> principal \<times> case_call" assume D: "inj f \<and> cases_ok \<lparr>ev_now = 0, ev_cuid = f\<rparr> D"
  obtain now P c where x: "x = (now, P, c)" by (cases x)
  from D exec_case_ok [of "\<lparr>ev_now = now, ev_cuid = f\<rparr>" D P c]
  show "inj f \<and> cases_ok \<lparr>ev_now = 0, ev_cuid = f\<rparr> (snd (case_step f x D))"
    by (simp add: case_step_def x cases_ok_def)
qed

text \<open>
  No sequence of the other operations (assignments, actions, closings, write-offs, penalty
  switches, waivers, settlements and scans by hand), whoever calls them and whether they succeed or
  fail, gives a loan a second active case.
\<close>

lemma cases_stay_single_without_promises:
  assumes "cases_ok E D" "inj (ev_cuid E)"
  shows "cases_ok E (run_all (case_step (ev_cuid E)) calls D)"
  using case_calls.run_keeps [of "ev_cuid E" D calls] assms
  by (simp add: cases_ok_env [of E "\<lparr>ev_now = 0, ev_cuid = ev_cuid E\<rparr>"])

text \<open>The scan opens a case of the overdue loan, which is then assigned and closed, and scanned again.\<close>

lemma cases_stay_single_without_promises_witness:
  "cases_ok sample_env (run_all (case_step (ev_cuid sample_env))
     [(1700000000000, collections_head, Scan exact_ops 15 None), (1700000000000, collections_head, Assign '''' ''ada''),
      (1700000001000, collections_head, Close '''' ''paid in cash''), (1700086400000, collections_head, Scan exact_ops 15 None)]
     scan_db)"
  using cases_stay_single_without_promises [OF scan_db_ok sample_env_inj] .

end
