(* ===== verification/PaymentIntents.thy ===== *)
theory PaymentIntents
  imports FinanceInvariants TenantLedger Tenancy Risk Idempotency
begin

text \<open>
  Payments through the provider: \<open>modules/payments/payment-intents.service.ts\<close> over the gateway
  \<open>payments/gateway/paystack.gateway.ts\<close>. The provider itself is a parameter, \<open>world\<close>: what it
  answers to a request, \<open>None\<close> when the request fails. Its answers may differ from call to call, so
  every call has a \<open>world\<close> of its own. A transfer the provider answers is recorded in \<open>ps_sent\<close>:
  unless it failed, that money leaves, whatever happens to the rows afterwards. The net amount of an
  intent is never set (its expression is always undefined) and left out. Raw answers are kept as far as they are
  read again. The lists are left out.
\<close>

section \<open>Data\<close>

datatype intent_status = IN_CREATED | IN_PENDING | IN_SUCCEEDED | IN_FAILED | IN_CANCELED

datatype payout_status = PO_PENDING | PO_PROCESSING | PO_SUCCEEDED | PO_FAILED | PO_CANCELED

datatype pay_direction = INBOUND | OUTBOUND

record intent =
  pi_id :: string
  pi_tenant :: string
  pi_reference :: "string option"
  pi_direction :: pay_direction
  pi_status :: intent_status
  pi_currency :: string
  pi_amount :: int
  pi_fee :: "int option"
  pi_borrower :: "string option"
  pi_loan :: "string option"
  pi_provider_ref :: "string option"
  pi_provider_id :: "string option"
  pi_url :: "string option"
  pi_key :: string
  pi_admin :: "string option"
  pi_by_borrower :: "string option"
  pi_updated :: int

record payout =
  py_id :: string
  py_tenant :: string
  py_borrower :: string
  py_loan :: string
  py_amount :: int
  py_currency :: string
  py_status :: payout_status
  py_intent :: "string option"
  py_transfer :: "string option"
  py_ref :: "string option"
  py_recipient :: string
  py_key :: string
  py_error :: "string option"
  py_verified :: "int option"
  py_admin :: "string option"
  py_profile :: "string option"
  py_updated :: int

record payout_profile =
  pf_id :: string
  pf_tenant :: string
  pf_borrower :: string
  pf_recipient :: string
  pf_bank :: string
  pf_account :: string
  pf_name :: "string option"

record intent_step =
  ih_tenant :: string
  ih_intent :: string
  ih_from :: intent_status
  ih_to :: intent_status
  ih_reason :: string
  ih_actor_type :: string
  ih_actor :: "string option"

datatype provider_status = PV_SUCCEEDED | PV_FAILED | PV_PROCESSING | PV_PENDING

record transfer =
  tf_amount :: int
  tf_recipient :: string
  tf_reference :: string
  tf_status :: provider_status

record pay_state =
  ps_db :: db
  ps_intents :: "intent list"
  ps_payouts :: "payout list"
  ps_profiles :: "payout_profile list"
  ps_steps :: "intent_step list"
  ps_marks :: "(string \<times> int) list"
  ps_sent :: "transfer list"

text \<open>The answers of the provider, as its texts.\<close>

record charge_answer =
  ch_reference :: string
  ch_url :: string
  ch_access :: "string option"

record tx_answer =
  ta_status :: string
  ta_amount :: "int option"
  ta_fee :: "int option"

record transfer_answer =
  tr_code :: "string option"
  tr_reference :: string
  tr_status :: string

record world =
  wd_env :: env
  wd_charge :: "int \<Rightarrow> string \<Rightarrow> string \<Rightarrow> charge_answer option"
  wd_transaction :: "string \<Rightarrow> tx_answer option"
  wd_recipient :: "string \<Rightarrow> string \<Rightarrow> string option \<Rightarrow> string option"
  wd_transfer :: "int \<Rightarrow> string \<Rightarrow> string \<Rightarrow> transfer_answer option"
  wd_transfer_state :: "string \<Rightarrow> transfer_answer option"
  wd_busy :: "string \<Rightarrow> bool"
  wd_secret :: "string option"
  wd_hmac :: "string \<Rightarrow> string \<Rightarrow> string"
  wd_digest :: "string \<Rightarrow> string"

record verify_actor =
  ya_type :: string
  ya_id :: "string option"
  ya_role :: "admin_role option"

section \<open>The gateway\<close>

definition mapTransactionStatus :: "string \<Rightarrow> provider_status" where
  "mapTransactionStatus s =
     (let n = map lower_char s
      in if n = ''success'' then PV_SUCCEEDED
         else if n \<in> {''failed'', ''abandoned'', ''reversed''} then PV_FAILED else PV_PENDING)"

definition mapTransferStatus :: "string \<Rightarrow> provider_status" where
  "mapTransferStatus s =
     (let n = map lower_char s
      in if n \<in> {''success'', ''successful''} then PV_SUCCEEDED
         else if n \<in> {''failed'', ''reversed''} then PV_FAILED
         else if n \<in> {''otp'', ''pending'', ''processing''} then PV_PROCESSING else PV_PENDING)"

text \<open>The events of a webhook with the reference they carry; nothing else of it is used.\<close>

datatype webhook =
    PAYMENT_SUCCEEDED string | PAYMENT_FAILED string | TRANSFER_SUCCEEDED string | TRANSFER_FAILED string | IGNORED

definition normalizeWebhook :: "rule_value \<Rightarrow> webhook" where
  "normalizeWebhook payload =
     (let event = get_key payload ''event''
      in case get_key (get_key payload ''data'') ''reference'' of
           VStr r \<Rightarrow>
             (if r = '''' then IGNORED
              else if event = VStr ''charge.success'' then PAYMENT_SUCCEEDED r
              else if event = VStr ''charge.failed'' \<or> event = VStr ''charge.abandoned'' then PAYMENT_FAILED r
              else if event = VStr ''transfer.success'' then TRANSFER_SUCCEEDED r
              else if event = VStr ''transfer.failed'' then TRANSFER_FAILED r
              else IGNORED)
         | _ \<Rightarrow> IGNORED)"

text \<open>
  Both texts are hex digits of one length when they are compared, and the bytes of two such texts are
  equal only when the texts are; a text with another character decodes to fewer bytes and is refused.
\<close>

definition verifyWebhookSignature :: "world \<Rightarrow> string \<Rightarrow> string option \<Rightarrow> bool" where
  "verifyWebhookSignature W body signature =
     (case (trim_or_null signature, wd_secret W) of
        (Some s, Some secret) \<Rightarrow> secret \<noteq> '''' \<and> map lower_char s = wd_hmac W secret body
      | _ \<Rightarrow> False)"

section \<open>Keys, marks and rows\<close>

definition int_text :: "int \<Rightarrow> string" where
  "int_text n = (if n < 0 then ''-'' @ nat_text (nat (- n)) else nat_text (nat n))"

definition buildIdempotencyKey :: "world \<Rightarrow> (string \<times> string) list \<Rightarrow> string" where
  "buildIdempotencyKey W parts =
     ''idem_'' @ wd_digest W (join ''|'' (map (\<lambda>(k, v). k @ ''='' @ v) (sort_key fst parts)))"

definition init_key :: "world \<Rightarrow> string \<Rightarrow> string \<Rightarrow> string \<Rightarrow> int \<Rightarrow> string" where
  "init_key W scope t loan amount =
     buildIdempotencyKey W [(''scope'', scope), (''tenantId'', t), (''loanId'', loan), (''amountMinor'', int_text amount)]"

text \<open>\<open>record\<close> of the idempotency service: true for the first caller until the mark expires.\<close>

definition record_once :: "env \<Rightarrow> string \<Rightarrow> int \<Rightarrow> pay_state \<Rightarrow> bool \<times> pay_state" where
  "record_once E key ttl S =
     (if key = '''' \<or> ttl < 1 \<or> (\<exists>(k, expires) \<in> set (ps_marks S). k = key \<and> ev_now E < expires)
      then (False, S)
      else (True, S\<lparr>ps_marks := (key, ev_now E + ttl * 1000) # ps_marks S\<rparr>))"

definition same_ref :: "string option \<Rightarrow> string option \<Rightarrow> bool" where
  "same_ref a b \<longleftrightarrow> a \<noteq> None \<and> a = b"

definition create_intent :: "intent \<Rightarrow> pay_state \<Rightarrow> pay_state outcome" where
  "create_intent i S =
     (if \<exists>j \<in> set (ps_intents S). same_ref (pi_reference j) (pi_reference i) \<or>
           (pi_tenant j = pi_tenant i \<and> pi_key j = pi_key i) \<or> same_ref (pi_provider_ref j) (pi_provider_ref i)
      then Inl (Internal ''Unique constraint failed'')
      else Inr (S\<lparr>ps_intents := ps_intents S @ [i]\<rparr>))"

definition create_payout :: "payout \<Rightarrow> pay_state \<Rightarrow> pay_state outcome" where
  "create_payout p S =
     (if \<exists>q \<in> set (ps_payouts S). (py_tenant q = py_tenant p \<and> py_key q = py_key p) \<or>
           same_ref (py_transfer q) (py_transfer p) \<or> same_ref (py_ref q) (py_ref p)
      then Inl (Internal ''Unique constraint failed'')
      else Inr (S\<lparr>ps_payouts := ps_payouts S @ [p]\<rparr>))"

definition on_db :: "(db \<Rightarrow> db) \<Rightarrow> pay_state \<Rightarrow> pay_state" where
  "on_db f S = S\<lparr>ps_db := f (ps_db S)\<rparr>"

definition fresh_id :: "env \<Rightarrow> pay_state \<Rightarrow> string \<times> pay_state" where
  "fresh_id E S = (case fresh E (ps_db S) of (i, D) \<Rightarrow> (i, S\<lparr>ps_db := D\<rparr>))"

definition set_intent :: "env \<Rightarrow> string \<Rightarrow> (intent \<Rightarrow> intent) \<Rightarrow> pay_state \<Rightarrow> pay_state" where
  "set_intent E i f S =
     S\<lparr>ps_intents := update_where (\<lambda>j. pi_id j = i) (\<lambda>j. (f j)\<lparr>pi_updated := ev_now E\<rparr>) (ps_intents S)\<rparr>"

definition set_payout :: "env \<Rightarrow> string \<Rightarrow> (payout \<Rightarrow> payout) \<Rightarrow> pay_state \<Rightarrow> pay_state" where
  "set_payout E i f S =
     S\<lparr>ps_payouts := update_where (\<lambda>j. py_id j = i) (\<lambda>j. (f j)\<lparr>py_updated := ev_now E\<rparr>) (ps_payouts S)\<rparr>"

definition read_intent :: "string \<Rightarrow> pay_state \<Rightarrow> intent outcome" where
  "read_intent i S =
     (case find (\<lambda>j. pi_id j = i) (ps_intents S) of
        None \<Rightarrow> Inl (NotFound ''No PaymentIntent found'') | Some j \<Rightarrow> Inr j)"

definition read_payout :: "string \<Rightarrow> pay_state \<Rightarrow> payout outcome" where
  "read_payout i S =
     (case find (\<lambda>j. py_id j = i) (ps_payouts S) of
        None \<Rightarrow> Inl (NotFound ''No PayoutIntent found'') | Some j \<Rightarrow> Inr j)"

text \<open>An amount in minor units as a decimal; the division by 100 is exact.\<close>

definition from_minor :: "int \<Rightarrow> decimal" where
  "from_minor n = money (of_int n / 100)"

section \<open>A charge\<close>

text \<open>What the caller gets: the row, and the page to pay on.\<close>

record init_result =
  ir_intent :: intent
  ir_url :: "string option"
  ir_access :: "string option"

definition payable :: "loan \<Rightarrow> unit outcome" where
  "payable l = ensure (l_status l \<in> {LS_DISBURSED, LS_OVERDUE}) (BadRequest ''Loan is not payable.'')"

text \<open>The part both ways of asking for a payment share: the provider's page and the row of the intent.\<close>

definition start_charge ::
  "world \<Rightarrow> loan \<Rightarrow> string \<Rightarrow> string \<Rightarrow> int \<Rightarrow> string \<Rightarrow> string option \<Rightarrow> string option \<Rightarrow> string \<times> string option \<Rightarrow> pay_state \<Rightarrow>
     (init_result \<times> pay_state) outcome" where
  "start_charge W l borrowerId currency amount key adminId byBorrower actor S =
     (let E = wd_env W; reference = ''repay_'' @ l_id l @ ''_'' @ int_text (ev_now E)
      in case wd_charge W amount currency reference of
           None \<Rightarrow> Inl (Internal ''Paystack request failed'')
         | Some a \<Rightarrow>
             (case fresh_id E S of (i, S1) \<Rightarrow>
                let r = \<lparr>pi_id = i, pi_tenant = l_tenant l, pi_reference = Some reference, pi_direction = INBOUND,
                      pi_status = IN_PENDING, pi_currency = currency, pi_amount = amount, pi_fee = None,
                      pi_borrower = Some borrowerId, pi_loan = Some (l_id l), pi_provider_ref = Some (ch_reference a),
                      pi_provider_id = None, pi_url = Some (ch_url a), pi_key = key, pi_admin = adminId,
                      pi_by_borrower = byBorrower, pi_updated = ev_now E\<rparr>
                in chain (create_intent r S1) (\<lambda>S2.
                   Inr (\<lparr>ir_intent = r, ir_url = Some (ch_url a), ir_access = ch_access a\<rparr>,
                        on_db (emit (AuditEvent ''PAYMENT_INTENT_CREATED'' (fst actor) i)) S2))))"

definition initializeBorrowerRepayment ::
  "world \<Rightarrow> borrower \<Rightarrow> string \<Rightarrow> decimal \<Rightarrow> string option \<Rightarrow> pay_state \<Rightarrow> (init_result \<times> pay_state) outcome" where
  "initializeBorrowerRepayment W B loan amount keyOverride S =
     (case find (\<lambda>l. l_id l = loan \<and> l_tenant l = bo_tenant B \<and> l_phone l = bo_phone B) (db_loans (ps_db S)) of
        None \<Rightarrow> Inl (NotFound ''Loan not found.'')
      | Some l \<Rightarrow>
          chain (payable l) (\<lambda>_.
          let minor = js_round (amount * 100);
              key = (case trim_or_null keyOverride of
                       Some k \<Rightarrow> k | None \<Rightarrow> init_key W ''repay_init'' (bo_tenant B) (l_id l) minor)
          in case find (\<lambda>i. pi_tenant i = bo_tenant B \<and> pi_key i = key) (ps_intents S) of
               Some i \<Rightarrow> Inr (\<lparr>ir_intent = i, ir_url = pi_url i, ir_access = None\<rparr>, S)
             | None \<Rightarrow> start_charge W l (bo_id B) (l_currency l) minor key None (Some (bo_id B)) (''BORROWER'', Some (bo_id B)) S))"

record inbound_input =
  bi_loan :: "string option"
  bi_amount :: int
  bi_currency :: "string option"
  bi_key :: string

definition createInboundCollectionIntent ::
  "world \<Rightarrow> principal \<Rightarrow> inbound_input \<Rightarrow> pay_state \<Rightarrow> (init_result \<times> pay_state) outcome" where
  "createInboundCollectionIntent W P x S =
     (case bi_loan x of
        None \<Rightarrow> Inl (BadRequest ''loanId is required.'')
      | Some i \<Rightarrow>
          (if i = '''' then Inl (BadRequest ''loanId is required.'')
           else case find_loan (pc_tenant P) i (ps_db S) of
             None \<Rightarrow> Inl (NotFound ''Loan not found.'')
           | Some l \<Rightarrow>
               chain (payable l) (\<lambda>_.
               start_charge W l (l_phone l) (case bi_currency x of Some c \<Rightarrow> c | None \<Rightarrow> l_currency l) (bi_amount x) (bi_key x)
                 (Some (pc_admin P)) None (''TENANT_ADMIN'', Some (pc_admin P)) S)))"

section \<open>Verifying a payment\<close>

definition repayment_verified :: "world \<Rightarrow> verify_actor \<Rightarrow> intent \<Rightarrow> string \<Rightarrow> decimal \<Rightarrow> entry_input" where
  "repayment_verified W A i loan amount =
     \<lparr>ei_tenant = pi_tenant i, ei_occurred = ev_now (wd_env W), ei_type = E_REPAYMENT,
      ei_key = ''payment-intent:'' @ pi_id i @ '':success'', ei_ref_type = ''LoanApplication'', ei_ref_id = loan,
      ei_currency = Some (pi_currency i), ei_created_by = ya_id A, ei_role = ya_role A,
      ei_memo = Some (''Repayment verified '' @ (case pi_provider_ref i of Some r \<Rightarrow> r | None \<Rightarrow> pi_id i)),
      ei_lines = [\<lparr>li_code = BANK_CLEARING, li_direction = DEBIT, li_amount = amount\<rparr>,
                  \<lparr>li_code = LOAN_PRINCIPAL_RECEIVABLE, li_direction = CREDIT, li_amount = amount\<rparr>]\<rparr>"

definition verified_intent :: "tx_answer \<Rightarrow> intent \<Rightarrow> intent" where
  "verified_intent a i =
     i\<lparr>pi_status := IN_SUCCEEDED, pi_amount := (case ta_amount a of Some n \<Rightarrow> n | None \<Rightarrow> pi_amount i),
       pi_fee := Some (case ta_fee a of Some f \<Rightarrow> f | None \<Rightarrow> 0)\<rparr>"

definition loan_of :: "intent \<Rightarrow> string option" where
  "loan_of i = (case pi_loan i of None \<Rightarrow> None | Some l \<Rightarrow> if l = '''' then None else Some l)"

text \<open>\<open>i\<close> is the row as it was read before the lock was taken.\<close>

definition succeed_payment :: "world \<Rightarrow> verify_actor \<Rightarrow> intent \<Rightarrow> tx_answer \<Rightarrow> pay_state \<Rightarrow> pay_state outcome" where
  "succeed_payment W A i a S =
     (let S1 = set_intent (wd_env W) (pi_id i) (verified_intent a) S
      in chain (read_intent (pi_id i) S1) (\<lambda>u.
         chain (case loan_of u of
                  None \<Rightarrow> Inr S1
                | Some loan \<Rightarrow>
                    let paid = from_minor ((case ta_amount a of Some n \<Rightarrow> n | None \<Rightarrow> pi_amount u) -
                          (case ta_fee a of Some f \<Rightarrow> f | None \<Rightarrow> 0))
                    in chain (post_entry (wd_env W) (repayment_verified W A u loan paid) (ps_db S1)) (\<lambda>(_, D).
                       Inr (S1\<lparr>ps_db := D\<rparr>))) (\<lambda>S2.
         Inr (S2\<lparr>ps_steps := ps_steps S2 @ [\<lparr>ih_tenant = pi_tenant u, ih_intent = pi_id u, ih_from = pi_status i,
           ih_to = IN_SUCCEEDED, ih_reason = ''Provider verify success'', ih_actor_type = ya_type A, ih_actor = ya_id A\<rparr>]\<rparr>))))"

definition day_seconds :: int where
  "day_seconds = 24 * 60 * 60"

text \<open>What follows from the answer of the provider.\<close>

definition checked_payment :: "world \<Rightarrow> verify_actor \<Rightarrow> intent \<Rightarrow> tx_answer \<Rightarrow> pay_state \<Rightarrow> intent outcome \<times> pay_state" where
  "checked_payment W A i a S1 =
     (case (case mapTransactionStatus (ta_status a) of
              PV_SUCCEEDED \<Rightarrow> succeed_payment W A i a S1
            | PV_FAILED \<Rightarrow> Inr (set_intent (wd_env W) (pi_id i) (\<lambda>j. j\<lparr>pi_status := IN_FAILED\<rparr>) S1)
            | _ \<Rightarrow> Inr S1) of
        Inl e \<Rightarrow> (Inl e, S1)
      | Inr S2 \<Rightarrow>
          (case read_intent (pi_id i) S2 of
             Inl e \<Rightarrow> (Inl e, S2)
           | Inr u \<Rightarrow>
               (case (pi_status u, loan_of u) of
                  (IN_SUCCEEDED, Some loan) \<Rightarrow>
                    (case assertLoanInvariants (wd_env W) loan (ps_db S2) of (ok, D) \<Rightarrow>
                       (chain ok (\<lambda>_. Inr u), S2\<lparr>ps_db := D\<rparr>))
                | _ \<Rightarrow> (Inr u, S2))))"

definition verifyPaymentIntent :: "world \<Rightarrow> verify_actor \<Rightarrow> intent \<Rightarrow> pay_state \<Rightarrow> intent outcome \<times> pay_state" where
  "verifyPaymentIntent W A i S =
     (if wd_busy W (''lock:payment-intent:'' @ pi_id i) then (read_intent (pi_id i) S, S)
      else case record_once (wd_env W) (''payment_intent_verify:'' @ pi_id i) day_seconds S of
        (False, S1) \<Rightarrow> (read_intent (pi_id i) S1, S1)
      | (True, S1) \<Rightarrow>
          (case pi_provider_ref i of
             None \<Rightarrow> (Inl (BadRequest ''Missing provider reference.''), S1)
           | Some r \<Rightarrow>
               if r = '''' then (Inl (BadRequest ''Missing provider reference.''), S1)
               else if pi_status i = IN_SUCCEEDED then (read_intent (pi_id i) S1, S1)
               else case wd_transaction W r of
                 None \<Rightarrow> (Inl (Internal ''Paystack request failed''), S1)
               | Some a \<Rightarrow> checked_payment W A i a S1))"

text \<open>The ways a verification is asked for.\<close>

definition system_verifier :: verify_actor where
  "system_verifier = \<lparr>ya_type = ''SYSTEM'', ya_id = None, ya_role = Some SYSTEM\<rparr>"

definition verifyBorrowerRepayment :: "world \<Rightarrow> borrower \<Rightarrow> string \<Rightarrow> pay_state \<Rightarrow> intent outcome \<times> pay_state" where
  "verifyBorrowerRepayment W B reference S =
     (case find (\<lambda>i. pi_tenant i = bo_tenant B \<and> pi_borrower i = Some (bo_id B) \<and> pi_provider_ref i = Some reference)
             (ps_intents S) of
        None \<Rightarrow> (Inl (NotFound ''Payment intent not found.''), S)
      | Some i \<Rightarrow> verifyPaymentIntent W \<lparr>ya_type = ''BORROWER'', ya_id = Some (bo_id B), ya_role = None\<rparr> i S)"

definition verifyIntent :: "world \<Rightarrow> principal \<Rightarrow> string \<Rightarrow> pay_state \<Rightarrow> intent outcome \<times> pay_state" where
  "verifyIntent W P intentId S =
     (case find (\<lambda>i. pi_id i = intentId \<and> pi_tenant i = pc_tenant P) (ps_intents S) of
        None \<Rightarrow> (Inl (NotFound ''Payment intent not found.''), S)
      | Some i \<Rightarrow>
          verifyPaymentIntent W \<lparr>ya_type = ''ADMIN'', ya_id = Some (pc_admin P), ya_role = Some (pc_role P)\<rparr> i S)"

definition verifyByReference :: "world \<Rightarrow> string \<Rightarrow> verify_actor \<Rightarrow> pay_state \<Rightarrow> intent option outcome \<times> pay_state" where
  "verifyByReference W reference A S =
     (case find (\<lambda>i. pi_provider_ref i = Some reference) (ps_intents S) of
        None \<Rightarrow> (Inr None, S)
      | Some i \<Rightarrow> (case verifyPaymentIntent W A i S of (r, S1) \<Rightarrow> (chain r (\<lambda>u. Inr (Some u)), S1)))"

section \<open>Payouts\<close>

definition assertCanDisburse :: "principal \<Rightarrow> unit outcome" where
  "assertCanDisburse P =
     ensure (pc_role P \<in> {OPS, SUPER_ADMIN, SYSTEM}) (Forbidden ''Role cannot perform disbursement action.'')"

definition createTransferRecipient ::
  "world \<Rightarrow> principal \<Rightarrow> string \<Rightarrow> string \<Rightarrow> string \<Rightarrow> string option \<Rightarrow> pay_state \<Rightarrow> pay_state outcome" where
  "createTransferRecipient W P borrowerId bank account name S =
     (case wd_recipient W account bank name of
        None \<Rightarrow> Inl (Internal ''Paystack request failed'')
      | Some code \<Rightarrow>
          (if \<exists>p \<in> set (ps_profiles S). pf_tenant p = pc_tenant P \<and> pf_borrower p = borrowerId
           then Inr (S\<lparr>ps_profiles := update_where (\<lambda>p. pf_tenant p = pc_tenant P \<and> pf_borrower p = borrowerId)
                  (\<lambda>p. p\<lparr>pf_recipient := code, pf_bank := bank, pf_account := account, pf_name := name\<rparr>) (ps_profiles S)\<rparr>)
           else (case fresh_id (wd_env W) S of (i, S1) \<Rightarrow>
             Inr (S1\<lparr>ps_profiles := ps_profiles S1 @ [\<lparr>pf_id = i, pf_tenant = pc_tenant P, pf_borrower = borrowerId,
               pf_recipient = code, pf_bank = bank, pf_account = account, pf_name = name\<rparr>]\<rparr>))))"

definition payout_amount :: "loan \<Rightarrow> decimal option \<Rightarrow> int" where
  "payout_amount l amount =
     js_round ((case amount of Some a \<Rightarrow> a
                | None \<Rightarrow> (case l_approved l of Some a \<Rightarrow> a | None \<Rightarrow> l_requested l)) * 100)"

definition outbound_intent ::
  "world \<Rightarrow> principal \<Rightarrow> loan \<Rightarrow> int \<Rightarrow> string \<Rightarrow> transfer_answer \<Rightarrow> string \<Rightarrow> intent" where
  "outbound_intent W P l amount reference a i =
     \<lparr>pi_id = i, pi_tenant = pc_tenant P, pi_reference = Some reference, pi_direction = OUTBOUND,
      pi_status = (if mapTransferStatus (tr_status a) = PV_FAILED then IN_FAILED else IN_PENDING),
      pi_currency = l_currency l, pi_amount = amount, pi_fee = None, pi_borrower = None, pi_loan = Some (l_id l),
      pi_provider_ref = Some (tr_reference a), pi_provider_id = tr_code a, pi_url = None,
      pi_key = ''outbound:'' @ init_key W ''payout_init'' (pc_tenant P) (l_id l) amount,
      pi_admin = Some (pc_admin P), pi_by_borrower = None, pi_updated = ev_now (wd_env W)\<rparr>"

definition new_payout ::
  "world \<Rightarrow> principal \<Rightarrow> loan \<Rightarrow> payout_profile \<Rightarrow> int \<Rightarrow> transfer_answer \<Rightarrow> string \<Rightarrow> string \<Rightarrow> payout" where
  "new_payout W P l p amount a intentId i =
     \<lparr>py_id = i, py_tenant = pc_tenant P, py_borrower = l_phone l, py_loan = l_id l, py_amount = amount,
      py_currency = l_currency l,
      py_status = (if mapTransferStatus (tr_status a) = PV_FAILED then PO_FAILED else PO_PROCESSING),
      py_intent = Some intentId, py_transfer = tr_code a, py_ref = Some (tr_reference a),
      py_recipient = pf_recipient p, py_key = init_key W ''payout_init'' (pc_tenant P) (l_id l) amount,
      py_error = None, py_verified = None, py_admin = Some (pc_admin P), py_profile = Some (pf_id p),
      py_updated = ev_now (wd_env W)\<rparr>"

text \<open>The transfer and the two rows are not one transaction: what was done before a failure stays.\<close>

definition initiateAdminDisbursement ::
  "world \<Rightarrow> principal \<Rightarrow> string \<Rightarrow> decimal option \<Rightarrow> pay_state \<Rightarrow> payout outcome \<times> pay_state" where
  "initiateAdminDisbursement W P loan amount S =
     (case assertCanDisburse P of
        Inl e \<Rightarrow> (Inl e, S)
      | Inr _ \<Rightarrow>
     (case find_loan (pc_tenant P) loan (ps_db S) of
        None \<Rightarrow> (Inl (NotFound ''Loan not found.''), S)
      | Some l \<Rightarrow>
     (case find (\<lambda>p. pf_tenant p = pc_tenant P \<and> pf_borrower p = l_phone l) (ps_profiles S) of
        None \<Rightarrow> (Inl (BadRequest ''Recipient not configured.''), S)
      | Some p \<Rightarrow>
          (let minor = payout_amount l amount; reference = ''payout_'' @ l_id l @ ''_'' @ int_text (ev_now (wd_env W))
           in case wd_transfer W minor (pf_recipient p) reference of
                None \<Rightarrow> (Inl (Internal ''Paystack request failed''), S)
              | Some a \<Rightarrow>
                  (let S1 = S\<lparr>ps_sent := ps_sent S @
                         [\<lparr>tf_amount = minor, tf_recipient = pf_recipient p, tf_reference = reference,
                          tf_status = mapTransferStatus (tr_status a)\<rparr>]\<rparr>
                   in case fresh_id (wd_env W) S1 of (i, S2) \<Rightarrow>
                     (case create_intent (outbound_intent W P l minor reference a i) S2 of
                        Inl e \<Rightarrow> (Inl e, S1)
                      | Inr S3 \<Rightarrow>
                          (let S4 = on_db (emit (AuditEvent ''PAYMENT_INTENT_CREATED'' ''TENANT_ADMIN'' i)) S3
                           in case fresh_id (wd_env W) S4 of (j, S5) \<Rightarrow>
                             (case create_payout (new_payout W P l p minor a i j) S5 of
                                Inl e \<Rightarrow> (Inl e, S4)
                              | Inr S6 \<Rightarrow> (Inr (new_payout W P l p minor a i j), S6)))))))))"

definition createOutboundPayoutIntent :: "world \<Rightarrow> principal \<Rightarrow> string \<Rightarrow> int \<Rightarrow> pay_state \<Rightarrow> payout outcome \<times> pay_state" where
  "createOutboundPayoutIntent W P disbursementId minor S =
     initiateAdminDisbursement W P disbursementId (Some (of_int minor / 100)) S"

section \<open>Verifying a payout\<close>

definition payout_verified :: "world \<Rightarrow> verify_actor \<Rightarrow> payout \<Rightarrow> entry_input" where
  "payout_verified W A p =
     \<lparr>ei_tenant = py_tenant p, ei_occurred = ev_now (wd_env W), ei_type = E_DISBURSEMENT,
      ei_key = ''payout:'' @ py_id p @ '':success'', ei_ref_type = ''LoanApplication'', ei_ref_id = py_loan p,
      ei_currency = Some (py_currency p), ei_created_by = ya_id A, ei_role = ya_role A,
      ei_memo = Some (''Disbursement verified '' @ py_id p),
      ei_lines = [\<lparr>li_code = LOAN_PRINCIPAL_RECEIVABLE, li_direction = DEBIT, li_amount = from_minor (py_amount p)\<rparr>,
                  \<lparr>li_code = BANK_CLEARING, li_direction = CREDIT, li_amount = from_minor (py_amount p)\<rparr>]\<rparr>"

definition paid_loan :: "env \<Rightarrow> decimal \<Rightarrow> loan \<Rightarrow> loan" where
  "paid_loan E amount l =
     l\<lparr>l_status := LS_DISBURSED, l_disbursed_amount := Some amount, l_disbursed_at := Some (ev_now E)\<rparr>"

definition linked_intent :: "env \<Rightarrow> payout \<Rightarrow> intent_status \<Rightarrow> pay_state \<Rightarrow> pay_state" where
  "linked_intent E p s S =
     (case py_intent p of None \<Rightarrow> S
      | Some i \<Rightarrow> if i = '''' then S else set_intent E i (\<lambda>j. j\<lparr>pi_status := s\<rparr>) S)"

definition succeed_payout :: "world \<Rightarrow> verify_actor \<Rightarrow> payout \<Rightarrow> transfer_answer \<Rightarrow> pay_state \<Rightarrow> pay_state outcome" where
  "succeed_payout W A p a S =
     (let E = wd_env W;
          S1 = linked_intent E p IN_SUCCEEDED
                 (set_payout E (py_id p) (\<lambda>q. q\<lparr>py_status := PO_SUCCEEDED,
                    py_transfer := (case tr_code a of Some c \<Rightarrow> Some c | None \<Rightarrow> py_transfer q),
                    py_verified := Some (ev_now E), py_error := None\<rparr>) S)
      in case find_loan (py_tenant p) (py_loan p) (ps_db S1) of
           None \<Rightarrow> Inl (NotFound ''Loan not found.'')
         | Some l \<Rightarrow>
             chain (post_entry E (payout_verified W A p) (ps_db S1)) (\<lambda>(_, D).
             Inr (S1\<lparr>ps_db := D\<lparr>db_loans := update_where (\<lambda>m. l_id m = l_id l)
                    (paid_loan E (from_minor (py_amount p))) (db_loans D)\<rparr>\<rparr>)))"

definition checked_payout :: "world \<Rightarrow> verify_actor \<Rightarrow> payout \<Rightarrow> transfer_answer \<Rightarrow> pay_state \<Rightarrow> payout outcome \<times> pay_state" where
  "checked_payout W A p a S1 =
     (let E = wd_env W in
      case (case mapTransferStatus (tr_status a) of
              PV_SUCCEEDED \<Rightarrow> succeed_payout W A p a S1
            | PV_FAILED \<Rightarrow> Inr (linked_intent E p IN_FAILED
                (set_payout E (py_id p) (\<lambda>q. q\<lparr>py_status := PO_FAILED,
                   py_error := Some ''Provider transfer failed''\<rparr>) S1))
            | _ \<Rightarrow> Inr (set_payout E (py_id p) (\<lambda>q. q\<lparr>py_status := PO_PROCESSING\<rparr>) S1)) of
        Inl e \<Rightarrow> (Inl e, S1)
      | Inr S2 \<Rightarrow>
          (case read_payout (py_id p) S2 of
             Inl e \<Rightarrow> (Inl e, S2)
           | Inr u \<Rightarrow>
               (if py_status u = PO_SUCCEEDED
                then (case assertLoanInvariants E (py_loan u) (ps_db S2) of (ok, D) \<Rightarrow>
                        (chain ok (\<lambda>_. Inr u), S2\<lparr>ps_db := D\<rparr>))
                else (Inr u, S2))))"

definition verifyPayoutIntent :: "world \<Rightarrow> verify_actor \<Rightarrow> payout \<Rightarrow> pay_state \<Rightarrow> payout outcome \<times> pay_state" where
  "verifyPayoutIntent W A p S =
     (if wd_busy W (''lock:payout-intent:'' @ py_id p) then (read_payout (py_id p) S, S)
      else case record_once (wd_env W) (''payout_intent_verify:'' @ py_id p) day_seconds S of
        (False, S1) \<Rightarrow> (read_payout (py_id p) S1, S1)
      | (True, S1) \<Rightarrow>
          (case py_ref p of
             None \<Rightarrow> (Inl (BadRequest ''Missing provider reference.''), S1)
           | Some r \<Rightarrow>
               if r = '''' then (Inl (BadRequest ''Missing provider reference.''), S1)
               else if py_status p = PO_SUCCEEDED then (read_payout (py_id p) S1, S1)
               else case wd_transfer_state W r of
                 None \<Rightarrow> (Inl (Internal ''Paystack request failed''), S1)
               | Some a \<Rightarrow> checked_payout W A p a S1))"

definition verifyAdminDisbursement :: "world \<Rightarrow> principal \<Rightarrow> string \<Rightarrow> pay_state \<Rightarrow> payout outcome \<times> pay_state" where
  "verifyAdminDisbursement W P reference S =
     (case assertCanDisburse P of
        Inl e \<Rightarrow> (Inl e, S)
      | Inr _ \<Rightarrow>
          (case find (\<lambda>p. py_tenant p = pc_tenant P \<and> py_ref p = Some reference) (ps_payouts S) of
             None \<Rightarrow> (Inl (NotFound ''Payout intent not found.''), S)
           | Some p \<Rightarrow>
               verifyPayoutIntent W \<lparr>ya_type = ''ADMIN'', ya_id = Some (pc_admin P), ya_role = Some (pc_role P)\<rparr> p S))"

definition verifyPayoutByReference :: "world \<Rightarrow> string \<Rightarrow> verify_actor \<Rightarrow> pay_state \<Rightarrow> payout option outcome \<times> pay_state" where
  "verifyPayoutByReference W reference A S =
     (case find (\<lambda>p. py_ref p = Some reference) (ps_payouts S) of
        None \<Rightarrow> (Inr None, S)
      | Some p \<Rightarrow> (case verifyPayoutIntent W A p S of (r, S1) \<Rightarrow> (chain r (\<lambda>u. Inr (Some u)), S1)))"

section \<open>Webhook and reconciliation\<close>

text \<open>The answer says whether the event was ignored.\<close>

definition verify_first_intent :: "world \<Rightarrow> string \<Rightarrow> pay_state \<Rightarrow> bool outcome \<times> pay_state" where
  "verify_first_intent W reference S =
     (case find (\<lambda>i. pi_provider_ref i = Some reference) (ps_intents S) of
        None \<Rightarrow> (Inr True, S)
      | Some i \<Rightarrow> (case verifyPaymentIntent W system_verifier i S of (r, S1) \<Rightarrow> (chain r (\<lambda>_. Inr False), S1)))"

definition verify_first_payout :: "world \<Rightarrow> string \<Rightarrow> pay_state \<Rightarrow> bool outcome \<times> pay_state" where
  "verify_first_payout W reference S =
     (case find (\<lambda>p. py_ref p = Some reference) (ps_payouts S) of
        None \<Rightarrow> (Inr True, S)
      | Some p \<Rightarrow> (case verifyPayoutIntent W system_verifier p S of (r, S1) \<Rightarrow> (chain r (\<lambda>_. Inr False), S1)))"

definition handlePaystackWebhook ::
  "world \<Rightarrow> rule_value \<Rightarrow> string option \<Rightarrow> string \<Rightarrow> pay_state \<Rightarrow> bool outcome \<times> pay_state" where
  "handlePaystackWebhook W payload signature rawBody S =
     (if \<not> verifyWebhookSignature W rawBody signature then (Inl (BadRequest ''Invalid webhook signature.''), S)
      else case normalizeWebhook payload of
             IGNORED \<Rightarrow> (Inr True, S)
           | PAYMENT_SUCCEEDED r \<Rightarrow> verify_first_intent W r S
           | PAYMENT_FAILED r \<Rightarrow> verify_first_intent W r S
           | TRANSFER_SUCCEEDED r \<Rightarrow> verify_first_payout W r S
           | TRANSFER_FAILED r \<Rightarrow> verify_first_payout W r S)"

text \<open>The loops stop at the first verification that fails.\<close>

fun verify_all :: "('r \<Rightarrow> pay_state \<Rightarrow> 'a outcome \<times> pay_state) \<Rightarrow> 'r list \<Rightarrow> pay_state \<Rightarrow> unit outcome \<times> pay_state" where
  "verify_all f [] S = (Inr (), S)"
| "verify_all f (r # rs) S = (case f r S of (Inl e, S1) \<Rightarrow> (Inl e, S1) | (Inr _, S1) \<Rightarrow> verify_all f rs S1)"

definition reconcileStaleIntents :: "world \<Rightarrow> int \<Rightarrow> nat \<Rightarrow> pay_state \<Rightarrow> (nat \<times> nat) outcome \<times> pay_state" where
  "reconcileStaleIntents W minutes limit S =
     (let cutoff = ev_now (wd_env W) - minutes * 60000;
          intents = take limit (filter (\<lambda>i. pi_status i = IN_PENDING \<and> pi_updated i \<le> cutoff \<and> pi_provider_ref i \<noteq> None)
                      (ps_intents S));
          payouts = take limit (filter (\<lambda>p. py_status p \<in> {PO_PENDING, PO_PROCESSING} \<and> py_updated p \<le> cutoff \<and>
                      py_ref p \<noteq> None) (ps_payouts S))
      in case verify_all (verifyPaymentIntent W system_verifier) intents S of
           (Inl e, S1) \<Rightarrow> (Inl e, S1)
         | (Inr _, S1) \<Rightarrow>
             (case verify_all (verifyPayoutIntent W system_verifier) payouts S1 of
                (Inl e, S2) \<Rightarrow> (Inl e, S2)
              | (Inr _, S2) \<Rightarrow> (Inr (length intents, length payouts), S2)))"

section \<open>What a verification changes\<close>

lemma set_intent_frame [simp]:
  "ps_db (set_intent E i f S) = ps_db S" "ps_marks (set_intent E i f S) = ps_marks S"
  "ps_payouts (set_intent E i f S) = ps_payouts S" "ps_sent (set_intent E i f S) = ps_sent S"
  by (simp_all add: set_intent_def)

lemma set_payout_frame [simp]:
  "ps_db (set_payout E i f S) = ps_db S" "ps_marks (set_payout E i f S) = ps_marks S"
  "ps_intents (set_payout E i f S) = ps_intents S"
  by (simp_all add: set_payout_def)

lemma linked_intent_frame [simp]: "ps_db (linked_intent E p s S) = ps_db S"
  by (simp add: linked_intent_def split: option.splits)

lemma record_once_frame [simp]:
  "ps_db (snd (record_once E k n S)) = ps_db S" "ps_intents (snd (record_once E k n S)) = ps_intents S"
  by (simp_all add: record_once_def)

lemma verify_payment_cases:
  assumes "verifyPaymentIntent W A i S = (res, S')"
  obtains (same) "S' = S" "res = read_intent (pi_id i) S"
  | (marked) "S' = snd (record_once (wd_env W) (''payment_intent_verify:'' @ pi_id i) day_seconds S)"
  | (asked) r a where "pi_provider_ref i = Some r" "wd_transaction W r = Some a"
      "checked_payment W A i a (snd (record_once (wd_env W) (''payment_intent_verify:'' @ pi_id i) day_seconds S)) = (res, S')"
proof -
  let ?k = "''payment_intent_verify:'' @ pi_id i"
  obtain b S1 where m: "record_once (wd_env W) ?k day_seconds S = (b, S1)" by (cases "record_once (wd_env W) ?k day_seconds S")
  have quiet: "S1 = S" if "\<not> b" using m that by (simp add: record_once_def split: if_splits)
  note form = assms [unfolded verifyPaymentIntent_def m prod.case]
  show thesis
  proof (cases "wd_busy W (''lock:payment-intent:'' @ pi_id i)")
    case True
    then show thesis using form by (intro same) auto
  next
    case free: False
    show thesis
    proof (cases b)
      case False
      then show thesis using form free quiet by (intro same) auto
    next
      case True
      show thesis
      proof (cases "pi_provider_ref i")
        case None
        then show thesis using form free True m by (intro marked) simp
      next
        case (Some r)
        show thesis
        proof (cases "r = '''' \<or> pi_status i = IN_SUCCEEDED \<or> wd_transaction W r = None")
          case stop: True
          then show thesis using form free True Some m by (intro marked) (auto split: if_splits)
        next
          case False
          then obtain a where "wd_transaction W r = Some a" by blast
          with False show thesis using form free True Some m by (intro asked) simp_all
        qed
      qed
    qed
  qed
qed

text \<open>What may happen to the database: the ledger grows by one balanced entry, and flags are raised.\<close>

definition ledger_only :: "db \<Rightarrow> db \<Rightarrow> bool" where
  "ledger_only D D' \<longleftrightarrow> db_loans D' = db_loans D \<and> db_items D' = db_items D \<and> db_repayments D' = db_repayments D \<and>
     (\<exists>es. db_entries D' = db_entries D @ es \<and> length es \<le> 1 \<and> (\<forall>e \<in> set es. entry_balanced e))"

lemma ledger_only_refl [simp]: "ledger_only D D"
  unfolding ledger_only_def by (intro conjI refl exI [of _ "[]"]) simp_all

lemma ledger_only_flags: "ledger_only D D1 \<Longrightarrow> same_but_flags D1 D2 \<Longrightarrow> ledger_only D D2"
  unfolding ledger_only_def same_but_flags_def by auto

lemma ledger_only_post:
  assumes "post_entry E x D = Inr (r, D')" "cents_input x"
  shows "ledger_only D D'"
  using post_entry_other_tables [OF assms(1)] assms(2) unfolding ledger_only_def
  by (auto intro: tl.post_extends [OF assms(1)])

lemma from_minor_cents [simp]: "is_cents (from_minor n)"
  by (simp add: from_minor_def)

lemma succeed_ledger_only:
  assumes "succeed_payment W A i a S = Inr S'"
  shows "ledger_only (ps_db S) (ps_db S')"
proof -
  from assms obtain u where u: "read_intent (pi_id i) (set_intent (wd_env W) (pi_id i) (verified_intent a) S) = Inr u"
    by (auto simp: succeed_payment_def Let_def outcome_simps)
  show ?thesis
  proof (cases "loan_of u")
    case None
    with assms u show ?thesis by (auto simp: succeed_payment_def Let_def outcome_simps)
  next
    case (Some loan)
    with assms u obtain r D where p: "post_entry (wd_env W) (repayment_verified W A u loan
        (from_minor ((case ta_amount a of Some n \<Rightarrow> n | None \<Rightarrow> pi_amount u) - (case ta_fee a of Some f \<Rightarrow> f | None \<Rightarrow> 0))))
        (ps_db S) = Inr (r, D)" "ps_db S' = D"
      by (auto simp: succeed_payment_def Let_def outcome_simps)
    have "cents_input (repayment_verified W A u loan (from_minor n))" for n
      by (simp add: cents_input_def repayment_verified_def)
    then show ?thesis using ledger_only_post [OF p(1)] p(2) by simp
  qed
qed

lemma checked_ledger_only:
  assumes "checked_payment W A i a S = (res, S')"
  shows "ledger_only (ps_db S) (ps_db S')"
proof (cases "case mapTransactionStatus (ta_status a) of PV_SUCCEEDED \<Rightarrow> succeed_payment W A i a S
    | PV_FAILED \<Rightarrow> Inr (set_intent (wd_env W) (pi_id i) (\<lambda>j. j\<lparr>pi_status := IN_FAILED\<rparr>) S) | _ \<Rightarrow> Inr S")
  case (Inl e)
  with assms show ?thesis by (simp add: checked_payment_def)
next
  case (Inr S2)
  then have l: "ledger_only (ps_db S) (ps_db S2)"
    by (auto split: provider_status.splits dest: succeed_ledger_only)
  have "ps_db S' = ps_db S2 \<or> (\<exists>loan. ps_db S' = snd (assertLoanInvariants (wd_env W) loan (ps_db S2)))"
    using assms unfolding checked_payment_def Inr sum.case
    by (auto split: sum.splits intent_status.splits option.splits prod.splits) (metis snd_conv)
  moreover have "same_but_flags (ps_db S2) (snd (assertLoanInvariants (wd_env W) loan (ps_db S2)))" for loan
    using loan_invariants_iff by blast
  ultimately show ?thesis using l ledger_only_flags by metis
qed

text \<open>
  C33. What a verified payment changes: the ledger may grow by one balanced entry, and flags may be
  raised, but the loan, its instalments and its repayments stay as they were. So the schedule still asks
  for the instalment that was paid, and arrears, penalties and the outstanding balance do not see it.
\<close>

theorem verified_payment_reaches_only_the_ledger:
  "ledger_only (ps_db S) (ps_db (snd (verifyPaymentIntent W A i S)))"
proof -
  obtain res S' where v: "verifyPaymentIntent W A i S = (res, S')" by (cases "verifyPaymentIntent W A i S")
  then show ?thesis
  proof (cases rule: verify_payment_cases)
    case (asked r a)
    then show ?thesis using checked_ledger_only [OF asked(3)] v by simp
  qed (simp_all add: v)
qed

section \<open>Too early, and never again\<close>

text \<open>
  C34. The mark of a verification is set before the provider is asked, and kept for a day whatever the
  provider answers. A payment that is still pending when somebody looks (the borrower's return from the
  payment page is enough) is left pending by every verification of the next day, also by the webhook
  that reports its success.
\<close>

theorem early_verification_blocks_success:
  assumes "\<not> wd_busy W (''lock:payment-intent:'' @ pi_id i)"
    and "find (\<lambda>j. pi_id j = pi_id i) (ps_intents S) = Some i" and "pi_status i = IN_PENDING"
    and "pi_provider_ref i = Some r" and "r \<noteq> ''''" and "wd_transaction W r = Some a"
    and "mapTransactionStatus (ta_status a) = PV_PENDING"
    and "\<forall>e. (''payment_intent_verify:'' @ pi_id i, e) \<notin> set (ps_marks S)"
    and "ev_now (wd_env W') < ev_now (wd_env W) + day_seconds * 1000"
  shows "\<exists>S1. verifyPaymentIntent W A i S = (Inr i, S1) \<and> ps_intents S1 = ps_intents S \<and> ps_db S1 = ps_db S \<and>
    verifyPaymentIntent W' A' i S1 = (Inr i, S1)"
proof -
  let ?k = "''payment_intent_verify:'' @ pi_id i"
  let ?S1 = "S\<lparr>ps_marks := (?k, ev_now (wd_env W) + day_seconds * 1000) # ps_marks S\<rparr>"
  have "record_once (wd_env W) ?k day_seconds S = (True, ?S1)"
    using assms(8) by (auto simp: record_once_def day_seconds_def)
  moreover have "checked_payment W A i a ?S1 = (Inr i, ?S1)"
    using assms(2,3,7) by (simp add: checked_payment_def read_intent_def)
  ultimately have first: "verifyPaymentIntent W A i S = (Inr i, ?S1)"
    using assms(1,3-6) by (simp add: verifyPaymentIntent_def)
  have "record_once (wd_env W') ?k day_seconds ?S1 = (False, ?S1)"
    using assms(9) by (simp add: record_once_def)
  then have "verifyPaymentIntent W' A' i ?S1 = (Inr i, ?S1)"
    using assms(2) by (simp add: verifyPaymentIntent_def read_intent_def)
  with first show ?thesis by (intro exI [of _ ?S1]) simp
qed

section \<open>Paying out twice\<close>

lemma init_key_world: "wd_digest W' = wd_digest W \<Longrightarrow> init_key W' = init_key W"
  by (intro ext) (simp add: init_key_def buildIdempotencyKey_def)

lemma create_intent_Inr:
  "create_intent i S = Inr S' \<Longrightarrow> S' = S\<lparr>ps_intents := ps_intents S @ [i]\<rparr>"
  by (simp add: create_intent_def split: if_splits)

lemma create_payout_Inr:
  "create_payout p S = Inr S' \<Longrightarrow> S' = S\<lparr>ps_payouts := ps_payouts S @ [p]\<rparr>"
  by (simp add: create_payout_def split: if_splits)

lemma initiated:
  assumes "initiateAdminDisbursement W P loan amount S = (Inr p, S1)"
  obtains l f reference a i where "find_loan (pc_tenant P) loan (ps_db S) = Some l"
    "find (\<lambda>p. pf_tenant p = pc_tenant P \<and> pf_borrower p = l_phone l) (ps_profiles S) = Some f"
    "ps_intents S1 = ps_intents S @ [outbound_intent W P l (payout_amount l amount) reference a i]"
    "py_amount p = payout_amount l amount" "py_recipient p = pf_recipient f"
    "ps_profiles S1 = ps_profiles S" "db_loans (ps_db S1) = db_loans (ps_db S)"
proof -
  from assms have can: "assertCanDisburse P = Inr ()"
    by (cases "assertCanDisburse P") (simp_all add: initiateAdminDisbursement_def)
  note form = assms [unfolded initiateAdminDisbursement_def can sum.case]
  from form obtain l where l: "find_loan (pc_tenant P) loan (ps_db S) = Some l" by (cases "find_loan (pc_tenant P) loan (ps_db S)") simp_all
  from form obtain f where f: "find (\<lambda>p. pf_tenant p = pc_tenant P \<and> pf_borrower p = l_phone l) (ps_profiles S) = Some f"
    by (cases "find (\<lambda>p. pf_tenant p = pc_tenant P \<and> pf_borrower p = l_phone l) (ps_profiles S)") (simp_all add: l)
  show thesis
    using form that [OF l f] unfolding l f option.case Let_def
    by (auto simp: fresh_id_def fresh_def on_db_def emit_def new_payout_def
        dest!: create_intent_Inr create_payout_Inr split: option.splits sum.splits)
qed

text \<open>
  C35. A payout is sent before anything is written, and only the unique keys of the rows stand against a
  second one: when the same amount of a loan is paid out again, the provider sends the money a second
  time and the call then fails on the constraint, so that no row tells of the second transfer.
\<close>

theorem repeated_payout_is_sent_and_lost:
  assumes "initiateAdminDisbursement W P loan amount S = (Inr p, S1)"
    and "wd_digest W' = wd_digest W" and "pc_tenant Q = pc_tenant P" and "pc_role Q \<in> {OPS, SUPER_ADMIN, SYSTEM}"
    and "\<forall>n c r. wd_transfer W' n c r \<noteq> None"
  shows "\<exists>t. initiateAdminDisbursement W' Q loan amount S1 =
      (Inl (Internal ''Unique constraint failed''), S1\<lparr>ps_sent := ps_sent S1 @ [t]\<rparr>) \<and>
    tf_amount t = py_amount p \<and> tf_recipient t = py_recipient p"
  using assms(1)
proof (cases rule: initiated)
  case (1 l f reference a i)
  let ?r = "''payout_'' @ l_id l @ ''_'' @ int_text (ev_now (wd_env W'))"
  obtain b where b: "wd_transfer W' (payout_amount l amount) (pf_recipient f) ?r = Some b" using assms(5) by blast
  have l: "find_loan (pc_tenant P) loan (ps_db S1) = Some l"
    using 1(1) by (simp add: find_loan_def 1(7))
  have clash: "create_intent (outbound_intent W' Q l (payout_amount l amount) ref b j) S2 = Inl (Internal ''Unique constraint failed'')"
    if "ps_intents S2 = ps_intents S1" for j ref S2
    by (auto simp: create_intent_def that 1(3) outbound_intent_def init_key_world [OF assms(2)] assms(3))
  have can: "assertCanDisburse Q = Inr ()" using assms(4) by (simp add: assertCanDisburse_def ensure_def)
  show ?thesis
    unfolding initiateAdminDisbursement_def can sum.case assms(3) l option.case 1(2,6) Let_def b
    by (intro exI [of _ "\<lparr>tf_amount = payout_amount l amount, tf_recipient = pf_recipient f, tf_reference = ?r,
        tf_status = mapTransferStatus (tr_status b)\<rparr>"]) (simp add: fresh_id_def fresh_def clash 1(4,5))
qed

text \<open>
  A payment of the same amount as an earlier one is answered with the earlier intent, whatever became of
  it: without a key of their own, two equal instalments of a loan cannot both be paid.
\<close>

lemma equal_payment_reuses_intent:
  assumes "find (\<lambda>i. pi_tenant i = bo_tenant B \<and> pi_key i = init_key W ''repay_init'' (bo_tenant B) loan (js_round (amount * 100)))
      (ps_intents S) = Some i"
    and "initializeBorrowerRepayment W B loan amount None S = Inr (r, S')"
  shows "S' = S \<and> ir_intent r = i"
proof -
  from assms(2) obtain l where l: "find (\<lambda>l. l_id l = loan \<and> l_tenant l = bo_tenant B \<and> l_phone l = bo_phone B) (db_loans (ps_db S)) = Some l"
    by (cases "find (\<lambda>l. l_id l = loan \<and> l_tenant l = bo_tenant B \<and> l_phone l = bo_phone B) (db_loans (ps_db S))")
      (simp_all add: initializeBorrowerRepayment_def)
  then have "l_id l = loan" using find_SomeD by fastforce
  with assms l show ?thesis
    by (auto simp: initializeBorrowerRepayment_def trim_or_null_def Let_def outcome_simps)
qed

section \<open>What a webhook can do\<close>

lemma invariants_entries: "assertLoanInvariants E loan D = (ok, D') \<Longrightarrow> db_entries D' = db_entries D"
  using loan_invariants_iff [of E loan D] by (auto simp: same_but_flags_def)

lemma checked_payment_entries:
  assumes "checked_payment W A i a S = (res, S')" "mapTransactionStatus (ta_status a) \<noteq> PV_SUCCEEDED"
  shows "db_entries (ps_db S') = db_entries (ps_db S)"
  using assms unfolding checked_payment_def
  by (cases "mapTransactionStatus (ta_status a)")
    (auto split: sum.splits intent_status.splits option.splits prod.splits dest: invariants_entries)

lemma checked_payout_entries:
  assumes "checked_payout W A p a S = (res, S')" "mapTransferStatus (tr_status a) \<noteq> PV_SUCCEEDED"
  shows "db_entries (ps_db S') = db_entries (ps_db S)"
  using assms unfolding checked_payout_def Let_def
  by (cases "mapTransferStatus (tr_status a)")
    (auto split: sum.splits option.splits prod.splits if_splits dest: invariants_entries)

lemma verify_payment_entries:
  assumes "verifyPaymentIntent W A i S = (res, S')" "db_entries (ps_db S') \<noteq> db_entries (ps_db S)"
  obtains r a where "pi_provider_ref i = Some r" "wd_transaction W r = Some a" "mapTransactionStatus (ta_status a) = PV_SUCCEEDED"
  using assms(1)
proof (cases rule: verify_payment_cases)
  case (asked r a)
  have "mapTransactionStatus (ta_status a) = PV_SUCCEEDED"
    using checked_payment_entries [OF asked(3)] assms(2) by auto
  with asked(1,2) show thesis by (rule that)
qed (use assms(2) in simp_all)

lemma verify_payout_entries:
  assumes "verifyPayoutIntent W A p S = (res, S')" "db_entries (ps_db S') \<noteq> db_entries (ps_db S)"
  obtains r a where "py_ref p = Some r" "wd_transfer_state W r = Some a" "mapTransferStatus (tr_status a) = PV_SUCCEEDED"
proof -
  obtain b S1 where m: "record_once (wd_env W) (''payout_intent_verify:'' @ py_id p) day_seconds S = (b, S1)"
    by (cases "record_once (wd_env W) (''payout_intent_verify:'' @ py_id p) day_seconds S")
  have S1: "ps_db S1 = ps_db S" using record_once_frame(1) [of "wd_env W"] m by (metis snd_conv)
  note form = assms(1) [unfolded verifyPayoutIntent_def m prod.case]
  have free: "\<not> wd_busy W (''lock:payout-intent:'' @ py_id p)"
  proof
    assume "wd_busy W (''lock:payout-intent:'' @ py_id p)"
    with form have "S' = S" by (simp only: if_True prod.inject)
    with assms(2) show False by simp
  qed
  note form = form [unfolded if_not_P [OF free]]
  have b: b
  proof (rule ccontr)
    assume "\<not> b"
    with form have "S' = S1" by (simp only: bool.case prod.inject)
    with assms(2) S1 show False by simp
  qed
  note form = form [unfolded eqTrueI [OF b] bool.case]
  from form assms(2) S1 obtain r where r: "py_ref p = Some r" by (cases "py_ref p") auto
  from form assms(2) S1 obtain a where a: "wd_transfer_state W r = Some a"
    by (cases "wd_transfer_state W r") (auto simp: r split: if_splits)
  have "checked_payout W A p a S1 = (res, S')"
    using form assms(2) S1 by (auto simp: r a split: if_splits)
  with checked_payout_entries [OF this] assms(2) S1 have "mapTransferStatus (tr_status a) = PV_SUCCEEDED" by auto
  with r a show thesis by (rule that)
qed

fun webhook_reference :: "webhook \<Rightarrow> string option" where
  "webhook_reference (PAYMENT_SUCCEEDED r) = Some r"
| "webhook_reference (PAYMENT_FAILED r) = Some r"
| "webhook_reference (TRANSFER_SUCCEEDED r) = Some r"
| "webhook_reference (TRANSFER_FAILED r) = Some r"
| "webhook_reference IGNORED = None"

text \<open>
  C36. A webhook books nothing of its own accord. Without the provider's signature it changes nothing,
  and a signed one only names a payment or a payout: an entry is posted only when the provider, asked
  for the reference the webhook names, confirms that the money moved.
\<close>

theorem webhook_needs_signature_and_confirmation:
  assumes "handlePaystackWebhook W payload signature rawBody S = (res, S')" and "S' \<noteq> S"
  shows "verifyWebhookSignature W rawBody signature \<and>
    (\<exists>r. webhook_reference (normalizeWebhook payload) = Some r \<and>
       (db_entries (ps_db S') = db_entries (ps_db S) \<or>
        (\<exists>a. wd_transaction W r = Some a \<and> mapTransactionStatus (ta_status a) = PV_SUCCEEDED) \<or>
        (\<exists>a. wd_transfer_state W r = Some a \<and> mapTransferStatus (tr_status a) = PV_SUCCEEDED)))"
proof -
  have sig: "verifyWebhookSignature W rawBody signature"
    using assms by (auto simp: handlePaystackWebhook_def split: if_splits)
  have pay: "db_entries (ps_db S') = db_entries (ps_db S) \<or>
      (\<exists>a. wd_transaction W r = Some a \<and> mapTransactionStatus (ta_status a) = PV_SUCCEEDED)"
    if v: "verify_first_intent W r S = (res, S')" for r
  proof (cases "find (\<lambda>i. pi_provider_ref i = Some r) (ps_intents S)")
    case None
    then show ?thesis using v by (simp add: verify_first_intent_def)
  next
    case (Some i)
    then obtain q where "verifyPaymentIntent W system_verifier i S = (q, S')"
      using v by (auto simp: verify_first_intent_def split: prod.splits)
    with find_SomeD [OF Some] show ?thesis by (metis option.inject verify_payment_entries)
  qed
  have out: "db_entries (ps_db S') = db_entries (ps_db S) \<or>
      (\<exists>a. wd_transfer_state W r = Some a \<and> mapTransferStatus (tr_status a) = PV_SUCCEEDED)"
    if v: "verify_first_payout W r S = (res, S')" for r
  proof (cases "find (\<lambda>p. py_ref p = Some r) (ps_payouts S)")
    case None
    then show ?thesis using v by (simp add: verify_first_payout_def)
  next
    case (Some p)
    then obtain q where "verifyPayoutIntent W system_verifier p S = (q, S')"
      using v by (auto simp: verify_first_payout_def split: prod.splits)
    with find_SomeD [OF Some] show ?thesis by (metis option.inject verify_payout_entries)
  qed
  show ?thesis
  proof (cases "normalizeWebhook payload")
    case IGNORED
    then show ?thesis using assms sig by (simp add: handlePaystackWebhook_def)
  qed (use assms(1) sig pay out in \<open>auto simp: handlePaystackWebhook_def\<close>)
qed

text \<open>A payout that is confirmed makes the loan disbursed whatever its status, with no row of history.\<close>

lemma payout_disburses_any_loan:
  assumes "succeed_payout W A p a S = Inr S'" and "find_loan (py_tenant p) (py_loan p) (ps_db S) = Some l"
  shows "\<exists>l'. find_loan (py_tenant p) (py_loan p) (ps_db S') = Some l' \<and> l_status l' = LS_DISBURSED \<and>
    db_history (ps_db S') = db_history (ps_db S)"
proof -
  have id: "l_id l = py_loan p" using find_loanD [OF assms(2)] by simp
  from assms obtain r D where p: "post_entry (wd_env W) (payout_verified W A p) (ps_db S) = Inr (r, D)"
    "db_loans (ps_db S') = update_where (\<lambda>m. l_id m = l_id l) (paid_loan (wd_env W) (from_minor (py_amount p))) (db_loans D)"
    "db_history (ps_db S') = db_history D"
    by (auto simp: succeed_payout_def Let_def outcome_simps)
  have "find (\<lambda>m. l_id m = py_loan p \<and> l_tenant m = py_tenant p)
      (update_where (\<lambda>m. l_id m = py_loan p) (paid_loan (wd_env W) (from_minor (py_amount p))) ls) =
    map_option (paid_loan (wd_env W) (from_minor (py_amount p))) (find (\<lambda>m. l_id m = py_loan p \<and> l_tenant m = py_tenant p) ls)" for ls
    by (induction ls) (auto simp: paid_loan_def)
  with assms(2) show ?thesis
    using post_entry_other_tables [OF p(1)] by (simp add: find_loan_def p(2,3) id paid_loan_def)
qed

section \<open>Instances\<close>

text \<open>A provider that gives every transaction and transfer the status \<open>s\<close>.\<close>

definition sample_world :: "string \<Rightarrow> world" where
  "sample_world s =
     \<lparr>wd_env = sample_env, wd_charge = (\<lambda>n c r. Some \<lparr>ch_reference = r, ch_url = ''url'', ch_access = None\<rparr>),
      wd_transaction = (\<lambda>r. Some \<lparr>ta_status = s, ta_amount = Some 10000, ta_fee = None\<rparr>),
      wd_recipient = (\<lambda>a b n. Some ''RCP''),
      wd_transfer = (\<lambda>n c r. Some \<lparr>tr_code = None, tr_reference = r, tr_status = s\<rparr>),
      wd_transfer_state = (\<lambda>r. Some \<lparr>tr_code = None, tr_reference = r, tr_status = s\<rparr>),
      wd_busy = (\<lambda>k. False), wd_secret = Some ''key'', wd_hmac = (\<lambda>s b. s @ b), wd_digest = (\<lambda>s. s)\<rparr>"

definition sample_intent :: intent where
  "sample_intent =
     \<lparr>pi_id = ''pi1'', pi_tenant = ''ten'', pi_reference = Some ''ref'', pi_direction = INBOUND, pi_status = IN_PENDING,
      pi_currency = ''NGN'', pi_amount = 10000, pi_fee = None, pi_borrower = Some ''b1'', pi_loan = Some ''loan'',
      pi_provider_ref = Some ''ref'', pi_provider_id = None, pi_url = None, pi_key = ''k'', pi_admin = None,
      pi_by_borrower = Some ''b1'', pi_updated = 0\<rparr>"

definition sample_pay :: pay_state where
  "sample_pay =
     \<lparr>ps_db = loan_db, ps_intents = [sample_intent], ps_payouts = [],
      ps_profiles = [\<lparr>pf_id = ''pf'', pf_tenant = ''ten'', pf_borrower = ''080'', pf_recipient = ''RCP'', pf_bank = ''011'',
        pf_account = ''0123456789'', pf_name = None\<rparr>],
      ps_steps = [], ps_marks = [], ps_sent = []\<rparr>"

theorem early_verification_blocks_success_witness:
  "\<exists>S1. verifyPaymentIntent (sample_world ''ongoing'') system_verifier sample_intent sample_pay = (Inr sample_intent, S1) \<and>
    verifyPaymentIntent ((sample_world ''success'')\<lparr>wd_env := sample_env\<lparr>ev_now := 1700000600000\<rparr>\<rparr>) system_verifier
      sample_intent S1 = (Inr sample_intent, S1)"
  using early_verification_blocks_success
    [of "sample_world ''ongoing''" sample_intent sample_pay "''ref''" "\<lparr>ta_status = ''ongoing'', ta_amount = Some 10000, ta_fee = None\<rparr>"
      "(sample_world ''success'')\<lparr>wd_env := sample_env\<lparr>ev_now := 1700000600000\<rparr>\<rparr>" system_verifier system_verifier]
  by (auto simp: sample_world_def sample_intent_def sample_pay_def mapTransactionStatus_def lower_char_def day_seconds_def
      sample_env_def Let_def)

definition payout_admin :: principal where
  "payout_admin = \<lparr>pc_admin = ''adm'', pc_tenant = ''ten'', pc_role = OPS\<rparr>"

theorem repeated_payout_is_sent_and_lost_witness:
  "\<exists>p S1 t. initiateAdminDisbursement (sample_world ''pending'') payout_admin ''loan'' None sample_pay = (Inr p, S1) \<and>
    initiateAdminDisbursement (sample_world ''pending'') payout_admin ''loan'' None S1 =
      (Inl (Internal ''Unique constraint failed''), S1\<lparr>ps_sent := ps_sent S1 @ [t]\<rparr>) \<and>
    tf_amount t = 10000 \<and> tf_recipient t = ''RCP''"
proof -
  have l: "find_loan ''ten'' ''loan'' (ps_db sample_pay) = Some sample_loan"
    by (simp add: find_loan_def sample_pay_def loan_db_def sample_loan_def)
  have key: "''outbound:'' @ init_key W a b c d \<noteq> ''k''" for W a b c d by simp
  have ref: "''payout_'' @ l_id sample_loan @ ''_'' @ x \<noteq> ''ref''" for x by simp
  have "\<exists>S1. initiateAdminDisbursement (sample_world ''pending'') payout_admin ''loan'' None sample_pay =
      (Inr (new_payout (sample_world ''pending'') payout_admin sample_loan (hd (ps_profiles sample_pay)) 10000
        \<lparr>tr_code = None, tr_reference = ''payout_loan_'' @ int_text (ev_now sample_env), tr_status = ''pending''\<rparr>
        (ev_cuid sample_env (db_seq loan_db)) (ev_cuid sample_env (Suc (db_seq loan_db)))), S1)"
    using l by (simp add: initiateAdminDisbursement_def assertCanDisburse_def payout_admin_def sample_pay_def sample_world_def
        fresh_id_def fresh_def create_intent_def create_payout_def outbound_intent_def sample_intent_def same_ref_def
        on_db_def emit_def payout_amount_def sample_loan_def js_round_def Let_def)
  then obtain S1 where p: "initiateAdminDisbursement (sample_world ''pending'') payout_admin ''loan'' None sample_pay =
      (Inr (new_payout (sample_world ''pending'') payout_admin sample_loan (hd (ps_profiles sample_pay)) 10000
        \<lparr>tr_code = None, tr_reference = ''payout_loan_'' @ int_text (ev_now sample_env), tr_status = ''pending''\<rparr>
        (ev_cuid sample_env (db_seq loan_db)) (ev_cuid sample_env (Suc (db_seq loan_db)))), S1)" ..
  from repeated_payout_is_sent_and_lost [OF p, of "sample_world ''pending''" payout_admin] p show ?thesis
    by (auto simp: payout_admin_def sample_world_def new_payout_def sample_pay_def)
qed

text \<open>A webhook with a signature, for a payment the provider then says has failed.\<close>

theorem webhook_needs_signature_and_confirmation_witness:
  "\<exists>S'. handlePaystackWebhook (sample_world ''failed'')
      (VObj [(''event'', VStr ''charge.success''), (''data'', VObj [(''reference'', VStr ''ref'')])]) (Some ''keybody'') ''body''
      sample_pay = (Inr False, S') \<and> S' \<noteq> sample_pay \<and> db_entries (ps_db S') = []"
proof -
  let ?v = "VObj [(''event'', VStr ''charge.success''), (''data'', VObj [(''reference'', VStr ''ref'')])]"
  let ?W = "sample_world ''failed''"
  have sig: "verifyWebhookSignature ?W ''body'' (Some ''keybody'')"
    by (simp add: verifyWebhookSignature_def sample_world_def trim_or_null_def trim_def is_space_def lower_char_def)
  have n: "normalizeWebhook ?v = PAYMENT_SUCCEEDED ''ref''" by (simp add: normalizeWebhook_def get_key_def)
  have failed: "mapTransactionStatus ''failed'' = PV_FAILED" "mapTransferStatus ''failed'' = PV_FAILED"
    by (simp_all add: mapTransactionStatus_def mapTransferStatus_def lower_char_def)
  obtain S' where h: "handlePaystackWebhook ?W ?v (Some ''keybody'') ''body'' sample_pay = (Inr False, S')" "S' \<noteq> sample_pay"
    using sig n failed
    by (simp add: handlePaystackWebhook_def verify_first_intent_def verifyPaymentIntent_def sample_pay_def sample_intent_def
        record_once_def day_seconds_def checked_payment_def read_intent_def set_intent_def sample_world_def)
  from webhook_needs_signature_and_confirmation [OF h] h failed show ?thesis
    by (auto simp: n sample_world_def sample_pay_def loan_db_def empty_db_def)
qed

end
