(* ===== verification/Notifications.thy ===== *)
theory Notifications
  imports Risk
begin

text \<open>
  Notifications, \<open>common/notifications/notifications.service.ts\<close>: a notification is written once per key
  together with a row of an outbox, a worker delivers the rows that are due, and readers list and mark
  what is addressed to them. The delivery itself is a log line of the code; whether the database aborts
  the transaction of a row is a parameter. Operations keep the fields a larger state adds to the
  \<open>mailbox\<close>. The older messages by SMS write one row of a log each.
\<close>

section \<open>Data\<close>

datatype audience = TO_BORROWER | TO_ADMIN

datatype delivery_channel = BY_APP | BY_EMAIL | BY_SMS

datatype notice_status = NS_QUEUED | NS_SENT | NS_FAILED | NS_READ

datatype outbox_status = OX_PENDING | OX_PROCESSING | OX_DONE | OX_FAILED

record notice =
  nt_id :: string
  nt_tenant :: string
  nt_audience :: audience
  nt_user :: string
  nt_channel :: delivery_channel
  nt_template :: string
  nt_title :: string
  nt_body :: string
  nt_data :: rule_value
  nt_status :: notice_status
  nt_key :: string
  nt_created :: int
  nt_read :: "int option"

record outbox_row =
  ox_id :: string
  ox_tenant :: string
  ox_notice :: string
  ox_status :: outbox_status
  ox_attempts :: nat
  ox_error :: "string option"
  ox_next :: int

datatype sms_status = SMS_SENT | SMS_FAILED | SMS_SKIPPED

record sms_log =
  sx_event :: string
  sx_provider :: string
  sx_recipient :: string
  sx_message :: string
  sx_status :: sms_status
  sx_error :: "string option"
  sx_metadata :: rule_value

record mailbox =
  mb_db :: db
  mb_notices :: "notice list"
  mb_outbox :: "outbox_row list"
  mb_sms :: "sms_log list"

record notice_input =
  ni_tenant :: string
  ni_audience :: audience
  ni_user :: string
  ni_channel :: delivery_channel
  ni_template :: string
  ni_title :: string
  ni_body :: string
  ni_data :: "rule_value option"
  ni_key :: string

datatype reader = READ_BORROWER borrower | READ_ADMIN principal

section \<open>Writing\<close>

definition fresh_row :: "env \<Rightarrow> 'a mailbox_scheme \<Rightarrow> string \<times> 'a mailbox_scheme" where
  "fresh_row E S = (case fresh E (mb_db S) of (i, D) \<Rightarrow> (i, S\<lparr>mb_db := D\<rparr>))"

definition enqueueOutbox :: "env \<Rightarrow> string \<Rightarrow> string \<Rightarrow> 'a mailbox_scheme \<Rightarrow> 'a mailbox_scheme" where
  "enqueueOutbox E t n S =
     (if \<exists>q \<in> set (mb_outbox S). ox_notice q = n
      then S\<lparr>mb_outbox := update_where (\<lambda>q. ox_notice q = n)
             (\<lambda>q. q\<lparr>ox_status := OX_PENDING, ox_next := ev_now E\<rparr>) (mb_outbox S)\<rparr>
      else (case fresh_row E S of (i, S1) \<Rightarrow>
        S1\<lparr>mb_outbox := mb_outbox S1 @ [\<lparr>ox_id = i, ox_tenant = t, ox_notice = n, ox_status = OX_PENDING,
          ox_attempts = 0, ox_error = None, ox_next = ev_now E\<rparr>]\<rparr>))"

definition new_notice :: "env \<Rightarrow> notice_input \<Rightarrow> string \<Rightarrow> notice" where
  "new_notice E x i =
     \<lparr>nt_id = i, nt_tenant = ni_tenant x, nt_audience = ni_audience x, nt_user = ni_user x,
      nt_channel = ni_channel x, nt_template = ni_template x, nt_title = trim (ni_title x),
      nt_body = trim (ni_body x), nt_data = (case ni_data x of Some v \<Rightarrow> v | None \<Rightarrow> VNull),
      nt_status = NS_QUEUED, nt_key = trim (ni_key x), nt_created = ev_now E, nt_read = None\<rparr>"

text \<open>
  One step here, as in the transactions of the callers. Called without one, which a manual fraud flag does, the
  source writes the notification and its row of the outbox in two statements; only a crash of the process comes
  between them, as the row of the outbox is that of an identifier just made.
\<close>

definition createNotification ::
  "env \<Rightarrow> notice_input \<Rightarrow> 'a mailbox_scheme \<Rightarrow> ((string \<times> bool) \<times> 'a mailbox_scheme) outcome" where
  "createNotification E x S =
     (if trim (ni_key x) = '''' then Inl (BadRequest ''idempotencyKey is required.'')
      else case find (\<lambda>n. nt_tenant n = ni_tenant x \<and> nt_key n = trim (ni_key x)) (mb_notices S) of
             Some n \<Rightarrow> Inr ((nt_id n, True), S)
           | None \<Rightarrow>
               (case fresh_row E S of (i, S1) \<Rightarrow>
                  Inr ((i, False), enqueueOutbox E (ni_tenant x) i
                    (S1\<lparr>mb_notices := mb_notices S1 @ [new_notice E x i]\<rparr>))))"

text \<open>One recipient after the other; the answers are not used.\<close>

definition notify_all :: "env \<Rightarrow> (string \<Rightarrow> notice_input) \<Rightarrow> string list \<Rightarrow> 'a mailbox_scheme \<Rightarrow> 'a mailbox_scheme outcome" where
  "notify_all E x = fold_outcome (\<lambda>u S. chain (createNotification E (x u) S) (\<lambda>(_, S1). Inr S1))"

definition user_list :: "string option \<Rightarrow> string list" where
  "user_list u = (case u of None \<Rightarrow> [] | Some i \<Rightarrow> if i = '''' then [] else [i])"

section \<open>Reading\<close>

definition addressed :: "reader \<Rightarrow> notice \<Rightarrow> bool" where
  "addressed P n \<longleftrightarrow>
     (case P of
        READ_ADMIN p \<Rightarrow> nt_tenant n = pc_tenant p \<and> nt_audience n = TO_ADMIN \<and> nt_user n = pc_admin p
      | READ_BORROWER b \<Rightarrow>
          nt_tenant n = bo_tenant b \<and> nt_audience n = TO_BORROWER \<and> nt_user n \<in> {bo_id b, bo_phone b})"

definition listNotifications ::
  "reader \<Rightarrow> int option \<Rightarrow> int option \<Rightarrow> notice_status option \<Rightarrow> 'a mailbox_scheme \<Rightarrow> notice list \<times> nat" where
  "listNotifications P limit offset status S =
     (let lim = min (max (case limit of Some n \<Rightarrow> n | None \<Rightarrow> 20) 1) 100;
          off = max (case offset of Some n \<Rightarrow> n | None \<Rightarrow> 0) 0;
          rows = filter (\<lambda>n. addressed P n \<and> (case status of None \<Rightarrow> True | Some s \<Rightarrow> nt_status n = s)) (mb_notices S)
      in (take (nat lim) (drop (nat off) (sort_key (\<lambda>n. - nt_created n) rows)), length rows))"

definition set_notice :: "string \<Rightarrow> (notice \<Rightarrow> notice) \<Rightarrow> 'a mailbox_scheme \<Rightarrow> 'a mailbox_scheme" where
  "set_notice i f S = S\<lparr>mb_notices := update_where (\<lambda>n. nt_id n = i) f (mb_notices S)\<rparr>"

definition markAsRead :: "env \<Rightarrow> string \<Rightarrow> reader \<Rightarrow> 'a mailbox_scheme \<Rightarrow> 'a mailbox_scheme outcome" where
  "markAsRead E i P S =
     (case find (\<lambda>n. nt_id n = i \<and> addressed P n) (mb_notices S) of
        None \<Rightarrow> Inl (NotFound ''Notification not found.'')
      | Some _ \<Rightarrow> Inr (set_notice i (\<lambda>n. n\<lparr>nt_status := NS_READ, nt_read := Some (ev_now E)\<rparr>) S))"

section \<open>Delivery\<close>

definition waiting :: "outbox_row \<Rightarrow> bool" where
  "waiting q \<longleftrightarrow> ox_status q \<in> {OX_PENDING, OX_FAILED}"

definition due_rows :: "env \<Rightarrow> nat \<Rightarrow> 'a mailbox_scheme \<Rightarrow> outbox_row list" where
  "due_rows E limit S = take limit (filter (\<lambda>q. waiting q \<and> ox_next q \<le> ev_now E) (mb_outbox S))"

definition set_row :: "string \<Rightarrow> (outbox_row \<Rightarrow> outbox_row) \<Rightarrow> 'a mailbox_scheme \<Rightarrow> 'a mailbox_scheme" where
  "set_row i f S = S\<lparr>mb_outbox := update_where (\<lambda>q. ox_id q = i) f (mb_outbox S)\<rparr>"

definition deliver :: "outbox_row \<Rightarrow> 'a mailbox_scheme \<Rightarrow> 'a mailbox_scheme" where
  "deliver row S =
     (case find (\<lambda>q. ox_id q = ox_id row \<and> waiting q) (mb_outbox S) of
        None \<Rightarrow> S
      | Some _ \<Rightarrow>
          set_row (ox_id row) (\<lambda>q. q\<lparr>ox_status := OX_DONE, ox_attempts := ox_attempts q + 1, ox_error := None\<rparr>)
            (set_notice (ox_notice row) (\<lambda>n. n\<lparr>nt_status := NS_SENT\<rparr>)
              (set_row (ox_id row) (\<lambda>q. q\<lparr>ox_status := OX_PROCESSING\<rparr>) S)))"

definition backoff :: "outbox_row \<Rightarrow> int" where
  "backoff row = min 60 ((int (ox_attempts row) + 1) * 2)"

definition put_off :: "env \<Rightarrow> string \<Rightarrow> outbox_row \<Rightarrow> 'a mailbox_scheme \<Rightarrow> 'a mailbox_scheme" where
  "put_off E message row S =
     set_row (ox_id row) (\<lambda>q. q\<lparr>ox_status := OX_FAILED, ox_attempts := ox_attempts q + 1, ox_error := Some message,
       ox_next := ev_now E + backoff row * 60000\<rparr>) S"

text \<open>\<open>aborts\<close> gives the message with which the database aborts the transaction of a row.\<close>

definition process_row ::
  "env \<Rightarrow> (string \<Rightarrow> string option) \<Rightarrow> outbox_row \<Rightarrow> (nat \<times> nat) \<times> 'a mailbox_scheme \<Rightarrow> (nat \<times> nat) \<times> 'a mailbox_scheme" where
  "process_row E aborts row s =
     (case s of ((processed, failed), S) \<Rightarrow>
        (case aborts (ox_id row) of
           None \<Rightarrow> ((processed + 1, failed), deliver row S)
         | Some message \<Rightarrow> ((processed, failed + 1), put_off E message row S)))"

definition processOutboxBatch ::
  "env \<Rightarrow> (string \<Rightarrow> string option) \<Rightarrow> nat \<Rightarrow> 'a mailbox_scheme \<Rightarrow> (nat \<times> nat) \<times> 'a mailbox_scheme" where
  "processOutboxBatch E aborts limit S = fold (process_row E aborts) (due_rows E limit S) ((0, 0), S)"

section \<open>The messages of the lending services\<close>

definition optional_text :: "string option \<Rightarrow> string \<Rightarrow> string" where
  "optional_text x other = (case x of Some s \<Rightarrow> s | None \<Rightarrow> other)"

definition optional_value :: "string option \<Rightarrow> rule_value" where
  "optional_value x = (case x of Some s \<Rightarrow> VStr s | None \<Rightarrow> VNull)"

definition app_notice ::
  "string \<Rightarrow> audience \<Rightarrow> string \<Rightarrow> string \<Rightarrow> string \<Rightarrow> string \<Rightarrow> rule_value \<Rightarrow> string \<Rightarrow> notice_input" where
  "app_notice t a template title body user data key =
     \<lparr>ni_tenant = t, ni_audience = a, ni_user = user, ni_channel = BY_APP, ni_template = template,
      ni_title = title, ni_body = body, ni_data = Some data, ni_key = key\<rparr>"

definition publishLoanStatusChanged ::
  "env \<Rightarrow> string \<Rightarrow> string \<Rightarrow> string option \<Rightarrow> string \<Rightarrow> string \<Rightarrow> string option \<Rightarrow> string list \<Rightarrow> 'a mailbox_scheme \<Rightarrow>
     'a mailbox_scheme outcome" where
  "publishLoanStatusChanged E t loan fromStatus toStatus history borrower admins S =
     (let data = VObj [(''loanApplicationId'', VStr loan), (''fromStatus'', optional_value fromStatus),
            (''toStatus'', VStr toStatus), (''historyId'', VStr history)];
          key = ''loan:'' @ loan @ '':transition:'' @ optional_text fromStatus ''null'' @ ''->'' @ toStatus @ '':'' @ history
      in chain (notify_all E (\<lambda>u. app_notice t TO_BORROWER ''LOAN_STATUS_CHANGED'' ''Loan status updated''
              (''Your loan application status changed to '' @ toStatus @ ''.'') u data (key @ '':borrower''))
            (user_list borrower) S) (\<lambda>S1.
         notify_all E (\<lambda>u. app_notice t TO_ADMIN ''LOAN_STATUS_CHANGED'' ''Loan status changed''
             (''Loan '' @ loan @ '' changed from '' @ optional_text fromStatus ''N/A'' @ '' to '' @ toStatus @ ''.'') u data
             (key @ '':admin:'' @ u))
           admins S1))"

definition publishRepaymentPosted ::
  "env \<Rightarrow> string \<Rightarrow> string \<Rightarrow> string \<Rightarrow> string option \<Rightarrow> string list \<Rightarrow> string \<Rightarrow> string \<Rightarrow> 'a mailbox_scheme \<Rightarrow>
     'a mailbox_scheme outcome" where
  "publishRepaymentPosted E t repayment loan borrower admins amount currency S =
     (let data = VObj [(''repaymentId'', VStr repayment), (''loanApplicationId'', VStr loan), (''amount'', VStr amount),
            (''currency'', VStr currency)];
          key = ''repayment:'' @ repayment
      in chain (notify_all E (\<lambda>u. app_notice t TO_BORROWER ''REPAYMENT_RECEIVED'' ''Repayment received''
              (''We received your repayment of '' @ amount @ '' '' @ currency @ ''.'') u data (key @ '':borrower''))
            (user_list borrower) S) (\<lambda>S1.
         notify_all E (\<lambda>u. app_notice t TO_ADMIN ''REPAYMENT_RECEIVED_ADMIN'' ''Repayment posted''
             (''Repayment '' @ repayment @ '' posted for loan '' @ loan @ ''.'') u data (key @ '':admin:'' @ u))
           admins S1))"

definition publishDisbursed ::
  "env \<Rightarrow> string \<Rightarrow> string \<Rightarrow> string \<Rightarrow> string option \<Rightarrow> string list \<Rightarrow> string \<Rightarrow> string \<Rightarrow> 'a mailbox_scheme \<Rightarrow>
     'a mailbox_scheme outcome" where
  "publishDisbursed E t disbursement loan borrower admins amount currency S =
     (let data = VObj [(''disbursementId'', VStr disbursement), (''loanApplicationId'', VStr loan), (''amount'', VStr amount),
            (''currency'', VStr currency)];
          key = ''disbursement:'' @ disbursement
      in chain (notify_all E (\<lambda>u. app_notice t TO_BORROWER ''DISBURSED'' ''Loan disbursed''
              (''Your loan of '' @ amount @ '' '' @ currency @ '' has been disbursed.'') u data (key @ '':borrower''))
            (user_list borrower) S) (\<lambda>S1.
         notify_all E (\<lambda>u. app_notice t TO_ADMIN ''DISBURSED_ADMIN'' ''Disbursement succeeded''
             (''Disbursement '' @ disbursement @ '' succeeded for loan '' @ loan @ ''.'') u data (key @ '':admin:'' @ u))
           admins S1))"

section \<open>The older messages\<close>

record sms_config =
  sc_app :: string
  sc_support :: string
  sc_provider :: string
  sc_enabled :: bool

text \<open>
  Nothing that can throw lies in the \<open>try\<close> of \<open>sendSms\<close>, so its \<open>FAILED\<close> branch is never taken; a log row
  the database refuses (\<open>logged\<close> false) is dropped.
\<close>

definition safeLog :: "bool \<Rightarrow> sms_log \<Rightarrow> 'a mailbox_scheme \<Rightarrow> 'a mailbox_scheme" where
  "safeLog logged row S = (if logged then S\<lparr>mb_sms := mb_sms S @ [row]\<rparr> else S)"

definition sendSms :: "sms_config \<Rightarrow> bool \<Rightarrow> string \<Rightarrow> string \<Rightarrow> string \<Rightarrow> rule_value \<Rightarrow> 'a mailbox_scheme \<Rightarrow> 'a mailbox_scheme" where
  "sendSms C logged event recipient message metadata S =
     safeLog logged \<lparr>sx_event = event, sx_provider = sc_provider C, sx_recipient = recipient, sx_message = message,
       sx_status = (if sc_enabled C then SMS_SENT else SMS_SKIPPED), sx_error = None, sx_metadata = metadata\<rparr> S"

definition sendOtpRequested :: "sms_config \<Rightarrow> bool \<Rightarrow> string \<Rightarrow> string \<Rightarrow> nat \<Rightarrow> 'a mailbox_scheme \<Rightarrow> 'a mailbox_scheme" where
  "sendOtpRequested C logged phone ref seconds =
     sendSms C logged ''OTP_REQUESTED'' phone
       (sc_app C @ '': OTP requested. Ref '' @ ref @ ''. Expires in '' @ nat_text seconds @ ''s. Need help? '' @ sc_support C)
       (VObj [(''otpRef'', VStr ref), (''expiresInSec'', VNum (of_nat seconds))])"

definition sendDisbursementSucceeded :: "sms_config \<Rightarrow> bool \<Rightarrow> string \<Rightarrow> string \<Rightarrow> nat \<Rightarrow> 'a mailbox_scheme \<Rightarrow> 'a mailbox_scheme" where
  "sendDisbursementSucceeded C logged phone loan kobo =
     sendSms C logged ''DISBURSEMENT_SUCCEEDED'' phone
       (sc_app C @ '': Your loan disbursement was successful. Loan '' @ loan @ '', amount '' @ nat_text kobo @ '' kobo.'')
       (VObj [(''loanId'', VStr loan), (''amountKobo'', VNum (of_nat kobo))])"

definition sendRepaymentSuccess :: "sms_config \<Rightarrow> bool \<Rightarrow> string \<Rightarrow> string \<Rightarrow> nat \<Rightarrow> 'a mailbox_scheme \<Rightarrow> 'a mailbox_scheme" where
  "sendRepaymentSuccess C logged phone loan kobo =
     sendSms C logged ''REPAYMENT_SUCCESS'' phone
       (sc_app C @ '': Repayment received for loan '' @ loan @ ''. Amount '' @ nat_text kobo @ '' kobo.'')
       (VObj [(''loanId'', VStr loan), (''amountKobo'', VNum (of_nat kobo))])"

definition sendOverdueReminder :: "sms_config \<Rightarrow> bool \<Rightarrow> string \<Rightarrow> string \<Rightarrow> 'a mailbox_scheme \<Rightarrow> 'a mailbox_scheme" where
  "sendOverdueReminder C logged phone loan =
     sendSms C logged ''OVERDUE_REMINDER'' phone
       (sc_app C @ '': Loan '' @ loan @ '' is overdue. Please make payment. Support: '' @ sc_support C)
       (VObj [(''loanId'', VStr loan)])"

section \<open>The mailbox\<close>

text \<open>
  The invariant: one notification per key, one row of the outbox per notification, made with it, which
  waits or has been done; and what is done is no longer queued.
\<close>

definition pair_ok :: "notice \<Rightarrow> outbox_row \<Rightarrow> bool" where
  "pair_ok n q \<longleftrightarrow> ox_notice q = nt_id n \<and> ox_tenant q = nt_tenant n \<and>
     (waiting q \<or> ox_status q = OX_DONE \<and> nt_status n \<noteq> NS_QUEUED)"

definition notice_key :: "notice \<Rightarrow> string \<times> string" where
  "notice_key n = (nt_tenant n, nt_key n)"

text \<open>The identifiers handed out so far.\<close>

definition issued :: "(nat \<Rightarrow> string) \<Rightarrow> nat \<Rightarrow> string \<Rightarrow> bool" where
  "issued c n i \<longleftrightarrow> i \<in> c ` {..<n}"

lemma issued_mono: "issued c n i \<Longrightarrow> n \<le> m \<Longrightarrow> issued c m i"
  by (auto simp: issued_def)

lemma issued_next: "n < m \<Longrightarrow> issued c m (c n)"
  by (simp add: issued_def)

lemma not_issued: "inj c \<Longrightarrow> n \<le> m \<Longrightarrow> \<not> issued c n (c m)"
  by (auto simp: issued_def dest: injD)

definition mailbox_ok :: "(nat \<Rightarrow> string) \<Rightarrow> 'a mailbox_scheme \<Rightarrow> bool" where
  "mailbox_ok c S \<longleftrightarrow>
     distinct (map notice_key (mb_notices S)) \<and> distinct (map nt_id (mb_notices S)) \<and>
     distinct (map ox_id (mb_outbox S)) \<and> list_all2 pair_ok (mb_notices S) (mb_outbox S) \<and>
     list_all (issued c (db_seq (mb_db S))) (map nt_id (mb_notices S)) \<and>
     list_all (issued c (db_seq (mb_db S))) (map ox_id (mb_outbox S))"

lemma list_all2_partner:
  assumes "list_all2 P xs ys" "y \<in> set ys"
  obtains x where "x \<in> set xs" "P x y"
  using assms by (metis in_set_conv_nth list_all2_conv_all_nth)

lemma mailbox_okD:
  assumes "mailbox_ok c S"
  shows "distinct (map notice_key (mb_notices S))" "distinct (map nt_id (mb_notices S))"
    "distinct (map ox_id (mb_outbox S))" "list_all2 pair_ok (mb_notices S) (mb_outbox S)"
    "n \<in> set (mb_notices S) \<Longrightarrow> issued c (db_seq (mb_db S)) (nt_id n)"
    "q \<in> set (mb_outbox S) \<Longrightarrow> issued c (db_seq (mb_db S)) (ox_id q)"
    "q \<in> set (mb_outbox S) \<Longrightarrow> issued c (db_seq (mb_db S)) (ox_notice q)"
proof -
  show "issued c (db_seq (mb_db S)) (ox_notice q)" if "q \<in> set (mb_outbox S)"
  proof -
    have "list_all2 pair_ok (mb_notices S) (mb_outbox S)" using assms by (simp add: mailbox_ok_def)
    from this that obtain n where "n \<in> set (mb_notices S)" "pair_ok n q" by (rule list_all2_partner)
    with assms show ?thesis by (simp add: mailbox_ok_def pair_ok_def list_all_iff)
  qed
qed (use assms in \<open>simp_all add: mailbox_ok_def list_all_iff\<close>)

text \<open>A new notification with its new row.\<close>

lemma create_cases:
  assumes "createNotification E x S = Inr (r, S')" "\<forall>q \<in> set (mb_outbox S). ox_notice q \<noteq> ev_cuid E (db_seq (mb_db S))"
  obtains (again) n where "find (\<lambda>n. nt_tenant n = ni_tenant x \<and> nt_key n = trim (ni_key x)) (mb_notices S) = Some n" "S' = S"
  | (new) "find (\<lambda>n. nt_tenant n = ni_tenant x \<and> nt_key n = trim (ni_key x)) (mb_notices S) = None"
    "mb_notices S' = mb_notices S @ [new_notice E x (ev_cuid E (db_seq (mb_db S)))]"
    "mb_outbox S' = mb_outbox S @ [\<lparr>ox_id = ev_cuid E (Suc (db_seq (mb_db S))), ox_tenant = ni_tenant x,
       ox_notice = ev_cuid E (db_seq (mb_db S)), ox_status = OX_PENDING, ox_attempts = 0, ox_error = None, ox_next = ev_now E\<rparr>]"
    "db_seq (mb_db S') = Suc (Suc (db_seq (mb_db S)))"
proof (cases "find (\<lambda>n. nt_tenant n = ni_tenant x \<and> nt_key n = trim (ni_key x)) (mb_notices S)")
  case (Some n)
  with assms(1) have "S' = S" by (simp add: createNotification_def split: if_splits)
  with Some show thesis by (rule again)
next
  case None
  have q: "\<not> (\<exists>q \<in> set (mb_outbox S). ox_notice q = ev_cuid E (db_seq (mb_db S)))" using assms(2) by blast
  have "S' = enqueueOutbox E (ni_tenant x) (ev_cuid E (db_seq (mb_db S)))
      (S\<lparr>mb_db := mb_db S\<lparr>db_seq := Suc (db_seq (mb_db S))\<rparr>,
         mb_notices := mb_notices S @ [new_notice E x (ev_cuid E (db_seq (mb_db S)))]\<rparr>)"
    using assms(1) None by (simp add: createNotification_def fresh_row_def fresh_def split: if_splits)
  with None q show thesis by (intro new) (simp_all add: enqueueOutbox_def fresh_row_def fresh_def)
qed

lemma create_ok:
  assumes "mailbox_ok c S" "inj c" "ev_cuid E = c" "createNotification E x S = Inr (r, S')"
  shows "mailbox_ok c S'"
proof -
  let ?k = "db_seq (mb_db S)"
  have no: "\<forall>q \<in> set (mb_outbox S). ox_notice q \<noteq> ev_cuid E ?k"
    using mailbox_okD(7) [OF assms(1)] not_issued [OF assms(2) order_refl, of ?k] assms(3) by metis
  from assms(4) no show ?thesis
  proof (cases rule: create_cases)
    case new
    have key: "(ni_tenant x, trim (ni_key x)) \<notin> notice_key ` set (mb_notices S)"
      using new(1) by (auto simp: find_None_iff notice_key_def)
    have i: "c ?k \<notin> nt_id ` set (mb_notices S)"
      using mailbox_okD(5) [OF assms(1)] not_issued [OF assms(2) order_refl, of ?k] by auto
    have j: "c (Suc ?k) \<notin> ox_id ` set (mb_outbox S)"
      using mailbox_okD(6) [OF assms(1)] not_issued [OF assms(2) le_SucI [OF order_refl], of ?k] by auto
    have ids: "list_all (issued c (Suc (Suc ?k))) xs" if "list_all (issued c ?k) xs" for xs
      using that issued_mono [of c ?k _ "Suc (Suc ?k)"] by (simp add: list_all_iff)
    have n: "notice_key (new_notice E x (c ?k)) = (ni_tenant x, trim (ni_key x))" "nt_id (new_notice E x (c ?k)) = c ?k"
      "nt_tenant (new_notice E x (c ?k)) = ni_tenant x"
      by (simp_all add: new_notice_def notice_key_def)
    show ?thesis
      using assms(1) key i j ids unfolding mailbox_ok_def new(2-4) assms(3)
      by (simp add: n list_all2_appendI pair_ok_def waiting_def issued_next)
  qed (use assms(1) in simp)
qed

lemma read_ok:
  assumes "mailbox_ok c S" "markAsRead E i P S = Inr S'"
  shows "mailbox_ok c S'"
proof -
  have s: "S' = set_notice i (\<lambda>n. n\<lparr>nt_status := NS_READ, nt_read := Some (ev_now E)\<rparr>) S"
    using assms(2) by (simp add: markAsRead_def split: option.splits)
  have "list_all2 pair_ok (update_where (\<lambda>n. nt_id n = i) (\<lambda>n. n\<lparr>nt_status := NS_READ, nt_read := Some (ev_now E)\<rparr>) ns) qs"
    if "list_all2 pair_ok ns qs" for ns qs
    using that by (induction rule: list_all2_induct) (auto simp: pair_ok_def)
  with assms(1) show ?thesis
    by (auto simp: s set_notice_def mailbox_ok_def notice_key_def map_update_where set_update_where)
qed

text \<open>What processing a row may change: statuses, to \<open>SENT\<close> and to done or failed.\<close>

definition row_key :: "outbox_row \<Rightarrow> string \<times> string \<times> string" where
  "row_key q = (ox_id q, ox_notice q, ox_tenant q)"

definition known_row :: "outbox_row \<Rightarrow> 'a mailbox_scheme \<Rightarrow> bool" where
  "known_row row S \<longleftrightarrow> (\<forall>q \<in> set (mb_outbox S). ox_id q = ox_id row \<longrightarrow> ox_notice q = ox_notice row)"

lemma known_row_cong:
  assumes "map row_key (mb_outbox S') = map row_key (mb_outbox S)" "known_row row S"
  shows "known_row row S'"
proof -
  have "row_key ` set (mb_outbox S') = row_key ` set (mb_outbox S)" using assms(1) by (metis list.set_map)
  with assms(2) show ?thesis unfolding known_row_def row_key_def by (smt (verit) imageE image_eqI prod.inject)
qed

definition settled_row :: "env \<Rightarrow> (string \<Rightarrow> string option) \<Rightarrow> outbox_row \<Rightarrow> outbox_row \<Rightarrow> outbox_row" where
  "settled_row E aborts row q =
     (case aborts (ox_id row) of
        None \<Rightarrow> q\<lparr>ox_status := OX_DONE, ox_attempts := ox_attempts q + 1, ox_error := None\<rparr>
      | Some m \<Rightarrow> q\<lparr>ox_status := OX_FAILED, ox_attempts := ox_attempts q + 1, ox_error := Some m,
                 ox_next := ev_now E + backoff row * 60000\<rparr>)"

lemma settled_row_key [simp]: "row_key (settled_row E aborts row q) = row_key q"
  by (simp add: settled_row_def row_key_def split: option.splits)

lemma set_row_twice: "(\<And>q. ox_id (f q) = ox_id q) \<Longrightarrow> set_row i g (set_row i f S) = set_row i (\<lambda>q. g (f q)) S"
  by (simp add: set_row_def update_where_twice)

lemma set_row_notice: "set_row i f (set_notice j g S) = set_notice j g (set_row i f S)"
  by (cases S) (simp add: set_row_def set_notice_def)

definition settle_pair :: "env \<Rightarrow> (string \<Rightarrow> string option) \<Rightarrow> outbox_row \<Rightarrow> 'a mailbox_scheme \<Rightarrow> 'a mailbox_scheme" where
  "settle_pair E aborts row S =
     (let S1 = set_row (ox_id row) (settled_row E aborts row) S
      in if aborts (ox_id row) = None then set_notice (ox_notice row) (\<lambda>n. n\<lparr>nt_status := NS_SENT\<rparr>) S1 else S1)"

lemma process_row_eq:
  assumes p: "process_row E aborts row (k, S) = (k', S')"
  shows "S' = S \<and> (\<forall>q \<in> set (mb_outbox S). ox_id q = ox_id row \<longrightarrow> \<not> waiting q) \<or> S' = settle_pair E aborts row S"
proof (cases "aborts (ox_id row)")
  case None
  have e: "settled_row E aborts row = (\<lambda>q. q\<lparr>ox_status := OX_DONE, ox_attempts := Suc (ox_attempts q), ox_error := None\<rparr>)"
    by (intro ext) (simp add: settled_row_def None)
  show ?thesis
  proof (cases "find (\<lambda>q. ox_id q = ox_id row \<and> waiting q) (mb_outbox S)")
    case none: None
    with p None have "S' = S" by (cases k) (simp add: process_row_def deliver_def)
    with none show ?thesis by (auto simp: find_None_iff)
  next
    case (Some q)
    with p None show ?thesis
      by (cases k) (simp add: process_row_def deliver_def set_row_notice set_row_twice e settle_pair_def)
  qed
next
  case (Some m)
  have e: "settled_row E aborts row = (\<lambda>q. q\<lparr>ox_status := OX_FAILED, ox_attempts := Suc (ox_attempts q), ox_error := Some m,
      ox_next := ev_now E + backoff row * 60000\<rparr>)"
    by (intro ext) (simp add: settled_row_def Some)
  show ?thesis using p Some by (cases k) (simp add: process_row_def put_off_def e settle_pair_def)
qed

lemma settle_pair_fields:
  "mb_db (settle_pair E aborts row S) = mb_db S"
  "mb_outbox (settle_pair E aborts row S) = update_where (\<lambda>q. ox_id q = ox_id row) (settled_row E aborts row) (mb_outbox S)"
  "mb_notices (settle_pair E aborts row S) = update_where (\<lambda>n. nt_id n = ox_notice row)
     (\<lambda>n. if aborts (ox_id row) = None then n\<lparr>nt_status := NS_SENT\<rparr> else n) (mb_notices S)"
  by (cases "aborts (ox_id row)"; simp add: settle_pair_def set_row_def set_notice_def update_where_def cong: if_cong)+

lemma set_notice_fields: "mb_notices (set_notice i f S) = update_where (\<lambda>n. nt_id n = i) f (mb_notices S)"
  by (simp add: set_notice_def)

lemma settled_row_fields [simp]:
  "ox_id (settled_row E aborts row q) = ox_id q" "ox_notice (settled_row E aborts row q) = ox_notice q"
  "ox_tenant (settled_row E aborts row q) = ox_tenant q"
  by (simp_all add: settled_row_def split: option.splits)

lemma settle_pairs_ok:
  assumes "list_all2 pair_ok ns qs" "\<forall>q \<in> set qs. ox_id q = ox_id row \<longrightarrow> ox_notice q = ox_notice row"
  shows "list_all2 pair_ok
    (update_where (\<lambda>n. nt_id n = ox_notice row) (\<lambda>n. if aborts (ox_id row) = None then n\<lparr>nt_status := NS_SENT\<rparr> else n) ns)
    (update_where (\<lambda>q. ox_id q = ox_id row) (settled_row E aborts row) qs)"
  using assms
proof (induction rule: list_all2_induct)
  case (Cons n ns q qs)
  then show ?case by (cases "aborts (ox_id row)") (auto simp: pair_ok_def settled_row_def waiting_def)
qed simp

lemma process_row_ok:
  assumes "mailbox_ok c S" "known_row row S" "process_row E aborts row (k, S) = (k', S')"
  shows "mailbox_ok c S' \<and> map row_key (mb_outbox S') = map row_key (mb_outbox S)"
  using process_row_eq [OF assms(3)]
proof
  assume s: "S' = settle_pair E aborts row S"
  have ids: "map row_key (mb_outbox S') = map row_key (mb_outbox S)" "map ox_id (mb_outbox S') = map ox_id (mb_outbox S)"
    "map notice_key (mb_notices S') = map notice_key (mb_notices S)" "map nt_id (mb_notices S') = map nt_id (mb_notices S)"
    by (simp_all add: s settle_pair_fields map_update_where notice_key_def row_key_def)
  have "list_all2 pair_ok (mb_notices S') (mb_outbox S')"
    unfolding s settle_pair_fields using mailbox_okD(4) [OF assms(1)] assms(2) [unfolded known_row_def] by (rule settle_pairs_ok)
  with assms(1) show ?thesis unfolding mailbox_ok_def ids by (simp add: s settle_pair_fields(1))
qed (use assms(1) in simp)

lemma process_rows_ok:
  assumes "mailbox_ok c S" "\<forall>r \<in> set rs. known_row r S" "fold (process_row E aborts) rs (k, S) = (k', S')"
  shows "mailbox_ok c S'"
  using assms
proof (induction rs arbitrary: k S)
  case (Cons r rs)
  obtain k1 S1 where p: "process_row E aborts r (k, S) = (k1, S1)" by (cases "process_row E aborts r (k, S)")
  have ok: "mailbox_ok c S1" "map row_key (mb_outbox S1) = map row_key (mb_outbox S)"
    using process_row_ok [OF Cons.prems(1) _ p] Cons.prems(2) by simp_all
  have "\<forall>q \<in> set rs. known_row q S1" using Cons.prems(2) known_row_cong [OF ok(2)] by simp
  with ok(1) show ?case using Cons.IH Cons.prems(3) p by simp
qed simp

lemma due_rowsD:
  assumes "r \<in> set (due_rows E limit S)"
  shows "r \<in> set (mb_outbox S)" "waiting r"
  using in_set_takeD [OF assms [unfolded due_rows_def]] by simp_all

lemma due_distinct: "distinct (map ox_id (mb_outbox S)) \<Longrightarrow> distinct (map ox_id (due_rows E limit S))"
  unfolding due_rows_def by (simp flip: take_map add: distinct_map_filter)

lemma due_known: "mailbox_ok c S \<Longrightarrow> r \<in> set (due_rows E limit S) \<Longrightarrow> known_row r S"
  unfolding known_row_def using due_rowsD(1) mailbox_okD(3) by (metis distinct_map inj_onD)

lemma process_ok:
  assumes "mailbox_ok c S" "processOutboxBatch E aborts limit S = (k, S')"
  shows "mailbox_ok c S'"
  by (rule process_rows_ok [OF assms(1) _ assms(2) [unfolded processOutboxBatch_def]]) (use due_known [OF assms(1)] in blast)

section \<open>What a batch delivers\<close>

lemma process_row_keys:
  assumes "process_row E aborts row (k, S) = (k', S')"
  shows "map (\<lambda>n. (nt_id n, nt_read n)) (mb_notices S') = map (\<lambda>n. (nt_id n, nt_read n)) (mb_notices S)"
  using process_row_eq [OF assms] by (auto simp: settle_pair_fields map_update_where)

lemma process_rows_keys:
  assumes "fold (process_row E aborts) rs (k, S) = (k', S')"
  shows "map (\<lambda>n. (nt_id n, nt_read n)) (mb_notices S') = map (\<lambda>n. (nt_id n, nt_read n)) (mb_notices S)"
  using assms
proof (induction rs arbitrary: k S)
  case (Cons r rs)
  obtain k1 S1 where p: "process_row E aborts r (k, S) = (k1, S1)" by (cases "process_row E aborts r (k, S)")
  then show ?case using Cons.IH [of k1 S1] Cons.prems process_row_keys [OF p] by simp
qed simp

definition all_sent :: "string \<Rightarrow> 'a mailbox_scheme \<Rightarrow> bool" where
  "all_sent i S \<longleftrightarrow> (\<forall>n \<in> set (mb_notices S). nt_id n = i \<longrightarrow> nt_status n = NS_SENT)"

lemma process_row_sent:
  assumes "process_row E aborts row (k, S) = (k', S')" "all_sent i S"
  shows "all_sent i S'"
  using process_row_eq [OF assms(1)] assms(2) by (auto simp: all_sent_def settle_pair_fields set_update_where split: if_splits)

lemma process_rows_sent:
  assumes "fold (process_row E aborts) rs (k, S) = (k', S')" "all_sent i S"
  shows "all_sent i S'"
  using assms
proof (induction rs arbitrary: k S)
  case (Cons r rs)
  obtain k1 S1 where p: "process_row E aborts r (k, S) = (k1, S1)" by (cases "process_row E aborts r (k, S)")
  then show ?case using Cons.IH [of k1 S1] Cons.prems process_row_sent [OF p] by simp
qed simp

lemma update_where_those:
  assumes "\<And>q. P q \<Longrightarrow> Q (f q)"
  shows "\<forall>x \<in> set (update_where P f rows). P x \<longrightarrow> Q x"
  by (induction rows) (auto simp: assms)

lemma update_where_other: "x \<in> set rows \<Longrightarrow> \<not> P x \<Longrightarrow> x \<in> set (update_where P f rows)"
  by (auto simp: set_update_where intro: bexI [of _ x])

lemma process_rows_send:
  assumes "fold (process_row E aborts) rs (k, S) = (k', S')" "r \<in> set rs" "distinct (map ox_id rs)"
    and "\<exists>q \<in> set (mb_outbox S). ox_id q = ox_id r \<and> waiting q" and "aborts (ox_id r) = None"
  shows "all_sent (ox_notice r) S'"
  using assms(1-4)
proof (induction rs arbitrary: k S)
  case (Cons a rs)
  obtain k1 S1 where p: "process_row E aborts a (k, S) = (k1, S1)" by (cases "process_row E aborts a (k, S)")
  with Cons.prems(1) have rest: "fold (process_row E aborts) rs (k1, S1) = (k', S')" by simp
  show ?case
  proof (cases "a = r")
    case True
    with process_row_eq [OF p] Cons.prems(4) have "S1 = settle_pair E aborts r S" by auto
    moreover have "all_sent (ox_notice r) (settle_pair E aborts r S)"
      unfolding all_sent_def settle_pair_fields by (rule update_where_those) (simp add: assms(5))
    ultimately have "all_sent (ox_notice r) S1" by simp
    with rest show ?thesis by (rule process_rows_sent)
  next
    case False
    with Cons.prems(2,3) have r: "r \<in> set rs" "distinct (map ox_id rs)" by simp_all
    with Cons.prems(3) have n: "ox_id r \<noteq> ox_id a"
      by (metis distinct.simps(2) image_eqI list.set_map list.simps(9))
    have "\<exists>q \<in> set (mb_outbox S1). ox_id q = ox_id r \<and> waiting q"
    proof -
      obtain q where "q \<in> set (mb_outbox S)" "ox_id q = ox_id r" "waiting q" using Cons.prems(4) by blast
      moreover from this n have "q \<in> set (update_where (\<lambda>q. ox_id q = ox_id a) (settled_row E aborts a) (mb_outbox S))"
        by (intro update_where_other) simp_all
      ultimately have "q \<in> set (mb_outbox S1)" using process_row_eq [OF p] by (auto simp: settle_pair_fields)
      with \<open>ox_id q = ox_id r\<close> \<open>waiting q\<close> show ?thesis by blast
    qed
    with rest r show ?thesis by (rule Cons.IH)
  qed
qed simp

lemma batch_delivers:
  assumes "mailbox_ok c S" "processOutboxBatch E aborts limit S = (k, S')" "r \<in> set (due_rows E limit S)"
    and "aborts (ox_id r) = None"
  shows "all_sent (ox_notice r) S'"
  by (rule process_rows_send [OF assms(2) [unfolded processOutboxBatch_def] assms(3)
        due_distinct [OF mailbox_okD(3) [OF assms(1)]] _ assms(4)]) (use due_rowsD [OF assms(3)] in blast)

text \<open>
  C38. A mark of reading is lost to the delivery: when a notification is read before the worker delivers
  it, the worker sets its status to sent again. The reader finds it unread, although the time of the
  reading is still there.
\<close>

theorem delivery_takes_read_mark_back:
  assumes "mailbox_ok c S" and "markAsRead E i P S = Inr S1" and "r \<in> set (due_rows E' limit S1)" and "ox_notice r = i"
    and "aborts (ox_id r) = None" and "processOutboxBatch E' aborts limit S1 = (k, S2)"
  shows "\<exists>n. find (\<lambda>n. nt_id n = i) (mb_notices S2) = Some n \<and> nt_status n = NS_SENT \<and> nt_read n = Some (ev_now E)"
proof -
  from assms(2) obtain m where m: "find (\<lambda>n. nt_id n = i \<and> addressed P n) (mb_notices S) = Some m"
    and S1: "S1 = set_notice i (\<lambda>n. n\<lparr>nt_status := NS_READ, nt_read := Some (ev_now E)\<rparr>) S"
    by (auto simp: markAsRead_def split: option.splits)
  have sent: "all_sent i S2"
    using batch_delivers [OF read_ok [OF assms(1,2)] assms(6,3,5)] assms(4) by simp
  let ?k = "\<lambda>n. (nt_id n, nt_read n)"
  have keys: "?k ` set (mb_notices S2) = ?k ` set (mb_notices S1)"
    using process_rows_keys [OF assms(6) [unfolded processOutboxBatch_def]] by (metis list.set_map)
  have read: "\<forall>n \<in> set (mb_notices S1). nt_id n = i \<longrightarrow> nt_read n = Some (ev_now E)"
    unfolding S1 set_notice_fields by (rule update_where_those) simp
  have "m\<lparr>nt_status := NS_READ, nt_read := Some (ev_now E)\<rparr> \<in> set (mb_notices S1)"
    unfolding S1 set_notice_fields set_update_where using find_SomeD [OF m] by (intro bexI [of _ m]) simp_all
  then have "?k (m\<lparr>nt_status := NS_READ, nt_read := Some (ev_now E)\<rparr>) \<in> ?k ` set (mb_notices S1)" by (rule imageI)
  then have "(i, Some (ev_now E)) \<in> ?k ` set (mb_notices S1)" using find_SomeD [OF m] by simp
  then obtain n0 where "n0 \<in> set (mb_notices S2)" "nt_id n0 = i" using keys by (metis (mono_tags) imageE prod.inject)
  then obtain n where n: "find (\<lambda>n. nt_id n = i) (mb_notices S2) = Some n"
    by (cases "find (\<lambda>n. nt_id n = i) (mb_notices S2)") (auto simp: find_None_iff)
  then have in2: "n \<in> set (mb_notices S2)" "nt_id n = i" by (auto dest: find_SomeD)
  then have "(i, nt_read n) \<in> ?k ` set (mb_notices S1)" using keys by (metis (mono_tags) image_eqI)
  with read have "nt_read n = Some (ev_now E)" by auto
  with n in2 sent show ?thesis by (simp add: all_sent_def)
qed

section \<open>Any sequence of requests\<close>

inductive mail_step :: "(nat \<Rightarrow> string) \<Rightarrow> mailbox \<Rightarrow> mailbox \<Rightarrow> bool" for c where
  writes: "ev_cuid E = c \<Longrightarrow> createNotification E x S = Inr (r, S') \<Longrightarrow> mail_step c S S'"
| reads: "markAsRead E i P S = Inr S' \<Longrightarrow> mail_step c S S'"
| works: "processOutboxBatch E aborts limit S = (k, S') \<Longrightarrow> mail_step c S S'"

lemma mail_step_ok: "mail_step c S S' \<Longrightarrow> inj c \<Longrightarrow> mailbox_ok c S \<Longrightarrow> mailbox_ok c S'"
  by (induction rule: mail_step.induct) (auto intro: create_ok read_ok process_ok)

lemma mail_steps_ok: "(mail_step c)\<^sup>*\<^sup>* S S' \<Longrightarrow> inj c \<Longrightarrow> mailbox_ok c S \<Longrightarrow> mailbox_ok c S'"
  by (induction rule: rtranclp_induct) (auto intro: mail_step_ok)

definition empty_mailbox :: "db \<Rightarrow> mailbox" where
  "empty_mailbox D = \<lparr>mb_db = D, mb_notices = [], mb_outbox = [], mb_sms = []\<rparr>"

lemma empty_mailbox_ok [simp]: "mailbox_ok c (empty_mailbox D)"
  by (simp add: mailbox_ok_def empty_mailbox_def)

text \<open>
  C37. No notification is lost and none is doubled: whatever is written, read and delivered in any order,
  a notification is the only one of its key, and it has exactly one row of the outbox, which waits to be
  delivered or was, and then the notification is no longer queued.
\<close>

theorem every_notification_is_due_or_delivered:
  assumes "inj c" and "(mail_step c)\<^sup>*\<^sup>* (empty_mailbox D) S" and "n \<in> set (mb_notices S)"
  shows "(\<exists>!q. q \<in> set (mb_outbox S) \<and> ox_notice q = nt_id n) \<and>
    (\<exists>q \<in> set (mb_outbox S). ox_notice q = nt_id n \<and> (waiting q \<or> ox_status q = OX_DONE \<and> nt_status n \<noteq> NS_QUEUED)) \<and>
    (\<forall>m \<in> set (mb_notices S). nt_tenant m = nt_tenant n \<and> nt_key m = nt_key n \<longrightarrow> m = n)"
proof -
  have ok: "mailbox_ok c S" by (rule mail_steps_ok [OF assms(2,1) empty_mailbox_ok])
  note facts = mailbox_okD(1-4) [OF ok]
  have ids: "map ox_notice (mb_outbox S) = map nt_id (mb_notices S)"
    using facts(4) by (induction rule: list_all2_induct) (auto simp: pair_ok_def)
  obtain q where q: "q \<in> set (mb_outbox S)" "pair_ok n q"
    using facts(4) assms(3) by (metis in_set_conv_nth list_all2_conv_all_nth)
  have "q' = q" if "q' \<in> set (mb_outbox S)" "ox_notice q' = nt_id n" for q'
    using facts(2) that q unfolding ids [symmetric] pair_ok_def by (metis distinct_map inj_onD)
  moreover have "m = n" if "m \<in> set (mb_notices S)" "notice_key m = notice_key n" for m
    using facts(1) that assms(3) by (metis distinct_map inj_onD)
  ultimately show ?thesis using q unfolding pair_ok_def notice_key_def by auto
qed

section \<open>Instances\<close>

definition sample_mail :: notice_input where
  "sample_mail = app_notice ''ten'' TO_ADMIN ''T'' ''Title'' ''Body'' ''adm'' VNull ''k''"

definition sample_mailbox :: mailbox where
  "sample_mailbox =
     (case createNotification sample_env sample_mail (empty_mailbox empty_db) of Inr (_, S) \<Rightarrow> S | Inl _ \<Rightarrow> empty_mailbox empty_db)"

lemma trim_sample [simp]: "trim ''k'' = ''k''"
  by (simp add: trim_def is_space_def)

lemma sample_mailbox_written:
  "createNotification sample_env sample_mail (empty_mailbox empty_db) = Inr (('''', False), sample_mailbox)"
  by (simp add: sample_mailbox_def createNotification_def sample_mail_def app_notice_def empty_mailbox_def fresh_row_def
      fresh_def enqueueOutbox_def empty_db_def sample_env_def)

lemma sample_mailbox_rows:
  "mb_notices sample_mailbox = [new_notice sample_env sample_mail '''']"
  "mb_outbox sample_mailbox = [\<lparr>ox_id = ''x'', ox_tenant = ''ten'', ox_notice = '''', ox_status = OX_PENDING, ox_attempts = 0,
     ox_error = None, ox_next = 1700000000000\<rparr>]"
  by (simp_all add: sample_mailbox_def createNotification_def sample_mail_def app_notice_def empty_mailbox_def fresh_row_def
      fresh_def enqueueOutbox_def empty_db_def sample_env_def)

lemma sample_mailbox_ok: "mailbox_ok (ev_cuid sample_env) sample_mailbox"
  by (rule create_ok [OF empty_mailbox_ok sample_env_inj refl sample_mailbox_written])

definition sample_reader :: reader where
  "sample_reader = READ_ADMIN \<lparr>pc_admin = ''adm'', pc_tenant = ''ten'', pc_role = OPS\<rparr>"

theorem delivery_takes_read_mark_back_witness:
  "\<exists>S1 k S2 n. markAsRead sample_env '''' sample_reader sample_mailbox = Inr S1 \<and>
     processOutboxBatch sample_env (\<lambda>i. None) 50 S1 = (k, S2) \<and>
     find (\<lambda>n. nt_id n = '''') (mb_notices S2) = Some n \<and> nt_status n = NS_SENT \<and> nt_read n = Some 1700000000000"
proof -
  obtain S1 where r: "markAsRead sample_env '''' sample_reader sample_mailbox = Inr S1" "mb_outbox S1 = mb_outbox sample_mailbox"
    by (simp add: markAsRead_def sample_mailbox_rows sample_reader_def addressed_def new_notice_def sample_mail_def
        app_notice_def set_notice_def)
  obtain k S2 where p: "processOutboxBatch sample_env (\<lambda>i. None) 50 S1 = (k, S2)"
    by (cases "processOutboxBatch sample_env (\<lambda>i. None) 50 S1")
  have "hd (mb_outbox sample_mailbox) \<in> set (due_rows sample_env 50 S1)"
    by (simp add: due_rows_def r(2) sample_mailbox_rows waiting_def sample_env_def)
  from delivery_takes_read_mark_back [OF sample_mailbox_ok r(1) this _ _ p] r(1) p show ?thesis
    by (auto simp: sample_mailbox_rows sample_env_def)
qed

theorem every_notification_is_due_or_delivered_witness:
  "\<exists>n q. mb_notices sample_mailbox = [n] \<and> q \<in> set (mb_outbox sample_mailbox) \<and> ox_notice q = nt_id n \<and> waiting q"
proof -
  have "(mail_step (ev_cuid sample_env))\<^sup>*\<^sup>* (empty_mailbox empty_db) sample_mailbox"
    by (rule r_into_rtranclp, rule mail_step.writes [OF refl sample_mailbox_written])
  then obtain q where "q \<in> set (mb_outbox sample_mailbox)" "ox_notice q = ''''"
    "waiting q \<or> nt_status (new_notice sample_env sample_mail '''') \<noteq> NS_QUEUED"
    using every_notification_is_due_or_delivered [OF sample_env_inj, of empty_db sample_mailbox "new_notice sample_env sample_mail ''''"]
    by (auto simp: new_notice_def sample_mailbox_rows)
  then show ?thesis by (auto simp: new_notice_def sample_mailbox_rows)
qed

end
