(* ===== verification/CaseManagement.thy ===== *)
theory CaseManagement
  imports Notifications LoanApplications TextCodec
begin

text \<open>
  Cases of borrowers, \<open>modules/case-management/case-management.service.ts\<close>: complaints and requests
  with a deadline, taken through their states by admins, with messages of both sides and notifications
  of \<open>Notifications\<close> for those who have to act. The desk is a mailbox with the tables of the cases.
  Nothing the operations ask of the mailbox can throw, as their keys are not empty.
\<close>

section \<open>Data\<close>

datatype case_type = COMPLAINT | DISPUTE | REQUEST

datatype ticket_status =
  TS_OPEN | TS_IN_REVIEW | TS_AWAITING_BORROWER | TS_ESCALATED | TS_RESOLVED | TS_REJECTED | TS_CLOSED

datatype case_priority = PR_LOW | PR_MEDIUM | PR_HIGH | PR_URGENT

datatype resolution_code =
    REFUND_ISSUED | WAIVER_GRANTED | PAYMENT_REVERSED | CORRECTION_MADE | NO_ACTION_REQUIRED | FRAUD_CONFIRMED
  | FRAUD_NOT_CONFIRMED | OTHER_RESOLUTION

datatype visibility = VIS_INTERNAL | VIS_BORROWER

record ticket =
  tk_id :: string
  tk_tenant :: string
  tk_borrower :: "string option"
  tk_loan :: "string option"
  tk_repayment :: "string option"
  tk_disbursement :: "string option"
  tk_type :: case_type
  tk_status :: ticket_status
  tk_priority :: case_priority
  tk_subject :: string
  tk_description :: string
  tk_assigned :: "string option"
  tk_due :: "int option"
  tk_notified :: "int option"
  tk_code :: "resolution_code option"
  tk_notes :: "string option"
  tk_by_admin :: "string option"
  tk_by_borrower :: "string option"
  tk_created :: int
  tk_closed :: "int option"

record ticket_message =
  tm_id :: string
  tm_tenant :: string
  tm_case :: string
  tm_visibility :: visibility
  tm_text :: string
  tm_admin :: "string option"
  tm_borrower :: "string option"

record ticket_step =
  ts_tenant :: string
  ts_case :: string
  ts_from :: "ticket_status option"
  ts_to :: ticket_status
  ts_admin :: "string option"
  ts_borrower :: "string option"
  ts_reason :: "string option"

record desk = mailbox +
  dk_cases :: "ticket list"
  dk_messages :: "ticket_message list"
  dk_steps :: "ticket_step list"
  dk_tenants :: "string list"

fun CASE_TRANSITIONS :: "ticket_status \<Rightarrow> ticket_status list" where
  "CASE_TRANSITIONS TS_OPEN = [TS_IN_REVIEW, TS_ESCALATED, TS_REJECTED]"
| "CASE_TRANSITIONS TS_IN_REVIEW = [TS_AWAITING_BORROWER, TS_ESCALATED, TS_RESOLVED, TS_REJECTED]"
| "CASE_TRANSITIONS TS_AWAITING_BORROWER = [TS_IN_REVIEW, TS_ESCALATED, TS_RESOLVED]"
| "CASE_TRANSITIONS TS_ESCALATED = [TS_IN_REVIEW, TS_RESOLVED]"
| "CASE_TRANSITIONS TS_RESOLVED = [TS_CLOSED]"
| "CASE_TRANSITIONS TS_REJECTED = [TS_CLOSED]"
| "CASE_TRANSITIONS TS_CLOSED = []"

definition canTransitionCase :: "ticket_status \<Rightarrow> ticket_status \<Rightarrow> bool" where
  "canTransitionCase a b \<longleftrightarrow> b \<in> set (CASE_TRANSITIONS a)"

definition message_statuses :: "ticket_status list" where
  "message_statuses = [TS_OPEN, TS_IN_REVIEW, TS_AWAITING_BORROWER, TS_ESCALATED]"

text \<open>\<open>setUTCHours\<close> keeps the minutes and what is below them.\<close>

definition utc_hours :: "int \<Rightarrow> int" where
  "utc_hours t = t mod ms_per_day div 3600000"

definition set_utc_hours :: "int \<Rightarrow> int \<Rightarrow> int" where
  "set_utc_hours t h = t - t mod ms_per_day + h * 3600000 + t mod 3600000"

fun computeCaseSlaDueAt :: "case_priority \<Rightarrow> int \<Rightarrow> int" where
  "computeCaseSlaDueAt PR_LOW now = set_utc_date now (utc_date now + 7)"
| "computeCaseSlaDueAt PR_MEDIUM now = set_utc_date now (utc_date now + 3)"
| "computeCaseSlaDueAt PR_HIGH now = set_utc_hours now (utc_hours now + 24)"
| "computeCaseSlaDueAt PR_URGENT now = set_utc_hours now (utc_hours now + 6)"

section \<open>Guards and notifications\<close>

definition desk_roles :: "admin_role list" where
  "desk_roles = [CREDIT_OFFICER, OPS, SUPER_ADMIN]"

definition desk_assertRole :: "admin_role \<Rightarrow> string \<Rightarrow> unit outcome" where
  "desk_assertRole role message = ensure (role \<in> set desk_roles) (Forbidden message)"

definition assertTransitionRole :: "admin_role \<Rightarrow> ticket_status \<Rightarrow> unit outcome" where
  "assertTransitionRole role toStatus =
     (if role = SUPER_ADMIN then Inr ()
      else if role = CREDIT_OFFICER
      then ensure (toStatus \<noteq> TS_CLOSED) (Forbidden ''CREDIT_OFFICER cannot transition case to CLOSED.'')
      else if role = OPS then ensure (toStatus = TS_CLOSED) (Forbidden ''OPS can only transition case to CLOSED.'')
      else Inl (Forbidden ''Role cannot transition case.''))"

definition assigned_key :: "string \<Rightarrow> string \<Rightarrow> string" where
  "assigned_key i admin = ''case:'' @ i @ '':assigned:'' @ admin"

definition notifyAssignment :: "env \<Rightarrow> string \<Rightarrow> string \<Rightarrow> string \<Rightarrow> string \<Rightarrow> desk \<Rightarrow> desk outcome" where
  "notifyAssignment E t i assignee by_admin =
     notify_all E (\<lambda>u. app_notice t TO_ADMIN ''CASE_ASSIGNED'' ''Case assigned'' (''You have been assigned case '' @ i @ ''.'') u
       (VObj [(''caseId'', VStr i), (''assignedByAdminUserId'', VStr by_admin)]) (assigned_key i u)) [assignee]"

definition minuteBucket :: "int \<Rightarrow> string" where
  "minuteBucket t = take 16 (toISOString t)"

text \<open>The assignee of a case, or the credit officers when it has none.\<close>

definition recipients :: "string \<Rightarrow> string option \<Rightarrow> desk \<Rightarrow> string list" where
  "recipients t assigned S =
     (case user_list assigned of [] \<Rightarrow> admins_with t [CREDIT_OFFICER] (mb_db S) | us \<Rightarrow> us)"

definition notifyCaseEventForAdmins ::
  "env \<Rightarrow> string \<Rightarrow> string \<Rightarrow> string option \<Rightarrow> string \<Rightarrow> string \<Rightarrow> string \<Rightarrow> rule_value \<Rightarrow> desk \<Rightarrow> desk outcome" where
  "notifyCaseEventForAdmins E t i assigned template title body data S =
     notify_all E (\<lambda>u. app_notice t TO_ADMIN template title body u data
         (''case:'' @ i @ '':'' @ template @ '':'' @ minuteBucket (ev_now E) @ '':'' @ u))
       (recipients t assigned S) S"

definition log_case :: "string \<Rightarrow> string \<Rightarrow> desk \<Rightarrow> desk" where
  "log_case action i S = S\<lparr>mb_db := emit (Audit action ''CASE'' i) (mb_db S)\<rparr>"

definition find_ticket :: "string \<Rightarrow> string \<Rightarrow> desk \<Rightarrow> ticket option" where
  "find_ticket t i S = find (\<lambda>k. tk_id k = i \<and> tk_tenant k = t) (dk_cases S)"

definition set_ticket :: "string \<Rightarrow> (ticket \<Rightarrow> ticket) \<Rightarrow> desk \<Rightarrow> desk" where
  "set_ticket i f S = S\<lparr>dk_cases := update_where (\<lambda>k. tk_id k = i) f (dk_cases S)\<rparr>"

definition no_case :: err where
  "no_case = NotFound ''Case not found.''"

section \<open>Opening a case\<close>

record case_input =
  cx_borrower :: "string option"
  cx_loan :: "string option"
  cx_repayment :: "string option"
  cx_disbursement :: "string option"
  cx_type :: case_type
  cx_priority :: case_priority
  cx_subject :: string
  cx_description :: string
  cx_assigned :: "string option"

definition new_ticket :: "env \<Rightarrow> string \<Rightarrow> case_input \<Rightarrow> string option \<Rightarrow> string option \<Rightarrow> string \<Rightarrow> ticket" where
  "new_ticket E t x admin borrower i =
     \<lparr>tk_id = i, tk_tenant = t, tk_borrower = cx_borrower x, tk_loan = cx_loan x, tk_repayment = cx_repayment x,
      tk_disbursement = cx_disbursement x, tk_type = cx_type x, tk_status = TS_OPEN, tk_priority = cx_priority x,
      tk_subject = trim (cx_subject x), tk_description = trim (cx_description x), tk_assigned = cx_assigned x,
      tk_due = Some (computeCaseSlaDueAt (cx_priority x) (ev_now E)), tk_notified = None, tk_code = None,
      tk_notes = None, tk_by_admin = admin, tk_by_borrower = borrower, tk_created = ev_now E, tk_closed = None\<rparr>"

text \<open>The row of a new case and the first row of its history.\<close>

definition add_ticket :: "env \<Rightarrow> string \<Rightarrow> case_input \<Rightarrow> string option \<Rightarrow> string option \<Rightarrow> string \<Rightarrow> desk \<Rightarrow> ticket \<times> desk" where
  "add_ticket E t x admin borrower reason S =
     (case fresh_row E S of (i, S1) \<Rightarrow>
        let k = new_ticket E t x admin borrower i
        in (k, S1\<lparr>dk_cases := dk_cases S1 @ [k],
              dk_steps := dk_steps S1 @ [\<lparr>ts_tenant = t, ts_case = i, ts_from = None, ts_to = TS_OPEN, ts_admin = admin,
                ts_borrower = borrower, ts_reason = Some reason\<rparr>]\<rparr>))"

definition createCase :: "env \<Rightarrow> principal \<Rightarrow> case_input \<Rightarrow> desk \<Rightarrow> (ticket \<times> desk) outcome" where
  "createCase E P x S =
     chain (desk_assertRole (pc_role P) ''Role cannot create cases.'') (\<lambda>_.
     case add_ticket E (pc_tenant P) x (Some (pc_admin P)) None ''Case created'' S of (k, S1) \<Rightarrow>
       chain (fold_outcome (\<lambda>u. notifyAssignment E (pc_tenant P) (tk_id k) u (pc_admin P)) (user_list (tk_assigned k)) S1)
         (\<lambda>S2. Inr (k, log_case ''CASE_CREATED'' (tk_id k) S2)))"

text \<open>A case of a borrower has no assignee and medium priority.\<close>

definition borrower_input :: "borrower \<Rightarrow> case_input \<Rightarrow> case_input" where
  "borrower_input B x = x\<lparr>cx_borrower := Some (bo_id B), cx_priority := PR_MEDIUM, cx_assigned := None\<rparr>"

definition createBorrowerCase :: "env \<Rightarrow> borrower \<Rightarrow> case_input \<Rightarrow> desk \<Rightarrow> (ticket \<times> desk) outcome" where
  "createBorrowerCase E B x S =
     (case add_ticket E (bo_tenant B) (borrower_input B x) None (Some (bo_id B)) ''Case created by borrower'' S of (k, S1) \<Rightarrow>
        chain (notifyCaseEventForAdmins E (bo_tenant B) (tk_id k) (tk_assigned k) ''CASE_CREATED_BY_BORROWER''
            ''New borrower case'' (''Borrower opened case '' @ tk_id k @ '': '' @ tk_subject k)
            (VObj [(''caseId'', VStr (tk_id k)), (''borrowerId'', optional_value (tk_borrower k)),
                   (''loanApplicationId'', optional_value (tk_loan k))]) S1)
          (\<lambda>S2. Inr (k, log_case ''CASE_CREATED_BY_BORROWER'' (tk_id k) S2)))"

section \<open>Messages\<close>

definition add_message :: "env \<Rightarrow> string \<Rightarrow> string \<Rightarrow> visibility \<Rightarrow> string \<Rightarrow> string option \<Rightarrow> string option \<Rightarrow> desk \<Rightarrow> ticket_message \<times> desk" where
  "add_message E t i v message admin borrower S =
     (case fresh_row E S of (j, S1) \<Rightarrow>
        let m = \<lparr>tm_id = j, tm_tenant = t, tm_case = i, tm_visibility = v, tm_text = trim message, tm_admin = admin,
              tm_borrower = borrower\<rparr>
        in (m, S1\<lparr>dk_messages := dk_messages S1 @ [m]\<rparr>))"

definition addBorrowerMessage :: "env \<Rightarrow> borrower \<Rightarrow> string \<Rightarrow> string \<Rightarrow> desk \<Rightarrow> (ticket_message \<times> desk) outcome" where
  "addBorrowerMessage E B i message S =
     (case find (\<lambda>k. tk_id k = i \<and> tk_tenant k = bo_tenant B \<and> tk_borrower k = Some (bo_id B)) (dk_cases S) of
        None \<Rightarrow> Inl no_case
      | Some k \<Rightarrow>
          chain (ensure (tk_status k \<in> set message_statuses) (BadRequest ''Cannot post message in this status of the case.'')) (\<lambda>_.
          case add_message E (bo_tenant B) (tk_id k) VIS_BORROWER message None (Some (bo_id B)) S of (m, S1) \<Rightarrow>
            chain (notifyCaseEventForAdmins E (bo_tenant B) (tk_id k) (tk_assigned k) ''CASE_MESSAGE_FROM_BORROWER''
                ''Borrower replied on case'' (''New borrower message on case '' @ tk_id k @ ''.'')
                (VObj [(''caseId'', VStr (tk_id k)), (''messageId'', VStr (tm_id m)), (''borrowerId'', VStr (bo_id B))]) S1)
              (\<lambda>S2. Inr (m, log_case ''CASE_MESSAGE_FROM_BORROWER'' (tk_id k) S2))))"

definition addMessage :: "env \<Rightarrow> principal \<Rightarrow> string \<Rightarrow> visibility \<Rightarrow> string \<Rightarrow> desk \<Rightarrow> (ticket_message \<times> desk) outcome" where
  "addMessage E P i v message S =
     chain (desk_assertRole (pc_role P) ''Role cannot add case message.'') (\<lambda>_.
     case find_ticket (pc_tenant P) i S of
       None \<Rightarrow> Inl no_case
     | Some k \<Rightarrow> Inr (add_message E (pc_tenant P) (tk_id k) v message (Some (pc_admin P)) None S))"

section \<open>Assignment and transitions\<close>

definition desk_assignCase :: "env \<Rightarrow> principal \<Rightarrow> string \<Rightarrow> string option \<Rightarrow> desk \<Rightarrow> desk outcome" where
  "desk_assignCase E P i adminUserId S =
     chain (desk_assertRole (pc_role P) ''Role cannot assign cases.'') (\<lambda>_.
     let assignee = optional_text (trim_or_null adminUserId) (pc_admin P)
     in case find_ticket (pc_tenant P) i S of
          None \<Rightarrow> Inl no_case
        | Some k \<Rightarrow>
            let S1 = set_ticket (tk_id k) (\<lambda>k. k\<lparr>tk_assigned := Some assignee\<rparr>) S
            in chain (if tk_assigned k \<noteq> Some assignee
                      then notifyAssignment E (pc_tenant P) (tk_id k) assignee (pc_admin P) S1 else Inr S1)
                 (\<lambda>S2. Inr (log_case ''CASE_ASSIGNED'' (tk_id k) S2)))"

record transition_input =
  tq_to :: ticket_status
  tq_reason :: "string option"
  tq_code :: "resolution_code option"
  tq_notes :: "string option"

definition transitioned :: "env \<Rightarrow> transition_input \<Rightarrow> ticket \<Rightarrow> ticket \<Rightarrow> ticket" where
  "transitioned E x k m =
     m\<lparr>tk_status := tq_to x, tk_code := (if tq_to x = TS_RESOLVED then tq_code x else tk_code k),
       tk_notes := (if tq_to x \<in> {TS_RESOLVED, TS_REJECTED} then trim_or_null (tq_notes x) else tk_notes k),
       tk_closed := (if tq_to x = TS_CLOSED then Some (ev_now E) else None)\<rparr>"

definition transitionCase :: "env \<Rightarrow> principal \<Rightarrow> string \<Rightarrow> transition_input \<Rightarrow> desk \<Rightarrow> desk outcome" where
  "transitionCase E P i x S =
     chain (assertTransitionRole (pc_role P) (tq_to x)) (\<lambda>_.
     case find_ticket (pc_tenant P) i S of
       None \<Rightarrow> Inl no_case
     | Some k \<Rightarrow>
         chain (ensure (canTransitionCase (tk_status k) (tq_to x)) (BadRequest ''Invalid case transition.'')) (\<lambda>_.
         chain (ensure (\<not> (tq_to x = TS_CLOSED \<and> pc_role P = OPS) \<or> tk_status k \<in> {TS_RESOLVED, TS_REJECTED})
             (BadRequest ''OPS can close only RESOLVED or REJECTED cases.'')) (\<lambda>_.
         chain (ensure (tq_to x \<notin> {TS_RESOLVED, TS_REJECTED} \<or> trim_or_null (tq_notes x) \<noteq> None)
             (BadRequest ''resolutionNotes is required for RESOLVED/REJECTED transitions.'')) (\<lambda>_.
         let S1 = set_ticket (tk_id k) (transitioned E x k) S
         in Inr (log_case ''CASE_STATUS_TRANSITION'' (tk_id k)
              (S1\<lparr>dk_steps := dk_steps S1 @ [\<lparr>ts_tenant = pc_tenant P, ts_case = tk_id k, ts_from = Some (tk_status k),
                ts_to = tq_to x, ts_admin = Some (pc_admin P), ts_borrower = None,
                ts_reason = trim_or_null (tq_reason x)\<rparr>]\<rparr>))))))"

section \<open>Deadlines\<close>

definition six_hours :: int where
  "six_hours = 6 * 60 * 60 * 1000"

definition still_overdue :: "int \<Rightarrow> ticket \<Rightarrow> bool" where
  "still_overdue now k \<longleftrightarrow> tk_status k \<notin> {TS_RESOLVED, TS_CLOSED} \<and>
     (case tk_notified k of None \<Rightarrow> True | Some t \<Rightarrow> t < now - six_hours)"

definition overdue_ticket :: "int \<Rightarrow> string \<Rightarrow> ticket \<Rightarrow> bool" where
  "overdue_ticket now t k \<longleftrightarrow>
     tk_tenant k = t \<and> (case tk_due k of None \<Rightarrow> False | Some d \<Rightarrow> d < now) \<and> still_overdue now k"

definition overdue_notice :: "int \<Rightarrow> ticket \<Rightarrow> string \<Rightarrow> notice_input" where
  "overdue_notice now k u =
     app_notice (tk_tenant k) TO_ADMIN ''CASE_OVERDUE'' ''Case SLA overdue'' (''Case '' @ tk_id k @ '' is overdue for SLA response.'')
       u (VObj [(''caseId'', VStr (tk_id k)), (''slaDueAt'', optional_value (map_option toISOString (tk_due k)))])
       (''case:'' @ tk_id k @ '':overdue:'' @ take 13 (toISOString now) @ '':'' @ u)"

text \<open>The row is read again in the transaction that reports it.\<close>

definition report_overdue :: "env \<Rightarrow> ticket \<Rightarrow> nat \<times> desk \<Rightarrow> (nat \<times> desk) outcome" where
  "report_overdue E row s =
     (case s of (notified, S) \<Rightarrow>
        (case find_ticket (tk_tenant row) (tk_id row) S of
           None \<Rightarrow> Inr (notified, S)
         | Some k \<Rightarrow>
             (if \<not> still_overdue (ev_now E) k then Inr (notified, S)
              else let us = recipients (tk_tenant k) (tk_assigned k) S
                   in chain (notify_all E (overdue_notice (ev_now E) k) us S) (\<lambda>S1.
                      Inr (notified + length us, set_ticket (tk_id k) (\<lambda>k. k\<lparr>tk_notified := Some (ev_now E)\<rparr>) S1)))))"

definition tenant_overdue :: "env \<Rightarrow> string \<Rightarrow> (nat \<times> nat) \<times> desk \<Rightarrow> ((nat \<times> nat) \<times> desk) outcome" where
  "tenant_overdue E t s =
     (case s of ((scanned, notified), S) \<Rightarrow>
        let rows = filter (overdue_ticket (ev_now E) t) (dk_cases S)
        in chain (fold_outcome (report_overdue E) rows (notified, S)) (\<lambda>(m, S1). Inr ((scanned + length rows, m), S1)))"

definition processOverdueCases :: "env \<Rightarrow> desk \<Rightarrow> ((nat \<times> nat) \<times> desk) outcome" where
  "processOverdueCases E S = fold_outcome (tenant_overdue E) (dk_tenants S) ((0, 0), S)"

section \<open>Reading\<close>

definition assertBorrowerOwnsCase :: "string \<Rightarrow> string \<Rightarrow> string \<Rightarrow> desk \<Rightarrow> ticket outcome" where
  "assertBorrowerOwnsCase i borrower t S =
     (case find (\<lambda>k. tk_id k = i \<and> tk_tenant k = t \<and> tk_borrower k = Some borrower) (dk_cases S) of
        None \<Rightarrow> Inl no_case | Some k \<Rightarrow> Inr k)"

definition messages_of :: "(visibility \<Rightarrow> bool) \<Rightarrow> ticket \<Rightarrow> desk \<Rightarrow> ticket_message list" where
  "messages_of shown k S = filter (\<lambda>m. tm_case m = tk_id k \<and> shown (tm_visibility m)) (dk_messages S)"

definition steps_of :: "string \<Rightarrow> desk \<Rightarrow> ticket_step list" where
  "steps_of i S = filter (\<lambda>h. ts_case h = i) (dk_steps S)"

definition getCase :: "principal \<Rightarrow> string \<Rightarrow> desk \<Rightarrow> (ticket \<times> ticket_message list \<times> ticket_step list) outcome" where
  "getCase P i S =
     chain (desk_assertRole (pc_role P) ''Role cannot read cases.'') (\<lambda>_.
     case find_ticket (pc_tenant P) i S of
       None \<Rightarrow> Inl no_case
     | Some k \<Rightarrow> Inr (k, messages_of (\<lambda>v. True) k S, steps_of (tk_id k) S))"

definition getBorrowerCase :: "borrower \<Rightarrow> string \<Rightarrow> desk \<Rightarrow> (ticket \<times> ticket_message list \<times> ticket_step list) outcome" where
  "getBorrowerCase B i S =
     chain (assertBorrowerOwnsCase i (bo_id B) (bo_tenant B) S) (\<lambda>owned.
     case find (\<lambda>k. tk_id k = tk_id owned) (dk_cases S) of
       None \<Rightarrow> Inl no_case
     | Some k \<Rightarrow> Inr (k, messages_of (\<lambda>v. v = VIS_BORROWER) k S, steps_of (tk_id k) S))"

record case_query =
  cq_status :: "ticket_status option"
  cq_priority :: "case_priority option"
  cq_assigned :: "string option"
  cq_borrower :: "string option"
  cq_loan :: "string option"
  cq_overdue :: bool
  cq_page :: nat
  cq_size :: nat

definition wanted :: "'a option \<Rightarrow> 'a option \<Rightarrow> bool" where
  "wanted q v \<longleftrightarrow> q = None \<or> v = q"

text \<open>The status asked for is overwritten by the condition of the overdue cases.\<close>

definition case_where :: "env \<Rightarrow> string \<Rightarrow> case_query \<Rightarrow> ticket \<Rightarrow> bool" where
  "case_where E t q k \<longleftrightarrow>
     tk_tenant k = t \<and> wanted (cq_priority q) (Some (tk_priority k)) \<and> wanted (cq_assigned q) (tk_assigned k) \<and>
     wanted (cq_borrower q) (tk_borrower k) \<and> wanted (cq_loan q) (tk_loan k) \<and>
     (if cq_overdue q
      then (case tk_due k of None \<Rightarrow> False | Some d \<Rightarrow> d < ev_now E) \<and> tk_status k \<notin> {TS_RESOLVED, TS_CLOSED}
      else wanted (cq_status q) (Some (tk_status k)))"

definition page_rows :: "nat \<Rightarrow> nat \<Rightarrow> ticket list \<Rightarrow> ticket list \<times> nat \<times> nat" where
  "page_rows no per rows =
     (take per (drop ((no - 1) * per) (sort_key (\<lambda>k. - tk_created k) rows)), length rows,
      max 1 ((length rows + per - 1) div per))"

definition listCases :: "env \<Rightarrow> principal \<Rightarrow> case_query \<Rightarrow> desk \<Rightarrow> (ticket list \<times> nat \<times> nat) outcome" where
  "listCases E P q S =
     chain (desk_assertRole (pc_role P) ''Role cannot list cases.'') (\<lambda>_.
     Inr (page_rows (cq_page q) (cq_size q) (filter (case_where E (pc_tenant P) q) (dk_cases S))))"

definition listBorrowerCases :: "borrower \<Rightarrow> ticket_status option \<Rightarrow> nat \<Rightarrow> nat \<Rightarrow> desk \<Rightarrow> ticket list \<times> nat \<times> nat" where
  "listBorrowerCases B status no limit S =
     page_rows no limit (filter (\<lambda>k. tk_tenant k = bo_tenant B \<and> tk_borrower k = Some (bo_id B) \<and>
       wanted status (Some (tk_status k))) (dk_cases S))"

section \<open>What notifications leave alone\<close>

text \<open>
  Two desks with the same cases as far as their states go, the same history, no identifier and no
  notification fewer.
\<close>

definition case_part :: "ticket \<Rightarrow> string \<times> ticket_status \<times> string option \<times> int option" where
  "case_part k = (tk_id k, tk_status k, tk_notes k, tk_closed k)"

definition calm :: "desk \<Rightarrow> desk \<Rightarrow> bool" where
  "calm S S' \<longleftrightarrow> map case_part (dk_cases S') = map case_part (dk_cases S) \<and> dk_steps S' = dk_steps S \<and>
     db_seq (mb_db S) \<le> db_seq (mb_db S') \<and> notice_key ` set (mb_notices S) \<subseteq> notice_key ` set (mb_notices S')"

lemma calm_refl [simp]: "calm S S"
  by (simp add: calm_def)

lemma calm_trans: "calm S S1 \<Longrightarrow> calm S1 S2 \<Longrightarrow> calm S S2"
  unfolding calm_def by auto

lemma fold_calm:
  assumes "fold_outcome f xs S = Inr S'" "\<And>x S S'. f x S = Inr S' \<Longrightarrow> calm S S'"
  shows "calm S S'"
  using assms(1)
proof (induction xs arbitrary: S)
  case (Cons x xs)
  then obtain S1 where "f x S = Inr S1" "fold_outcome f xs S1 = Inr S'" by (auto simp: outcome_simps)
  with Cons.IH assms(2) show ?case by (blast intro: calm_trans)
qed simp

lemma create_calm:
  assumes "createNotification E x S = Inr (r, S')"
  shows "calm S S'"
proof (cases "find (\<lambda>n. nt_tenant n = ni_tenant x \<and> nt_key n = trim (ni_key x)) (mb_notices S)")
  case None
  with assms show ?thesis
    by (auto simp: createNotification_def fresh_row_def fresh_def enqueueOutbox_def calm_def split: if_splits)
next
  case (Some n)
  with assms show ?thesis by (simp add: createNotification_def split: if_splits)
qed

lemma notify_calm: "notify_all E x us S = Inr S' \<Longrightarrow> calm S S'"
  unfolding notify_all_def by (erule fold_calm) (auto simp: outcome_simps dest: create_calm)

lemma notify_admins_calm: "notifyCaseEventForAdmins E t i a tmp ti b d S = Inr S' \<Longrightarrow> calm S S'"
  by (simp add: notifyCaseEventForAdmins_def notify_calm)

lemma notify_assignment_calm: "notifyAssignment E t i u b S = Inr S' \<Longrightarrow> calm S S'"
  by (simp add: notifyAssignment_def notify_calm)

lemma log_calm [simp]: "calm S (log_case a i S)"
  by (simp add: calm_def log_case_def)

lemma calm_log: "calm S S1 \<Longrightarrow> calm S (log_case a i S1)"
  by (erule calm_trans) simp

lemma set_ticket_calm:
  assumes "\<And>k. case_part (f k) = case_part k"
  shows "calm S (set_ticket i f S)"
  by (simp add: calm_def set_ticket_def map_update_where assms)

lemma add_message_calm: "add_message E t i v m a b S = (x, S') \<Longrightarrow> calm S S'"
  by (auto simp: add_message_def fresh_row_def fresh_def calm_def Let_def)

lemma notices_calm:
  assumes "map notice_key (mb_notices S') = map notice_key (mb_notices S)" "dk_cases S' = dk_cases S"
    "dk_steps S' = dk_steps S" "mb_db S' = mb_db S"
  shows "calm S S'"
proof -
  have "notice_key ` set (mb_notices S') = notice_key ` set (mb_notices S)" using assms(1) by (metis list.set_map)
  with assms(2-4) show ?thesis by (simp add: calm_def)
qed

lemma read_calm:
  assumes "markAsRead E i P S = Inr S'"
  shows "calm S S'"
proof -
  from assms have "S' = set_notice i (\<lambda>n. n\<lparr>nt_status := NS_READ, nt_read := Some (ev_now E)\<rparr>) S"
    by (simp add: markAsRead_def split: option.splits)
  then show ?thesis by (intro notices_calm) (simp_all add: set_notice_def map_update_where notice_key_def)
qed

lemma process_rows_calm:
  assumes "fold (process_row E aborts) rs (k, S) = (k', S')"
  shows "calm S S'"
  using assms
proof (induction rs arbitrary: k S)
  case (Cons r rs)
  obtain k1 S1 where p: "process_row E aborts r (k, S) = (k1, S1)" by (cases "process_row E aborts r (k, S)")
  have "calm S S1"
  proof (rule notices_calm)
    show "map notice_key (mb_notices S1) = map notice_key (mb_notices S)"
      using process_row_eq [OF p] by (auto simp: settle_pair_fields map_update_where notice_key_def)
  qed (use process_row_eq [OF p] in \<open>auto simp: settle_pair_def set_row_def set_notice_def Let_def\<close>)
  moreover have "calm S1 S'" using Cons.IH [of k1 S1] Cons.prems p by simp
  ultimately show ?case by (rule calm_trans)
qed simp

lemma process_calm: "processOutboxBatch E aborts limit S = (k, S') \<Longrightarrow> calm S S'"
  unfolding processOutboxBatch_def by (rule process_rows_calm)

section \<open>The life of a case\<close>

text \<open>A history from \<open>a\<close> (before the case was opened, or a state of it) to \<open>b\<close> along the transitions.\<close>

fun walks :: "ticket_status option \<Rightarrow> ticket_step list \<Rightarrow> ticket_status \<Rightarrow> bool" where
  "walks a [] b \<longleftrightarrow> a = Some b"
| "walks a (h # hs) b \<longleftrightarrow> ts_from h = a \<and>
     (case a of None \<Rightarrow> ts_to h = TS_OPEN | Some s \<Rightarrow> canTransitionCase s (ts_to h)) \<and> walks (Some (ts_to h)) hs b"

lemma walks_append:
  "walks a hs s \<Longrightarrow> ts_from h = Some s \<Longrightarrow> canTransitionCase s (ts_to h) \<Longrightarrow> walks a (hs @ [h]) (ts_to h)"
  by (induction a hs s rule: walks.induct) auto

lemma walks_to_closed:
  assumes "walks a hs TS_CLOSED" "a \<noteq> Some TS_CLOSED"
  shows "a \<in> {Some TS_RESOLVED, Some TS_REJECTED} \<or> (\<exists>h \<in> set hs. ts_to h \<in> {TS_RESOLVED, TS_REJECTED})"
  using assms
proof (induction hs arbitrary: a)
  case (Cons h hs)
  show ?case
  proof (cases "ts_to h = TS_CLOSED")
    case True
    with Cons.prems obtain s where "a = Some s" "canTransitionCase s TS_CLOSED" by (cases a) auto
    then show ?thesis by (cases s) (auto simp: canTransitionCase_def)
  next
    case False
    with Cons.IH [of "Some (ts_to h)"] Cons.prems show ?thesis by auto
  qed
qed simp

definition is_decided :: "ticket_status \<Rightarrow> bool" where
  "is_decided s \<longleftrightarrow> s \<in> {TS_RESOLVED, TS_REJECTED, TS_CLOSED}"

definition part_ok :: "(nat \<Rightarrow> string) \<Rightarrow> nat \<Rightarrow> ticket_step list \<Rightarrow> string \<times> ticket_status \<times> string option \<times> int option \<Rightarrow> bool" where
  "part_ok c n steps p \<longleftrightarrow>
     (case p of (i, s, words, ended) \<Rightarrow> issued c n i \<and> walks None (filter (\<lambda>h. ts_case h = i) steps) s \<and>
        (is_decided s \<longrightarrow> words \<noteq> None) \<and> (ended \<noteq> None \<longleftrightarrow> s = TS_CLOSED))"

definition desk_ok :: "(nat \<Rightarrow> string) \<Rightarrow> desk \<Rightarrow> bool" where
  "desk_ok c S \<longleftrightarrow> (let n = db_seq (mb_db S); ps = map case_part (dk_cases S)
     in distinct (map fst ps) \<and> list_all (part_ok c n (dk_steps S)) ps \<and> list_all (\<lambda>h. issued c n (ts_case h)) (dk_steps S))"

lemma part_ok_mono: "part_ok c n hs p \<Longrightarrow> n \<le> m \<Longrightarrow> part_ok c m hs p"
  by (auto simp: part_ok_def intro: issued_mono)

lemma desk_ok_calm:
  assumes "desk_ok c S" "calm S S'"
  shows "desk_ok c S'"
  using assms unfolding desk_ok_def calm_def Let_def by (auto elim!: list.pred_mono_strong intro: part_ok_mono issued_mono)

text \<open>A new case comes with its first row of history.\<close>

lemma add_ticket_ok:
  assumes "desk_ok c S" "inj c" "ev_cuid E = c" "add_ticket E t x a b r S = (k, S')"
  shows "desk_ok c S' \<and> notice_key ` set (mb_notices S) \<subseteq> notice_key ` set (mb_notices S')"
proof -
  let ?n = "db_seq (mb_db S)" and ?ps = "map case_part (dk_cases S)"
  have f: "map case_part (dk_cases S') = ?ps @ [(c ?n, TS_OPEN, None, None)]" "db_seq (mb_db S') = Suc ?n"
    "\<exists>h. dk_steps S' = dk_steps S @ [h] \<and> ts_case h = c ?n \<and> ts_from h = None \<and> ts_to h = TS_OPEN"
    "mb_notices S' = mb_notices S"
    using assms(3,4) by (auto simp: add_ticket_def fresh_row_def fresh_def new_ticket_def case_part_def Let_def)
  from f(3) obtain h where h: "dk_steps S' = dk_steps S @ [h]" "ts_case h = c ?n" "ts_from h = None" "ts_to h = TS_OPEN"
    by blast
  note ok = assms(1) [unfolded desk_ok_def Let_def list_all_iff]
  note new = not_issued [OF assms(2) order_refl, of ?n]
  have old: "part_ok c (Suc ?n) (dk_steps S') p" if "p \<in> set ?ps" for p
  proof -
    have p: "part_ok c ?n (dk_steps S) p" using ok that by blast
    then have "fst p \<noteq> c ?n" using new by (auto simp: part_ok_def)
    with p show ?thesis using h by (auto simp: part_ok_def intro: issued_mono)
  qed
  have none: "filter (\<lambda>g. ts_case g = c ?n) (dk_steps S) = []" using ok new by (auto simp: filter_empty_conv)
  have "part_ok c (Suc ?n) (dk_steps S') (c ?n, TS_OPEN, None, None)"
    using h none by (simp add: part_ok_def issued_next is_decided_def)
  moreover have "c ?n \<notin> fst ` set ?ps" using ok new by (auto simp: part_ok_def)
  ultimately show ?thesis
    using ok old f(1,2,4) h unfolding desk_ok_def Let_def list_all_iff
    by (auto simp: issued_next intro: issued_mono)
qed

lemma transition_ok:
  assumes "desk_ok c S" "transitionCase E P i x S = Inr S'"
  shows "desk_ok c S' \<and> mb_notices S' = mb_notices S"
proof -
  from assms(2) obtain k where k: "find_ticket (pc_tenant P) i S = Some k" "canTransitionCase (tk_status k) (tq_to x)"
      "tq_to x \<in> {TS_RESOLVED, TS_REJECTED} \<Longrightarrow> trim_or_null (tq_notes x) \<noteq> None"
    and S': "S' = log_case ''CASE_STATUS_TRANSITION'' (tk_id k) ((set_ticket (tk_id k) (transitioned E x k) S)
      \<lparr>dk_steps := dk_steps S @ [\<lparr>ts_tenant = pc_tenant P, ts_case = tk_id k, ts_from = Some (tk_status k),
        ts_to = tq_to x, ts_admin = Some (pc_admin P), ts_borrower = None, ts_reason = trim_or_null (tq_reason x)\<rparr>]\<rparr>)"
    by (auto simp: transitionCase_def Let_def outcome_simps set_ticket_def split: option.splits)
  have in_k: "k \<in> set (dk_cases S)" using k(1) by (auto simp: find_ticket_def dest: find_SomeD)
  let ?n = "db_seq (mb_db S)"
  note ok = assms(1) [unfolded desk_ok_def Let_def list_all_iff]
  have ids: "distinct (map tk_id (dk_cases S))" using ok by (simp add: case_part_def comp_def)
  obtain xs ys where split: "dk_cases S = xs @ k # ys" "tk_id k \<notin> tk_id ` (set xs \<union> set ys)"
    "\<And>f. update_where (\<lambda>q. tk_id q = tk_id k) f (dk_cases S) = xs @ f k # ys"
    using unique_row [OF ids in_k] by metis
  have cases': "dk_cases S' = xs @ transitioned E x k k # ys"
    by (simp add: S' log_case_def set_ticket_def split(3))
  obtain h where h: "dk_steps S' = dk_steps S @ [h]" "ts_case h = tk_id k" "ts_from h = Some (tk_status k)" "ts_to h = tq_to x"
    by (simp add: S' log_case_def)
  have n: "db_seq (mb_db S') = ?n" "mb_notices S' = mb_notices S" by (simp_all add: S' log_case_def set_ticket_def)
  have pk: "part_ok c ?n (dk_steps S) (case_part k)" using ok in_k by auto
  have others: "part_ok c ?n (dk_steps S') (case_part m)" if "m \<in> set xs \<union> set ys" for m
  proof -
    have "part_ok c ?n (dk_steps S) (case_part m)" using ok split(1) that by auto
    moreover have "tk_id m \<noteq> tk_id k" using split(2) that by (metis image_eqI)
    ultimately show ?thesis using h by (simp add: part_ok_def case_part_def)
  qed
  have words: "is_decided (tq_to x) \<Longrightarrow> tk_notes (transitioned E x k k) \<noteq> None"
  proof -
    assume d: "is_decided (tq_to x)"
    show ?thesis
    proof (cases "tq_to x = TS_CLOSED")
      case True
      with k(2) have "is_decided (tk_status k)" by (cases "tk_status k") (auto simp: canTransitionCase_def is_decided_def)
      with True pk show ?thesis by (simp add: transitioned_def part_ok_def case_part_def)
    next
      case False
      with d k(3) show ?thesis by (auto simp: transitioned_def is_decided_def)
    qed
  qed
  have "part_ok c ?n (dk_steps S') (case_part (transitioned E x k k))"
    using pk h k(2) words walks_append [of None "filter (\<lambda>h. ts_case h = tk_id k) (dk_steps S)" "tk_status k" h]
    by (auto simp: part_ok_def case_part_def transitioned_def)
  with others have "list_all (part_ok c ?n (dk_steps S')) (map case_part (dk_cases S'))"
    by (auto simp: list_all_iff cases')
  moreover have "distinct (map fst (map case_part (dk_cases S')))"
    using ids by (simp add: cases' split(1) case_part_def comp_def transitioned_def)
  moreover have "list_all (\<lambda>h. issued c ?n (ts_case h)) (dk_steps S')"
    using ok pk h by (auto simp: list_all_iff part_ok_def case_part_def)
  ultimately show ?thesis using n by (simp add: desk_ok_def)
qed

section \<open>Any sequence of requests\<close>

inductive desk_step :: "(nat \<Rightarrow> string) \<Rightarrow> desk \<Rightarrow> desk \<Rightarrow> bool" for c where
  opened: "ev_cuid E = c \<Longrightarrow> createCase E P x S = Inr (k, S') \<Longrightarrow> desk_step c S S'"
| asked: "ev_cuid E = c \<Longrightarrow> createBorrowerCase E B x S = Inr (k, S') \<Longrightarrow> desk_step c S S'"
| answered: "ev_cuid E = c \<Longrightarrow> addMessage E P i v m S = Inr (r, S') \<Longrightarrow> desk_step c S S'"
| replied: "ev_cuid E = c \<Longrightarrow> addBorrowerMessage E B i m S = Inr (r, S') \<Longrightarrow> desk_step c S S'"
| assigned: "ev_cuid E = c \<Longrightarrow> desk_assignCase E P i a S = Inr S' \<Longrightarrow> desk_step c S S'"
| moved_on: "transitionCase E P i y S = Inr S' \<Longrightarrow> desk_step c S S'"
| scanned: "ev_cuid E = c \<Longrightarrow> processOverdueCases E S = Inr (n, S') \<Longrightarrow> desk_step c S S'"
| seen: "markAsRead E i R S = Inr S' \<Longrightarrow> desk_step c S S'"
| delivered: "processOutboxBatch E aborts limit S = (n, S') \<Longrightarrow> desk_step c S S'"

lemma message_calm: "addMessage E P i v m S = Inr (r, S') \<Longrightarrow> calm S S'"
  by (auto simp: addMessage_def outcome_simps dest: add_message_calm split: option.splits)

lemma chain_InrE:
  assumes "chain m f = Inr y"
  obtains x where "m = Inr x" "f x = Inr y"
  using assms by (cases m) simp_all

lemma borrower_message_calm:
  assumes "addBorrowerMessage E B i m S = Inr (r, S')"
  shows "calm S S'"
proof -
  from assms obtain k where k: "find (\<lambda>k. tk_id k = i \<and> tk_tenant k = bo_tenant B \<and> tk_borrower k = Some (bo_id B)) (dk_cases S) = Some k"
    by (auto simp: addBorrowerMessage_def split: option.splits)
  obtain q S1 where a: "add_message E (bo_tenant B) (tk_id k) VIS_BORROWER m None (Some (bo_id B)) S = (q, S1)" by force
  note form = assms [unfolded addBorrowerMessage_def k option.case a prod.case]
  from form obtain u where "chain (notifyCaseEventForAdmins E (bo_tenant B) (tk_id k) (tk_assigned k) ''CASE_MESSAGE_FROM_BORROWER''
      ''Borrower replied on case'' (''New borrower message on case '' @ tk_id k @ ''.'')
      (VObj [(''caseId'', VStr (tk_id k)), (''messageId'', VStr (tm_id q)), (''borrowerId'', VStr (bo_id B))]) S1)
      (\<lambda>S2. Inr (q, log_case ''CASE_MESSAGE_FROM_BORROWER'' (tk_id k) S2)) = Inr (r, S')"
    by (rule chain_InrE)
  then have "\<exists>S2. calm S1 S2 \<and> S' = log_case ''CASE_MESSAGE_FROM_BORROWER'' (tk_id k) S2"
  proof (rule chain_InrE)
    fix S2
    assume "notifyCaseEventForAdmins E (bo_tenant B) (tk_id k) (tk_assigned k) ''CASE_MESSAGE_FROM_BORROWER''
      ''Borrower replied on case'' (''New borrower message on case '' @ tk_id k @ ''.'')
      (VObj [(''caseId'', VStr (tk_id k)), (''messageId'', VStr (tm_id q)), (''borrowerId'', VStr (bo_id B))]) S1 = Inr S2"
    then have "calm S1 S2" by (rule notify_admins_calm)
    moreover assume "Inr (q, log_case ''CASE_MESSAGE_FROM_BORROWER'' (tk_id k) S2) = (Inr (r, S') :: (ticket_message \<times> desk) outcome)"
    ultimately show ?thesis by (intro exI [of _ S2]) (simp only: sum.inject prod.inject simp_thms)
  qed
  then obtain S2 where s: "calm S1 S2" "S' = log_case ''CASE_MESSAGE_FROM_BORROWER'' (tk_id k) S2" by (elim exE conjE)
  show ?thesis unfolding s(2) by (rule calm_log, rule calm_trans [OF add_message_calm [OF a] s(1)])
qed

lemma assign_calm:
  assumes "desk_assignCase E P i a S = Inr S'"
  shows "calm S S'"
proof -
  from assms obtain k where k: "find_ticket (pc_tenant P) i S = Some k"
    by (auto simp: desk_assignCase_def outcome_simps Let_def split: option.splits)
  let ?a = "optional_text (trim_or_null a) (pc_admin P)"
  let ?S1 = "set_ticket (tk_id k) (\<lambda>k. k\<lparr>tk_assigned := Some ?a\<rparr>) S"
  have first: "calm S ?S1" by (rule set_ticket_calm) (simp add: case_part_def)
  obtain S2 where s: "calm ?S1 S2" "S' = log_case ''CASE_ASSIGNED'' (tk_id k) S2"
  proof -
    let ?m = "if tk_assigned k \<noteq> Some ?a then notifyAssignment E (pc_tenant P) (tk_id k) ?a (pc_admin P) ?S1 else Inr ?S1"
    from assms [unfolded desk_assignCase_def] have "chain ?m (\<lambda>S2. Inr (log_case ''CASE_ASSIGNED'' (tk_id k) S2)) = Inr S'"
      by (rule chain_InrE) (simp only: Let_def k option.case)
    then obtain S2 where s: "?m = Inr S2" "Inr (log_case ''CASE_ASSIGNED'' (tk_id k) S2) = (Inr S' :: desk outcome)"
      by (rule chain_InrE)
    from s(1) have "calm ?S1 S2" by (cases "tk_assigned k \<noteq> Some ?a") (simp_all add: notify_assignment_calm)
    moreover have "S' = log_case ''CASE_ASSIGNED'' (tk_id k) S2" using s(2) by (simp only: sum.inject)
    ultimately show thesis by (rule that)
  qed
  show ?thesis unfolding s(2) by (rule calm_log, rule calm_trans [OF first s(1)])
qed

lemma report_calm:
  assumes "report_overdue E row s = Inr s'"
  shows "calm (snd s) (snd s')"
proof -
  obtain m S where s: "s = (m, S)" by (cases s)
  show ?thesis
  proof (cases "snd s' = S")
    case False
    with assms obtain k S1 where k: "notify_all E (overdue_notice (ev_now E) k) (recipients (tk_tenant k) (tk_assigned k) S) S = Inr S1"
      "snd s' = set_ticket (tk_id k) (\<lambda>k. k\<lparr>tk_notified := Some (ev_now E)\<rparr>) S1"
      by (auto simp: report_overdue_def s outcome_simps Let_def split: option.splits if_splits)
    have "calm S1 (snd s')" unfolding k(2) by (rule set_ticket_calm) (simp add: case_part_def)
    with notify_calm [OF k(1)] show ?thesis by (simp add: s calm_trans)
  qed (simp add: s)
qed

lemma fold_calm_snd:
  assumes "fold_outcome f xs s = Inr s'" "\<And>x s s'. f x s = Inr s' \<Longrightarrow> calm (snd s) (snd s')"
  shows "calm (snd s) (snd s')"
  using assms(1)
proof (induction xs arbitrary: s)
  case (Cons x xs)
  then obtain s1 where "f x s = Inr s1" "fold_outcome f xs s1 = Inr s'" by (auto simp: outcome_simps)
  with Cons.IH assms(2) show ?case by (blast intro: calm_trans)
qed simp

lemma tenant_overdue_calm:
  assumes "tenant_overdue E t s = Inr s'"
  shows "calm (snd s) (snd s')"
proof -
  obtain n m S where s: "s = ((n, m), S)" by (cases s) auto
  from assms obtain r where "fold_outcome (report_overdue E) (filter (overdue_ticket (ev_now E) t) (dk_cases S)) (m, S) = Inr r"
    "snd s' = snd r"
    by (auto simp: tenant_overdue_def s outcome_simps Let_def)
  with fold_calm_snd [OF this(1) report_calm] show ?thesis by (simp add: s)
qed

lemma overdue_calm:
  assumes "processOverdueCases E S = Inr (n, S')"
  shows "calm S S'"
  using fold_calm_snd [OF assms [unfolded processOverdueCases_def] tenant_overdue_calm] by simp

lemma open_calm:
  assumes "createCase E P x S = Inr (k, S')"
  obtains S1 where "add_ticket E (pc_tenant P) x (Some (pc_admin P)) None ''Case created'' S = (k, S1)" "calm S1 S'"
proof -
  obtain q S1 where a: "add_ticket E (pc_tenant P) x (Some (pc_admin P)) None ''Case created'' S = (q, S1)" by force
  from assms a obtain S2 where f: "fold_outcome (\<lambda>u. notifyAssignment E (pc_tenant P) (tk_id q) u (pc_admin P)) (user_list (tk_assigned q)) S1 = Inr S2"
    "S' = log_case ''CASE_CREATED'' (tk_id q) S2" "k = q"
    by (auto simp: createCase_def outcome_simps)
  have "calm S1 S2" using f(1) by (rule fold_calm) (rule notify_assignment_calm)
  then have "calm S1 S'" unfolding f(2) by (rule calm_trans) simp
  with a f(3) show thesis by (intro that) simp_all
qed

lemma ask_calm:
  assumes "createBorrowerCase E B x S = Inr (k, S')"
  obtains S1 where "add_ticket E (bo_tenant B) (borrower_input B x) None (Some (bo_id B)) ''Case created by borrower'' S = (k, S1)"
    "calm S1 S'"
proof -
  obtain q S1 where a: "add_ticket E (bo_tenant B) (borrower_input B x) None (Some (bo_id B)) ''Case created by borrower'' S = (q, S1)"
    by force
  from assms a obtain S2 ti b d where f: "notifyCaseEventForAdmins E (bo_tenant B) (tk_id q) (tk_assigned q)
      ''CASE_CREATED_BY_BORROWER'' ti b d S1 = Inr S2" "S' = log_case ''CASE_CREATED_BY_BORROWER'' (tk_id q) S2" "k = q"
    by (auto simp: createBorrowerCase_def outcome_simps)
  have "calm S1 S'" unfolding f(2) using notify_admins_calm [OF f(1)] by (rule calm_trans) simp
  with a f(3) show thesis by (intro that) simp_all
qed

lemma desk_step_ok:
  assumes "desk_step c S S'" "inj c" "desk_ok c S"
  shows "desk_ok c S' \<and> notice_key ` set (mb_notices S) \<subseteq> notice_key ` set (mb_notices S')"
proof -
  have calm: ?thesis if "calm S S'"
    using desk_ok_calm [OF assms(3) that] that by (simp add: calm_def)
  have new: ?thesis if "add_ticket E t x a b r S = (k, S1)" "calm S1 S'" "ev_cuid E = c" for E t x a b r k S1
    using add_ticket_ok [OF assms(3,2) that(3,1)] desk_ok_calm [OF _ that(2)] that(2) unfolding calm_def by blast
  from assms(1) show ?thesis
  proof cases
    case opened
    then show ?thesis by (metis open_calm new)
  next
    case asked
    then show ?thesis by (metis ask_calm new)
  next
    case moved_on
    from transition_ok [OF assms(3) this] show ?thesis by simp
  qed (rule calm, (erule message_calm borrower_message_calm assign_calm overdue_calm read_calm process_calm))+
qed

lemma desk_steps_ok:
  assumes "(desk_step c)\<^sup>*\<^sup>* S S'" "inj c" "desk_ok c S"
  shows "desk_ok c S' \<and> notice_key ` set (mb_notices S) \<subseteq> notice_key ` set (mb_notices S')"
  using assms(1)
proof (induction rule: rtranclp_induct)
  case (step S1 S2)
  with desk_step_ok [OF step.hyps(2) assms(2)] show ?case by blast
qed (use assms(3) in simp)

definition empty_desk :: "db \<Rightarrow> string list \<Rightarrow> desk" where
  "empty_desk D ts =
     \<lparr>mb_db = D, mb_notices = [], mb_outbox = [], mb_sms = [], dk_cases = [], dk_messages = [], dk_steps = [], dk_tenants = ts\<rparr>"

lemma empty_desk_ok [simp]: "desk_ok c (empty_desk D ts)"
  by (simp add: desk_ok_def empty_desk_def)

text \<open>
  C39. Cases are closed only after a decision. In any order of requests, the history of a case is a walk
  along the transitions from its opening to the status it has; a case that is closed was resolved or
  rejected before, with notes that say why, and has the time of its closing.
\<close>

theorem closed_cases_were_decided:
  assumes "inj c" and "(desk_step c)\<^sup>*\<^sup>* (empty_desk D ts) S" and "k \<in> set (dk_cases S)"
  shows "walks None (steps_of (tk_id k) S) (tk_status k) \<and>
    (tk_status k = TS_CLOSED \<longrightarrow> (\<exists>h \<in> set (steps_of (tk_id k) S). ts_to h \<in> {TS_RESOLVED, TS_REJECTED}) \<and>
       tk_notes k \<noteq> None \<and> tk_closed k \<noteq> None)"
proof -
  have "desk_ok c S" using desk_steps_ok [OF assms(2,1)] by simp
  then have p: "part_ok c (db_seq (mb_db S)) (dk_steps S) (case_part k)"
    using assms(3) by (auto simp: desk_ok_def Let_def list_all_iff)
  then have w: "walks None (steps_of (tk_id k) S) (tk_status k)" by (simp add: part_ok_def case_part_def steps_of_def)
  have "\<exists>h \<in> set (steps_of (tk_id k) S). ts_to h \<in> {TS_RESOLVED, TS_REJECTED}" if "tk_status k = TS_CLOSED"
    using walks_to_closed [of None "steps_of (tk_id k) S"] w that by simp
  with p w show ?thesis by (simp add: part_ok_def case_part_def is_decided_def)
qed

section \<open>Assigned twice\<close>

text \<open>The keys of the notifications are not empty, so none of them is refused.\<close>

lemma trim_Cons_not_empty: "\<not> is_space c \<Longrightarrow> trim (c # s) \<noteq> ''''"
  by (simp add: trim_def)

lemma create_total: "trim (ni_key x) \<noteq> '''' \<Longrightarrow> \<exists>p. createNotification E x S = Inr p"
  by (auto simp: createNotification_def fresh_row_def fresh_def split: option.splits)

lemma notify_total:
  assumes "\<And>u. trim (ni_key (x u)) \<noteq> ''''"
  shows "\<exists>S'. notify_all E x us S = Inr S'"
  unfolding notify_all_def
proof (induction us arbitrary: S)
  case (Cons u us)
  obtain p where "createNotification E (x u) S = Inr p" using create_total [OF assms] by blast
  with Cons show ?case by (cases p) simp
qed simp

lemma assign_total:
  assumes "pc_role P \<in> set desk_roles" "find_ticket (pc_tenant P) i S = Some k"
  shows "\<exists>S'. desk_assignCase E P i a S = Inr S'"
proof -
  have "\<exists>S'. notifyAssignment E t j u b T = Inr S'" for t j u b T
    unfolding notifyAssignment_def
    by (rule notify_total) (simp add: app_notice_def assigned_key_def trim_Cons_not_empty is_space_def)
  then obtain f where "notifyAssignment E (pc_tenant P) (tk_id k) (optional_text (trim_or_null a) (pc_admin P)) (pc_admin P) T = Inr (f T)" for T
    by metis
  with assms show ?thesis by (simp add: desk_assignCase_def desk_assertRole_def Let_def)
qed

lemma notify_assignment_cases: "notifyAssignment E t i u b S = Inr S' \<Longrightarrow> dk_cases S' = dk_cases S"
  by (auto simp: notifyAssignment_def notify_all_def createNotification_def fresh_row_def fresh_def enqueueOutbox_def
      outcome_simps split: if_splits option.splits)

lemma assign_form:
  assumes "desk_assignCase E P i a S = Inr S'" "find_ticket (pc_tenant P) i S = Some k"
    and "optional_text (trim_or_null a) (pc_admin P) = u"
  obtains S2 where "(if tk_assigned k \<noteq> Some u
      then notifyAssignment E (pc_tenant P) i u (pc_admin P) (set_ticket i (\<lambda>k. k\<lparr>tk_assigned := Some u\<rparr>) S)
      else Inr (set_ticket i (\<lambda>k. k\<lparr>tk_assigned := Some u\<rparr>) S)) = Inr S2" "S' = log_case ''CASE_ASSIGNED'' i S2"
proof -
  have i: "tk_id k = i" using assms(2) by (auto simp: find_ticket_def dest: find_SomeD)
  let ?m = "if tk_assigned k \<noteq> Some u
      then notifyAssignment E (pc_tenant P) i u (pc_admin P) (set_ticket i (\<lambda>k. k\<lparr>tk_assigned := Some u\<rparr>) S)
      else Inr (set_ticket i (\<lambda>k. k\<lparr>tk_assigned := Some u\<rparr>) S)"
  from assms(1) [unfolded desk_assignCase_def] have "chain ?m (\<lambda>S2. Inr (log_case ''CASE_ASSIGNED'' i S2)) = Inr S'"
    by (rule chain_InrE) (simp only: Let_def assms(2,3) i option.case)
  then obtain S2 where "?m = Inr S2" "Inr (log_case ''CASE_ASSIGNED'' i S2) = (Inr S' :: desk outcome)" by (rule chain_InrE)
  then show thesis by (intro that [of S2]) simp_all
qed

lemma assign_finds:
  assumes "desk_assignCase E P i a S = Inr S'" "find_ticket (pc_tenant P) i S = Some k"
  shows "find_ticket (pc_tenant P) i S' = Some (k\<lparr>tk_assigned := Some (optional_text (trim_or_null a) (pc_admin P))\<rparr>)"
proof -
  let ?f = "\<lambda>k. k\<lparr>tk_assigned := Some (optional_text (trim_or_null a) (pc_admin P))\<rparr>"
  from assms obtain S2 where s: "(if tk_assigned k \<noteq> Some (optional_text (trim_or_null a) (pc_admin P))
      then notifyAssignment E (pc_tenant P) i (optional_text (trim_or_null a) (pc_admin P)) (pc_admin P) (set_ticket i ?f S)
      else Inr (set_ticket i ?f S)) = Inr S2" "S' = log_case ''CASE_ASSIGNED'' i S2"
    by (rule assign_form) (rule refl)
  have c: "dk_cases S' = update_where (\<lambda>k. tk_id k = i) ?f (dk_cases S)"
    using s notify_assignment_cases by (fastforce simp: log_case_def set_ticket_def split: if_splits)
  have "find (\<lambda>k. tk_id k = i \<and> tk_tenant k = pc_tenant P) (update_where (\<lambda>k. tk_id k = i) ?f ks) =
      map_option ?f (find (\<lambda>k. tk_id k = i \<and> tk_tenant k = pc_tenant P) ks)" for ks
    by (induction ks) auto
  from this [of "dk_cases S"] show ?thesis unfolding find_ticket_def c assms(2) [unfolded find_ticket_def] by simp
qed

lemma assigned_notice:
  assumes "desk_assignCase E P i a S = Inr S'" "find_ticket (pc_tenant P) i S = Some k"
    and "tk_assigned k \<noteq> Some (optional_text (trim_or_null a) (pc_admin P))"
  shows "(pc_tenant P, trim (assigned_key i (optional_text (trim_or_null a) (pc_admin P)))) \<in> notice_key ` set (mb_notices S')"
proof -
  let ?a = "optional_text (trim_or_null a) (pc_admin P)"
  obtain S2 where n: "notifyAssignment E (pc_tenant P) i ?a (pc_admin P) (set_ticket i (\<lambda>k. k\<lparr>tk_assigned := Some ?a\<rparr>) S) = Inr S2"
    and e: "S' = log_case ''CASE_ASSIGNED'' i S2"
    using assign_form [OF assms(1,2) refl] assms(3) by auto
  have S': "mb_notices S' = mb_notices S2" by (simp add: e log_case_def)
  have written: "(ni_tenant x, trim (ni_key x)) \<in> notice_key ` set (mb_notices T')"
    if c: "createNotification E x T = Inr (r, T')" for x r and T T' :: desk
  proof (cases "find (\<lambda>n. nt_tenant n = ni_tenant x \<and> nt_key n = trim (ni_key x)) (mb_notices T)")
    case (Some n)
    with c have "T' = T" by (simp add: createNotification_def split: if_splits)
    moreover have "(ni_tenant x, trim (ni_key x)) = notice_key n" using find_SomeD [OF Some] by (simp add: notice_key_def)
    ultimately show ?thesis using find_SomeD [OF Some] by simp
  next
    case None
    with c show ?thesis
      by (auto simp: createNotification_def fresh_row_def fresh_def enqueueOutbox_def notice_key_def new_notice_def split: if_splits)
  qed
  from n obtain x r where x: "createNotification E x (set_ticket i (\<lambda>k. k\<lparr>tk_assigned := Some ?a\<rparr>) S) = Inr (r, S2)"
    "ni_tenant x = pc_tenant P" "ni_key x = assigned_key i ?a"
    by (auto simp: notifyAssignment_def notify_all_def app_notice_def outcome_simps)
  from written [OF x(1)] show ?thesis by (simp add: x S')
qed

text \<open>
  C40. An admin who gets a case back is not told. The key of the notification of an assignment names only
  the case and the admin: once the case was assigned to somebody, whatever happens to it in between,
  assigning it to the same admin again writes no notification.
\<close>

theorem reassigned_admin_is_not_told:
  assumes "find_ticket (pc_tenant P) i S = Some k" and "tk_assigned k \<noteq> Some u" and "trim u = u" and "u \<noteq> ''''"
    and "desk_assignCase E P i (Some u) S = Inr S1" and "(desk_step c)\<^sup>*\<^sup>* S1 S2" and "inj c" and "desk_ok c S1"
    and "pc_tenant P' = pc_tenant P" and "desk_assignCase E' P' i (Some u) S2 = Inr S3"
  shows "mb_notices S3 = mb_notices S2 \<and> mb_outbox S3 = mb_outbox S2 \<and>
    (\<exists>k. find_ticket (pc_tenant P) i S3 = Some k \<and> tk_assigned k = Some u)"
proof -
  have a: "optional_text (trim_or_null (Some u)) b = u" for b
    using assms(3,4) by (simp add: optional_text_def trim_or_null_def)
  have "(pc_tenant P, trim (assigned_key i u)) \<in> notice_key ` set (mb_notices S1)"
    using assigned_notice [OF assms(5,1)] assms(2) by (simp add: a)
  then have old: "(pc_tenant P, trim (assigned_key i u)) \<in> notice_key ` set (mb_notices S2)"
    using desk_steps_ok [OF assms(6-8)] by blast
  have again: "S' = T" if sent: "notifyAssignment E' (pc_tenant P) i u b T = Inr S'" and same: "mb_notices T = mb_notices S2" for b S' T
  proof -
    obtain n where "find (\<lambda>n. nt_tenant n = pc_tenant P \<and> nt_key n = trim (assigned_key i u)) (mb_notices T) = Some n"
      using old same by (cases "find (\<lambda>n. nt_tenant n = pc_tenant P \<and> nt_key n = trim (assigned_key i u)) (mb_notices T)")
        (auto simp: find_None_iff notice_key_def)
    with sent show ?thesis
      by (auto simp: notifyAssignment_def notify_all_def app_notice_def createNotification_def outcome_simps split: if_splits)
  qed
  from assms(10) obtain m where m: "find_ticket (pc_tenant P) i S2 = Some m"
    by (auto simp: desk_assignCase_def assms(9) outcome_simps Let_def split: option.splits)
  note m' = m [folded assms(9)]
  obtain T' where T': "(if tk_assigned m \<noteq> Some u
      then notifyAssignment E' (pc_tenant P) i u (pc_admin P') (set_ticket i (\<lambda>k. k\<lparr>tk_assigned := Some u\<rparr>) S2)
      else Inr (set_ticket i (\<lambda>k. k\<lparr>tk_assigned := Some u\<rparr>) S2)) = Inr T'" and S3: "S3 = log_case ''CASE_ASSIGNED'' i T'"
    by (rule assign_form [OF assms(10) m' a, unfolded assms(9)])
  have T: "T' = set_ticket i (\<lambda>k. k\<lparr>tk_assigned := Some u\<rparr>) S2"
  proof (cases "tk_assigned m \<noteq> Some u")
    case True
    with T' have "notifyAssignment E' (pc_tenant P) i u (pc_admin P') (set_ticket i (\<lambda>k. k\<lparr>tk_assigned := Some u\<rparr>) S2) = Inr T'"
      by simp
    then show ?thesis by (rule again) (simp add: set_ticket_def)
  qed (use T' in simp)
  have "find_ticket (pc_tenant P) i S3 = Some (m\<lparr>tk_assigned := Some u\<rparr>)"
    using assign_finds [OF assms(10) m'] by (simp add: a assms(9))
  then show ?thesis by (simp add: S3 T log_case_def set_ticket_def)
qed

section \<open>What a borrower sees\<close>

text \<open>Only cases of his own, and no internal message.\<close>

lemma borrower_sees_own_case:
  assumes "getBorrowerCase B i S = Inr (k, ms, hs)" "distinct (map tk_id (dk_cases S))"
  shows "tk_tenant k = bo_tenant B \<and> tk_borrower k = Some (bo_id B) \<and>
    (\<forall>m \<in> set ms. tm_case m = tk_id k \<and> tm_visibility m = VIS_BORROWER)"
proof -
  from assms(1) obtain o' where o': "find (\<lambda>k. tk_id k = i \<and> tk_tenant k = bo_tenant B \<and> tk_borrower k = Some (bo_id B)) (dk_cases S) = Some o'"
    and k: "find (\<lambda>k. tk_id k = tk_id o') (dk_cases S) = Some k" and ms: "ms = messages_of (\<lambda>v. v = VIS_BORROWER) k S"
    by (auto simp: getBorrowerCase_def assertBorrowerOwnsCase_def outcome_simps split: option.splits)
  have "k = o'" using find_own_key [OF assms(2), of o'] find_SomeD [OF o'] k by auto
  with find_SomeD [OF o'] ms show ?thesis by (simp add: messages_of_def)
qed

text \<open>A rejected case is reported as overdue again and again: its scan leaves out resolved and closed ones only.\<close>

lemma rejected_case_is_overdue:
  assumes "tk_status k = TS_REJECTED" "tk_tenant k = t" "tk_due k = Some d" "d < now" "tk_notified k = Some n" "n < now - six_hours"
  shows "overdue_ticket now t k"
  using assms by (simp add: overdue_ticket_def still_overdue_def)

section \<open>Instances\<close>

definition complaint_input :: case_input where
  "complaint_input =
     \<lparr>cx_borrower = None, cx_loan = None, cx_repayment = None, cx_disbursement = None, cx_type = COMPLAINT,
      cx_priority = PR_HIGH, cx_subject = ''Fee'', cx_description = ''Too high'', cx_assigned = None\<rparr>"

definition desk_admin :: principal where
  "desk_admin = \<lparr>pc_admin = ''adm'', pc_tenant = ''ten'', pc_role = SUPER_ADMIN\<rparr>"

definition reject_input :: transition_input where
  "reject_input = \<lparr>tq_to = TS_REJECTED, tq_reason = None, tq_code = None, tq_notes = Some ''No''\<rparr>"

definition close_input :: transition_input where
  "close_input = \<lparr>tq_to = TS_CLOSED, tq_reason = None, tq_code = None, tq_notes = None\<rparr>"

definition opened_desk :: desk where
  "opened_desk = (case createCase sample_env desk_admin complaint_input (empty_desk empty_db [''ten'']) of Inr (k, S) \<Rightarrow> S
     | Inl e \<Rightarrow> empty_desk empty_db [''ten''])"

lemma opened_desk_step:
  "createCase sample_env desk_admin complaint_input (empty_desk empty_db [''ten'']) =
     Inr (new_ticket sample_env ''ten'' complaint_input (Some ''adm'') None '''', opened_desk)"
  by (simp add: opened_desk_def createCase_def desk_assertRole_def desk_roles_def desk_admin_def add_ticket_def fresh_row_def
      fresh_def empty_desk_def empty_db_def sample_env_def complaint_input_def new_ticket_def user_list_def Let_def)

lemma opened_desk_cases: "dk_cases opened_desk = [new_ticket sample_env ''ten'' complaint_input (Some ''adm'') None '''']"
  by (simp add: opened_desk_def createCase_def desk_assertRole_def desk_roles_def desk_admin_def add_ticket_def fresh_row_def
      fresh_def empty_desk_def empty_db_def sample_env_def complaint_input_def new_ticket_def user_list_def log_case_def Let_def)

lemma opened_desk_reached: "(desk_step (ev_cuid sample_env))\<^sup>*\<^sup>* (empty_desk empty_db [''ten'']) opened_desk"
  by (rule r_into_rtranclp, rule desk_step.opened [OF refl opened_desk_step])

lemma new_ticket_sample [simp]:
  "tk_id (new_ticket E t x a b i) = i" "tk_tenant (new_ticket E t x a b i) = t" "tk_status (new_ticket E t x a b i) = TS_OPEN"
  "tk_assigned (new_ticket E t x a b i) = cx_assigned x"
  by (simp_all add: new_ticket_def)

theorem closed_cases_were_decided_witness:
  "\<exists>S1 S2 k. transitionCase sample_env desk_admin '''' reject_input opened_desk = Inr S1 \<and>
     transitionCase sample_env desk_admin '''' close_input S1 = Inr S2 \<and> dk_cases S2 = [k] \<and> tk_status k = TS_CLOSED \<and>
     walks None (steps_of '''' S2) TS_CLOSED \<and> tk_notes k \<noteq> None"
proof -
  let ?k = "new_ticket sample_env ''ten'' complaint_input (Some ''adm'') None ''''"
  obtain S1 where s1: "transitionCase sample_env desk_admin '''' reject_input opened_desk = Inr S1"
    "dk_cases S1 = [transitioned sample_env reject_input ?k ?k]"
    by (simp add: transitionCase_def assertTransitionRole_def desk_admin_def reject_input_def find_ticket_def opened_desk_cases
        canTransitionCase_def trim_or_null_def trim_def is_space_def set_ticket_def log_case_def Let_def)
  obtain S2 k where s2: "transitionCase sample_env desk_admin '''' close_input S1 = Inr S2" "dk_cases S2 = [k]"
      "tk_status k = TS_CLOSED" "tk_id k = ''''"
    by (simp add: transitionCase_def assertTransitionRole_def desk_admin_def close_input_def find_ticket_def s1(2)
        canTransitionCase_def trim_or_null_def transitioned_def set_ticket_def log_case_def reject_input_def Let_def)
  have "(desk_step (ev_cuid sample_env))\<^sup>*\<^sup>* (empty_desk empty_db [''ten'']) S2"
    using opened_desk_reached desk_step.moved_on [OF s1(1)] desk_step.moved_on [OF s2(1)] by (metis rtranclp.rtrancl_into_rtrancl)
  from closed_cases_were_decided [OF sample_env_inj this, of k] s1(1) s2 show ?thesis by auto
qed

theorem reassigned_admin_is_not_told_witness:
  "\<exists>S1 S2 S3. desk_assignCase sample_env desk_admin '''' (Some ''a'') opened_desk = Inr S1 \<and>
     desk_assignCase sample_env desk_admin '''' (Some ''b'') S1 = Inr S2 \<and>
     desk_assignCase sample_env desk_admin '''' (Some ''a'') S2 = Inr S3 \<and> mb_notices S3 = mb_notices S2"
proof -
  let ?E = sample_env and ?P = desk_admin
  have t: "trim ''a'' = ''a''" "trim ''b'' = ''b''" by (simp_all add: trim_def is_space_def)
  have f: "find_ticket ''ten'' '''' opened_desk = Some (new_ticket ?E ''ten'' complaint_input (Some ''adm'') None '''')"
    by (simp add: find_ticket_def opened_desk_cases)
  have p: "pc_role ?P \<in> set desk_roles" "pc_tenant ?P = ''ten''" by (simp_all add: desk_admin_def desk_roles_def)
  obtain S1 where s1: "desk_assignCase ?E ?P '''' (Some ''a'') opened_desk = Inr S1"
    using assign_total [OF p(1)] f p(2) by metis
  obtain S2 where s2: "desk_assignCase ?E ?P '''' (Some ''b'') S1 = Inr S2"
    using assign_total [OF p(1)] assign_finds [OF s1] f p(2) by metis
  obtain S3 where s3: "desk_assignCase ?E ?P '''' (Some ''a'') S2 = Inr S3"
    using assign_total [OF p(1)] assign_finds [OF s2] assign_finds [OF s1] f p(2) by metis
  have ok: "desk_ok (ev_cuid ?E) S1"
    using desk_steps_ok [OF opened_desk_reached sample_env_inj empty_desk_ok] desk_ok_calm [OF _ assign_calm [OF s1]] by blast
  have "(desk_step (ev_cuid ?E))\<^sup>*\<^sup>* S1 S2" by (rule r_into_rtranclp, rule desk_step.assigned [OF refl s2])
  from reassigned_admin_is_not_told [OF _ _ t(1) _ s1 this sample_env_inj ok refl s3, of "new_ticket ?E ''ten'' complaint_input (Some ''adm'') None ''''"]
  have "mb_notices S3 = mb_notices S2" using f p(2) by (simp add: complaint_input_def)
  with s1 s2 s3 show ?thesis by blast
qed

end
