(* ===== verification/Fraud.thy ===== *)
theory Fraud
  imports Notifications LoanApplications
begin

text \<open>
  Fraud, \<open>modules/fraud\<close>: the evaluation of an application and its alerts
  (\<open>fraud-evaluator.service.ts\<close>), the score of a borrower (\<open>fraud-scoring.service.ts\<close>), the automatic and
  manual holds (\<open>fraud-rules.service.ts\<close>, \<open>admin-fraud.controller.ts\<close>), single events
  (\<open>risk-event.service.ts\<close>) and the worker's scan (\<open>fraud-worker.processor.ts\<close>). The queries for open
  alerts and active holds are those of \<open>Risk\<close>. The metadata of a signal is only shown and left out. The score
  is a sum of products of floating point numbers, whose operations are parameters.
\<close>

section \<open>Data\<close>

datatype signal_type =
    SG_MULTIPLE_APPLICATIONS | SG_DEVICE_MISMATCH | SG_HIGH_RISK_SCORE | SG_REPAYMENT_ANOMALY | SG_GEO_MISMATCH
  | SG_MANUAL_FLAG | SG_LOGIN_FAILED | SG_OTP_FAILED | SG_DEVICE_CHANGED | SG_MULTIPLE_ACCOUNTS
  | SG_BANK_ACCOUNT_CHANGED | SG_REPAYMENT_REVERSAL | SG_CARD_CHARGEBACK | SG_PAYMENT_VELOCITY
  | SG_COLLECTIONS_ESCALATION | SG_MANUAL_REVIEW | SG_ADMIN_OVERRIDE | SG_IP_GEO_ANOMALY

datatype fraud_level = FL_NONE | FL_LOW | FL_MEDIUM | FL_HIGH | FL_SEVERE

record signal =
  sg_id :: string
  sg_tenant :: string
  sg_borrower :: "string option"
  sg_loan :: "string option"
  sg_type :: signal_type
  sg_severity :: severity
  sg_source :: string
  sg_impact :: int
  sg_created :: int

record alert_link =
  ak_tenant :: string
  ak_alert :: string
  ak_signal :: string

record blacklisted =
  bk_tenant :: string
  bk_type :: string
  bk_value :: string

record aggregate =
  ag_id :: string
  ag_tenant :: string
  ag_borrower :: string
  ag_score :: int
  ag_level :: fraud_level
  ag_flags :: "string list"
  ag_evaluated :: int

record behavior =
  be_tenant :: string
  be_borrower :: string
  be_applications :: int
  be_approved :: int
  be_rejected :: int
  be_disbursed :: decimal
  be_repaid :: decimal
  be_defaults :: int
  be_last_application :: "int option"
  be_last_repayment :: "int option"

record decision_policy =
  dp_id :: string
  dp_tenant :: string
  dp_product :: "string option"
  dp_approve_min :: int
  dp_review_min :: int
  dp_max_exposure :: decimal
  dp_hard_blocks :: "string list"
  dp_reeval :: bool
  dp_active :: bool
  dp_updated :: int

text \<open>\<open>fd_created\<close> is the column \<open>createdAt\<close> of the loans.\<close>

record fraud_desk = mailbox +
  fd_signals :: "signal list"
  fd_links :: "alert_link list"
  fd_blacklist :: "blacklisted list"
  fd_aggregates :: "aggregate list"
  fd_behavior :: "behavior list"
  fd_policies :: "decision_policy list"
  fd_created :: "string \<Rightarrow> int"

definition hours :: "int \<Rightarrow> int" where
  "hours n = n * 60 * 60 * 1000"

section \<open>What an application triggers\<close>

type_synonym trigger = "signal_type \<times> severity \<times> int"

definition highestSeverity :: "severity list \<Rightarrow> severity" where
  "highestSeverity xs = fold (\<lambda>x m. if severity_rank m < severity_rank x then x else m) xs SEV_LOW"

definition toBorrowerIdFromLoan :: "loan \<Rightarrow> string" where
  "toBorrowerIdFromLoan l = trim (l_phone l)"

definition device_of :: "loan \<Rightarrow> string option" where
  "device_of l = (case l_device l of None \<Rightarrow> None | Some d \<Rightarrow> if d = '''' then None else Some d)"

definition blacklist_rule :: "string \<Rightarrow> loan \<Rightarrow> 'a fraud_desk_scheme \<Rightarrow> trigger list" where
  "blacklist_rule t l S =
     (if \<exists>b \<in> set (fd_blacklist S). bk_tenant b = t \<and>
           ((bk_type b = ''PHONE'' \<and> bk_value b = l_phone l) \<or> (bk_type b = ''DEVICE_ID'' \<and> Some (bk_value b) = device_of l))
      then [(SG_MANUAL_FLAG, SEV_CRITICAL, 300)] else [])"

definition velocity_rule :: "int \<Rightarrow> string \<Rightarrow> loan \<Rightarrow> 'a fraud_desk_scheme \<Rightarrow> trigger list" where
  "velocity_rule now t l S =
     (if 2 < length (filter (\<lambda>m. l_tenant m = t \<and> l_phone m = l_phone l \<and> now - hours 24 \<le> fd_created S (l_id m)) (db_loans (mb_db S)))
      then [(SG_MULTIPLE_APPLICATIONS, SEV_MEDIUM, 40)] else [])"

text \<open>A score above 100 is taken for one out of 1000.\<close>

definition normalizedRiskScore :: "int \<Rightarrow> rat" where
  "normalizedRiskScore s = (if 100 < s then of_int s / 10 else of_int s)"

definition score_rule :: "loan \<Rightarrow> trigger list" where
  "score_rule l =
     (case l_risk_score l of
        None \<Rightarrow> []
      | Some s \<Rightarrow> if 75 < normalizedRiskScore s then [(SG_HIGH_RISK_SCORE, SEV_HIGH, 80)] else [])"

definition behavior_of :: "string \<Rightarrow> string \<Rightarrow> 'a fraud_desk_scheme \<Rightarrow> behavior option" where
  "behavior_of t b S = find (\<lambda>x. be_tenant x = t \<and> be_borrower x = b) (fd_behavior S)"

definition behavior_rule :: "string \<Rightarrow> loan \<Rightarrow> 'a fraud_desk_scheme \<Rightarrow> trigger list" where
  "behavior_rule t l S =
     (if 2 \<le> (case behavior_of t (toBorrowerIdFromLoan l) S of Some x \<Rightarrow> be_defaults x | None \<Rightarrow> 0)
      then [(SG_REPAYMENT_ANOMALY, SEV_HIGH, 90)] else [])"

definition device_rule :: "int \<Rightarrow> string \<Rightarrow> loan \<Rightarrow> 'a fraud_desk_scheme \<Rightarrow> trigger list" where
  "device_rule now t l S =
     (case device_of l of
        None \<Rightarrow> []
      | Some d \<Rightarrow>
          (let rows = filter (\<lambda>m. l_tenant m = t \<and> l_device m = Some d \<and> now - hours (7 * 24) \<le> fd_created S (l_id m)) (db_loans (mb_db S))
           in if 1 < length (remdups (map (\<lambda>m. trim (l_phone m)) rows)) then [(SG_DEVICE_MISMATCH, SEV_MEDIUM, 50)] else []))"

definition active_policy :: "string \<Rightarrow> 'a fraud_desk_scheme \<Rightarrow> decision_policy option" where
  "active_policy t S =
     find (\<lambda>p. True) (sort_key (\<lambda>p. - dp_updated p) (filter (\<lambda>p. dp_tenant p = t \<and> dp_active p \<and> dp_product p = None) (fd_policies S)))"

definition active_exposure :: "string \<Rightarrow> loan \<Rightarrow> db \<Rightarrow> decimal" where
  "active_exposure t l D =
     (\<Sum>m\<leftarrow>filter (\<lambda>m. l_tenant m = t \<and> l_phone m = l_phone l \<and> l_id m \<noteq> l_id l \<and> l_status m \<in> set active_loan_statuses) (db_loans D).
        l_out_principal m)"

definition exposure_rule :: "string \<Rightarrow> loan \<Rightarrow> 'a fraud_desk_scheme \<Rightarrow> trigger list" where
  "exposure_rule t l S =
     (case active_policy t S of
        None \<Rightarrow> []
      | Some p \<Rightarrow> if dp_max_exposure p < active_exposure t l (mb_db S) + l_requested l
                 then [(SG_HIGH_RISK_SCORE, SEV_HIGH, 60)] else [])"

definition triggered :: "int \<Rightarrow> string \<Rightarrow> loan \<Rightarrow> 'a fraud_desk_scheme \<Rightarrow> trigger list" where
  "triggered now t l S =
     blacklist_rule t l S @ velocity_rule now t l S @ score_rule l @ behavior_rule t l S @ device_rule now t l S @ exposure_rule t l S"

definition new_signal ::
  "env \<Rightarrow> string \<Rightarrow> string option \<Rightarrow> string option \<Rightarrow> string \<Rightarrow> trigger \<Rightarrow> 'a fraud_desk_scheme \<Rightarrow> signal \<times> 'a fraud_desk_scheme" where
  "new_signal E t borrower loan source x S =
     (case x of (ty, sev, impact) \<Rightarrow>
      case fresh_row E S of (i, S1) \<Rightarrow>
        let g = \<lparr>sg_id = i, sg_tenant = t, sg_borrower = borrower, sg_loan = loan, sg_type = ty, sg_severity = sev,
              sg_source = source, sg_impact = impact, sg_created = ev_now E\<rparr>
        in (g, S1\<lparr>fd_signals := fd_signals S1 @ [g]\<rparr>))"

fun new_signals ::
  "env \<Rightarrow> string \<Rightarrow> string option \<Rightarrow> string option \<Rightarrow> trigger list \<Rightarrow> 'a fraud_desk_scheme \<Rightarrow> signal list \<times> 'a fraud_desk_scheme" where
  "new_signals E t b l [] S = ([], S)"
| "new_signals E t b l (x # xs) S =
     (case new_signal E t b l ''system'' x S of (g, S1) \<Rightarrow>
      case new_signals E t b l xs S1 of (gs, S2) \<Rightarrow> (g # gs, S2))"

section \<open>Alerts\<close>

definition open_alert :: "string \<Rightarrow> string \<Rightarrow> fraud_alert \<Rightarrow> bool" where
  "open_alert t loan a \<longleftrightarrow> fa_tenant a = t \<and> fa_loan a = Some loan \<and> fa_status a \<in> {AL_OPEN, AL_INVESTIGATING, AL_ESCALATED}"

definition set_alert :: "string \<Rightarrow> (fraud_alert \<Rightarrow> fraud_alert) \<Rightarrow> 'a fraud_desk_scheme \<Rightarrow> 'a fraud_desk_scheme" where
  "set_alert i f S = S\<lparr>mb_db := (mb_db S)\<lparr>db_alerts := update_where (\<lambda>a. fa_id a = i) f (db_alerts (mb_db S))\<rparr>\<rparr>"

definition link_signal :: "string \<Rightarrow> string \<Rightarrow> string \<Rightarrow> 'a fraud_desk_scheme \<Rightarrow> 'a fraud_desk_scheme" where
  "link_signal t alert s S =
     (if \<exists>k \<in> set (fd_links S). ak_alert k = alert \<and> ak_signal k = s then S
      else S\<lparr>fd_links := fd_links S @ [\<lparr>ak_tenant = t, ak_alert = alert, ak_signal = s\<rparr>]\<rparr>)"

fun severity_text :: "severity \<Rightarrow> string" where
  "severity_text SEV_LOW = ''LOW''"
| "severity_text SEV_MEDIUM = ''MEDIUM''"
| "severity_text SEV_HIGH = ''HIGH''"
| "severity_text SEV_CRITICAL = ''CRITICAL''"

definition alert_notice :: "string \<Rightarrow> string \<Rightarrow> severity \<Rightarrow> string \<Rightarrow> string \<Rightarrow> notice_input" where
  "alert_notice t loan sev a u =
     app_notice t TO_ADMIN ''FRAUD_ALERT_CREATED'' ''Fraud Alert Created'' (''Fraud alert opened for loan '' @ loan @ ''.'') u
       (VObj [(''loanApplicationId'', VStr loan), (''severity'', VStr (severity_text sev)), (''alertId'', VStr a)])
       (''fraud-alert:'' @ a @ '':admin:'' @ u)"

definition new_alert :: "env \<Rightarrow> string \<Rightarrow> string \<Rightarrow> string \<Rightarrow> severity \<Rightarrow> string \<Rightarrow> fraud_alert" where
  "new_alert E t loan borrower sev i =
     \<lparr>fa_id = i, fa_tenant = t, fa_borrower = Some borrower, fa_loan = Some loan, fa_status = AL_OPEN, fa_severity = sev,
      fa_auto = True, fa_resolved_by = None, fa_resolved = None, fa_notes = None, fa_created = ev_now E\<rparr>"

definition put_alert :: "fraud_alert \<Rightarrow> 'a fraud_desk_scheme \<Rightarrow> 'a fraud_desk_scheme" where
  "put_alert a S = S\<lparr>mb_db := (mb_db S)\<lparr>db_alerts := db_alerts (mb_db S) @ [a]\<rparr>\<rparr>"

definition ensureAlertForSignals ::
  "env \<Rightarrow> string \<Rightarrow> string \<Rightarrow> string \<Rightarrow> severity \<Rightarrow> string list \<Rightarrow> 'a fraud_desk_scheme \<Rightarrow> 'a fraud_desk_scheme outcome" where
  "ensureAlertForSignals E t loan borrower sev signals S =
     (case find (open_alert t loan) (db_alerts (mb_db S)) of
        Some a \<Rightarrow>
          (let S1 = (if severity_rank (fa_severity a) < severity_rank sev
                     then set_alert (fa_id a) (\<lambda>b. b\<lparr>fa_severity := sev, fa_status := AL_OPEN\<rparr>) S else S)
           in Inr (fold (link_signal t (fa_id a)) signals S1))
      | None \<Rightarrow>
          (case fresh_row E S of (i, S1) \<Rightarrow>
             let S2 = fold (link_signal t i) signals (put_alert (new_alert E t loan borrower sev i) S1)
             in notify_all E (alert_notice t loan sev i) (admins_with t [CREDIT_OFFICER, SUPER_ADMIN] (mb_db S2)) S2))"

text \<open>The answer: whether the application is blocked, and the signals.\<close>

definition evaluateApplication ::
  "env \<Rightarrow> string \<Rightarrow> string \<Rightarrow> 'a fraud_desk_scheme \<Rightarrow> ((bool \<times> signal list) \<times> 'a fraud_desk_scheme) outcome" where
  "evaluateApplication E i t S =
     (case find_loan t i (mb_db S) of
        None \<Rightarrow> Inl (NotFound ''Loan application not found for fraud evaluation.'')
      | Some l \<Rightarrow>
          chain (assertTenantMatch (l_tenant l) t) (\<lambda>_.
          let b = toBorrowerIdFromLoan l; xs = triggered (ev_now E) t l S
          in if xs = [] then Inr ((False, []), S)
             else case new_signals E t (Some b) (Some (l_id l)) xs S of (gs, S1) \<Rightarrow>
               let sevs = map sg_severity gs; top = highestSeverity sevs
               in chain (if severity_rank SEV_HIGH \<le> severity_rank top
                         then ensureAlertForSignals E t (l_id l) b top (map sg_id gs) S1 else Inr S1) (\<lambda>S2.
                  Inr ((SEV_CRITICAL \<in> set sevs, gs), S2))))"

definition newest_open_alert :: "string \<Rightarrow> string \<Rightarrow> 'a fraud_desk_scheme \<Rightarrow> fraud_alert option" where
  "newest_open_alert t loan S = find (open_alert t loan) (sort_key (\<lambda>a. - fa_created a) (db_alerts (mb_db S)))"

definition createManualFlag ::
  "env \<Rightarrow> string \<Rightarrow> string \<Rightarrow> severity option \<Rightarrow> 'a fraud_desk_scheme \<Rightarrow> ((string \<times> string option) \<times> 'a fraud_desk_scheme) outcome" where
  "createManualFlag E t loan severity S =
     (case find_loan t loan (mb_db S) of
        None \<Rightarrow> Inl (NotFound ''Loan application not found for manual fraud flag.'')
      | Some l \<Rightarrow>
          (let sev = (case severity of Some s \<Rightarrow> s | None \<Rightarrow> SEV_HIGH); b = toBorrowerIdFromLoan l
           in case new_signal E t (Some b) (Some (l_id l)) ''system'' (SG_MANUAL_FLAG, sev, 100) S of (g, S1) \<Rightarrow>
             if severity_rank SEV_HIGH \<le> severity_rank sev
             then chain (ensureAlertForSignals E t (l_id l) b sev [sg_id g] S1) (\<lambda>S2.
               Inr ((sg_id g, map_option fa_id (newest_open_alert t (l_id l) S2)), S2))
             else Inr ((sg_id g, None), S1)))"

definition updateAlertStatus ::
  "env \<Rightarrow> string \<Rightarrow> string \<Rightarrow> alert_status \<Rightarrow> string \<Rightarrow> string option \<Rightarrow> 'a fraud_desk_scheme \<Rightarrow> 'a fraud_desk_scheme outcome" where
  "updateAlertStatus E t alertId status adminId note S =
     (case find (\<lambda>a. fa_id a = alertId \<and> fa_tenant a = t) (db_alerts (mb_db S)) of
        None \<Rightarrow> Inl (NotFound ''Fraud alert not found.'')
      | Some _ \<Rightarrow>
          (let final = status \<in> {AL_RESOLVED, AL_FALSE_POSITIVE}
           in Inr (set_alert alertId (\<lambda>a. a\<lparr>fa_status := status, fa_resolved_by := (if final then Some adminId else None),
                fa_resolved := (if final then Some (ev_now E) else None), fa_notes := trim_or_null note\<rparr>) S)))"

section \<open>The behaviour of a borrower\<close>

record behavior_update =
  bu_applications :: "int option"
  bu_approved :: "int option"
  bu_rejected :: "int option"
  bu_disbursed :: "decimal option"
  bu_repaid :: "decimal option"
  bu_defaults :: "int option"
  bu_last_application :: "int option option"
  bu_last_repayment :: "int option option"

definition or_zero :: "'a :: zero option \<Rightarrow> 'a" where
  "or_zero x = (case x of Some v \<Rightarrow> v | None \<Rightarrow> 0)"

definition increment :: "int option \<Rightarrow> int" where
  "increment x = max 0 (or_zero x)"

definition raised :: "behavior_update \<Rightarrow> behavior \<Rightarrow> behavior" where
  "raised u x =
     x\<lparr>be_applications := be_applications x + increment (bu_applications u),
       be_approved := be_approved x + increment (bu_approved u), be_rejected := be_rejected x + increment (bu_rejected u),
       be_disbursed := money (be_disbursed x + or_zero (bu_disbursed u)), be_repaid := money (be_repaid x + or_zero (bu_repaid u)),
       be_defaults := be_defaults x + increment (bu_defaults u),
       be_last_application := (case bu_last_application u of Some d \<Rightarrow> d | None \<Rightarrow> be_last_application x),
       be_last_repayment := (case bu_last_repayment u of Some d \<Rightarrow> d | None \<Rightarrow> be_last_repayment x)\<rparr>"

definition incrementBehaviorSnapshot :: "string \<Rightarrow> string \<Rightarrow> behavior_update \<Rightarrow> 'a fraud_desk_scheme \<Rightarrow> 'a fraud_desk_scheme outcome" where
  "incrementBehaviorSnapshot t borrowerId u S =
     (let b = trim borrowerId
      in if b = '''' then Inl (BadRequest ''borrowerId is required for behavior snapshot update.'')
         else case behavior_of t b S of
           None \<Rightarrow> Inr (S\<lparr>fd_behavior := fd_behavior S @
             [\<lparr>be_tenant = t, be_borrower = b, be_applications = increment (bu_applications u),
               be_approved = increment (bu_approved u), be_rejected = increment (bu_rejected u),
               be_disbursed = money (or_zero (bu_disbursed u)), be_repaid = money (or_zero (bu_repaid u)),
               be_defaults = increment (bu_defaults u),
               be_last_application = (case bu_last_application u of Some d \<Rightarrow> d | None \<Rightarrow> None),
               be_last_repayment = (case bu_last_repayment u of Some d \<Rightarrow> d | None \<Rightarrow> None)\<rparr>]\<rparr>)
         | Some _ \<Rightarrow> Inr (S\<lparr>fd_behavior := update_where (\<lambda>x. be_tenant x = t \<and> be_borrower x = b) (raised u) (fd_behavior S)\<rparr>))"

section \<open>The score of a borrower\<close>

text \<open>
  The rounding of floating point operations, a parameter: IEEE 754 rounds in the order of the numbers, keeps
  what is rounded, and keeps a fraction whose numerator is a 53 bit integer and whose denominator is a power
  of two.
\<close>

definition rounding :: "(rat \<Rightarrow> rat) \<Rightarrow> bool" where
  "rounding fl \<longleftrightarrow> mono fl \<and> (\<forall>x. fl (fl x) = fl x) \<and> (\<forall>n k. \<bar>n\<bar> \<le> 2 ^ 53 \<longrightarrow> k \<le> 1000 \<longrightarrow> fl (of_int n / 2 ^ k) = of_int n / 2 ^ k)"

fun type_weight :: "signal_type \<Rightarrow> int" where
  "type_weight SG_MULTIPLE_APPLICATIONS = 40"
| "type_weight SG_DEVICE_MISMATCH = 60"
| "type_weight SG_HIGH_RISK_SCORE = 70"
| "type_weight SG_REPAYMENT_ANOMALY = 90"
| "type_weight SG_GEO_MISMATCH = 50"
| "type_weight SG_MANUAL_FLAG = 120"
| "type_weight SG_LOGIN_FAILED = 15"
| "type_weight SG_OTP_FAILED = 20"
| "type_weight SG_DEVICE_CHANGED = 35"
| "type_weight SG_MULTIPLE_ACCOUNTS = 100"
| "type_weight SG_BANK_ACCOUNT_CHANGED = 80"
| "type_weight SG_REPAYMENT_REVERSAL = 130"
| "type_weight SG_CARD_CHARGEBACK = 160"
| "type_weight SG_PAYMENT_VELOCITY = 120"
| "type_weight SG_COLLECTIONS_ESCALATION = 70"
| "type_weight SG_MANUAL_REVIEW = 35"
| "type_weight SG_ADMIN_OVERRIDE = 55"
| "type_weight SG_IP_GEO_ANOMALY = 65"

fun severity_factor :: "severity \<Rightarrow> rat" where
  "severity_factor SEV_LOW = 1"
| "severity_factor SEV_MEDIUM = 7 / 5"
| "severity_factor SEV_HIGH = 9 / 5"
| "severity_factor SEV_CRITICAL = 23 / 10"

definition toFraudLevel :: "int \<Rightarrow> fraud_level" where
  "toFraudLevel s =
     (if 700 \<le> s then FL_SEVERE else if 500 \<le> s then FL_HIGH else if 300 \<le> s then FL_MEDIUM
      else if 150 \<le> s then FL_LOW else FL_NONE)"

definition clampFraudScore :: "rat \<Rightarrow> int" where
  "clampFraudScore s = (if s < 0 then 0 else if 1000 < s then 1000 else js_round s)"

definition recencyMultiplier :: "int \<Rightarrow> int \<Rightarrow> rat" where
  "recencyMultiplier created now =
     (if now - created \<le> hours 24 then 3 / 2 else if now - created \<le> hours (14 * 24) then 1 else 3 / 5)"

definition signal_points :: "(rat \<Rightarrow> rat) \<Rightarrow> int \<Rightarrow> signal \<Rightarrow> rat" where
  "signal_points fl now g =
     fl (fl (of_int (type_weight (sg_type g)) * fl (severity_factor (sg_severity g))) * fl (recencyMultiplier (sg_created g) now))"

definition add_points :: "(rat \<Rightarrow> rat) \<Rightarrow> int \<Rightarrow> rat \<Rightarrow> signal \<Rightarrow> rat" where
  "add_points fl now s g = fl (s + signal_points fl now g)"

definition borrower_signals :: "int \<Rightarrow> string \<Rightarrow> string \<Rightarrow> 'a fraud_desk_scheme \<Rightarrow> signal list" where
  "borrower_signals now t b S =
     take 500 (sort_key (\<lambda>g. - sg_created g)
       (filter (\<lambda>g. sg_tenant g = t \<and> sg_borrower g = Some b \<and> now - hours (30 * 24) \<le> sg_created g) (fd_signals S)))"

definition count_since :: "signal_type list \<Rightarrow> int \<Rightarrow> signal list \<Rightarrow> nat" where
  "count_since types since gs = length (filter (\<lambda>g. sg_type g \<in> set types \<and> since \<le> sg_created g) gs)"

record fraud_counters =
  ct_logins :: nat
  ct_payments :: nat
  ct_bank :: nat
  ct_device :: nat

definition counters_of :: "int \<Rightarrow> signal list \<Rightarrow> fraud_counters" where
  "counters_of now gs =
     \<lparr>ct_logins = count_since [SG_LOGIN_FAILED] (now - hours 1) gs,
      ct_payments = count_since [SG_PAYMENT_VELOCITY, SG_REPAYMENT_REVERSAL, SG_CARD_CHARGEBACK] (now - hours 24) gs,
      ct_bank = count_since [SG_BANK_ACCOUNT_CHANGED] (now - hours (7 * 24)) gs,
      ct_device = count_since [SG_DEVICE_CHANGED, SG_DEVICE_MISMATCH] (now - hours (14 * 24)) gs\<rparr>"

text \<open>The flags with what each adds to the score.\<close>

definition raised_flags :: "fraud_counters \<Rightarrow> (string \<times> int) list" where
  "raised_flags c =
     (if 5 \<le> ct_logins c then [(''FAILED_LOGIN_SPIKE'', 90)] else []) @
     (if 4 \<le> ct_payments c then [(''PAYMENT_VELOCITY_SPIKE'', 130)] else []) @
     (if 2 \<le> ct_bank c then [(''BANK_ACCOUNT_CHANGED_REPEAT'', 120)] else []) @
     (if 3 \<le> ct_device c then [(''DEVICE_CHANGE_SPIKE'', 90)] else [])"

definition borrower_score :: "(rat \<Rightarrow> rat) \<Rightarrow> int \<Rightarrow> signal list \<Rightarrow> int" where
  "borrower_score fl now gs =
     clampFraudScore (foldl (\<lambda>s x. fl (s + of_int (snd x))) (foldl (add_points fl now) 0 gs) (raised_flags (counters_of now gs)))"

definition evaluateBorrower ::
  "(rat \<Rightarrow> rat) \<Rightarrow> env \<Rightarrow> string \<Rightarrow> string \<Rightarrow> 'a fraud_desk_scheme \<Rightarrow> (aggregate \<times> fraud_counters) \<times> 'a fraud_desk_scheme" where
  "evaluateBorrower fl E t b S =
     (let gs = borrower_signals (ev_now E) t b S; c = counters_of (ev_now E) gs; score = borrower_score fl (ev_now E) gs;
          rate = (\<lambda>a. a\<lparr>ag_score := score, ag_level := toFraudLevel score, ag_flags := map fst (raised_flags c),
                   ag_evaluated := ev_now E\<rparr>)
      in case find (\<lambda>a. ag_tenant a = t \<and> ag_borrower a = b) (fd_aggregates S) of
           Some a \<Rightarrow> ((rate a, c), S\<lparr>fd_aggregates := update_where (\<lambda>a. ag_tenant a = t \<and> ag_borrower a = b) rate (fd_aggregates S)\<rparr>)
         | None \<Rightarrow>
             (case fresh_row E S of (i, S1) \<Rightarrow>
                let a = \<lparr>ag_id = i, ag_tenant = t, ag_borrower = b, ag_score = score, ag_level = toFraudLevel score,
                      ag_flags = map fst (raised_flags c), ag_evaluated = ev_now E\<rparr>
                in ((a, c), S1\<lparr>fd_aggregates := fd_aggregates S1 @ [a]\<rparr>)))"

section \<open>Holds\<close>

fun level_text :: "fraud_level \<Rightarrow> string" where
  "level_text FL_NONE = ''NONE''"
| "level_text FL_LOW = ''LOW''"
| "level_text FL_MEDIUM = ''MEDIUM''"
| "level_text FL_HIGH = ''HIGH''"
| "level_text FL_SEVERE = ''SEVERE''"

definition holds_borrower :: "string \<Rightarrow> string \<Rightarrow> borrower_hold \<Rightarrow> bool" where
  "holds_borrower t b h \<longleftrightarrow> bh_tenant h = t \<and> bh_borrower h = b \<and> bh_active h"

definition createHold ::
  "env \<Rightarrow> string \<Rightarrow> string \<Rightarrow> string \<Rightarrow> string option \<Rightarrow> bool \<Rightarrow> 'a fraud_desk_scheme \<Rightarrow> borrower_hold \<times> 'a fraud_desk_scheme" where
  "createHold E t b reason admin system S =
     (case find (holds_borrower t b) (db_borrower_holds (mb_db S)) of
        Some h \<Rightarrow> (h, S)
      | None \<Rightarrow>
          (case fresh_row E S of (i, S1) \<Rightarrow>
             let h = \<lparr>bh_id = i, bh_tenant = t, bh_borrower = b, bh_reason = trim reason, bh_admin = admin, bh_system = system,
                   bh_active = True, bh_released = None, bh_release_reason = None, bh_created = ev_now E\<rparr>
             in (h, S1\<lparr>mb_db := (mb_db S1)\<lparr>db_borrower_holds := db_borrower_holds (mb_db S1) @ [h]\<rparr>\<rparr>)))"

definition shouldHold :: "fraud_level \<Rightarrow> string list \<Rightarrow> nat \<Rightarrow> bool" where
  "shouldHold level flags bankChanges \<longleftrightarrow>
     level = FL_SEVERE \<or> level = FL_HIGH \<and> ''PAYMENT_VELOCITY_SPIKE'' \<in> set flags \<or> level = FL_MEDIUM \<and> 2 \<le> bankChanges"

definition applyAutoHoldRules ::
  "env \<Rightarrow> string \<Rightarrow> string \<Rightarrow> aggregate \<Rightarrow> fraud_counters \<Rightarrow> 'a fraud_desk_scheme \<Rightarrow> borrower_hold option \<times> 'a fraud_desk_scheme" where
  "applyAutoHoldRules E t b a c S =
     (if shouldHold (ag_level a) (ag_flags a) (ct_bank c)
      then case createHold E t b (''Auto hold triggered by fraud level '' @ level_text (ag_level a)) None True S of
             (h, S1) \<Rightarrow> (Some h, S1)
      else (None, S))"

definition releaseHold ::
  "env \<Rightarrow> string \<Rightarrow> string \<Rightarrow> string \<Rightarrow> string \<Rightarrow> 'a fraud_desk_scheme \<Rightarrow> (borrower_hold \<times> 'a fraud_desk_scheme) outcome" where
  "releaseHold E t b admin reason S =
     (case find (holds_borrower t b) (sort_key (\<lambda>h. - bh_created h) (db_borrower_holds (mb_db S))) of
        None \<Rightarrow> Inl (BadRequest ''No active hold found for borrower.'')
      | Some h \<Rightarrow>
          (let f = (\<lambda>h. h\<lparr>bh_active := False, bh_released := Some (ev_now E), bh_release_reason := Some (trim reason),
                 bh_admin := (case bh_admin h of Some a \<Rightarrow> Some a | None \<Rightarrow> Some admin)\<rparr>)
           in Inr (f h, S\<lparr>mb_db := (mb_db S)\<lparr>db_borrower_holds :=
                update_where (\<lambda>k. bh_id k = bh_id h) f (db_borrower_holds (mb_db S))\<rparr>\<rparr>)))"

section \<open>Events\<close>

fun base_impact :: "signal_type \<Rightarrow> int option" where
  "base_impact SG_LOGIN_FAILED = Some 15"
| "base_impact SG_OTP_FAILED = Some 20"
| "base_impact SG_DEVICE_CHANGED = Some 30"
| "base_impact SG_MULTIPLE_ACCOUNTS = Some 80"
| "base_impact SG_BANK_ACCOUNT_CHANGED = Some 60"
| "base_impact SG_REPAYMENT_REVERSAL = Some 120"
| "base_impact SG_CARD_CHARGEBACK = Some 140"
| "base_impact SG_PAYMENT_VELOCITY = Some 110"
| "base_impact SG_COLLECTIONS_ESCALATION = Some 70"
| "base_impact SG_MANUAL_REVIEW = Some 30"
| "base_impact SG_ADMIN_OVERRIDE = Some 50"
| "base_impact SG_IP_GEO_ANOMALY = Some 60"
| "base_impact _ = None"

fun impact_factor :: "severity \<Rightarrow> rat" where
  "impact_factor SEV_LOW = 1"
| "impact_factor SEV_MEDIUM = 7 / 5"
| "impact_factor SEV_HIGH = 9 / 5"
| "impact_factor SEV_CRITICAL = 12 / 5"

definition score_impact :: "(rat \<Rightarrow> rat) \<Rightarrow> signal_type \<Rightarrow> severity \<Rightarrow> int" where
  "score_impact fl ty sev =
     js_round (fl (of_int (case base_impact ty of Some n \<Rightarrow> n | None \<Rightarrow> 25) * fl (impact_factor sev)))"

definition createEvent ::
  "(rat \<Rightarrow> rat) \<Rightarrow> env \<Rightarrow> string \<Rightarrow> string option \<Rightarrow> string option \<Rightarrow> signal_type \<Rightarrow> severity \<Rightarrow> string \<Rightarrow>
     'a fraud_desk_scheme \<Rightarrow> (signal \<times> 'a fraud_desk_scheme) outcome" where
  "createEvent fl E t b loan ty sev source S =
     (if (\<exists>x \<in> set_option b. trim x = '''') \<or> (\<exists>x \<in> set_option loan. trim x = '''') \<or>
         trim source = '''' \<or> 64 < length (trim source)
      then Inl (BadRequest ''Invalid risk event payload.'')
      else Inr (new_signal E t (map_option trim b) (map_option trim loan) (trim source) (ty, sev, score_impact fl ty sev) S))"

section \<open>The desk of the administrators\<close>

definition noted :: "string \<Rightarrow> string \<Rightarrow> string \<Rightarrow> 'a fraud_desk_scheme \<Rightarrow> 'a fraud_desk_scheme" where
  "noted action entity i S = S\<lparr>mb_db := emit (AuditEvent action entity i) (mb_db S)\<rparr>"

definition listAlerts :: "string \<Rightarrow> alert_status option \<Rightarrow> severity option \<Rightarrow> bool \<Rightarrow> 'a fraud_desk_scheme \<Rightarrow> fraud_alert list" where
  "listAlerts t status sev onlyOpen S =
     sort_key (\<lambda>a. - fa_created a)
       (filter (\<lambda>a. fa_tenant a = t \<and> (case status of Some s \<Rightarrow> fa_status a = s
                  | None \<Rightarrow> onlyOpen \<longrightarrow> fa_status a \<in> {AL_OPEN, AL_INVESTIGATING, AL_ESCALATED}) \<and>
                 (\<forall>s \<in> set_option sev. fa_severity a = s)) (db_alerts (mb_db S)))"

text \<open>The status of the body: back to \<open>OPEN\<close> is not among the choices.\<close>

definition updateAlert ::
  "env \<Rightarrow> principal \<Rightarrow> string \<Rightarrow> alert_status \<Rightarrow> string option \<Rightarrow> 'a fraud_desk_scheme \<Rightarrow> 'a fraud_desk_scheme outcome" where
  "updateAlert E P i status remark S =
     (if status = AL_OPEN \<or> (\<exists>x \<in> set_option remark. 1000 < length (trim x)) then Inl (BadRequest ''Invalid fraud alert update payload.'')
      else chain (updateAlertStatus E (pc_tenant P) i status (pc_admin P) remark S) (\<lambda>S1.
        Inr (noted ''FRAUD_ALERT_STATUS_UPDATED'' ''FRAUD_ALERT'' i S1)))"

definition manualFlag ::
  "env \<Rightarrow> principal \<Rightarrow> string \<Rightarrow> severity option \<Rightarrow> string option \<Rightarrow> 'a fraud_desk_scheme \<Rightarrow>
     ((string \<times> string option) \<times> 'a fraud_desk_scheme) outcome" where
  "manualFlag E P loan sev remark S =
     (if \<exists>x \<in> set_option remark. 1000 < length (trim x) then Inl (BadRequest ''Invalid manual fraud flag payload.'')
      else chain (createManualFlag E (pc_tenant P) loan sev S) (\<lambda>(r, S1).
        Inr (r, noted ''FRAUD_MANUAL_FLAG_CREATED'' ''TENANT_LOAN_APPLICATION'' loan S1)))"

definition canManageBorrowerHold :: "admin_role \<Rightarrow> bool" where
  "canManageBorrowerHold role \<longleftrightarrow> role \<in> {SUPER_ADMIN, RISK_MANAGER, SYSTEM}"

definition reason_ok :: "string \<Rightarrow> bool" where
  "reason_ok r \<longleftrightarrow> 3 \<le> length (trim r) \<and> length (trim r) \<le> 500"

text \<open>The hold stays when the event that should follow it is refused.\<close>

definition holdBorrower ::
  "(rat \<Rightarrow> rat) \<Rightarrow> env \<Rightarrow> principal \<Rightarrow> string \<Rightarrow> string \<Rightarrow> 'a fraud_desk_scheme \<Rightarrow> unit outcome \<times> 'a fraud_desk_scheme" where
  "holdBorrower fl E P b reason S =
     (if \<not> canManageBorrowerHold (pc_role P) then (Inl (BadRequest ''Role cannot create borrower hold.''), S)
      else if \<not> reason_ok reason then (Inl (BadRequest ''Invalid borrower hold payload.''), S)
      else case createHold E (pc_tenant P) (trim b) (trim reason) (Some (pc_admin P)) False S of (h, S1) \<Rightarrow>
        case createEvent fl E (pc_tenant P) (Some (trim b)) None SG_MANUAL_REVIEW SEV_HIGH ''admin'' S1 of
          Inl e \<Rightarrow> (Inl e, S1)
        | Inr (_, S2) \<Rightarrow> (Inr (), noted ''FRAUD_BORROWER_HOLD_CREATED'' ''BORROWER_HOLD'' (bh_id h) S2))"

definition releaseBorrowerHold ::
  "(rat \<Rightarrow> rat) \<Rightarrow> env \<Rightarrow> principal \<Rightarrow> string \<Rightarrow> string \<Rightarrow> 'a fraud_desk_scheme \<Rightarrow> unit outcome \<times> 'a fraud_desk_scheme" where
  "releaseBorrowerHold fl E P b reason S =
     (if \<not> canManageBorrowerHold (pc_role P) then (Inl (BadRequest ''Role cannot release borrower hold.''), S)
      else if \<not> reason_ok reason then (Inl (BadRequest ''Invalid borrower hold release payload.''), S)
      else case releaseHold E (pc_tenant P) (trim b) (pc_admin P) (trim reason) S of
        Inl e \<Rightarrow> (Inl e, S)
      | Inr (h, S1) \<Rightarrow>
          (case createEvent fl E (pc_tenant P) (Some (trim b)) None SG_ADMIN_OVERRIDE SEV_MEDIUM ''admin'' S1 of
             Inl e \<Rightarrow> (Inl e, S1)
           | Inr (_, S2) \<Rightarrow> (Inr (), noted ''FRAUD_BORROWER_HOLD_RELEASED'' ''BORROWER_HOLD'' (bh_id h) S2)))"

text \<open>\<open>GET borrowers/:borrowerId\<close> scores the borrower anew.\<close>

definition borrowerDetail ::
  "(rat \<Rightarrow> rat) \<Rightarrow> env \<Rightarrow> principal \<Rightarrow> string \<Rightarrow> 'a fraud_desk_scheme \<Rightarrow>
     ((aggregate \<times> fraud_counters) \<times> signal list \<times> borrower_hold list) \<times> 'a fraud_desk_scheme" where
  "borrowerDetail fl E P borrowerId S =
     (let t = pc_tenant P; b = trim borrowerId
      in case evaluateBorrower fl E t b S of (a, S1) \<Rightarrow>
        ((a, take 100 (sort_key (\<lambda>g. - sg_created g) (filter (\<lambda>g. sg_tenant g = t \<and> sg_borrower g = Some b) (fd_signals S1))),
          take 20 (sort_key (\<lambda>h. - bh_created h) (filter (\<lambda>h. bh_tenant h = t \<and> bh_borrower h = b) (db_borrower_holds (mb_db S1))))), S1))"

text \<open>\<open>runFraudCheck\<close> of \<open>admin-loan-applications.service.ts\<close>.\<close>

definition runFraudCheck ::
  "env \<Rightarrow> principal \<Rightarrow> string \<Rightarrow> 'a fraud_desk_scheme \<Rightarrow> ((bool \<times> signal list) \<times> 'a fraud_desk_scheme) outcome" where
  "runFraudCheck E P i S =
     (if find_loan (pc_tenant P) i (mb_db S) = None then Inl (BadRequest ''Loan application not found.'')
      else evaluateApplication E i (pc_tenant P) S)"

section \<open>The scan of the worker\<close>

text \<open>
  The borrowers with a signal of the last day, in a \<open>Map\<close> from the text \<open>tenant:borrower\<close>: an entry written
  again keeps its place and takes the new value.
\<close>

fun map_put :: "'k \<Rightarrow> 'v \<Rightarrow> ('k \<times> 'v) list \<Rightarrow> ('k \<times> 'v) list" where
  "map_put k v [] = [(k, v)]"
| "map_put k v (x # xs) = (if fst x = k then (k, v) # xs else x # map_put k v xs)"

definition add_target :: "(string \<times> string \<times> string) list \<Rightarrow> signal \<Rightarrow> (string \<times> string \<times> string) list" where
  "add_target m g =
     (case sg_borrower g of
        None \<Rightarrow> m
      | Some x \<Rightarrow> (let b = trim x in if b = '''' then m else map_put (sg_tenant g @ '':'' @ b) (sg_tenant g, b) m))"

definition scan_targets :: "int \<Rightarrow> 'a fraud_desk_scheme \<Rightarrow> (string \<times> string) list" where
  "scan_targets now S =
     map snd (foldl add_target [] (filter (\<lambda>g. now - hours 24 \<le> sg_created g \<and> sg_borrower g \<noteq> None) (fd_signals S)))"

definition scan_borrower ::
  "(rat \<Rightarrow> rat) \<Rightarrow> env \<Rightarrow> nat \<times> 'a fraud_desk_scheme \<Rightarrow> string \<times> string \<Rightarrow> nat \<times> 'a fraud_desk_scheme" where
  "scan_borrower fl E r x =
     (case r of (n, S) \<Rightarrow> case x of (t, b) \<Rightarrow>
      case evaluateBorrower fl E t b S of ((a, c), S1) \<Rightarrow>
      case applyAutoHoldRules E t b a c S1 of (h, S2) \<Rightarrow> (if h = None then n else Suc n, S2))"

definition runScan :: "(rat \<Rightarrow> rat) \<Rightarrow> env \<Rightarrow> 'a fraud_desk_scheme \<Rightarrow> (nat \<times> nat) \<times> 'a fraud_desk_scheme" where
  "runScan fl E S =
     (let targets = scan_targets (ev_now E) S
      in case foldl (scan_borrower fl E) (0, S) targets of (n, S1) \<Rightarrow> ((length targets, n), S1))"

section \<open>Requests\<close>

datatype fraud_call =
    CheckApplication principal string
  | FlagApplication principal string "severity option" "string option"
  | SetAlert principal string alert_status "string option"
  | HoldBorrower principal string string
  | ReleaseBorrower principal string string
  | ViewBorrower principal string
  | ScanSignals

text \<open>
  A request that fails inside its transaction leaves the desk as it was. The manual flag has no transaction, but
  can fail only before its first row: the notices it writes last have a key.
\<close>

definition settled_desk :: "'a fraud_desk_scheme outcome \<Rightarrow> 'a fraud_desk_scheme \<Rightarrow> unit outcome \<times> 'a fraud_desk_scheme" where
  "settled_desk r S = (case r of Inl e \<Rightarrow> (Inl e, S) | Inr S1 \<Rightarrow> (Inr (), S1))"

fun exec_fraud ::
  "(rat \<Rightarrow> rat) \<Rightarrow> env \<times> fraud_call \<Rightarrow> 'a fraud_desk_scheme \<Rightarrow> unit outcome \<times> 'a fraud_desk_scheme" where
  "exec_fraud fl (E, CheckApplication P i) S = settled_desk (map_sum id snd (runFraudCheck E P i S)) S"
| "exec_fraud fl (E, FlagApplication P i sev remark) S = settled_desk (map_sum id snd (manualFlag E P i sev remark S)) S"
| "exec_fraud fl (E, SetAlert P i status remark) S = settled_desk (updateAlert E P i status remark S) S"
| "exec_fraud fl (E, HoldBorrower P b reason) S = holdBorrower fl E P b reason S"
| "exec_fraud fl (E, ReleaseBorrower P b reason) S = releaseBorrowerHold fl E P b reason S"
| "exec_fraud fl (E, ViewBorrower P b) S = (Inr (), snd (borrowerDetail fl E P b S))"
| "exec_fraud fl (E, ScanSignals) S = (Inr (), snd (runScan fl E S))"

text \<open>A desk before its first signal.\<close>

definition empty_fraud_desk :: "db \<Rightarrow> fraud_desk" where
  "empty_fraud_desk D =
     \<lparr>mb_db = D\<lparr>db_alerts := [], db_borrower_holds := []\<rparr>, mb_notices = [], mb_outbox = [], mb_sms = [], fd_signals = [],
      fd_links = [], fd_blacklist = [], fd_aggregates = [], fd_behavior = [], fd_policies = [], fd_created = (\<lambda>_. 0)\<rparr>"

end
