(* ===== verification/FraudProofs.thy ===== *)
theory FraudProofs
  imports Fraud
begin

text \<open>
  What the fraud desk does: how alerts reach the approvals of \<open>LoanApplications\<close>, how signals add up to a
  hold, and what a release is worth.
\<close>

section \<open>Rounded sums\<close>

lemma roundingD:
  assumes "rounding fl"
  shows "x \<le> y \<Longrightarrow> fl x \<le> fl y" "fl (fl x) = fl x" "\<bar>n\<bar> \<le> 2 ^ 53 \<Longrightarrow> fl (of_int n) = of_int n"
    "\<bar>n\<bar> \<le> 2 ^ 53 \<Longrightarrow> k \<le> 1000 \<Longrightarrow> fl (of_int n / 2 ^ k) = of_int n / 2 ^ k"
proof -
  have a: "\<And>n k. \<bar>n\<bar> \<le> 2 ^ 53 \<Longrightarrow> k \<le> 1000 \<Longrightarrow> fl (of_int n / 2 ^ k) = of_int n / 2 ^ k" "mono fl" "\<And>x. fl (fl x) = fl x"
    using assms by (simp_all add: rounding_def)
  show "x \<le> y \<Longrightarrow> fl x \<le> fl y" using a(2) by (rule monoD)
  show "fl (fl x) = fl x" by (rule a(3))
  show "\<bar>n\<bar> \<le> 2 ^ 53 \<Longrightarrow> fl (of_int n) = of_int n" using a(1) [of n 0] by simp
  show "\<bar>n\<bar> \<le> 2 ^ 53 \<Longrightarrow> k \<le> 1000 \<Longrightarrow> fl (of_int n / 2 ^ k) = of_int n / 2 ^ k" by (rule a(1))
qed

lemma rounding_id: "rounding (\<lambda>x. x)"
  by (simp add: rounding_def mono_def)

lemma fl_ge_int: "rounding fl \<Longrightarrow> \<bar>n\<bar> \<le> 2 ^ 53 \<Longrightarrow> of_int n \<le> x \<Longrightarrow> of_int n \<le> fl x"
  using roundingD(1,3) by metis

lemma fl_ge_quarters:
  assumes "rounding fl" "\<bar>n\<bar> \<le> 2 ^ 53" "of_int n / 4 \<le> x"
  shows "of_int n / 4 \<le> fl x"
  using roundingD(1) [OF assms(1,3)] roundingD(4) [OF assms(1,2), of 2] by simp

lemma fl_severity:
  assumes "rounding fl"
  shows "1 \<le> fl (severity_factor s)" "7 / 4 \<le> fl (severity_factor SEV_HIGH)"
proof -
  show "1 \<le> fl (severity_factor s)"
    using fl_ge_quarters [OF assms, of 4 "severity_factor s"] by (cases s) simp_all
  show "7 / 4 \<le> fl (severity_factor SEV_HIGH)"
    using fl_ge_quarters [OF assms, of 7 "severity_factor SEV_HIGH"] by simp
qed

lemma fl_recency:
  assumes "rounding fl"
  shows "1 / 2 \<le> fl (recencyMultiplier c now)" "now - c \<le> hours 24 \<Longrightarrow> 3 / 2 \<le> fl (recencyMultiplier c now)"
proof -
  show "1 / 2 \<le> fl (recencyMultiplier c now)"
    using fl_ge_quarters [OF assms, of 2 "recencyMultiplier c now"] by (simp add: recencyMultiplier_def split: if_splits)
  show "now - c \<le> hours 24 \<Longrightarrow> 3 / 2 \<le> fl (recencyMultiplier c now)"
    using fl_ge_quarters [OF assms, of 6 "recencyMultiplier c now"] by (simp add: recencyMultiplier_def)
qed

lemma type_weight_ge: "15 \<le> type_weight ty"
  by (cases ty) simp_all

text \<open>What a signal is worth at least.\<close>

lemma signal_points_ge:
  assumes "rounding fl"
  shows "7 \<le> signal_points fl now g"
    "sg_type g = SG_HIGH_RISK_SCORE \<Longrightarrow> sg_severity g = SEV_HIGH \<Longrightarrow> now - sg_created g \<le> hours 24 \<Longrightarrow>
       183 \<le> signal_points fl now g"
proof -
  let ?s = "fl (severity_factor (sg_severity g))" and ?r = "fl (recencyMultiplier (sg_created g) now)"
  have s: "1 \<le> ?s" and r: "1 / 2 \<le> ?r" by (rule fl_severity [OF assms] fl_recency [OF assms])+
  have w: "(15 :: rat) \<le> of_int (type_weight (sg_type g))"
    using type_weight_ge [of "sg_type g"] by linarith
  have "15 * 1 \<le> of_int (type_weight (sg_type g)) * ?s" by (rule mult_mono) (use w s in simp_all)
  then have p: "15 \<le> fl (of_int (type_weight (sg_type g)) * ?s)"
    using fl_ge_int [OF assms, of 15] by simp
  have "15 * (1 / 2) \<le> fl (of_int (type_weight (sg_type g)) * ?s) * ?r" by (rule mult_mono) (use p r in simp_all)
  then show "7 \<le> signal_points fl now g"
    using fl_ge_int [OF assms, of 7] by (simp add: signal_points_def)
  assume h: "sg_type g = SG_HIGH_RISK_SCORE" "sg_severity g = SEV_HIGH" "now - sg_created g \<le> hours 24"
  have s': "7 / 4 \<le> ?s" using fl_severity(2) [OF assms] h by simp
  have r': "3 / 2 \<le> ?r" by (rule fl_recency(2) [OF assms h(3)])
  have "490 / 4 \<le> of_int (type_weight (sg_type g)) * ?s" using s' h by simp
  then have p': "490 / 4 \<le> fl (of_int (type_weight (sg_type g)) * ?s)"
    using fl_ge_quarters [OF assms, of 490] by simp
  have "490 / 4 * (3 / 2) \<le> fl (of_int (type_weight (sg_type g)) * ?s) * ?r" by (rule mult_mono) (use p' r' in simp_all)
  then show "183 \<le> signal_points fl now g"
    using fl_ge_int [OF assms, of 183] by (simp add: signal_points_def)
qed

lemma fold_points_ge:
  assumes "rounding fl" "\<And>g. g \<in> set gs \<Longrightarrow> of_int (w g) \<le> signal_points fl now g"
    and "\<And>g. 0 \<le> w g \<and> w g \<le> 1000" "of_int n \<le> s" "0 \<le> n" "n + 1000 * int (length gs) \<le> 2 ^ 53"
  shows "of_int (n + (\<Sum>g\<leftarrow>gs. w g)) \<le> foldl (add_points fl now) s gs"
  using assms(2,4-6)
proof (induction gs arbitrary: n s)
  case (Cons g gs)
  have wg: "0 \<le> w g" "w g \<le> 1000" using assms(3) by simp_all
  have "of_int (n + w g) \<le> s + signal_points fl now g"
    using Cons.prems(1) [of g] Cons.prems(2) by simp
  then have "of_int (n + w g) \<le> add_points fl now s g"
    unfolding add_points_def by (intro fl_ge_int [OF assms(1)]) (use wg Cons.prems(3,4) in simp_all)
  with Cons.IH [of "n + w g" "add_points fl now s g"] Cons.prems wg show ?case by (simp add: add.assoc)
qed simp

lemma fold_flags_ge:
  assumes "rounding fl" "\<And>x. x \<in> set fs \<Longrightarrow> 0 \<le> snd x" "of_int n \<le> s" "\<bar>n\<bar> \<le> 2 ^ 53"
  shows "of_int n \<le> foldl (\<lambda>s x. fl (s + of_int (snd x))) s fs"
  using assms(2,3)
proof (induction fs arbitrary: s)
  case (Cons x fs)
  have "of_int n \<le> s + of_int (snd x)" using Cons.prems(1) [of x] Cons.prems(2) by simp
  then have "of_int n \<le> fl (s + of_int (snd x))" by (rule fl_ge_int [OF assms(1,4)])
  with Cons show ?case by simp
qed simp

lemma raised_flags_positive: "x \<in> set (raised_flags c) \<Longrightarrow> 0 \<le> snd x"
  by (auto simp: raised_flags_def split: if_splits)

lemma clampFraudScore_mono: "x \<le> y \<Longrightarrow> clampFraudScore x \<le> clampFraudScore y"
  using js_round_mono [of x y] js_round_mono [of 0 y] js_round_mono [of x 1000]
  by (simp add: clampFraudScore_def) (simp add: js_round_def)

lemma clampFraudScore_ge: "of_int n \<le> x \<Longrightarrow> n \<le> 1000 \<Longrightarrow> n \<le> clampFraudScore x"
  by (auto simp: clampFraudScore_def js_round_def le_floor_iff)

text \<open>A score is at least what the signals are worth in whole points.\<close>

lemma borrower_score_ge:
  assumes "rounding fl" "\<And>g. g \<in> set gs \<Longrightarrow> of_int (w g) \<le> signal_points fl now g"
    and "\<And>g. 0 \<le> w g \<and> w g \<le> 1000" "n \<le> (\<Sum>g\<leftarrow>gs. w g)" "0 \<le> n" "n \<le> 1000" "length gs \<le> 500"
  shows "n \<le> borrower_score fl now gs"
proof -
  have "of_int (0 + (\<Sum>g\<leftarrow>gs. w g)) \<le> foldl (add_points fl now) 0 gs"
    by (rule fold_points_ge [OF assms(1,2,3)]) (use assms(7) in simp_all)
  then have "of_int n \<le> foldl (add_points fl now) 0 gs"
    using assms(4) by (metis add_0 of_int_le_iff order_trans)
  then have "of_int n \<le> foldl (\<lambda>s x. fl (s + of_int (snd x))) (foldl (add_points fl now) 0 gs) (raised_flags (counters_of now gs))"
    by (intro fold_flags_ge [OF assms(1) raised_flags_positive]) (use assms(5,6) in simp_all)
  then show ?thesis unfolding borrower_score_def by (rule clampFraudScore_ge) (rule assms(6))
qed

section \<open>The newest signals\<close>

lemma insort_parts:
  assumes "sorted (map f (us @ g # vs))"
  shows "\<exists>us' vs'. insort_key f x (us @ g # vs) = us' @ g # vs' \<and> insort_key f x (us @ vs) = us' @ vs'"
  using assms
proof (induction us)
  case Nil
  show ?case
  proof (cases "f x \<le> f g")
    case True
    have "insort_key f x vs = x # vs" using Nil True by (cases vs) auto
    with True show ?thesis by (intro exI [of _ "[x]"] exI [of _ vs]) simp
  next
    case False
    then show ?thesis by (intro exI [of _ "[]"] exI [of _ "insort_key f x vs"]) simp
  qed
next
  case (Cons u us)
  then obtain us' vs' where IH: "insort_key f x (us @ g # vs) = us' @ g # vs'" "insort_key f x (us @ vs) = us' @ vs'"
    by auto
  show ?case
  proof (cases "f x \<le> f u")
    case True
    then show ?thesis by (intro exI [of _ "x # u # us"] exI [of _ vs]) simp
  next
    case False
    with IH show ?thesis by (intro exI [of _ "u # us'"] exI [of _ vs']) simp
  qed
qed

lemma sort_key_snoc:
  fixes f :: "'a \<Rightarrow> 'b :: linorder"
  obtains us vs where "sort_key f (xs @ [g]) = us @ g # vs" "sort_key f xs = us @ vs"
proof -
  have "\<exists>us vs. sort_key f (xs @ [g]) = us @ g # vs \<and> sort_key f xs = us @ vs"
  proof (induction xs)
    case (Cons x xs)
    then obtain us vs where s: "sort_key f (xs @ [g]) = us @ g # vs" "sort_key f xs = us @ vs" by auto
    have "sorted (map f (us @ g # vs))" using sorted_sort_key [of f "xs @ [g]"] by (simp only: s)
    from insort_parts [OF this, of x] show ?case by (simp add: s)
  qed (auto intro: exI [of _ "[]"])
  with that show ?thesis by auto
qed

text \<open>A new signal never lowers the score, whatever the order of the others.\<close>

lemma add_points_mono: "rounding fl \<Longrightarrow> s \<le> s' \<Longrightarrow> foldl (add_points fl now) s gs \<le> foldl (add_points fl now) s' gs"
  by (induction gs arbitrary: s s') (simp_all add: add_points_def roundingD(1))

lemma add_points_rounded:
  assumes "rounding fl" "fl s = s"
  shows "fl (foldl (add_points fl now) s gs) = foldl (add_points fl now) s gs"
  using assms(2) by (induction gs arbitrary: s) (simp_all add: add_points_def roundingD(2) [OF assms(1)])

lemma fold_points_insert:
  assumes "rounding fl"
  shows "foldl (add_points fl now) 0 (us @ vs) \<le> foldl (add_points fl now) 0 (us @ g # vs)"
proof -
  let ?s = "foldl (add_points fl now) 0 us"
  have z: "fl 0 = 0" using roundingD(3) [OF assms, of 0] by simp
  have "0 \<le> signal_points fl now g" using signal_points_ge(1) [OF assms, of now g] by linarith
  then have "fl ?s \<le> add_points fl now ?s g" unfolding add_points_def by (intro roundingD(1) [OF assms]) simp
  then have "?s \<le> add_points fl now ?s g" by (simp only: add_points_rounded [OF assms z])
  then show ?thesis using add_points_mono [OF assms] by simp
qed

lemma fold_flags_mono:
  assumes "rounding fl"
  shows "s \<le> s' \<Longrightarrow> foldl (\<lambda>s x. fl (s + of_int (snd x))) s fs \<le> foldl (\<lambda>s x. fl (s + of_int (snd x))) s' fs"
  by (induction fs arbitrary: s s') (simp_all add: roundingD(1) [OF assms])

lemma borrower_score_insert:
  assumes "rounding fl" "counters_of now (us @ g # vs) = counters_of now (us @ vs)"
  shows "borrower_score fl now (us @ vs) \<le> borrower_score fl now (us @ g # vs)"
  unfolding borrower_score_def assms(2)
  by (intro clampFraudScore_mono fold_flags_mono fold_points_insert assms(1))

lemma counters_insert_uncounted:
  "sg_type g \<in> {SG_ADMIN_OVERRIDE, SG_MANUAL_REVIEW, SG_MANUAL_FLAG, SG_HIGH_RISK_SCORE} \<Longrightarrow>
     counters_of now (us @ g # vs) = counters_of now (us @ vs)"
  by (auto simp: counters_of_def count_since_def)

text \<open>Five hundred signals are severe whatever they are.\<close>

lemma full_window_severe:
  assumes "rounding fl" "length gs = 500"
  shows "700 \<le> borrower_score fl now gs"
  by (rule borrower_score_ge [OF assms(1), of gs "\<lambda>_. 7"])
    (simp_all add: assms(2) signal_points_ge(1) [OF assms(1)] sum_list_triv)

section \<open>What an evaluation leaves\<close>

text \<open>Everything but the alerts, the links, the messages and the signals stays as it was.\<close>

definition desk_kept :: "'a fraud_desk_scheme \<Rightarrow> 'a fraud_desk_scheme \<Rightarrow> bool" where
  "desk_kept S S' \<longleftrightarrow>
     mb_db S' = (mb_db S)\<lparr>db_seq := db_seq (mb_db S'), db_alerts := db_alerts (mb_db S')\<rparr> \<and> fd_blacklist S' = fd_blacklist S \<and>
     fd_aggregates S' = fd_aggregates S \<and> fd_behavior S' = fd_behavior S \<and> fd_policies S' = fd_policies S \<and>
     fd_created S' = fd_created S \<and> fraud_desk.more S' = fraud_desk.more S"

lemma desk_kept_refl [simp]: "desk_kept S S"
  by (simp add: desk_kept_def)

lemma db_overwrite:
  "D1 = D\<lparr>db_seq := m, db_alerts := xs\<rparr> \<Longrightarrow> D2 = D1\<lparr>db_seq := n, db_alerts := ys\<rparr> \<Longrightarrow> D2 = D\<lparr>db_seq := n, db_alerts := ys\<rparr>"
  by simp

lemma desk_kept_trans: "desk_kept S T \<Longrightarrow> desk_kept T U \<Longrightarrow> desk_kept S U"
  unfolding desk_kept_def by (elim conjE, intro conjI) (metis db_overwrite, simp_all)

lemma desk_kept_db:
  assumes "desk_kept S S'"
  shows "db_loans (mb_db S') = db_loans (mb_db S)" "db_borrower_holds (mb_db S') = db_borrower_holds (mb_db S)"
    "db_holds (mb_db S') = db_holds (mb_db S)" "db_risk_evals (mb_db S') = db_risk_evals (mb_db S)"
    "db_flags (mb_db S') = db_flags (mb_db S)" "db_history (mb_db S') = db_history (mb_db S)"
proof -
  have m: "mb_db S' = (mb_db S)\<lparr>db_seq := db_seq (mb_db S'), db_alerts := db_alerts (mb_db S')\<rparr>"
    using assms by (simp add: desk_kept_def)
  show "db_loans (mb_db S') = db_loans (mb_db S)" "db_borrower_holds (mb_db S') = db_borrower_holds (mb_db S)"
    "db_holds (mb_db S') = db_holds (mb_db S)" "db_risk_evals (mb_db S') = db_risk_evals (mb_db S)"
    "db_flags (mb_db S') = db_flags (mb_db S)" "db_history (mb_db S') = db_history (mb_db S)"
    by (subst m, simp)+
qed

lemma create_keeps_desk:
  assumes "createNotification E x S = Inr (r, S')"
  shows "desk_kept S S' \<and> fd_signals S' = fd_signals S \<and> db_alerts (mb_db S') = db_alerts (mb_db S)"
  using assms unfolding createNotification_def desk_kept_def enqueueOutbox_def fresh_row_def fresh_def
  by (auto split: if_splits option.splits)

lemma notify_keeps_desk:
  assumes "notify_all E x us S = Inr S'"
  shows "desk_kept S S' \<and> fd_signals S' = fd_signals S \<and> db_alerts (mb_db S') = db_alerts (mb_db S)"
proof (rule fold_outcome_invariant [OF assms [unfolded notify_all_def],
      where P = "\<lambda>T. desk_kept S T \<and> fd_signals T = fd_signals S \<and> db_alerts (mb_db T) = db_alerts (mb_db S)"])
  fix u T U
  assume "desk_kept S T \<and> fd_signals T = fd_signals S \<and> db_alerts (mb_db T) = db_alerts (mb_db S)"
    "chain (createNotification E (x u) T) (\<lambda>(_, S1). Inr S1) = Inr U"
  then show "desk_kept S U \<and> fd_signals U = fd_signals S \<and> db_alerts (mb_db U) = db_alerts (mb_db S)"
    using create_keeps_desk [of E "x u" T] desk_kept_trans [of S T U] by (auto simp: chain_eq_Inr)
qed simp

lemma links_keep_desk:
  "desk_kept S (fold (link_signal t a) gs S) \<and> fd_signals (fold (link_signal t a) gs S) = fd_signals S \<and>
   db_alerts (mb_db (fold (link_signal t a) gs S)) = db_alerts (mb_db S)"
proof (induction gs arbitrary: S)
  case (Cons g gs)
  have "desk_kept S (link_signal t a g S)" "fd_signals (link_signal t a g S) = fd_signals S"
    "db_alerts (mb_db (link_signal t a g S)) = db_alerts (mb_db S)"
    by (auto simp: link_signal_def desk_kept_def)
  with Cons [of "link_signal t a g S"] desk_kept_trans show ?case by auto
qed simp

lemma set_alert_keeps_desk: "desk_kept S (set_alert i f S) \<and> fd_signals (set_alert i f S) = fd_signals S"
  by (auto simp: set_alert_def desk_kept_def)

lemma ensureAlert_new:
  assumes "ensureAlertForSignals E t loan b sev gs S = Inr S'" "find (open_alert t loan) (db_alerts (mb_db S)) = None"
  obtains i T us where "notify_all E (alert_notice t loan sev i) us (fold (link_signal t i) gs T) = Inr S'"
    "desk_kept S T" "fd_signals T = fd_signals S" "db_alerts (mb_db T) = db_alerts (mb_db S) @ [new_alert E t loan b sev i]"
proof -
  obtain i S1 where f: "fresh_row E S = (i, S1)" by (cases "fresh_row E S")
  have "desk_kept S S1 \<and> fd_signals S1 = fd_signals S \<and> db_alerts (mb_db S1) = db_alerts (mb_db S)"
    using f by (auto simp: fresh_row_def fresh_def desk_kept_def)
  then have T: "desk_kept S (put_alert a S1)" "fd_signals (put_alert a S1) = fd_signals S"
    "db_alerts (mb_db (put_alert a S1)) = db_alerts (mb_db S) @ [a]" for a
    using desk_kept_trans [of S S1 "put_alert a S1"] by (simp_all add: put_alert_def) (simp add: desk_kept_def)
  show thesis
    by (rule that [OF _ T]) (use assms in \<open>simp add: ensureAlertForSignals_def f Let_def\<close>)
qed

lemma ensureAlert_keeps_desk:
  assumes "ensureAlertForSignals E t loan b sev gs S = Inr S'"
  shows "desk_kept S S' \<and> fd_signals S' = fd_signals S"
proof (cases "find (open_alert t loan) (db_alerts (mb_db S))")
  case (Some a)
  let ?T = "if severity_rank (fa_severity a) < severity_rank sev
    then set_alert (fa_id a) (\<lambda>b. b\<lparr>fa_severity := sev, fa_status := AL_OPEN\<rparr>) S else S"
  have "S' = fold (link_signal t (fa_id a)) gs ?T"
    using assms by (simp add: ensureAlertForSignals_def Let_def Some)
  moreover have "desk_kept S ?T" "fd_signals ?T = fd_signals S"
    using set_alert_keeps_desk [of S "fa_id a"] by simp_all
  ultimately show ?thesis using links_keep_desk [of ?T t "fa_id a" gs] desk_kept_trans by metis
next
  case None
  from assms None show ?thesis
  proof (rule ensureAlert_new)
    fix i T us
    assume "notify_all E (alert_notice t loan sev i) us (fold (link_signal t i) gs T) = Inr S'"
      "desk_kept S T" "fd_signals T = fd_signals S"
    then show ?thesis
      using notify_keeps_desk [of E _ us _ S'] links_keep_desk [of T t i gs] desk_kept_trans by metis
  qed
qed

section \<open>Alerts block approvals\<close>

lemma raised_comes_first:
  assumes "find P xs = Some a" "R a" "\<And>x. R x \<Longrightarrow> Q (f x)" "\<And>x. R x \<Longrightarrow> P x \<Longrightarrow> P (f x)" "0 < n"
  shows "list_ex Q (take n (filter P (update_where R f xs)))"
  using assms(1)
proof (induction xs)
  case (Cons x xs)
  obtain m where n: "n = Suc m" using assms(5) by (cases n) auto
  show ?case
  proof (cases "P x")
    case True
    then have "x = a" using Cons.prems by simp
    then show ?thesis using True assms(2,3,4) by (simp add: n)
  next
    case False
    then have "list_ex Q (take n (filter P (update_where R f xs)))" using Cons by simp
    then show ?thesis using False assms(3) [of x] by (cases "R x \<and> P (f x)") (auto simp: n)
  qed
qed simp

lemma found_comes_first: "find P xs = Some a \<Longrightarrow> Q a \<Longrightarrow> 0 < n \<Longrightarrow> list_ex Q (take n (filter P xs))"
proof (induction xs)
  case (Cons x xs)
  then show ?case by (cases n) (auto split: if_splits)
qed simp

lemma open_alert_query:
  "hasOpenAlertAtOrAbove t loan sev D =
     list_ex (\<lambda>a. severity_rank sev \<le> severity_rank (fa_severity a)) (take 20 (filter (open_alert t loan) (db_alerts D)))"
proof -
  have "(\<lambda>a. fa_tenant a = t \<and> fa_loan a = Some loan \<and> fa_status a \<in> {AL_OPEN, AL_INVESTIGATING, AL_ESCALATED}) = open_alert t loan"
    by (rule ext) (simp add: open_alert_def)
  then show ?thesis by (simp only: hasOpenAlertAtOrAbove_def)
qed

lemma ensureAlert_opens:
  assumes "ensureAlertForSignals E t loan b sev gs S = Inr S'" "severity_rank SEV_HIGH \<le> severity_rank sev"
  shows "hasOpenAlertAtOrAbove t loan SEV_HIGH (mb_db S')"
proof (cases "find (open_alert t loan) (db_alerts (mb_db S))")
  case (Some a)
  let ?f = "\<lambda>b. b\<lparr>fa_severity := sev, fa_status := AL_OPEN\<rparr>"
  show ?thesis
  proof (cases "severity_rank (fa_severity a) < severity_rank sev")
    case True
    then have "S' = fold (link_signal t (fa_id a)) gs (set_alert (fa_id a) ?f S)"
      using assms(1) by (simp add: ensureAlertForSignals_def Let_def Some)
    then have "db_alerts (mb_db S') = update_where (\<lambda>b. fa_id b = fa_id a) ?f (db_alerts (mb_db S))"
      using links_keep_desk [of "set_alert (fa_id a) ?f S" t "fa_id a" gs] by (simp add: set_alert_def)
    then show ?thesis
      unfolding open_alert_query using assms(2)
      by (simp only:) (rule raised_comes_first [OF Some], auto simp: open_alert_def)
  next
    case False
    then have "S' = fold (link_signal t (fa_id a)) gs S"
      using assms(1) by (simp add: ensureAlertForSignals_def Let_def Some)
    then have "db_alerts (mb_db S') = db_alerts (mb_db S)" using links_keep_desk [of S t "fa_id a" gs] by simp
    moreover have "severity_rank SEV_HIGH \<le> severity_rank (fa_severity a)" using False assms(2) by linarith
    ultimately show ?thesis unfolding open_alert_query by (simp only: found_comes_first [OF Some])
  qed
next
  case None
  then have e: "filter (open_alert t loan) (db_alerts (mb_db S)) = []" by (auto simp: find_None_iff filter_empty_conv)
  from assms(1) None show ?thesis
  proof (rule ensureAlert_new)
    fix i T us
    assume n: "notify_all E (alert_notice t loan sev i) us (fold (link_signal t i) gs T) = Inr S'"
      and T: "db_alerts (mb_db T) = db_alerts (mb_db S) @ [new_alert E t loan b sev i]"
    have "db_alerts (mb_db S') = db_alerts (mb_db S) @ [new_alert E t loan b sev i]"
      using notify_keeps_desk [OF n] links_keep_desk [of T t i gs] T by simp
    then show ?thesis
      unfolding open_alert_query using assms(2) e by (simp add: open_alert_def new_alert_def)
  qed
qed

text \<open>What the signals of an evaluation are.\<close>

lemma new_signal_Inr:
  assumes "new_signal E t b l source x S = (g, S')"
  shows "(sg_type g, sg_severity g, sg_impact g) = x \<and> sg_tenant g = t \<and> sg_borrower g = b \<and> sg_created g = ev_now E \<and>
    desk_kept S S' \<and> fd_signals S' = fd_signals S @ [g] \<and> db_alerts (mb_db S') = db_alerts (mb_db S)"
proof -
  obtain ty sev im where x: "x = (ty, sev, im)" by (cases x)
  let ?g = "\<lparr>sg_id = ev_cuid E (db_seq (mb_db S)), sg_tenant = t, sg_borrower = b, sg_loan = l, sg_type = ty,
     sg_severity = sev, sg_source = source, sg_impact = im, sg_created = ev_now E\<rparr>"
  let ?T = "S\<lparr>mb_db := mb_db S\<lparr>db_seq := Suc (db_seq (mb_db S))\<rparr>, fd_signals := fd_signals S @ [?g]\<rparr>"
  have "new_signal E t b l source x S = (?g, ?T)" by (simp add: x new_signal_def fresh_row_def fresh_def Let_def)
  with assms have "g = ?g" "S' = ?T" by (metis prod.inject)+
  then show ?thesis by (simp add: x desk_kept_def)
qed

lemma new_signals_Inr:
  assumes "new_signals E t b l xs S = (gs, S')"
  shows "map (\<lambda>g. (sg_type g, sg_severity g, sg_impact g)) gs = xs \<and>
    (\<forall>g \<in> set gs. sg_tenant g = t \<and> sg_borrower g = b \<and> sg_created g = ev_now E) \<and>
    desk_kept S S' \<and> fd_signals S' = fd_signals S @ gs \<and> db_alerts (mb_db S') = db_alerts (mb_db S)"
  using assms
proof (induction xs arbitrary: S gs S')
  case (Cons x xs)
  obtain g T where g: "new_signal E t b l ''system'' x S = (g, T)" by (cases "new_signal E t b l ''system'' x S")
  note T = new_signal_Inr [OF g]
  obtain hs U where h: "new_signals E t b l xs T = (hs, U)" by (cases "new_signals E t b l xs T")
  have r: "gs = g # hs" "S' = U" using Cons.prems by (simp_all add: g h)
  from Cons.IH [OF h] T desk_kept_trans [of S T U] show ?case by (simp add: r)
qed simp

lemma highest_above: "s \<in> set ss \<Longrightarrow> severity_rank s \<le> severity_rank (highestSeverity ss)"
proof -
  have "severity_rank m \<le> severity_rank (fold (\<lambda>x m. if severity_rank m < severity_rank x then x else m) ss m) \<and>
    (s \<in> set ss \<longrightarrow> severity_rank s \<le> severity_rank (fold (\<lambda>x m. if severity_rank m < severity_rank x then x else m) ss m))" for m
  proof (induction ss arbitrary: m)
    case (Cons x ss)
    show ?case using Cons [of "if severity_rank m < severity_rank x then x else m"] by auto
  qed simp
  then show "s \<in> set ss \<Longrightarrow> severity_rank s \<le> severity_rank (highestSeverity ss)" by (simp add: highestSeverity_def)
qed

text \<open>An evaluation in full.\<close>

lemma evaluate_application_Inr:
  assumes "evaluateApplication E i t S = Inr ((blocked, gs), S')"
  obtains l where "find_loan t i (mb_db S) = Some l" "desk_kept S S'" "fd_signals S' = fd_signals S @ gs"
    "map (\<lambda>g. (sg_type g, sg_severity g, sg_impact g)) gs = triggered (ev_now E) t l S"
    "\<And>g. g \<in> set gs \<Longrightarrow> sg_tenant g = t \<and> sg_borrower g = Some (toBorrowerIdFromLoan l) \<and> sg_created g = ev_now E"
    "blocked \<longleftrightarrow> SEV_CRITICAL \<in> set (map sg_severity gs)"
    "\<And>g. g \<in> set gs \<Longrightarrow> severity_rank SEV_HIGH \<le> severity_rank (sg_severity g) \<Longrightarrow> hasOpenAlertAtOrAbove t i SEV_HIGH (mb_db S')"
    "gs = [] \<Longrightarrow> S' = S"
proof -
  from assms obtain l where l: "find_loan t i (mb_db S) = Some l"
    by (auto simp: evaluateApplication_def split: option.splits)
  have li: "l_id l = i" using find_loanD [OF l] by simp
  let ?xs = "triggered (ev_now E) t l S"
  show thesis
  proof (cases "?xs = []")
    case True
    then have "gs = []" "S' = S" "\<not> blocked"
      using assms by (auto simp: evaluateApplication_def l chain_eq_Inr Let_def)
    with True show thesis by (intro that [OF l]) simp_all
  next
    case False
    obtain hs T where h: "new_signals E t (Some (toBorrowerIdFromLoan l)) (Some (l_id l)) ?xs S = (hs, T)"
      by (cases "new_signals E t (Some (toBorrowerIdFromLoan l)) (Some (l_id l)) ?xs S")
    note sp = new_signals_Inr [OF h]
    let ?top = "highestSeverity (map sg_severity hs)"
    from assms have r: "gs = hs" "blocked \<longleftrightarrow> SEV_CRITICAL \<in> sg_severity ` set hs"
      and al: "(if severity_rank SEV_HIGH \<le> severity_rank ?top
         then ensureAlertForSignals E t (l_id l) (toBorrowerIdFromLoan l) ?top (map sg_id hs) T else Inr T) = Inr S'"
      using False by (auto simp: evaluateApplication_def l chain_eq_Inr Let_def h simp del: severity_rank.simps)
    have k: "desk_kept T S' \<and> fd_signals S' = fd_signals T"
    proof (cases "severity_rank SEV_HIGH \<le> severity_rank ?top")
      case True
      then show ?thesis using al ensureAlert_keeps_desk by (simp only: if_True)
    next
      case False
      then have "T = S'" using al by (simp only: if_False sum.inject)
      then show ?thesis by simp
    qed
    show thesis
    proof (rule that [OF l])
      show "desk_kept S S'" using desk_kept_trans [of S T S'] sp k by blast
      show "hasOpenAlertAtOrAbove t i SEV_HIGH (mb_db S')"
        if "g \<in> set gs" "severity_rank SEV_HIGH \<le> severity_rank (sg_severity g)" for g
      proof -
        have top: "severity_rank SEV_HIGH \<le> severity_rank ?top"
          using highest_above [of "sg_severity g" "map sg_severity hs"] that by (auto simp: r)
        then have "ensureAlertForSignals E t (l_id l) (toBorrowerIdFromLoan l) ?top (map sg_id hs) T = Inr S'"
          using al by (simp only: if_True)
        from ensureAlert_opens [OF this top] show ?thesis by (simp only: li)
      qed
      show "S' = S" if "gs = []" using that sp False by (simp add: r)
    qed (use sp k r in simp_all)
  qed
qed

lemma triggered_score:
  assumes "l_risk_score l = Some s" "750 < s"
  shows "(SG_HIGH_RISK_SCORE, SEV_HIGH, 80) \<in> set (triggered now t l S)"
proof -
  have "75 < normalizedRiskScore s" using assms(2) by (simp add: normalizedRiskScore_def)
  then show ?thesis by (simp add: triggered_def score_rule_def assms(1))
qed

lemma score_signal:
  assumes "evaluateApplication E i t S = Inr ((blocked, gs), S')" "find_loan t i (mb_db S) = Some l"
    and "l_risk_score l = Some s" "750 < s"
  obtains g where "g \<in> set gs" "sg_type g = SG_HIGH_RISK_SCORE" "sg_severity g = SEV_HIGH"
proof (rule evaluate_application_Inr [OF assms(1)])
  fix l'
  assume "find_loan t i (mb_db S) = Some l'"
    and m: "map (\<lambda>g. (sg_type g, sg_severity g, sg_impact g)) gs = triggered (ev_now E) t l' S"
  then have "(SG_HIGH_RISK_SCORE, SEV_HIGH, 80) \<in> set (triggered (ev_now E) t l' S)"
    using triggered_score assms(2-4) by simp
  then have "(SG_HIGH_RISK_SCORE, SEV_HIGH, 80) \<in> (\<lambda>g. (sg_type g, sg_severity g, sg_impact g)) ` set gs"
    by (simp only: m [symmetric] list.set_map)
  with that show thesis by auto
qed


definition scored_application :: loan where
  "scored_application = sample_loan\<lparr>l_status := LS_UNDER_REVIEW, l_risk_score := Some 800\<rparr>"

definition scored_desk :: fraud_desk where
  "scored_desk = empty_fraud_desk (loan_db\<lparr>db_loans := [scored_application], db_admins := []\<rparr>)"

lemma scored_found: "find_loan ''ten'' ''loan'' (mb_db scored_desk) = Some scored_application"
  by (simp add: find_loan_def scored_desk_def empty_fraud_desk_def scored_application_def sample_loan_def)

lemma scored_triggers: "triggered 1700000000000 ''ten'' scored_application scored_desk = [(SG_HIGH_RISK_SCORE, SEV_HIGH, 80)]"
  by (simp add: triggered_def blacklist_rule_def velocity_rule_def score_rule_def normalizedRiskScore_def behavior_rule_def
      behavior_of_def device_rule_def device_of_def exposure_rule_def active_policy_def scored_desk_def empty_fraud_desk_def
      scored_application_def sample_loan_def)


section \<open>The scan\<close>

lemma trim_ends:
  assumes "s \<noteq> ''''" "\<not> is_space (hd s)" "\<not> is_space (last s)"
  shows "trim s = s"
proof -
  have "dropWhile is_space s = s" using assms by (cases s) simp_all
  moreover have "dropWhile is_space (rev s) = rev s" using assms by (cases s rule: rev_cases) simp_all
  ultimately show ?thesis by (simp add: trim_def)
qed

lemma trim_trim [simp]: "trim (trim s) = trim s"
proof (cases "trim s = ''''")
  case False
  let ?d = "dropWhile is_space s"
  have d: "?d \<noteq> []" using False by (auto simp: trim_def dest: set_dropWhileD)
  have l: "\<not> is_space (last (trim s))"
  proof -
    have "dropWhile is_space (rev ?d) \<noteq> []" using False by (simp only: trim_def rev_is_Nil_conv not_False_eq_True)
    with hd_dropWhile [OF this] show ?thesis by (simp only: trim_def last_rev not_False_eq_True)
  qed
  have "\<exists>vs. ?d = trim s @ vs"
    by (rule exI [of _ "rev (takeWhile is_space (rev ?d))"])
      (simp add: trim_def flip: rev_append)
  then obtain vs where "?d = trim s @ vs" ..
  then have "hd (trim s) = hd ?d" using False by (simp add: hd_append)
  moreover have "\<not> is_space (hd ?d)" using d hd_dropWhile by blast
  ultimately show ?thesis using False l by (intro trim_ends) simp_all
qed simp

text \<open>The entries of the map: one per tenant and borrower, as no tenant has a colon in its id.\<close>

definition map_keys :: "(string \<times> string \<times> string) list \<Rightarrow> bool" where
  "map_keys m \<longleftrightarrow> (\<forall>x \<in> set m. fst x = fst (snd x) @ '':'' @ snd (snd x) \<and> CHR '':'' \<notin> set (fst (snd x)))"

lemma colon_split:
  assumes "t @ '':'' @ b = t' @ '':'' @ b'" "CHR '':'' \<notin> set t" "CHR '':'' \<notin> set t'"
  shows "t = t' \<and> b = b'"
  using assms
proof (induction t arbitrary: t')
  case Nil
  then show ?case by (cases t') auto
next
  case (Cons c t)
  then show ?case by (cases t') auto
qed

lemma map_put_set:
  assumes "map_keys m" "CHR '':'' \<notin> set t"
  shows "set (map_put (t @ '':'' @ b) (t, b) m) = insert (t @ '':'' @ b, t, b) (set m)"
  using assms
proof (induction m)
  case (Cons x m)
  obtain k t' b' where x: "x = (k, t', b')" by (cases x)
  have k: "k = t' @ '':'' @ b'" "CHR '':'' \<notin> set t'" using Cons.prems(1) by (simp_all add: map_keys_def x)
  have m: "map_keys m" using Cons.prems(1) by (simp add: map_keys_def)
  show ?case
  proof (cases "k = t @ '':'' @ b")
    case True
    then have "t' = t \<and> b' = b" using colon_split [of t' b' t b] k Cons.prems(2) by simp
    then show ?thesis using True by (simp add: x)
  next
    case False
    then show ?thesis using Cons.IH [OF m Cons.prems(2)] by (auto simp: x)
  qed
qed simp

lemma add_target_set:
  assumes "map_keys m" "CHR '':'' \<notin> set (sg_tenant g)"
  shows "map_keys (add_target m g) \<and> set m \<subseteq> set (add_target m g) \<and>
    (\<forall>x. sg_borrower g = Some x \<longrightarrow> trim x \<noteq> '''' \<longrightarrow> (sg_tenant g, trim x) \<in> snd ` set (add_target m g))"
proof (cases "sg_borrower g")
  case None
  then show ?thesis using assms by (simp add: add_target_def)
next
  case (Some x)
  show ?thesis
  proof (cases "trim x = ''''")
    case True
    then show ?thesis using assms Some by (simp add: add_target_def)
  next
    case False
    then have s: "set (add_target m g) = insert (sg_tenant g @ '':'' @ trim x, sg_tenant g, trim x) (set m)"
      using map_put_set [OF assms] by (simp add: add_target_def Some Let_def)
    then show ?thesis using assms unfolding map_keys_def s by (auto simp: Some)
  qed
qed

lemma fold_targets:
  assumes "map_keys m" "\<And>g. g \<in> set gs \<Longrightarrow> CHR '':'' \<notin> set (sg_tenant g)"
  shows "set m \<subseteq> set (foldl add_target m gs) \<and>
    (\<forall>g \<in> set gs. \<forall>x. sg_borrower g = Some x \<longrightarrow> trim x \<noteq> '''' \<longrightarrow> (sg_tenant g, trim x) \<in> snd ` set (foldl add_target m gs))"
  using assms
proof (induction gs arbitrary: m)
  case (Cons h gs)
  have a: "map_keys (add_target m h)" "set m \<subseteq> set (add_target m h)"
    "\<And>x. sg_borrower h = Some x \<Longrightarrow> trim x \<noteq> '''' \<Longrightarrow> (sg_tenant h, trim x) \<in> snd ` set (add_target m h)"
    using add_target_set [OF Cons.prems(1), of h] Cons.prems(2) by simp_all
  have IH: "set (add_target m h) \<subseteq> set (foldl add_target (add_target m h) gs)"
    "\<forall>g \<in> set gs. \<forall>x. sg_borrower g = Some x \<longrightarrow> trim x \<noteq> '''' \<longrightarrow>
       (sg_tenant g, trim x) \<in> snd ` set (foldl add_target (add_target m h) gs)"
    using Cons.IH [OF a(1)] Cons.prems(2) by simp_all
  have "(sg_tenant h, trim x) \<in> snd ` set (foldl add_target (add_target m h) gs)"
    if "sg_borrower h = Some x" "trim x \<noteq> ''''" for x
    using a(3) [OF that] IH(1) by blast
  with a(2) IH show ?case by simp
qed simp

lemma scanned:
  assumes "\<And>g. g \<in> set (fd_signals S) \<Longrightarrow> CHR '':'' \<notin> set (sg_tenant g)"
    and "g \<in> set (fd_signals S)" "now - hours 24 \<le> sg_created g" "sg_borrower g = Some x" "trim x \<noteq> ''''"
  shows "(sg_tenant g, trim x) \<in> set (scan_targets now S)"
  using fold_targets [of "[]" "filter (\<lambda>g. now - hours 24 \<le> sg_created g \<and> sg_borrower g \<noteq> None) (fd_signals S)"] assms
  by (simp add: scan_targets_def map_keys_def)

text \<open>A borrower of the scan with a severe score is on hold afterwards.\<close>

definition on_hold :: "string \<Rightarrow> string \<Rightarrow> 'a fraud_desk_scheme \<Rightarrow> bool" where
  "on_hold t b S \<longleftrightarrow> find (holds_borrower t b) (db_borrower_holds (mb_db S)) \<noteq> None"

lemma on_hold_iff: "on_hold t b S \<longleftrightarrow> (\<exists>h \<in> set (db_borrower_holds (mb_db S)). holds_borrower t b h)"
  by (auto simp: on_hold_def find_None_iff)

lemma on_hold_restricts:
  "on_hold t b S \<longleftrightarrow> assertBorrowerNotRestricted t b None (mb_db S) = Inl (Forbidden ''Account is temporarily restricted. Contact support.'')"
proof -
  have "holds_borrower t b = (\<lambda>h. bh_tenant h = t \<and> bh_borrower h = b \<and> bh_active h)" by (rule ext) (simp add: holds_borrower_def)
  then show ?thesis by (auto simp: on_hold_def assertBorrowerNotRestricted_def split: option.splits)
qed

lemma evaluateBorrower_frame:
  assumes "evaluateBorrower fl E t b S = ((a, c), S')"
  shows "fd_signals S' = fd_signals S \<and> db_borrower_holds (mb_db S') = db_borrower_holds (mb_db S) \<and>
    ag_level a = toFraudLevel (borrower_score fl (ev_now E) (borrower_signals (ev_now E) t b S)) \<and>
    c = counters_of (ev_now E) (borrower_signals (ev_now E) t b S) \<and> ag_flags a = map fst (raised_flags c)"
  using assms by (auto simp: evaluateBorrower_def Let_def fresh_row_def fresh_def split: option.splits)

lemma createHold_frame:
  assumes "createHold E t b reason admin sys S = (h, S')"
  shows "fd_signals S' = fd_signals S \<and> on_hold t b S' \<and> (\<forall>t' b'. on_hold t' b' S \<longrightarrow> on_hold t' b' S')"
proof (cases "find (holds_borrower t b) (db_borrower_holds (mb_db S))")
  case (Some k)
  then show ?thesis using assms by (simp add: createHold_def on_hold_def)
next
  case None
  then have "fd_signals S' = fd_signals S" "\<exists>k. holds_borrower t b k \<and> db_borrower_holds (mb_db S') = db_borrower_holds (mb_db S) @ [k]"
    using assms by (auto simp: createHold_def fresh_row_def fresh_def Let_def holds_borrower_def)
  then show ?thesis unfolding on_hold_iff by auto
qed

lemma autoHold_frame:
  assumes "applyAutoHoldRules E t b a c S = (h, S')"
  shows "fd_signals S' = fd_signals S \<and> (ag_level a = FL_SEVERE \<longrightarrow> on_hold t b S') \<and> (\<forall>t' b'. on_hold t' b' S \<longrightarrow> on_hold t' b' S')"
proof (cases "shouldHold (ag_level a) (ag_flags a) (ct_bank c)")
  case True
  then obtain k where "createHold E t b (''Auto hold triggered by fraud level '' @ level_text (ag_level a)) None True S = (k, S')"
    using assms by (auto simp: applyAutoHoldRules_def simp del: append_Cons append_Nil split: prod.splits)
  from createHold_frame [OF this] show ?thesis by blast
next
  case False
  then show ?thesis using assms by (auto simp: applyAutoHoldRules_def shouldHold_def)
qed

lemma scan_borrower_frame:
  assumes "scan_borrower fl E (n, S) (t, b) = (n', S')"
  shows "fd_signals S' = fd_signals S \<and> (\<forall>t' b'. on_hold t' b' S \<longrightarrow> on_hold t' b' S') \<and>
    (700 \<le> borrower_score fl (ev_now E) (borrower_signals (ev_now E) t b S) \<longrightarrow> on_hold t b S')"
proof -
  obtain a c T where e: "evaluateBorrower fl E t b S = ((a, c), T)" by (metis prod.collapse)
  obtain h U where h: "applyAutoHoldRules E t b a c T = (h, U)" by (cases "applyAutoHoldRules E t b a c T")
  have "S' = U" using assms by (simp add: scan_borrower_def e h)
  moreover note evaluateBorrower_frame [OF e] autoHold_frame [OF h]
  moreover have "on_hold t' b' S \<longleftrightarrow> on_hold t' b' T" for t' b'
    using evaluateBorrower_frame [OF e] by (simp add: on_hold_def)
  ultimately show ?thesis by (simp add: toFraudLevel_def)
qed

lemma scan_holds_severe:
  assumes "(t, b) \<in> set (scan_targets (ev_now E) S)"
    and "700 \<le> borrower_score fl (ev_now E) (borrower_signals (ev_now E) t b S)"
  shows "on_hold t b (snd (runScan fl E S))"
proof -
  have fold: "fd_signals (snd (foldl (scan_borrower fl E) (n, T) xs)) = fd_signals T \<and>
      (on_hold t b T \<longrightarrow> on_hold t b (snd (foldl (scan_borrower fl E) (n, T) xs))) \<and>
      ((t, b) \<in> set xs \<longrightarrow> fd_signals T = fd_signals S \<longrightarrow> on_hold t b (snd (foldl (scan_borrower fl E) (n, T) xs)))" for xs n T
  proof (induction xs arbitrary: n T)
    case (Cons x xs)
    obtain t' b' where x: "x = (t', b')" by (cases x)
    obtain n' U where s: "scan_borrower fl E (n, T) (t', b') = (n', U)" by (cases "scan_borrower fl E (n, T) (t', b')")
    note fr = scan_borrower_frame [OF s]
    have "on_hold t b U" if "x = (t, b)" "fd_signals T = fd_signals S"
      using fr that assms(2) by (simp add: x borrower_signals_def)
    then show ?case using Cons.IH [of n' U] fr by (auto simp: x s)
  qed simp
  obtain n U where r: "foldl (scan_borrower fl E) (0, S) (scan_targets (ev_now E) S) = (n, U)"
    by (cases "foldl (scan_borrower fl E) (0, S) (scan_targets (ev_now E) S)")
  show ?thesis
    using fold [of 0 S "scan_targets (ev_now E) S"] assms(1) by (simp add: runScan_def Let_def r)
qed

section \<open>Checks add up\<close>

definition run_checks :: "principal \<Rightarrow> string \<Rightarrow> env list \<Rightarrow> 'a fraud_desk_scheme \<Rightarrow> 'a fraud_desk_scheme outcome" where
  "run_checks P i = fold_outcome (\<lambda>E S. chain (runFraudCheck E P i S) (\<lambda>(_, S1). Inr S1))"

text \<open>The signals of a high score that a check of the last day has left.\<close>

definition score_signals :: "int \<Rightarrow> string \<Rightarrow> string \<Rightarrow> signal list \<Rightarrow> signal list" where
  "score_signals now t b gs =
     filter (\<lambda>g. sg_tenant g = t \<and> sg_borrower g = Some b \<and> sg_type g = SG_HIGH_RISK_SCORE \<and>
       sg_severity g = SEV_HIGH \<and> now - sg_created g \<le> hours 24) gs"

lemma check_adds_signal:
  assumes "runFraudCheck E P i S = Inr (r, S')" "find_loan (pc_tenant P) i (mb_db S) = Some l"
    and "l_risk_score l = Some s" "750 < s" "now \<le> ev_now E + hours 24"
  shows "Suc (length (score_signals now (pc_tenant P) (toBorrowerIdFromLoan l) (fd_signals S))) \<le>
      length (score_signals now (pc_tenant P) (toBorrowerIdFromLoan l) (fd_signals S')) \<and>
    find_loan (pc_tenant P) i (mb_db S') = Some l \<and> set (map sg_tenant (fd_signals S')) \<subseteq> insert (pc_tenant P) (set (map sg_tenant (fd_signals S)))"
proof -
  obtain bl gs where r: "r = (bl, gs)" by (cases r)
  have ev: "evaluateApplication E i (pc_tenant P) S = Inr ((bl, gs), S')" using assms(1,2) by (simp add: runFraudCheck_def r)
  obtain g where g: "g \<in> set gs" "sg_type g = SG_HIGH_RISK_SCORE" "sg_severity g = SEV_HIGH"
    by (rule score_signal [OF ev assms(2,3,4)])
  show ?thesis
  proof (rule evaluate_application_Inr [OF ev])
    fix l'
    assume l': "find_loan (pc_tenant P) i (mb_db S) = Some l'" and k: "desk_kept S S'" "fd_signals S' = fd_signals S @ gs"
      and of_gs: "\<And>g. g \<in> set gs \<Longrightarrow> sg_tenant g = pc_tenant P \<and> sg_borrower g = Some (toBorrowerIdFromLoan l') \<and> sg_created g = ev_now E"
    have "g \<in> set (score_signals now (pc_tenant P) (toBorrowerIdFromLoan l) gs)"
      using g of_gs [OF g(1)] l' assms(2,5) by (simp add: score_signals_def)
    then have "1 \<le> length (score_signals now (pc_tenant P) (toBorrowerIdFromLoan l) gs)"
      by (cases "score_signals now (pc_tenant P) (toBorrowerIdFromLoan l) gs") simp_all
    moreover have "find_loan (pc_tenant P) i (mb_db S') = Some l"
      using assms(2) desk_kept_db(1) [OF k(1)] by (simp add: find_loan_def)
    moreover have "set (map sg_tenant (fd_signals S')) \<subseteq> insert (pc_tenant P) (set (map sg_tenant (fd_signals S)))"
      using of_gs by (auto simp: k(2))
    ultimately show ?thesis by (simp add: k(2) score_signals_def)
  qed
qed

lemma checks_add_signals:
  assumes "run_checks P i Es S = Inr S'" "find_loan (pc_tenant P) i (mb_db S) = Some l"
    and "l_risk_score l = Some s" "750 < s" "\<And>E. E \<in> set Es \<Longrightarrow> now \<le> ev_now E + hours 24"
  shows "length Es \<le> length (score_signals now (pc_tenant P) (toBorrowerIdFromLoan l) (fd_signals S')) \<and>
    set (map sg_tenant (fd_signals S')) \<subseteq> insert (pc_tenant P) (set (map sg_tenant (fd_signals S)))"
proof -
  let ?n = "\<lambda>S. length (score_signals now (pc_tenant P) (toBorrowerIdFromLoan l) (fd_signals S))"
  have "length Es + ?n S \<le> ?n S' \<and> set (map sg_tenant (fd_signals S')) \<subseteq> insert (pc_tenant P) (set (map sg_tenant (fd_signals S)))"
    using assms(1,2,5)
  proof (induction Es arbitrary: S)
    case Nil
    then show ?case by (simp add: run_checks_def) blast
  next
    case (Cons E Es)
    obtain r T where c: "runFraudCheck E P i S = Inr (r, T)" and rest: "run_checks P i Es T = Inr S'"
      using Cons.prems(1) by (auto simp: run_checks_def chain_eq_Inr)
    note ad = check_adds_signal [OF c Cons.prems(2) assms(3,4) Cons.prems(3) [of E]]
    have "length Es + ?n T \<le> ?n S' \<and> set (map sg_tenant (fd_signals S')) \<subseteq> insert (pc_tenant P) (set (map sg_tenant (fd_signals T)))"
      using Cons.IH [OF rest] ad Cons.prems(3) by simp
    with ad show ?case by auto
  qed
  then show ?thesis by linarith
qed

lemma newest_filter:
  "length (sort_key f (filter Q xs)) \<le> 500 \<Longrightarrow>
     length (filter P (take 500 (sort_key f (filter Q xs)))) = length (filter (\<lambda>x. Q x \<and> P x) xs)"
  by (simp add: filter_sort conj_commute)

lemma score_of_signals:
  assumes "rounding fl" "4 \<le> length (score_signals now t b (fd_signals S))"
  shows "700 \<le> borrower_score fl now (borrower_signals now t b S)"
proof -
  let ?gs = "borrower_signals now t b S"
  let ?Q = "\<lambda>g. sg_tenant g = t \<and> sg_borrower g = Some b \<and> now - hours (30 * 24) \<le> sg_created g"
  let ?P = "\<lambda>g. sg_type g = SG_HIGH_RISK_SCORE \<and> sg_severity g = SEV_HIGH \<and> now - sg_created g \<le> hours 24"
  show ?thesis
  proof (cases "length (filter ?Q (fd_signals S)) \<le> 500")
    case True
    have "length (filter ?P ?gs) = length (filter (\<lambda>x. ?Q x \<and> ?P x) (fd_signals S))"
      unfolding borrower_signals_def by (rule newest_filter) (use True in simp)
    also have "filter (\<lambda>x. ?Q x \<and> ?P x) (fd_signals S) = score_signals now t b (fd_signals S)"
      unfolding score_signals_def by (rule filter_cong) (auto simp: hours_def)
    finally have n: "4 \<le> length (filter ?P ?gs)" using assms(2) by simp
    let ?w = "\<lambda>g. if ?P g then 183 else (7 :: int)"
    have "183 * int (length (filter ?P gs)) \<le> (\<Sum>g\<leftarrow>gs. ?w g)" for gs
    proof (induction gs)
      case (Cons g gs)
      show ?case by (cases "?P g") (use Cons in \<open>simp_all only: filter.simps if_True if_False list.map sum_list.Cons list.size, simp_all\<close>)
    qed simp
    note w = this [of ?gs]
    have "700 \<le> 183 * int (length (filter ?P ?gs))" using n by linarith
    with w have "700 \<le> (\<Sum>g\<leftarrow>?gs. ?w g)" by (rule order_trans [rotated])
    then show ?thesis
      by (intro borrower_score_ge [OF assms(1), of _ ?w])
        (use signal_points_ge [OF assms(1)] in \<open>auto simp: borrower_signals_def\<close>)
  next
    case False
    then have "length ?gs = 500" by (simp add: borrower_signals_def)
    then show ?thesis by (rule full_window_severe [OF assms(1)])
  qed
qed

text \<open>
  Checking is not harmless: every check of a well scored application leaves another signal of its
  score, and four checks within a day put its borrower on hold at the next scan.
\<close>

lemma four_checks_hold_the_borrower:
  assumes "rounding fl" "find_loan (pc_tenant P) i (mb_db S) = Some l" "l_risk_score l = Some s" "750 < s"
    and "run_checks P i Es S = Inr S'" "4 \<le> length Es" "\<And>E. E \<in> set Es \<Longrightarrow> ev_now E' \<le> ev_now E + hours 24"
    and "trim (l_phone l) \<noteq> ''''" "\<And>t. t \<in> insert (pc_tenant P) (set (map sg_tenant (fd_signals S))) \<Longrightarrow> CHR '':'' \<notin> set t"
  shows "assertBorrowerNotRestricted (pc_tenant P) (trim (l_phone l)) None (mb_db (snd (runScan fl E' S'))) =
    Inl (Forbidden ''Account is temporarily restricted. Contact support.'')"
proof -
  let ?b = "toBorrowerIdFromLoan l"
  note ad = checks_add_signals [OF assms(5,2,3,4) assms(7)]
  then have four: "4 \<le> length (score_signals (ev_now E') (pc_tenant P) ?b (fd_signals S'))" using assms(6) by simp
  then obtain g where "g \<in> set (score_signals (ev_now E') (pc_tenant P) ?b (fd_signals S'))"
    by (cases "score_signals (ev_now E') (pc_tenant P) ?b (fd_signals S')") auto
  then have g: "g \<in> set (fd_signals S')" "sg_tenant g = pc_tenant P" "sg_borrower g = Some ?b" "ev_now E' - hours 24 \<le> sg_created g"
    by (auto simp: score_signals_def)
  have c: "CHR '':'' \<notin> set (sg_tenant g)" if "g \<in> set (fd_signals S')" for g
    using ad assms(9) that by auto
  have "(sg_tenant g, trim ?b) \<in> set (scan_targets (ev_now E') S')"
    by (rule scanned [OF c g(1) g(4) g(3)]) (use assms(8) in \<open>simp_all add: toBorrowerIdFromLoan_def\<close>)
  then have "on_hold (pc_tenant P) ?b (snd (runScan fl E' S'))"
    by (intro scan_holds_severe score_of_signals [OF assms(1) four]) (simp add: g(2) toBorrowerIdFromLoan_def)
  then show ?thesis by (simp only: on_hold_restricts toBorrowerIdFromLoan_def)
qed

section \<open>A release\<close>

lemma release_Inr:
  assumes "releaseBorrowerHold fl E P b reason S = (Inr (), S')"
  obtains g where "fd_signals S' = fd_signals S @ [g]" "sg_tenant g = pc_tenant P" "sg_borrower g = Some (trim b)"
    "sg_type g = SG_ADMIN_OVERRIDE" "sg_created g = ev_now E" "trim b \<noteq> ''''" "on_hold (pc_tenant P) (trim b) S"
proof -
  from assms obtain h S1 g S2 where r: "releaseHold E (pc_tenant P) (trim b) (pc_admin P) (trim reason) S = Inr (h, S1)"
    and ev: "createEvent fl E (pc_tenant P) (Some (trim b)) None SG_ADMIN_OVERRIDE SEV_MEDIUM ''admin'' S1 = Inr (g, S2)"
    and S': "S' = noted ''FRAUD_BORROWER_HOLD_RELEASED'' ''BORROWER_HOLD'' (bh_id h) S2"
    by (auto simp: releaseBorrowerHold_def split: if_splits sum.splits)
  have S1: "fd_signals S1 = fd_signals S" using r by (auto simp: releaseHold_def Let_def split: option.splits)
  have b: "trim b \<noteq> ''''" and n: "new_signal E (pc_tenant P) (Some (trim b)) None (trim ''admin'')
      (SG_ADMIN_OVERRIDE, SEV_MEDIUM, score_impact fl SG_ADMIN_OVERRIDE SEV_MEDIUM) S1 = (g, S2)"
    using ev by (auto simp: createEvent_def split: if_splits)
  note g = new_signal_Inr [OF n]
  have "on_hold (pc_tenant P) (trim b) S"
  proof -
    obtain k where "find (holds_borrower (pc_tenant P) (trim b)) (sort_key (\<lambda>h. - bh_created h) (db_borrower_holds (mb_db S))) = Some k"
      using r by (cases "find (holds_borrower (pc_tenant P) (trim b)) (sort_key (\<lambda>h. - bh_created h) (db_borrower_holds (mb_db S)))")
        (simp_all add: releaseHold_def)
    from find_SomeD [OF this] show ?thesis by (auto simp: on_hold_iff)
  qed
  then show thesis by (intro that [of g]) (use g b in \<open>simp_all add: S' noted_def S1\<close>)
qed

lemma release_keeps_severe:
  assumes "rounding fl" "fd_signals S' = fd_signals S @ [g]" "sg_type g = SG_ADMIN_OVERRIDE"
    and "700 \<le> borrower_score fl now (borrower_signals now t b S)"
  shows "700 \<le> borrower_score fl now (borrower_signals now t b S')"
proof -
  let ?Q = "\<lambda>g. sg_tenant g = t \<and> sg_borrower g = Some b \<and> now - hours (30 * 24) \<le> sg_created g"
  let ?f = "\<lambda>g. - sg_created g"
  show ?thesis
  proof (cases "?Q g")
    case False
    have "filter ?Q (fd_signals S') = filter ?Q (fd_signals S)"
      by (simp only: assms(2) filter_append filter.simps False if_False append_Nil2)
    then have "borrower_signals now t b S' = borrower_signals now t b S" by (simp only: borrower_signals_def)
    with assms(4) show ?thesis by simp
  next
    case True
    then have f: "filter ?Q (fd_signals S') = filter ?Q (fd_signals S) @ [g]" by (simp add: assms(2))
    show ?thesis
    proof (cases "length (filter ?Q (fd_signals S')) \<le> 500")
      case True
      obtain us vs where s: "sort_key ?f (filter ?Q (fd_signals S) @ [g]) = us @ g # vs" "sort_key ?f (filter ?Q (fd_signals S)) = us @ vs"
        by (rule sort_key_snoc)
      have "length (us @ g # vs) \<le> 500" using True unfolding f s(1) [symmetric] by simp
      then have "borrower_signals now t b S' = us @ g # vs" "borrower_signals now t b S = us @ vs"
        unfolding borrower_signals_def f s by simp_all
      moreover have "counters_of now (us @ g # vs) = counters_of now (us @ vs)"
        by (rule counters_insert_uncounted) (simp add: assms(3))
      ultimately show ?thesis using borrower_score_insert [OF assms(1)] assms(4) by (metis order_trans)
    next
      case False
      then have "length (borrower_signals now t b S') = 500" by (simp add: borrower_signals_def)
      then show ?thesis by (rule full_window_severe [OF assms(1)])
    qed
  qed
qed

text \<open>
  A release does not last: it is itself a signal against the borrower, so the next scan of the
  day looks at the borrower again, and a score that was severe without it puts the hold back.
\<close>

lemma released_hold_comes_back:
  assumes "rounding fl" "releaseBorrowerHold fl E P b reason S = (Inr (), S')" "ev_now E' \<le> ev_now E + hours 24"
    and "700 \<le> borrower_score fl (ev_now E') (borrower_signals (ev_now E') (pc_tenant P) (trim b) S)"
    and "\<And>t. t \<in> insert (pc_tenant P) (set (map sg_tenant (fd_signals S))) \<Longrightarrow> CHR '':'' \<notin> set t"
  shows "assertBorrowerNotRestricted (pc_tenant P) (trim b) None (mb_db (snd (runScan fl E' S'))) =
    Inl (Forbidden ''Account is temporarily restricted. Contact support.'')"
proof (rule release_Inr [OF assms(2)])
  fix g
  assume g: "fd_signals S' = fd_signals S @ [g]" "sg_tenant g = pc_tenant P" "sg_borrower g = Some (trim b)"
    "sg_type g = SG_ADMIN_OVERRIDE" "sg_created g = ev_now E" "trim b \<noteq> ''''"
  have c: "CHR '':'' \<notin> set (sg_tenant h)" if "h \<in> set (fd_signals S')" for h
    using assms(5) that by (auto simp: g(1,2))
  have "(sg_tenant g, trim (trim b)) \<in> set (scan_targets (ev_now E') S')"
    by (rule scanned [OF c _ _ g(3)]) (use g assms(3) in simp_all)
  then have "on_hold (pc_tenant P) (trim b) (snd (runScan fl E' S'))"
    by (intro scan_holds_severe release_keeps_severe [OF assms(1) g(1,4) assms(4)]) (simp add: g(2))
  then show ?thesis by (simp only: on_hold_restricts)
qed

end
