(* ===== verification/Decisions.thy ===== *)
theory Decisions
  imports FraudProofs CollectionsScan
begin

text \<open>
  The decision of an application, \<open>modules/loan-applications/decision/loan-decision-orchestrator.service.ts\<close>:
  the outcome computed from the score, the exposure and the holds, the fraud check inside the same transaction,
  and the status it leads to, which is set without the risk evaluation and the gate of \<open>LoanApplications\<close>.
\<close>

section \<open>Data\<close>

datatype orchestrator_decision = DN_APPROVE | DN_MANUAL_REVIEW | DN_DECLINE

text \<open>The actor: the system, or an administrator with an id and a role.\<close>

datatype decision_actor = By_system | By_admin string "admin_role option"

record decision_inputs =
  di_risk :: "(int \<times> risk_decision \<times> risk_trigger \<times> int) option"
  di_policy :: decision_policy
  di_blocked :: bool
  di_signals :: "signal list"
  di_exposure :: decimal
  di_flags :: "string list"
  di_status :: loan_status
  di_amount :: int
  di_tenor :: int

record decision_event =
  dv_id :: string
  dv_tenant :: string
  dv_loan :: string
  dv_actor :: decision_actor
  dv_decision :: orchestrator_decision
  dv_reasons :: "string list"
  dv_inputs :: decision_inputs
  dv_limit :: "decimal option"
  dv_tenor :: int
  dv_created :: int

record decision_desk = fraud_desk +
  dd_events :: "decision_event list"

fun decision_name :: "orchestrator_decision \<Rightarrow> string" where
  "decision_name DN_APPROVE = ''APPROVE''"
| "decision_name DN_MANUAL_REVIEW = ''MANUAL_REVIEW''"
| "decision_name DN_DECLINE = ''DECLINE''"

fun signal_name :: "signal_type \<Rightarrow> string" where
  "signal_name SG_MULTIPLE_APPLICATIONS = ''MULTIPLE_APPLICATIONS_SHORT_WINDOW''"
| "signal_name SG_DEVICE_MISMATCH = ''DEVICE_MISMATCH''"
| "signal_name SG_HIGH_RISK_SCORE = ''HIGH_RISK_SCORE''"
| "signal_name SG_REPAYMENT_ANOMALY = ''REPAYMENT_PATTERN_ANOMALY''"
| "signal_name SG_GEO_MISMATCH = ''GEO_MISMATCH''"
| "signal_name SG_MANUAL_FLAG = ''MANUAL_FLAG''"
| "signal_name SG_LOGIN_FAILED = ''LOGIN_FAILED''"
| "signal_name SG_OTP_FAILED = ''OTP_FAILED''"
| "signal_name SG_DEVICE_CHANGED = ''DEVICE_CHANGED''"
| "signal_name SG_MULTIPLE_ACCOUNTS = ''MULTIPLE_ACCOUNTS_SUSPECTED''"
| "signal_name SG_BANK_ACCOUNT_CHANGED = ''BANK_ACCOUNT_CHANGED''"
| "signal_name SG_REPAYMENT_REVERSAL = ''REPAYMENT_REVERSAL''"
| "signal_name SG_CARD_CHARGEBACK = ''CARD_CHARGEBACK''"
| "signal_name SG_PAYMENT_VELOCITY = ''PAYMENT_VELOCITY_SPIKE''"
| "signal_name SG_COLLECTIONS_ESCALATION = ''COLLECTIONS_ESCALATION''"
| "signal_name SG_MANUAL_REVIEW = ''MANUAL_REVIEW_REQUESTED''"
| "signal_name SG_ADMIN_OVERRIDE = ''ADMIN_OVERRIDE''"
| "signal_name SG_IP_GEO_ANOMALY = ''IP_GEO_ANOMALY''"

section \<open>The decision\<close>

definition computeDecisionFromInputs ::
  "int option \<Rightarrow> int \<Rightarrow> int \<Rightarrow> decimal \<Rightarrow> decimal \<Rightarrow> string list \<Rightarrow> string list \<Rightarrow> orchestrator_decision \<times> string list" where
  "computeDecisionFromInputs riskScore manualReviewMin approveThreshold exposure maxExposure holdCodes hardBlockFlags =
     (let hasHardBlock = (\<exists>c \<in> set holdCodes. c \<in> set hardBlockFlags);
          codes = (if hasHardBlock then [''HARD_BLOCK_FLAG''] else [])
      in case riskScore of
           None \<Rightarrow> (DN_MANUAL_REVIEW, codes @ [''MISSING_RISK_DATA''])
         | Some s \<Rightarrow>
             if hasHardBlock then (DN_DECLINE, codes @ [''FLAGGED_BY_HARD_BLOCK_POLICY''])
             else if s < manualReviewMin then (DN_DECLINE, codes @ [''RISK_SCORE_BELOW_MANUAL_REVIEW_MIN''])
             else if maxExposure < exposure then (DN_DECLINE, codes @ [''EXPOSURE_LIMIT_EXCEEDED''])
             else if approveThreshold \<le> s then (DN_APPROVE, codes @ [''RISK_SCORE_ABOVE_APPROVE_THRESHOLD''])
             else (DN_MANUAL_REVIEW, codes @ [''RISK_SCORE_IN_MANUAL_REVIEW_BAND'']))"

definition decision_assertCanRun :: "decision_actor \<Rightarrow> unit outcome" where
  "decision_assertCanRun a =
     (case a of
        By_system \<Rightarrow> Inr ()
      | By_admin _ role \<Rightarrow> ensure (role \<in> {Some CREDIT_OFFICER, Some SUPER_ADMIN, Some RISK_MANAGER})
          (Forbidden ''Role cannot run decision orchestrator.''))"

definition getTransitionTarget :: "loan_status \<Rightarrow> orchestrator_decision \<Rightarrow> loan_status" where
  "getTransitionTarget currentStatus d =
     (if currentStatus = LS_SUBMITTED then (if d = DN_DECLINE then LS_REJECTED else LS_UNDER_REVIEW)
      else if d = DN_APPROVE then LS_APPROVED
      else if d = DN_DECLINE then LS_REJECTED
      else LS_UNDER_REVIEW)"

definition latest_decision :: "string \<Rightarrow> string \<Rightarrow> decision_desk \<Rightarrow> decision_event option" where
  "latest_decision t i S =
     find (\<lambda>v. True) (sort_key (\<lambda>v. - dv_created v) (filter (\<lambda>v. dv_tenant v = t \<and> dv_loan v = i) (dd_events S)))"

definition latest_risk :: "string \<Rightarrow> string \<Rightarrow> db \<Rightarrow> risk_eval option" where
  "latest_risk t i D =
     find (\<lambda>v. True) (sort_key (\<lambda>v. - rv_created v) (filter (\<lambda>v. rv_tenant v = t \<and> rv_loan v = i) (db_risk_evals D)))"

text \<open>The policy of the tenant, created with the defaults where there is none.\<close>

definition default_decision_policy :: "env \<Rightarrow> string \<Rightarrow> string \<Rightarrow> decision_policy" where
  "default_decision_policy E t i =
     \<lparr>dp_id = i, dp_tenant = t, dp_product = None, dp_approve_min = 700, dp_review_min = 550, dp_max_exposure = 1000000,
      dp_hard_blocks = [''FRAUD_SUSPECTED'', ''KYC_MISSING''], dp_reeval = False, dp_active = True, dp_updated = ev_now E\<rparr>"

definition ensure_decision_policy :: "env \<Rightarrow> string \<Rightarrow> decision_desk \<Rightarrow> decision_policy \<times> decision_desk" where
  "ensure_decision_policy E t S =
     (case active_policy t S of
        Some p \<Rightarrow> (p, S)
      | None \<Rightarrow>
          (case fresh_row E S of (i, S1) \<Rightarrow>
             let p = default_decision_policy E t i in (p, S1\<lparr>fd_policies := fd_policies S1 @ [p]\<rparr>)))"

record decision_result =
  dr_decision :: orchestrator_decision
  dr_status :: loan_status
  dr_event :: string
  dr_reasons :: "string list"

definition replayed_decision :: "loan \<Rightarrow> decision_event \<Rightarrow> decision_result" where
  "replayed_decision l v =
     \<lparr>dr_decision = dv_decision v, dr_status = l_status l, dr_event = dv_id v, dr_reasons = dv_reasons v\<rparr>"

text \<open>What is decided once the fraud check is done, with the reasons.\<close>

definition decide_outcome ::
  "decision_actor \<Rightarrow> string \<Rightarrow> loan \<Rightarrow> decision_policy \<Rightarrow> risk_eval option \<Rightarrow> bool \<times> signal list \<Rightarrow> db \<Rightarrow> orchestrator_decision \<times> string list" where
  "decide_outcome a t l p risk fraud D =
     (case (if fst fraud then (DN_DECLINE, ''FRAUD_BLOCK'' # map (\<lambda>g. signal_name (sg_type g)) (snd fraud))
            else computeDecisionFromInputs (map_option (\<lambda>v. rk_score (rv_assessment v)) risk) (dp_review_min p) (dp_approve_min p)
              (active_exposure t l D) (dp_max_exposure p) (map (\<lambda>h. hold_name (lh_type h)) (listActiveHolds t (l_id l) D))
              (dp_hard_blocks p)) of
        (d, reasons) \<Rightarrow>
          if a = By_system \<and> d = DN_APPROVE \<and> \<not> isEnabled t AUTO_APPROVAL D
          then (DN_MANUAL_REVIEW, reasons @ [''AUTO_APPROVAL_DISABLED'']) else (d, reasons))"

text \<open>
  The row of the decision. The limit is the smaller of the amount, a 32 bit integer, and the policy's limit
  read as a float, which is exact below the amount.
\<close>

definition decision_row ::
  "env \<Rightarrow> decision_actor \<Rightarrow> string \<Rightarrow> loan \<Rightarrow> decision_policy \<Rightarrow> risk_eval option \<Rightarrow> bool \<times> signal list \<Rightarrow> db \<Rightarrow>
     orchestrator_decision \<times> string list \<Rightarrow> string \<Rightarrow> decision_event" where
  "decision_row E a t l p risk fraud D d i =
     \<lparr>dv_id = i, dv_tenant = t, dv_loan = l_id l, dv_actor = a, dv_decision = fst d, dv_reasons = snd d,
      dv_inputs =
        \<lparr>di_risk = map_option (\<lambda>v. (rk_score (rv_assessment v), rk_decision (rv_assessment v), rv_trigger v, rv_created v)) risk,
         di_policy = p, di_blocked = fst fraud, di_signals = snd fraud, di_exposure = active_exposure t l D,
         di_flags = map (\<lambda>h. hold_name (lh_type h)) (listActiveHolds t (l_id l) D), di_status = l_status l,
         di_amount = l_amount l, di_tenor = l_tenor_months l\<rparr>,
      dv_limit = (if fst d = DN_APPROVE then Some (min (of_int (l_amount l)) (dp_max_exposure p)) else None),
      dv_tenor = max 30 (l_tenor_months l * 30), dv_created = ev_now E\<rparr>"

definition actor_id :: "decision_actor \<Rightarrow> string option" where
  "actor_id a = (case a of By_system \<Rightarrow> None | By_admin i _ \<Rightarrow> Some i)"

definition apply_decision ::
  "string \<Rightarrow> loan \<Rightarrow> decision_event \<Rightarrow> loan_status \<Rightarrow> decision_desk \<Rightarrow> decision_desk" where
  "apply_decision t l v to S =
     S\<lparr>dd_events := dd_events S @ [v],
       mb_db := (mb_db S)\<lparr>db_loans := update_where (\<lambda>m. l_id m = l_id l) (\<lambda>m. m\<lparr>l_status := to\<rparr>) (db_loans (mb_db S)),
         db_history := db_history (mb_db S) @ [\<lparr>hi_tenant = t, hi_loan = l_id l, hi_from = Some (l_status l), hi_to = to,
           hi_note = Some (''Decision '' @ decision_name (dv_decision v) @ '': '' @ comma_list (dv_reasons v)),
           hi_by = actor_id (dv_actor v)\<rparr>]\<rparr>\<rparr>"

definition decide_anew ::
  "env \<Rightarrow> decision_actor \<Rightarrow> string \<Rightarrow> loan \<Rightarrow> decision_policy \<Rightarrow> decision_desk \<Rightarrow> (decision_result \<times> decision_desk) outcome" where
  "decide_anew E a t l p S =
     (let risk = latest_risk t (l_id l) (mb_db S)
      in chain (evaluateApplication E (l_id l) t S) (\<lambda>(fraud, S1).
         let d = decide_outcome a t l p risk fraud (mb_db S1); to = getTransitionTarget (l_status l) (fst d)
         in chain (assertValidTransition (l_status l) to) (\<lambda>_.
            chain (case a of By_admin _ (Some role) \<Rightarrow> assertRoleCanTransition role (l_status l) to | _ \<Rightarrow> Inr ()) (\<lambda>_.
            case fresh_row E S1 of (i, S2) \<Rightarrow>
              if \<exists>v \<in> set (dd_events S2). dv_loan v = l_id l \<and> dv_created v = ev_now E
              then Inl (Internal ''Unique constraint failed'')
              else Inr (\<lparr>dr_decision = fst d, dr_status = to, dr_event = i, dr_reasons = snd d\<rparr>,
                     apply_decision t l (decision_row E a t l p risk fraud (mb_db S1) d i) to S2)))))"

text \<open>The second test for a replay is never reached, as the first one has answered those cases.\<close>

definition decideAndTransition ::
  "env \<Rightarrow> decision_actor \<Rightarrow> string \<Rightarrow> string \<Rightarrow> decision_desk \<Rightarrow> (decision_result \<times> decision_desk) outcome" where
  "decideAndTransition E a t i S =
     chain (decision_assertCanRun a) (\<lambda>_.
     case find_loan t i (mb_db S) of
       None \<Rightarrow> Inl (BadRequest ''Loan application not found.'')
     | Some l \<Rightarrow>
         (let latest = latest_decision t (l_id l) S
          in case ensure_decision_policy E t S of (p, S1) \<Rightarrow>
             if l_status l \<noteq> LS_SUBMITTED \<and> (\<not> dp_reeval p \<or> l_status l \<noteq> LS_UNDER_REVIEW)
             then (case latest of
                     None \<Rightarrow> Inl (BadRequest (''Decision cannot run from status '' @ status_name (l_status l)))
                   | Some v \<Rightarrow> Inr (replayed_decision l v, S1))
             else if l_status l = LS_UNDER_REVIEW \<and> \<not> dp_reeval p \<and> latest \<noteq> None
             then Inr (replayed_decision l (the latest), S1)
             else decide_anew E a t l p S1))"

text \<open>\<open>decide\<close> of \<open>admin-loan-applications.service.ts\<close>.\<close>

definition admin_decide :: "env \<Rightarrow> principal \<Rightarrow> string \<Rightarrow> decision_desk \<Rightarrow> (decision_result \<times> decision_desk) outcome" where
  "admin_decide E P i S = decideAndTransition E (By_admin (pc_admin P) (Some (pc_role P))) (pc_tenant P) i S"

section \<open>Requests\<close>

text \<open>The requests that touch an application before it is paid out, of all four services.\<close>

datatype review_call =
    App_request string app_call
  | Fraud_request fraud_call
  | Decide principal string

fun exec_review :: "(rat \<Rightarrow> rat) \<Rightarrow> env \<times> review_call \<Rightarrow> decision_desk \<Rightarrow> unit outcome \<times> decision_desk" where
  "exec_review fl (E, App_request t c) S = (case exec_app (E, t, c) (mb_db S) of (r, D) \<Rightarrow> (r, S\<lparr>mb_db := D\<rparr>))"
| "exec_review fl (E, Fraud_request c) S = exec_fraud fl (E, c) S"
| "exec_review fl (E, Decide P i) S =
     (case admin_decide E P i S of Inl e \<Rightarrow> (Inl e, S) | Inr (r, S1) \<Rightarrow> (Inr (), S1))"

end
