(* ===== verification/DecisionProofs.thy ===== *)
theory DecisionProofs
  imports Decisions
begin

text \<open>
  What a decision does to an application: an application that a transition has put under review, with its
  evaluation, stays there whatever is asked of the services; one that was decided first was never evaluated, and
  can still be approved.
\<close>

section \<open>What each request leaves alone\<close>

definition same_review :: "'a fraud_desk_scheme \<Rightarrow> 'a fraud_desk_scheme \<Rightarrow> bool" where
  "same_review S S' \<longleftrightarrow> db_loans (mb_db S') = db_loans (mb_db S) \<and> db_risk_evals (mb_db S') = db_risk_evals (mb_db S) \<and>
     fd_policies S' = fd_policies S"

lemma same_review_refl [simp]: "same_review S S"
  by (simp add: same_review_def)

lemma same_review_trans: "same_review S T \<Longrightarrow> same_review T U \<Longrightarrow> same_review S U"
  by (simp add: same_review_def)

lemma kept_same_review: "desk_kept S S' \<Longrightarrow> same_review S S'"
  using desk_kept_db [of S S'] by (simp add: same_review_def) (simp add: desk_kept_def)

lemma evaluation_same_review: "evaluateApplication E i t S = Inr (r, S') \<Longrightarrow> same_review S S'"
  by (cases r) (auto elim!: evaluate_application_Inr intro: kept_same_review)

lemma new_signal_same_review: "same_review S (snd (new_signal E t b l src x S))"
proof -
  obtain g S' where n: "new_signal E t b l src x S = (g, S')" by (cases "new_signal E t b l src x S")
  from new_signal_Inr [OF n] show ?thesis by (auto simp: n intro: kept_same_review)
qed

lemma flag_same_review:
  assumes "createManualFlag E t loan sev S = Inr (r, S')"
  shows "same_review S S'"
proof -
  from assms obtain l g S1 s where l: "find_loan t loan (mb_db S) = Some l"
    and g: "new_signal E t (Some (toBorrowerIdFromLoan l)) (Some (l_id l)) ''system'' (SG_MANUAL_FLAG, s, 100) S = (g, S1)"
    and r: "S' = S1 \<or> ensureAlertForSignals E t (l_id l) (toBorrowerIdFromLoan l) s [sg_id g] S1 = Inr S'"
    by (auto simp: createManualFlag_def Let_def chain_eq_Inr simp del: severity_rank.simps split: option.splits prod.splits if_splits)
  have "same_review S S1" using new_signal_same_review [of S E t "Some (toBorrowerIdFromLoan l)" "Some (l_id l)" "''system''" "(SG_MANUAL_FLAG, s, 100)"]
    by (simp add: g)
  moreover have "same_review S1 S'"
  proof (rule disjE [OF r])
    assume "ensureAlertForSignals E t (l_id l) (toBorrowerIdFromLoan l) s [sg_id g] S1 = Inr S'"
    from ensureAlert_keeps_desk [OF this] show ?thesis by (simp add: kept_same_review)
  qed simp
  ultimately show ?thesis by (rule same_review_trans)
qed

lemma hold_same_review: "same_review S (snd (createHold E t b reason admin system S))"
  by (simp add: createHold_def fresh_row_def fresh_def Let_def same_review_def split: option.split)

lemma score_same_review: "same_review S (snd (evaluateBorrower fl E t b S))"
  by (simp add: evaluateBorrower_def fresh_row_def fresh_def Let_def same_review_def split: option.split)

lemma auto_hold_same_review: "same_review S (snd (applyAutoHoldRules E t b a c S))"
proof (cases "shouldHold (ag_level a) (ag_flags a) (ct_bank c)")
  case True
  let ?r = "''Auto hold triggered by fraud level '' @ level_text (ag_level a)"
  obtain h S1 where h: "createHold E t b ?r None True S = (h, S1)" by (cases "createHold E t b ?r None True S")
  have "applyAutoHoldRules E t b a c S = (Some h, S1)" by (simp only: applyAutoHoldRules_def True if_True h prod.case)
  moreover have "same_review S S1" using hold_same_review [of S E t b ?r None True] by (simp only: h snd_conv)
  ultimately show ?thesis by (simp only: snd_conv)
next
  case False
  then show ?thesis by (simp add: applyAutoHoldRules_def)
qed

lemma scan_same_review: "same_review S (snd (runScan fl E S))"
proof -
  have one: "same_review T (snd (scan_borrower fl E (n, T) x))" for n x and T :: "'a fraud_desk_scheme"
  proof -
    obtain t b where x: "x = (t, b)" by (cases x)
    obtain a c U where e: "evaluateBorrower fl E t b T = ((a, c), U)" by (metis prod.collapse)
    have "same_review T U" using score_same_review [of T fl E t b] by (simp add: e)
    moreover have "snd (scan_borrower fl E (n, T) x) = snd (applyAutoHoldRules E t b a c U)"
      by (simp add: scan_borrower_def x e split: prod.split)
    ultimately show ?thesis using auto_hold_same_review same_review_trans by metis
  qed
  have "same_review T (snd (foldl (scan_borrower fl E) (n, T) xs))" for n xs and T :: "'a fraud_desk_scheme"
  proof (induction xs arbitrary: n T)
    case (Cons x xs)
    obtain n' U where s: "scan_borrower fl E (n, T) x = (n', U)" by (cases "scan_borrower fl E (n, T) x")
    then show ?case using Cons.IH [where n = n' and T = U] one [of T n x] same_review_trans [of T U] by (simp add: s)
  qed simp
  from this [where n = 0 and T = S and xs = "scan_targets (ev_now E) S"] show ?thesis
    by (simp add: runScan_def Let_def split_beta)
qed

lemma event_same_review:
  "createEvent fl E t b l ty sev src S = Inr (g, S') \<Longrightarrow> same_review S S'"
proof -
  assume "createEvent fl E t b l ty sev src S = Inr (g, S')"
  then have "new_signal E t (map_option trim b) (map_option trim l) (trim src) (ty, sev, score_impact fl ty sev) S = (g, S')"
    by (auto simp: createEvent_def split: if_splits)
  from arg_cong [OF this, of snd] show "same_review S S'"
    using new_signal_same_review [of S E t "map_option trim b" "map_option trim l" "trim src" "(ty, sev, score_impact fl ty sev)"] by simp
qed

lemma noted_same_review [simp]: "same_review S (noted a e i S') = same_review S S'"
  by (simp add: noted_def same_review_def)

lemma alert_same_review [simp]: "same_review S (set_alert i f S)"
  by (simp add: kept_same_review set_alert_keeps_desk)

lemma settled_same_review:
  "(\<And>S1. r = Inr S1 \<Longrightarrow> same_review S S1) \<Longrightarrow> same_review S (snd (settled_desk r S))"
  by (simp add: settled_desk_def split: sum.split)

text \<open>No request to the fraud service touches a loan, an evaluation or a policy.\<close>

lemma fraud_same_review: "same_review S (snd (exec_fraud fl (E, c) S))"
proof (cases c)
  case (CheckApplication P i)
  have "same_review S S1" if "map_sum id snd (runFraudCheck E P i S) = Inr S1" for S1
    using that evaluation_same_review
    by (cases "runFraudCheck E P i S") (auto simp: runFraudCheck_def split: if_splits)
  then show ?thesis by (simp add: CheckApplication settled_same_review)
next
  case (FlagApplication P i sev remark)
  have "same_review S S1" if "map_sum id snd (manualFlag E P i sev remark S) = Inr S1" for S1
    using that flag_same_review
    by (cases "manualFlag E P i sev remark S") (auto simp: manualFlag_def chain_eq_Inr split: if_splits)
  then show ?thesis by (simp add: FlagApplication settled_same_review)
next
  case (SetAlert P i status remark)
  have "same_review S S1" if "updateAlert E P i status remark S = Inr S1" for S1
    using that by (auto simp: updateAlert_def updateAlertStatus_def Let_def chain_eq_Inr split: if_splits option.splits)
  then show ?thesis by (simp add: SetAlert settled_same_review)
next
  case (HoldBorrower P b reason)
  obtain h S1 where h: "createHold E (pc_tenant P) (trim b) (trim reason) (Some (pc_admin P)) False S = (h, S1)"
    by (cases "createHold E (pc_tenant P) (trim b) (trim reason) (Some (pc_admin P)) False S")
  have "same_review S S1" using hold_same_review [of S E "pc_tenant P" "trim b" "trim reason" "Some (pc_admin P)" False] by (simp add: h)
  moreover have "same_review S S2" if "createEvent fl E (pc_tenant P) (Some (trim b)) None SG_MANUAL_REVIEW SEV_HIGH ''admin'' S1 = Inr (g, S2)" for g S2
    by (rule same_review_trans [OF \<open>same_review S S1\<close> event_same_review [OF that]])
  ultimately show ?thesis
    by (simp add: HoldBorrower holdBorrower_def h split: sum.split prod.split)
next
  case (ReleaseBorrower P b reason)
  have r: "same_review S S1" if "releaseHold E (pc_tenant P) (trim b) (pc_admin P) (trim reason) S = Inr (h, S1)" for h S1
    using that by (auto simp: releaseHold_def Let_def same_review_def split: option.splits)
  have "same_review S S2" if "releaseHold E (pc_tenant P) (trim b) (pc_admin P) (trim reason) S = Inr (h, S1)"
    "createEvent fl E (pc_tenant P) (Some (trim b)) None SG_ADMIN_OVERRIDE SEV_MEDIUM ''admin'' S1 = Inr (g, S2)" for h S1 g S2
    by (rule same_review_trans [OF r [OF that(1)] event_same_review [OF that(2)]])
  with r show ?thesis
    by (simp add: ReleaseBorrower releaseBorrowerHold_def split: sum.split prod.split)
next
  case (ViewBorrower P b)
  have "snd (borrowerDetail fl E P b S) = snd (evaluateBorrower fl E (pc_tenant P) (trim b) S)"
    by (simp add: borrowerDetail_def Let_def split: prod.split)
  then show ?thesis using score_same_review by (simp add: ViewBorrower)
next
  case ScanSignals
  then show ?thesis using scan_same_review by simp
qed

section \<open>Under review for good\<close>

lemma submit_status:
  assumes "create_application E t x D = Inr (k, D')" "status_of i D = Some s"
  shows "status_of i D' = Some s"
proof -
  from assms(1) obtain t' where "db_loans D' = db_loans D @ [new_loan t' x k]"
    by (auto simp: create_application_def chain_eq_Inr fresh_def Let_def count_behavior_def split: if_splits)
  with assms(2) show ?thesis by (simp add: status_of_def map_add_def)
qed

lemma transition_other_status:
  assumes "transitionStatus E t k to role remark ad D = Inr D'" "loan_ids_ok D" "k \<noteq> i"
  shows "status_of i D' = status_of i D"
proof (rule transitionStatus_Inr [OF assms(1)])
  fix D2
  assume tx: "transition_tx E t k to role remark (trim_or_null ad) D = Inr D2" and D': "db_loans D' = db_loans D2"
  show ?thesis
  proof (rule transition_Inr [OF tx])
    fix l a ov D1
    assume l: "find (\<lambda>l. l_id l = k \<and> l_tenant l = t) (db_loans D) = Some l"
      and r: "risk_step E t l to (trim_or_null ad) D = Inr ((a, ov), D1)"
      and loans: "db_loans D2 = update_where (\<lambda>m. l_id m = l_id l) (\<lambda>m. m\<lparr>l_status := to\<rparr>) (db_loans D1)"
    have k: "l_id l = k" by (rule status_found(2) [OF assms(2) l])
    have "status_of i D' = status_of i D1" using assms(3) by (simp add: status_of_def D' loans k map_of_status)
    also have "\<dots> = status_of i D" by (rule rates_status [OF risk_step_rates [OF r]])
    finally show ?thesis .
  qed
qed

lemma app_call_stuck:
  assumes inv: "app_inv i D" and st: "status_of i D = Some LS_UNDER_REVIEW"
  shows "status_of i (snd (exec_app c D)) = Some LS_UNDER_REVIEW"
proof -
  obtain E t c' where c: "c = (E, t, c')" by (cases c)
  have ids: "loan_ids_ok D" using inv by (simp add: app_inv_def)
  have same: "status_of i D' = Some LS_UNDER_REVIEW" if "db_loans D' = db_loans D" for D'
    using st that by (simp add: status_of_def)
  show ?thesis
  proof (cases c')
    case (Submit x)
    have "status_of i D' = Some LS_UNDER_REVIEW" if "map_sum id snd (create_application E t x D) = Inr D'" for D'
      using that submit_status [OF _ st] by (cases "create_application E t x D") auto
    then show ?thesis using st by (simp add: c Submit committed_sum split: sum.split)
  next
    case (Transition k to role remark ad)
    show ?thesis
    proof (cases "transitionStatus E t k to role remark ad D")
      case (Inr D')
      have "k \<noteq> i"
      proof
        assume "k = i"
        with Inr obtain D2 where "transition_tx E t i to role remark (trim_or_null ad) D = Inr D2"
          by (auto elim: transitionStatus_Inr)
        then show False using under_review_stuck [OF inv st] by blast
      qed
      from transition_other_status [OF Inr ids this] show ?thesis using st by (simp add: c Transition Inr)
    qed (simp add: c Transition st)
  next
    case (Override k remark ad role)
    then show ?thesis using rates_status [OF override_rates] st by (simp add: c)
  next
    case (Reevaluate k role ad)
    have "status_of i D' = Some LS_UNDER_REVIEW" if "map_sum id snd (runManualEvaluation E t role k ad D) = Inr D'" for D'
      using that st by (cases "runManualEvaluation E t role k ad D")
        (auto simp: runManualEvaluation_def chain_eq_Inr dest!: evaluate_rates [THEN rates_status, of _ _ _ _ _ _ _ _ i])
    then show ?thesis using st by (simp add: c Reevaluate committed_sum split: sum.split)
  next
    case (AddHold k type remark ad)
    then show ?thesis
      using st same by (auto simp: c committed_sum addHold_def fresh_def Let_def split: sum.split option.split)
  next
    case (ResolveHold h remark ad)
    then show ?thesis
      using st same by (auto simp: c committed_sum resolveHold_def Let_def split: sum.split option.split)
  next
    case (NewPolicy role name config ad)
    have "status_of i D' = Some LS_UNDER_REVIEW" if "map_sum id snd (createPolicy E t role name config ad D) = Inr D'" for D'
      using that same createPolicy_tables(1) by (cases "createPolicy E t role name config ad D") auto
    then show ?thesis using st by (simp add: c NewPolicy committed_sum split: sum.split)
  next
    case (ActivatePolicy role p)
    then show ?thesis
      using st same by (auto simp: c committed_sum activatePolicy_def chain_eq_Inr split: sum.split option.splits)
  qed
qed

text \<open>What a decision does, on a first run and on a repeated one.\<close>

lemma ensure_policy_frame:
  assumes "ensure_decision_policy E t S = (p, S1)"
  shows "db_loans (mb_db S1) = db_loans (mb_db S)" "db_risk_evals (mb_db S1) = db_risk_evals (mb_db S)" "dd_events S1 = dd_events S"
    "p \<in> set (fd_policies S1)" "list_all (\<lambda>p. \<not> dp_reeval p) (fd_policies S) \<Longrightarrow> list_all (\<lambda>p. \<not> dp_reeval p) (fd_policies S1)"
proof -
  show "p \<in> set (fd_policies S1)"
  proof (cases "active_policy t S")
    case (Some q)
    then have "q \<in> set (fd_policies S)" unfolding active_policy_def by (drule_tac find_SomeD) simp
    then show ?thesis using assms by (simp add: ensure_decision_policy_def Some)
  next
    case None
    then show ?thesis using assms by (auto simp: ensure_decision_policy_def Let_def split: prod.splits)
  qed
qed (use assms in \<open>auto simp: ensure_decision_policy_def fresh_row_def fresh_def Let_def default_decision_policy_def split: option.splits\<close>)

lemma decide_anew_Inr:
  assumes "decide_anew E a t l p S = Inr (r, S')"
  obtains fraud S1 d n S2 where "evaluateApplication E (l_id l) t S = Inr (fraud, S1)"
    "d = decide_outcome a t l p (latest_risk t (l_id l) (mb_db S)) fraud (mb_db S1)"
    "dr_decision r = fst d" "dr_reasons r = snd d" "dr_status r = getTransitionTarget (l_status l) (fst d)" "dr_event r = n"
    "dr_status r \<in> set (getAllowedTransitions (l_status l))"
    "fresh_row E S1 = (n, S2)" "\<forall>v \<in> set (dd_events S2). dv_loan v = l_id l \<longrightarrow> dv_created v \<noteq> ev_now E"
    "S' = apply_decision t l (decision_row E a t l p (latest_risk t (l_id l) (mb_db S)) fraud (mb_db S1) d n) (dr_status r) S2"
proof -
  from assms obtain fraud S1 where f: "evaluateApplication E (l_id l) t S = Inr (fraud, S1)"
    by (auto simp: decide_anew_def Let_def chain_eq_Inr)
  let ?d = "decide_outcome a t l p (latest_risk t (l_id l) (mb_db S)) fraud (mb_db S1)"
  obtain n S2 where n: "fresh_row E S1 = (n, S2)" by (cases "fresh_row E S1")
  from assms have r: "r = \<lparr>dr_decision = fst ?d, dr_status = getTransitionTarget (l_status l) (fst ?d), dr_event = n, dr_reasons = snd ?d\<rparr>"
    and S': "S' = apply_decision t l (decision_row E a t l p (latest_risk t (l_id l) (mb_db S)) fraud (mb_db S1) ?d n)
      (getTransitionTarget (l_status l) (fst ?d)) S2"
    and v: "getTransitionTarget (l_status l) (fst ?d) \<in> set (getAllowedTransitions (l_status l))"
    and u: "\<forall>v \<in> set (dd_events S2). dv_loan v = l_id l \<longrightarrow> dv_created v \<noteq> ev_now E"
    by (auto simp: decide_anew_def f n chain_eq_Inr Let_def assertValidTransition_def split: if_splits)
  show thesis by (rule that [OF f refl _ _ _ _ _ n u]) (use v in \<open>simp_all add: r S'\<close>)
qed

lemma fresh_row_frame:
  "fresh_row E S = (i, S') \<Longrightarrow> same_review S S' \<and> fraud_desk.more S' = fraud_desk.more S"
  by (auto simp: fresh_row_def fresh_def same_review_def)

lemma decide_anew_frame:
  assumes "decide_anew E a t l p S = Inr (r, S')"
  shows "db_loans (mb_db S') = update_where (\<lambda>m. l_id m = l_id l) (\<lambda>m. m\<lparr>l_status := dr_status r\<rparr>) (db_loans (mb_db S))"
    "db_risk_evals (mb_db S') = db_risk_evals (mb_db S)" "fd_policies S' = fd_policies S"
proof -
  obtain fraud S1 n S2 v where f: "evaluateApplication E (l_id l) t S = Inr (fraud, S1)" "fresh_row E S1 = (n, S2)"
    and S': "S' = apply_decision t l v (dr_status r) S2"
    using decide_anew_Inr [OF assms] by metis
  have "same_review S S2" using evaluation_same_review [OF f(1)] fresh_row_frame [OF f(2)] same_review_trans by blast
  then show "db_loans (mb_db S') = update_where (\<lambda>m. l_id m = l_id l) (\<lambda>m. m\<lparr>l_status := dr_status r\<rparr>) (db_loans (mb_db S))"
    "db_risk_evals (mb_db S') = db_risk_evals (mb_db S)" "fd_policies S' = fd_policies S"
    by (simp_all add: S' apply_decision_def same_review_def)
qed

definition review_inv :: "string \<Rightarrow> decision_desk \<Rightarrow> bool" where
  "review_inv i S \<longleftrightarrow> app_inv i (mb_db S) \<and> status_of i (mb_db S) = Some LS_UNDER_REVIEW \<and> list_all (\<lambda>p. \<not> dp_reeval p) (fd_policies S)"

lemma review_inv_same: "same_review S S' \<Longrightarrow> review_inv i S \<Longrightarrow> review_inv i S'"
  using app_inv_same [of i "mb_db S" "mb_db S'"] by (simp add: review_inv_def same_review_def status_of_def)

lemma decide_keeps_review:
  assumes inv: "review_inv i S" and d: "decideAndTransition E a t k S = Inr (r, S')"
  shows "review_inv i S'"
proof -
  obtain p S1 where p: "ensure_decision_policy E t S = (p, S1)" by (cases "ensure_decision_policy E t S")
  note fr = ensure_policy_frame [OF p]
  have inv1: "review_inv i S1"
    using inv fr(5) app_inv_same [OF _ fr(1,2)] by (simp add: review_inv_def status_of_def fr(1))
  then have np: "\<not> dp_reeval p" using fr(4) by (auto simp: review_inv_def list_all_iff)
  from d obtain l where l: "find_loan t k (mb_db S) = Some l"
    by (auto simp: decideAndTransition_def chain_eq_Inr split: option.splits)
  consider "S' = S1" | (anew) "l_status l = LS_SUBMITTED" "decide_anew E a t l p S1 = Inr (r, S')"
    using d np by (auto simp: decideAndTransition_def chain_eq_Inr l p Let_def split: if_splits option.splits)
  then show ?thesis
  proof cases
    case anew
    have ids: "loan_ids_ok (mb_db S)" using inv by (simp add: review_inv_def app_inv_def)
    note s = status_found [OF ids l [unfolded find_loan_def]]
    have ne: "l_id l \<noteq> i" using s anew(1) inv by (auto simp: review_inv_def)
    note da = decide_anew_frame [OF anew(2)]
    have "status_of i (mb_db S') = status_of i (mb_db S1)" using ne by (simp add: status_of_def da(1) map_of_status)
    moreover have "loan_ids_ok (mb_db S')" using inv1 by (simp add: review_inv_def app_inv_def loan_ids_ok_def da(1) map_update_where)
    ultimately show ?thesis using inv1 unfolding review_inv_def app_inv_def evaluated_def da(2,3) by auto
  qed (use inv1 in simp)
qed

lemma review_call_keeps: "review_inv i S \<Longrightarrow> review_inv i (snd (exec_review fl c S))"
proof -
  assume inv: "review_inv i S"
  obtain E c' where c: "c = (E, c')" by (cases c)
  show ?thesis
  proof (cases c')
    case (App_request t b)
    obtain r D where e: "exec_app (E, t, b) (mb_db S) = (r, D)" by (cases "exec_app (E, t, b) (mb_db S)")
    have "app_inv i D" "status_of i D = Some LS_UNDER_REVIEW"
      using call_keeps_app_inv [of i "mb_db S" "(E, t, b)"] app_call_stuck [of i "mb_db S" "(E, t, b)"] inv
      by (simp_all add: e review_inv_def)
    then show ?thesis using inv by (simp add: c App_request e review_inv_def)
  next
    case (Fraud_request f)
    then show ?thesis using review_inv_same [OF fraud_same_review inv] by (simp add: c)
  next
    case (Decide P k)
    then show ?thesis
      using decide_keeps_review [OF inv] inv by (auto simp: c admin_decide_def split: sum.split)
  qed
qed

interpretation review_calls: invariant_calls "exec_review fl" "review_inv i" for fl i
  by unfold_locales (rule review_call_keeps)


lemma transition_sets_status:
  assumes "transitionStatus E t i to role remark ad D = Inr D'" "loan_ids_ok D"
  shows "status_of i D' = Some to"
proof (rule transitionStatus_Inr [OF assms(1)])
  fix D2
  assume tx: "transition_tx E t i to role remark (trim_or_null ad) D = Inr D2" and D': "db_loans D' = db_loans D2"
  show ?thesis
  proof (rule transition_Inr [OF tx])
    fix l a ov D1
    assume l: "find (\<lambda>l. l_id l = i \<and> l_tenant l = t) (db_loans D) = Some l"
      and r: "risk_step E t l to (trim_or_null ad) D = Inr ((a, ov), D1)"
      and loans: "db_loans D2 = update_where (\<lambda>m. l_id m = l_id l) (\<lambda>m. m\<lparr>l_status := to\<rparr>) (db_loans D1)"
    note s = status_found [OF assms(2) l]
    have "status_of i D1 = Some (l_status l)" using rates_status [OF risk_step_rates [OF r], of i] s(1) by simp
    then show ?thesis by (simp add: status_of_def D' loans s(2) map_of_status)
  qed
qed



section \<open>Decisions are repeated\<close>

lemma sort_key_least_last:
  "\<forall>x \<in> set xs. f v < f x \<Longrightarrow> sort_key f (xs @ [v]) = v # sort_key f xs"
  by (induction xs) (auto simp: not_le)

lemma events_of_more:
  fixes S S' :: decision_desk
  assumes "fraud_desk.more S' = fraud_desk.more S"
  shows "dd_events S' = dd_events S"
  using assms by (cases S; cases S') simp

lemma evaluation_keeps_events:
  fixes S S' :: decision_desk
  assumes "evaluateApplication E i t S = Inr (fraud, S')"
  shows "dd_events S' = dd_events S"
proof (rule events_of_more)
  obtain b gs where f: "fraud = (b, gs)" by (cases fraud)
  show "fraud_desk.more S' = fraud_desk.more S"
    by (rule evaluate_application_Inr [OF assms [unfolded f]]) (simp add: desk_kept_def)
qed

lemma policy_stays:
  assumes "ensure_decision_policy E t S = (p, S1)" "fd_policies S2 = fd_policies S1"
  shows "ensure_decision_policy E' t S2 = (p, S2)"
proof -
  have "active_policy t S1 = Some p"
  proof (cases "active_policy t S")
    case None
    then have "filter (\<lambda>p. dp_tenant p = t \<and> dp_active p \<and> dp_product p = None) (fd_policies S) = []"
      by (auto simp: active_policy_def find_None_iff filter_empty_conv)
    then show ?thesis
      using assms(1) None by (auto simp: ensure_decision_policy_def active_policy_def fresh_row_def fresh_def Let_def default_decision_policy_def)
  qed (use assms(1) in \<open>simp add: ensure_decision_policy_def\<close>)
  then have "active_policy t S2 = Some p" by (simp add: active_policy_def assms(2))
  then show ?thesis by (simp add: ensure_decision_policy_def)
qed

text \<open>
  A decision is made once: under a policy without re-evaluation, asking again, by whoever may ask, gives
  the decision, the event and the reasons of the first time and leaves everything as it is.
\<close>

lemma decision_is_repeated:
  assumes "decideAndTransition E a t i S = Inr (r, S')" "find_loan t i (mb_db S) = Some l" "l_status l = LS_SUBMITTED"
    and "list_all (\<lambda>p. \<not> dp_reeval p) (fd_policies S)"
    and "\<forall>v \<in> set (dd_events S). dv_loan v = i \<longrightarrow> dv_created v < ev_now E" and "decision_assertCanRun a' = Inr ()"
  shows "decideAndTransition E' a' t i S' = Inr (r, S')"
proof -
  have li: "l_id l = i" "l_tenant l = t" using find_loanD [OF assms(2)] by simp_all
  obtain p S1 where p: "ensure_decision_policy E t S = (p, S1)" by (cases "ensure_decision_policy E t S")
  note fr = ensure_policy_frame [OF p]
  have np: "\<not> dp_reeval p" using fr(4) fr(5) [OF assms(4)] by (auto simp: list_all_iff)
  have anew: "decide_anew E a t l p S1 = Inr (r, S')"
    using assms(1-3) by (simp add: decideAndTransition_def chain_eq_Inr p Let_def)
  note da = decide_anew_frame [OF anew]
  have pol: "ensure_decision_policy E' t S' = (p, S')" by (rule policy_stays [OF p da(3)])
  have found: "find_loan t i (mb_db S') = Some (l\<lparr>l_status := dr_status r\<rparr>)"
    using assms(2) unfolding find_loan_def da(1) fr(1) li by (subst find_update_keyed) simp_all
  show ?thesis
  proof (rule decide_anew_Inr [OF anew])
    fix fraud d n and S2 S3 :: decision_desk
    assume ev: "evaluateApplication E (l_id l) t S1 = Inr (fraud, S2)" and fresh: "fresh_row E S2 = (n, S3)"
      and r: "dr_decision r = fst d" "dr_reasons r = snd d" "dr_status r = getTransitionTarget (l_status l) (fst d)" "dr_event r = n"
      and S': "S' = apply_decision t l (decision_row E a t l p (latest_risk t (l_id l) (mb_db S1)) fraud (mb_db S2) d n) (dr_status r) S3"
    let ?v = "decision_row E a t l p (latest_risk t (l_id l) (mb_db S1)) fraud (mb_db S2) d n"
    have "dd_events S3 = dd_events S"
      using evaluation_keeps_events [OF ev] fresh_row_frame [OF fresh] events_of_more [of S3 S2] fr(3) by simp
    then have "dd_events S' = dd_events S @ [?v]" by (simp add: S' apply_decision_def)
    moreover have "dv_tenant ?v = t" "dv_loan ?v = i" "dv_created ?v = ev_now E" "dv_id ?v = n" "dv_decision ?v = fst d"
      "dv_reasons ?v = snd d"
      by (simp_all add: decision_row_def li)
    ultimately have "latest_decision t i S' = Some ?v"
      using assms(5) sort_key_least_last [of "filter (\<lambda>v. dv_tenant v = t \<and> dv_loan v = i) (dd_events S)" "\<lambda>v. - dv_created v" ?v]
      by (simp add: latest_decision_def)
    moreover have "dr_status r \<noteq> LS_SUBMITTED" by (simp add: r(3) getTransitionTarget_def)
    moreover have "replayed_decision (l\<lparr>l_status := dr_status r\<rparr>) ?v = r"
      by (simp add: replayed_decision_def r(1,2,4) decision_row_def)
    ultimately show ?thesis
      by (simp add: decideAndTransition_def assms(6) found li pol np Let_def)
  qed
qed

section \<open>Decided first\<close>

text \<open>
  An application that is decided before anything was evaluated has no score: unless the fraud check blocks
  it, it goes under review with the reason \<open>MISSING_RISK_DATA\<close> and still without an evaluation. A super
  admin's approval then makes the first evaluation, and goes through exactly when the gate lets its outcome
  pass: the order of the two ways to put an application under review decides whether it can be approved.
\<close>

lemma decided_first_can_be_approved:
  assumes "find_loan t i (mb_db S) = Some l" "l_status l = LS_SUBMITTED" "\<not> evaluated i (mb_db S)"
    and "loan_ids_ok (mb_db S)" "trim (l_phone l) \<noteq> ''''"
    and "decideAndTransition E a t i S = Inr (r, S')" "dr_status r \<noteq> LS_REJECTED"
    and "evaluateAndPersist E' t i SYSTEM_REEVAL None (mb_db S') = Inr ((v, x), D1)"
  shows "dr_decision r = DN_MANUAL_REVIEW \<and> ''MISSING_RISK_DATA'' \<in> set (dr_reasons r) \<and>
    status_of i (mb_db S') = Some LS_UNDER_REVIEW \<and> \<not> evaluated i (mb_db S') \<and>
    ((\<exists>D'. transitionStatus E' t i LS_APPROVED SUPER_ADMIN None None (mb_db S') = Inr D') \<longleftrightarrow>
       enforceRiskGate LS_APPROVED x (map lh_type (listActiveHolds t i D1)) False = Inr ())"
proof -
  have li: "l_id l = i" "l_tenant l = t" using find_loanD [OF assms(1)] by simp_all
  obtain p S1 where p: "ensure_decision_policy E t S = (p, S1)" by (cases "ensure_decision_policy E t S")
  note fr = ensure_policy_frame [OF p]
  have anew: "decide_anew E a t l p S1 = Inr (r, S')"
    using assms(1,2,6) by (simp add: decideAndTransition_def chain_eq_Inr p Let_def)
  obtain fraud and S2 :: decision_desk where d: "(dr_decision r, dr_reasons r) = decide_outcome a t l p (latest_risk t (l_id l) (mb_db S1)) fraud (mb_db S2)"
    "dr_status r = getTransitionTarget (l_status l) (dr_decision r)"
  proof (rule decide_anew_Inr [OF anew])
    fix fraud d and S2 :: decision_desk
    assume "d = decide_outcome a t l p (latest_risk t (l_id l) (mb_db S1)) fraud (mb_db S2)" "dr_decision r = fst d" "dr_reasons r = snd d"
      "dr_status r = getTransitionTarget (l_status l) (fst d)"
    then show thesis by (intro that [of fraud S2]) simp_all
  qed
  have "latest_risk t (l_id l) (mb_db S1) = None"
    using assms(3) by (auto simp: latest_risk_def evaluated_def li fr find_None_iff)
  then have dec: "dr_decision r = DN_MANUAL_REVIEW \<and> ''MISSING_RISK_DATA'' \<in> set (dr_reasons r)"
    using d assms(2,7)
    by (auto simp: decide_outcome_def computeDecisionFromInputs_def getTransitionTarget_def Let_def split: if_splits prod.splits)
  then have to: "dr_status r = LS_UNDER_REVIEW" using d(2) assms(2) by (simp add: getTransitionTarget_def)
  note da = decide_anew_frame [OF anew]
  have found: "find (\<lambda>l. l_id l = i \<and> l_tenant l = t) (db_loans (mb_db S')) = Some (l\<lparr>l_status := LS_UNDER_REVIEW\<rparr>)"
    using assms(1) unfolding find_loan_def da(1) to fr(1) li by (subst find_update_keyed) simp_all
  have ids: "loan_ids_ok (mb_db S')" using assms(4) by (simp add: loan_ids_ok_def da(1) fr(1) map_update_where)
  note st = status_found [OF ids found]
  have ne: "\<not> evaluated i (mb_db S')" using assms(3) by (simp add: evaluated_def da(2) fr(2))
  then have nov: "\<not> rw_override (getRiskSnapshot t i (mb_db S'))"
    by (intro no_override_view) (auto simp: evaluated_def)
  let ?l = "l\<lparr>l_status := LS_UNDER_REVIEW\<rparr>"
  have l': "l_id ?l = i" "l_tenant ?l = t" "l_status ?l = LS_UNDER_REVIEW" "l_phone ?l = l_phone l" by (simp_all add: li)
  have rs: "risk_step E' t ?l LS_APPROVED None (mb_db S') = Inr ((x, False), D1)"
    by (simp add: risk_step_def li nov assms(8))
  from evaluate_Inr [OF assms(8)] obtain pc D0 where "ensureActivePolicy E' t (mb_db S') = Inr (pc, D0)" by metis
  then have t: "t \<noteq> ''''" by (auto simp: ensureActivePolicy_def requireTenantId_def)
  have ap: "approval_step t ?l SUPER_ADMIN D1 = Inr ()" by (simp add: approval_step_Inr)
  have m: "LS_APPROVED \<in> set (getAllowedTransitions LS_UNDER_REVIEW)" "roleCanTransition SUPER_ADMIN LS_UNDER_REVIEW LS_APPROVED"
    by (simp_all add: roleCanTransition_def)
  have none: "trim_or_null None = None" by (simp add: trim_or_null_def)
  have "(\<exists>D'. transitionStatus E' t i LS_APPROVED SUPER_ADMIN None None (mb_db S') = Inr D') \<longleftrightarrow>
      enforceRiskGate LS_APPROVED x (map lh_type (listActiveHolds t i D1)) False = Inr ()"
    unfolding transitionStatus_def transition_tx_def found none option.case l'
    by (cases "enforceRiskGate LS_APPROVED x (map lh_type (listActiveHolds t i D1)) False")
      (simp_all add: li t assertTenantMatch_def rs ap m count_step_def count_behavior_def assms(5) write_off_step_def
        assertValidTransition_def assertRoleCanTransition_def ensure_def)
  with dec st(1) ne show ?thesis by simp
qed

section \<open>Witnesses\<close>

definition review_officer :: principal where
  "review_officer = \<lparr>pc_admin = ''adm'', pc_tenant = ''ten'', pc_role = CREDIT_OFFICER\<rparr>"

text \<open>An application with a score of 950 points.\<close>

definition good_application :: loan where
  "good_application =
     sample_loan\<lparr>l_status := LS_SUBMITTED, l_employment := Some ''EMPLOYED'', l_income := Some ''HIGH'',
       l_email := Some ''a@b'', l_address := Some ''x'', l_dob := Some 0\<rparr>"

definition good_desk :: decision_desk where
  "good_desk =
     \<lparr>mb_db = loan_db\<lparr>db_loans := [good_application], db_items := [], db_policies := [], db_risk_evals := [], db_alerts := [],
        db_borrower_holds := [], db_holds := [], db_admins := []\<rparr>, mb_notices = [],
      mb_outbox = [], mb_sms = [], fd_signals = [], fd_links = [], fd_blacklist = [], fd_aggregates = [],
      fd_behavior = [], fd_policies = [], fd_created = (\<lambda>_. 0), dd_events = []\<rparr>"

lemma good_evaluation:
  assumes "evaluateAndPersist sample_env ''ten'' ''loan'' trigger b D = Inr ((v, a), D1)" "db_policies D = []" "db_items D = []"
    and "db_loans D = [good_application\<lparr>l_status := s\<rparr>]"
  shows "rk_decision a = RD_APPROVE"
proof -
  from assms(1) obtain p c D0 l sn where en: "ensureActivePolicy sample_env ''ten'' D = Inr ((p, c), D0)"
    and b: "buildSnapshot (ev_now sample_env) ''ten'' ''loan'' D0 = Inr (l, sn)"
    and a: "a = computeRiskFromInput sn c (pl_name p) (pl_version p)"
    by (auto simp: evaluateAndPersist_def chain_eq_Inr Let_def)
  have c: "c = default_config"
    using en assms(2) by (auto simp: ensureActivePolicy_def chain_eq_Inr active_policies_def create_policy_def fresh_def
        split: option.splits if_splits)
  have sn: "sn_employment sn = Some ''EMPLOYED''" "sn_income sn = Some ''HIGH''" "sn_kyc sn = ''FULL''" "\<not> sn_active_default sn"
    "sn_amount sn = 100" "sn_on_time sn = 1" "sn_emulator sn = None"
    using b ensureActivePolicy_frame [OF en] assms(3,4)
    by (auto simp: buildSnapshot_def outcome_simps Let_def find_loan_def good_application_def sample_loan_def kyc_level_def filled_def
        other_loans_def on_time_rate_def sample_tenant split: if_splits)
  have "default_rest sn = 325" using sn by (simp add: default_rest_def Let_def factors_def device_factor_def default_config_def js_round_def)
  moreover have "default_rate_delta 1 = 125" by (simp add: default_rate_delta_def js_round_def)
  ultimately show ?thesis
    using default_score [of sn "pl_name p" "pl_version p"] sn
    by (simp add: a c clampScore_def decide_risk_def) (simp add: default_config_def)
qed

lemma good_found:
  "find (\<lambda>l. l_id l = ''loan'' \<and> l_tenant l = ''ten'') (db_loans (mb_db good_desk)) = Some good_application"
  by (simp add: good_desk_def good_application_def sample_loan_def)

lemma good_fields:
  "l_id good_application = ''loan''" "l_tenant good_application = ''ten''" "l_status good_application = LS_SUBMITTED"
  "l_phone good_application = ''080''" "good_application\<lparr>l_status := LS_SUBMITTED\<rparr> = good_application"
  by (simp_all add: good_application_def sample_loan_def)

lemma good_tables:
  "db_loans (mb_db good_desk) = [good_application]" "db_policies (mb_db good_desk) = []" "db_items (mb_db good_desk) = []"
  "db_risk_evals (mb_db good_desk) = []" "db_holds (mb_db good_desk) = []" "db_admins (mb_db good_desk) = []"
  "db_alerts (mb_db good_desk) = []" "fd_policies good_desk = []" "fd_signals good_desk = []" "dd_events good_desk = []"
  by (simp_all add: good_desk_def)

lemma first_evaluation:
  assumes "find_loan ''ten'' ''loan'' D = Some l" "db_policies D = []" "db_risk_evals D = []"
  obtains v a D1 where "evaluateAndPersist sample_env ''ten'' ''loan'' trigger b D = Inr ((v, a), D1)"
proof -
  have "\<exists>pc D1. ensureActivePolicy sample_env ''ten'' D = Inr (pc, D1)"
    using assms(2) by (simp add: ensureActivePolicy_def sample_tenant active_policies_def create_policy_def fresh_def)
  then obtain p c D1 where "ensureActivePolicy sample_env ''ten'' D = Inr ((p, c), D1)"
    by (elim exE) (rename_tac pc D1, case_tac pc, simp)
  moreover have "\<not> evaluated ''loan'' D" using assms(3) by (simp add: evaluated_def)
  ultimately have "\<exists>r D'. evaluateAndPersist sample_env ''ten'' ''loan'' trigger b D = Inr (r, D')"
    using first_evaluation_succeeds [OF sample_tenant assms(1), of sample_env] by blast
  then show ?thesis using that by (elim exE) (rename_tac r D', case_tac r, simp)
qed


text \<open>Decided first, the same application is approved.\<close>

lemma good_decision:
  obtains r S' where "admin_decide sample_env review_officer ''loan'' good_desk = Inr (r, S')" "dr_status r = LS_UNDER_REVIEW"
    "db_policies (mb_db S') = []" "db_items (mb_db S') = []" "db_loans (mb_db S') = [good_application\<lparr>l_status := LS_UNDER_REVIEW\<rparr>]"
    "db_risk_evals (mb_db S') = []" "db_holds (mb_db S') = []"
proof -
  have tr: "triggered now ''ten'' good_application S = []" if "fd_blacklist S = []" "db_loans (mb_db S) = [good_application]"
    "fd_behavior S = []" "fd_policies S = [default_decision_policy sample_env ''ten'' i]" for now i and S :: decision_desk
    using that by (simp add: triggered_def blacklist_rule_def velocity_rule_def score_rule_def behavior_rule_def
        behavior_of_def device_rule_def device_of_def exposure_rule_def active_policy_def default_decision_policy_def active_exposure_def
        good_application_def sample_loan_def)
  have "\<exists>r S'. admin_decide sample_env review_officer ''loan'' good_desk = Inr (r, S') \<and> dr_status r = LS_UNDER_REVIEW \<and>
    db_policies (mb_db S') = [] \<and> db_items (mb_db S') = [] \<and> db_loans (mb_db S') = [good_application\<lparr>l_status := LS_UNDER_REVIEW\<rparr>] \<and>
    db_risk_evals (mb_db S') = [] \<and> db_holds (mb_db S') = []"
    by (simp add: admin_decide_def review_officer_def decideAndTransition_def decision_assertCanRun_def ensure_def find_loan_def good_desk_def
        good_fields ensure_decision_policy_def active_policy_def fresh_row_def fresh_def Let_def default_decision_policy_def latest_decision_def
        decide_anew_def latest_risk_def evaluateApplication_def assertTenantMatch_def tr decide_outcome_def computeDecisionFromInputs_def
        getTransitionTarget_def assertValidTransition_def assertRoleCanTransition_def roleCanTransition_def apply_decision_def)
  then show thesis using that by (elim exE conjE)
qed


lemma decided_first_can_be_approved_witness:
  "\<exists>r S' D'. admin_decide sample_env review_officer ''loan'' good_desk = Inr (r, S') \<and> dr_decision r = DN_MANUAL_REVIEW \<and>
     transitionStatus sample_env ''ten'' ''loan'' LS_APPROVED SUPER_ADMIN None None (mb_db S') = Inr D'"
proof -
  obtain r S' where d: "admin_decide sample_env review_officer ''loan'' good_desk = Inr (r, S')" "dr_status r = LS_UNDER_REVIEW"
    and S': "db_policies (mb_db S') = []" "db_items (mb_db S') = []" "db_loans (mb_db S') = [good_application\<lparr>l_status := LS_UNDER_REVIEW\<rparr>]"
    "db_risk_evals (mb_db S') = []" "db_holds (mb_db S') = []"
    by (rule good_decision)
  have f: "find_loan ''ten'' ''loan'' (mb_db S') = Some (good_application\<lparr>l_status := LS_UNDER_REVIEW\<rparr>)"
    by (simp add: find_loan_def S'(3) good_fields)
  obtain v x D1 where ev: "evaluateAndPersist sample_env ''ten'' ''loan'' SYSTEM_REEVAL None (mb_db S') = Inr ((v, x), D1)"
    by (rule first_evaluation [OF f S'(1,4)])
  have "rk_decision x = RD_APPROVE" by (rule good_evaluation [OF ev S'(1-3)])
  moreover have "listActiveHolds ''ten'' ''loan'' D1 = []"
  proof (rule evaluate_Inr [OF ev])
    fix pc D0 w
    assume en: "ensureActivePolicy sample_env ''ten'' (mb_db S') = Inr (pc, D0)"
      and D1: "D1 = persistAssessment ''ten'' ''loan'' (snd (v, x)) None (D0\<lparr>db_seq := Suc (db_seq D0), db_risk_evals := db_risk_evals D0 @ [w],
        db_loans := update_where (\<lambda>m. l_id m = ''loan'') (rated (snd (v, x)) w) (db_loans D0)\<rparr>)"
    show ?thesis using ensureActivePolicy_frame [OF en] by (simp add: listActiveHolds_def D1 persistAssessment_def Let_def S'(5))
  qed
  ultimately have g: "enforceRiskGate LS_APPROVED x (map lh_type (listActiveHolds ''ten'' ''loan'' D1)) False = Inr ()"
    by (simp add: risk_gate_passes_iff)
  have "decideAndTransition sample_env (By_admin ''adm'' (Some CREDIT_OFFICER)) ''ten'' ''loan'' good_desk = Inr (r, S')"
    using d(1) by (simp add: admin_decide_def review_officer_def)
  moreover have "\<not> evaluated ''loan'' (mb_db good_desk)" "loan_ids_ok (mb_db good_desk)" "trim (l_phone good_application) \<noteq> ''''"
    by (simp_all add: evaluated_def loan_ids_ok_def good_tables good_fields trim_def is_space_def)
  ultimately have "dr_decision r = DN_MANUAL_REVIEW"
    "\<exists>D'. transitionStatus sample_env ''ten'' ''loan'' LS_APPROVED SUPER_ADMIN None None (mb_db S') = Inr D'"
    using decided_first_can_be_approved [OF good_found [folded find_loan_def] good_fields(3) _ _ _ _ _ ev] d(2) g by auto
  with d(1) show ?thesis by blast
qed

end
