(* ===== verification/Spec2Isabelle.thy ===== *)
theory Spec2Isabelle
  imports LoanLifecycle Amortization OfferEngine TenantLedger Idempotency FinanceInvariants Treasury
    Tenancy RepaymentProofs CollectionsScan Jobs LoanApplications Disbursement CursorPagination Hardship AdminCollections PaymentIntents CaseManagement
    DecisionProofs
begin

text \<open>
  A verification development for the loan platform's API (\<open>apps/api/src\<close>): the life of a loan from
  the application over risk, approval, disbursement, interest, repayment, arrears, hardship and
  write-off, the double entry ledger and the treasury under it, and the idempotency, job queue and
  paging layers around it. File names below are relative to \<open>apps/api/src\<close>.

  \<^bold>\<open>How the model reads.\<close> A table of \<open>prisma/schema.prisma\<close> is a list of records, an enumeration a
  datatype, the database one record (\<open>db\<close>) that an operation takes and returns. An operation that
  can throw returns an \<open>outcome\<close>: \<open>Inl\<close> the exception (\<open>BadRequest\<close>, \<open>Forbidden\<close>, \<open>Conflict\<close>,
  \<open>NotFound\<close>, \<open>Internal\<close>) or \<open>Inr\<close> the result; \<open>Inl\<close> carries no database, which is the rollback of a
  transaction, and an operation that fails outside of one returns the pair of outcome and database.
  \<open>findFirst\<close> is \<open>find\<close> over the rows, \<open>orderBy\<close> a stable sort, a unique constraint of the schema a
  branch that fails. What a service asks of audit, notification, fraud and outbox services is
  recorded in order in \<open>db_effects\<close>, except where the component itself is modelled. Money (\<open>Decimal(18,2)\<close>) is rational with the rounding written out
  as \<open>money\<close>; products and quotients that need more digits go through the parameter \<open>decimal_ops\<close>.
  Dates are integers in milliseconds. A request reads the clock once (\<open>ev_now\<close>) and takes identifiers
  from the parameter \<open>ev_cuid\<close> by the counter \<open>db_seq\<close>.

  \<^bold>\<open>Shared layer.\<close> \<open>Prelude\<close>: outcomes and their chaining, rounding, rows, strings, and the fact
  collections the proofs use. \<open>DataModel\<close>: rows, enumerations, database, environment, samples.
  \<open>Calendar\<close>: the UTC calendar arithmetic of JavaScript dates. \<open>TextCodec\<close>: base64url,
  \<open>JSON.stringify\<close> and \<open>JSON.parse\<close>, ISO dates, each with its round trip; the JSON parser has the
  length of its input as fuel, which bounds the depth of nesting. \<open>Splitting\<close>, \<open>LedgerPort\<close> and
  \<open>BoundedWork\<close> hold the interfaces, as locales: \<open>splitter\<close> (a function that splits a total into parts,
  interpreted on the schedule's and on the offer's splitting), \<open>ledger_port\<close> (a journal that appends
  balanced entries under keys, interpreted on \<open>post_entry\<close>), \<open>invariant_calls\<close> and \<open>bounded_work\<close> (calls
  that keep an invariant, calls that pay for their work, interpreted on the job queue, on the applications,
  on the disbursements, on the collections cases, on the notifications and on the decisions; \<open>granted_work\<close>
  extends the second by calls that grant more work, which are the retries and releases of a job).

  \<^bold>\<open>Lending.\<close>
  \<open>LoanLifecycle\<close>: \<open>modules/loan-applications/loan-application-status-transition.ts\<close> and
  \<open>loan-application-transition-rbac.ts\<close>, the transition map, the role matrix, runs of transitions
  (a statement about the two tables; the operations that do not ask them are with their components).
  \<open>Risk\<close>: \<open>risk/risk.service.ts\<close> with its policies, score, gate, holds and overrides.
  \<open>LoanApplications\<close>: \<open>modules/loan-applications/loan-applications.service.ts\<close>, submission and the
  guarded transitions; sequences of requests and their invariant.
  \<open>Fraud\<close> and \<open>FraudProofs\<close>: the evaluation, manual flags, scores, alerts and holds of \<open>modules/fraud\<close>.
  \<open>Decisions\<close> and \<open>DecisionProofs\<close>: \<open>modules/loan-applications/decision/loan-decision-orchestrator.service.ts\<close>
  and the sequences of requests to the application, risk, decision and fraud services together.
  \<open>Amortization\<close>: \<open>loan/repayment/amortization.ts\<close>. \<open>OfferEngine\<close>:
  \<open>modules/loan-products/offer-engine.ts\<close>.
  \<open>Disbursement\<close> and \<open>LoanInterest\<close>: the parts of
  \<open>modules/admin-loan-applications/admin-loan-applications.service.ts\<close> that pay a loan out, retry and
  reverse the payment, accrue interest; \<open>loan-interest-control.service.ts\<close> beside it. The first accrual of a
  loan starts at its \<open>updatedAt\<close>, which every write of the row moves: it is the argument \<open>updated\<close> of the
  accrual, and the theorem about pauses takes a loan accrued before, for which it does not matter.
  \<open>Repayment\<close> and \<open>RepaymentProofs\<close>: \<open>loan/repayment/repayment.service.ts\<close> and
  \<open>modules/loan-applications/repayment-allocation.ts\<close>, allocation of a payment and its posting.
  \<open>Hardship\<close>: \<open>modules/hardship/hardship.service.ts\<close>, requests, decisions, pause and new schedule.

  \<^bold>\<open>Arrears.\<close>
  \<open>Delinquency\<close>: the two engines that derive days past due, bucket and overdue amount, the delinquency
  engine (\<open>engine_turn\<close>) and the service of the collections with its own copy of the loop (\<open>service_turn\<close>),
  each translated from its own lines and proved to agree. \<open>Penalty\<close>:
  \<open>modules/collections/penalty.service.ts\<close>. \<open>CollectionsScan\<close>:
  \<open>modules/collections/collections-scan.service.ts\<close>, the scan that opens, updates and resolves cases.
  \<open>AdminCollections\<close>: \<open>modules/admin-collections/admin-collections.service.ts\<close>, what admins do with
  cases and overdue loans. \<open>CaseManagement\<close>: \<open>modules/case-management\<close>, the cases of borrowers, their transitions
  and assignments.

  \<^bold>\<open>Money.\<close>
  \<open>TenantLedger\<close>: \<open>common/ledger/tenant-ledger.service.ts\<close>, its chart of accounts and
  \<open>loan-balance.service.ts\<close>. \<open>FinanceInvariants\<close>: \<open>common/finance\<close>. \<open>Treasury\<close>:
  \<open>treasury/treasury.service.ts\<close> and its exposure guard, pools of capital and their allocations.

  \<open>PaymentIntents\<close>: \<open>modules/payments/payment-intents.service.ts\<close> and the Paystack gateway, payments and
  payouts through the provider, with their webhook and reconciliation.

  \<^bold>\<open>Platform.\<close>
  \<open>Tenancy\<close>: \<open>common/tenancy\<close>. \<open>Idempotency\<close>: the two layers of \<open>common/idempotency\<close>, with the
  interleaving of two requests under one key. \<open>JobQueue\<close> and \<open>Jobs\<close>: \<open>common/jobs\<close>, the workers and the
  administration of jobs. \<open>Notifications\<close>: \<open>common/notifications\<close>, the notifications of users and their
  outbox. \<open>CursorPagination\<close>: \<open>common/pagination\<close> and the audit log of
  \<open>modules/admin-audit-logs\<close>, which is read with it.

  \<^bold>\<open>What the lemmas show.\<close> Money: an allocation is the greedy filling of instalments and conserves
  the amount, a repayment lowers the balance by exactly what it posts, schedules and offers account
  for every kobo, entries balance, reversals cancel, the trial balance holds, write-offs and
  penalties keep the books. States: who may move a loan where, what a payment has passed, one active
  case and one open hardship request per loan, the well-formed queue. Retries: a repayment and an
  entry are replayed and not repeated, the number of times a job is handed out is bounded by its attempts and
  by what is granted to it by retries and releases. Round
  trips: base64url, JSON, dates and cursors. Several theorems state what the code does where it is
  not what it is meant to do: applications that cannot leave review once a transition put them there (one that is decided first can),
  good scores that are taken for fraud, payments only a super admin can
  make, failed payments that are never retried, an accrual job that always fails, pages that skip
  rows, notifications that are not sent or lose their mark, a pause that does not end, interest that is charged for paused days.

  \<^bold>\<open>Bounds and fuel.\<close> \<open>read_pages\<close> reads page after page with fuel; the theorem about it asks for more
  fuel than there are rows, and every page but the last takes at least one. Loops of the code over rows
  are folds. Numbers of the API are JavaScript numbers; where the code computes with them they are
  integers or rationals in the range in which the two agree.

  \<^bold>\<open>Parameters.\<close> \<open>decimal_ops\<close>: quotient and product of Decimal.js, with the rounding of their results
  as hypotheses where needed; the argument \<open>fl\<close> of the fraud scores is the rounding of a JavaScript number.
  \<open>ev_cuid\<close>: identifiers, assumed distinct where that matters. The texts of
  JSON and hashes of the idempotency layer, the parser of dates that are not ISO dates, \<open>updatedAt\<close> of a
  row, and the payment provider (\<open>world\<close>: what it answers, its signatures, who holds a lock), are
  arguments of the definitions that use them.

  \<^bold>\<open>Not modelled.\<close> Reads that only reshape rows (lists, details, dashboards, reports, exports);
  authentication, sessions and tokens; KYC, identity, mandate and bank integrations, whose logic is in
  the services they call; the worker timers; mail, metrics, logs, cache and locks over Redis; uploaded files;
  the older lending stack (\<open>modules/loans\<close>, \<open>modules/payments/repayment-processor.service.ts\<close>,
  \<open>common/ledger/ledger.service.ts\<close>), which the tenant stack replaces; reconciliation, mandates,
  portfolio and reporting services, support; the admin, borrower and mobile front ends. Controllers and data transfer objects only validate and forward. Two requests
  at once are modelled for the idempotency layer; the other operations run one transaction after the
  other, as serializable transactions do.
\<close>

end
